(* ===== verification/Prelude.thy ===== *)
theory Prelude
  imports
    Complex_Main
    "HOL-Library.AList"
    "HOL-Library.Char_ord"
    "HOL-Library.List_Lexorder"
    "HOL-Library.Monad_Syntax"
begin

section \<open>Prelude: Python values, outcomes, and the lemmas every component shares\<close>

text \<open>
  The vocabulary of the whole development.

  \<^item> \<open>json\<close> is the value a queue record, a configuration file or a tool result is made of
    after \<open>json.loads\<close> or \<open>yaml.safe_load\<close>. An object keeps its keys in insertion order,
    as a Python dict does. Integers are unbounded; a float is the rational it stands for, and its
    printed form is a parameter (\<open>float_repr\<close>) where the code prints one.
  \<^item> \<open>string\<close> is a Python \<open>str\<close> whose characters are Latin-1 code points: the character
    classes below are the ones Python's \<open>re\<close> uses, restricted to that range.
  \<^item> \<open>outcome\<close> is what a queue operation does: it returns, it raises \<open>QueueError\<close> with
    the lines of its message, or it raises something else (\<open>TypeError\<close>, \<open>KeyError\<close>).
  \<^item> Checks return the list of messages they append to the code's \<open>errors\<close> list; a check
    that can raise on malformed input returns an \<open>option\<close>, with \<open>None\<close> for the exception.
    The values a message quotes with \<open>!r\<close> are left out of the model's messages: the code only
    ever reads a message's prefix, up to the first colon.
\<close>

named_theorems query_simps "unfolding rules of the read-only queries over the tables"
named_theorems check_simps "unfolding rules of the checks run before a write"

subsection \<open>JSON values\<close>

datatype json =
    JNull
  | JBool bool
  | JInt int
  | JFloat rat
  | JStr string
  | JArr "json list"
  | JObj "(string \<times> json) list"

type_synonym obj = "(string \<times> json) list"
type_synonym errors = "string list"

text \<open>Dictionary reads: \<open>k in d\<close>, \<open>d.get(k)\<close> (absent reads as \<open>None\<close>).\<close>

definition has :: "obj \<Rightarrow> string \<Rightarrow> bool" where
  "has r k = (case map_of r k of None \<Rightarrow> False | Some _ \<Rightarrow> True)"

definition getj :: "obj \<Rightarrow> string \<Rightarrow> json" where
  "getj r k = (case map_of r k of None \<Rightarrow> JNull | Some v \<Rightarrow> v)"

fun fields_of :: "json \<Rightarrow> obj" where
  "fields_of (JObj r) = r"
| "fields_of _ = []"

definition is_obj :: "json \<Rightarrow> bool" where
  "is_obj v = (case v of JObj _ \<Rightarrow> True | _ \<Rightarrow> False)"

definition is_arr :: "json \<Rightarrow> bool" where
  "is_arr v = (case v of JArr _ \<Rightarrow> True | _ \<Rightarrow> False)"

definition is_str :: "json \<Rightarrow> bool" where
  "is_str v = (case v of JStr _ \<Rightarrow> True | _ \<Rightarrow> False)"

definition is_bool :: "json \<Rightarrow> bool" where
  "is_bool v = (case v of JBool _ \<Rightarrow> True | _ \<Rightarrow> False)"

text \<open>\<open>isinstance(v, int) and not isinstance(v, bool)\<close>.\<close>

definition is_int :: "json \<Rightarrow> bool" where
  "is_int v = (case v of JInt _ \<Rightarrow> True | _ \<Rightarrow> False)"

definition nonempty_str :: "json \<Rightarrow> bool" where
  "nonempty_str v = (case v of JStr s \<Rightarrow> s \<noteq> [] | _ \<Rightarrow> False)"

definition str_of :: "json \<Rightarrow> string" where
  "str_of v = (case v of JStr s \<Rightarrow> s | _ \<Rightarrow> [])"

definition int_of :: "json \<Rightarrow> int" where
  "int_of v = (case v of JInt i \<Rightarrow> i | _ \<Rightarrow> 0)"

definition items_of :: "json \<Rightarrow> json list" where
  "items_of v = (case v of JArr xs \<Rightarrow> xs | _ \<Rightarrow> [])"

text \<open>Python truth: \<open>None\<close>, \<open>False\<close>, zero and empty containers are false.\<close>

fun truthy :: "json \<Rightarrow> bool" where
  "truthy JNull = False"
| "truthy (JBool b) = b"
| "truthy (JInt i) = (i \<noteq> 0)"
| "truthy (JFloat q) = (q \<noteq> 0)"
| "truthy (JStr s) = (s \<noteq> [])"
| "truthy (JArr xs) = (xs \<noteq> [])"
| "truthy (JObj r) = (r \<noteq> [])"

text \<open>Iteration and \<open>len\<close>: a list, the characters of a string, the keys of a dict; anything
  else is a \<open>TypeError\<close>.\<close>

definition py_iter :: "json \<Rightarrow> json list option" where
  "py_iter v = (case v of
      JArr xs \<Rightarrow> Some xs
    | JStr s \<Rightarrow> Some (map (\<lambda>c. JStr [c]) s)
    | JObj r \<Rightarrow> Some (map (\<lambda>(k, _). JStr k) r)
    | _ \<Rightarrow> None)"

definition py_len :: "json \<Rightarrow> nat option" where
  "py_len v = map_option length (py_iter v)"

text \<open>Only scalars and strings can be a member of a Python set.\<close>

definition hashable :: "json \<Rightarrow> bool" where
  "hashable v = (\<not> is_arr v \<and> \<not> is_obj v)"

text \<open>\<open>x or []\<close>: a falsy value is replaced by the empty list.\<close>

definition or_empty :: "json \<Rightarrow> json" where
  "or_empty v = (if truthy v then v else JArr [])"

text \<open>\<open>{**d, k: v}\<close> and \<open>d[k] = v\<close>: an existing key keeps its position.\<close>

definition setj :: "obj \<Rightarrow> string \<Rightarrow> json \<Rightarrow> obj" where
  "setj r k v = AList.update k v r"

lemma map_of_setj: "map_of (setj r k v) k' = (if k' = k then Some v else map_of r k')"
  by (auto simp: setj_def update_conv')

lemma has_setj [simp]: "has (setj r k v) k' \<longleftrightarrow> k' = k \<or> has r k'"
  by (auto simp: has_def map_of_setj)

lemma getj_setj [simp]: "getj (setj r k v) k' = (if k' = k then v else getj r k')"
  by (auto simp: getj_def map_of_setj)

lemma getj_absent: "\<not> has r k \<Longrightarrow> getj r k = JNull"
  by (auto simp: has_def getj_def split: option.splits)

lemma has_getj: "has r k \<Longrightarrow> map_of r k = Some (getj r k)"
  by (auto simp: has_def getj_def split: option.splits)

lemma nonempty_strE:
  assumes "nonempty_str v"
  obtains s where "v = JStr s" and "s \<noteq> []"
  using assms by (auto simp: nonempty_str_def split: json.splits)

lemma nonempty_str_simps [simp]:
  "nonempty_str (JStr s) \<longleftrightarrow> s \<noteq> []" "\<not> nonempty_str JNull" "\<not> nonempty_str (JBool b)"
  "\<not> nonempty_str (JInt i)" "\<not> nonempty_str (JFloat q)" "\<not> nonempty_str (JArr xs)"
  "\<not> nonempty_str (JObj r)"
  by (auto simp: nonempty_str_def)

lemma json_shape_simps [simp]:
  "is_obj (JObj r)" "is_arr (JArr xs)" "is_str (JStr s)" "is_int (JInt i)"
  "str_of (JStr s) = s" "int_of (JInt i) = i" "items_of (JArr xs) = xs"
  "\<not> is_int JNull" "\<not> is_str JNull" "\<not> is_obj JNull" "\<not> is_arr JNull" "items_of JNull = []"
  "str_of JNull = []" "\<not> is_int (JBool b)"
  by (auto simp: is_obj_def is_arr_def is_str_def is_int_def str_of_def int_of_def items_of_def)

lemma is_intE:
  assumes "is_int v"
  obtains i where "v = JInt i"
  using assms by (auto simp: is_int_def split: json.splits)

subsection \<open>Outcomes\<close>

datatype 'a outcome = Ok 'a | Refused errors | Raised

definition obind :: "'a outcome \<Rightarrow> ('a \<Rightarrow> 'b outcome) \<Rightarrow> 'b outcome" where
  "obind m f = (case m of Ok a \<Rightarrow> f a | Refused es \<Rightarrow> Refused es | Raised \<Rightarrow> Raised)"

lemma obind_simps [simp]:
  "obind (Ok a) f = f a" "obind (Refused es) f = Refused es" "obind Raised f = Raised"
  by (auto simp: obind_def)

lemma obind_Ok [simp]: "obind m f = Ok b \<longleftrightarrow> (\<exists>a. m = Ok a \<and> f a = Ok b)"
  by (cases m) auto

text \<open>\<open>if errors: raise QueueError(...)\<close>.\<close>

definition refuse_if :: "errors \<Rightarrow> 'a outcome \<Rightarrow> 'a outcome" where
  "refuse_if es k = (if es = [] then k else Refused es)"

lemma refuse_if_Ok [simp]: "refuse_if es k = Ok a \<longleftrightarrow> es = [] \<and> k = Ok a"
  by (auto simp: refuse_if_def)

definition is_Ok :: "'a outcome \<Rightarrow> bool" where
  "is_Ok m = (case m of Ok _ \<Rightarrow> True | _ \<Rightarrow> False)"

lemma is_Ok_iff: "is_Ok m \<longleftrightarrow> (\<exists>a. m = Ok a)"
  by (cases m) (auto simp: is_Ok_def)

definition only_if :: "bool \<Rightarrow> string \<Rightarrow> errors" where
  "only_if b e = (if b then [e] else [])"

lemma only_if_Nil [simp]: "only_if b e = [] \<longleftrightarrow> \<not> b"
  by (simp add: only_if_def)

lemma only_if_bool [simp]: "only_if False e = []" "only_if True e = [e]"
  by (simp_all add: only_if_def)

lemma set_only_if [simp]: "set (only_if b e) = (if b then {e} else {})"
  by (simp add: only_if_def)

subsection \<open>Characters and text\<close>

abbreviation cp :: "char \<Rightarrow> nat" where
  "cp c \<equiv> of_char c"

definition digit_char :: "char \<Rightarrow> bool" where
  "digit_char c = (48 \<le> cp c \<and> cp c \<le> 57)"

text \<open>\<open>\s\<close> on a \<open>str\<close>, in the Latin-1 range.\<close>

definition space_char :: "char \<Rightarrow> bool" where
  "space_char c = (9 \<le> cp c \<and> cp c \<le> 13 \<or> 28 \<le> cp c \<and> cp c \<le> 32 \<or> cp c = 133 \<or> cp c = 160)"

text \<open>\<open>\w\<close> on a \<open>str\<close>, in the Latin-1 range: letters, digits and other numerics, underscore.\<close>

definition word_char :: "char \<Rightarrow> bool" where
  "word_char c = (let n = cp c in
     48 \<le> n \<and> n \<le> 57 \<or> 65 \<le> n \<and> n \<le> 90 \<or> 97 \<le> n \<and> n \<le> 122 \<or> n = 95 \<or>
     n = 170 \<or> n = 178 \<or> n = 179 \<or> n = 181 \<or> n = 185 \<or> n = 186 \<or> 188 \<le> n \<and> n \<le> 190 \<or>
     192 \<le> n \<and> n \<le> 214 \<or> 216 \<le> n \<and> n \<le> 246 \<or> 248 \<le> n)"

lemma digit_char_word: "digit_char c \<Longrightarrow> word_char c"
  by (auto simp: digit_char_def word_char_def Let_def)

lemma digit_char_not_space: "digit_char c \<Longrightarrow> \<not> space_char c"
  by (auto simp: digit_char_def space_char_def)

text \<open>\<open>str.lower\<close> in the Latin-1 range.\<close>

definition lower_char :: "char \<Rightarrow> char" where
  "lower_char c = (let n = cp c in
     if 65 \<le> n \<and> n \<le> 90 \<or> 192 \<le> n \<and> n \<le> 222 \<and> n \<noteq> 215 then char_of (n + 32) else c)"

definition lower :: "string \<Rightarrow> string" where
  "lower s = map lower_char s"

definition starts_with :: "string \<Rightarrow> string \<Rightarrow> bool" where
  "starts_with s p = (take (length p) s = p)"

lemma starts_with_append [simp]: "starts_with (p @ s) p"
  by (simp add: starts_with_def)

text \<open>Decimal printing: \<open>str(n)\<close>, and \<open>f"{n:04d}"\<close>.\<close>

fun dec :: "nat \<Rightarrow> string" where
  "dec n = (if n < 10 then [char_of (48 + n)] else dec (n div 10) @ [char_of (48 + n mod 10)])"

declare dec.simps [simp del]

definition dec_int :: "int \<Rightarrow> string" where
  "dec_int i = (if i < 0 then CHR ''-'' # dec (nat (- i)) else dec (nat i))"

definition pad4 :: "nat \<Rightarrow> string" where
  "pad4 n = (let s = dec n in replicate (4 - length s) (CHR ''0'') @ s)"

text \<open>\<open>int(text)\<close>: surrounding blanks, an optional sign, digits with single underscores between.\<close>

definition strip :: "string \<Rightarrow> string" where
  "strip s = rev (dropWhile space_char (rev (dropWhile space_char s)))"

fun digits_value :: "nat \<Rightarrow> bool \<Rightarrow> string \<Rightarrow> nat option" where
  "digits_value acc d [] = (if d then Some acc else None)"
| "digits_value acc d (c # cs) =
     (if digit_char c then digits_value (acc * 10 + (cp c - 48)) True cs
      else if c = CHR ''_'' \<and> d then digits_value acc False cs
      else None)"

definition parse_int :: "string \<Rightarrow> int option" where
  "parse_int s = (case strip s of
      [] \<Rightarrow> None
    | c # cs \<Rightarrow>
        if c = CHR ''-'' then map_option (\<lambda>n. - int n) (digits_value 0 False cs)
        else if c = CHR ''+'' then map_option int (digits_value 0 False cs)
        else map_option int (digits_value 0 False (c # cs)))"

text \<open>The part of a text after its last separator, and the part before it (\<open>rsplit(sep, 1)\<close>).\<close>

definition after_last :: "char \<Rightarrow> string \<Rightarrow> string option" where
  "after_last c s = (if c \<in> set s then Some (rev (takeWhile (\<lambda>x. x \<noteq> c) (rev s))) else None)"

definition before_last :: "char \<Rightarrow> string \<Rightarrow> string" where
  "before_last c s = (if c \<in> set s then rev (tl (dropWhile (\<lambda>x. x \<noteq> c) (rev s))) else s)"

lemma cp_digit: "(n::nat) < 10 \<Longrightarrow> cp (char_of (48 + n)) = 48 + n"
  by simp

lemma digit_char_of: "(n::nat) < 10 \<Longrightarrow> digit_char (char_of (48 + n))"
  by (simp add: digit_char_def)

lemma dec_digits: "c \<in> set (dec n) \<Longrightarrow> digit_char c"
proof (induction n rule: dec.induct)
  case (1 n)
  show ?case
  proof (cases "n < 10")
    case True
    with "1.prems" show ?thesis by (auto simp: dec.simps [of n] digit_char_of)
  next
    case False
    with "1.prems" have "c \<in> set (dec (n div 10)) \<or> c = char_of (48 + n mod 10)"
      unfolding dec.simps [of n] by auto
    with "1.IH" False show ?thesis using digit_char_of [of "n mod 10"] by auto
  qed
qed

lemma dec_nonempty: "dec n \<noteq> []"
  by (subst dec.simps) simp

lemma digits_value_append:
  "digits_value acc d (xs @ [c]) = (case digits_value acc d xs of None \<Rightarrow> None
     | Some v \<Rightarrow> if digit_char c then Some (v * 10 + (cp c - 48)) else None)"
  if "\<forall>x \<in> set xs. digit_char x" and "xs \<noteq> [] \<or> d" and "digit_char c"
  using that by (induction xs arbitrary: acc d) auto

lemma digits_value_dec: "digits_value 0 False (dec n) = Some n"
proof (induction n rule: dec.induct)
  case (1 n)
  show ?case
  proof (cases "n < 10")
    case True
    then show ?thesis
      by (simp add: dec.simps [of n] digit_char_of cp_digit)
  next
    case False
    have "n mod 10 < 10" by simp
    then have d: "digit_char (char_of (48 + n mod 10))" "cp (char_of (48 + n mod 10)) = 48 + n mod 10"
      by (simp_all only: digit_char_of cp_digit)
    have ne: "dec (n div 10) \<noteq> []" by (rule dec_nonempty)
    have dig: "\<forall>x \<in> set (dec (n div 10)). digit_char x" by (simp add: dec_digits)
    from False have "digits_value 0 False (dec n)
        = digits_value 0 False (dec (n div 10) @ [char_of (48 + n mod 10)])"
      by (simp add: dec.simps [of n])
    also have "\<dots> = Some (n div 10 * 10 + n mod 10)"
      using "1.IH" [OF False] ne dig d by (simp add: digits_value_append)
    finally show ?thesis by simp
  qed
qed

subsection \<open>Generic lemmas on lists\<close>

text \<open>The keys a partial selector finds in a list, in order.\<close>

primrec keys_by :: "('a \<Rightarrow> 'k option) \<Rightarrow> 'a list \<Rightarrow> 'k list" where
  "keys_by f [] = []"
| "keys_by f (x # xs) = (case f x of None \<Rightarrow> keys_by f xs | Some k \<Rightarrow> k # keys_by f xs)"

lemma keys_by_append [simp]: "keys_by f (xs @ ys) = keys_by f xs @ keys_by f ys"
  by (induction xs) (auto split: option.splits)

lemma set_keys_by: "k \<in> set (keys_by f xs) \<longleftrightarrow> (\<exists>x \<in> set xs. f x = Some k)"
  by (induction xs) (auto split: option.splits)

lemma distinct_keys_by_snoc:
  "distinct (keys_by f (xs @ [x])) \<longleftrightarrow>
     distinct (keys_by f xs) \<and> (\<forall>k. f x = Some k \<longrightarrow> k \<notin> set (keys_by f xs))"
  by (cases "f x") auto

lemma list_ex_filter: "list_ex P xs \<longleftrightarrow> filter P xs \<noteq> []"
  by (induction xs) auto

lemma concat_map_Nil_iff: "concat (map f xs) = [] \<longleftrightarrow> (\<forall>x \<in> set xs. f x = [])"
  by auto

lemma find_Some_in: "find P xs = Some x \<Longrightarrow> x \<in> set xs \<and> P x"
  by (induction xs) (auto split: if_splits)

lemma find_NoneD: "find P xs = None \<Longrightarrow> x \<in> set xs \<Longrightarrow> \<not> P x"
  by (induction xs) (auto split: if_splits)

text \<open>\<open>enumerate(xs)\<close>.\<close>

definition enum :: "'a list \<Rightarrow> (nat \<times> 'a) list" where
  "enum xs = List.enumerate 0 xs"

lemma enum_concat_Nil_iff:
  "concat (map (\<lambda>(i, x). f i x) (enum xs)) = [] \<longleftrightarrow> (\<forall>i < length xs. f i (xs ! i) = [])"
proof -
  have "(i, x) \<in> set (enum xs) \<longleftrightarrow> i < length xs \<and> x = xs ! i" for i x
    by (auto simp: enum_def in_set_enumerate_eq)
  then show ?thesis by fastforce
qed

end
