(* ===== verification/Texts.thy ===== *)
theory Texts
  imports Prelude
begin

section \<open>Coordinate detection and JSON text\<close>

text \<open>
  Design commitment 1 of the program is that no text a model writes carries a coordinate.
  \<open>dfqueue/schema.py\<close> enforces it with one regular expression, \<open>_COORDINATE_PATTERN\<close>;
  \<open>find_coordinate\<close> is the matcher the \<open>re\<close> module runs for it (leftmost match, the axis
  alternative before the triple alternative), and \<open>find_coordinate_iff\<close> says which texts it
  matches. \<open>dumps\<close> is \<open>json.dumps\<close> as the code calls it (\<open>ensure_ascii=False\<close>, with or
  without \<open>sort_keys\<close>), which the same pattern is run over for a step's arguments.
\<close>

subsection \<open>The matcher of \<open>_COORDINATE_PATTERN\<close>\<close>

definition axis_char :: "char \<Rightarrow> bool" where
  "axis_char c = (c \<in> set ''xyzXYZ'')"

definition skip_spaces :: "string \<Rightarrow> string" where
  "skip_spaces s = dropWhile space_char s"

text \<open>\<open>-?\d+\<close>: the text after the number.\<close>

definition match_num :: "string \<Rightarrow> string option" where
  "match_num s = (let t = (case s of [] \<Rightarrow> [] | c # cs \<Rightarrow> if c = CHR ''-'' then cs else s) in
     if takeWhile digit_char t = [] then None else Some (dropWhile digit_char t))"

text \<open>One literal character.\<close>

definition match_char :: "char set \<Rightarrow> string \<Rightarrow> string option" where
  "match_char C s = (case s of [] \<Rightarrow> None | c # cs \<Rightarrow> if c \<in> C then Some cs else None)"

text \<open>\<open>[xyz]\s*=\s*-?\d+\b\<close>, at a word boundary.\<close>

definition match_axis :: "string \<Rightarrow> string option" where
  "match_axis s = do {
     t \<leftarrow> match_char (set ''xyzXYZ'') s;
     u \<leftarrow> match_char {CHR ''=''} (skip_spaces t);
     r \<leftarrow> match_num (skip_spaces u);
     (if r = [] \<or> \<not> word_char (hd r) then Some r else None)
   }"

text \<open>\<open>[\(\[]\s*-?\d+\s*,\s*-?\d+\s*,\s*-?\d+\s*[\)\]]\<close>.\<close>

definition match_triple :: "string \<Rightarrow> string option" where
  "match_triple s = do {
     t \<leftarrow> match_char (set ''(['') s;
     a \<leftarrow> match_num (skip_spaces t);
     a' \<leftarrow> match_char {CHR '',''} (skip_spaces a);
     b \<leftarrow> match_num (skip_spaces a');
     b' \<leftarrow> match_char {CHR '',''} (skip_spaces b);
     c \<leftarrow> match_num (skip_spaces b');
     match_char (set '')]'') (skip_spaces c)
   }"

text \<open>\<open>pattern.search\<close>: the first position with a match, and the text matched there. The flag says
  whether the character before the position is a word character.\<close>

fun search_coordinate :: "bool \<Rightarrow> string \<Rightarrow> string option" where
  "search_coordinate pw [] = None"
| "search_coordinate pw (c # cs) =
     (case (if pw then None else match_axis (c # cs)) of
        Some r \<Rightarrow> Some (take (length (c # cs) - length r) (c # cs))
      | None \<Rightarrow> (case match_triple (c # cs) of
            Some r \<Rightarrow> Some (take (length (c # cs) - length r) (c # cs))
          | None \<Rightarrow> search_coordinate (word_char c) cs))"

definition find_coordinate :: "string \<Rightarrow> string option" where
  "find_coordinate s = search_coordinate False s"

subsection \<open>What the pattern describes\<close>

definition spaces :: "string \<Rightarrow> bool" where
  "spaces w \<longleftrightarrow> (\<forall>c \<in> set w. space_char c)"

definition num_text :: "string \<Rightarrow> bool" where
  "num_text n \<longleftrightarrow> (\<exists>sg ds. n = sg @ ds \<and> (sg = [] \<or> sg = ''-'') \<and> ds \<noteq> [] \<and> (\<forall>c \<in> set ds. digit_char c))"

definition axis_text :: "string \<Rightarrow> bool" where
  "axis_text m \<longleftrightarrow> (\<exists>c w1 w2 n. axis_char c \<and> spaces w1 \<and> spaces w2 \<and> num_text n \<and>
     m = c # w1 @ ''='' @ w2 @ n)"

definition padded_num :: "string \<Rightarrow> bool" where
  "padded_num i \<longleftrightarrow> (\<exists>w1 n w2. spaces w1 \<and> num_text n \<and> spaces w2 \<and> i = w1 @ n @ w2)"

definition triple_text :: "string \<Rightarrow> bool" where
  "triple_text m \<longleftrightarrow> (\<exists>p q a b c. p \<in> set ''(['' \<and> q \<in> set '')]'' \<and>
     padded_num a \<and> padded_num b \<and> padded_num c \<and>
     m = p # a @ '','' @ b @ '','' @ c @ [q])"

definition coordinate_between :: "string \<Rightarrow> string \<Rightarrow> string \<Rightarrow> bool" where
  "coordinate_between pre m post \<longleftrightarrow>
     axis_text m \<and> (pre = [] \<or> \<not> word_char (last pre)) \<and> (post = [] \<or> \<not> word_char (hd post))
     \<or> triple_text m"

subsection \<open>The matcher finds exactly what the pattern describes\<close>

lemma skip_spaces_split: "\<exists>w. spaces w \<and> s = w @ skip_spaces s"
  by (rule exI [of _ "takeWhile space_char s"])
    (auto simp: spaces_def skip_spaces_def dest: set_takeWhileD)

lemma skip_spaces_append:
  "spaces w \<Longrightarrow> s \<noteq> [] \<Longrightarrow> \<not> space_char (hd s) \<Longrightarrow> skip_spaces (w @ s) = s"
  by (induction w) (auto simp: spaces_def skip_spaces_def neq_Nil_conv)

lemma match_char_Some: "match_char C s = Some r \<longleftrightarrow> (\<exists>c \<in> C. s = c # r)"
  by (auto simp: match_char_def split: list.splits if_splits)

lemma match_num_sound: "match_num s = Some r \<Longrightarrow> \<exists>n. num_text n \<and> s = n @ r"
proof -
  assume m: "match_num s = Some r"
  define t where "t = (case s of [] \<Rightarrow> [] | c # cs \<Rightarrow> if c = CHR ''-'' then cs else s)"
  define ds where "ds = takeWhile digit_char t"
  obtain sg where sg: "s = sg @ t" "sg = [] \<or> sg = ''-''"
  proof (cases "\<exists>cs. s = CHR ''-'' # cs")
    case True
    then show ?thesis by (intro that [of "''-''"]) (auto simp: t_def)
  next
    case False
    then show ?thesis by (intro that [of "[]"]) (auto simp: t_def split: list.splits)
  qed
  from m have "ds \<noteq> []" "r = dropWhile digit_char t"
    by (auto simp: match_num_def t_def [symmetric] ds_def Let_def split: if_splits)
  moreover have "\<forall>c \<in> set ds. digit_char c" by (auto simp: ds_def dest: set_takeWhileD)
  ultimately have "num_text (sg @ ds)" "s = (sg @ ds) @ r"
    using sg by (auto simp: num_text_def ds_def)
  then show ?thesis by blast
qed

lemma num_text_hd: "num_text n \<Longrightarrow> n \<noteq> [] \<and> (digit_char (hd n) \<or> hd n = CHR ''-'')"
  by (auto simp: num_text_def neq_Nil_conv)

lemma num_text_hd_not_space: "num_text n \<Longrightarrow> \<not> space_char (hd (n @ s))"
  using num_text_hd [of n] digit_char_not_space [of "hd n"]
  by (auto simp: space_char_def)

lemma not_digit_minus [simp]: "\<not> digit_char (CHR ''-'')"
  by (simp add: digit_char_def)

lemma match_num_complete:
  assumes "num_text n" and "s = [] \<or> \<not> digit_char (hd s)"
  shows "match_num (n @ s) = Some s"
proof -
  from assms(1) obtain sg ds where n: "n = sg @ ds" "sg = [] \<or> sg = ''-''" "ds \<noteq> []"
    and ds: "\<forall>c \<in> set ds. digit_char c" by (auto simp: num_text_def)
  have tw: "takeWhile digit_char (ds @ s) = ds" "dropWhile digit_char (ds @ s) = s"
    using ds assms(2) by (auto simp: takeWhile_append dropWhile_append neq_Nil_conv takeWhile_eq_Nil_iff dropWhile_eq_self_iff)
  from n(3) obtain d ds' where d: "ds = d # ds'" by (cases ds) auto
  with ds have "d \<noteq> CHR ''-''" by auto
  with n(2) tw n(3) show ?thesis by (auto simp: match_num_def n(1) d Let_def)
qed

lemma match_axis_sound:
  assumes "match_axis s = Some r"
  shows "\<exists>m. axis_text m \<and> s = m @ r \<and> (r = [] \<or> \<not> word_char (hd r))"
proof -
  from assms obtain c t u where c: "axis_char c" "s = c # t"
    and u: "skip_spaces t = CHR ''='' # u" and n: "match_num (skip_spaces u) = Some r"
    and r: "r = [] \<or> \<not> word_char (hd r)"
    by (auto simp: match_axis_def axis_char_def match_char_Some bind_eq_Some_conv split: if_splits)
  obtain w1 where w1: "spaces w1" "t = w1 @ CHR ''='' # u" using skip_spaces_split [of t] u by auto
  obtain w2 where w2: "spaces w2" "u = w2 @ skip_spaces u" using skip_spaces_split [of u] by auto
  obtain k where k: "num_text k" "skip_spaces u = k @ r" using match_num_sound [OF n] by auto
  have "axis_text (c # w1 @ ''='' @ w2 @ k)"
    unfolding axis_text_def using c w1 w2 k by blast
  moreover have "s = (c # w1 @ ''='' @ w2 @ k) @ r"
    using c w1 w2 k by simp
  ultimately show ?thesis using r by blast
qed

lemma match_axis_complete:
  assumes "axis_text m" and "r = [] \<or> \<not> word_char (hd r)"
  shows "match_axis (m @ r) = Some r"
proof -
  from assms(1) obtain c w1 w2 n where m: "m = c # w1 @ ''='' @ w2 @ n"
    and p: "axis_char c" "spaces w1" "spaces w2" "num_text n" by (auto simp: axis_text_def)
  have "skip_spaces (w1 @ CHR ''='' # w2 @ n @ r) = CHR ''='' # w2 @ n @ r"
    using p by (intro skip_spaces_append) (auto simp: space_char_def)
  moreover have "skip_spaces (w2 @ n @ r) = n @ r"
    using p num_text_hd [OF p(4)] num_text_hd_not_space [OF p(4)] by (intro skip_spaces_append) auto
  moreover have "match_num (n @ r) = Some r"
    using assms(2) p(4) by (intro match_num_complete) (auto dest: digit_char_word)
  ultimately show ?thesis
    using p(1) assms(2) by (simp add: m match_axis_def match_char_def axis_char_def)
qed

lemma skip_then_char:
  assumes "match_char {c} (skip_spaces s) = Some r"
  shows "\<exists>w. spaces w \<and> s = w @ c # r"
  using assms skip_spaces_split [of s] by (auto simp: match_char_Some)

lemma padded_num_then_char:
  assumes "match_num (skip_spaces s) = Some t" and "match_char C (skip_spaces t) = Some r"
  shows "\<exists>i c. padded_num i \<and> c \<in> C \<and> s = i @ c # r"
proof -
  obtain w1 where 1: "spaces w1" "s = w1 @ skip_spaces s" using skip_spaces_split by blast
  obtain n where 2: "num_text n" "skip_spaces s = n @ t" using match_num_sound [OF assms(1)] by blast
  obtain w2 where 3: "spaces w2" "t = w2 @ skip_spaces t" using skip_spaces_split by blast
  obtain c where 4: "c \<in> C" "skip_spaces t = c # r" using assms(2) by (auto simp: match_char_Some)
  have "padded_num (w1 @ n @ w2)" unfolding padded_num_def using 1 2 3 by blast
  moreover have "s = (w1 @ n @ w2) @ c # r" using 1 2 3 4 by simp
  ultimately show ?thesis using 4(1) by blast
qed

lemma char_then_padded_num:
  assumes "padded_num i" and "c \<in> C" and "\<not> digit_char c" and "\<not> space_char c"
  shows "\<exists>t. match_num (skip_spaces (i @ c # r)) = Some t \<and> match_char C (skip_spaces t) = Some r"
proof -
  from assms(1) obtain w1 n w2 where i: "spaces w1" "num_text n" "spaces w2" "i = w1 @ n @ w2"
    by (auto simp: padded_num_def)
  have "skip_spaces (w1 @ n @ w2 @ c # r) = n @ w2 @ c # r"
    using i num_text_hd [of n] num_text_hd_not_space [of n] by (intro skip_spaces_append) auto
  moreover have "\<not> digit_char (hd (w2 @ c # r))"
    using i(3) assms(3) digit_char_not_space by (cases w2) (auto simp: spaces_def)
  then have "match_num (n @ w2 @ c # r) = Some (w2 @ c # r)"
    using i(2) by (intro match_num_complete) auto
  moreover have "skip_spaces (w2 @ c # r) = c # r"
    using i(3) assms(4) by (intro skip_spaces_append) auto
  ultimately show ?thesis using assms(2) i(4) by (simp add: match_char_def)
qed

lemma match_triple_sound:
  assumes "match_triple s = Some r"
  shows "\<exists>m. triple_text m \<and> s = m @ r"
proof -
  from assms obtain p t a a' b b' c where s: "s = p # t" "p \<in> set ''([''"
    and a: "match_num (skip_spaces t) = Some a" and a': "match_char {CHR '',''} (skip_spaces a) = Some a'"
    and b: "match_num (skip_spaces a') = Some b" and b': "match_char {CHR '',''} (skip_spaces b) = Some b'"
    and c: "match_num (skip_spaces b') = Some c" and q: "match_char (set '')]'') (skip_spaces c) = Some r"
    by (auto simp: match_triple_def bind_eq_Some_conv match_char_Some [where C = "{CHR ''('', CHR ''[''}"])
  obtain i1 where 1: "padded_num i1" "t = i1 @ CHR '','' # a'" using padded_num_then_char [OF a a'] by auto
  obtain i2 where 2: "padded_num i2" "a' = i2 @ CHR '','' # b'" using padded_num_then_char [OF b b'] by auto
  obtain i3 z where 3: "padded_num i3" "z \<in> set '')]''" "b' = i3 @ z # r"
    using padded_num_then_char [OF c q] by blast
  have "triple_text (p # i1 @ '','' @ i2 @ '','' @ i3 @ [z])"
    unfolding triple_text_def using 1 2 3 s(2) by blast
  moreover have "s = (p # i1 @ '','' @ i2 @ '','' @ i3 @ [z]) @ r" using 1 2 3 s by simp
  ultimately show ?thesis by blast
qed

lemma match_triple_complete:
  assumes "triple_text m"
  shows "match_triple (m @ r) = Some r"
proof -
  from assms obtain p q a b c where m: "m = p # a @ '','' @ b @ '','' @ c @ [q]"
    and pq: "p \<in> set ''([''" "q \<in> set '')]''" and n: "padded_num a" "padded_num b" "padded_num c"
    unfolding triple_text_def by blast
  have nd: "\<not> digit_char (CHR '','')" "\<not> digit_char q" "\<not> space_char (CHR '','')" "\<not> space_char q"
    using pq(2) by (auto simp: digit_char_def space_char_def)
  let ?c = "c @ q # r" let ?b = "b @ CHR '','' # ?c" let ?a = "a @ CHR '','' # ?b"
  obtain t1 where 1: "match_num (skip_spaces ?a) = Some t1" "match_char {CHR '',''} (skip_spaces t1) = Some ?b"
    using char_then_padded_num [OF n(1), of "CHR '',''" "{CHR '',''}" ?b] nd by auto
  obtain t2 where 2: "match_num (skip_spaces ?b) = Some t2" "match_char {CHR '',''} (skip_spaces t2) = Some ?c"
    using char_then_padded_num [OF n(2), of "CHR '',''" "{CHR '',''}" ?c] nd by auto
  obtain t3 where 3: "match_num (skip_spaces ?c) = Some t3" "match_char (set '')]'') (skip_spaces t3) = Some r"
    using char_then_padded_num [OF n(3) pq(2), of r] nd by auto
  have "match_char (set ''(['') (m @ r) = Some ?a"
    using pq(1) by (simp add: m match_char_def)
  with 1 2 3 show ?thesis by (simp add: match_triple_def)
qed

lemma axis_text_Nil: "\<not> axis_text []" "\<not> triple_text []"
  by (auto simp: axis_text_def triple_text_def)

lemma take_match: "s = m @ r \<Longrightarrow> take (length s - length r) s = m"
  by simp

lemma search_coordinate_sound:
  assumes "search_coordinate pw s = Some m"
  shows "\<exists>pre post. s = pre @ m @ post \<and>
    (axis_text m \<and> (if pre = [] then \<not> pw else \<not> word_char (last pre)) \<and> (post = [] \<or> \<not> word_char (hd post))
     \<or> triple_text m)"
  using assms
proof (induction pw s rule: search_coordinate.induct)
  case (2 pw c cs)
  let ?s = "c # cs"
  show ?case
  proof (cases "if pw then None else match_axis ?s")
    case (Some r)
    then have "match_axis ?s = Some r" "\<not> pw" by (auto split: if_splits)
    with match_axis_sound obtain m' where m': "axis_text m'" "?s = m' @ r" "r = [] \<or> \<not> word_char (hd r)"
      by blast
    from Some "2.prems" have "m = take (length ?s - length r) ?s" by simp
    with take_match [OF m'(2)] have "m = m'" by (rule trans [rotated])
    with m' \<open>\<not> pw\<close> show ?thesis by (intro exI [of _ "[]"] exI [of _ r]) simp
  next
    case None
    show ?thesis
    proof (cases "match_triple ?s")
      case (Some r)
      with match_triple_sound obtain m' where m': "triple_text m'" "?s = m' @ r" by blast
      from None Some "2.prems" have "m = take (length ?s - length r) ?s" by simp
      with take_match [OF m'(2)] have "m = m'" by (rule trans [rotated])
      with m' show ?thesis by (intro exI [of _ "[]"] exI [of _ r]) simp
    next
      case no: None
      with None "2.prems" "2.IH" obtain pre post where
        "cs = pre @ m @ post" and
        *: "axis_text m \<and> (if pre = [] then \<not> word_char c else \<not> word_char (last pre)) \<and>
            (post = [] \<or> \<not> word_char (hd post)) \<or> triple_text m"
        by auto
      then show ?thesis by (intro exI [of _ "c # pre"] exI [of _ post]) (auto split: if_splits)
    qed
  qed
qed simp

lemma search_coordinate_complete:
  assumes "axis_text m \<and> (if pre = [] then \<not> pw else \<not> word_char (last pre)) \<and> (post = [] \<or> \<not> word_char (hd post))
    \<or> triple_text m"
  shows "search_coordinate pw (pre @ m @ post) \<noteq> None"
  using assms
proof (induction pre arbitrary: pw)
  case Nil
  then obtain c cs where "m = c # cs" using axis_text_Nil by (cases m) auto
  with Nil match_axis_complete [of m post] match_triple_complete [of m post] show ?case
    by (auto split: option.splits)
next
  case (Cons d pre)
  have "search_coordinate (word_char d) (pre @ m @ post) \<noteq> None"
    using Cons.prems by (intro Cons.IH) (auto split: if_splits)
  then show ?case by (auto split: option.splits)
qed

lemma find_coordinate_Some:
  assumes "find_coordinate s = Some m"
  shows "\<exists>pre post. s = pre @ m @ post \<and> coordinate_between pre m post"
proof -
  from assms obtain pre post where "s = pre @ m @ post"
    and "axis_text m \<and> (if pre = [] then \<not> False else \<not> word_char (last pre)) \<and>
         (post = [] \<or> \<not> word_char (hd post)) \<or> triple_text m"
    using search_coordinate_sound unfolding find_coordinate_def by blast
  then show ?thesis by (intro exI [of _ pre] exI [of _ post]) (auto simp: coordinate_between_def split: if_splits)
qed

lemma find_coordinate_complete:
  assumes "coordinate_between pre m post"
  shows "find_coordinate (pre @ m @ post) \<noteq> None"
  unfolding find_coordinate_def
  by (rule search_coordinate_complete) (use assms in \<open>auto simp: coordinate_between_def\<close>)

lemma find_coordinate_None_iff:
  "find_coordinate s = None \<longleftrightarrow> \<not> (\<exists>pre m post. s = pre @ m @ post \<and> coordinate_between pre m post)"
proof
  assume none: "find_coordinate s = None"
  show "\<not> (\<exists>pre m post. s = pre @ m @ post \<and> coordinate_between pre m post)"
  proof clarify
    fix pre m post
    assume "s = pre @ m @ post" and "coordinate_between pre m post"
    with find_coordinate_complete none show False by blast
  qed
next
  assume no: "\<not> (\<exists>pre m post. s = pre @ m @ post \<and> coordinate_between pre m post)"
  show "find_coordinate s = None"
  proof (cases "find_coordinate s")
    case (Some m)
    with find_coordinate_Some no show ?thesis by blast
  qed
qed

subsection \<open>JSON text\<close>

text \<open>\<open>json.dumps(value, ensure_ascii=False, sort_keys=\<dots>)\<close>: the C0 control characters, the quote
  and the backslash are escaped, everything else is verbatim. \<open>fr\<close> prints a float
  (\<open>float.__repr__\<close>).\<close>

definition hex_digit :: "nat \<Rightarrow> char" where
  "hex_digit n = (if n < 10 then char_of (48 + n) else char_of (87 + n))"

definition escape_char :: "char \<Rightarrow> string" where
  "escape_char c = (let n = cp c in
     if n = 34 then [char_of (92::nat), c]
     else if n = 92 then [c, c]
     else if n = 8 then [char_of (92::nat), CHR ''b'']
     else if n = 9 then [char_of (92::nat), CHR ''t'']
     else if n = 10 then [char_of (92::nat), CHR ''n'']
     else if n = 12 then [char_of (92::nat), CHR ''f'']
     else if n = 13 then [char_of (92::nat), CHR ''r'']
     else if n < 32 then [char_of (92::nat), CHR ''u'', CHR ''0'', CHR ''0'', hex_digit (n div 16), hex_digit (n mod 16)]
     else [c])"

definition dumps_str :: "string \<Rightarrow> string" where
  "dumps_str s = [char_of (34::nat)] @ concat (map escape_char s) @ [char_of (34::nat)]"

fun join :: "string \<Rightarrow> string list \<Rightarrow> string" where
  "join sep [] = []"
| "join sep [x] = x"
| "join sep (x # xs) = x @ sep @ join sep xs"

definition sort_keys :: "bool \<Rightarrow> (string \<times> 'v) list \<Rightarrow> (string \<times> 'v) list" where
  "sort_keys b kvs = (if b then sort_key fst kvs else kvs)"

fun dumps :: "(rat \<Rightarrow> string) \<Rightarrow> bool \<Rightarrow> json \<Rightarrow> string" where
  "dumps fr b JNull = ''null''"
| "dumps fr b (JBool t) = (if t then ''true'' else ''false'')"
| "dumps fr b (JInt i) = dec_int i"
| "dumps fr b (JFloat q) = fr q"
| "dumps fr b (JStr s) = dumps_str s"
| "dumps fr b (JArr xs) = ''['' @ join '', '' (map (dumps fr b) xs) @ '']''"
| "dumps fr b (JObj kvs) = ''{'' @ join '', '' (map (\<lambda>(k, t). dumps_str k @ '': '' @ t)
     (sort_keys b (map (\<lambda>(k, v). (k, dumps fr b v)) kvs))) @ ''}''"

text \<open>A value inside another one, at any depth.\<close>

fun inside :: "json \<Rightarrow> json \<Rightarrow> bool" where
  "inside w (JArr xs) \<longleftrightarrow> w = JArr xs \<or> list_ex (inside w) xs"
| "inside w (JObj kvs) \<longleftrightarrow> w = JObj kvs \<or> list_ex (\<lambda>(k, v). inside w v) kvs"
| "inside w v \<longleftrightarrow> w = v"

lemma join_split: "x \<in> set xs \<Longrightarrow> \<exists>pre post. join sep xs = pre @ x @ post"
proof (induction sep xs rule: join.induct)
  case (3 sep y z zs)
  show ?case
  proof (cases "x = y")
    case True
    then show ?thesis by (intro exI [of _ "[]"] exI [of _ "sep @ join sep (z # zs)"]) simp
  next
    case False
    with 3 obtain pre post where "join sep (z # zs) = pre @ x @ post" by auto
    then show ?thesis by (intro exI [of _ "y @ sep @ pre"] exI [of _ post]) simp
  qed
qed (auto intro: exI [of _ "[]"])

lemma set_sort_keys [simp]: "set (sort_keys b kvs) = set kvs"
  by (simp add: sort_keys_def)

lemma dumps_arr_split:
  assumes "v \<in> set xs"
  shows "\<exists>pre post. dumps fr b (JArr xs) = pre @ dumps fr b v @ post"
proof -
  from assms have "dumps fr b v \<in> set (map (dumps fr b) xs)" by simp
  from join_split [OF this] obtain pre post where
    "join '', '' (map (dumps fr b) xs) = pre @ dumps fr b v @ post" by blast
  then show ?thesis by (intro exI [of _ "''['' @ pre"] exI [of _ "post @ '']''"]) simp
qed

lemma dumps_obj_split:
  assumes "(k, v) \<in> set kvs"
  shows "\<exists>pre post. dumps fr b (JObj kvs) = pre @ dumps fr b v @ post"
proof -
  let ?line = "dumps_str k @ '': '' @ dumps fr b v"
  from assms have "?line \<in> set (map (\<lambda>(k, t). dumps_str k @ '': '' @ t)
      (sort_keys b (map (\<lambda>(k, v). (k, dumps fr b v)) kvs)))"
    by force
  from join_split [OF this, of "'', ''"] obtain pre post where
    "join '', '' (map (\<lambda>(k, t). dumps_str k @ '': '' @ t)
      (sort_keys b (map (\<lambda>(k, v). (k, dumps fr b v)) kvs))) = pre @ ?line @ post" by blast
  then show ?thesis
    by (intro exI [of _ "''{'' @ pre @ dumps_str k @ '': ''"] exI [of _ "post @ ''}''"]) simp
qed

lemma dumps_inside: "inside w v \<Longrightarrow> \<exists>pre post. dumps fr b v = pre @ dumps fr b w @ post"
proof (induction w v rule: inside.induct)
  case (1 w xs)
  show ?case
  proof (cases "w = JArr xs")
    case False
    with "1.prems" obtain v where v: "v \<in> set xs" "inside w v" by (auto simp: list_ex_iff)
    with "1.IH" obtain pre post where "dumps fr b v = pre @ dumps fr b w @ post" by blast
    moreover obtain pre' post' where "dumps fr b (JArr xs) = pre' @ dumps fr b v @ post'"
      using dumps_arr_split [OF v(1)] by blast
    ultimately show ?thesis by (intro exI [of _ "pre' @ pre"] exI [of _ "post @ post'"]) (simp only: append_assoc)
  qed (auto intro: exI [of _ "[]"])
next
  case (2 w kvs)
  show ?case
  proof (cases "w = JObj kvs")
    case False
    with "2.prems" obtain k v where v: "(k, v) \<in> set kvs" "inside w v" by (auto simp: list_ex_iff)
    with "2.IH" obtain pre post where "dumps fr b v = pre @ dumps fr b w @ post" by blast
    moreover obtain pre' post' where "dumps fr b (JObj kvs) = pre' @ dumps fr b v @ post'"
      using dumps_obj_split [OF v(1)] by blast
    ultimately show ?thesis by (intro exI [of _ "pre' @ pre"] exI [of _ "post @ post'"]) (simp only: append_assoc)
  qed (auto intro: exI [of _ "[]"])
qed (auto intro: exI [of _ "[]"])

lemma num_text_dec_int: "num_text (dec_int i)"
  unfolding num_text_def dec_int_def
  using dec_nonempty dec_digits by (auto intro: exI [of _ "''-''"] exI [of _ "[]"])

lemma padded_num_plain: "num_text n \<Longrightarrow> padded_num n"
  unfolding padded_num_def by (intro exI [of _ "[]"] exI [of _ n]) (simp add: spaces_def)

lemma padded_num_blank: "num_text n \<Longrightarrow> padded_num ('' '' @ n)"
  unfolding padded_num_def
  by (intro exI [of _ "'' ''"] exI [of _ n] exI [of _ "[]"]) (simp add: spaces_def space_char_def)

lemma dumps_triple: "triple_text (dumps fr b (JArr [JInt i, JInt j, JInt k]))"
  unfolding triple_text_def
  by (intro exI [of _ "CHR ''[''"] exI [of _ "CHR '']''"] exI [of _ "dec_int i"]
      exI [of _ "'' '' @ dec_int j"] exI [of _ "'' '' @ dec_int k"])
    (simp add: padded_num_plain padded_num_blank [simplified] num_text_dec_int)

lemma find_coordinate_dumps_triple:
  assumes "inside (JArr [JInt i, JInt j, JInt k]) v"
  shows "find_coordinate (dumps fr b v) \<noteq> None"
proof -
  obtain pre post where "dumps fr b v = pre @ dumps fr b (JArr [JInt i, JInt j, JInt k]) @ post"
    using dumps_inside [OF assms] by blast
  moreover have "coordinate_between pre (dumps fr b (JArr [JInt i, JInt j, JInt k])) post"
    unfolding coordinate_between_def using dumps_triple by blast
  ultimately show ?thesis using find_coordinate_complete by metis
qed

end
