(* ===== verification/Signals.thy ===== *)
theory Signals
  imports Texts
begin

section \<open>Live signals\<close>

text \<open>
  \<open>learning/live_signals.py\<close>: the closed registry of mid-fort signals a prediction or a plan target
  may name. \<open>parse_signal\<close> is \<open>parse\<close> (\<open>None\<close> for \<open>SignalError\<close>), \<open>quote_name\<close> and
  \<open>unquote\<close> the two halves of the quoting of a landmark name, \<open>read_signal\<close> the read through a
  tool call. A tool is outside the repository: \<open>call\<close> maps a tool id and its arguments to the JSON it
  returns. A \<open>KeyError\<close> or \<open>TypeError\<close> on an unexpected shape is \<open>SigRaised\<close>.
\<close>

datatype signal_kind =
    FORT_POPULATION | FORT_ALERTS_COUNT | FORT_STUCK_JOBS_COUNT | FORT_LANDMARKS_COUNT
  | LANDMARK_EXISTS | LANDMARK_EXIT_DISTANCE
  | STOCKS_DRINK_UNITS | STOCKS_PREPARED_MEALS_UNITS | STOCKS_RAW_EDIBLES_UNITS | STOCKS_SEEDS_UNITS
  | ORDER_EXISTS | STOCKS_AVAILABILITY_UNITS
  | ZONES_COUNT | ZONES_FURNISHED | ZONES_FURNITURE

datatype value_type = INTEGER | BOOLEAN

fun value_type_of :: "signal_kind \<Rightarrow> value_type" where
  "value_type_of LANDMARK_EXISTS = BOOLEAN"
| "value_type_of ORDER_EXISTS = BOOLEAN"
| "value_type_of _ = INTEGER"

record parsed_signal =
  ps_kind :: signal_kind
  ps_signal :: string
  ps_landmark :: "string option"
  ps_exit_to :: "string option"
  ps_order_id :: "string option"
  ps_item_type :: "string option"
  ps_zone_kind :: "string option"
  ps_furniture :: "string option"

definition bare_signal :: "signal_kind \<Rightarrow> string \<Rightarrow> parsed_signal" where
  "bare_signal k s = \<lparr>ps_kind = k, ps_signal = s, ps_landmark = None, ps_exit_to = None,
     ps_order_id = None, ps_item_type = None, ps_zone_kind = None, ps_furniture = None\<rparr>"

subsection \<open>Quoting\<close>

abbreviation bslash :: char where "bslash \<equiv> char_of (92::nat)"
abbreviation dquote :: char where "dquote \<equiv> char_of (34::nat)"
abbreviation newline :: char where "newline \<equiv> char_of (10::nat)"

text \<open>\<open>str.replace\<close> of a two-character text by one character, leftmost first.\<close>

fun replace_pair :: "char \<Rightarrow> char \<Rightarrow> char \<Rightarrow> string \<Rightarrow> string" where
  "replace_pair a b r (x # y # t) =
     (if x = a \<and> y = b then r # replace_pair a b r t else x # replace_pair a b r (y # t))"
| "replace_pair a b r s = s"

definition unquote :: "string \<Rightarrow> string" where
  "unquote raw = replace_pair bslash bslash bslash (replace_pair bslash dquote dquote raw)"

definition replace_char :: "char \<Rightarrow> string \<Rightarrow> string \<Rightarrow> string" where
  "replace_char c t s = concat (map (\<lambda>x. if x = c then t else [x]) s)"

definition quote_name :: "string \<Rightarrow> string" where
  "quote_name name = replace_char dquote [bslash, dquote] (replace_char bslash [bslash, bslash] name)"

subsection \<open>Parsing\<close>

text \<open>The group of \<open>_QUOTED\<close> after its opening quote: the raw text, and what follows the closing quote.\<close>

fun scan_quoted :: "string \<Rightarrow> (string \<times> string) option" where
  "scan_quoted [] = None"
| "scan_quoted (c # cs) =
     (if c = dquote then Some ([], cs)
      else if c = bslash then
        (case cs of [] \<Rightarrow> None
         | d # ds \<Rightarrow> if d = newline then None else map_option (\<lambda>(r, t). (c # d # r, t)) (scan_quoted ds))
      else map_option (\<lambda>(r, t). (c # r, t)) (scan_quoted cs))"

definition match_lit :: "string \<Rightarrow> string \<Rightarrow> string option" where
  "match_lit p s = (if starts_with s p then Some (drop (length p) s) else None)"

text \<open>A pattern ends with \<open>$\<close>: at the end, or before one final newline.\<close>

definition at_end :: "string \<Rightarrow> bool" where
  "at_end s \<longleftrightarrow> s = [] \<or> s = [newline]"

definition match_quoted :: "string \<Rightarrow> string \<Rightarrow> (string \<times> string) option" where
  "match_quoted prefix s = do { t \<leftarrow> match_lit (prefix @ [dquote]) s; scan_quoted t }"

definition one_quoted :: "string \<Rightarrow> string \<Rightarrow> string \<Rightarrow> string option" where
  "one_quoted prefix suffix s = do {
     (raw, t) \<leftarrow> match_quoted prefix s;
     u \<leftarrow> match_lit suffix t;
     (if at_end u then Some (unquote raw) else None)
   }"

definition two_quoted :: "string \<Rightarrow> string \<Rightarrow> string \<Rightarrow> string \<Rightarrow> (string \<times> string) option" where
  "two_quoted prefix mid suffix s = do {
     (raw1, t) \<leftarrow> match_quoted prefix s;
     (raw2, u) \<leftarrow> match_quoted mid t;
     v \<leftarrow> match_lit suffix u;
     (if at_end v then Some (unquote raw1, unquote raw2) else None)
   }"

definition fixed_signals :: "(string \<times> signal_kind) list" where
  "fixed_signals = [
     (''fort.population'', FORT_POPULATION),
     (''fort.alerts.count'', FORT_ALERTS_COUNT),
     (''fort.stuck_jobs.count'', FORT_STUCK_JOBS_COUNT),
     (''fort.landmarks.count'', FORT_LANDMARKS_COUNT),
     (''stocks.drink.units'', STOCKS_DRINK_UNITS),
     (''stocks.prepared_meals.units'', STOCKS_PREPARED_MEALS_UNITS),
     (''stocks.raw_edibles.units'', STOCKS_RAW_EDIBLES_UNITS),
     (''stocks.seeds.units'', STOCKS_SEEDS_UNITS)]"

text \<open>The regular expressions, tried in the code's order.\<close>

definition parse_text :: "string \<Rightarrow> parsed_signal option" where
  "parse_text s =
    (case map_of fixed_signals s of Some k \<Rightarrow> Some (bare_signal k s) | None \<Rightarrow>
     case one_quoted ''landmark.'' ''.exists'' s of
       Some n \<Rightarrow> Some (bare_signal LANDMARK_EXISTS s \<lparr>ps_landmark := Some n\<rparr>) | None \<Rightarrow>
     case two_quoted ''landmark.'' ''.exit.'' ''.distance_tiles'' s of
       Some (n, m) \<Rightarrow> Some (bare_signal LANDMARK_EXIT_DISTANCE s \<lparr>ps_landmark := Some n, ps_exit_to := Some m\<rparr>) | None \<Rightarrow>
     case one_quoted ''order.'' ''.exists'' s of
       Some n \<Rightarrow> Some (bare_signal ORDER_EXISTS s \<lparr>ps_order_id := Some n\<rparr>) | None \<Rightarrow>
     case one_quoted ''stocks.availability.'' ''.available_units'' s of
       Some n \<Rightarrow> Some (bare_signal STOCKS_AVAILABILITY_UNITS s \<lparr>ps_item_type := Some n\<rparr>) | None \<Rightarrow>
     case one_quoted ''zones.'' ''.count'' s of
       Some n \<Rightarrow> Some (bare_signal ZONES_COUNT s \<lparr>ps_zone_kind := Some n\<rparr>) | None \<Rightarrow>
     case one_quoted ''zones.'' ''.furnished'' s of
       Some n \<Rightarrow> Some (bare_signal ZONES_FURNISHED s \<lparr>ps_zone_kind := Some n\<rparr>) | None \<Rightarrow>
     case two_quoted ''zones.'' ''.furniture.'' '''' s of
       Some (n, m) \<Rightarrow> Some (bare_signal ZONES_FURNITURE s \<lparr>ps_zone_kind := Some n, ps_furniture := Some m\<rparr>) | None \<Rightarrow>
     None)"

definition parse_signal :: "json \<Rightarrow> parsed_signal option" where
  "parse_signal v = (case v of JStr s \<Rightarrow> if s = [] then None else parse_text s | _ \<Rightarrow> None)"

subsection \<open>Quoting and parsing are inverse\<close>

definition quote_char :: "char \<Rightarrow> string" where
  "quote_char c = (if c = bslash then [bslash, bslash] else if c = dquote then [bslash, dquote] else [c])"

lemma bslash_dquote [simp]: "bslash \<noteq> dquote" "dquote \<noteq> bslash" "bslash \<noteq> newline" "dquote \<noteq> newline"
  by simp_all

lemma quote_name_map: "quote_name s = concat (map quote_char s)"
  by (induction s) (auto simp: quote_name_def replace_char_def quote_char_def)

lemma scan_quoted_quote: "scan_quoted (concat (map quote_char s) @ dquote # t) = Some (concat (map quote_char s), t)"
  by (induction s) (auto simp: quote_char_def)

definition half_char :: "char \<Rightarrow> string" where
  "half_char c = (if c = bslash then [bslash, bslash] else [c])"

lemma replace_pair_skip: "x \<noteq> a \<Longrightarrow> replace_pair a b r (x # t) = x # replace_pair a b r t"
  by (cases t) auto

lemma hd_quote: "concat (map quote_char s) = y # t \<Longrightarrow> y \<noteq> dquote"
  by (cases s) (auto simp: quote_char_def split: if_splits)

lemma replace_dquote: "replace_pair bslash dquote dquote (concat (map quote_char s)) = concat (map half_char s)"
proof (induction s)
  case (Cons c s)
  let ?t = "concat (map quote_char s)"
  have step: "replace_pair bslash dquote dquote (bslash # ?t) = bslash # replace_pair bslash dquote dquote ?t"
    using hd_quote [of s] by (cases ?t) (simp_all del: concat_eq_Nil_conv)
  consider "c = bslash" | "c = dquote" | "c \<noteq> bslash \<and> c \<noteq> dquote" by blast
  then show ?case
  proof cases
    case 1
    then have "quote_char c = [bslash, bslash]" "half_char c = [bslash, bslash]"
      by (simp_all add: quote_char_def half_char_def)
    with Cons.IH step show ?thesis by simp
  next
    case 2
    then have "quote_char c = [bslash, dquote]" "half_char c = [dquote]"
      by (simp_all add: quote_char_def half_char_def)
    with Cons.IH show ?thesis by simp
  next
    case 3
    then have "quote_char c = [c]" "half_char c = [c]"
      by (simp_all add: quote_char_def half_char_def)
    with 3 Cons.IH show ?thesis by (simp add: replace_pair_skip)
  qed
qed simp

lemma replace_bslash: "replace_pair bslash bslash bslash (concat (map half_char s)) = s"
  by (induction s) (auto simp: half_char_def replace_pair_skip)

lemma unquote_quote_name: "unquote (quote_name s) = s"
  by (simp add: unquote_def quote_name_map replace_dquote replace_bslash)

lemma match_lit_append [simp]: "match_lit p (p @ s) = Some s"
  by (simp add: match_lit_def)

lemma match_quoted_quote:
  "match_quoted prefix (prefix @ [dquote] @ quote_name s @ [dquote] @ t) = Some (quote_name s, t)"
proof -
  have "match_lit (prefix @ [dquote]) ((prefix @ [dquote]) @ quote_name s @ [dquote] @ t) = Some (quote_name s @ [dquote] @ t)"
    by (rule match_lit_append)
  then show ?thesis
    by (simp add: match_quoted_def quote_name_map scan_quoted_quote)
qed

lemma one_quoted_quote:
  "one_quoted prefix suffix (prefix @ [dquote] @ quote_name s @ [dquote] @ suffix) = Some s"
proof -
  have "match_lit suffix suffix = Some []" using match_lit_append [of suffix "[]"] by simp
  then show ?thesis
    using match_quoted_quote [of prefix s suffix]
    by (simp add: one_quoted_def at_end_def unquote_quote_name)
qed

lemma two_quoted_quote:
  "two_quoted prefix mid suffix
     (prefix @ [dquote] @ quote_name s @ [dquote] @ mid @ [dquote] @ quote_name t @ [dquote] @ suffix) = Some (s, t)"
proof -
  have "match_lit suffix suffix = Some []" using match_lit_append [of suffix "[]"] by simp
  then show ?thesis
    using match_quoted_quote [of prefix s "mid @ [dquote] @ quote_name t @ [dquote] @ suffix"]
      match_quoted_quote [of mid t suffix]
    by (simp add: two_quoted_def at_end_def unquote_quote_name)
qed

subsection \<open>A quoted name parses back to itself\<close>

definition landmark_exists_signal :: "string \<Rightarrow> string" where
  "landmark_exists_signal n = ''landmark.'' @ [dquote] @ quote_name n @ [dquote] @ ''.exists''"

definition exit_distance_signal :: "string \<Rightarrow> string \<Rightarrow> string" where
  "exit_distance_signal n m =
     ''landmark.'' @ [dquote] @ quote_name n @ [dquote] @ ''.exit.'' @ [dquote] @ quote_name m @ [dquote] @ ''.distance_tiles''"

definition zone_furniture_signal :: "string \<Rightarrow> string \<Rightarrow> string" where
  "zone_furniture_signal k f =
     ''zones.'' @ [dquote] @ quote_name k @ [dquote] @ ''.furniture.'' @ [dquote] @ quote_name f @ [dquote]"

lemma match_quoted_other:
  "hd prefix \<noteq> hd s \<Longrightarrow> prefix \<noteq> [] \<Longrightarrow> match_quoted prefix s = None"
  by (cases prefix; cases s) (auto simp: match_quoted_def match_lit_def starts_with_def)

lemma one_quoted_other: "hd prefix \<noteq> hd s \<Longrightarrow> prefix \<noteq> [] \<Longrightarrow> one_quoted prefix suffix s = None"
  by (simp add: one_quoted_def match_quoted_other)

lemma two_quoted_other: "hd prefix \<noteq> hd s \<Longrightarrow> prefix \<noteq> [] \<Longrightarrow> two_quoted prefix mid suffix s = None"
  by (simp add: two_quoted_def match_quoted_other)

lemma one_quoted_other_suffix:
  assumes "\<not> starts_with t suffix"
  shows "one_quoted prefix suffix (prefix @ [dquote] @ quote_name s @ [dquote] @ t) = None"
  using match_quoted_quote [of prefix s t] assms
  by (simp add: one_quoted_def match_lit_def)

lemma parse_landmark_exists:
  "parse_text (landmark_exists_signal n)
     = Some (bare_signal LANDMARK_EXISTS (landmark_exists_signal n) \<lparr>ps_landmark := Some n\<rparr>)"
proof -
  have "map_of fixed_signals (landmark_exists_signal n) = None"
    by (simp add: fixed_signals_def landmark_exists_signal_def)
  moreover have "one_quoted ''landmark.'' ''.exists'' (landmark_exists_signal n) = Some n"
    unfolding landmark_exists_signal_def by (rule one_quoted_quote)
  ultimately show ?thesis by (simp add: parse_text_def)
qed

lemma parse_exit_distance:
  "parse_text (exit_distance_signal n m)
     = Some (bare_signal LANDMARK_EXIT_DISTANCE (exit_distance_signal n m)
         \<lparr>ps_landmark := Some n, ps_exit_to := Some m\<rparr>)"
proof -
  have "map_of fixed_signals (exit_distance_signal n m) = None"
    by (simp add: fixed_signals_def exit_distance_signal_def)
  moreover have "one_quoted ''landmark.'' ''.exists'' (exit_distance_signal n m) = None"
    unfolding exit_distance_signal_def
    by (rule one_quoted_other_suffix) (simp add: starts_with_def)
  moreover have "two_quoted ''landmark.'' ''.exit.'' ''.distance_tiles'' (exit_distance_signal n m) = Some (n, m)"
    unfolding exit_distance_signal_def by (rule two_quoted_quote)
  ultimately show ?thesis by (simp add: parse_text_def)
qed

lemma parse_zone_furniture:
  "parse_text (zone_furniture_signal k f)
     = Some (bare_signal ZONES_FURNITURE (zone_furniture_signal k f)
         \<lparr>ps_zone_kind := Some k, ps_furniture := Some f\<rparr>)"
proof -
  let ?s = "zone_furniture_signal k f"
  have hd: "hd ?s = CHR ''z''" by (simp add: zone_furniture_signal_def)
  have "map_of fixed_signals ?s = None"
    by (simp add: fixed_signals_def zone_furniture_signal_def)
  moreover have "one_quoted ''landmark.'' suffix ?s = None" "one_quoted ''order.'' suffix ?s = None"
    "one_quoted ''stocks.availability.'' suffix ?s = None" "two_quoted ''landmark.'' mid suffix ?s = None" for mid suffix
    by (simp_all add: one_quoted_other two_quoted_other hd)
  moreover have "one_quoted ''zones.'' ''.count'' ?s = None" "one_quoted ''zones.'' ''.furnished'' ?s = None"
    unfolding zone_furniture_signal_def
    by (rule one_quoted_other_suffix, simp add: starts_with_def)+
  moreover have "two_quoted ''zones.'' ''.furniture.'' '''' ?s = Some (k, f)"
    using two_quoted_quote [of "''zones.''" "''.furniture.''" "[]" k f]
    by (simp add: zone_furniture_signal_def)
  ultimately show ?thesis by (simp add: parse_text_def)
qed

subsection \<open>Reading\<close>

datatype signal_read = SigValue json | Unresolvable | SigRaised

text \<open>\<open>v[k]\<close> on a parsed JSON value: anything but an object with that key raises.\<close>

definition subscript :: "json \<Rightarrow> string \<Rightarrow> json option" where
  "subscript v k = map_of (fields_of v) k"

definition sig_of :: "json option \<Rightarrow> signal_read" where
  "sig_of v = (case v of None \<Rightarrow> SigRaised | Some x \<Rightarrow> SigValue x)"

text \<open>\<open>str(v)\<close>; \<open>pr\<close> prints a float or a container.\<close>

definition py_str :: "(json \<Rightarrow> string) \<Rightarrow> json \<Rightarrow> string" where
  "py_str pr v = (case v of
      JNull \<Rightarrow> ''None'' | JBool b \<Rightarrow> if b then ''True'' else ''False''
    | JInt i \<Rightarrow> dec_int i | JStr s \<Rightarrow> s | _ \<Rightarrow> pr v)"

text \<open>\<open>any(p(x) for x in xs)\<close> where \<open>p\<close> reads a field with \<open>x.get\<close>: stops at the first hit,
  raises on an entry that is not an object.\<close>

fun any_obj :: "(obj \<Rightarrow> bool) \<Rightarrow> json list \<Rightarrow> bool option" where
  "any_obj p [] = Some False"
| "any_obj p (JObj r # xs) = (if p r then Some True else any_obj p xs)"
| "any_obj p (_ # xs) = None"

definition landmarks_list :: "(string \<Rightarrow> obj \<Rightarrow> json) \<Rightarrow> json list" where
  "landmarks_list call = items_of (call ''landmarks.list'' [])"

text \<open>The zone kind tokens the game has, \<open>None\<close> when the read failed. A token that is not
  hashable raises, which the outer option says.\<close>

definition zone_kind_tokens :: "(string \<Rightarrow> obj \<Rightarrow> json) \<Rightarrow> json list option option" where
  "zone_kind_tokens call = (let rows = call ''zone.list-kinds'' [];
       rows' = (if is_obj rows \<and> is_arr (getj (fields_of rows) ''result'') then getj (fields_of rows) ''result'' else rows) in
     if \<not> is_arr rows' then Some None
     else let toks = filter truthy (map (\<lambda>r. getj (fields_of r) ''token'') (filter is_obj (items_of rows'))) in
       if list_all hashable toks then Some (Some toks) else None)"

definition zone_list_args :: obj where
  "zone_list_args = [(''kind_filter'', JStr []), (''owner_filter'', JStr []), (''valid_filter'', JStr []),
     (''near_landmark_filter'', JStr [])]"

definition is_number :: "json \<Rightarrow> bool" where
  "is_number v = (case v of JBool _ \<Rightarrow> True | JInt _ \<Rightarrow> True | JFloat _ \<Rightarrow> True | _ \<Rightarrow> False)"

definition get_or :: "obj \<Rightarrow> string \<Rightarrow> json \<Rightarrow> json" where
  "get_or r k d = (case map_of r k of None \<Rightarrow> d | Some v \<Rightarrow> v)"

definition read_zone_signal :: "parsed_signal \<Rightarrow> (string \<Rightarrow> obj \<Rightarrow> json) \<Rightarrow> signal_read" where
  "read_zone_signal p call =
    (let kind = (case ps_zone_kind p of None \<Rightarrow> [] | Some k \<Rightarrow> k);
         furn = (case ps_furniture p of None \<Rightarrow> [] | Some f \<Rightarrow> f) in
     case zone_kind_tokens call of
       None \<Rightarrow> SigRaised
     | Some None \<Rightarrow> Unresolvable
     | Some (Some toks) \<Rightarrow>
         if JStr kind \<notin> set toks then Unresolvable
         else let summary = call ''zone.list'' zone_list_args; sm = fields_of summary in
           if \<not> is_obj summary \<or> truthy (getj sm ''error'') then Unresolvable
           else if ps_kind p = ZONES_COUNT then
             (let counts = getj sm ''counts_by_kind'' in
              if \<not> is_obj counts then Unresolvable else SigValue (get_or (fields_of counts) kind (JInt 0)))
           else if ps_kind p = ZONES_FURNISHED then
             (let by_kind = getj sm ''furnished_by_kind'' in
              if \<not> is_obj by_kind then Unresolvable
              else if has (fields_of by_kind) kind \<and> \<not> is_number (getj (fields_of by_kind) kind) then Unresolvable
              else SigValue (get_or (fields_of by_kind) kind (JInt 0)))
           else
             (let by_kind = getj sm ''furniture_counts_by_kind'' in
              if \<not> is_obj by_kind then Unresolvable
              else if \<not> has (fields_of by_kind) kind then SigValue (JInt 0)
              else let inner = getj (fields_of by_kind) kind in
                if \<not> is_obj inner then Unresolvable
                else SigValue (get_or (fields_of inner) furn (JInt 0))))"

text \<open>The first exit of a landmark that leads to the named one.\<close>

fun exit_distance :: "string \<Rightarrow> json list \<Rightarrow> signal_read" where
  "exit_distance to [] = Unresolvable"
| "exit_distance to (JObj r # xs) =
     (if getj r ''to'' = JStr to then sig_of (map_of r ''distance_tiles'') else exit_distance to xs)"
| "exit_distance to (_ # xs) = SigRaised"

definition the_name :: "string option \<Rightarrow> json" where
  "the_name n = (case n of None \<Rightarrow> JNull | Some s \<Rightarrow> JStr s)"

definition read_signal :: "(json \<Rightarrow> string) \<Rightarrow> parsed_signal \<Rightarrow> (string \<Rightarrow> obj \<Rightarrow> json) \<Rightarrow> signal_read" where
  "read_signal pr p call = (case ps_kind p of
      FORT_POPULATION \<Rightarrow>
        sig_of (do { t \<leftarrow> subscript (call ''overview.get'' []) ''tier1''; subscript t ''population'' })
    | FORT_ALERTS_COUNT \<Rightarrow>
        sig_of (do { t \<leftarrow> subscript (call ''overview.get'' []) ''tier2''; a \<leftarrow> subscript t ''alerts'';
                     map_option (\<lambda>n. JInt (int n)) (py_len a) })
    | FORT_STUCK_JOBS_COUNT \<Rightarrow> sig_of (map_option (\<lambda>n. JInt (int n)) (py_len (call ''stuckjobs.find'' [])))
    | FORT_LANDMARKS_COUNT \<Rightarrow> SigValue (JInt (int (length (landmarks_list call))))
    | STOCKS_DRINK_UNITS \<Rightarrow>
        sig_of (do { t \<leftarrow> subscript (call ''stocks.food-drink'' []) ''drink''; subscript t ''units'' })
    | STOCKS_PREPARED_MEALS_UNITS \<Rightarrow>
        sig_of (do { t \<leftarrow> subscript (call ''stocks.food-drink'' []) ''prepared_meals''; subscript t ''units'' })
    | STOCKS_RAW_EDIBLES_UNITS \<Rightarrow>
        sig_of (do { t \<leftarrow> subscript (call ''stocks.food-drink'' []) ''raw_edibles''; subscript t ''units'' })
    | STOCKS_SEEDS_UNITS \<Rightarrow> sig_of (subscript (call ''stocks.seeds'' []) ''total_units'')
    | LANDMARK_EXISTS \<Rightarrow>
        sig_of (map_option JBool (any_obj (\<lambda>r. getj r ''name'' = the_name (ps_landmark p)) (landmarks_list call)))
    | LANDMARK_EXIT_DISTANCE \<Rightarrow>
        (let lm = call ''landmarks.get'' [(''name'', the_name (ps_landmark p))] in
         if \<not> is_obj lm \<or> truthy (getj (fields_of lm) ''error'') then Unresolvable
         else (case py_iter (get_or (fields_of lm) ''exits'' (JArr [])) of
             None \<Rightarrow> SigRaised
           | Some xs \<Rightarrow> exit_distance (str_of (the_name (ps_exit_to p))) xs))
    | ORDER_EXISTS \<Rightarrow>
        (let orders = call ''orders.list'' [];
             xs = (if is_obj orders then py_iter (get_or (fields_of orders) ''orders'' (JArr [])) else Some []) in
         (case xs of None \<Rightarrow> SigRaised
          | Some os \<Rightarrow> sig_of (map_option JBool
              (any_obj (\<lambda>r. JStr (py_str pr (getj r ''id'')) = the_name (ps_order_id p)) os))))
    | STOCKS_AVAILABILITY_UNITS \<Rightarrow>
        (let r = call ''stocks.availability'' [(''type'', the_name (ps_item_type p))] in
         if \<not> is_obj r \<or> truthy (getj (fields_of r) ''error'') then Unresolvable
         else sig_of (map_of (fields_of r) ''available_units''))
    | _ \<Rightarrow> read_zone_signal p call)"

text \<open>A zone kind the game does not have, or one that cannot be checked, is never a count.\<close>

lemma read_unknown_zone_kind:
  assumes "ps_kind p \<in> {ZONES_COUNT, ZONES_FURNISHED, ZONES_FURNITURE}"
    and "ps_zone_kind p = Some k"
    and "zone_kind_tokens call = Some None \<or> (\<exists>toks. zone_kind_tokens call = Some (Some toks) \<and> JStr k \<notin> set toks)"
  shows "read_signal pr p call = Unresolvable"
  using assms by (auto simp: read_signal_def read_zone_signal_def Let_def)

end
