(* ===== verification/Routing.thy ===== *)
theory Routing
  imports Prelude
begin

section \<open>The roster and the routing table\<close>

text \<open>
  The two data files every check consults, as the parsed values the code reads from them:
  \<open>agents/ROSTER.yaml\<close> (\<open>dfqueue/schema.py\<close>: \<open>enabled_roles\<close>, \<open>sole_writer\<close>,
  \<open>executor\<close>, \<open>answer_roles\<close>) and \<open>dfqueue/action_tools.yaml\<close> (\<open>dfqueue/routing.py\<close>).
  \<open>routing_validate\<close> is \<open>routing._validate\<close>, which turns the parsed YAML into the table of
  groups or raises \<open>RoutingError\<close>; the queries read the table. A \<open>routing\<close> value is only ever
  made by it, and its lemmas say what every accepted file satisfies: a type is in one group, a
  ruling-only group has no tools and is not routed.
\<close>

subsection \<open>The roster\<close>

record roster =
  ro_sole_writer :: string
  ro_executor :: json
  ro_fort :: string
  ro_roles :: "(string \<times> obj) list"

definition OBSERVATION_ROLE :: string where "OBSERVATION_ROLE = ''conductor''"
definition PLAN_ROLE :: string where "PLAN_ROLE = ''planner''"
definition ASK_ROLES :: "string list" where
  "ASK_ROLES = [''architect'', ''quartermaster'', ''overseer'', ''planner'']"
definition DEFAULT_ASK_ADDRESSEE :: string where "DEFAULT_ASK_ADDRESSEE = ''consultant''"

definition enabled_roles :: "roster \<Rightarrow> string list" where
  "enabled_roles ro = map fst (filter (\<lambda>(n, c). truthy (getj c ''enabled'')) (ro_roles ro))"

definition sole_writer :: "roster \<Rightarrow> string" where
  "sole_writer ro = ro_sole_writer ro"

definition answer_roles :: "roster \<Rightarrow> string list" where
  "answer_roles ro =
     map fst (filter (\<lambda>(n, c). truthy (getj c ''enabled'') \<and> truthy (getj c ''answerer'')) (ro_roles ro))"

text \<open>\<open>roster.get("executor") or OBSERVATION_ROLE\<close>.\<close>

definition executor :: "roster \<Rightarrow> string" where
  "executor ro = (if truthy (ro_executor ro) then str_of (ro_executor ro) else OBSERVATION_ROLE)"

text \<open>Who an ask is addressed to: its \<open>to\<close>, or the Consultant.\<close>

definition ask_addressee :: "obj \<Rightarrow> json" where
  "ask_addressee ask = (if truthy (getj ask ''to'') then getj ask ''to'' else JStr DEFAULT_ASK_ADDRESSEE)"

lemma answer_roles_enabled: "r \<in> set (answer_roles ro) \<Longrightarrow> r \<in> set (enabled_roles ro)"
  by (force simp: answer_roles_def enabled_roles_def)

subsection \<open>The routing table\<close>

record group =
  g_name :: string
  g_types :: "string list"
  g_tools :: "string list"
  g_ruling_only :: bool
  g_routed :: bool
  g_frozen :: bool
  g_coverage :: bool
  g_direct :: bool

record routing =
  rt_groups :: "group list"
  rt_retired :: "string list"

definition LEGACY_GROUP :: string where "LEGACY_GROUP = ''legacy''"

definition all_strings :: "bool \<Rightarrow> json \<Rightarrow> bool" where
  "all_strings nonempty v = (is_arr v \<and> list_all (\<lambda>x. if nonempty then nonempty_str x else is_str x) (items_of v))"

definition strings_of :: "json \<Rightarrow> string list" where
  "strings_of v = map str_of (items_of v)"

text \<open>One entry of \<open>groups\<close>: the shape checks, in the code's order; \<open>None\<close> is \<open>RoutingError\<close>.\<close>

definition flag_ok :: "obj \<Rightarrow> string \<Rightarrow> bool" where
  "flag_ok g k = (case map_of g k of None \<Rightarrow> True | Some v \<Rightarrow> is_bool v)"

definition group_shape :: "string \<Rightarrow> json \<Rightarrow> group option" where
  "group_shape name v =
    (let g = fields_of v; on = (\<lambda>k. getj g k = JBool True); tools = getj g ''tools'' in
     if name = LEGACY_GROUP then None
     else if \<not> is_obj v then None
     else if \<not> (all_strings True (getj g ''types'') \<and> items_of (getj g ''types'') \<noteq> []) then None
     else if \<not> (on ''ruling_only'' \<and> (tools = JNull \<or> tools = JArr []))
          \<and> \<not> (all_strings True tools \<and> items_of tools \<noteq> []) then None
     else if \<not> list_all (flag_ok g) [''routed'', ''frozen'', ''coverage'', ''ruling_only'', ''direct''] then None
     else if on ''ruling_only'' \<and> (on ''routed'' \<or> truthy tools) then None
     else if on ''direct'' \<and> (on ''frozen'' \<or> on ''coverage'' \<or> on ''ruling_only'') then None
     else Some \<lparr>g_name = name, g_types = strings_of (getj g ''types''), g_tools = strings_of tools,
       g_ruling_only = on ''ruling_only'', g_routed = on ''routed'', g_frozen = on ''frozen'',
       g_coverage = on ''coverage'', g_direct = on ''direct''\<rparr>)"

text \<open>The loop over the groups, with the types and tools seen so far: a repeated type is refused,
  within a group too, and a repeated tool except in a direct group.\<close>

fun add_all :: "string list \<Rightarrow> string list \<Rightarrow> string list option" where
  "add_all seen [] = Some seen"
| "add_all seen (x # xs) = (if x \<in> set seen then None else add_all (seen @ [x]) xs)"

fun groups_loop :: "string list \<Rightarrow> string list \<Rightarrow> obj \<Rightarrow> group list option" where
  "groups_loop seen_types seen_tools [] = Some []"
| "groups_loop seen_types seen_tools ((name, v) # rest) = do {
     g \<leftarrow> group_shape name v;
     ty \<leftarrow> add_all seen_types (g_types g);
     tl \<leftarrow> (if g_direct g then Some seen_tools else add_all seen_tools (g_tools g));
     gs \<leftarrow> groups_loop ty tl rest;
     Some (g # gs)
   }"

definition created_refs_ok :: "json \<Rightarrow> bool" where
  "created_refs_ok v = (is_obj v \<and> list_all (\<lambda>(tool, r). is_obj r \<and>
      list_all (has (fields_of r)) [''handle_path'', ''prefix'', ''list_tool'', ''list_rows'', ''id_field'',
        ''cancel_tool'', ''cancel_args'']) (fields_of v))"

definition routing_validate :: "obj \<Rightarrow> routing option" where
  "routing_validate raw =
    (let groups = getj raw ''groups'';
         retired = or_empty (getj raw ''retired'');
         refs = (if truthy (getj raw ''created_refs'') then getj raw ''created_refs'' else JObj []) in
     if \<not> is_obj groups \<or> fields_of groups = [] then None
     else do {
       gs \<leftarrow> groups_loop [] [] (fields_of groups);
       (if \<not> all_strings False retired \<or> \<not> created_refs_ok refs then None
        else Some \<lparr>rt_groups = gs, rt_retired = strings_of retired\<rparr>)
     })"

subsection \<open>Queries\<close>

definition group_entry :: "routing \<Rightarrow> json \<Rightarrow> group option" where
  "group_entry rt ty = find (\<lambda>g. ty \<in> JStr ` set (g_types g)) (rt_groups rt)"

definition group_of :: "routing \<Rightarrow> json \<Rightarrow> string option" where
  "group_of rt ty = map_option g_name (group_entry rt ty)"

definition groups_of :: "routing \<Rightarrow> string list" where
  "groups_of rt = map g_name (rt_groups rt)"

definition is_routed :: "routing \<Rightarrow> json \<Rightarrow> bool" where
  "is_routed rt ty = (case group_entry rt ty of None \<Rightarrow> False | Some g \<Rightarrow> g_routed g \<or> g_direct g)"

definition is_ruling_only :: "routing \<Rightarrow> json \<Rightarrow> bool" where
  "is_ruling_only rt ty = (case group_entry rt ty of None \<Rightarrow> False | Some g \<Rightarrow> g_ruling_only g)"

definition is_frozen :: "routing \<Rightarrow> json \<Rightarrow> bool" where
  "is_frozen rt ty = (case group_entry rt ty of None \<Rightarrow> False | Some g \<Rightarrow> g_frozen g)"

definition coverage_on :: "routing \<Rightarrow> json \<Rightarrow> bool" where
  "coverage_on rt ty = (case group_entry rt ty of None \<Rightarrow> False | Some g \<Rightarrow> g_coverage g)"

definition is_direct :: "routing \<Rightarrow> json \<Rightarrow> bool" where
  "is_direct rt ty = (case group_entry rt ty of None \<Rightarrow> False | Some g \<Rightarrow> g_direct g)"

text \<open>\<open>_group(name)\<close>; an unknown name is \<open>RoutingError\<close>.\<close>

definition group_named :: "routing \<Rightarrow> string \<Rightarrow> group option" where
  "group_named rt n = find (\<lambda>g. g_name g = n) (rt_groups rt)"

definition tools_of :: "routing \<Rightarrow> string \<Rightarrow> string list" where
  "tools_of rt n = (case group_named rt n of None \<Rightarrow> [] | Some g \<Rightarrow> g_tools g)"

definition routed_groups :: "routing \<Rightarrow> string list" where
  "routed_groups rt = map g_name (filter g_routed (rt_groups rt))"

definition executed_groups :: "routing \<Rightarrow> string list" where
  "executed_groups rt = map g_name (filter (\<lambda>g. g_routed g \<or> g_direct g) (rt_groups rt))"

definition direct_groups :: "routing \<Rightarrow> string list" where
  "direct_groups rt = map g_name (filter g_direct (rt_groups rt))"

definition direct_type :: "routing \<Rightarrow> string option" where
  "direct_type rt = (case filter g_direct (rt_groups rt) of [] \<Rightarrow> None
     | g # _ \<Rightarrow> (case g_types g of [] \<Rightarrow> None | t # _ \<Rightarrow> Some t))"

definition direct_tools :: "routing \<Rightarrow> string list" where
  "direct_tools rt = concat (map g_tools (filter g_direct (rt_groups rt)))"

definition routed_types :: "routing \<Rightarrow> string list" where
  "routed_types rt = concat (map g_types (filter g_routed (rt_groups rt)))"

definition routed_tools :: "routing \<Rightarrow> string list" where
  "routed_tools rt = concat (map g_tools (filter g_routed (rt_groups rt)))"

definition ruling_only_types :: "routing \<Rightarrow> string list" where
  "ruling_only_types rt = concat (map g_types (filter g_ruling_only (rt_groups rt)))"

definition unrouted_types :: "routing \<Rightarrow> string list" where
  "unrouted_types rt = concat (map g_types (filter (\<lambda>g. \<not> g_routed g \<and> \<not> g_ruling_only g) (rt_groups rt)))"

subsection \<open>What an accepted routing file satisfies\<close>

lemma add_all_Some:
  "add_all seen xs = Some ys \<Longrightarrow> ys = seen @ xs \<and> (distinct seen \<longrightarrow> distinct ys)"
  by (induction seen xs arbitrary: ys rule: add_all.induct) (auto split: if_splits)

lemma groups_loop_types:
  assumes "groups_loop sty stl kvs = Some gs" and "distinct sty"
  shows "distinct (sty @ concat (map g_types gs))"
  using assms
proof (induction sty stl kvs arbitrary: gs rule: groups_loop.induct)
  case (2 sty stl name v rest)
  from "2.prems" obtain g ty tl gs' where *: "group_shape name v = Some g" "add_all sty (g_types g) = Some ty"
    "(if g_direct g then Some stl else add_all stl (g_tools g)) = Some tl"
    "groups_loop ty tl rest = Some gs'" "gs = g # gs'"
    by (auto simp: bind_eq_Some_conv)
  from add_all_Some [OF *(2)] "2.prems" have "ty = sty @ g_types g" "distinct ty" by auto
  with "2.IH" [OF *(1-4)] * show ?case by simp
qed simp

lemma groups_loop_tools:
  assumes "groups_loop sty stl kvs = Some gs" and "distinct stl"
  shows "distinct (stl @ concat (map g_tools (filter (\<lambda>g. \<not> g_direct g) gs)))"
  using assms
proof (induction sty stl kvs arbitrary: gs rule: groups_loop.induct)
  case (2 sty stl name v rest)
  from "2.prems" obtain g ty tl gs' where *: "group_shape name v = Some g" "add_all sty (g_types g) = Some ty"
    "(if g_direct g then Some stl else add_all stl (g_tools g)) = Some tl"
    "groups_loop ty tl rest = Some gs'" "gs = g # gs'"
    by (auto simp: bind_eq_Some_conv)
  show ?case
  proof (cases "g_direct g")
    case True
    with * "2.IH" [OF *(1-4)] "2.prems" show ?thesis by simp
  next
    case False
    with *(3) add_all_Some [of stl "g_tools g" tl] "2.prems" have "tl = stl @ g_tools g" "distinct tl" by auto
    with * "2.IH" [OF *(1-4)] False show ?thesis by simp
  qed
qed simp

lemma items_truthy: "items_of v \<noteq> [] \<Longrightarrow> truthy v"
  by (auto simp: items_of_def split: json.splits)

lemma group_shape_flags:
  assumes "group_shape name v = Some g"
  shows "g_name g = name" "name \<noteq> LEGACY_GROUP" "g_types g \<noteq> []"
    "g_ruling_only g \<Longrightarrow> \<not> g_routed g \<and> g_tools g = []"
    "g_direct g \<Longrightarrow> \<not> g_ruling_only g \<and> \<not> g_frozen g \<and> \<not> g_coverage g"
  using assms by (auto simp: group_shape_def Let_def strings_of_def dest: items_truthy split: if_splits)

lemma groups_loop_shape:
  "groups_loop sty stl kvs = Some gs \<Longrightarrow> g \<in> set gs \<Longrightarrow> \<exists>name v. (name, v) \<in> set kvs \<and> group_shape name v = Some g"
  by (induction sty stl kvs arbitrary: gs rule: groups_loop.induct)
    (fastforce simp: bind_eq_Some_conv split: if_splits)+

lemma routing_validate_loop:
  assumes "routing_validate raw = Some rt"
  shows "groups_loop [] [] (fields_of (getj raw ''groups'')) = Some (rt_groups rt)"
  using assms by (auto simp: routing_validate_def Let_def bind_eq_Some_conv split: if_splits)

lemma routing_validate_distinct_types:
  assumes "routing_validate raw = Some rt"
  shows "distinct (concat (map g_types (rt_groups rt)))"
  using groups_loop_types [OF routing_validate_loop [OF assms]] by simp

lemma distinct_concat_unique:
  assumes "distinct (concat (map f gs))" and "g \<in> set gs" and "h \<in> set gs" and "x \<in> set (f g)" and "x \<in> set (f h)"
  shows "g = h"
  using assms by (induction gs) auto

lemma group_entry_iff:
  assumes "routing_validate raw = Some rt"
  shows "group_entry rt (JStr t) = Some g \<longleftrightarrow> g \<in> set (rt_groups rt) \<and> t \<in> set (g_types g)"
proof
  assume "group_entry rt (JStr t) = Some g"
  then show "g \<in> set (rt_groups rt) \<and> t \<in> set (g_types g)"
    unfolding group_entry_def by (auto dest: find_Some_in)
next
  assume g: "g \<in> set (rt_groups rt) \<and> t \<in> set (g_types g)"
  then obtain h where h: "group_entry rt (JStr t) = Some h"
    unfolding group_entry_def by (metis (mono_tags) find_NoneD imageI not_None_eq)
  then have "h \<in> set (rt_groups rt)" "t \<in> set (g_types h)"
    unfolding group_entry_def by (auto dest: find_Some_in)
  with g routing_validate_distinct_types [OF assms] have "h = g"
    by (blast intro: distinct_concat_unique)
  with h show "group_entry rt (JStr t) = Some g" by simp
qed

lemma is_routed_iff:
  assumes "routing_validate raw = Some rt"
  shows "is_routed rt (JStr t) \<longleftrightarrow> (\<exists>g \<in> set (rt_groups rt). t \<in> set (g_types g) \<and> (g_routed g \<or> g_direct g))"
  using group_entry_iff [OF assms] distinct_concat_unique [OF routing_validate_distinct_types [OF assms]]
  by (fastforce simp: is_routed_def split: option.splits)

lemma ruling_only_never_routed:
  assumes "routing_validate raw = Some rt" and "is_ruling_only rt (JStr t)"
  shows "\<not> is_routed rt (JStr t)"
proof -
  from assms(2) obtain g where g: "group_entry rt (JStr t) = Some g" "g_ruling_only g"
    by (auto simp: is_ruling_only_def split: option.splits)
  with group_entry_iff [OF assms(1)] have "g \<in> set (rt_groups rt)" by blast
  with groups_loop_shape [OF routing_validate_loop [OF assms(1)]] obtain n v where "group_shape n v = Some g"
    by blast
  with g group_shape_flags [OF this] show ?thesis by (auto simp: is_routed_def)
qed

end
