(* ===== verification/Step_Graph.thy ===== *)
theory Step_Graph
  imports Prelude
begin

section \<open>The \<open>requires\<close> graph of a project\<close>

text \<open>
  \<open>dfqueue/schema.py\<close>, \<open>_find_requires_cycle\<close>: a depth-first search over the \<open>requires\<close> edges
  of a project's steps, with the three colours the code keeps. A grey node is one on \<open>path\<close>, a
  white one is still in the white list, a black one is in neither. \<open>dfs\<close> is the recursive
  \<open>visit\<close> together with the loop over the successors that calls it; the outermost loop over the
  graph's nodes is the same loop with an empty path. It returns the offending path, as the code does,
  or the nodes still white. The termination argument is that a visit takes one node off the white list;
  \<open>find_requires_cycle_None_iff\<close> says that no cycle is reported exactly when the graph has none.
\<close>

type_synonym graph = "(string \<times> string list) list"

definition nodes :: "graph \<Rightarrow> string list" where
  "nodes g = map fst g"

definition succs :: "graph \<Rightarrow> string \<Rightarrow> string list" where
  "succs g n = (case map_of g n of None \<Rightarrow> [] | Some ns \<Rightarrow> ns)"

text \<open>\<open>graph[s["id"]] = [\<dots>]\<close> for every step with a usable id; a later step with the same id
  replaces the edges and keeps the place.\<close>

definition requires_of :: "obj \<Rightarrow> string list" where
  "requires_of s = map str_of (filter is_str (items_of (getj s ''requires'')))"

fun steps_graph :: "graph \<Rightarrow> json list \<Rightarrow> graph" where
  "steps_graph g [] = g"
| "steps_graph g (JObj s # rest) =
     (case getj s ''id'' of
        JStr sid \<Rightarrow> if sid = [] then steps_graph g rest
                    else steps_graph (AList.update sid (requires_of s) g) rest
      | _ \<Rightarrow> steps_graph g rest)"
| "steps_graph g (_ # rest) = steps_graph g rest"

function dfs :: "graph \<Rightarrow> string list \<Rightarrow> string list \<Rightarrow> string list \<Rightarrow> string list + string list" where
  "dfs g w p [] = Inr w"
| "dfs g w p (n # ns) =
     (if n \<notin> set (nodes g) then dfs g w p ns
      else if n \<in> set p then Inl (dropWhile (\<lambda>x. x \<noteq> n) p @ [n])
      else if n \<in> set w then
        (case dfs g (removeAll n w) (p @ [n]) (succs g n) of
           Inl c \<Rightarrow> Inl c
         | Inr w' \<Rightarrow> dfs g w' p ns)
      else dfs g w p ns)"
  by pat_completeness auto

lemma dfs_whites: "dfs_dom (g, w, p, ns) \<Longrightarrow> dfs g w p ns = Inr w' \<Longrightarrow> length w' \<le> length w"
proof (induction g w p ns arbitrary: w' rule: dfs.pinduct)
  case (1 g w p)
  then show ?case by (simp add: dfs.psimps)
next
  case (2 g w p n ns)
  show ?case
  proof (cases "n \<in> set (nodes g) \<and> n \<notin> set p \<and> n \<in> set w")
    case True
    with "2.prems" "2.hyps" obtain u where u: "dfs g (removeAll n w) (p @ [n]) (succs g n) = Inr u"
      and r: "dfs g u p ns = Inr w'"
      by (auto simp: dfs.psimps split: sum.splits)
    have "length u \<le> length (removeAll n w)" using "2.IH"(2) True u by simp
    also have "\<dots> \<le> length w" by (rule length_removeAll_less_eq)
    also have "length w' \<le> length u" using "2.IH"(3) True u r by simp
    ultimately show ?thesis by simp
  next
    case False
    with 2 show ?thesis by (auto simp: dfs.psimps split: if_splits)
  qed
qed

termination dfs
proof (relation "measures [\<lambda>(g, w, p, ns). length w, \<lambda>(g, w, p, ns). length ns]", goal_cases)
  case (4 g w p n ns u)
  then have "length u \<le> length (removeAll n w)" using dfs_whites by blast
  with 4 length_removeAll_less [of n w] show ?case by simp
qed (auto intro: length_removeAll_less)

declare dfs.simps(2) [simp del]

definition find_requires_cycle :: "json list \<Rightarrow> string list option" where
  "find_requires_cycle steps =
    (let g = steps_graph [] steps in
     case dfs g (nodes g) [] (nodes g) of Inl c \<Rightarrow> Some c | Inr _ \<Rightarrow> None)"

subsection \<open>Edges, paths and cycles\<close>

definition edges :: "graph \<Rightarrow> (string \<times> string) set" where
  "edges g = {(n, m). n \<in> set (nodes g) \<and> m \<in> set (nodes g) \<and> m \<in> set (succs g n)}"

definition requires_edges :: "json list \<Rightarrow> (string \<times> string) set" where
  "requires_edges steps = edges (steps_graph [] steps)"

fun chain :: "('a \<times> 'a) set \<Rightarrow> 'a list \<Rightarrow> bool" where
  "chain E [] \<longleftrightarrow> True"
| "chain E [x] \<longleftrightarrow> True"
| "chain E (x # y # zs) \<longleftrightarrow> (x, y) \<in> E \<and> chain E (y # zs)"

lemma chain_append: "chain E (xs @ ys) \<longleftrightarrow> chain E xs \<and> chain E ys \<and> (xs \<noteq> [] \<longrightarrow> ys \<noteq> [] \<longrightarrow> (last xs, hd ys) \<in> E)"
proof (induction E xs rule: chain.induct)
  case (2 E x)
  then show ?case by (cases ys) auto
qed auto

lemma chain_trancl: "chain E xs \<Longrightarrow> length xs \<ge> 2 \<Longrightarrow> (hd xs, last xs) \<in> E\<^sup>+"
proof (induction E xs rule: chain.induct)
  case (3 E x y zs)
  then show ?case by (cases zs) (auto intro: trancl_trans r_into_trancl)
qed auto

lemma dropWhile_chain:
  assumes "n \<in> set p" and "chain E p"
  shows "chain E (dropWhile (\<lambda>x. x \<noteq> n) p)" and "hd (dropWhile (\<lambda>x. x \<noteq> n) p) = n"
    and "dropWhile (\<lambda>x. x \<noteq> n) p \<noteq> []" and "last (dropWhile (\<lambda>x. x \<noteq> n) p) = last p"
proof -
  have ne: "dropWhile (\<lambda>x. x \<noteq> n) p \<noteq> []" using assms(1) by (simp add: dropWhile_eq_Nil_conv)
  then show "dropWhile (\<lambda>x. x \<noteq> n) p \<noteq> []" "hd (dropWhile (\<lambda>x. x \<noteq> n) p) = n"
    using hd_dropWhile [OF ne] by simp_all
  have p: "p = takeWhile (\<lambda>x. x \<noteq> n) p @ dropWhile (\<lambda>x. x \<noteq> n) p" by simp
  then show "chain E (dropWhile (\<lambda>x. x \<noteq> n) p)" using assms(2) chain_append by metis
  show "last (dropWhile (\<lambda>x. x \<noteq> n) p) = last p" using ne p last_append by metis
qed

subsection \<open>A reported path is a cycle\<close>

lemma dfs_cycle:
  assumes "dfs g w p ns = Inl c" and "chain (edges g) p" and "set p \<subseteq> set (nodes g)"
    and "p \<noteq> [] \<longrightarrow> set ns \<subseteq> set (succs g (last p))"
  shows "chain (edges g) c \<and> length c \<ge> 2 \<and> hd c = last c"
  using assms
proof (induction g w p ns rule: dfs.induct)
  case (2 g w p n ns)
  consider (skip) "n \<notin> set (nodes g) \<or> n \<in> set (nodes g) \<and> n \<notin> set p \<and> n \<notin> set w"
    | (grey) "n \<in> set (nodes g)" "n \<in> set p"
    | (white) "n \<in> set (nodes g)" "n \<notin> set p" "n \<in> set w" by blast
  then show ?case
  proof cases
    case skip
    with "2.prems" have "dfs g w p ns = Inl c" by (auto simp: dfs.simps split: if_splits)
    with skip "2.IH" "2.prems" show ?thesis by auto
  next
    case grey
    let ?d = "dropWhile (\<lambda>x. x \<noteq> n) p"
    from grey "2.prems" have c: "c = ?d @ [n]" by (simp add: dfs.simps)
    have p: "p \<noteq> []" using grey by auto
    with "2.prems" grey have "(last p, n) \<in> edges g" by (auto simp: edges_def)
    with dropWhile_chain [OF grey(2) "2.prems"(2)] c show ?thesis
      by (auto simp: chain_append Suc_le_eq)
  next
    case white
    let ?r = "dfs g (removeAll n w) (p @ [n]) (succs g n)"
    have sub: "chain (edges g) (p @ [n])" "set (p @ [n]) \<subseteq> set (nodes g)"
      using "2.prems" white by (auto simp: chain_append edges_def)
    show ?thesis
    proof (cases ?r)
      case (Inl d)
      with "2.prems"(1) white have "d = c" by (simp add: dfs.simps)
      with "2.IH"(2) white sub Inl show ?thesis by simp
    next
      case (Inr u)
      with "2.prems"(1) white have "dfs g u p ns = Inl c" by (simp add: dfs.simps)
      with "2.IH"(3) white Inr "2.prems" show ?thesis by auto
    qed
  qed
qed simp

subsection \<open>No reported path: no cycle\<close>

definition blacks :: "graph \<Rightarrow> string list \<Rightarrow> string list \<Rightarrow> string set" where
  "blacks g w p = set (nodes g) - set w - set p"

definition done_ok :: "graph \<Rightarrow> string set \<Rightarrow> bool" where
  "done_ok g B \<longleftrightarrow> edges g `` B \<subseteq> B \<and> (\<forall>b \<in> B. (b, b) \<notin> (edges g)\<^sup>+)"

lemma Image_trancl_closed: "E `` B \<subseteq> B \<Longrightarrow> x \<in> B \<Longrightarrow> (x, y) \<in> E\<^sup>+ \<Longrightarrow> y \<in> B"
  by (erule trancl_induct) auto

lemma done_ok_insert:
  assumes "done_ok g B" and "edges g `` {n} \<subseteq> B" and "n \<notin> B"
  shows "done_ok g (insert n B)"
proof -
  have "(n, n) \<notin> (edges g)\<^sup>+"
  proof
    assume "(n, n) \<in> (edges g)\<^sup>+"
    then obtain m where "(n, m) \<in> edges g" and m: "(m, n) \<in> (edges g)\<^sup>*" by (blast dest: tranclD)
    with assms(2) have "m \<in> B" by blast
    with m assms(1,3) show False
      by (auto simp: done_ok_def rtrancl_eq_or_trancl dest: Image_trancl_closed)
  qed
  with assms show ?thesis by (auto simp: done_ok_def)
qed

lemma dfs_done:
  assumes "dfs g w p ns = Inr w'" and "set w \<inter> set p = {}" and "done_ok g (blacks g w p)"
    and "set w \<subseteq> set (nodes g)"
  shows "set w' \<subseteq> set w \<and> done_ok g (blacks g w' p) \<and> set ns \<inter> set (nodes g) \<subseteq> blacks g w' p"
  using assms
proof (induction g w p ns arbitrary: w' rule: dfs.induct)
  case (1 g w p)
  then show ?case by simp
next
  case (2 g w p n ns)
  consider (absent) "n \<notin> set (nodes g)" | (grey) "n \<in> set (nodes g)" "n \<in> set p"
    | (white) "n \<in> set (nodes g)" "n \<notin> set p" "n \<in> set w"
    | (black) "n \<in> set (nodes g)" "n \<notin> set p" "n \<notin> set w" by blast
  then show ?case
  proof cases
    case absent
    with 2 show ?thesis by (simp add: dfs.simps)
  next
    case grey
    with "2.prems"(1) show ?thesis by (simp add: dfs.simps)
  next
    case black
    with 2 have "set w' \<subseteq> set w \<and> done_ok g (blacks g w' p) \<and> set ns \<inter> set (nodes g) \<subseteq> blacks g w' p"
      by (simp add: dfs.simps)
    with black show ?thesis by (auto simp: blacks_def)
  next
    case white
    let ?w = "removeAll n w"
    from "2.prems"(1) white obtain u where u: "dfs g ?w (p @ [n]) (succs g n) = Inr u"
      and r: "dfs g u p ns = Inr w'" by (auto simp: dfs.simps split: sum.splits)
    have eq: "blacks g ?w (p @ [n]) = blacks g w p" using white by (auto simp: blacks_def)
    have IH1: "set u \<subseteq> set ?w \<and> done_ok g (blacks g u (p @ [n])) \<and>
        set (succs g n) \<inter> set (nodes g) \<subseteq> blacks g u (p @ [n])"
      using "2.IH"(2) white u "2.prems" eq by auto
    let ?B = "blacks g u (p @ [n])"
    have ins: "blacks g u p = insert n ?B" using IH1 white by (auto simp: blacks_def)
    have ok: "done_ok g (blacks g u p)" unfolding ins
      using IH1 by (intro done_ok_insert) (auto simp: edges_def blacks_def)
    have "set u \<inter> set p = {}" "set u \<subseteq> set (nodes g)" using IH1 "2.prems" by auto
    with "2.IH"(3) [OF _ white(2,3) u r] white(1) ok
    have "set w' \<subseteq> set u \<and> done_ok g (blacks g w' p) \<and> set ns \<inter> set (nodes g) \<subseteq> blacks g w' p" by simp
    with IH1 white show ?thesis by (auto simp: blacks_def)
  qed
qed

lemma edges_acyclic:
  assumes "done_ok g (set (nodes g))"
  shows "acyclic (edges g)"
proof (rule acyclicI, rule allI)
  fix x
  show "(x, x) \<notin> (edges g)\<^sup>+"
  proof
    assume x: "(x, x) \<in> (edges g)\<^sup>+"
    then have "x \<in> set (nodes g)" by (auto simp: edges_def dest: tranclD)
    with x assms show False by (auto simp: done_ok_def)
  qed
qed

lemma find_requires_cycle_Some:
  assumes "find_requires_cycle steps = Some c"
  shows "chain (requires_edges steps) c \<and> length c \<ge> 2 \<and> hd c = last c"
proof -
  let ?g = "steps_graph [] steps"
  from assms have "dfs ?g (nodes ?g) [] (nodes ?g) = Inl c"
    by (auto simp: find_requires_cycle_def Let_def split: sum.splits)
  from dfs_cycle [OF this] show ?thesis by (simp add: requires_edges_def)
qed

lemma find_requires_cycle_None_iff:
  "find_requires_cycle steps = None \<longleftrightarrow> acyclic (requires_edges steps)"
proof
  let ?g = "steps_graph [] steps"
  assume "find_requires_cycle steps = None"
  then obtain w where w: "dfs ?g (nodes ?g) [] (nodes ?g) = Inr w"
    by (auto simp: find_requires_cycle_def Let_def split: sum.splits)
  have "done_ok ?g (blacks ?g (nodes ?g) [])" by (simp add: done_ok_def blacks_def)
  from dfs_done [OF w _ this] have "done_ok ?g (blacks ?g w [])" "set (nodes ?g) \<subseteq> blacks ?g w []"
    by auto
  moreover from this have "blacks ?g w [] = set (nodes ?g)" by (auto simp: blacks_def)
  ultimately show "acyclic (requires_edges steps)"
    unfolding requires_edges_def by (simp add: edges_acyclic)
next
  assume acyc: "acyclic (requires_edges steps)"
  show "find_requires_cycle steps = None"
  proof (cases "find_requires_cycle steps")
    case (Some c)
    from find_requires_cycle_Some [OF this] have "(hd c, hd c) \<in> (requires_edges steps)\<^sup>+"
      using chain_trancl [of "requires_edges steps" c] by simp
    with acyc show ?thesis by (auto simp: acyclic_def)
  qed
qed

end
