(* ===== verification/Schema.thy ===== *)
theory Schema
  imports Texts Signals Routing Step_Graph
begin

section \<open>Queue records: vocabularies and the validators of their parts\<close>

text \<open>
  The first half of \<open>dfqueue/schema.py\<close>: the closed vocabularies, and the validators of the
  parts a record is made of (text fields, cost, preconditions, prediction, cited facts, a proposal's
  step and phases, executed actions, target specifications, project steps, observation results, plan
  and answer parts). Each validator returns the messages the code appends, in the code's order.

  What the code reads from files is a field of \<open>config\<close>: the roster, the routing table, the
  hold codes of \<open>public_text.yaml\<close>, the tool ids of the registry. \<open>cf_float_repr\<close> is
  Python's printing of a float and \<open>cf_ledger_field\<close> is \<open>ledger_field_source(\<dots>) is not
  None\<close>, which only chooses between two messages.
\<close>

record plan_policy =
  pp_season_ticks :: int
  pp_sections :: "(string \<times> string) list"
  pp_open_sections :: "string list"
  pp_cap_targets :: nat
  pp_cap_relies_on :: nat
  pp_field_max :: nat
  pp_public_rationale_max :: nat
  pp_max_in_flight_max :: int
  pp_per :: "string list"
  pp_cooldown_ticks :: int
  pp_per_season_cap :: nat
  pp_family_serving_types :: "(string \<times> string list) list"
  pp_default_item_owner :: string
  pp_item_owner :: "(string \<times> string) list"
  pp_item_types :: "(string \<times> string) list"

record config =
  cf_roster :: roster
  cf_routing :: routing
  cf_hold_codes :: "string list"
  cf_tool_ids :: "string list"
  cf_float_repr :: "rat \<Rightarrow> string"
  cf_ledger_field :: "string \<Rightarrow> bool"
  cf_identity_tools :: "(string \<times> string list) list"
  cf_follow_up_checked :: "string list"
  cf_policy :: plan_policy
  cf_roadmap :: obj
  cf_templates :: "obj list"

subsection \<open>Vocabularies\<close>

definition KINDS :: "string list" where
  "KINDS = [''proposal'', ''pass'', ''ruling'', ''executed'', ''ask'', ''answer'', ''escalation'',
    ''project'', ''observation'', ''amend'', ''abandon'', ''close'', ''fort_plan'']"

definition CLOSE_OUTCOMES :: "string list" where
  "CLOSE_OUTCOMES = [''completed'', ''not_done'', ''abandoned'', ''superseded'']"

definition CLOSE_TARGET_FIELDS :: "string list" where
  "CLOSE_TARGET_FIELDS = [''project_id'', ''proposal_id'', ''ruling_id'']"

definition RULING_DECISIONS :: "string list" where
  "RULING_DECISIONS = [''accept'', ''reject'', ''defer'']"

definition EXECUTION_OUTCOMES :: "string list" where
  "EXECUTION_OUTCOMES = [''success'', ''failure'']"

definition PILE_CLASSES :: "string list" where
  "PILE_CLASSES = [''animals'', ''food'', ''furniture'', ''refuse'', ''stone'', ''wood'', ''gems'',
    ''finished_goods'', ''leather'', ''cloth'', ''sheet'', ''bars_blocks'', ''weapons'',
    ''armor'', ''ammo'', ''coins'', ''corpses'']"

definition PILE_MAX_TILES :: int where "PILE_MAX_TILES = 31 * 31"
definition PILE_SPEC_MAX_ENTRIES :: nat where "PILE_SPEC_MAX_ENTRIES = 8"

definition TRIGGERS :: "string list" where
  "TRIGGERS = [''all_success'', ''all_done'']"

definition ACTION_TARGET_STATES :: "string list" where
  "ACTION_TARGET_STATES = [''held'', ''issued'', ''done'', ''failed'', ''abandoned'']"

definition OBSERVATION_STATUSES :: "string list" where
  "OBSERVATION_STATUSES = [''consistent'', ''contradicted'', ''not_observable'']"

definition COST_UNITS :: "string list" where "COST_UNITS = [''dwarf_ticks'']"
definition URGENCIES :: "string list" where "URGENCIES = [''normal'', ''elevated'', ''high'']"

definition PUBLIC_TITLE_MAX :: nat where "PUBLIC_TITLE_MAX = 60"
definition PUBLIC_RATIONALE_MAX :: nat where "PUBLIC_RATIONALE_MAX = 300"
definition STEP_LABEL_MAX :: nat where "STEP_LABEL_MAX = 24"

definition DIRECT_ACTION :: string where "DIRECT_ACTION = ''direct_action''"

definition TYPE_VOCAB_BY_ROLE :: "(string \<times> string list) list" where
  "TYPE_VOCAB_BY_ROLE = [
    (''architect'', [''room_siting'', ''workshop_siting'', ''stockpile_siting'', ''corridor'',
       ''smoothing'', ''dig_order'']),
    (''overseer'', []),
    (''consultant'', []),
    (''quartermaster'', [''work_order'', ''stock_target'']),
    (''marshal'', []),
    (''chronicler'', []),
    (''planner'', [''plan_change''])]"

definition COMMON_FIELDS :: "string list" where
  "COMMON_FIELDS = [''id'', ''ts'', ''kind'', ''role'', ''cycle'', ''snapshot'']"

definition KIND_FIELDS :: "(string \<times> string list) list" where
  "KIND_FIELDS = [
    (''proposal'', [''type'', ''summary'', ''rationale'', ''prediction'', ''cost'',
       ''suggested_priority'', ''preconditions'', ''public_rationale'', ''duplicate_of'',
       ''relies_on'', ''cited'', ''step'', ''phases'', ''project_id'', ''after_step'', ''preview'',
       ''covered_by'', ''public_title'', ''serves'']),
    (''pass'', [''reason'']),
    (''ruling'', [''decision'', ''proposal_id'', ''reason'', ''public_rationale'', ''urgency'']),
    (''executed'', [''ruling_id'', ''step_id'', ''actions'', ''notes'', ''proposal_id'']),
    (''ask'', [''question'', ''proposal_id'', ''to'']),
    (''answer'', [''ask_id'', ''answer'', ''pile_spec'']),
    (''escalation'', [''reason'']),
    (''project'', [''from_ruling'', ''objective_id'', ''template'', ''summary'', ''because'',
       ''steps'', ''public_title'', ''public_rationale'', ''urgency'']),
    (''observation'', [''project_id'', ''step_id'', ''game_tick'', ''results'', ''done'', ''detail'']),
    (''amend'', [''project_id'', ''steps'', ''reason'', ''replaces'', ''adds'', ''drops'',
       ''public_rationale'']),
    (''abandon'', [''project_id'', ''reason'', ''public_rationale'']),
    (''close'', [''project_id'', ''proposal_id'', ''ruling_id'', ''outcome'', ''reason'', ''cleanup'']),
    (''fort_plan'', [''version'', ''supersedes'', ''season_index'', ''reason'', ''changes'', ''flags'',
       ''relies_on'', ''cited'', ''public_rationale'', ''ruling_id'', ''targets'', ''roadmap_stage'',
       ''deviations''])]"

definition PREDICATE_OPS :: "string list" where
  "PREDICATE_OPS = [''eq'', ''ne'', ''gte'', ''lte'', ''gt'', ''lt'', ''in'', ''contains'',
    ''exists'', ''not_exists'']"

definition PRESENCE_OPS :: "string list" where
  "PRESENCE_OPS = [''exists'', ''not_exists'']"

definition RELIES_ON_MAX :: nat where "RELIES_ON_MAX = 6"
definition CITED_VALUE_TEXT_MAX :: nat where "CITED_VALUE_TEXT_MAX = 80"
definition PREVIEW_MAX :: nat where "PREVIEW_MAX = 4000"
definition SERVES_MAX :: nat where "SERVES_MAX = 4"
definition PLAN_HARD_MAX_CHARS :: int where "PLAN_HARD_MAX_CHARS = 60000"

subsection \<open>Messages\<close>

text \<open>A message is a path, a colon and a text. \<open>v in (\<dots>)\<close> for a tuple of strings.\<close>

definition er :: "string \<Rightarrow> string \<Rightarrow> string" where
  "er p m = p @ '': '' @ m"

definition fld :: "string \<Rightarrow> string \<Rightarrow> string" where
  "fld p k = p @ ''.'' @ k"

definition idx :: "string \<Rightarrow> nat \<Rightarrow> string" where
  "idx p i = p @ ''.'' @ dec i"

abbreviation rfld :: "string \<Rightarrow> string" where
  "rfld k \<equiv> fld ''record'' k"

definition in_strs :: "json \<Rightarrow> string list \<Rightarrow> bool" where
  "in_strs v L = (case v of JStr s \<Rightarrow> s \<in> set L | _ \<Rightarrow> False)"

definition unknown_keys :: "string \<Rightarrow> string list \<Rightarrow> string \<Rightarrow> obj \<Rightarrow> errors" where
  "unknown_keys p known m r = concat (map (\<lambda>(k, v). only_if (k \<notin> set known) (er (fld p k) m)) r)"

definition need_str :: "string \<Rightarrow> string \<Rightarrow> json \<Rightarrow> errors" where
  "need_str p m v = only_if (\<not> nonempty_str v) (er p m)"

definition missing_msg :: string where "missing_msg = ''required field is missing''"
definition str_msg :: string where "str_msg = ''expected a non-empty string''"
definition coord_msg :: string where "coord_msg = ''contains a raw-coordinate pattern''"
definition key_msg :: string where "key_msg = ''not a field in the schema''"

definition has_coord :: "string \<Rightarrow> bool" where
  "has_coord s = (find_coordinate s \<noteq> None)"

text \<open>\<open>if k not in r: missing; else: \<dots>\<close>.\<close>

definition need_field :: "string \<Rightarrow> obj \<Rightarrow> string \<Rightarrow> (json \<Rightarrow> errors) \<Rightarrow> errors" where
  "need_field p r k f = (if has r k then f (getj r k) else [er (fld p k) missing_msg])"

definition opt_field :: "obj \<Rightarrow> string \<Rightarrow> (json \<Rightarrow> errors) \<Rightarrow> errors" where
  "opt_field r k f = (if has r k then f (getj r k) else [])"

subsection \<open>Text fields\<close>

definition validate_text_field :: "obj \<Rightarrow> string \<Rightarrow> errors" where
  "validate_text_field r name =
     (if \<not> has r name then [er (rfld name) missing_msg]
      else if \<not> nonempty_str (getj r name) then [er (rfld name) str_msg]
      else only_if (has_coord (str_of (getj r name))) (er (rfld name) coord_msg))"

definition validate_optional_text_field :: "obj \<Rightarrow> string \<Rightarrow> nat option \<Rightarrow> errors" where
  "validate_optional_text_field r name max_len =
     (let v = getj r name in
      if \<not> has r name \<or> v = JNull then []
      else if \<not> nonempty_str v then [er (rfld name) ''expected a non-empty string when given'']
      else (case max_len of None \<Rightarrow> []
            | Some m \<Rightarrow> only_if (length (str_of v) > m) (er (rfld name) ''expected at most that many characters''))
        @ only_if (has_coord (str_of v)) (er (rfld name) coord_msg))"

subsection \<open>Cost, preconditions, prediction\<close>

definition positive :: "json \<Rightarrow> bool" where
  "positive v = (case v of JInt i \<Rightarrow> i > 0 | JFloat q \<Rightarrow> q > 0 | _ \<Rightarrow> False)"

definition validate_cost :: "json \<Rightarrow> string \<Rightarrow> errors" where
  "validate_cost v p =
     (if \<not> is_obj v then [er p ''expected an object''] else
      let cost = fields_of v in
      unknown_keys p [''estimate'', ''unit''] key_msg cost
      @ need_field p cost ''estimate'' (\<lambda>e.
          if is_bool e \<or> \<not> is_number e then [er (fld p ''estimate'') ''expected a number'']
          else only_if (\<not> positive e) (er (fld p ''estimate'') ''must be > 0''))
      @ need_field p cost ''unit'' (\<lambda>u.
          only_if (\<not> in_strs u COST_UNITS) (er (fld p ''unit'') ''is not a cost unit'')))"

definition validate_precondition :: "json \<Rightarrow> string \<Rightarrow> errors" where
  "validate_precondition v p =
     (if \<not> is_obj v then [er p ''expected an object''] else
      let item = fields_of v; has_landmark = has item ''landmark'';
          key = (if has_landmark then ''landmark'' else ''area'') in
      unknown_keys p [''landmark'', ''area'', ''state''] key_msg item
      @ (if has_landmark = has item ''area''
         then [er p ''exactly one of landmark or area is required'']
         else need_str (fld p key) str_msg (getj item key))
      @ need_field p item ''state'' (need_str (fld p ''state'') str_msg))"

definition validate_preconditions :: "json \<Rightarrow> string \<Rightarrow> errors" where
  "validate_preconditions v p =
     (if \<not> is_arr v then [er p ''expected a list'']
      else concat (map (\<lambda>(i, item). validate_precondition item (idx p i)) (enum (items_of v))))"

text \<open>The type the signal declares for its value; \<open>None\<close> accepts any.\<close>

definition value_fits :: "value_type \<Rightarrow> json \<Rightarrow> bool" where
  "value_fits t v = (case t of INTEGER \<Rightarrow> is_int v | BOOLEAN \<Rightarrow> is_bool v)"

definition validate_prediction :: "config \<Rightarrow> json \<Rightarrow> string \<Rightarrow> errors" where
  "validate_prediction cf v p =
     (if \<not> is_obj v then [er p ''expected an object''] else
      let pr = fields_of v; known = [''signal'', ''op'', ''value'', ''check_after_ticks''];
          unknown = unknown_keys p known key_msg pr;
          missing = filter (\<lambda>k. \<not> has pr k) [''signal'', ''op'', ''check_after_ticks''];
          missed = map (\<lambda>k. er (fld p k) missing_msg) missing;
          ticks = getj pr ''check_after_ticks''; op = getj pr ''op''; sig = getj pr ''signal'';
          value = getj pr ''value''; presence = in_strs op PRESENCE_OPS;
          parsed = (if nonempty_str sig then parse_signal sig else None) in
      unknown @ missed @
      (if missing \<noteq> [] \<or> unknown \<noteq> [] then [] else
        (if \<not> is_int ticks then [er (fld p ''check_after_ticks'') ''expected an integer'']
         else only_if (int_of ticks \<le> 0) (er (fld p ''check_after_ticks'') ''must be > 0''))
        @ only_if (\<not> in_strs op PREDICATE_OPS) (er (fld p ''op'') ''is not a predicate op'')
        @ (if \<not> nonempty_str sig then [er (fld p ''signal'') str_msg]
           else case parsed of Some _ \<Rightarrow> []
             | None \<Rightarrow> [er (fld p ''signal'')
                 (if cf_ledger_field cf (str_of sig) then ''is an end-of-fort ledger field''
                  else ''is not a live signal'')])
        @ only_if (presence \<and> value \<noteq> JNull) (er (fld p ''value'') ''must be null for this op'')
        @ only_if (\<not> presence \<and> value = JNull) (er (fld p ''value'') ''required (non-null) for this op'')
        @ (case parsed of None \<Rightarrow> []
           | Some s \<Rightarrow> only_if (\<not> presence \<and> value \<noteq> JNull \<and>
                 \<not> value_fits (value_type_of (ps_kind s)) value)
               (er (fld p ''value'') ''does not have the type of the signal''))))"

subsection \<open>Cited facts\<close>

definition is_scalar_fact :: "json \<Rightarrow> bool" where
  "is_scalar_fact v = (case v of JStr s \<Rightarrow> length s \<le> CITED_VALUE_TEXT_MAX | _ \<Rightarrow> is_number v)"

definition validate_fact_ref :: "json \<Rightarrow> string \<Rightarrow> bool \<Rightarrow> errors" where
  "validate_fact_ref v p cited =
     (if \<not> is_obj v then [er p ''expected an object''] else
      let item = fields_of v; tick = getj item ''tick'' in
      unknown_keys p ([''tool'', ''args'', ''field''] @ (if cited then [''value'', ''tick''] else []))
        ''not a field of a cited fact'' item
      @ need_str (fld p ''tool'') str_msg (getj item ''tool'')
      @ need_str (fld p ''field'') str_msg (getj item ''field'')
      @ only_if (has item ''args'' \<and> \<not> is_obj (getj item ''args'')) (er (fld p ''args'') ''expected an object when given'')
      @ (if \<not> cited then [] else
           only_if (\<not> has item ''value'' \<or> \<not> is_scalar_fact (getj item ''value''))
             (er (fld p ''value'') ''expected a number, boolean or short string'')
           @ only_if (\<not> is_int tick \<or> int_of tick < 0) (er (fld p ''tick'') ''expected a non-negative integer'')))"

definition validate_fact_list :: "obj \<Rightarrow> string \<Rightarrow> bool \<Rightarrow> errors" where
  "validate_fact_list r name cited = opt_field r name (\<lambda>v.
     if \<not> is_arr v then [er (rfld name) ''expected a list''] else
     only_if (length (items_of v) > RELIES_ON_MAX) (er (rfld name) ''too many entries'')
     @ concat (map (\<lambda>(i, item). validate_fact_ref item (rfld name @ ''['' @ dec i @ '']'') cited) (enum (items_of v))))"

subsection \<open>A proposal's step and phases\<close>

text \<open>A coordinate anywhere in the printed form of a step's arguments.\<close>

definition args_have_coordinates :: "config \<Rightarrow> json \<Rightarrow> bool" where
  "args_have_coordinates cf v = has_coord (dumps (cf_float_repr cf) True v)"

definition need_tool :: "config \<Rightarrow> string \<Rightarrow> string \<Rightarrow> json \<Rightarrow> errors" where
  "need_tool cf p m v =
     (if \<not> nonempty_str v then [er p m]
      else only_if (str_of v \<notin> set (cf_tool_ids cf)) (er p ''is not a real tool id''))"

definition validate_label :: "string \<Rightarrow> json \<Rightarrow> errors" where
  "validate_label p v =
     (if v = JNull then []
      else if \<not> nonempty_str v then [er p ''expected a non-empty string when given'']
      else if length (str_of v) > STEP_LABEL_MAX then [er p ''expected at most 24 characters'']
      else only_if (has_coord (str_of v)) (er p coord_msg))"

definition validate_step_spec :: "config \<Rightarrow> json \<Rightarrow> string \<Rightarrow> errors" where
  "validate_step_spec cf v p =
     (if \<not> is_obj v then [er p ''expected an object''] else
      let step = fields_of v in
      unknown_keys p [''tool'', ''args'', ''label''] ''not a field of a proposal step'' step
      @ need_tool cf (fld p ''tool'') ''required, a non-empty string'' (getj step ''tool'')
      @ (if \<not> has step ''args'' then [er (fld p ''args'') ''required (an object, possibly empty)'']
         else if \<not> is_obj (getj step ''args'') then [er (fld p ''args'') ''expected an object'']
         else only_if (args_have_coordinates cf (getj step ''args'')) (er (fld p ''args'') coord_msg))
      @ validate_label (fld p ''label'') (getj step ''label''))"

definition validate_phases_spec :: "config \<Rightarrow> json \<Rightarrow> string \<Rightarrow> errors" where
  "validate_phases_spec cf v p =
     (if \<not> is_obj v then [er p ''expected an object''] else
      let phases = fields_of v; names = getj phases ''list'' in
      unknown_keys p [''tool'', ''list''] ''not a field of phases'' phases
      @ need_tool cf (fld p ''tool'') ''required, a non-empty string'' (getj phases ''tool'')
      @ (if \<not> is_arr names \<or> items_of names = []
         then [er (fld p ''list'') ''required, a non-empty list of phase names'']
         else concat (map (\<lambda>(i, n). need_str (idx (fld p ''list'') i) str_msg n) (enum (items_of names)))
           @ only_if (\<not> distinct (filter nonempty_str (items_of names)))
               (er (fld p ''list'') ''a phase may be listed once'')))"

definition validate_routed_fields :: "config \<Rightarrow> obj \<Rightarrow> errors" where
  "validate_routed_fields cf r =
     (let has_step = has r ''step''; proj = has r ''project_id''; after = has r ''after_step'' in
      (if has_step then validate_step_spec cf (getj r ''step'') (rfld ''step'') else [])
      @ (if has r ''phases'' then
           validate_phases_spec cf (getj r ''phases'') (rfld ''phases'')
           @ only_if (\<not> has_step) (er (rfld ''phases'') ''needs a step'')
           @ only_if proj (er (rfld ''phases'') ''only a first proposal declares phases'')
         else [])
      @ only_if (proj \<noteq> after) (er ''record.project_id and record.after_step'' ''give both or neither'')
      @ concat (map (\<lambda>name. only_if (has r name \<and> \<not> nonempty_str (getj r name)) (er (rfld name) str_msg))
          [''project_id'', ''after_step''])
      @ only_if (proj \<and> \<not> has_step) (er (rfld ''project_id'') ''a follow-up needs a step'')
      @ opt_field r ''covered_by'' (\<lambda>v.
          need_str (rfld ''covered_by'') ''expected a non-empty string (the server sets it)'' v
          @ only_if (\<not> proj) (er (rfld ''covered_by'') ''only a follow-up can be covered''))
      @ opt_field r ''preview'' (\<lambda>v.
          (if \<not> is_obj v then [er (rfld ''preview'') ''expected an object (the server sets it)'']
           else only_if (length (dumps (cf_float_repr cf) True v) > PREVIEW_MAX)
             (er (rfld ''preview'') ''larger than 4000 characters''))
          @ only_if (\<not> has_step) (er (rfld ''preview'') ''needs a step''))
      @ validate_optional_text_field r ''public_title'' (Some PUBLIC_TITLE_MAX))"

definition validate_serves :: "obj \<Rightarrow> errors" where
  "validate_serves r = opt_field r ''serves'' (\<lambda>v.
     if \<not> is_arr v \<or> items_of v = [] then [er (rfld ''serves'') ''expected a non-empty list of plan target ids''] else
     only_if (length (items_of v) > SERVES_MAX) (er (rfld ''serves'') ''at most 4 target ids'')
     @ concat (map (\<lambda>(i, tid). need_str (idx (rfld ''serves'') i) str_msg tid) (enum (items_of v)))
     @ only_if (\<not> distinct (filter is_str (items_of v))) (er (rfld ''serves'') ''a target id may be listed once''))"

subsection \<open>Executed actions\<close>

text \<open>A handle is a non-empty string or an integer, with no coordinate in its printed form.\<close>

definition validate_handle :: "json \<Rightarrow> string \<Rightarrow> errors" where
  "validate_handle v p = (case v of
       JStr s \<Rightarrow> if s = [] then [er p ''expected a non-empty string or integer'']
                 else only_if (has_coord s) (er p coord_msg)
     | JInt i \<Rightarrow> only_if (has_coord (dec_int i)) (er p coord_msg)
     | _ \<Rightarrow> [er p ''expected a non-empty string or integer''])"

definition validate_handle_list :: "json \<Rightarrow> string \<Rightarrow> errors" where
  "validate_handle_list v p =
     (if \<not> is_arr v \<or> items_of v = [] then [er p ''expected a non-empty list'']
      else concat (map (\<lambda>(i, h). validate_handle h (idx p i)) (enum (items_of v))))"

definition coord_free_str :: "string \<Rightarrow> json \<Rightarrow> errors" where
  "coord_free_str p v =
     (if \<not> nonempty_str v then [er p str_msg] else only_if (has_coord (str_of v)) (er p coord_msg))"

definition validate_action :: "json \<Rightarrow> string \<Rightarrow> errors" where
  "validate_action v p =
     (if \<not> is_obj v then [er p ''expected an object''] else
      let item = fields_of v in
      unknown_keys p [''tool'', ''outcome'', ''detail'', ''targets'', ''game_refs'', ''target_state''] key_msg item
      @ need_field p item ''tool'' (need_str (fld p ''tool'') str_msg)
      @ only_if (\<not> in_strs (getj item ''outcome'') EXECUTION_OUTCOMES) (er (fld p ''outcome'') ''is not an outcome'')
      @ opt_field item ''detail'' (coord_free_str (fld p ''detail''))
      @ opt_field item ''targets'' (\<lambda>t. validate_handle_list t (fld p ''targets''))
      @ only_if (has item ''targets'' \<noteq> has item ''target_state'')
          (er p ''targets and target_state must be given together or not at all'')
      @ opt_field item ''target_state'' (\<lambda>s. only_if (\<not> in_strs s ACTION_TARGET_STATES)
          (er (fld p ''target_state'') ''is not an action target state''))
      @ opt_field item ''game_refs'' (\<lambda>t. validate_handle_list t (fld p ''game_refs'')))"

subsection \<open>Project steps\<close>

definition validate_target_spec :: "string list \<Rightarrow> json \<Rightarrow> string \<Rightarrow> errors" where
  "validate_target_spec step_ids v p =
     (if \<not> is_obj v then [er p ''expected an object''] else
      let spec = fields_of v; fs = getj spec ''from_step'' in
      if has spec ''set'' = has spec ''from_step'' then [er p ''exactly one of set or from_step is required'']
      else if has spec ''set'' then
        unknown_keys p [''set''] ''not a field when set is given'' spec
        @ validate_handle_list (getj spec ''set'') (fld p ''set'')
      else
        unknown_keys p [''from_step'', ''select''] ''not a field when from_step is given'' spec
        @ (if \<not> nonempty_str fs then [er (fld p ''from_step'') str_msg]
           else only_if (str_of fs \<notin> set step_ids)
             (er (fld p ''from_step'') ''is not a step id declared in this project''))
        @ need_field p spec ''select'' (\<lambda>s. only_if (s \<noteq> JStr ''done'') (er (fld p ''select'') ''is not done'')))"

definition IMPLICIT_STEP_TARGETS :: json where
  "IMPLICIT_STEP_TARGETS = JObj [(''set'', JArr [])]"

definition validate_step_ref :: "string list \<Rightarrow> json option \<Rightarrow> json \<Rightarrow> string \<Rightarrow> errors" where
  "validate_step_ref step_ids self r p =
     (if \<not> nonempty_str r then [er p str_msg]
      else if str_of r \<notin> set step_ids then [er p ''is not a step id in this project'']
      else only_if (self = Some r) (er p ''a step may not require itself''))"

definition validate_step_refs :: "string list \<Rightarrow> json option \<Rightarrow> json \<Rightarrow> string \<Rightarrow> errors" where
  "validate_step_refs step_ids self v p =
     (if \<not> is_arr v then [er p ''expected a list'']
      else concat (map (\<lambda>(i, r). validate_step_ref step_ids self r (idx p i)) (enum (items_of v))))"

definition validate_guards :: "json \<Rightarrow> string \<Rightarrow> errors" where
  "validate_guards g p =
     (if g = JStr ''default'' then []
      else if \<not> is_arr g then [er p ''expected default or a list of guard names'']
      else concat (map (\<lambda>(i, n). need_str (idx p i) str_msg n) (enum (items_of g))))"

definition validate_step :: "config \<Rightarrow> string list \<Rightarrow> json \<Rightarrow> string \<Rightarrow> errors" where
  "validate_step cf step_ids v p =
     (if \<not> is_obj v then [er p ''expected an object''] else
      let step = fields_of v; implicit = (getj step ''implicit'' = JBool True) in
      unknown_keys p [''id'', ''tool'', ''args'', ''targets'', ''requires'', ''trigger'', ''prefer_after'',
        ''guards'', ''implicit'', ''label'', ''proposal_id''] ''not a field in the step schema'' step
      @ need_field p step ''id'' (need_str (fld p ''id'') str_msg)
      @ opt_field step ''implicit'' (\<lambda>b. only_if (\<not> is_bool b) (er (fld p ''implicit'') ''expected a boolean''))
      @ need_field p step ''tool'' (\<lambda>t. if implicit
          then only_if (t \<noteq> JNull) (er (fld p ''tool'') ''an implicit step's tool must be null'')
          else need_tool cf (fld p ''tool'') str_msg t)
      @ opt_field step ''args'' (\<lambda>a. only_if (\<not> is_obj a) (er (fld p ''args'') ''expected an object''))
      @ opt_field step ''proposal_id'' (need_str (fld p ''proposal_id'') str_msg)
      @ need_field p step ''targets'' (\<lambda>t. if implicit
          then only_if (t \<noteq> IMPLICIT_STEP_TARGETS) (er (fld p ''targets'') ''an implicit step's targets must be an empty set'')
          else validate_target_spec step_ids t (fld p ''targets''))
      @ opt_field step ''requires'' (\<lambda>rs. validate_step_refs step_ids (Some (getj step ''id'')) rs (fld p ''requires''))
      @ opt_field step ''trigger'' (\<lambda>t. only_if (\<not> in_strs t TRIGGERS) (er (fld p ''trigger'') ''is not a trigger''))
      @ opt_field step ''prefer_after'' (\<lambda>rs. validate_step_refs step_ids None rs (fld p ''prefer_after''))
      @ opt_field step ''guards'' (\<lambda>g. validate_guards g (fld p ''guards''))
      @ opt_field step ''label'' (validate_label (fld p ''label'')))"

end
