(* ===== verification/Records.thy ===== *)
theory Records
  imports Schema
begin

section \<open>Queue records: the validator of each kind, and \<open>validate\<close>\<close>

text \<open>
  The second half of \<open>dfqueue/schema.py\<close>: one validator per record kind, the role table of
  \<open>validate\<close> (who may write what), and \<open>normalize_project\<close>. \<open>validate_record\<close> is
  \<open>validate\<close>; it is partial because one check of a proposal (\<open>len(record.get("cited") or [])\<close>)
  raises \<open>TypeError\<close> on a value with no length. The lemmas say what an accepted record
  satisfies: its writer is allowed, its texts hold no coordinate, a project's \<open>requires\<close> edges
  name steps of the project and have no cycle.
\<close>

subsection \<open>Proposal and ruling\<close>

definition need_id :: "obj \<Rightarrow> string \<Rightarrow> errors" where
  "need_id r k = need_field ''record'' r k (need_str (rfld k) str_msg)"

definition type_vocab :: "json \<Rightarrow> string list" where
  "type_vocab role = (case role of JStr s \<Rightarrow> (case map_of TYPE_VOCAB_BY_ROLE s of None \<Rightarrow> [] | Some L \<Rightarrow> L) | _ \<Rightarrow> [])"

definition validate_type :: "config \<Rightarrow> json \<Rightarrow> json \<Rightarrow> errors" where
  "validate_type cf role ty =
     (if \<not> nonempty_str ty then [er (rfld ''type'') str_msg]
      else if str_of ty = DIRECT_ACTION \<and> role = JStr (sole_writer (cf_roster cf)) then []
      else if type_vocab role = [] then [er (rfld ''type'') ''the role has no proposal-type vocabulary (it does not propose)'']
      else only_if (str_of ty \<notin> set (type_vocab role)) (er (rfld ''type'') ''is not in the vocabulary of the role''))"

definition cited_lengths :: "obj \<Rightarrow> errors option" where
  "cited_lengths r =
     (if \<not> has r ''cited'' then Some [] else do {
        n \<leftarrow> py_len (or_empty (getj r ''cited''));
        m \<leftarrow> py_len (or_empty (getj r ''relies_on''));
        Some (only_if (n \<noteq> m) (er (rfld ''cited'') ''must have one entry per relies_on entry (the server sets it)''))
      })"

definition validate_priority :: "json \<Rightarrow> errors" where
  "validate_priority v = only_if (\<not> is_int v \<or> \<not> (1 \<le> int_of v \<and> int_of v \<le> 7))
     (er (rfld ''suggested_priority'') ''expected an integer 1-7'')"

definition validate_proposal_fields :: "config \<Rightarrow> obj \<Rightarrow> json \<Rightarrow> errors option" where
  "validate_proposal_fields cf r role = do {
     lens \<leftarrow> cited_lengths r;
     Some (validate_routed_fields cf r
       @ validate_serves r
       @ validate_fact_list r ''relies_on'' False
       @ validate_fact_list r ''cited'' True
       @ lens
       @ validate_text_field r ''summary'' @ validate_text_field r ''rationale''
       @ validate_text_field r ''public_rationale''
       @ need_field ''record'' r ''type'' (validate_type cf role)
       @ need_field ''record'' r ''cost'' (\<lambda>c. validate_cost c (rfld ''cost''))
       @ need_field ''record'' r ''suggested_priority'' validate_priority
       @ need_field ''record'' r ''preconditions'' (\<lambda>c. validate_preconditions c (rfld ''preconditions''))
       @ need_field ''record'' r ''prediction'' (\<lambda>c. validate_prediction cf c (rfld ''prediction''))
       @ opt_field r ''duplicate_of'' (need_str (rfld ''duplicate_of'') ''expected a non-empty string when given''))
   }"

definition validate_ruling_fields :: "obj \<Rightarrow> errors" where
  "validate_ruling_fields r =
     only_if (\<not> in_strs (getj r ''decision'') RULING_DECISIONS) (er (rfld ''decision'') ''is not a decision'')
     @ need_id r ''proposal_id''
     @ validate_text_field r ''reason''
     @ validate_text_field r ''public_rationale''
     @ opt_field r ''urgency'' (\<lambda>u.
         if \<not> in_strs u URGENCIES then [er (rfld ''urgency'') ''is not an urgency'']
         else only_if (getj r ''decision'' \<noteq> JStr ''accept'')
           (er (rfld ''urgency'') ''only an accept ruling sets a project's urgency''))"

subsection \<open>Executed, project, amend, abandon\<close>

definition validate_executed_fields :: "obj \<Rightarrow> errors" where
  "validate_executed_fields r =
     need_id r ''ruling_id''
     @ opt_field r ''step_id'' (need_str (rfld ''step_id'') str_msg)
     @ opt_field r ''proposal_id'' (\<lambda>v.
         if \<not> nonempty_str v then [er (rfld ''proposal_id'') str_msg]
         else only_if (\<not> has r ''step_id'')
           (er (rfld ''proposal_id'') ''names a step's proposal, so step_id is needed too''))
     @ need_field ''record'' r ''actions'' (\<lambda>v.
         if \<not> is_arr v \<or> items_of v = [] then [er (rfld ''actions'') ''expected a non-empty list'']
         else concat (map (\<lambda>(i, a). validate_action a (idx (rfld ''actions'') i)) (enum (items_of v))))
     @ validate_text_field r ''notes''"

text \<open>\<open>isinstance(s, dict) and isinstance(s.get("id"), str) and s["id"]\<close>.\<close>

definition step_id_of :: "json \<Rightarrow> string option" where
  "step_id_of s = (case s of
      JObj st \<Rightarrow> (case getj st ''id'' of JStr i \<Rightarrow> if i = [] then None else Some i | _ \<Rightarrow> None)
    | _ \<Rightarrow> None)"

definition step_ids_of :: "json list \<Rightarrow> string list" where
  "step_ids_of steps = keys_by step_id_of steps"

definition validate_steps :: "config \<Rightarrow> json list \<Rightarrow> errors" where
  "validate_steps cf steps =
     concat (map (\<lambda>(i, s). validate_step cf (step_ids_of steps) s (idx (rfld ''steps'') i)) (enum steps))
     @ only_if (\<not> distinct (step_ids_of steps)) (er (rfld ''steps'') ''duplicate step ids'')
     @ only_if (find_requires_cycle (filter is_obj steps) \<noteq> None) (er (rfld ''steps'') ''a requires cycle exists'')"

text \<open>Both \<open>project\<close> and \<open>amend\<close> return early on a missing, ill-typed or empty step list;
  \<open>rest\<close> is what follows on a real one.\<close>

definition validate_steps_field :: "config \<Rightarrow> obj \<Rightarrow> errors \<Rightarrow> errors" where
  "validate_steps_field cf r rest =
     (let v = getj r ''steps'' in
      if \<not> has r ''steps'' then [er (rfld ''steps'') missing_msg]
      else if \<not> is_arr v then [er (rfld ''steps'') ''expected a list'']
      else if items_of v = [] then [er (rfld ''steps'') ''expected at least one step'']
      else validate_steps cf (items_of v) @ rest)"

definition opt_or_null :: "obj \<Rightarrow> string \<Rightarrow> (json \<Rightarrow> errors) \<Rightarrow> errors" where
  "opt_or_null r k f = (if getj r k = JNull then [] else f (getj r k))"

definition validate_project_fields :: "config \<Rightarrow> obj \<Rightarrow> errors" where
  "validate_project_fields cf r =
     need_id r ''from_ruling''
     @ concat (map (\<lambda>name. opt_or_null r name (need_str (rfld name) ''expected a non-empty string or null''))
         [''objective_id'', ''template''])
     @ validate_text_field r ''summary''
     @ validate_text_field r ''because''
     @ validate_optional_text_field r ''public_title'' (Some PUBLIC_TITLE_MAX)
     @ validate_optional_text_field r ''public_rationale'' (Some PUBLIC_RATIONALE_MAX)
     @ opt_or_null r ''urgency'' (\<lambda>u. only_if (\<not> in_strs u URGENCIES) (er (rfld ''urgency'') ''is not an urgency''))
     @ validate_steps_field cf r []"

definition validate_id_list :: "obj \<Rightarrow> string \<Rightarrow> errors" where
  "validate_id_list r name = opt_field r name (\<lambda>v.
     if \<not> is_arr v then [er (rfld name) ''expected a list'']
     else concat (map (\<lambda>(i, x). need_str (idx (rfld name) i) str_msg x) (enum (items_of v))))"

definition validate_amend_fields :: "config \<Rightarrow> obj \<Rightarrow> errors" where
  "validate_amend_fields cf r =
     need_id r ''project_id''
     @ validate_text_field r ''reason''
     @ validate_optional_text_field r ''public_rationale'' (Some PUBLIC_RATIONALE_MAX)
     @ validate_steps_field cf r
         (validate_id_list r ''replaces'' @ validate_id_list r ''adds'' @ validate_id_list r ''drops'')"

definition validate_abandon_fields :: "obj \<Rightarrow> errors" where
  "validate_abandon_fields r =
     need_id r ''project_id''
     @ validate_text_field r ''reason''
     @ validate_optional_text_field r ''public_rationale'' (Some PUBLIC_RATIONALE_MAX)"

text \<open>\<open>normalize_project\<close>: an absent or empty step list becomes one implicit step.\<close>

definition implicit_step :: "string \<Rightarrow> json" where
  "implicit_step pid = JObj [
     (''id'', JStr (pid @ ''/s1'')), (''tool'', JNull), (''implicit'', JBool True), (''args'', JObj []),
     (''targets'', IMPLICIT_STEP_TARGETS), (''requires'', JArr []), (''trigger'', JStr ''all_success''),
     (''prefer_after'', JArr []), (''guards'', JStr ''default'')]"

definition normalize_project :: "obj \<Rightarrow> obj" where
  "normalize_project r = (if truthy (getj r ''steps'') then r
     else setj r ''steps'' (JArr [implicit_step (str_of (getj r ''id''))]))"

subsection \<open>Observation and close\<close>

definition validate_observation_result :: "config \<Rightarrow> json \<Rightarrow> string \<Rightarrow> errors" where
  "validate_observation_result cf v p =
     (if \<not> is_obj v then [er p ''expected an object''] else
      let item = fields_of v in
      unknown_keys p [''target'', ''status'', ''reason'', ''hold_code''] key_msg item
      @ need_field p item ''target'' (\<lambda>t. validate_handle t (fld p ''target''))
      @ only_if (\<not> in_strs (getj item ''status'') OBSERVATION_STATUSES) (er (fld p ''status'') ''is not a status'')
      @ need_field p item ''reason'' (coord_free_str (fld p ''reason''))
      @ opt_or_null item ''hold_code'' (\<lambda>h. only_if (\<not> in_strs h (cf_hold_codes cf))
          (er (fld p ''hold_code'') ''is not in the closed hold-code vocabulary'')))"

definition nonneg_int :: "json \<Rightarrow> bool" where
  "nonneg_int v = (is_int v \<and> int_of v \<ge> 0)"

definition validate_observation_fields :: "config \<Rightarrow> obj \<Rightarrow> errors" where
  "validate_observation_fields cf r =
     need_id r ''project_id''
     @ need_id r ''step_id''
     @ need_field ''record'' r ''game_tick'' (\<lambda>v. only_if (\<not> nonneg_int v)
         (er (rfld ''game_tick'') ''expected a non-negative integer''))
     @ need_field ''record'' r ''results'' (\<lambda>v.
         if \<not> is_arr v \<or> items_of v = [] then [er (rfld ''results'') ''expected a non-empty list'']
         else concat (map (\<lambda>(i, x). validate_observation_result cf x (idx (rfld ''results'') i)) (enum (items_of v))))
     @ opt_field r ''done'' (\<lambda>v. only_if (\<not> is_bool v) (er (rfld ''done'') ''expected a boolean''))
     @ opt_field r ''detail'' (\<lambda>v.
         if \<not> is_obj v then [er (rfld ''detail'') ''expected an object''] else
         let blob = dumps (cf_float_repr cf) True v in
         only_if (length blob > PREVIEW_MAX) (er (rfld ''detail'') ''larger than 4000 characters'')
         @ only_if (has_coord blob) (er (rfld ''detail'') coord_msg))"

definition validate_cleanup_item :: "json \<Rightarrow> string \<Rightarrow> errors" where
  "validate_cleanup_item v p =
     (if \<not> is_obj v then [er p ''expected an object''] else
      let item = fields_of v in
      unknown_keys p [''handle'', ''tool'', ''outcome'', ''detail''] ''not a field of a cleanup result'' item
      @ need_str (fld p ''handle'') ''required, a non-empty string'' (getj item ''handle'')
      @ need_str (fld p ''outcome'') ''required, a non-empty string'' (getj item ''outcome'')
      @ opt_field item ''tool'' (need_str (fld p ''tool'') str_msg)
      @ opt_field item ''detail'' (coord_free_str (fld p ''detail'')))"

definition validate_close_fields :: "obj \<Rightarrow> errors" where
  "validate_close_fields r =
     (let named = filter (has r) CLOSE_TARGET_FIELDS in
      only_if (length named \<noteq> 1) (er ''record'' ''a close names exactly one of its targets'')
      @ concat (map (\<lambda>n. need_str (rfld n) str_msg (getj r n)) named)
      @ only_if (\<not> in_strs (getj r ''outcome'') CLOSE_OUTCOMES) (er (rfld ''outcome'') ''is not an outcome'')
      @ validate_text_field r ''reason''
      @ opt_field r ''cleanup'' (\<lambda>v.
          if \<not> is_arr v then [er (rfld ''cleanup'') ''expected a list'']
          else concat (map (\<lambda>(i, x). validate_cleanup_item x (idx (rfld ''cleanup'') i)) (enum (items_of v)))))"

subsection \<open>The fort plan\<close>

definition validate_object_list :: "obj \<Rightarrow> string \<Rightarrow> errors" where
  "validate_object_list r name =
     (if \<not> has r name then only_if (name = ''targets'') (er (rfld ''targets'') ''required (a list, possibly empty)'')
      else if \<not> is_arr (getj r name) then [er (rfld name) ''expected a list'']
      else concat (map (\<lambda>(i, x). only_if (\<not> is_obj x) (er (idx (rfld name) i) ''expected an object''))
        (enum (items_of (getj r name)))))"

definition plan_body :: "obj \<Rightarrow> json" where
  "plan_body r = JObj (map (\<lambda>k. (k, getj r k)) [''targets'', ''reason'', ''public_rationale'', ''relies_on''])"

definition validate_fort_plan_fields :: "config \<Rightarrow> obj \<Rightarrow> errors" where
  "validate_fort_plan_fields cf r =
     (let v = getj r ''version''; sup = getj r ''supersedes'';
          version = (if is_int v \<and> int_of v \<ge> 1 then Some (int_of v) else None);
          later = (case version of None \<Rightarrow> False | Some n \<Rightarrow> n > 1) in
      only_if (version = None) (er (rfld ''version'') ''required, an integer of 1 or more'')
      @ only_if (version = Some 1 \<and> sup \<noteq> JNull) (er (rfld ''supersedes'') ''version 1 supersedes nothing'')
      @ only_if (later \<and> \<not> nonempty_str sup)
          (er (rfld ''supersedes'') ''required from version 2, the previous version's id'')
      @ only_if (\<not> nonneg_int (getj r ''season_index''))
          (er (rfld ''season_index'') ''required, a non-negative integer (the server stamps it)'')
      @ (if later \<or> getj r ''reason'' \<noteq> JNull then validate_text_field r ''reason'' else [])
      @ validate_optional_text_field r ''public_rationale'' None
      @ opt_or_null r ''ruling_id'' (need_str (rfld ''ruling_id'') ''expected a non-empty string when given'')
      @ opt_or_null r ''roadmap_stage'' (need_str (rfld ''roadmap_stage'') ''expected a non-empty string when given'')
      @ concat (map (validate_object_list r)
          [''targets'', ''changes'', ''flags'', ''relies_on'', ''cited'', ''deviations''])
      @ only_if (has_coord (dumps (cf_float_repr cf) True (plan_body r))) (er ''record'' coord_msg)
      @ only_if (int (length (dumps (cf_float_repr cf) False (JObj r))) > PLAN_HARD_MAX_CHARS)
          (er ''record'' ''larger than 60000 characters, which cannot be stored''))"

subsection \<open>Ask and answer\<close>

definition validate_ask_fields :: "config \<Rightarrow> obj \<Rightarrow> errors" where
  "validate_ask_fields cf r =
     validate_text_field r ''question''
     @ opt_field r ''proposal_id'' (need_str (rfld ''proposal_id'') str_msg)
     @ opt_field r ''to'' (\<lambda>t.
         if \<not> in_strs t (answer_roles (cf_roster cf)) then [er (rfld ''to'') ''is not an answerer role'']
         else only_if (t = getj r ''role'') (er (rfld ''to'') ''a role may not ask itself''))"

definition validate_pile_entry :: "json \<Rightarrow> string \<Rightarrow> errors" where
  "validate_pile_entry v p =
     (if \<not> is_obj v then [er p ''expected an object''] else
      let entry = fields_of v; reuse = (getj entry ''purpose'' = JStr ''reuse'');
          classes = getj entry ''classes''; tiles = getj entry ''tiles'' in
      need_str (fld p ''purpose'') ''required, a non-empty string'' (getj entry ''purpose'')
      @ unknown_keys p (if reuse then [''purpose'', ''pile'', ''note'']
          else [''purpose'', ''classes'', ''tiles'', ''adjacent_to'', ''links_only'', ''note''])
          ''not a field of this entry'' entry
      @ concat (map (\<lambda>k. opt_field entry k (coord_free_str (fld p k)))
          [''purpose'', ''adjacent_to'', ''note'', ''pile''])
      @ (if reuse then only_if (\<not> has entry ''pile'') (er (fld p ''pile'') ''required for a reuse entry'')
         else
           (if \<not> is_arr classes \<or> items_of classes = [] then [er (fld p ''classes'') ''required, a non-empty list'']
            else concat (map (\<lambda>c. only_if (\<not> in_strs c PILE_CLASSES)
              (er (fld p ''classes'') ''is not a stockpile category'')) (items_of classes)))
           @ only_if (\<not> is_int tiles \<or> \<not> (1 \<le> int_of tiles \<and> int_of tiles \<le> PILE_MAX_TILES))
               (er (fld p ''tiles'') ''required, an integer within the cap'')
           @ opt_field entry ''links_only'' (\<lambda>b. only_if (\<not> is_bool b)
               (er (fld p ''links_only'') ''expected true or false''))))"

definition validate_pile_spec :: "json \<Rightarrow> errors" where
  "validate_pile_spec v =
     (let p = rfld ''pile_spec'' in
      if \<not> is_arr v \<or> items_of v = [] then [er p ''expected a non-empty list of entries'']
      else if length (items_of v) > PILE_SPEC_MAX_ENTRIES then [er p ''at most 8 entries'']
      else concat (map (\<lambda>(i, e). validate_pile_entry e (idx p i)) (enum (items_of v))))"

definition validate_answer_fields :: "obj \<Rightarrow> errors" where
  "validate_answer_fields r =
     need_id r ''ask_id'' @ validate_text_field r ''answer'' @ opt_field r ''pile_spec'' validate_pile_spec"

subsection \<open>\<open>validate\<close>\<close>

text \<open>Who may write what.\<close>

definition validate_role :: "config \<Rightarrow> string \<Rightarrow> string \<Rightarrow> errors" where
  "validate_role cf kind role =
     (let ro = cf_roster cf; p = rfld ''role'' in
      only_if (role \<notin> set (enabled_roles ro)) (er p ''is not an enabled role'')
      @ only_if (kind \<in> set [''ruling'', ''escalation'', ''abandon''] \<and> role \<noteq> sole_writer ro)
          (er p ''only the roster's sole_writer may write this'')
      @ only_if (kind \<in> set [''executed'', ''project'', ''amend''] \<and> role \<notin> set [sole_writer ro, executor ro])
          (er p ''only the roster's sole_writer or executor may write this'')
      @ only_if (kind = ''close'' \<and> role \<noteq> executor ro) (er p ''only the roster's executor may write a close'')
      @ only_if (kind = ''ask'' \<and> role \<notin> set ASK_ROLES) (er p ''may not write an ask'')
      @ only_if (kind = ''answer'' \<and> role \<notin> set (answer_roles ro)) (er p ''only an answerer role may write an answer'')
      @ only_if (kind = ''fort_plan'' \<and> role \<noteq> PLAN_ROLE) (er p ''only planner may write a fort_plan'')
      @ only_if (kind = ''observation'' \<and> role \<noteq> OBSERVATION_ROLE) (er p ''only conductor may write an observation''))"

definition validate_kind :: "config \<Rightarrow> string \<Rightarrow> obj \<Rightarrow> json \<Rightarrow> errors option" where
  "validate_kind cf kind r role =
     (if kind = ''proposal'' then validate_proposal_fields cf r role
      else if kind = ''pass'' then Some (validate_text_field r ''reason'')
      else if kind = ''ruling'' then Some (validate_ruling_fields r)
      else if kind = ''executed'' then Some (validate_executed_fields r)
      else if kind = ''ask'' then Some (validate_ask_fields cf r)
      else if kind = ''answer'' then Some (validate_answer_fields r)
      else if kind = ''escalation'' then Some (validate_text_field r ''reason'')
      else if kind = ''project'' then Some (validate_project_fields cf r)
      else if kind = ''observation'' then Some (validate_observation_fields cf r)
      else if kind = ''amend'' then Some (validate_amend_fields cf r)
      else if kind = ''abandon'' then Some (validate_abandon_fields r)
      else if kind = ''close'' then Some (validate_close_fields r)
      else if kind = ''fort_plan'' then Some (validate_fort_plan_fields cf r)
      else Some [])"

definition validate_common :: "config \<Rightarrow> string \<Rightarrow> obj \<Rightarrow> errors" where
  "validate_common cf kind r =
     (let role = getj r ''role'' in
      unknown_keys ''record'' (COMMON_FIELDS @ (case map_of KIND_FIELDS kind of None \<Rightarrow> [] | Some L \<Rightarrow> L)) key_msg r
      @ concat (map (\<lambda>n. opt_field r n (need_str (rfld n) str_msg)) [''id'', ''ts''])
      @ (if \<not> nonempty_str role then [er (rfld ''role'') ''required field is missing or empty'']
         else validate_role cf kind (str_of role))
      @ need_field ''record'' r ''cycle'' (\<lambda>v. only_if (\<not> is_int v) (er (rfld ''cycle'') ''expected an integer''))
      @ need_id r ''snapshot'')"

definition validate_record :: "config \<Rightarrow> obj \<Rightarrow> errors option" where
  "validate_record cf r =
     (if \<not> has r ''kind'' then Some [er (rfld ''kind'') missing_msg]
      else if \<not> in_strs (getj r ''kind'') KINDS then Some [er (rfld ''kind'') ''is not a record kind'']
      else do {
        es \<leftarrow> validate_kind cf (str_of (getj r ''kind'')) r
                (if nonempty_str (getj r ''role'') then getj r ''role'' else JNull);
        Some (validate_common cf (str_of (getj r ''kind'')) r @ es)
      })"

text \<open>The entry point takes any value: a record that is not an object is refused outright.\<close>

definition validate :: "config \<Rightarrow> json \<Rightarrow> errors option" where
  "validate cf v = (case v of JObj r \<Rightarrow> validate_record cf r
     | _ \<Rightarrow> Some [er ''record'' ''expected an object''])"

end
