(* ===== verification/Record_Facts.thy ===== *)
theory Record_Facts
  imports Records
begin

section \<open>What an accepted queue record satisfies\<close>

text \<open>
  Consequences of \<open>validate_record cf r = Some []\<close> that the store's lemmas use: the record's kind and
  writer, its texts, its steps. \<open>accepted\<close> names the hypothesis, \<open>writers\<close> is the role table and
  \<open>text_fields\<close> the texts each kind must have.
\<close>

definition accepted :: "config \<Rightarrow> obj \<Rightarrow> bool" where
  "accepted cf r = (validate_record cf r = Some [])"

lemma need_str_Nil [simp, check_simps]: "need_str p m v = [] \<longleftrightarrow> nonempty_str v"
  by (simp add: need_str_def)

lemma need_field_Nil [check_simps]: "need_field p r k f = [] \<longleftrightarrow> has r k \<and> f (getj r k) = []"
  by (simp add: need_field_def)

lemma opt_field_Nil [check_simps]: "opt_field r k f = [] \<longleftrightarrow> (has r k \<longrightarrow> f (getj r k) = [])"
  by (simp add: opt_field_def)

lemma opt_or_null_Nil [check_simps]: "opt_or_null r k f = [] \<longleftrightarrow> (getj r k = JNull \<or> f (getj r k) = [])"
  by (simp add: opt_or_null_def)

lemma need_id_Nil [check_simps]: "need_id r k = [] \<longleftrightarrow> nonempty_str (getj r k)"
  by (auto simp: need_id_def check_simps has_def getj_def split: option.splits)

lemma validate_text_field_Nil [check_simps]:
  "validate_text_field r k = [] \<longleftrightarrow> nonempty_str (getj r k) \<and> \<not> has_coord (str_of (getj r k))"
  by (auto simp: validate_text_field_def has_def getj_def split: option.splits)

lemma in_strs_iff: "in_strs v L \<longleftrightarrow> (\<exists>s \<in> set L. v = JStr s)"
  by (auto simp: in_strs_def split: json.splits)

lemma in_strs_JStr [simp]: "in_strs (JStr s) L \<longleftrightarrow> s \<in> set L"
  by (simp add: in_strs_def)

lemma unknown_keys_Nil: "unknown_keys p known m r = [] \<longleftrightarrow> fst ` set r \<subseteq> set known"
  by (auto simp: unknown_keys_def)

subsection \<open>Kind and writer\<close>

lemma acceptedE:
  assumes "accepted cf r"
  obtains k where "getj r ''kind'' = JStr k" and "k \<in> set KINDS" and "validate_common cf k r = []"
    and "validate_kind cf k r (getj r ''role'') = Some []"
proof -
  from assms have "has r ''kind''" "in_strs (getj r ''kind'') KINDS"
    by (auto simp: accepted_def validate_record_def split: if_splits)
  then obtain k where k: "getj r ''kind'' = JStr k" "k \<in> set KINDS" by (auto simp: in_strs_iff)
  with assms have c: "validate_common cf k r = []"
    and v: "validate_kind cf k r (if nonempty_str (getj r ''role'') then getj r ''role'' else JNull) = Some []"
    by (auto simp: accepted_def validate_record_def split: if_splits Option.bind_splits)
  from c have "nonempty_str (getj r ''role'')" by (auto simp: validate_common_def Let_def split: if_splits)
  with k c v that show thesis by simp
qed

definition writers :: "config \<Rightarrow> string \<Rightarrow> string list" where
  "writers cf kind =
     (let ro = cf_roster cf in
      if kind \<in> set [''ruling'', ''escalation'', ''abandon''] then [sole_writer ro]
      else if kind \<in> set [''executed'', ''project'', ''amend''] then [sole_writer ro, executor ro]
      else if kind = ''close'' then [executor ro]
      else if kind = ''ask'' then ASK_ROLES
      else if kind = ''answer'' then answer_roles ro
      else if kind = ''fort_plan'' then [PLAN_ROLE]
      else if kind = ''observation'' then [OBSERVATION_ROLE]
      else enabled_roles ro)"

lemma validate_role_Nil:
  "validate_role cf kind role = [] \<Longrightarrow> role \<in> set (enabled_roles (cf_roster cf)) \<and> role \<in> set (writers cf kind)"
  by (auto simp: validate_role_def writers_def Let_def)

lemma accepted_writer:
  assumes "accepted cf r" and "getj r ''kind'' = JStr k"
  shows "\<exists>w. getj r ''role'' = JStr w \<and> w \<in> set (enabled_roles (cf_roster cf)) \<and> w \<in> set (writers cf k)"
proof -
  from assms have "validate_common cf k r = []" by (auto elim!: acceptedE)
  then have "nonempty_str (getj r ''role'')" and "validate_role cf k (str_of (getj r ''role'')) = []"
    by (auto simp: validate_common_def Let_def split: if_splits)
  then show ?thesis by (auto dest!: validate_role_Nil elim!: nonempty_strE)
qed

lemma accepted_envelope:
  assumes "accepted cf r"
  shows "is_int (getj r ''cycle'')" and "nonempty_str (getj r ''snapshot'')"
    and "has r ''id'' \<Longrightarrow> nonempty_str (getj r ''id'')"
proof -
  from assms obtain k where "validate_common cf k r = []" by (rule acceptedE)
  then show "is_int (getj r ''cycle'')" "nonempty_str (getj r ''snapshot'')"
    "has r ''id'' \<Longrightarrow> nonempty_str (getj r ''id'')"
    by (auto simp: validate_common_def Let_def check_simps)
qed

lemma accepted_kind:
  assumes "accepted cf r" and "getj r ''kind'' = JStr k"
  shows "validate_kind cf k r (getj r ''role'') = Some []"
  using assms by (auto elim!: acceptedE)

subsection \<open>Texts\<close>

definition text_fields :: "string \<Rightarrow> string list" where
  "text_fields kind =
     (if kind = ''proposal'' then [''summary'', ''rationale'', ''public_rationale'']
      else if kind \<in> set [''pass'', ''escalation'', ''amend'', ''abandon'', ''close''] then [''reason'']
      else if kind = ''ruling'' then [''reason'', ''public_rationale'']
      else if kind = ''executed'' then [''notes'']
      else if kind = ''ask'' then [''question'']
      else if kind = ''answer'' then [''answer'']
      else if kind = ''project'' then [''summary'', ''because'']
      else [])"

lemma accepted_text:
  assumes "accepted cf r" and "getj r ''kind'' = JStr k" and "name \<in> set (text_fields k)"
  shows "nonempty_str (getj r name) \<and> find_coordinate (str_of (getj r name)) = None"
proof -
  from assms(1,2) have kd: "k \<in> set KINDS" by (auto elim!: acceptedE)
  from accepted_kind [OF assms(1,2)] assms(3) show ?thesis
    unfolding validate_kind_def text_fields_def
    by (auto simp: validate_proposal_fields_def validate_ruling_fields_def validate_executed_fields_def
        validate_ask_fields_def validate_answer_fields_def validate_project_fields_def
        validate_amend_fields_def validate_abandon_fields_def validate_close_fields_def Let_def
        validate_text_field_Nil has_coord_def split: if_splits Option.bind_splits)
qed

text \<open>A step's arguments never hold a coordinate triple, at any depth.\<close>

lemma accepted_step_args:
  assumes "accepted cf r" and "getj r ''kind'' = JStr ''proposal''" and "has r ''step''"
    and "inside (JArr [JInt i, JInt j, JInt k]) (getj (fields_of (getj r ''step'')) ''args'')"
  shows False
proof -
  from accepted_kind [OF assms(1,2)] assms(3)
  have "validate_step_spec cf (getj r ''step'') (rfld ''step'') = []"
    by (auto simp: validate_kind_def validate_proposal_fields_def validate_routed_fields_def Let_def
        split: Option.bind_splits)
  then have "\<not> args_have_coordinates cf (getj (fields_of (getj r ''step'')) ''args'')"
    by (auto simp: validate_step_spec_def Let_def split: if_splits)
  with find_coordinate_dumps_triple [OF assms(4)] show False
    by (simp add: args_have_coordinates_def has_coord_def)
qed

subsection \<open>Predictions\<close>

definition prediction_ok :: "obj \<Rightarrow> bool" where
  "prediction_ok pr \<longleftrightarrow> int_of (getj pr ''check_after_ticks'') > 0 \<and> is_int (getj pr ''check_after_ticks'') \<and>
     in_strs (getj pr ''op'') PREDICATE_OPS \<and>
     (\<exists>s. parse_signal (getj pr ''signal'') = Some s \<and>
        (if in_strs (getj pr ''op'') PRESENCE_OPS then getj pr ''value'' = JNull
         else getj pr ''value'' \<noteq> JNull \<and> value_fits (value_type_of (ps_kind s)) (getj pr ''value'')))"

lemma validate_prediction_Nil:
  assumes "validate_prediction cf v p = []"
  shows "is_obj v \<and> prediction_ok (fields_of v)"
proof -
  let ?pr = "fields_of v"
  from assms have o: "is_obj v" by (auto simp: validate_prediction_def split: if_splits)
  from assms o have m: "filter (\<lambda>k. \<not> has ?pr k) [''signal'', ''op'', ''check_after_ticks''] = []"
    unfolding validate_prediction_def Let_def by (simp only: if_False append_is_Nil_conv map_is_Nil_conv not_True_eq_False)
  from assms o m have sig: "nonempty_str (getj ?pr ''signal'')"
    and par: "parse_signal (getj ?pr ''signal'') \<noteq> None"
    unfolding validate_prediction_def Let_def by (auto split: if_splits option.splits)
  from assms o m sig par show ?thesis
    unfolding validate_prediction_def Let_def prediction_ok_def
    by (auto simp del: filter.simps split: if_splits option.splits)
qed

lemma accepted_prediction:
  assumes "accepted cf r" and "getj r ''kind'' = JStr ''proposal''"
  shows "is_obj (getj r ''prediction'') \<and> prediction_ok (fields_of (getj r ''prediction''))"
proof -
  from accepted_kind [OF assms] have "validate_prediction cf (getj r ''prediction'') (rfld ''prediction'') = []"
    by (auto simp: validate_kind_def validate_proposal_fields_def need_field_Nil split: Option.bind_splits)
  then show ?thesis by (rule validate_prediction_Nil)
qed

subsection \<open>Steps\<close>

text \<open>What a step list satisfies when \<open>validate_steps\<close> finds nothing: every step is an object with
  an id, ids are distinct, the \<open>requires\<close> edges are ids of the list and have no cycle.\<close>

definition step_of :: "json list \<Rightarrow> string \<Rightarrow> obj" where
  "step_of steps i = (case find (\<lambda>s. step_id_of s = Some i) steps of None \<Rightarrow> [] | Some s \<Rightarrow> fields_of s)"

definition steps_ok :: "json list \<Rightarrow> bool" where
  "steps_ok steps \<longleftrightarrow> (\<forall>s \<in> set steps. is_obj s \<and> step_id_of s \<noteq> None \<and>
       list_all is_str (items_of (getj (fields_of s) ''requires'')) \<and>
       set (requires_of (fields_of s)) \<subseteq> set (step_ids_of steps)) \<and>
     distinct (step_ids_of steps) \<and> acyclic (requires_edges steps)"

lemma is_objE:
  assumes "is_obj v"
  obtains r where "v = JObj r"
  using assms by (auto simp: is_obj_def split: json.splits)

lemma is_str_iff: "is_str v \<longleftrightarrow> (\<exists>s. v = JStr s)"
  by (auto simp: is_str_def split: json.splits)

lemma validate_step_refs_Nil:
  assumes "validate_step_refs ids self (getj st ''requires'') p = []"
  shows "list_all is_str (items_of (getj st ''requires''))" and "set (requires_of st) \<subseteq> set ids"
proof -
  from assms have "\<forall>i < length (items_of (getj st ''requires'')).
     validate_step_ref ids self (items_of (getj st ''requires'') ! i) (idx p i) = []"
    unfolding validate_step_refs_def by (simp only: enum_concat_Nil_iff split: if_splits) simp
  then have "\<forall>v \<in> set (items_of (getj st ''requires'')). \<exists>q. validate_step_ref ids self v q = []"
    by (metis in_set_conv_nth)
  then have all: "\<forall>v \<in> set (items_of (getj st ''requires'')). is_str v \<and> str_of v \<in> set ids"
    by (fastforce simp: validate_step_ref_def is_str_iff split: if_splits elim!: nonempty_strE)
  then show "list_all is_str (items_of (getj st ''requires''))" by (simp add: list_all_iff)
  from all show "set (requires_of st) \<subseteq> set ids" by (auto simp: requires_of_def)
qed

lemma validate_step_Nil:
  assumes "validate_step cf ids s p = []"
  shows "is_obj s \<and> step_id_of s \<noteq> None \<and> list_all is_str (items_of (getj (fields_of s) ''requires'')) \<and>
    set (requires_of (fields_of s)) \<subseteq> set ids"
proof -
  from assms have "is_obj s" by (auto simp: validate_step_def split: if_splits)
  then obtain st where st: "s = JObj st" by (rule is_objE)
  with assms have i: "nonempty_str (getj st ''id'')"
    and r: "has st ''requires'' \<longrightarrow>
      validate_step_refs ids (Some (getj st ''id'')) (getj st ''requires'') (fld p ''requires'') = []"
    by (simp_all add: validate_step_def Let_def need_field_Nil opt_field_Nil)
  have "list_all is_str (items_of (getj st ''requires'')) \<and> set (requires_of st) \<subseteq> set ids"
  proof (cases "has st ''requires''")
    case True
    with r validate_step_refs_Nil show ?thesis by blast
  next
    case False
    then show ?thesis by (simp add: requires_of_def getj_absent)
  qed
  with i st show ?thesis by (auto simp: step_id_of_def elim: nonempty_strE)
qed

lemma validate_steps_Nil:
  assumes "validate_steps cf steps = []"
  shows "steps_ok steps"
proof -
  from assms have a: "concat (map (\<lambda>(i, s). validate_step cf (step_ids_of steps) s (idx (rfld ''steps'') i)) (enum steps)) = []"
    and d: "distinct (step_ids_of steps)" and c: "find_requires_cycle (filter is_obj steps) = None"
    by (simp_all add: validate_steps_def)
  from a have s: "\<forall>s \<in> set steps. is_obj s \<and> step_id_of s \<noteq> None \<and>
      list_all is_str (items_of (getj (fields_of s) ''requires'')) \<and> set (requires_of (fields_of s)) \<subseteq> set (step_ids_of steps)"
    unfolding enum_concat_Nil_iff by (metis in_set_conv_nth validate_step_Nil)
  then have "filter is_obj steps = steps" by (simp add: filter_id_conv)
  with c d s show ?thesis by (simp add: steps_ok_def find_requires_cycle_None_iff)
qed

lemma accepted_steps:
  assumes "accepted cf r" and "getj r ''kind'' \<in> {JStr ''project'', JStr ''amend''}"
  shows "steps_ok (items_of (getj r ''steps'')) \<and> items_of (getj r ''steps'') \<noteq> []"
proof -
  obtain rest where "validate_steps_field cf r rest = []"
    using assms(2) accepted_kind [OF assms(1)]
    by (auto simp: validate_kind_def validate_project_fields_def validate_amend_fields_def)
  then have "validate_steps cf (items_of (getj r ''steps'')) = []" "items_of (getj r ''steps'') \<noteq> []"
    by (auto simp: validate_steps_field_def Let_def split: if_splits)
  then show ?thesis by (simp add: validate_steps_Nil)
qed

subsection \<open>The graph of an accepted step list\<close>

lemma update_fresh: "k \<notin> fst ` set g \<Longrightarrow> AList.update k v g = g @ [(k, v)]"
  by (induction g) auto

lemma steps_graph_distinct:
  assumes "\<forall>s \<in> set steps. step_id_of s \<noteq> None" and "distinct (step_ids_of steps)"
    and "set (step_ids_of steps) \<inter> fst ` set g = {}"
  shows "steps_graph g steps = g @ map (\<lambda>s. (the (step_id_of s), requires_of (fields_of s))) steps"
  using assms
proof (induction steps arbitrary: g)
  case (Cons s steps)
  then obtain i where i: "step_id_of s = Some i" by auto
  then obtain st where s: "s = JObj st" and st: "getj st ''id'' = JStr i" "i \<noteq> []"
    by (auto simp: step_id_of_def split: json.splits if_splits)
  from Cons.prems i have "i \<notin> fst ` set g" by (auto simp: step_ids_of_def)
  with s st have "steps_graph g (s # steps) = steps_graph (g @ [(i, requires_of st)]) steps"
    by (simp add: update_fresh)
  also have "\<dots> = (g @ [(i, requires_of st)]) @ map (\<lambda>s. (the (step_id_of s), requires_of (fields_of s))) steps"
    using Cons.prems i by (intro Cons.IH) (auto simp: step_ids_of_def)
  finally show ?case using i s by simp
qed simp

lemma step_ids_all: "\<forall>s \<in> set steps. step_id_of s \<noteq> None \<Longrightarrow> step_ids_of steps = map (\<lambda>s. the (step_id_of s)) steps"
  by (induction steps) (auto simp: step_ids_of_def)

lemma steps_ok_graph:
  assumes "steps_ok steps"
  shows "nodes (steps_graph [] steps) = step_ids_of steps"
    and "s \<in> set steps \<Longrightarrow> step_id_of s = Some i \<Longrightarrow> succs (steps_graph [] steps) i = requires_of (fields_of s)"
proof -
  have g: "steps_graph [] steps = map (\<lambda>s. (the (step_id_of s), requires_of (fields_of s))) steps"
    using assms steps_graph_distinct [of steps "[]"] by (simp add: steps_ok_def)
  have ids: "step_ids_of steps = map (\<lambda>s. the (step_id_of s)) steps"
    using assms step_ids_all by (auto simp: steps_ok_def)
  then show "nodes (steps_graph [] steps) = step_ids_of steps" by (simp add: g nodes_def o_def)
  assume s: "s \<in> set steps" "step_id_of s = Some i"
  have "distinct (map fst (map (\<lambda>s. (the (step_id_of s), requires_of (fields_of s))) steps))"
    using assms ids by (simp add: steps_ok_def o_def)
  moreover have "(i, requires_of (fields_of s)) \<in> set (map (\<lambda>s. (the (step_id_of s), requires_of (fields_of s))) steps)"
    using s by force
  ultimately have "map_of (map (\<lambda>s. (the (step_id_of s), requires_of (fields_of s))) steps) i = Some (requires_of (fields_of s))"
    by (rule map_of_is_SomeI)
  then show "succs (steps_graph [] steps) i = requires_of (fields_of s)" by (simp add: g succs_def)
qed

text \<open>A project never deadlocks: while some step is not finished, a step is unfinished with every
  step it requires finished.\<close>

lemma steps_ok_progress:
  assumes "steps_ok steps" and "\<exists>i \<in> set (step_ids_of steps). i \<notin> fin"
  shows "\<exists>s \<in> set steps. \<exists>i. step_id_of s = Some i \<and> i \<notin> fin \<and> set (requires_of (fields_of s)) \<subseteq> fin"
proof -
  let ?E = "requires_edges steps" and ?g = "steps_graph [] steps"
  have nd: "nodes ?g = step_ids_of steps" using assms(1) by (rule steps_ok_graph)
  have "?E \<subseteq> set (step_ids_of steps) \<times> set (step_ids_of steps)"
    by (auto simp: requires_edges_def edges_def nd)
  then have "finite ?E" by (rule finite_subset) simp
  moreover have "acyclic ?E" using assms(1) by (simp add: steps_ok_def)
  ultimately have "wf (?E\<inverse>)" by (rule finite_acyclic_wf_converse)
  moreover from assms(2) obtain i0 where "i0 \<in> set (step_ids_of steps) - fin" by blast
  ultimately obtain i where i: "i \<in> set (step_ids_of steps) - fin"
    and least: "\<And>m. (m, i) \<in> ?E\<inverse> \<Longrightarrow> m \<notin> set (step_ids_of steps) - fin" by (rule wfE_min) blast
  from i obtain s where s: "s \<in> set steps" "step_id_of s = Some i" by (auto simp: step_ids_of_def set_keys_by)
  have sub: "set (requires_of (fields_of s)) \<subseteq> set (step_ids_of steps)"
    using assms(1) s by (auto simp: steps_ok_def)
  have "m \<in> fin" if "m \<in> set (requires_of (fields_of s))" for m
  proof -
    have "(i, m) \<in> ?E" using that sub i s steps_ok_graph(2) [OF assms(1) s] nd
      by (auto simp: requires_edges_def edges_def)
    with least [of m] sub that show ?thesis by auto
  qed
  with i s show ?thesis by blast
qed

subsection \<open>Normalisation\<close>

lemma normalize_project_idem: "normalize_project (normalize_project r) = normalize_project r"
  by (simp add: normalize_project_def)

lemma validate_implicit_step:
  assumes "i \<noteq> []"
  shows "validate_steps cf [implicit_step i] = []"
proof -
  have ids: "step_ids_of [implicit_step i] = [i @ ''/s1'']"
    by (simp add: step_ids_of_def step_id_of_def implicit_step_def getj_def)
  have v: "validate_step cf ids (implicit_step i) p = []" for ids p
    unfolding implicit_step_def validate_step_def Let_def
    by (simp add: unknown_keys_def has_def getj_def need_field_def opt_field_def validate_step_refs_def validate_step_ref_def
      validate_guards_def in_strs_def TRIGGERS_def only_if_def need_str_def enum_def is_bool_def)
  have "requires_edges [implicit_step i] = {}"
    by (auto simp: requires_edges_def edges_def implicit_step_def getj_def nodes_def succs_def
      requires_of_def split: if_splits option.splits)
  then have "acyclic (requires_edges [implicit_step i])" by (simp add: acyclic_def)
  then have "find_requires_cycle [implicit_step i] = None" by (simp add: find_requires_cycle_None_iff)
  moreover have "is_obj (implicit_step i)" by (simp add: implicit_step_def)
  ultimately show ?thesis
    using v by (simp add: validate_steps_def ids enum_def)
qed

end
