(* ===== verification/Plan.thy ===== *)
theory Plan
  imports Schema
begin

section \<open>The fort plan\<close>

text \<open>
  \<open>dfqueue/plan.py\<close>, with the parts of \<open>fort_roadmap/roadmap.py\<close> and \<open>dfqueue/templates.py\<close>
  it calls: the season, composition and diff of a version, the guardrail on how often a version may be
  filed, the arithmetic of a target's shortfall, and who may serve a target. Floats are rationals here:
  the arithmetic is exact, so rounding is not modelled. A plan target is a JSON object; Python's
  \<open>==\<close> on parsed JSON is \<open>py_eq\<close> (numbers by value, objects without regard to key order).
\<close>

subsection \<open>Python equality and numbers\<close>

definition num_of :: "json \<Rightarrow> rat option" where
  "num_of v = (case v of JBool b \<Rightarrow> Some (if b then 1 else 0) | JInt i \<Rightarrow> Some (of_int i)
     | JFloat q \<Rightarrow> Some q | _ \<Rightarrow> None)"

function (sequential) py_eq :: "json \<Rightarrow> json \<Rightarrow> bool" where
  "py_eq (JStr s) (JStr t) = (s = t)"
| "py_eq (JArr xs) (JArr ys) = (length xs = length ys \<and> (\<forall>(x, y) \<in> set (zip xs ys). py_eq x y))"
| "py_eq (JObj r) (JObj s) = (length r = length s \<and>
     (\<forall>(k, v) \<in> set r. case map_of s k of None \<Rightarrow> False | Some w \<Rightarrow> py_eq v w))"
| "py_eq JNull JNull = True"
| "py_eq v w = (num_of v \<noteq> None \<and> num_of v = num_of w)"
  by pat_completeness auto

lemma size_in_obj: "(k, v) \<in> set r \<Longrightarrow> size v < size (JObj r)"
  by (induction r) force+

lemma size_in_arr: "x \<in> set xs \<Longrightarrow> size x < size (JArr xs)"
  by (induction xs) auto

termination py_eq
proof (relation "measure (\<lambda>(v, w). size v)", goal_cases)
  case (2 xs ys x y)
  then have "y \<in> set xs" by (auto dest: set_zip_leftD)
  then show ?case using size_in_arr by simp
next
  case 3
  then show ?case using size_in_obj by fastforce
qed simp_all

definition is_num :: "json \<Rightarrow> bool" where
  "is_num v = (is_number v \<and> \<not> is_bool v)"

definition the_num :: "json \<Rightarrow> rat" where
  "the_num v = (case num_of v of Some q \<Rightarrow> q | None \<Rightarrow> 0)"

text \<open>\<open>a + b\<close>: an integer sum stays an integer.\<close>

definition add_num :: "json \<Rightarrow> json \<Rightarrow> json" where
  "add_num a b = (if is_int a \<and> is_int b then JInt (int_of a + int_of b) else JFloat (the_num a + the_num b))"

subsection \<open>Season\<close>

definition season_index :: "plan_policy \<Rightarrow> int \<Rightarrow> int" where
  "season_index pol tick = tick div pp_season_ticks pol"

definition next_season_tick :: "plan_policy \<Rightarrow> int \<Rightarrow> int" where
  "next_season_tick pol tick = (season_index pol tick + 1) * pp_season_ticks pol"

subsection \<open>The roadmap's plan targets\<close>

definition PLAN_FIELDS :: "string list" where
  "PLAN_FIELDS = [''id'', ''signal'', ''per'', ''want'', ''reorder'', ''reorder_gap'', ''owner'',
    ''district'', ''max_in_flight'', ''note'']"

definition stages :: "obj \<Rightarrow> obj list" where
  "stages data = map fields_of (items_of (getj data ''stages''))"

definition stage_entry :: "obj \<Rightarrow> string \<Rightarrow> obj option" where
  "stage_entry data sid = find (\<lambda>s. getj s ''id'' = JStr sid) (stages data)"

definition plan_form :: "obj \<Rightarrow> obj" where
  "plan_form t = (let out = map (\<lambda>k. (k, getj t k)) (filter (has t) PLAN_FIELDS) in
     if is_str (getj t ''id'') then setj out ''roadmap_ref'' (getj t ''id'') else out)"

definition plan_targets :: "obj \<Rightarrow> string option \<Rightarrow> json list" where
  "plan_targets data stage_id =
     (let st = (case stage_id of
          Some sid \<Rightarrow> if sid \<noteq> [] then stage_entry data sid else (case stages data of [] \<Rightarrow> None | s # _ \<Rightarrow> Some s)
        | None \<Rightarrow> (case stages data of [] \<Rightarrow> None | s # _ \<Rightarrow> Some s)) in
      case st of None \<Rightarrow> [] | Some s \<Rightarrow> map (\<lambda>t. JObj (plan_form (fields_of t))) (items_of (getj s ''targets'')))"

definition default_plan :: "config \<Rightarrow> string option \<Rightarrow> obj" where
  "default_plan cf stage_id = [(''targets'', JArr (plan_targets (cf_roadmap cf) stage_id))]"

subsection \<open>The want of a target\<close>

definition WANT_KEYS :: "string list" where
  "WANT_KEYS = [''per_alive'', ''plus'', ''min'', ''max'']"

text \<open>\<open>want_mapping_problems\<close>; a rational is always finite.\<close>

definition want_mapping_problems :: "obj \<Rightarrow> errors" where
  "want_mapping_problems want =
     concat (map (\<lambda>(k, v). only_if (k \<notin> set WANT_KEYS) (er k ''not a want key'')) want)
     @ concat (map (\<lambda>k. if \<not> has want k then []
          else if \<not> is_num (getj want k) then [er k ''expected a finite number'']
          else only_if (the_num (getj want k) < 0 \<and> k \<noteq> ''plus'') (er k ''expected a number of 0 or more'')) WANT_KEYS)
     @ only_if (\<not> has want ''per_alive'' \<and> \<not> has want ''plus'') ''give at least one of per_alive or plus''
     @ only_if (is_num (getj want ''min'') \<and> is_num (getj want ''max'') \<and>
         the_num (getj want ''min'') > the_num (getj want ''max'')) ''min is above max''"

definition del_keys :: "string list \<Rightarrow> obj \<Rightarrow> obj" where
  "del_keys ks r = filter (\<lambda>(k, v). k \<notin> set ks) r"

definition WANT_SIBLINGS :: "string list" where
  "WANT_SIBLINGS = [''want_plus'', ''want_min'', ''want_max'']"

definition opt_pair :: "bool \<Rightarrow> string \<Rightarrow> json \<Rightarrow> obj" where
  "opt_pair b k v = (if b then [(k, v)] else [])"

text \<open>\<open>canonical_want\<close>: the flat form folded into the stored mapping.\<close>

definition canonical_want :: "obj \<Rightarrow> obj" where
  "canonical_want target =
     (let want = getj target ''want''; plus = getj target ''want_plus'' in
      if \<not> list_ex (has target) WANT_SIBLINGS \<or> \<not> is_num want then target else
      let m = (if getj target ''per'' = JStr ''alive'' then
            [(''per_alive'', want)]
            @ opt_pair (plus \<noteq> JNull \<and> \<not> (is_num plus \<and> the_num plus = 0)) ''plus'' plus
          else [(''plus'', if plus = JNull then want else if is_num plus then add_num want plus else plus)])
          @ opt_pair (has target ''want_min'') ''min'' (getj target ''want_min'')
          @ opt_pair (has target ''want_max'') ''max'' (getj target ''want_max'') in
      setj (del_keys (''per'' # WANT_SIBLINGS) target) ''want'' (JObj m))"

text \<open>\<open>flat_want\<close>: a mapping want shown in the form a client can send back.\<close>

definition flat_want :: "obj \<Rightarrow> obj" where
  "flat_want target =
     (let w = fields_of (getj target ''want'') in
      if \<not> is_obj (getj target ''want'') \<or> \<not> list_all (\<lambda>(k, v). k \<in> set WANT_KEYS) w then target else
      let bounds = (\<lambda>out.
            (let out1 = (if has w ''min'' then setj out ''want_min'' (getj w ''min'') else out) in
             if has w ''max'' then setj out1 ''want_max'' (getj w ''max'') else out1)) in
      if has w ''per_alive'' then
        bounds (setj (setj (setj target ''want'' (getj w ''per_alive'')) ''per'' (JStr ''alive''))
          ''want_plus'' (get_or w ''plus'' (JInt 0)))
      else if has w ''plus'' then bounds (del_keys [''per''] (setj target ''want'' (getj w ''plus'')))
      else target)"

definition comparable_want :: "obj \<Rightarrow> obj" where
  "comparable_want target =
     (let out = canonical_want target; w = getj out ''want'' in
      if getj out ''per'' = JStr ''alive'' \<and> \<not> has out ''reorder'' \<and> is_num w
      then setj (del_keys [''per''] out) ''want'' (JObj [(''per_alive'', w)]) else out)"

definition want_uses_alive :: "obj \<Rightarrow> bool" where
  "want_uses_alive target = (case getj target ''want'' of JObj w \<Rightarrow> has w ''per_alive''
     | _ \<Rightarrow> getj target ''per'' = JStr ''alive'')"

definition want_units :: "obj \<Rightarrow> rat \<Rightarrow> rat" where
  "want_units target alive = (case getj target ''want'' of
      JObj w \<Rightarrow>
        (let level = (if has w ''per_alive'' then the_num (getj w ''per_alive'') * alive else 0)
               + the_num (getj w ''plus'');
             floored = (if has w ''min'' then max level (the_num (getj w ''min'')) else level) in
         if has w ''max'' then min floored (the_num (getj w ''max'')) else floored)
    | w \<Rightarrow> the_num w * (if getj target ''per'' = JStr ''alive'' then alive else 1))"

subsection \<open>Shortfall\<close>

datatype target_state = Unresolved | Open | Quiet

record position =
  po_state :: target_state
  po_position :: rat
  po_want_units :: rat
  po_short_units :: rat
  po_below_want :: bool

text \<open>\<open>target_position\<close>: an unread signal or a missing alive count is never a shortfall.\<close>

definition target_position :: "obj \<Rightarrow> rat option \<Rightarrow> rat \<Rightarrow> rat option \<Rightarrow> position" where
  "target_position target on_hand in_flight alive =
     (let unresolved = \<lparr>po_state = Unresolved, po_position = 0, po_want_units = 0, po_short_units = 0, po_below_want = False\<rparr>;
          a = (case alive of Some n \<Rightarrow> n | None \<Rightarrow> 0) in
      case on_hand of None \<Rightarrow> unresolved
      | Some hand \<Rightarrow>
          if want_uses_alive target \<and> a \<le> 0 then unresolved else
          let scale = (if want_uses_alive target \<and> \<not> is_obj (getj target ''want'') then a else 1);
              position = hand + in_flight; wanted = want_units target a; short = wanted - position;
              is_open = (if has target ''reorder_gap'' then short \<ge> the_num (getj target ''reorder_gap'')
                         else position < the_num (getj target ''reorder'') * scale) in
          \<lparr>po_state = (if is_open then Open else Quiet), po_position = position, po_want_units = wanted,
            po_short_units = max 0 short, po_below_want = position < wanted\<rparr>)"

record input_line =
  in_item :: string
  in_needed :: rat
  in_available :: "rat option"
  in_owner :: string
  in_short :: "rat option"

definition item_owner :: "plan_policy \<Rightarrow> string \<Rightarrow> string" where
  "item_owner pol item = (case map_of (pp_item_owner pol) item of Some r \<Rightarrow> r | None \<Rightarrow> pp_default_item_owner pol)"

definition derived_inputs :: "plan_policy \<Rightarrow> string list \<Rightarrow> rat \<Rightarrow> (string \<Rightarrow> rat option) \<Rightarrow> input_line list" where
  "derived_inputs pol requires count available = map (\<lambda>item.
     \<lparr>in_item = item, in_needed = count, in_available = available item, in_owner = item_owner pol item,
       in_short = map_option (\<lambda>h. max 0 (count - h)) (available item)\<rparr>) requires"

subsection \<open>Templates and who may serve a target\<close>

record template =
  tp_id :: string
  tp_revision :: int
  tp_provides :: "(string \<times> rat) list"
  tp_requires :: "string list"

definition template_entries :: "json \<Rightarrow> (string \<times> rat) list" where
  "template_entries v = concat (map (\<lambda>item. case item of
       JObj r \<Rightarrow> if is_str (getj r ''signal'') \<and> is_num (get_or r ''units'' (JInt 1)) \<and> the_num (get_or r ''units'' (JInt 1)) > 0
         then [(str_of (getj r ''signal''), the_num (get_or r ''units'' (JInt 1)))] else []
     | _ \<Rightarrow> []) (items_of v))"

definition template_of :: "obj \<Rightarrow> template option" where
  "template_of doc = (if \<not> is_str (getj doc ''id'') then None else
     Some \<lparr>tp_id = str_of (getj doc ''id''), tp_revision = int_of (getj doc ''revision''),
       tp_provides = template_entries (getj doc ''provides''),
       tp_requires = map str_of (filter nonempty_str (items_of (getj doc ''requires'')))\<rparr>)"

text \<open>\<open>out.sort(key=lambda t: (t["id"], -t["revision"]))\<close>, stable.\<close>

definition load_templates :: "obj list \<Rightarrow> template list" where
  "load_templates docs =
     sort_key tp_id (sort_key (\<lambda>t. - tp_revision t) (keys_by template_of docs))"

text \<open>The highest revision providing the signal, the first of equals.\<close>

definition serving :: "obj list \<Rightarrow> string \<Rightarrow> template option" where
  "serving docs signal = fold (\<lambda>t best.
       if signal \<in> fst ` set (tp_provides t) \<and>
          (case best of None \<Rightarrow> True | Some b \<Rightarrow> tp_revision t > tp_revision b) then Some t else best)
     (load_templates docs) None"

definition input_owner_roles :: "config \<Rightarrow> obj \<Rightarrow> string list" where
  "input_owner_roles cf target = (case getj target ''signal'' of
      JStr s \<Rightarrow> (case serving (cf_templates cf) s of None \<Rightarrow> []
        | Some t \<Rightarrow> map (item_owner (cf_policy cf)) (tp_requires t))
    | _ \<Rightarrow> [])"

definition may_serve :: "config \<Rightarrow> obj \<Rightarrow> json \<Rightarrow> bool" where
  "may_serve cf target role = (role = getj target ''owner'' \<or> in_strs role (input_owner_roles cf target))"

text \<open>The target lines a role is shown: the whole plan for the Planner, the writer and the conductor.\<close>

definition slice_for_role :: "config \<Rightarrow> json list \<Rightarrow> string \<Rightarrow> json list" where
  "slice_for_role cf ts role =
     (if role \<in> set [PLAN_ROLE, sole_writer (cf_roster cf), OBSERVATION_ROLE] then ts
      else filter (\<lambda>t. is_obj t \<and> may_serve cf (fields_of t) (JStr role)) ts)"

subsection \<open>The diff of two versions\<close>

text \<open>\<open>_keys\<close>: a stable key per entry, made unique by its count so far.\<close>

definition base_key :: "nat \<Rightarrow> json \<Rightarrow> string" where
  "base_key i item = (case item of
      JObj r \<Rightarrow> (case getj r ''id'' of JStr s \<Rightarrow> s | _ \<Rightarrow> CHR ''#'' # dec i)
    | _ \<Rightarrow> CHR ''#'' # dec i)"

fun unique_keys :: "string list \<Rightarrow> string list \<Rightarrow> string list" where
  "unique_keys seen [] = []"
| "unique_keys seen (b # bs) =
     (let n = length (filter (\<lambda>x. x = b) seen) in
      (if n = 0 then b else b @ ''#'' @ dec (n + 1)) # unique_keys (b # seen) bs)"

definition plan_keys :: "json list \<Rightarrow> string list" where
  "plan_keys items = unique_keys [] (map (\<lambda>(i, x). base_key i x) (enum items))"

text \<open>\<open>dict(zip(keys, items))\<close>: a later entry with the same key wins.\<close>

definition keyed :: "json list \<Rightarrow> (string \<times> json) list" where
  "keyed items = rev (zip (plan_keys items) items)"

definition json_keys :: "json \<Rightarrow> string list" where
  "json_keys v = map fst (fields_of v)"

record plan_change =
  pc_section :: string
  pc_id :: "string option"
  pc_op :: string
  pc_fields :: "string list option"

definition changed_fields :: "json \<Rightarrow> json \<Rightarrow> string list" where
  "changed_fields a b = sort (filter (\<lambda>f. \<not> py_eq (getj (fields_of a) f) (getj (fields_of b) f))
     (remdups (json_keys a @ json_keys b)))"

definition diff_section :: "string \<Rightarrow> json list \<Rightarrow> json list \<Rightarrow> plan_change list" where
  "diff_section s olds news =
     (let o_keys = plan_keys olds; n_keys = plan_keys news; o_map = map_of (keyed olds); n_map = map_of (keyed news);
          ch = (\<lambda>k op fs. \<lparr>pc_section = s, pc_id = k, pc_op = op, pc_fields = fs\<rparr>) in
      concat (map (\<lambda>k. case o_map k of
          None \<Rightarrow> [ch (Some k) ''added'' None]
        | Some a \<Rightarrow> (case n_map k of None \<Rightarrow> [] | Some b \<Rightarrow>
            if py_eq a b then [] else [ch (Some k) ''changed'' (Some (changed_fields a b))])) n_keys)
      @ concat (map (\<lambda>k. if n_map k = None then [ch (Some k) ''removed'' None] else []) o_keys)
      @ (if filter (\<lambda>k. n_map k \<noteq> None) o_keys \<noteq> filter (\<lambda>k. o_map k \<noteq> None) n_keys
         then [ch None ''reordered'' None] else []))"

definition diff_changes :: "plan_policy \<Rightarrow> obj \<Rightarrow> obj \<Rightarrow> plan_change list" where
  "diff_changes pol old new = concat (map (\<lambda>s.
     diff_section s (items_of (getj old s)) (items_of (getj new s))) (pp_open_sections pol))"

definition change_json :: "plan_change \<Rightarrow> json" where
  "change_json c = JObj ([(''section'', JStr (pc_section c)),
     (''id'', case pc_id c of None \<Rightarrow> JNull | Some k \<Rightarrow> JStr k), (''op'', JStr (pc_op c))]
     @ (case pc_fields c of None \<Rightarrow> [] | Some fs \<Rightarrow> [(''fields'', JArr (map JStr fs))]))"

subsection \<open>The guardrail\<close>

definition inert_key :: "json \<Rightarrow> (json \<times> json) option" where
  "inert_key f = (let r = fields_of f in
     if truthy (getj r ''inert'') \<and> getj r ''id'' \<noteq> JNull then Some (getj r ''section'', getj r ''id'') else None)"

definition inert_keys :: "json list \<Rightarrow> (json \<times> json) list" where
  "inert_keys flags = keys_by inert_key flags"

definition fix_only :: "plan_change list \<Rightarrow> json list \<Rightarrow> bool" where
  "fix_only changes active_flags = (changes \<noteq> [] \<and> list_all (\<lambda>c.
     pc_op c \<in> set [''changed'', ''removed''] \<and>
     (case pc_id c of None \<Rightarrow> False
      | Some k \<Rightarrow> (JStr (pc_section c), JStr k) \<in> set (inert_keys active_flags))) changes)"

definition guardrail :: "plan_policy \<Rightarrow> obj option \<Rightarrow> int \<Rightarrow> plan_change list \<Rightarrow> bool \<Rightarrow> bool \<Rightarrow> string + string" where
  "guardrail pol active tick changes ruled adopt_stage = (case active of
      None \<Rightarrow> Inr ''first''
    | Some a \<Rightarrow>
        let cur = season_index pol tick; have = getj a ''season_index'' in
        if ruled then Inr ''ruled''
        else if \<not> is_int have \<or> int_of have < cur then Inr ''new_season''
        else if int_of have > cur then Inr ''reload''
        else if fix_only changes (items_of (getj a ''flags'')) then Inr ''fix_only''
        else if adopt_stage then Inr ''adopt_stage''
        else Inl ''one plan version per season'')"

text \<open>\<open>fort_roadmap.adopts_stage\<close>: the changes only take up the entries of a newly entered stage.\<close>

definition adopt_change :: "json list \<Rightarrow> bool \<Rightarrow> json list \<Rightarrow> json list \<Rightarrow> plan_change \<Rightarrow> bool" where
  "adopt_change entries legacy olds news c =
     (let entry_of = (\<lambda>i. map_of (rev (map (\<lambda>e. (getj (fields_of e) ''id'', e)) entries)) i) in
      pc_section c = ''targets'' \<and>
      (if pc_op c \<in> set [''added'', ''changed''] then
         (case Option.bind (pc_id c) (map_of (keyed news)) of
            Some item \<Rightarrow> is_obj item \<and> (case entry_of (getj (fields_of item) ''id'') of
               None \<Rightarrow> False | Some e \<Rightarrow> py_eq e item)
          | None \<Rightarrow> False)
       else if pc_op c = ''removed'' then
         legacy \<or> (case Option.bind (pc_id c) (map_of (keyed olds)) of
            Some old \<Rightarrow> is_obj old \<and> has (fields_of old) ''roadmap_ref'' | None \<Rightarrow> False)
       else if pc_op c = ''reordered'' then
         (let order = filter (\<lambda>i. entry_of i \<noteq> None) (map (\<lambda>t. getj (fields_of t) ''id'') (filter is_obj news)) in
          order = filter (\<lambda>i. i \<in> set order) (map (\<lambda>e. getj (fields_of e) ''id'') entries))
       else False))"

definition adopts_stage :: "config \<Rightarrow> obj option \<Rightarrow> plan_change list \<Rightarrow> obj \<Rightarrow> string option \<Rightarrow> bool" where
  "adopts_stage cf active changes sections stage_id = (case (active, stage_id) of
      (Some a, Some sid) \<Rightarrow>
        let entries = plan_targets (cf_roadmap cf) (Some sid) in
        sid \<noteq> [] \<and> changes \<noteq> [] \<and> getj a ''roadmap_stage'' \<noteq> JStr sid \<and> entries \<noteq> [] \<and>
        list_all (adopt_change entries (getj a ''roadmap_stage'' = JNull)
          (items_of (getj a ''targets'')) (items_of (getj sections ''targets''))) changes
    | _ \<Rightarrow> False)"

end
