(* ===== verification/Queue.thy ===== *)
theory Queue
  imports Record_Facts Plan
begin

section \<open>The proposal queue: state and reads\<close>

text \<open>
  \<open>dfqueue/store.py\<close>: the five tables of the SQLite database, and the reads over them. A row of
  \<open>records\<close> is the record itself (its columns are copies of the payload's fields, made by
  \<open>_insert_record\<close>), in insertion order, which is \<open>rowid\<close> order. The other tables are lists in
  the order of their autoincremented ids; nothing is ever deleted. SQLite itself, the locking and the
  schema migration are not modelled: an operation here is what one transaction does.
\<close>

subsection \<open>Tables\<close>

record prediction =
  pr_id :: nat
  pr_record_id :: string
  pr_signal :: json
  pr_op :: json
  pr_value :: json
  pr_registered :: int
  pr_due :: int
  pr_status :: string
  pr_actual :: json
  pr_graded_at :: json
  pr_note :: json
  pr_after :: int

record target_row =
  tg_project :: string
  tg_step :: string
  tg_target :: string
  tg_state :: string
  tg_reason :: json
  tg_tick :: json

record run_row =
  rn_id :: nat
  rn_project :: string
  rn_step :: string
  rn_status :: string
  rn_outcome :: json
  rn_tick :: int
  rn_baseline :: json
  rn_handle :: json
  rn_executed :: json
  rn_started :: string
  rn_ended :: json

record queue =
  q_records :: "obj list"
  q_preds :: "prediction list"
  q_targets :: "target_row list"
  q_meta :: "(string \<times> string) list"
  q_runs :: "run_row list"

definition empty_queue :: queue where
  "empty_queue = \<lparr>q_records = [], q_preds = [], q_targets = [], q_meta = [], q_runs = []\<rparr>"

subsection \<open>Reading records\<close>

definition is_kind :: "string \<Rightarrow> obj \<Rightarrow> bool" where
  "is_kind k r = (getj r ''kind'' = JStr k)"

definition rec_id :: "obj \<Rightarrow> string" where
  "rec_id r = str_of (getj r ''id'')"

definition of_kind :: "queue \<Rightarrow> string \<Rightarrow> obj list" where
  "of_kind q k = filter (is_kind k) (q_records q)"

text \<open>\<open>_get\<close>: the record with this id and kind; an id that is not a string finds nothing.\<close>

definition get_rec :: "queue \<Rightarrow> json \<Rightarrow> string \<Rightarrow> obj option" where
  "get_rec q i k = (if is_str i then find (\<lambda>r. getj r ''id'' = i) (of_kind q k) else None)"

text \<open>\<open>SELECT \<dots> WHERE kind = ? AND json_extract(payload, '$.field') = ?\<close>.\<close>

definition naming :: "queue \<Rightarrow> string \<Rightarrow> string \<Rightarrow> json \<Rightarrow> obj list" where
  "naming q k field v = filter (\<lambda>r. v \<noteq> JNull \<and> getj r field = v) (of_kind q k)"

definition exists_naming :: "queue \<Rightarrow> string \<Rightarrow> string \<Rightarrow> json \<Rightarrow> bool" where
  "exists_naming q k field v = (naming q k field v \<noteq> [])"

definition next_id :: "queue \<Rightarrow> string \<Rightarrow> string" where
  "next_id q k = k @ ''-'' @ pad4 (length (of_kind q k) + 1)"

definition final_decision :: "obj \<Rightarrow> bool" where
  "final_decision r = in_strs (getj r ''decision'') [''accept'', ''reject'']"

definition rulings_on :: "queue \<Rightarrow> json \<Rightarrow> obj list" where
  "rulings_on q pid = naming q ''ruling'' ''proposal_id'' pid"

definition has_final_ruling :: "queue \<Rightarrow> json \<Rightarrow> bool" where
  "has_final_ruling q pid = list_ex final_decision (rulings_on q pid)"

definition accepts :: "obj \<Rightarrow> bool" where
  "accepts r = (getj r ''decision'' = JStr ''accept'')"

definition accepting_ruling :: "queue \<Rightarrow> json \<Rightarrow> obj option" where
  "accepting_ruling q pid = find accepts (rulings_on q pid)"

definition is_closed :: "queue \<Rightarrow> string \<Rightarrow> json \<Rightarrow> bool" where
  "is_closed q field i = exists_naming q ''close'' field i"

definition is_abandoned :: "queue \<Rightarrow> json \<Rightarrow> bool" where
  "is_abandoned q pid = exists_naming q ''abandon'' ''project_id'' pid"

definition proposal_is_covered_or_closed :: "queue \<Rightarrow> json \<Rightarrow> bool" where
  "proposal_is_covered_or_closed q pid =
     ((case get_rec q pid ''proposal'' of None \<Rightarrow> False | Some p \<Rightarrow> getj p ''covered_by'' \<noteq> JNull)
      \<or> is_closed q ''proposal_id'' pid)"

definition proposal_of_ruling :: "queue \<Rightarrow> json \<Rightarrow> obj option" where
  "proposal_of_ruling q rid = do {
     ruling \<leftarrow> get_rec q rid ''ruling'';
     get_rec q (getj ruling ''proposal_id'') ''proposal''
   }"

text \<open>\<open>None\<close> reads as \<open>JNull\<close>.\<close>

definition proposal_type_of_ruling :: "queue \<Rightarrow> json \<Rightarrow> json" where
  "proposal_type_of_ruling q rid =
     (case proposal_of_ruling q rid of None \<Rightarrow> JNull | Some p \<Rightarrow> getj p ''type'')"

definition proposal_type_of_project :: "queue \<Rightarrow> json \<Rightarrow> json" where
  "proposal_type_of_project q pid =
     (case get_rec q pid ''project'' of None \<Rightarrow> JNull
      | Some p \<Rightarrow> proposal_type_of_ruling q (getj p ''from_ruling''))"

definition find_project_for_ruling :: "queue \<Rightarrow> json \<Rightarrow> obj option" where
  "find_project_for_ruling q rid = find (\<lambda>_. True) (naming q ''project'' ''from_ruling'' rid)"

definition amends_for_project :: "queue \<Rightarrow> json \<Rightarrow> obj list" where
  "amends_for_project q pid = naming q ''amend'' ''project_id'' pid"

definition current_steps_and_version :: "queue \<Rightarrow> obj \<Rightarrow> json list \<times> nat" where
  "current_steps_and_version q project =
     (let amends = amends_for_project q (getj project ''id'') in
      if amends = [] then (items_of (getj project ''steps''), 1)
      else (items_of (getj (last amends) ''steps''), length amends + 1))"

definition current_steps :: "queue \<Rightarrow> obj \<Rightarrow> json list" where
  "current_steps q project = fst (current_steps_and_version q project)"

definition latest_cycle :: "queue \<Rightarrow> int" where
  "latest_cycle q = (case map (\<lambda>r. int_of (getj r ''cycle'')) (q_records q) of
     [] \<Rightarrow> 0 | c # cs \<Rightarrow> fold max cs c)"

text \<open>\<open>_num\<close>: \<open>int(str(record_id).rsplit("-", 1)[1])\<close>.\<close>

definition num :: "string \<Rightarrow> int option" where
  "num i = Option.bind (after_last (CHR ''-'') i) parse_int"

text \<open>\<open>ORDER BY ts ASC, rowid ASC\<close>; newest first is the reverse.\<close>

definition by_ts :: "obj list \<Rightarrow> obj list" where
  "by_ts rs = sort_key (\<lambda>r. str_of (getj r ''ts'')) rs"

definition limit_to :: "nat option \<Rightarrow> 'a list \<Rightarrow> 'a list" where
  "limit_to l xs = (case l of None \<Rightarrow> xs | Some n \<Rightarrow> take n xs)"

text \<open>A loop that stops once its result has reached the limit: it looks after it appends, so a limit
  of 0 still gives one row.\<close>

definition stop_at :: "nat option \<Rightarrow> 'a list \<Rightarrow> 'a list" where
  "stop_at l xs = (case l of None \<Rightarrow> xs | Some n \<Rightarrow> take (max 1 n) xs)"

definition latest :: "queue \<Rightarrow> nat \<Rightarrow> obj list" where
  "latest q n = take n (rev (by_ts (q_records q)))"

definition recent_rulings :: "queue \<Rightarrow> nat \<Rightarrow> obj list" where
  "recent_rulings q n = take n (rev (by_ts (of_kind q ''ruling'')))"

definition is_pending :: "queue \<Rightarrow> obj \<Rightarrow> bool" where
  "is_pending q p = (\<not> has_final_ruling q (getj p ''id'') \<and> getj p ''covered_by'' = JNull \<and>
     \<not> is_closed q ''proposal_id'' (getj p ''id''))"

definition pending_proposals :: "queue \<Rightarrow> nat option \<Rightarrow> obj list" where
  "pending_proposals q l = limit_to l (by_ts (filter (is_pending q) (of_kind q ''proposal'')))"

definition answered :: "queue \<Rightarrow> obj \<Rightarrow> bool" where
  "answered q ask = exists_naming q ''answer'' ''ask_id'' (getj ask ''id'')"

definition open_asks :: "queue \<Rightarrow> nat option \<Rightarrow> string option \<Rightarrow> obj list" where
  "open_asks q l to_role =
     (let asks = by_ts (filter (\<lambda>a. \<not> answered q a) (of_kind q ''ask'')) in
      limit_to l (case to_role of None \<Rightarrow> asks
        | Some t \<Rightarrow> filter (\<lambda>a. ask_addressee a = JStr t) asks))"

definition list_project_ids :: "queue \<Rightarrow> string list" where
  "list_project_ids q = map rec_id (of_kind q ''project'')"

definition executed_exists :: "queue \<Rightarrow> json \<Rightarrow> bool" where
  "executed_exists q rid = exists_naming q ''executed'' ''ruling_id'' rid"

text \<open>\<open>unexecuted_accepted_proposals\<close>: each accepting ruling of each proposal, with no execution and
  no close, of an unrouted type that something executes, not a follow-up.\<close>

definition unexecuted_accepted_proposals :: "config \<Rightarrow> queue \<Rightarrow> (obj \<times> string) list" where
  "unexecuted_accepted_proposals cf q =
     concat (map (\<lambda>p. map (\<lambda>rl. (p, rec_id rl))
       (filter (\<lambda>rl. accepts rl
           \<and> \<not> executed_exists q (getj rl ''id'') \<and> \<not> exists_naming q ''executed'' ''proposal_id'' (getj p ''id'')
           \<and> \<not> is_closed q ''ruling_id'' (getj rl ''id'') \<and> \<not> is_closed q ''proposal_id'' (getj p ''id'')
           \<and> \<not> is_routed (cf_routing cf) (getj p ''type'')
           \<and> \<not> is_ruling_only (cf_routing cf) (getj p ''type'')
           \<and> getj p ''project_id'' = JNull)
         (rulings_on q (getj p ''id''))))
       (by_ts (of_kind q ''proposal'')))"

subsection \<open>Target states and project status\<close>

definition FINISHED_STATES :: "string list" where
  "FINISHED_STATES = [''done'', ''failed'', ''abandoned'']"

definition target_states :: "queue \<Rightarrow> json \<Rightarrow> target_row list" where
  "target_states q pid = filter (\<lambda>t. pid = JStr (tg_project t)) (q_targets q)"

definition states_of_step :: "queue \<Rightarrow> json \<Rightarrow> json \<Rightarrow> string list" where
  "states_of_step q pid sid = map tg_state (filter (\<lambda>t. sid = JStr (tg_step t)) (target_states q pid))"

text \<open>\<open>step_prerequisites_satisfied\<close>; \<open>states\<close> is \<open>target_states_by_step.get\<close>.\<close>

definition step_prerequisites_satisfied :: "obj \<Rightarrow> (json \<Rightarrow> string list) \<Rightarrow> bool" where
  "step_prerequisites_satisfied step states =
     list_all (\<lambda>req. states req \<noteq> [] \<and>
        (if getj step ''trigger'' = JStr ''all_done'' then list_all (\<lambda>s. s \<in> set FINISHED_STATES) (states req)
         else list_all (\<lambda>s. s = ''done'') (states req)))
      (items_of (getj step ''requires''))"

record drift =
  dr_step :: string
  dr_target :: string
  dr_state :: string
  dr_tick :: int

definition rollback_drift :: "queue \<Rightarrow> json \<Rightarrow> int \<Rightarrow> drift list" where
  "rollback_drift q pid current_tick =
     map (\<lambda>t. \<lparr>dr_step = tg_step t, dr_target = tg_target t, dr_state = tg_state t, dr_tick = int_of (tg_tick t)\<rparr>)
       (filter (\<lambda>t. is_int (tg_tick t) \<and> int_of (tg_tick t) > current_tick) (target_states q pid))"

definition step_status :: "string list \<Rightarrow> bool \<Rightarrow> string" where
  "step_status states has_executed_record =
     (if states \<noteq> [] then (if list_all (\<lambda>s. s \<in> set [''done'', ''abandoned'']) states then ''done'' else ''active'')
      else if has_executed_record then ''done'' else ''active'')"

definition step_has_executed_record :: "queue \<Rightarrow> json \<Rightarrow> obj \<Rightarrow> bool" where
  "step_has_executed_record q rid step =
     (if truthy (getj step ''implicit'') then executed_exists q rid
      else list_ex (\<lambda>e. getj step ''id'' \<noteq> JNull \<and> getj e ''step_id'' = getj step ''id'') (naming q ''executed'' ''ruling_id'' rid))"

record status_line =
  sl_project :: string
  sl_summary :: json
  sl_status :: string
  sl_version :: nat
  sl_counts :: "(string \<times> nat) list"
  sl_top_blocker :: "target_row option"
  sl_abandoned_reason :: json

definition count_states :: "target_row list \<Rightarrow> (string \<times> nat) list" where
  "count_states rows = map (\<lambda>s. (s, length (filter (\<lambda>t. tg_state t = s) rows))) (remdups (map tg_state rows))"

definition step_done :: "queue \<Rightarrow> obj \<Rightarrow> json \<Rightarrow> bool" where
  "step_done q project s = (case step_id_of s of None \<Rightarrow> True
     | Some sid \<Rightarrow>
        let own = states_of_step q (getj project ''id'') (JStr sid) in
        step_status own (own = [] \<and> step_has_executed_record q (getj project ''from_ruling'') (fields_of s)) = ''done'')"

definition project_status :: "queue \<Rightarrow> json \<Rightarrow> status_line outcome" where
  "project_status q pid = (case get_rec q pid ''project'' of
      None \<Rightarrow> Refused [''no such project'']
    | Some project \<Rightarrow>
        let (steps, version) = current_steps_and_version q project;
            rows = target_states q pid;
            abandon = find (\<lambda>_. True) (naming q ''abandon'' ''project_id'' pid) in
        Ok \<lparr>sl_project = str_of pid, sl_summary = getj project ''summary'',
          sl_status = (case abandon of Some _ \<Rightarrow> ''abandoned''
            | None \<Rightarrow> if list_all (step_done q project) steps then ''done'' else ''active''),
          sl_version = version, sl_counts = count_states rows,
          sl_top_blocker = find (\<lambda>t. tg_state t = ''held'') rows,
          sl_abandoned_reason = (case abandon of Some a \<Rightarrow> getj a ''reason'' | None \<Rightarrow> JNull)\<rparr>)"

text \<open>The status alone, for a project known to exist.\<close>

definition status_of :: "queue \<Rightarrow> obj \<Rightarrow> string" where
  "status_of q project = (case project_status q (getj project ''id'') of Ok l \<Rightarrow> sl_status l | _ \<Rightarrow> [])"

subsection \<open>Filings\<close>

record filing =
  fi_id :: string
  fi_type :: json
  fi_summary :: json
  fi_urgency :: json
  fi_ruling :: "(json \<times> json \<times> json) option"
  fi_project :: json
  fi_project_status :: "string option"
  fi_close :: "(json \<times> json) option"
  fi_status :: string

definition filing_project :: "queue \<Rightarrow> obj \<Rightarrow> obj option \<Rightarrow> obj option" where
  "filing_project q p final =
     (let opened = (case final of None \<Rightarrow> None
        | Some f \<Rightarrow> if accepts f then find_project_for_ruling q (getj f ''id'') else None) in
      case opened of Some pr \<Rightarrow> Some pr
      | None \<Rightarrow> if truthy (getj p ''project_id'') then get_rec q (getj p ''project_id'') ''project'' else None)"

text \<open>The newest close naming the first of the proposal, its ruling or its project that has one.\<close>

fun first_close :: "queue \<Rightarrow> (string \<times> json) list \<Rightarrow> obj option" where
  "first_close q [] = None"
| "first_close q ((field, v) # ks) =
     (let cs = naming q ''close'' field v in if cs = [] then first_close q ks else Some (last cs))"

definition filing_status :: "queue \<Rightarrow> obj \<Rightarrow> obj list \<Rightarrow> obj option \<Rightarrow> obj option \<Rightarrow> obj option \<Rightarrow> string" where
  "filing_status q p rulings final project close =
     (if close \<noteq> None then ''closed'' else
      case final of
        None \<Rightarrow> if getj p ''covered_by'' \<noteq> JNull \<and> project = None then ''accepted''
                else if rulings \<noteq> [] then ''deferred'' else ''pending''
      | Some f \<Rightarrow> if getj f ''decision'' = JStr ''reject'' then ''rejected''
          else (case project of
             Some pr \<Rightarrow> if status_of q pr = ''done'' then ''completed'' else ''in_project''
           | None \<Rightarrow> if executed_exists q (getj f ''id'') then ''completed'' else ''accepted''))"

definition filing_row :: "queue \<Rightarrow> obj \<Rightarrow> filing" where
  "filing_row q p =
     (let rulings = rulings_on q (getj p ''id'');
          final = find final_decision rulings;
          project = filing_project q p final;
          close = first_close q ([(''proposal_id'', getj p ''id'')]
            @ (case final of None \<Rightarrow> [] | Some f \<Rightarrow> [(''ruling_id'', getj f ''id'')])
            @ (case project of None \<Rightarrow> [] | Some pr \<Rightarrow> [(''project_id'', getj pr ''id'')])) in
      \<lparr>fi_id = rec_id p, fi_type = getj p ''type'', fi_summary = getj p ''summary'',
        fi_urgency = (if truthy (getj p ''suggested_priority'') then getj p ''suggested_priority'' else getj p ''urgency''),
        fi_ruling = (if rulings = [] then None
          else Some (getj (last rulings) ''id'', getj (last rulings) ''decision'', getj (last rulings) ''reason'')),
        fi_project = (case project of Some pr \<Rightarrow> getj pr ''id'' | None \<Rightarrow> getj p ''project_id''),
        fi_project_status = map_option (status_of q) project,
        fi_close = map_option (\<lambda>c. (getj c ''outcome'', getj c ''reason'')) close,
        fi_status = filing_status q p rulings final project close\<rparr>)"

definition own_filings :: "queue \<Rightarrow> string \<Rightarrow> string option \<Rightarrow> string option \<Rightarrow> nat option \<Rightarrow> filing list" where
  "own_filings q role status pid l =
     (let mine = rev (by_ts (filter (\<lambda>p. getj p ''role'' = JStr role \<and>
        (case pid of None \<Rightarrow> True | Some i \<Rightarrow> getj p ''id'' = JStr i)) (of_kind q ''proposal''))) in
      stop_at l (filter (\<lambda>f. case status of None \<Rightarrow> True | Some s \<Rightarrow> fi_status f = s) (map (filing_row q) mine)))"

definition FILINGS_ALWAYS_SHOWN :: "string list" where
  "FILINGS_ALWAYS_SHOWN = [''pending'', ''accepted'', ''deferred'', ''in_project'']"

definition briefing_filings :: "queue \<Rightarrow> string \<Rightarrow> nat \<Rightarrow> filing list" where
  "briefing_filings q role recent =
     map snd (filter (\<lambda>(i, f). i < recent \<or> fi_status f \<in> set FILINGS_ALWAYS_SHOWN)
       (enum (own_filings q role None None None)))"

record ask_line =
  ak_id :: string
  ak_to :: json
  ak_question :: json
  ak_proposal :: json
  ak_answered :: bool
  ak_answer_id :: json
  ak_answer :: json

definition own_asks :: "queue \<Rightarrow> string \<Rightarrow> nat option \<Rightarrow> ask_line list" where
  "own_asks q role l = stop_at l (map (\<lambda>a.
     let ans = find (\<lambda>_. True) (naming q ''answer'' ''ask_id'' (getj a ''id'')) in
     \<lparr>ak_id = rec_id a, ak_to = ask_addressee a, ak_question = getj a ''question'',
       ak_proposal = getj a ''proposal_id'', ak_answered = (ans \<noteq> None),
       ak_answer_id = (case ans of None \<Rightarrow> JNull | Some x \<Rightarrow> getj x ''id''),
       ak_answer = (case ans of None \<Rightarrow> JNull | Some x \<Rightarrow> getj x ''answer'')\<rparr>)
     (rev (by_ts (filter (\<lambda>a. getj a ''role'' = JStr role) (of_kind q ''ask'')))))"

end
