(* ===== verification/Duplicates.thy ===== *)
theory Duplicates
  imports Queue
begin

section \<open>Duplicate proposals\<close>

text \<open>
  \<open>near_duplicate_reason\<close> and \<open>step_identity\<close> of \<open>dfqueue/schema.py\<close>, and the two scans of
  \<open>dfqueue/store.py\<close> that use them. The sequence ratio is that of \<open>difflib.SequenceMatcher\<close> with
  its automatic junk rule: \<open>matched\<close> is the number of characters in the matching blocks. A ratio is
  compared with 0.85 and 0.75 exactly, on integers.
\<close>

subsection \<open>Words\<close>

text \<open>The maximal runs of characters satisfying a predicate.\<close>

fun runs :: "(char \<Rightarrow> bool) \<Rightarrow> string \<Rightarrow> string \<Rightarrow> string list" where
  "runs P w [] = (if w = [] then [] else [w])"
| "runs P w (c # cs) = (if P c then runs P (w @ [c]) cs
     else if w = [] then runs P [] cs else w # runs P [] cs)"

definition alnum_char :: "char \<Rightarrow> bool" where
  "alnum_char c = (97 \<le> cp c \<and> cp c \<le> 122 \<or> digit_char c)"

definition normalise_words :: "string \<Rightarrow> string list" where
  "normalise_words s = runs alnum_char [] (lower s)"

subsection \<open>The sequence matcher\<close>

fun common_prefix :: "char set \<Rightarrow> string \<Rightarrow> string \<Rightarrow> nat" where
  "common_prefix pop (x # xs) (y # ys) = (if x = y \<and> x \<notin> pop then Suc (common_prefix pop xs ys) else 0)"
| "common_prefix pop _ _ = 0"

text \<open>Characters of a long second text that are too frequent to start a match.\<close>

definition popular :: "string \<Rightarrow> char set" where
  "popular b = (if length b < 200 then {}
     else set (filter (\<lambda>c. count_list b c > length b div 100 + 1) b))"

definition longer_block :: "nat \<times> nat \<times> nat \<Rightarrow> nat \<times> nat \<times> nat \<Rightarrow> nat \<times> nat \<times> nat" where
  "longer_block c best = (if snd (snd c) > snd (snd best) then c else best)"

definition longest_match :: "char set \<Rightarrow> string \<Rightarrow> string \<Rightarrow> nat \<times> nat \<times> nat" where
  "longest_match pop a b =
     fold longer_block
       (concat (map (\<lambda>i. map (\<lambda>j. (i, j, common_prefix pop (drop i a) (drop j b))) [0..<length b]) [0..<length a]))
       (0, 0, 0)"

text \<open>The block, extended on both sides over frequent characters.\<close>

definition match_block :: "char set \<Rightarrow> string \<Rightarrow> string \<Rightarrow> nat \<times> nat \<times> nat" where
  "match_block pop a b =
     (let (i, j, k) = longest_match pop a b;
          e = common_prefix {} (rev (take i a)) (rev (take j b));
          f = common_prefix {} (drop (i + k) a) (drop (j + k) b) in
      (i - e, j - e, k + e + f))"

lemma common_prefix_le: "common_prefix pop a b \<le> length a" "common_prefix pop a b \<le> length b"
  by (induction pop a b rule: common_prefix.induct) auto

lemma fold_longer_block: "fold longer_block cs acc \<in> insert acc (set cs)"
proof (induction cs arbitrary: acc)
  case (Cons c cs)
  from Cons [of "longer_block c acc"] show ?case by (auto simp: longer_block_def)
qed simp

lemma longest_match_le:
  assumes "longest_match pop a b = (i, j, k)"
  shows "i + k \<le> length a \<and> j + k \<le> length b"
proof -
  let ?cs = "concat (map (\<lambda>i. map (\<lambda>j. (i, j, common_prefix pop (drop i a) (drop j b))) [0..<length b]) [0..<length a])"
  from assms have "(i, j, k) \<in> insert (0, 0, 0) (set ?cs)"
    unfolding longest_match_def using fold_longer_block [of ?cs "(0, 0, 0)"] by simp
  then consider "(i, j, k) = (0, 0, 0)"
    | "i < length a" "j < length b" "k = common_prefix pop (drop i a) (drop j b)" by auto
  then show ?thesis
  proof cases
    case 2
    with common_prefix_le [of pop "drop i a" "drop j b"] have "k \<le> length a - i" "k \<le> length b - j"
      by simp_all
    with 2(1,2) show ?thesis by linarith
  qed simp
qed

lemma match_block_le:
  assumes "match_block pop a b = (i, j, k)"
  shows "i + k \<le> length a \<and> j + k \<le> length b"
proof -
  obtain i0 j0 k0 where l: "longest_match pop a b = (i0, j0, k0)" using prod_cases3 by blast
  let ?e = "common_prefix {} (rev (take i0 a)) (rev (take j0 b))"
  let ?f = "common_prefix {} (drop (i0 + k0) a) (drop (j0 + k0) b)"
  from longest_match_le [OF l] have "i0 + k0 \<le> length a" "j0 + k0 \<le> length b" by simp_all
  moreover have "?e \<le> i0" "?e \<le> j0"
    using common_prefix_le [of "{}" "rev (take i0 a)" "rev (take j0 b)"] by simp_all
  moreover have "?f \<le> length a - (i0 + k0)" "?f \<le> length b - (j0 + k0)"
    using common_prefix_le [of "{}" "drop (i0 + k0) a" "drop (j0 + k0) b"] by simp_all
  moreover from assms l have "i = i0 - ?e" "j = j0 - ?e" "k = k0 + ?e + ?f"
    by (simp_all add: match_block_def Let_def)
  ultimately show ?thesis by linarith
qed

function matched :: "char set \<Rightarrow> string \<Rightarrow> string \<Rightarrow> nat" where
  "matched pop a b = (case match_block pop a b of (i, j, k) \<Rightarrow>
     if k = 0 then 0
     else k + matched pop (take i a) (take j b) + matched pop (drop (i + k) a) (drop (j + k) b))"
  by pat_completeness auto
termination
proof (relation "measure (\<lambda>(pop, a, b). length a)", goal_cases)
  case (2 pop a b i jk j k)
  then have "i + k \<le> length a" using match_block_le [of pop a b i j k] by auto
  with 2 show ?case by auto
next
  case (3 pop a b i jk j k)
  then have "i + k \<le> length a" using match_block_le [of pop a b i j k] by auto
  with 3 have "length a - (i + k) < length a" by linarith
  then show ?case by simp
qed auto

declare matched.simps [simp del]

lemma matched_le: "matched pop a b \<le> length a \<and> matched pop a b \<le> length b"
proof (induction pop a b rule: matched.induct)
  case (1 pop a b)
  obtain i j k where m: "match_block pop a b = (i, j, k)" using prod_cases3 by blast
  show ?case
  proof (cases "k = 0")
    case False
    from match_block_le [OF m] have le: "i + k \<le> length a" "j + k \<le> length b" by simp_all
    have l: "matched pop (take i a) (take j b) \<le> i" "matched pop (take i a) (take j b) \<le> j"
      using "1.IH"(1) [OF m [symmetric] refl False] le by simp_all
    have r: "matched pop (drop (i + k) a) (drop (j + k) b) \<le> length a - (i + k)"
      "matched pop (drop (i + k) a) (drop (j + k) b) \<le> length b - (j + k)"
      using "1.IH"(2) [OF m [symmetric] refl False] le by simp_all
    from m False have "matched pop a b = k + matched pop (take i a) (take j b) + matched pop (drop (i + k) a) (drop (j + k) b)"
      by (simp add: matched.simps [of pop a b])
    with l r le show ?thesis by linarith
  qed (simp add: matched.simps [of pop a b] m)
qed

text \<open>\<open>ratio() >= 0.85\<close>: 2 M / T with T the two lengths together.\<close>

definition ratio_dup :: "string \<Rightarrow> string \<Rightarrow> bool" where
  "ratio_dup a b = (20 * (2 * matched (popular b) a b) \<ge> 17 * (length a + length b))"

definition near_duplicate :: "obj \<Rightarrow> obj \<Rightarrow> bool" where
  "near_duplicate candidate existing =
     (let cw = normalise_words (str_of (getj candidate ''summary''));
          ew = normalise_words (str_of (getj existing ''summary''));
          cr = join '' '' (normalise_words (str_of (getj candidate ''rationale'')));
          er = join '' '' (normalise_words (str_of (getj existing ''rationale''))) in
      cw \<noteq> [] \<and> cw = ew
      \<or> cw \<noteq> [] \<and> ew \<noteq> [] \<and>
          4 * card (set cw \<inter> set ew) \<ge> 3 * card (set cw \<union> set ew)
      \<or> cw \<noteq> [] \<and> ew \<noteq> [] \<and> ratio_dup (join '' '' cw) (join '' '' ew)
      \<or> cr \<noteq> [] \<and> er \<noteq> [] \<and> ratio_dup cr er)"

subsection \<open>The identity of a proposal's action\<close>

definition canon_value :: "config \<Rightarrow> json \<Rightarrow> string" where
  "canon_value cf v = dumps (cf_float_repr cf) True (case v of
      JStr s \<Rightarrow> JStr (join '' '' (runs (\<lambda>c. \<not> space_char c) [] (lower s))) | _ \<Rightarrow> v)"

definition lower_args :: "json \<Rightarrow> obj" where
  "lower_args v = fold (\<lambda>(k, x) acc. setj acc (lower k) x) (fields_of v) []"

definition picked_args :: "config \<Rightarrow> string \<Rightarrow> obj \<Rightarrow> obj" where
  "picked_args cf tool args = del_keys [''dry_run''] (case map_of (cf_identity_tools cf) tool of
      None \<Rightarrow> args
    | Some keys \<Rightarrow> map (\<lambda>k. (k, getj args k)) (filter (has args) (remdups (map lower keys))))"

record identity =
  id_type :: json
  id_tool :: string
  id_args :: "(string \<times> string) list"
  id_phases :: string

definition step_identity :: "config \<Rightarrow> obj \<Rightarrow> identity option" where
  "step_identity cf r =
     (let step = fields_of (getj r ''step'') in
      if \<not> is_obj (getj r ''step'') \<or> \<not> is_str (getj step ''tool'') then None else
      let picked = picked_args cf (str_of (getj step ''tool'')) (lower_args (getj step ''args'')) in
      if picked = [] then None else
      Some \<lparr>id_type = getj r ''type'', id_tool = str_of (getj step ''tool''),
        id_args = sort_key fst (map (\<lambda>(k, v). (k, canon_value cf v)) picked),
        id_phases = (if truthy (getj r ''phases'') then canon_value cf (getj r ''phases'') else [])\<rparr>)"

definition follow_up_checked :: "config \<Rightarrow> json \<Rightarrow> bool" where
  "follow_up_checked cf tool = in_strs tool (cf_follow_up_checked cf)"

subsection \<open>The two scans\<close>

definition serves_of :: "obj \<Rightarrow> json set" where
  "serves_of r = set (items_of (getj r ''serves''))"

text \<open>\<open>_find_duplicate_proposal\<close>: open proposals of the same type, oldest first, those serving the
  same plan target left out.\<close>

definition find_duplicate_proposal :: "queue \<Rightarrow> obj \<Rightarrow> string option" where
  "find_duplicate_proposal q r =
     map_option rec_id (find (\<lambda>e. \<not> (serves_of r \<inter> serves_of e \<noteq> {}) \<and> near_duplicate r e)
       (by_ts (filter (\<lambda>e. \<not> has_final_ruling q (getj e ''id''))
         (naming q ''proposal'' ''type'' (getj r ''type'')))))"

definition LIVE_FILING_STATUSES :: "string list" where
  "LIVE_FILING_STATUSES = [''pending'', ''accepted'', ''deferred'', ''in_project'']"

definition identity_for :: "config \<Rightarrow> bool \<Rightarrow> obj \<Rightarrow> identity option" where
  "identity_for cf type_free r =
     map_option (\<lambda>k. if type_free then k\<lparr>id_type := JNull\<rparr> else k) (step_identity cf r)"

text \<open>\<open>_find_structural_duplicate\<close>: the live proposal asking for the same action.\<close>

definition find_structural_duplicate :: "config \<Rightarrow> queue \<Rightarrow> obj \<Rightarrow> obj option" where
  "find_structural_duplicate cf q r =
     (let follow_up = truthy (getj r ''project_id'') \<or> truthy (getj r ''after_step'');
          tool = getj (fields_of (getj r ''step'')) ''tool'';
          type_free = follow_up_checked cf tool in
      if follow_up \<and> \<not> type_free then None
      else case identity_for cf type_free r of
        None \<Rightarrow> None
      | Some key \<Rightarrow> find (\<lambda>e. getj e ''id'' \<noteq> getj r ''id'' \<and> identity_for cf type_free e = Some key \<and>
            fi_status (filing_row q e) \<in> set LIVE_FILING_STATUSES)
          (by_ts (if type_free then filter (\<lambda>e. getj (fields_of (getj e ''step'')) ''tool'' = tool) (of_kind q ''proposal'')
             else naming q ''proposal'' ''type'' (getj r ''type''))))"

end
