(* ===== verification/Checks.thy ===== *)
theory Checks
  imports Duplicates
begin

section \<open>The checks of an append that need the rest of the queue\<close>

text \<open>
  \<open>dfqueue/store.py\<close>, \<open>_append_in_conn\<close> up to its \<open>if errors: raise\<close>. One definition per
  record kind, each returning the messages it adds to the list; those that read \<open>errors\<close> take the
  messages so far. \<open>None\<close> is a \<open>TypeError\<close>: iterating a value that is not iterable, or putting
  an unhashable one in a set, before the list of errors is reported.
\<close>

subsection \<open>Flags already raised\<close>

definition flagged :: "string \<Rightarrow> errors \<Rightarrow> bool" where
  "flagged k es = list_ex (\<lambda>e. starts_with e (rfld k @ '':'')) es"

definition project_step_ids_already_flagged :: "errors \<Rightarrow> bool" where
  "project_step_ids_already_flagged es = (flagged ''step_id'' es \<or> flagged ''project_id'' es)"

definition dangling :: "string \<Rightarrow> string" where
  "dangling k = er (rfld k) ''does not refer to an existing record in this queue''"

subsection \<open>Values in sets and loops\<close>

text \<open>\<open>for x in record.get(k) or []\<close>, with \<open>x in some_set\<close> inside.\<close>

definition hashable_items :: "json \<Rightarrow> json list option" where
  "hashable_items v = do {
     xs \<leftarrow> py_iter (or_empty v);
     if list_all hashable xs then Some xs else None
   }"

text \<open>\<open>_step_ids_list\<close>: the ids of the steps that have one.\<close>

definition step_ids_list :: "json list \<Rightarrow> json list option" where
  "step_ids_list steps =
     (let ids = map (\<lambda>s. getj (fields_of s) ''id'') (filter (\<lambda>s. is_obj s \<and> has (fields_of s) ''id'') steps) in
      if list_all hashable ids then Some ids else None)"

definition is_step_id :: "json list \<Rightarrow> json \<Rightarrow> bool" where
  "is_step_id steps i = list_ex (\<lambda>s. is_obj s \<and> has (fields_of s) ''id'' \<and> getj (fields_of s) ''id'' = i) steps"

definition find_step :: "json list \<Rightarrow> json \<Rightarrow> obj option" where
  "find_step steps i = map_option fields_of (find (\<lambda>s. getj (fields_of s) ''id'' = i) steps)"

subsection \<open>Rulings\<close>

definition open_fact_check :: "config \<Rightarrow> queue \<Rightarrow> json \<Rightarrow> bool" where
  "open_fact_check cf q pid =
     list_ex (\<lambda>a. getj a ''role'' = JStr (sole_writer (cf_roster cf)) \<and> \<not> answered q a)
       (naming q ''ask'' ''proposal_id'' pid)"

definition check_ruling :: "config \<Rightarrow> queue \<Rightarrow> errors \<Rightarrow> obj \<Rightarrow> errors" where
  "check_ruling cf q es r =
     (let pid = getj r ''proposal_id''; p = rfld ''proposal_id'' in
      if flagged ''proposal_id'' es then []
      else if get_rec q pid ''proposal'' = None then [dangling ''proposal_id'']
      else if proposal_is_covered_or_closed q pid then [er p ''is covered or closed; it needs no ruling'']
      else only_if (has_final_ruling q pid) (er p ''already has a final ruling (accept or reject)'')
        @ only_if (open_fact_check cf q pid) (er p ''has an open fact-check''))"

subsection \<open>Writer against routing\<close>

definition check_writer_vs_routing :: "config \<Rightarrow> obj \<Rightarrow> json \<Rightarrow> errors" where
  "check_writer_vs_routing cf r ptype =
     (let role = getj r ''role''; writer = JStr (sole_writer (cf_roster cf));
          runner = JStr (executor (cf_roster cf)); routed = is_routed (cf_routing cf) ptype in
      if ptype = JNull then []
      else only_if (role = writer \<and> role \<noteq> runner \<and> routed) (er (rfld ''role'') ''is a routed proposal type; the conductor runs it'')
        @ only_if (role = runner \<and> role \<noteq> writer \<and> \<not> routed) (er (rfld ''role'') ''is not a routed proposal type''))"

subsection \<open>Executed\<close>

definition check_executor_action :: "json \<Rightarrow> nat \<Rightarrow> json \<Rightarrow> errors" where
  "check_executor_action step_id i action =
     (let a = fields_of action; p = idx (rfld ''actions'') i in
      if \<not> is_obj action \<or> getj a ''target_state'' = JNull then []
      else only_if (\<not> in_strs (getj a ''target_state'') [''issued'', ''held'', ''failed''])
          (er (fld p ''target_state'') ''only an observation makes a step done'')
        @ only_if (getj a ''targets'' \<noteq> JArr [step_id]) (er (fld p ''targets'') ''must be exactly the step's synthetic target''))"

definition check_executor_executed :: "config \<Rightarrow> queue \<Rightarrow> obj \<Rightarrow> errors option" where
  "check_executor_executed cf q r =
     (let runner = executor (cf_roster cf); step_id = getj r ''step_id'' in
      if getj r ''role'' \<noteq> JStr runner \<or> runner = sole_writer (cf_roster cf) then Some [] else
      case find_project_for_ruling q (getj r ''ruling_id'') of
        None \<Rightarrow> Some []
      | Some project \<Rightarrow> if step_id = JNull then Some [] else
          (case find_step (current_steps q project) step_id of
             None \<Rightarrow> Some []
           | Some step \<Rightarrow> do {
               actions \<leftarrow> py_iter (or_empty (getj r ''actions''));
               Some ((if getj step ''proposal_id'' = JNull
                  then [er (rfld ''step_id'') ''was not built by the executor'']
                  else only_if (getj r ''proposal_id'' \<noteq> getj step ''proposal_id'')
                    (er (rfld ''proposal_id'') ''must be the step's own proposal''))
                 @ concat (map (\<lambda>(i, a). check_executor_action step_id i a) (enum actions)))
             }))"

definition check_step_tools :: "obj \<Rightarrow> obj \<Rightarrow> errors option" where
  "check_step_tools r step =
     (if getj step ''tool'' = JNull then Some [] else do {
        actions \<leftarrow> py_iter (get_or r ''actions'' (JArr []));
        Some (concat (map (\<lambda>(i, a). only_if (is_obj a \<and> getj (fields_of a) ''tool'' \<noteq> getj step ''tool'')
          (er (fld (idx (rfld ''actions'') i) ''tool'') ''does not match the step's own declared tool'')) (enum actions)))
      })"

definition check_executed_step :: "queue \<Rightarrow> obj \<Rightarrow> obj option \<Rightarrow> errors option" where
  "check_executed_step q r project = (case project of
      None \<Rightarrow> Some [er (rfld ''step_id'') ''the ruling has no project yet'']
    | Some pr \<Rightarrow> (case find_step (current_steps q pr) (getj r ''step_id'') of
          None \<Rightarrow> Some [er (rfld ''step_id'') ''is not a step of the project'']
        | Some step \<Rightarrow> do {
            tools \<leftarrow> check_step_tools r step;
            Some (tools @ only_if (\<not> step_prerequisites_satisfied step (states_of_step q (getj pr ''id'')))
              (er (rfld ''step_id'') ''its own requires are not yet satisfied''))
          }))"

definition check_executed :: "config \<Rightarrow> queue \<Rightarrow> errors \<Rightarrow> obj \<Rightarrow> errors option" where
  "check_executed cf q es r =
     (let rid = getj r ''ruling_id''; step_id = getj r ''step_id'';
          routing = check_writer_vs_routing cf r (proposal_type_of_ruling q rid) in
      if flagged ''ruling_id'' es then Some [] else do {
        own \<leftarrow> check_executor_executed cf q r;
        (case get_rec q rid ''ruling'' of
           None \<Rightarrow> Some (routing @ own @ [dangling ''ruling_id''])
         | Some ruling \<Rightarrow> do {
             let decided = only_if (\<not> accepts ruling) (er (rfld ''ruling_id'') ''only an accepted proposal may be executed'');
             let project = (if accepts ruling then find_project_for_ruling q rid else None);
             let opened = (if \<not> accepts ruling then [] else case project of
                 None \<Rightarrow> [er (rfld ''ruling_id'') ''is accepted but has no project yet'']
               | Some pr \<Rightarrow> only_if (step_id = JNull \<and>
                     \<not> list_all (\<lambda>s. truthy (getj (fields_of s) ''implicit'')) (current_steps q pr))
                   (er (rfld ''step_id'') ''required: name the step this execution carries out''));
             let before = routing @ own @ decided @ opened;
             step \<leftarrow> (if step_id = JNull \<or> project_step_ids_already_flagged (es @ before) then Some []
                     else check_executed_step q r project);
             Some (before @ step)
           })
      })"

subsection \<open>Project, amend, abandon\<close>

definition check_project :: "config \<Rightarrow> queue \<Rightarrow> errors \<Rightarrow> obj \<Rightarrow> errors" where
  "check_project cf q es r =
     (let rid = getj r ''from_ruling''; p = rfld ''from_ruling'' in
      if flagged ''from_ruling'' es then [] else
      check_writer_vs_routing cf r (proposal_type_of_ruling q rid)
      @ (case get_rec q rid ''ruling'' of
           None \<Rightarrow> [dangling ''from_ruling'']
         | Some ruling \<Rightarrow>
             if \<not> accepts ruling then [er p ''only an accepted proposal has a project'']
             else only_if (find_project_for_ruling q rid \<noteq> None) (er p ''already has a project; a ruling gets exactly one'')))"

definition canonical_step :: "config \<Rightarrow> obj \<Rightarrow> string" where
  "canonical_step cf step = dumps (cf_float_repr cf) True (JObj (del_keys [''label''] step))"

text \<open>A step that keeps its id must keep its definition.\<close>

definition check_reused_step :: "config \<Rightarrow> json list \<Rightarrow> json \<Rightarrow> errors" where
  "check_reused_step cf previous s = (case step_id_of s of
      None \<Rightarrow> []
    | Some sid \<Rightarrow> (case find (\<lambda>p. step_id_of p = Some sid) previous of
          None \<Rightarrow> []
        | Some prev \<Rightarrow> only_if (canonical_step cf (fields_of s) \<noteq> canonical_step cf (fields_of prev))
            (er (rfld ''steps'') ''reuses a step id from the previous version but its own definition changed'')))"

definition check_amend_steps :: "config \<Rightarrow> queue \<Rightarrow> obj \<Rightarrow> obj \<Rightarrow> errors option" where
  "check_amend_steps cf q r project = do {
     let previous = current_steps q project;
     steps \<leftarrow> py_iter (or_empty (getj r ''steps''));
     new_ids \<leftarrow> step_ids_list steps;
     replaces \<leftarrow> hashable_items (getj r ''replaces'');
     drops \<leftarrow> hashable_items (getj r ''drops'');
     adds \<leftarrow> hashable_items (getj r ''adds'');
     Some (concat (map (\<lambda>s. only_if (\<not> is_step_id previous s)
           (er (rfld ''replaces'') ''is not a step id in the previous version'')) replaces)
       @ concat (map (\<lambda>s. only_if (\<not> is_step_id previous s)
           (er (rfld ''drops'') ''is not a step id in the previous version'')) drops)
       @ concat (map (\<lambda>s. only_if (s \<notin> set new_ids)
           (er (rfld ''adds'') ''is not a step id in this amendment's own steps'')) adds)
       @ concat (map (check_reused_step cf previous) steps))
   }"

text \<open>\<open>_check_amend_base\<close>: every step of the previous version is kept, dropped or replaced.\<close>

definition check_amend_base :: "queue \<Rightarrow> obj \<Rightarrow> errors option" where
  "check_amend_base q r = (case get_rec q (getj r ''project_id'') ''project'' of
      None \<Rightarrow> Some []
    | Some project \<Rightarrow> if \<not> is_arr (getj r ''steps'') then Some [] else do {
        kept \<leftarrow> step_ids_list (items_of (getj r ''steps''));
        drops \<leftarrow> hashable_items (getj r ''drops'');
        replaces \<leftarrow> hashable_items (getj r ''replaces'');
        Some (concat (map (\<lambda>s. only_if (JStr s \<notin> set (kept @ drops @ replaces))
            (er (rfld ''steps'') ''omits a step of the previous version without naming it in drops or replaces''))
          (sort (remdups (step_ids_of (current_steps q project))))))
      })"

definition check_amend :: "config \<Rightarrow> queue \<Rightarrow> errors \<Rightarrow> obj \<Rightarrow> errors option" where
  "check_amend cf q es r =
     (let pid = getj r ''project_id''; routing = check_writer_vs_routing cf r (proposal_type_of_project q pid) in
      if project_step_ids_already_flagged es then Some [] else do {
        first \<leftarrow> (case get_rec q pid ''project'' of
            None \<Rightarrow> Some [dangling ''project_id'']
          | Some project \<Rightarrow> if is_abandoned q pid
              then Some [er (rfld ''project_id'') ''an abandoned project cannot be amended'']
              else check_amend_steps cf q r project);
        base \<leftarrow> (if project_step_ids_already_flagged (es @ routing @ first) then Some [] else check_amend_base q r);
        Some (routing @ first @ base)
      })"

definition check_abandon :: "queue \<Rightarrow> errors \<Rightarrow> obj \<Rightarrow> errors" where
  "check_abandon q es r =
     (let pid = getj r ''project_id'' in
      if project_step_ids_already_flagged es then []
      else if get_rec q pid ''project'' = None then [dangling ''project_id'']
      else only_if (is_abandoned q pid) (er (rfld ''project_id'') ''is already abandoned''))"

subsection \<open>Close, observation, ask, answer\<close>

definition check_close_field :: "queue \<Rightarrow> string \<Rightarrow> json \<Rightarrow> errors" where
  "check_close_field q field tid =
     (if field = ''project_id'' then only_if (get_rec q tid ''project'' = None) (dangling ''project_id'')
      else if field = ''proposal_id'' then
        (if get_rec q tid ''proposal'' = None then [dangling ''proposal_id'']
         else only_if (has_final_ruling q tid) (er (rfld ''proposal_id'') ''already has a final ruling; close its ruling_id instead''))
      else (case get_rec q tid ''ruling'' of
          None \<Rightarrow> [dangling ''ruling_id'']
        | Some ruling \<Rightarrow> only_if (\<not> accepts ruling) (er (rfld ''ruling_id'') ''is not an accepting ruling'')))
     @ only_if (is_closed q field tid) (er (rfld field) ''is already closed'')"

text \<open>The loop over the three fields; an ill-typed one ends it.\<close>

fun check_close_fields :: "queue \<Rightarrow> obj \<Rightarrow> string list \<Rightarrow> errors" where
  "check_close_fields q r [] = []"
| "check_close_fields q r (field # fs) =
     (if \<not> has r field then check_close_fields q r fs
      else if \<not> nonempty_str (getj r field) then []
      else check_close_field q field (getj r field) @ check_close_fields q r fs)"

definition check_close :: "queue \<Rightarrow> obj \<Rightarrow> errors" where
  "check_close q r = check_close_fields q r CLOSE_TARGET_FIELDS"

definition check_observation :: "queue \<Rightarrow> errors \<Rightarrow> obj \<Rightarrow> errors" where
  "check_observation q es r =
     (if project_step_ids_already_flagged es then []
      else case get_rec q (getj r ''project_id'') ''project'' of
        None \<Rightarrow> [dangling ''project_id'']
      | Some project \<Rightarrow> only_if (\<not> is_step_id (current_steps q project) (getj r ''step_id''))
          (er (rfld ''step_id'') ''is not a step of the project''))"

definition check_ask :: "queue \<Rightarrow> errors \<Rightarrow> obj \<Rightarrow> errors" where
  "check_ask q es r =
     (if \<not> has r ''proposal_id'' \<or> flagged ''proposal_id'' es then []
      else only_if (get_rec q (getj r ''proposal_id'') ''proposal'' = None) (dangling ''proposal_id''))"

definition check_answer :: "queue \<Rightarrow> errors \<Rightarrow> obj \<Rightarrow> errors" where
  "check_answer q es r =
     (let aid = getj r ''ask_id'' in
      if flagged ''ask_id'' es then []
      else case get_rec q aid ''ask'' of
        None \<Rightarrow> [dangling ''ask_id'']
      | Some ask \<Rightarrow> only_if (getj r ''role'' \<noteq> ask_addressee ask) (er (rfld ''role'') ''only its addressee may answer it'')
          @ only_if (exists_naming q ''answer'' ''ask_id'' aid) (er (rfld ''ask_id'') ''already has an answer''))"

subsection \<open>The fort plan\<close>

definition active_plan :: "queue \<Rightarrow> obj option" where
  "active_plan q = (let ps = of_kind q ''fort_plan'' in if ps = [] then None else Some (last ps))"

definition plan_base_sections :: "config \<Rightarrow> obj option \<Rightarrow> obj option \<Rightarrow> obj" where
  "plan_base_sections cf active base =
     (let src = (case active of Some a \<Rightarrow> a | None \<Rightarrow> (case base of Some b \<Rightarrow> b | None \<Rightarrow> default_plan cf None)) in
      map (\<lambda>s. (s, or_empty (getj src s))) (pp_open_sections (cf_policy cf)))"

definition plan_ruling_problem :: "queue \<Rightarrow> json \<Rightarrow> string option" where
  "plan_ruling_problem q rid = (case get_rec q rid ''ruling'' of
      None \<Rightarrow> Some ''does not refer to an existing ruling''
    | Some ruling \<Rightarrow>
        let prop = get_rec q (getj ruling ''proposal_id'') ''proposal'' in
        if \<not> accepts ruling then Some ''is not an accepting ruling''
        else if (case prop of None \<Rightarrow> True
             | Some p \<Rightarrow> getj p ''type'' \<noteq> JStr ''plan_change'' \<or> getj p ''role'' \<noteq> JStr PLAN_ROLE)
          then Some ''is not a ruling on a plan_change proposal''
        else if exists_naming q ''fort_plan'' ''ruling_id'' rid then Some ''already authorised a plan version; it authorises one''
        else if is_closed q ''ruling_id'' rid then Some ''is closed'' else None)"

definition plan_sections :: "config \<Rightarrow> obj \<Rightarrow> obj" where
  "plan_sections cf r = map (\<lambda>s. (s, or_empty (getj r s))) (pp_open_sections (cf_policy cf))"

definition plan_stage :: "obj \<Rightarrow> string option" where
  "plan_stage r = (case getj r ''roadmap_stage'' of JStr s \<Rightarrow> if s = [] then None else Some s | _ \<Rightarrow> None)"

definition plan_diff :: "config \<Rightarrow> obj option \<Rightarrow> obj \<Rightarrow> plan_change list" where
  "plan_diff cf active r =
     (let base = (if active = None \<and> plan_stage r \<noteq> None then Some (default_plan cf (plan_stage r)) else None) in
      diff_changes (cf_policy cf) (plan_base_sections cf active base) (plan_sections cf r))"

definition plan_verdict :: "config \<Rightarrow> queue \<Rightarrow> obj \<Rightarrow> int \<Rightarrow> string + string" where
  "plan_verdict cf q r tick =
     (let active = active_plan q; changes = plan_diff cf active r; rid = getj r ''ruling_id'' in
      guardrail (cf_policy cf) active tick changes (truthy rid \<and> plan_ruling_problem q rid = None)
        (adopts_stage cf active changes (plan_sections cf r) (plan_stage r)))"

definition check_fort_plan :: "config \<Rightarrow> queue \<Rightarrow> obj \<Rightarrow> json \<Rightarrow> errors" where
  "check_fort_plan cf q r game_tick =
     (let active = active_plan q; rid = getj r ''ruling_id'';
          expected = (case active of None \<Rightarrow> 1 | Some a \<Rightarrow> int_of (getj a ''version'') + 1);
          changes = plan_diff cf active r in
      only_if (int_of (getj r ''version'') \<noteq> expected) (er (rfld ''version'') ''a stale base'')
      @ only_if (getj r ''supersedes'' \<noteq> (case active of None \<Rightarrow> JNull | Some a \<Rightarrow> getj a ''id''))
          (er (rfld ''supersedes'') ''must be the active version's id'')
      @ (if \<not> is_int game_tick then [er ''game_tick'' ''a fort_plan must be appended with an integer game_tick (its season)''] else
         let tick = int_of game_tick in
         only_if (int_of (getj r ''season_index'') \<noteq> season_index (cf_policy cf) tick)
           (er (rfld ''season_index'') ''is not the season of the tick; the server stamps it'')
         @ only_if (\<not> py_eq (getj r ''changes'') (JArr (map change_json changes)))
             (er (rfld ''changes'') ''server-computed; it does not match the diff against the base'')
         @ only_if (active \<noteq> None \<and> changes = []) (er ''record'' ''nothing changes against the active version'')
         @ (if truthy rid then case plan_ruling_problem q rid of None \<Rightarrow> [] | Some pr \<Rightarrow> [er (rfld ''ruling_id'') pr] else [])
         @ (case plan_verdict cf q r tick of Inl refusal \<Rightarrow> [er ''record'' refusal] | Inr _ \<Rightarrow> [])))"

subsection \<open>Proposals\<close>

definition check_proposal_step_routing :: "config \<Rightarrow> obj \<Rightarrow> json \<Rightarrow> string \<Rightarrow> errors" where
  "check_proposal_step_routing cf r ptype gname =
     (let rt = cf_routing cf; routed = is_routed rt ptype; has_step = has r ''step'';
          step = getj r ''step''; phases = getj r ''phases'' in
      only_if (has_step \<and> \<not> routed) (er (rfld ''step'') ''is not routed yet'')
      @ only_if (routed \<and> \<not> has_step) (er (rfld ''step'') ''is routed to the executor, so a proposal needs an exact step'')
      @ only_if (\<not> has_step \<and> is_frozen rt ptype) (er (rfld ''step'') ''file after the next deploy'')
      @ only_if (is_obj step \<and> is_str (getj (fields_of step) ''tool'') \<and>
          str_of (getj (fields_of step) ''tool'') \<notin> set (tools_of rt gname))
          (er (rfld ''step.tool'') ''is not a tool of the group'')
      @ only_if (is_obj phases \<and> is_str (getj (fields_of phases) ''tool'') \<and>
          str_of (getj (fields_of phases) ''tool'') \<notin> set (tools_of rt gname))
          (er (rfld ''phases.tool'') ''is not a tool of the group''))"

definition check_follow_up :: "config \<Rightarrow> queue \<Rightarrow> obj \<Rightarrow> json \<Rightarrow> string \<Rightarrow> errors option" where
  "check_follow_up cf q r ptype gname = (case get_rec q (getj r ''project_id'') ''project'' of
      None \<Rightarrow> Some [dangling ''project_id'']
    | Some project \<Rightarrow>
        let rt = cf_routing cf; prid = getj project ''id''; steps = current_steps q project;
            after = getj r ''after_step''; covered = getj r ''covered_by'';
            root = proposal_of_ruling q (getj project ''from_ruling'');
            head = only_if (is_closed q ''project_id'' prid \<or> is_abandoned q prid)
                (er (rfld ''project_id'') ''is closed or abandoned'')
              @ (case root of
                   None \<Rightarrow> [er (rfld ''project_id'') ''is not a project this role proposed'']
                 | Some rp \<Rightarrow>
                     if getj rp ''role'' \<noteq> getj r ''role'' then [er (rfld ''project_id'') ''is not a project this role proposed'']
                     else only_if (group_of rt (getj rp ''type'') \<noteq> Some gname)
                       (er (rfld ''type'') ''a follow-up must stay in its project's group''))
              @ only_if (is_str after \<and> \<not> is_step_id steps after) (er (rfld ''after_step'') ''is not a step of the project'') in
        if covered = JNull then Some head
        else if \<not> coverage_on rt ptype then Some (head @ [er (rfld ''covered_by'') ''coverage is not on for the group''])
        else if \<not> hashable covered then None
        else Some (head @ only_if (\<not> is_step_id steps covered) (er (rfld ''covered_by'') ''is not a step of the project'')))"

definition check_proposal_routing :: "config \<Rightarrow> queue \<Rightarrow> obj \<Rightarrow> errors option" where
  "check_proposal_routing cf q r =
     (let ptype = getj r ''type'' in
      if \<not> is_str ptype then Some [] else
      case group_of (cf_routing cf) ptype of
        None \<Rightarrow> Some (only_if (has r ''step'') (er (rfld ''step'') ''is in no routing group, so it takes no step''))
      | Some gname \<Rightarrow> do {
          follow \<leftarrow> (if is_str (getj r ''project_id'') then check_follow_up cf q r ptype gname else Some []);
          Some (check_proposal_step_routing cf r ptype gname @ follow)
        })"

text \<open>\<open>_check_serves\<close>: the targets of the active plan by id, a later entry winning; an id that is a
  list or an object cannot be a key.\<close>

definition plan_target :: "obj \<Rightarrow> json \<Rightarrow> obj option" where
  "plan_target active tid = map_of (rev (map (\<lambda>t. (getj (fields_of t) ''id'', fields_of t))
     (filter is_obj (items_of (getj active ''targets''))))) tid"

definition check_serves_target :: "config \<Rightarrow> obj \<Rightarrow> obj \<Rightarrow> json \<Rightarrow> errors" where
  "check_serves_target cf r active tid = (case plan_target active tid of
      None \<Rightarrow> [er (rfld ''serves'') ''is not a target of the plan'']
    | Some t \<Rightarrow> only_if (\<not> may_serve cf t (getj r ''role'')) (er (rfld ''serves'') ''may not serve the target''))"

definition check_serves :: "config \<Rightarrow> queue \<Rightarrow> errors \<Rightarrow> obj \<Rightarrow> errors option" where
  "check_serves cf q es r =
     (if \<not> has r ''serves'' \<or> list_ex (\<lambda>e. starts_with e (rfld ''serves'')) es then Some []
      else case active_plan q of
        None \<Rightarrow> Some [er (rfld ''serves'') ''there is no active plan yet'']
      | Some active \<Rightarrow>
          if list_all (\<lambda>t. hashable (getj (fields_of t) ''id'')) (filter is_obj (items_of (getj active ''targets'')))
          then Some (concat (map (check_serves_target cf r active) (items_of (getj r ''serves''))))
          else None)"

definition check_plan_change_rate :: "config \<Rightarrow> queue \<Rightarrow> obj \<Rightarrow> json \<Rightarrow> errors" where
  "check_plan_change_rate cf q r game_tick =
     (let pol = cf_policy cf; tick = int_of game_tick;
          ticks = map (\<lambda>p. int_of (getj p ''cycle'')) (naming q ''proposal'' ''type'' (JStr ''plan_change'')) in
      if getj r ''type'' \<noteq> JStr ''plan_change'' \<or> \<not> is_int game_tick \<or> ticks = [] then [] else
      let since = tick - Max (set ticks); season = season_index pol tick in
      only_if (0 \<le> since \<and> since < pp_cooldown_ticks pol) (er (rfld ''type'') ''the cooldown is not over'')
      @ only_if (length (filter (\<lambda>t. season_index pol t = season) ticks) \<ge> pp_per_season_cap pol)
          (er (rfld ''type'') ''the season already has its plan_change requests''))"

definition check_duplicate_of :: "queue \<Rightarrow> errors \<Rightarrow> obj \<Rightarrow> errors" where
  "check_duplicate_of q es r =
     (if getj r ''duplicate_of'' = JNull \<or> flagged ''duplicate_of'' es then []
      else only_if (get_rec q (getj r ''duplicate_of'') ''proposal'' = None) (dangling ''duplicate_of''))"

definition check_proposal :: "config \<Rightarrow> queue \<Rightarrow> errors \<Rightarrow> obj \<Rightarrow> json \<Rightarrow> errors option" where
  "check_proposal cf q es r game_tick = do {
     routed \<leftarrow> check_proposal_routing cf q r;
     serves \<leftarrow> check_serves cf q (es @ routed) r;
     let e1 = routed @ serves @ check_plan_change_rate cf q r game_tick
       @ only_if (\<not> is_int game_tick) (er ''game_tick'' ''a proposal must be appended with an integer game_tick'');
     let e2 = (if es @ e1 = [] then (case find_structural_duplicate cf q r of
         None \<Rightarrow> [] | Some _ \<Rightarrow> [er (rfld ''step'') ''already proposed'']) else []);
     Some (e1 @ e2 @ check_duplicate_of q (es @ e1 @ e2) r)
   }"

subsection \<open>All the checks\<close>

definition id_taken :: "queue \<Rightarrow> json \<Rightarrow> bool" where
  "id_taken q i = list_ex (\<lambda>r. getj r ''id'' = i) (q_records q)"

definition check_kind :: "config \<Rightarrow> queue \<Rightarrow> errors \<Rightarrow> obj \<Rightarrow> json \<Rightarrow> errors option" where
  "check_kind cf q es r game_tick =
     (if is_kind ''ruling'' r then Some (check_ruling cf q es r)
      else if is_kind ''executed'' r then check_executed cf q es r
      else if is_kind ''project'' r then Some (check_project cf q es r)
      else if is_kind ''amend'' r then check_amend cf q es r
      else if is_kind ''close'' r then Some (check_close q r)
      else if is_kind ''abandon'' r then Some (check_abandon q es r)
      else if is_kind ''observation'' r then Some (check_observation q es r)
      else if is_kind ''ask'' r then Some (check_ask q es r)
      else if is_kind ''answer'' r then Some (check_answer q es r)
      else if is_kind ''fort_plan'' r then Some (if es = [] then check_fort_plan cf q r game_tick else [])
      else if is_kind ''proposal'' r then check_proposal cf q es r game_tick
      else Some [])"

text \<open>The id is bound to a query before anything is refused: a list or an object cannot be.\<close>

definition append_errors :: "config \<Rightarrow> queue \<Rightarrow> obj \<Rightarrow> json \<Rightarrow> errors option" where
  "append_errors cf q r game_tick = do {
     es \<leftarrow> validate_record cf r;
     (if \<not> hashable (getj r ''id'') then None else do {
        let es1 = es @ only_if (id_taken q (getj r ''id'')) (er (rfld ''id'') ''is already in the queue'');
        more \<leftarrow> check_kind cf q es1 r game_tick;
        Some (es1 @ more)
      })
   }"

end
