(* ===== verification/Append.thy ===== *)
theory Append
  imports Checks
begin

section \<open>Appending a record\<close>

text \<open>
  The rest of \<open>_append_in_conn\<close>: what is filled in before the checks (\<open>id\<close>, \<open>ts\<close>, the implicit
  step of a project) and what one transaction writes: the record, a proposal's prediction, the target
  states of a project, amend, execution or observation, and the close of the ruling a plan version
  cites. \<open>now\<close> is the clock; \<open>game_tick\<close> the optional argument (\<open>JNull\<close> for none). A refused
  or raising append returns no queue: nothing was written.
\<close>

subsection \<open>The targets table\<close>

definition handle_text :: "json \<Rightarrow> string" where
  "handle_text v = (case v of JStr s \<Rightarrow> s | JInt i \<Rightarrow> dec_int i | _ \<Rightarrow> [])"

definition target_key :: "target_row \<Rightarrow> string \<times> string \<times> string" where
  "target_key t = (tg_project t, tg_step t, tg_target t)"

text \<open>\<open>INSERT OR IGNORE\<close> and \<open>INSERT \<dots> ON CONFLICT DO UPDATE\<close>.\<close>

definition seed_target :: "target_row \<Rightarrow> target_row list \<Rightarrow> target_row list" where
  "seed_target t ts = (if target_key t \<in> target_key ` set ts then ts else ts @ [t])"

definition upsert_target :: "target_row \<Rightarrow> target_row list \<Rightarrow> target_row list" where
  "upsert_target t ts = (if target_key t \<in> target_key ` set ts
     then map (\<lambda>u. if target_key u = target_key t then t else u) ts else ts @ [t])"

definition set_targets :: "obj \<Rightarrow> json list" where
  "set_targets step = items_of (getj (fields_of (getj step ''targets'')) ''set'')"

text \<open>\<open>_seed_step_targets\<close>: the rows of one step, then of all.\<close>

definition seed_rows :: "string \<Rightarrow> json \<Rightarrow> target_row list" where
  "seed_rows pid s =
     (let step = fields_of s;
          initial = (if truthy (getj step ''requires'') then ''waiting'' else ''ready'') in
      map (\<lambda>t. \<lparr>tg_project = pid, tg_step = str_of (getj step ''id''), tg_target = handle_text t,
        tg_state = initial, tg_reason = JNull, tg_tick = JNull\<rparr>) (set_targets step))"

definition seed_step_targets :: "string \<Rightarrow> json list \<Rightarrow> queue \<Rightarrow> queue" where
  "seed_step_targets pid steps q =
     q\<lparr>q_targets := fold seed_target (concat (map (seed_rows pid) steps)) (q_targets q)\<rparr>"

text \<open>\<open>_apply_executed_target_states\<close>.\<close>

definition action_rows :: "string \<Rightarrow> obj \<Rightarrow> json \<Rightarrow> target_row list" where
  "action_rows pid r action =
     (let a = fields_of action in
      if \<not> truthy (getj a ''targets'') \<or> getj a ''target_state'' = JNull then []
      else map (\<lambda>t. \<lparr>tg_project = pid, tg_step = str_of (getj r ''step_id''), tg_target = handle_text t,
        tg_state = str_of (getj a ''target_state''), tg_reason = getj a ''detail'', tg_tick = getj r ''cycle''\<rparr>)
        (items_of (getj a ''targets'')))"

definition apply_executed_target_states :: "obj \<Rightarrow> queue \<Rightarrow> queue" where
  "apply_executed_target_states r q =
     (if getj r ''step_id'' = JNull then q else
      case find_project_for_ruling q (getj r ''ruling_id'') of
        None \<Rightarrow> q
      | Some project \<Rightarrow> q\<lparr>q_targets := fold upsert_target
          (concat (map (action_rows (rec_id project) r) (items_of (getj r ''actions'')))) (q_targets q)\<rparr>)"

subsection \<open>Predictions\<close>

definition insert_prediction :: "obj \<Rightarrow> int \<Rightarrow> queue \<Rightarrow> queue" where
  "insert_prediction r tick q =
     (let pr = fields_of (getj r ''prediction''); after = int_of (getj pr ''check_after_ticks'') in
      q\<lparr>q_preds := q_preds q @ [\<lparr>pr_id = length (q_preds q) + 1, pr_record_id = rec_id r,
        pr_signal = getj pr ''signal'', pr_op = getj pr ''op'', pr_value = getj pr ''value'',
        pr_registered = tick, pr_due = tick + after, pr_status = ''awaiting_execution'',
        pr_actual = JNull, pr_graded_at = JNull, pr_note = JNull, pr_after = after\<rparr>]\<rparr>)"

text \<open>The first prediction of the proposal still awaiting execution becomes pending, due from
  \<open>tick\<close>.\<close>

definition awaiting :: "json \<Rightarrow> prediction \<Rightarrow> bool" where
  "awaiting pid p = (JStr (pr_record_id p) = pid \<and> pr_status p = ''awaiting_execution'')"

fun arm_first :: "json \<Rightarrow> int \<Rightarrow> prediction list \<Rightarrow> prediction list" where
  "arm_first pid tick [] = []"
| "arm_first pid tick (p # ps) =
     (if awaiting pid p then p\<lparr>pr_status := ''pending'', pr_due := tick + pr_after p\<rparr> # ps
      else p # arm_first pid tick ps)"

definition arm_prediction :: "json \<Rightarrow> int \<Rightarrow> queue \<Rightarrow> queue" where
  "arm_prediction pid tick q = q\<lparr>q_preds := arm_first pid tick (q_preds q)\<rparr>"

text \<open>\<open>_arm_prediction_on_first_execution\<close>: the record itself is already in the log.\<close>

definition arm_on_first_execution :: "obj \<Rightarrow> queue \<Rightarrow> queue" where
  "arm_on_first_execution r q =
     (let rid = getj r ''ruling_id'' in
      if list_ex (\<lambda>e. getj e ''id'' \<noteq> getj r ''id'') (naming q ''executed'' ''ruling_id'' rid) then q
      else case get_rec q rid ''ruling'' of
        None \<Rightarrow> q
      | Some ruling \<Rightarrow> arm_prediction (getj ruling ''proposal_id'') (int_of (getj r ''cycle'')) q)"

subsection \<open>Observations\<close>

definition observed_rows :: "string \<Rightarrow> obj \<Rightarrow> json \<Rightarrow> target_row list" where
  "observed_rows pid step tick = map (\<lambda>t. \<lparr>tg_project = pid, tg_step = str_of (getj step ''id''),
     tg_target = handle_text t, tg_state = ''done'', tg_reason = JStr ''observed done'', tg_tick = tick\<rparr>)
     (set_targets step)"

definition apply_observation :: "obj \<Rightarrow> queue \<Rightarrow> queue" where
  "apply_observation r q =
     (if getj r ''done'' \<noteq> JBool True then q else
      case get_rec q (getj r ''project_id'') ''project'' of
        None \<Rightarrow> q
      | Some project \<Rightarrow> (case find_step (current_steps q project) (getj r ''step_id'') of
            None \<Rightarrow> q
          | Some step \<Rightarrow>
              let q1 = q\<lparr>q_targets := fold upsert_target
                    (observed_rows (rec_id project) step (getj r ''game_tick'')) (q_targets q)\<rparr> in
              if getj step ''proposal_id'' = JNull then q1
              else arm_prediction (getj step ''proposal_id'') (int_of (getj r ''game_tick'')) q1))"

subsection \<open>The write\<close>

definition insert_record :: "obj \<Rightarrow> queue \<Rightarrow> queue" where
  "insert_record r q = q\<lparr>q_records := q_records q @ [r]\<rparr>"

definition write_effects :: "obj \<Rightarrow> json \<Rightarrow> queue \<Rightarrow> queue" where
  "write_effects r game_tick q =
     (if is_kind ''proposal'' r then insert_prediction r (int_of game_tick) q
      else if is_kind ''executed'' r then
        apply_executed_target_states r (if getj r ''proposal_id'' = JNull then arm_on_first_execution r q else q)
      else if is_kind ''project'' r then seed_step_targets (rec_id r) (items_of (getj r ''steps'')) q
      else if is_kind ''amend'' r then seed_step_targets (str_of (getj r ''project_id'')) (items_of (getj r ''steps'')) q
      else if is_kind ''observation'' r then apply_observation r q
      else q)"

definition commit_record :: "obj \<Rightarrow> json \<Rightarrow> queue \<Rightarrow> queue" where
  "commit_record r game_tick q = write_effects r game_tick (insert_record r q)"

text \<open>\<open>if not record.get("id")\<close>, \<open>if not record.get("ts")\<close>, \<open>normalize_project\<close>. The count of
  \<open>_next_id\<close> binds the kind, which must not be a list or an object; one that is not a string is
  refused by \<open>validate\<close> whatever its id.\<close>

definition fill_in :: "queue \<Rightarrow> string \<Rightarrow> obj \<Rightarrow> obj option" where
  "fill_in q now r =
     (if \<not> truthy (getj r ''id'') \<and> \<not> hashable (getj r ''kind'') then None else
      let r1 = (if truthy (getj r ''id'') then r else setj r ''id'' (JStr (next_id q (str_of (getj r ''kind'')))));
          r2 = (if truthy (getj r1 ''ts'') then r1 else setj r1 ''ts'' (JStr now)) in
      Some (if is_kind ''project'' r2 then normalize_project r2 else r2))"

text \<open>An open near-duplicate is flagged, never refused, when the caller named none.\<close>

definition flag_duplicate :: "queue \<Rightarrow> obj \<Rightarrow> obj" where
  "flag_duplicate q r =
     (if is_kind ''proposal'' r \<and> \<not> has r ''duplicate_of'' then
        (case find_duplicate_proposal q r of None \<Rightarrow> r | Some d \<Rightarrow> setj r ''duplicate_of'' (JStr d))
      else r)"

definition append_plain :: "config \<Rightarrow> string \<Rightarrow> queue \<Rightarrow> obj \<Rightarrow> json \<Rightarrow> (obj \<times> queue) outcome" where
  "append_plain cf now q r game_tick = (case fill_in q now r of
      None \<Rightarrow> Raised
    | Some r1 \<Rightarrow> (case append_errors cf q r1 game_tick of
        None \<Rightarrow> Raised
      | Some es \<Rightarrow> refuse_if es
          (let r2 = flag_duplicate q r1 in Ok (r2, commit_record r2 game_tick q))))"

definition close_record :: "config \<Rightarrow> queue \<Rightarrow> string \<Rightarrow> string \<Rightarrow> string \<Rightarrow> string \<Rightarrow> json option \<Rightarrow> int option \<Rightarrow> string \<Rightarrow> obj" where
  "close_record cf q field target out reason cleanup tick snapshot =
     [(''kind'', JStr ''close''), (''role'', JStr (executor (cf_roster cf))),
      (''cycle'', JInt (case tick of None \<Rightarrow> latest_cycle q | Some t \<Rightarrow> t)), (''snapshot'', JStr snapshot),
      (field, JStr target), (''outcome'', JStr out), (''reason'', JStr reason)]
     @ (case cleanup of None \<Rightarrow> [] | Some c \<Rightarrow> [(''cleanup'', c)])"

text \<open>\<open>_close_conn\<close>.\<close>

definition close_in_conn :: "config \<Rightarrow> string \<Rightarrow> queue \<Rightarrow> string \<Rightarrow> string \<Rightarrow> string \<Rightarrow> string \<Rightarrow> json option \<Rightarrow> int option \<Rightarrow> string \<Rightarrow> (obj \<times> queue) outcome" where
  "close_in_conn cf now q field target out reason cleanup tick snapshot =
     append_plain cf now q (close_record cf q field target out reason cleanup tick snapshot) JNull"

text \<open>\<open>_append_in_conn\<close>: a plan version that cites a ruling also closes it, in the same transaction.\<close>

definition append_in_conn :: "config \<Rightarrow> string \<Rightarrow> queue \<Rightarrow> obj \<Rightarrow> json \<Rightarrow> (obj \<times> queue) outcome" where
  "append_in_conn cf now q r game_tick =
     obind (append_plain cf now q r game_tick) (\<lambda>(r1, q1).
       if is_kind ''fort_plan'' r1 \<and> truthy (getj r1 ''ruling_id'') then
         obind (close_in_conn cf now q1 ''ruling_id'' (str_of (getj r1 ''ruling_id'')) ''completed''
             (''filed as plan version '' @ dec_int (int_of (getj r1 ''version''))) None
             (Some (int_of (getj r1 ''cycle''))) (str_of (getj r1 ''snapshot'')))
           (\<lambda>(_, q2). Ok (r1, q2))
       else Ok (r1, q1))"

subsection \<open>An accepted append\<close>

lemma append_plain_Ok:
  "append_plain cf now q r t = Ok (r2, q') \<longleftrightarrow>
     (\<exists>r1. fill_in q now r = Some r1 \<and> append_errors cf q r1 t = Some [] \<and>
        r2 = flag_duplicate q r1 \<and> q' = commit_record r2 t q)"
  by (auto simp: append_plain_def Let_def split: option.splits)

lemma append_errors_Nil:
  "append_errors cf q r t = Some [] \<longleftrightarrow>
     accepted cf r \<and> hashable (getj r ''id'') \<and> \<not> id_taken q (getj r ''id'') \<and> check_kind cf q [] r t = Some []"
  by (auto simp: append_errors_def accepted_def Let_def split: Option.bind_splits)

lemma append_in_conn_plain:
  assumes "append_in_conn cf now q r t = Ok (r1, q')"
  obtains q1 where "append_plain cf now q r t = Ok (r1, q1)"
    and "q' = q1 \<and> \<not> (is_kind ''fort_plan'' r1 \<and> truthy (getj r1 ''ruling_id'')) \<or>
      (is_kind ''fort_plan'' r1 \<and> truthy (getj r1 ''ruling_id'') \<and> (\<exists>c. append_plain cf now q1
         (close_record cf q1 ''ruling_id'' (str_of (getj r1 ''ruling_id'')) ''completed''
           (''filed as plan version '' @ dec_int (int_of (getj r1 ''version''))) None
           (Some (int_of (getj r1 ''cycle''))) (str_of (getj r1 ''snapshot''))) JNull = Ok (c, q')))"
  using assms by (auto simp: append_in_conn_def close_in_conn_def split: if_splits prod.splits Option.bind_splits)

end
