(* ===== verification/Executor.thy ===== *)
theory Executor
  imports Append
begin

section \<open>The executor's writes\<close>

text \<open>
  \<open>dfqueue/store.py\<close>, stage 2A: the cutovers, opening a project from a ruling, applying a follow-up,
  the write-ahead marker of a step's real call (\<open>begin\<close>, \<open>finish\<close>, \<open>resolve\<close>), observing a
  step, closing. Each operation is one locked transaction: it returns what the code returns and the
  queue after it, or the refusal. \<open>None\<close> for an optional argument is the code's \<open>None\<close>.
\<close>

subsection \<open>Cutovers\<close>

definition cutover_key :: "string \<Rightarrow> string" where
  "cutover_key g = ''cutover:'' @ g"

definition cutover :: "queue \<Rightarrow> string \<Rightarrow> string option" where
  "cutover q g = map_of (q_meta q) (cutover_key g)"

definition set_meta :: "string \<Rightarrow> string \<Rightarrow> queue \<Rightarrow> queue" where
  "set_meta k v q = q\<lparr>q_meta := AList.update k v (q_meta q)\<rparr>"

definition num_or_refuse :: "string \<Rightarrow> int outcome" where
  "num_or_refuse i = (case num i of None \<Rightarrow> Refused [''not a queue id''] | Some n \<Rightarrow> Ok n)"

definition known_group :: "config \<Rightarrow> string \<Rightarrow> bool" where
  "known_group cf g = (g = LEGACY_GROUP \<or> g \<in> set (groups_of (cf_routing cf)))"

definition set_cutover :: "config \<Rightarrow> queue \<Rightarrow> string \<Rightarrow> string \<Rightarrow> queue outcome" where
  "set_cutover cf q g rid =
     (if \<not> known_group cf g then Refused [''no such routing group'']
      else if get_rec q (JStr rid) ''ruling'' = None then Refused [''cutover: not an existing ruling'']
      else case cutover q g of
        None \<Rightarrow> Ok (set_meta (cutover_key g) rid q)
      | Some current \<Rightarrow> obind (num_or_refuse rid) (\<lambda>n. obind (num_or_refuse current) (\<lambda>m.
          if n < m then Refused [''the cutover only moves up''] else Ok (set_meta (cutover_key g) rid q))))"

text \<open>The larger of the legacy cutover and the group's own; a direct group's is 0.\<close>

definition cutover_num :: "queue \<Rightarrow> string \<Rightarrow> int option outcome" where
  "cutover_num q g = (case cutover q g of None \<Rightarrow> Ok None
     | Some c \<Rightarrow> obind (num_or_refuse c) (\<lambda>n. Ok (Some n)))"

definition max_opt :: "int option \<Rightarrow> int option \<Rightarrow> int option" where
  "max_opt a b = (case (a, b) of (Some x, Some y) \<Rightarrow> Some (max x y) | (Some x, None) \<Rightarrow> Some x | (None, y) \<Rightarrow> y)"

definition effective_cutover_num :: "config \<Rightarrow> queue \<Rightarrow> string option \<Rightarrow> int option outcome" where
  "effective_cutover_num cf q g = (case g of
      None \<Rightarrow> cutover_num q LEGACY_GROUP
    | Some gn \<Rightarrow> if gn \<in> set (direct_groups (cf_routing cf)) then Ok (Some 0)
        else obind (cutover_num q LEGACY_GROUP) (\<lambda>a. obind (cutover_num q gn) (\<lambda>b. Ok (max_opt a b))))"

subsection \<open>Opening a project\<close>

definition build_step :: "string \<Rightarrow> nat \<Rightarrow> obj \<Rightarrow> json list \<Rightarrow> obj" where
  "build_step pid n proposal requires =
     (let sid = pid @ ''/s'' @ dec n; st = fields_of (getj proposal ''step''); label = getj st ''label'' in
      [(''id'', JStr sid), (''tool'', getj st ''tool''),
       (''args'', if truthy (getj st ''args'') then getj st ''args'' else JObj []),
       (''targets'', JObj [(''set'', JArr [JStr sid])]), (''requires'', JArr requires),
       (''trigger'', JStr ''all_success''), (''prefer_after'', JArr []), (''guards'', JStr ''default''),
       (''proposal_id'', getj proposal ''id'')]
      @ opt_pair (truthy label) ''label'' label)"

definition open_reasons :: "config \<Rightarrow> queue \<Rightarrow> string \<Rightarrow> obj \<Rightarrow> errors outcome" where
  "open_reasons cf q rid ruling =
     (let rt = cf_routing cf; proposal = get_rec q (getj ruling ''proposal_id'') ''proposal'';
          g = (case proposal of None \<Rightarrow> None | Some p \<Rightarrow> group_of rt (getj p ''type'')) in
      obind (case g of None \<Rightarrow> Ok []
             | Some _ \<Rightarrow> obind (effective_cutover_num cf q g) (\<lambda>cut. case cut of
                   None \<Rightarrow> Ok [''no cutover is set for the group, so nothing may open'']
                 | Some c \<Rightarrow> obind (num_or_refuse rid) (\<lambda>n. Ok (only_if (n \<le> c) ''is at or below the cutover (legacy work)''))))
        (\<lambda>cuts. Ok (only_if (\<not> accepts ruling) ''is not an accepting ruling''
           @ (case proposal of None \<Rightarrow> [] | Some p \<Rightarrow>
                only_if (getj p ''project_id'' \<noteq> JNull) ''is a follow-up; it never opens a project''
                @ only_if (g = None \<or> \<not> is_routed rt (getj p ''type'')) ''the type is not routed''
                @ only_if (\<not> has p ''step'') ''has no step'')
           @ cuts
           @ only_if (is_closed q ''ruling_id'' (JStr rid)) ''is closed''
           @ only_if (find_project_for_ruling q (JStr rid) \<noteq> None) ''already has a project'')))"

definition project_record :: "config \<Rightarrow> queue \<Rightarrow> string \<Rightarrow> obj \<Rightarrow> obj \<Rightarrow> string option \<Rightarrow> int option \<Rightarrow> string \<Rightarrow> obj" where
  "project_record cf q rid ruling p urgency tick snapshot =
     (let pid = next_id q ''project''; step = build_step pid 1 p [];
          tmpl = getj (fields_of (getj step ''args'')) ''template'';
          rationale = getj p ''public_rationale'' in
      [(''id'', JStr pid), (''kind'', JStr ''project''), (''role'', JStr (executor (cf_roster cf))),
       (''cycle'', case tick of None \<Rightarrow> getj ruling ''cycle'' | Some t \<Rightarrow> JInt t), (''snapshot'', JStr snapshot),
       (''from_ruling'', JStr rid), (''summary'', getj p ''summary''), (''because'', getj p ''rationale''),
       (''steps'', JArr [JObj step])]
      @ (case urgency of None \<Rightarrow> [] | Some u \<Rightarrow> [(''urgency'', JStr u)])
      @ opt_pair (truthy (getj p ''public_title'')) ''public_title'' (getj p ''public_title'')
      @ opt_pair (truthy rationale) ''public_rationale'' (JStr (take PUBLIC_RATIONALE_MAX (str_of rationale)))
      @ opt_pair (nonempty_str tmpl) ''template'' tmpl)"

definition open_project_from_ruling :: "config \<Rightarrow> string \<Rightarrow> queue \<Rightarrow> string \<Rightarrow> string option \<Rightarrow> int option \<Rightarrow> string \<Rightarrow> (obj \<times> queue) outcome" where
  "open_project_from_ruling cf now q rid urgency tick snapshot =
     (case get_rec q (JStr rid) ''ruling'' of
        None \<Rightarrow> Refused [''is not a ruling'']
      | Some ruling \<Rightarrow> obind (open_reasons cf q rid ruling) (\<lambda>es. refuse_if es
          (case get_rec q (getj ruling ''proposal_id'') ''proposal'' of
             None \<Rightarrow> Raised
           | Some p \<Rightarrow> append_in_conn cf now q (project_record cf q rid ruling p urgency tick snapshot) JNull)))"

text \<open>One transaction for a ready-ruled one-step action: the proposal and its accepting ruling.\<close>

definition file_direct_action :: "config \<Rightarrow> string \<Rightarrow> queue \<Rightarrow> obj \<Rightarrow> obj \<Rightarrow> json \<Rightarrow> ((obj \<times> obj) \<times> queue) outcome" where
  "file_direct_action cf now q proposal ruling game_tick =
     (if \<not> is_direct (cf_routing cf) (if truthy (getj proposal ''type'') then getj proposal ''type'' else JStr [])
      then Refused [''file_direct_action: not a direct action type'']
      else obind (append_in_conn cf now q proposal game_tick) (\<lambda>(p, q1).
        obind (append_in_conn cf now q1 (setj ruling ''proposal_id'' (getj p ''id'')) game_tick)
          (\<lambda>(r, q2). Ok ((p, r), q2))))"

subsection \<open>Follow-ups\<close>

definition followup_reasons :: "queue \<Rightarrow> obj \<Rightarrow> obj \<Rightarrow> errors" where
  "followup_reasons q p project =
     (let pid = getj p ''id''; prid = getj project ''id''; steps = current_steps q project in
      only_if (getj p ''covered_by'' = JNull \<and> accepting_ruling q pid = None) ''is neither accepted nor covered''
      @ only_if (is_closed q ''project_id'' prid \<or> is_abandoned q prid) ''the project is closed or abandoned''
      @ only_if (is_closed q ''proposal_id'' pid) ''is closed''
      @ only_if (\<not> is_step_id steps (getj p ''after_step'')) ''after_step is not in the plan''
      @ only_if (list_ex (\<lambda>s. getj (fields_of s) ''proposal_id'' = pid) steps) ''is already applied''
      @ only_if (\<not> has p ''step'') ''has no step'')"

text \<open>The number of a step id \<open>.../s<n>\<close>: \<open>rsplit("/s", 1)\<close>, kept when \<open>isdigit\<close>. In Latin-1
  \<open>isdigit\<close> also holds of three superscripts, on which \<open>int\<close> raises.\<close>

fun after_last_s :: "string \<Rightarrow> string option" where
  "after_last_s (a # b # t) =
     (case after_last_s (b # t) of Some u \<Rightarrow> Some u
      | None \<Rightarrow> if a = CHR ''/'' \<and> b = CHR ''s'' then Some t else None)"
| "after_last_s _ = None"

definition is_digit_text :: "string \<Rightarrow> bool" where
  "is_digit_text s = (s \<noteq> [] \<and> list_all (\<lambda>c. digit_char c \<or> cp c \<in> {178, 179, 185}) s)"

definition step_number :: "json \<Rightarrow> int option outcome" where
  "step_number s = (case after_last_s (str_of (getj (fields_of s) ''id'')) of
      None \<Rightarrow> Ok None
    | Some t \<Rightarrow> if \<not> is_digit_text t then Ok None
        else (case parse_int t of None \<Rightarrow> Raised | Some n \<Rightarrow> Ok (Some n)))"

fun max_step_number :: "json list \<Rightarrow> int outcome" where
  "max_step_number [] = Ok 0"
| "max_step_number (s # ss) = obind (step_number s) (\<lambda>n. obind (max_step_number ss)
     (\<lambda>m. Ok (case n of None \<Rightarrow> m | Some k \<Rightarrow> max k m)))"

definition followup_record :: "config \<Rightarrow> queue \<Rightarrow> obj \<Rightarrow> obj \<Rightarrow> nat \<Rightarrow> int option \<Rightarrow> string \<Rightarrow> obj" where
  "followup_record cf q p project n tick snapshot =
     (let step = build_step (rec_id project) n p [getj p ''after_step'']; rationale = getj p ''public_rationale'' in
      [(''kind'', JStr ''amend''), (''role'', JStr (executor (cf_roster cf))),
       (''cycle'', JInt (case tick of None \<Rightarrow> latest_cycle q | Some t \<Rightarrow> t)), (''snapshot'', JStr snapshot),
       (''project_id'', getj project ''id''), (''steps'', JArr (current_steps q project @ [JObj step])),
       (''adds'', JArr [getj step ''id'']), (''reason'', JStr (''follow-up '' @ rec_id p))]
      @ opt_pair (truthy rationale) ''public_rationale'' (JStr (take PUBLIC_RATIONALE_MAX (str_of rationale))))"

definition apply_followup :: "config \<Rightarrow> string \<Rightarrow> queue \<Rightarrow> string \<Rightarrow> int option \<Rightarrow> string \<Rightarrow> (obj \<times> queue) outcome" where
  "apply_followup cf now q pid tick snapshot =
     (case get_rec q (JStr pid) ''proposal'' of
        None \<Rightarrow> Refused [''is not a proposal'']
      | Some p \<Rightarrow> (case get_rec q (getj p ''project_id'') ''project'' of
          None \<Rightarrow> Refused [''is not a follow-up of an existing project'']
        | Some project \<Rightarrow> refuse_if (followup_reasons q p project)
            (obind (max_step_number (current_steps q project)) (\<lambda>m.
               append_in_conn cf now q (followup_record cf q p project (nat (1 + m)) tick snapshot) JNull))))"

subsection \<open>Runs\<close>

definition run_reasons :: "config \<Rightarrow> queue \<Rightarrow> obj \<Rightarrow> obj \<Rightarrow> obj \<Rightarrow> obj option \<Rightarrow> bool \<Rightarrow> errors outcome" where
  "run_reasons cf q project step proposal root_prop latched =
     (let prid = getj project ''id''; sid = getj step ''id''; pid = getj step ''proposal_id'';
          ps = fields_of (getj proposal ''step''); own = states_of_step q prid sid;
          canon = dumps (cf_float_repr cf) True;
          args = (\<lambda>s. if truthy (getj s ''args'') then getj s ''args'' else JObj []) in
      obind (if getj proposal ''project_id'' = JNull then
               (case root_prop of None \<Rightarrow> Raised
                | Some rp \<Rightarrow> Ok (only_if (getj proposal ''id'' \<noteq> getj rp ''id'') ''the proposal is not the project's own''))
             else Ok (only_if (getj proposal ''project_id'' \<noteq> prid) ''the proposal belongs to another project''
               @ only_if (getj proposal ''covered_by'' = JNull \<and> accepting_ruling q pid = None)
                   ''the follow-up is neither accepted nor covered''))
        (\<lambda>owner. Ok (only_if (getj step ''tool'' \<noteq> getj ps ''tool'' \<or> canon (args step) \<noteq> canon (args ps))
             ''the step's content differs from its proposal's step''
           @ owner
           @ only_if (\<not> step_prerequisites_satisfied step (states_of_step q prid)) ''the step's prerequisites are not done''
           @ only_if (list_ex (\<lambda>s. s \<in> set [''issued'', ''done'']) own) ''the step already succeeded''
           @ only_if (list_ex (\<lambda>s. s = ''failed'') own) ''the step failed''
           @ only_if (list_ex (\<lambda>r. JStr (rn_project r) = prid \<and> JStr (rn_step r) = sid \<and>
                rn_status r \<in> set [''issuing'', ''held'']) (q_runs q)) ''an earlier run of the step is unresolved''
           @ only_if (latched \<and> getj project ''urgency'' \<noteq> JStr ''high'')
               ''the tripwire is latched and the project is not urgency high'')))"

definition runnable_reasons :: "config \<Rightarrow> queue \<Rightarrow> string \<Rightarrow> string \<Rightarrow> bool \<Rightarrow> errors outcome" where
  "runnable_reasons cf q prid sid latched = (case get_rec q (JStr prid) ''project'' of
      None \<Rightarrow> Ok [''no such project'']
    | Some project \<Rightarrow>
        if is_closed q ''project_id'' (JStr prid) then Ok [''project is closed'']
        else if is_abandoned q (JStr prid) then Ok [''project is abandoned'']
        else if (case get_rec q (getj project ''from_ruling'') ''ruling'' of None \<Rightarrow> True | Some rl \<Rightarrow> \<not> accepts rl)
          then Ok [''the project's ruling is not accepted'']
        else (case find_step (current_steps q project) (JStr sid) of
            None \<Rightarrow> Ok [''is not a step of the current plan'']
          | Some step \<Rightarrow>
              if getj step ''proposal_id'' = JNull then Ok [''the step carries no proposal_id'']
              else (case get_rec q (getj step ''proposal_id'') ''proposal'' of
                  None \<Rightarrow> Ok [''the step's proposal has no step'']
                | Some p \<Rightarrow> if \<not> has p ''step'' then Ok [''the step's proposal has no step'']
                    else run_reasons cf q project step p (proposal_of_ruling q (getj project ''from_ruling'')) latched)))"

definition is_cleanup :: "string \<Rightarrow> bool" where
  "is_cleanup sid = starts_with sid ''cleanup:''"

definition begin_step_run :: "config \<Rightarrow> string \<Rightarrow> queue \<Rightarrow> string \<Rightarrow> string \<Rightarrow> int \<Rightarrow> json \<Rightarrow> (nat \<times> queue) outcome" where
  "begin_step_run cf now q prid sid tick baseline =
     obind (if is_cleanup sid then Ok (only_if (get_rec q (JStr prid) ''project'' = None) ''no such project'')
            else runnable_reasons cf q prid sid False)
       (\<lambda>es. refuse_if es
         (let i = length (q_runs q) + 1 in
          Ok (i, q\<lparr>q_runs := q_runs q @ [\<lparr>rn_id = i, rn_project = prid, rn_step = sid, rn_status = ''issuing'',
            rn_outcome = JNull, rn_tick = tick, rn_baseline = baseline, rn_handle = JNull, rn_executed = JNull,
            rn_started = now, rn_ended = JNull\<rparr>]\<rparr>)))"

definition run_row_of :: "queue \<Rightarrow> nat \<Rightarrow> run_row option" where
  "run_row_of q i = find (\<lambda>r. rn_id r = i) (q_runs q)"

definition settle_run :: "nat \<Rightarrow> string \<Rightarrow> string \<Rightarrow> json \<Rightarrow> json \<Rightarrow> string \<Rightarrow> queue \<Rightarrow> queue" where
  "settle_run i status out handle executed now q = q\<lparr>q_runs := map (\<lambda>r. if rn_id r = i
     then r\<lparr>rn_status := status, rn_outcome := JStr out, rn_handle := handle, rn_executed := executed,
            rn_ended := JStr now\<rparr> else r) (q_runs q)\<rparr>"

text \<open>\<open>(a or {})\<close> for each action, in turn: a truthy one that is not an object has no \<open>get\<close>. Both
  loops stop at the first answer.\<close>

fun first_handle_in :: "json list \<Rightarrow> json option" where
  "first_handle_in [] = Some JNull"
| "first_handle_in (a # as) =
     (if truthy a \<and> \<not> is_obj a then None else do {
        refs \<leftarrow> py_iter (or_empty (getj (fields_of a) ''game_refs''));
        (case find nonempty_str refs of Some h \<Rightarrow> Some h | None \<Rightarrow> first_handle_in as)
      })"

definition first_handle :: "obj \<Rightarrow> json option" where
  "first_handle executed = Option.bind (py_iter (or_empty (getj executed ''actions''))) first_handle_in"

fun all_success_in :: "json list \<Rightarrow> bool option" where
  "all_success_in [] = Some True"
| "all_success_in (a # as) =
     (if truthy a \<and> \<not> is_obj a then None
      else if getj (fields_of a) ''outcome'' = JStr ''success'' then all_success_in as else Some False)"

definition all_success :: "obj \<Rightarrow> bool option" where
  "all_success executed = Option.bind (py_iter (or_empty (getj executed ''actions''))) all_success_in"

definition set_default :: "obj \<Rightarrow> string \<Rightarrow> json \<Rightarrow> obj" where
  "set_default r k v = (if has r k then r else setj r k v)"

definition executed_record :: "config \<Rightarrow> obj \<Rightarrow> run_row \<Rightarrow> obj \<Rightarrow> obj \<Rightarrow> obj" where
  "executed_record cf executed row project step =
     (let r0 = setj (setj (setj (setj (setj (del_keys [''kind'', ''role''] executed) ''kind'' (JStr ''executed''))
            ''role'' (JStr (executor (cf_roster cf)))) ''ruling_id'' (getj project ''from_ruling''))
            ''step_id'' (getj step ''id'')) ''proposal_id'' (getj step ''proposal_id'') in
      set_default (set_default (set_default r0 ''cycle'' (JInt (rn_tick row))) ''snapshot'' (JStr ''executor''))
        ''notes'' (JStr (''run '' @ dec (rn_id row) @ '' of '' @ str_of (getj step ''id''))))"

definition step_of_run :: "queue \<Rightarrow> run_row \<Rightarrow> (obj \<times> obj) option" where
  "step_of_run q row = do {
     project \<leftarrow> get_rec q (JStr (rn_project row)) ''project'';
     step \<leftarrow> find_step (current_steps q project) (JStr (rn_step row));
     if has step ''proposal_id'' then Some (project, step) else None
   }"

definition record_run :: "string \<Rightarrow> queue \<Rightarrow> nat \<Rightarrow> obj \<Rightarrow> json \<Rightarrow> obj option \<Rightarrow> (obj option \<times> queue) outcome" where
  "record_run now q i executed handle written = (case all_success executed of
      None \<Rightarrow> Raised
    | Some good \<Rightarrow> Ok (written, settle_run i ''recorded'' (if good then ''success'' else ''failure'') handle
        (case written of None \<Rightarrow> JNull | Some w \<Rightarrow> getj w ''id'') now q))"

definition finish_step_run :: "config \<Rightarrow> string \<Rightarrow> queue \<Rightarrow> nat \<Rightarrow> obj \<Rightarrow> json \<Rightarrow> (obj option \<times> queue) outcome" where
  "finish_step_run cf now q i executed handle = (case run_row_of q i of
      None \<Rightarrow> Refused [''no such step run'']
    | Some row \<Rightarrow> if rn_status row \<noteq> ''issuing'' then Refused [''the run is not issuing''] else
      (case (if truthy handle then Some handle else first_handle executed) of
         None \<Rightarrow> Raised
       | Some h \<Rightarrow>
           if is_cleanup (rn_step row) then record_run now q i executed h None
           else (case step_of_run q row of None \<Rightarrow> Raised
             | Some (project, step) \<Rightarrow>
                 obind (append_in_conn cf now q (executed_record cf executed row project step) JNull)
                   (\<lambda>(w, q1). record_run now q1 i executed h (Some w)))))"

definition unresolved_step_runs :: "queue \<Rightarrow> run_row list" where
  "unresolved_step_runs q = filter (\<lambda>r. rn_status r = ''issuing'') (q_runs q)"

definition RESOLVE_STATUS :: "(string \<times> string) list" where
  "RESOLVE_STATUS = [(''success'', ''resolved''), (''transient'', ''void''), (''held'', ''held'')]"

definition landed_record :: "config \<Rightarrow> run_row \<Rightarrow> obj \<Rightarrow> obj \<Rightarrow> json \<Rightarrow> int option \<Rightarrow> json \<Rightarrow> obj" where
  "landed_record cf row project step handle tick notes =
     [(''kind'', JStr ''executed''), (''role'', JStr (executor (cf_roster cf))),
      (''cycle'', JInt (case tick of None \<Rightarrow> rn_tick row | Some t \<Rightarrow> t)), (''snapshot'', JStr ''executor''),
      (''ruling_id'', getj project ''from_ruling''), (''step_id'', getj step ''id''),
      (''proposal_id'', getj step ''proposal_id''),
      (''actions'', JArr [JObj [(''tool'', getj step ''tool''), (''outcome'', JStr ''success''),
         (''detail'', JStr ''settled as landed by a read against the baseline''),
         (''targets'', JArr [getj step ''id'']), (''target_state'', JStr ''issued''), (''game_refs'', JArr [handle])]]),
      (''notes'', if truthy notes then notes
         else JStr (''run '' @ dec (rn_id row) @ '' settled as success by its landed read''))]"

definition resolve_step_run :: "config \<Rightarrow> string \<Rightarrow> queue \<Rightarrow> nat \<Rightarrow> string \<Rightarrow> json \<Rightarrow> int option \<Rightarrow> json \<Rightarrow> (obj option \<times> queue) outcome" where
  "resolve_step_run cf now q i out handle tick notes = (case map_of RESOLVE_STATUS out of
      None \<Rightarrow> Refused [''resolve outcome is not known'']
    | Some status \<Rightarrow>
      if out = ''success'' \<and> \<not> truthy handle then Refused [''resolving as success needs the handle the call issued'']
      else (case run_row_of q i of
          None \<Rightarrow> Refused [''no such step run'']
        | Some row \<Rightarrow> if rn_status row \<noteq> ''issuing'' then Refused [''the run is not issuing'']
            else if out = ''success'' \<and> \<not> is_cleanup (rn_step row) then
              (case step_of_run q row of None \<Rightarrow> Raised
               | Some (project, step) \<Rightarrow>
                   obind (append_in_conn cf now q (landed_record cf row project step handle tick notes) JNull)
                     (\<lambda>(w, q1). Ok (Some w, settle_run i status out handle (getj w ''id'') now q1)))
            else Ok (None, settle_run i status out handle JNull now q)))"

text \<open>Handles of the real calls, oldest first, each once.\<close>

definition issued_handles :: "queue \<Rightarrow> string \<Rightarrow> json list" where
  "issued_handles q prid = rev (remdups (rev (map rn_handle (filter (\<lambda>r. rn_project r = prid \<and>
     rn_handle r \<noteq> JNull \<and> rn_status r \<in> set [''recorded'', ''resolved'']) (q_runs q)))))"

subsection \<open>Observing and closing\<close>

definition observation_record :: "string \<Rightarrow> string \<Rightarrow> int \<Rightarrow> bool \<Rightarrow> obj \<Rightarrow> string \<Rightarrow> obj" where
  "observation_record prid sid tick is_done detail snapshot =
     (let reason = getj detail ''reason''; hold = getj detail ''hold_code'';
          rest = del_keys [''status'', ''reason'', ''hold_code''] detail in
      [(''kind'', JStr ''observation''), (''role'', JStr OBSERVATION_ROLE), (''cycle'', JInt tick),
       (''snapshot'', JStr snapshot), (''project_id'', JStr prid), (''step_id'', JStr sid), (''game_tick'', JInt tick),
       (''results'', JArr [JObj ([(''target'', JStr sid), (''status'', get_or detail ''status'' (JStr ''consistent'')),
          (''reason'', if truthy reason then reason else JStr (if is_done then ''phase done'' else ''in progress''))]
          @ opt_pair (truthy hold) ''hold_code'' hold)]),
       (''done'', JBool is_done)]
      @ opt_pair (rest \<noteq> []) ''detail'' (JObj rest))"

definition record_observation :: "config \<Rightarrow> string \<Rightarrow> queue \<Rightarrow> string \<Rightarrow> string \<Rightarrow> int \<Rightarrow> bool \<Rightarrow> obj \<Rightarrow> string \<Rightarrow> (obj \<times> queue) outcome" where
  "record_observation cf now q prid sid tick is_done detail snapshot =
     (let states = states_of_step q (JStr prid) (JStr sid) in
      if is_done \<and> states \<noteq> [] \<and> \<not> list_all (\<lambda>s. s \<in> set [''issued'', ''done'']) states
      then Refused [''only an issued step is observed done'']
      else if is_done \<and> states = [] then Refused [''has no tracked target; nothing to observe done'']
      else append_in_conn cf now q (observation_record prid sid tick is_done detail snapshot) JNull)"

definition close_field :: "string \<Rightarrow> string option" where
  "close_field target = map_of [(''project'', ''project_id''), (''proposal'', ''proposal_id''), (''ruling'', ''ruling_id'')]
     (before_last (CHR ''-'') target)"

definition close_target :: "config \<Rightarrow> string \<Rightarrow> queue \<Rightarrow> string \<Rightarrow> string \<Rightarrow> string \<Rightarrow> json option \<Rightarrow> int option \<Rightarrow> string \<Rightarrow> (obj \<times> queue) outcome" where
  "close_target cf now q target out reason cleanup tick snapshot = (case close_field target of
      None \<Rightarrow> Refused [''close: cannot tell what the target is'']
    | Some field \<Rightarrow> close_in_conn cf now q field target out reason cleanup tick snapshot)"

definition close_legacy :: "config \<Rightarrow> string \<Rightarrow> queue \<Rightarrow> string \<Rightarrow> string \<Rightarrow> int option \<Rightarrow> string \<Rightarrow> (obj \<times> queue) outcome" where
  "close_legacy cf now q target reason tick snapshot =
     (let t = JStr target; rt = cf_routing cf;
          finish = (\<lambda>field is_done. close_in_conn cf now q field target
             (if is_done then ''completed'' else ''not_done'') reason None tick snapshot);
          below = (\<lambda>ty rid k. obind (effective_cutover_num cf q (group_of rt ty)) (\<lambda>cut. case cut of
               None \<Rightarrow> Refused [''is above its cutover; close_legacy only closes legacy work'']
             | Some c \<Rightarrow> obind (num_or_refuse rid) (\<lambda>n.
                 if n > c then Refused [''is above its cutover; close_legacy only closes legacy work''] else k))) in
      (case close_field target of
         None \<Rightarrow> Refused [''close_legacy: cannot tell what the target is'']
       | Some field \<Rightarrow>
         if field = ''ruling_id'' then (case get_rec q t ''ruling'' of
             None \<Rightarrow> Refused [''is not a ruling'']
           | Some ruling \<Rightarrow> below (proposal_type_of_ruling q t) target (finish field (executed_exists q t)))
         else if field = ''project_id'' then (case get_rec q t ''project'' of
             None \<Rightarrow> Refused [''is not a project'']
           | Some project \<Rightarrow>
               if getj project ''role'' = JStr (executor (cf_roster cf)) \<and> executor (cf_roster cf) \<noteq> sole_writer (cf_roster cf)
               then Refused [''is an executor project, not legacy work'']
               else below (proposal_type_of_ruling q (getj project ''from_ruling'')) (str_of (getj project ''from_ruling''))
                 (finish field (status_of q project = ''done'')))
         else (case get_rec q t ''proposal'' of
             None \<Rightarrow> Refused [''is not a proposal'']
           | Some p \<Rightarrow> (case group_of rt (getj p ''type'') of
               None \<Rightarrow> Refused [''has no cutover for its group'']
             | Some g \<Rightarrow> if cutover q g = None then Refused [''has no cutover for its group'']
                 else if has p ''step'' then Refused [''carries a step, so it is not legacy work'']
                 else finish field False))))"

subsection \<open>Grades and voids\<close>

definition VOIDABLE_STATUSES :: "string list" where
  "VOIDABLE_STATUSES = [''awaiting_execution'', ''pending'']"

definition update_prediction :: "nat \<Rightarrow> (prediction \<Rightarrow> prediction) \<Rightarrow> queue \<Rightarrow> queue" where
  "update_prediction i f q = q\<lparr>q_preds := map (\<lambda>p. if pr_id p = i then f p else p) (q_preds q)\<rparr>"

definition void_prediction :: "string \<Rightarrow> queue \<Rightarrow> string \<Rightarrow> json \<Rightarrow> queue outcome" where
  "void_prediction now q pid note =
     (if \<not> is_str note \<or> strip (str_of note) = [] then Refused [''refusing to void: a note is required'']
      else if get_rec q (JStr pid) ''proposal'' = None then Refused [''refusing to void: not a proposal in this queue'']
      else case find (\<lambda>p. pr_record_id p = pid) (q_preds q) of
        None \<Rightarrow> Refused [''refusing to void: has no prediction row'']
      | Some p \<Rightarrow> if pr_status p \<notin> set VOIDABLE_STATUSES then Refused [''refusing to void: only an ungraded prediction may be voided'']
          else Ok (update_prediction (pr_id p)
            (\<lambda>p. p\<lparr>pr_status := ''void'', pr_note := note, pr_graded_at := JStr now\<rparr>) q))"

record grade_update =
  gu_id :: nat
  gu_status :: string
  gu_actual :: json
  gu_graded_at :: json
  gu_note :: json

definition apply_grades :: "grade_update list \<Rightarrow> queue \<Rightarrow> queue" where
  "apply_grades us q = fold (\<lambda>u. update_prediction (gu_id u)
     (\<lambda>p. p\<lparr>pr_status := gu_status u, pr_actual := gu_actual u, pr_graded_at := gu_graded_at u, pr_note := gu_note u\<rparr>)) us q"

text \<open>\<open>mark_plan_reviewed\<close>.\<close>

definition mark_plan_reviewed :: "int \<Rightarrow> queue \<Rightarrow> queue" where
  "mark_plan_reviewed tick q = set_meta ''plan:last_reviewed_tick'' (dec_int tick) q"

end
