(* ===== verification/Board.thy ===== *)
theory Board
  imports Executor
begin

section \<open>What the conductor and the grader read\<close>

text \<open>
  The read-only queries of \<open>dfqueue/store.py\<close> that decide what is done next: the rulings to open, the
  follow-ups to apply, the open projects (the work-in-progress cap), work serving the plan, legacy work,
  cleanups, predictions due. A query that reads a number out of an id can be refused
  (\<open>_num\<close>); \<open>collect\<close> is its loop.
\<close>

fun collect :: "('a \<Rightarrow> 'b option outcome) \<Rightarrow> 'a list \<Rightarrow> 'b list outcome" where
  "collect f [] = Ok []"
| "collect f (x # xs) = obind (f x) (\<lambda>b. obind (collect f xs) (\<lambda>bs.
     Ok (case b of None \<Rightarrow> bs | Some y \<Rightarrow> y # bs)))"

lemma collect_Ok_set:
  assumes "collect f xs = Ok ys"
  shows "y \<in> set ys \<longleftrightarrow> (\<exists>x \<in> set xs. f x = Ok (Some y))"
  using assms by (induction xs arbitrary: ys) (auto split: option.splits)

subsection \<open>Openable rulings, applicable follow-ups\<close>

record openable =
  op_ruling :: string
  op_proposal :: string
  op_role :: json

definition openable_ruling :: "config \<Rightarrow> queue \<Rightarrow> obj \<Rightarrow> openable option outcome" where
  "openable_ruling cf q ruling = (case get_rec q (getj ruling ''proposal_id'') ''proposal'' of
      None \<Rightarrow> Ok None
    | Some p \<Rightarrow>
        let ty = getj p ''type'' in
        if getj p ''project_id'' \<noteq> JNull \<or> \<not> has p ''step'' then Ok None
        else if group_of (cf_routing cf) ty = None \<or> \<not> is_routed (cf_routing cf) ty then Ok None
        else obind (effective_cutover_num cf q (group_of (cf_routing cf) ty)) (\<lambda>cut. case cut of
            None \<Rightarrow> Ok None
          | Some c \<Rightarrow> obind (num_or_refuse (rec_id ruling)) (\<lambda>n.
              if n \<le> c then Ok None
              else if is_closed q ''ruling_id'' (getj ruling ''id'') \<or> find_project_for_ruling q (getj ruling ''id'') \<noteq> None
              then Ok None
              else Ok (Some \<lparr>op_ruling = rec_id ruling, op_proposal = rec_id p, op_role = getj p ''role''\<rparr>))))"

definition openable_rulings :: "config \<Rightarrow> queue \<Rightarrow> openable list outcome" where
  "openable_rulings cf q = collect (openable_ruling cf q) (filter accepts (of_kind q ''ruling''))"

definition applicable_followup :: "queue \<Rightarrow> obj \<Rightarrow> (string \<times> string) option" where
  "applicable_followup q p = (case get_rec q (getj p ''project_id'') ''project'' of
      None \<Rightarrow> None
    | Some project \<Rightarrow>
        let pid = getj p ''id''; prid = getj project ''id''; steps = current_steps q project in
        if \<not> has p ''step'' then None
        else if getj p ''covered_by'' = JNull \<and> accepting_ruling q pid = None then None
        else if is_closed q ''project_id'' prid \<or> is_abandoned q prid then None
        else if is_closed q ''proposal_id'' pid then None
        else if \<not> is_step_id steps (getj p ''after_step'') then None
        else if list_ex (\<lambda>s. getj (fields_of s) ''proposal_id'' = pid) steps then None
        else Some (rec_id p, rec_id project))"

definition applicable_followups :: "queue \<Rightarrow> (string \<times> string) list" where
  "applicable_followups q = keys_by (applicable_followup q)
     (filter (\<lambda>p. getj p ''project_id'' \<noteq> JNull) (of_kind q ''proposal''))"

subsection \<open>Open projects and the work they carry\<close>

record open_entry =
  oj_project :: string
  oj_ruling :: json
  oj_group :: "string option"
  oj_role :: json
  oj_urgency :: json
  oj_status :: string
  oj_steps_open :: bool
  oj_phases_remaining :: nat

definition phases_declared :: "obj \<Rightarrow> nat" where
  "phases_declared p = length (items_of (getj (fields_of (getj p ''phases'')) ''list''))"

definition open_project :: "config \<Rightarrow> queue \<Rightarrow> obj \<Rightarrow> open_entry option outcome" where
  "open_project cf q project =
     (let prid = getj project ''id''; rid = getj project ''from_ruling'';
          p = (case proposal_of_ruling q rid of None \<Rightarrow> [] | Some p \<Rightarrow> p);
          g = group_of (cf_routing cf) (getj p ''type'') in
      if is_closed q ''project_id'' prid \<or> is_abandoned q prid then Ok None else
      obind (effective_cutover_num cf q g) (\<lambda>cut.
      obind (case cut of None \<Rightarrow> Ok True | Some c \<Rightarrow> obind (num_or_refuse (str_of rid)) (\<lambda>n. Ok (n > c))) (\<lambda>above.
        let st = status_of q project;
            remaining = phases_declared p - (length (current_steps q project) - 1) in
        Ok (if \<not> above \<or> st = ''done'' \<and> remaining = 0 then None else
          Some \<lparr>oj_project = rec_id project, oj_ruling = rid, oj_group = g, oj_role = getj p ''role'',
            oj_urgency = (if truthy (getj project ''urgency'') then getj project ''urgency'' else JStr ''normal''),
            oj_status = st, oj_steps_open = (st \<noteq> ''done''), oj_phases_remaining = remaining\<rparr>))))"

definition open_projects :: "config \<Rightarrow> queue \<Rightarrow> open_entry list outcome" where
  "open_projects cf q = collect (open_project cf q) (of_kind q ''project'')"

record step_call =
  sc_proposal :: string
  sc_project :: json
  sc_tool :: json
  sc_args :: json
  sc_status :: string

definition open_step_calls :: "queue \<Rightarrow> string list \<Rightarrow> step_call list" where
  "open_step_calls q tools = map (\<lambda>p. let step = fields_of (getj p ''step'') in
      \<lparr>sc_proposal = rec_id p, sc_project = getj p ''project_id'', sc_tool = getj step ''tool'',
        sc_args = (if truthy (getj step ''args'') then getj step ''args'' else JObj []),
        sc_status = fi_status (filing_row q p)\<rparr>)
     (filter (\<lambda>p. in_strs (getj (fields_of (getj p ''step'')) ''tool'') (filter (\<lambda>t. t \<noteq> []) tools) \<and>
        fi_status (filing_row q p) \<in> set LIVE_FILING_STATUSES) (by_ts (of_kind q ''proposal'')))"

definition serving_state :: "queue \<Rightarrow> string list \<Rightarrow> obj \<Rightarrow> string option" where
  "serving_state q open_ids p =
     (let pid = getj p ''id'' in
      if getj p ''project_id'' \<noteq> JNull \<or> is_closed q ''proposal_id'' pid then None
      else if \<not> has_final_ruling q pid then Some ''pending''
      else (case accepting_ruling q pid of
          None \<Rightarrow> None
        | Some rl \<Rightarrow> if is_closed q ''ruling_id'' (getj rl ''id'') then None
            else (case find_project_for_ruling q (getj rl ''id'') of
                None \<Rightarrow> Some ''accepted''
              | Some pr \<Rightarrow> if rec_id pr \<in> set open_ids then Some ''building'' else None)))"

text \<open>\<open>serving_work\<close>, as the list of target id, proposal and state the code groups by target id.\<close>

definition serving_work :: "config \<Rightarrow> queue \<Rightarrow> (string \<times> string \<times> string) list outcome" where
  "serving_work cf q = obind (open_projects cf q) (\<lambda>os. Ok (concat (map (\<lambda>p.
     case serving_state q (map oj_project os) p of None \<Rightarrow> []
     | Some st \<Rightarrow> map (\<lambda>t. (str_of t, rec_id p, st)) (items_of (getj p ''serves'')))
     (filter (\<lambda>p. getj p ''serves'' \<noteq> JNull) (of_kind q ''proposal'')))))"

definition current_plan_steps :: "queue \<Rightarrow> string \<Rightarrow> json list" where
  "current_plan_steps q prid = (case get_rec q (JStr prid) ''project'' of None \<Rightarrow> []
     | Some project \<Rightarrow> current_steps q project)"

definition issued_step_ids :: "queue \<Rightarrow> string \<Rightarrow> string list" where
  "issued_step_ids q prid = rev (remdups (rev (map tg_step
     (filter (\<lambda>t. tg_state t = ''issued'') (target_states q (JStr prid))))))"

subsection \<open>Cleanups\<close>

definition projects_awaiting_cleanup :: "config \<Rightarrow> queue \<Rightarrow> (string \<times> json list) list" where
  "projects_awaiting_cleanup cf q = map (\<lambda>a. (str_of (getj a ''project_id''), issued_handles q (str_of (getj a ''project_id''))))
     (filter (\<lambda>a. \<not> is_closed q ''project_id'' (getj a ''project_id'') \<and>
        is_routed (cf_routing cf) (proposal_type_of_project q (getj a ''project_id''))) (of_kind q ''abandon''))"

subsection \<open>Legacy work\<close>

definition highest_ruling :: "queue \<Rightarrow> string option outcome" where
  "highest_ruling q = fold (\<lambda>r acc. obind acc (\<lambda>b. obind (num_or_refuse (rec_id r)) (\<lambda>n. case b of
       None \<Rightarrow> Ok (Some (rec_id r))
     | Some h \<Rightarrow> obind (num_or_refuse h) (\<lambda>m. Ok (Some (if n > m then rec_id r else h))))))
     (of_kind q ''ruling'') (Ok None)"

definition legacy_bound :: "queue \<Rightarrow> string \<Rightarrow> int outcome" where
  "legacy_bound q g = (case cutover q g of
      Some c \<Rightarrow> num_or_refuse c
    | None \<Rightarrow> obind (highest_ruling q) (\<lambda>h. case h of None \<Rightarrow> Ok 0 | Some i \<Rightarrow> num_or_refuse i))"

record legacy_target =
  lt_kind :: string
  lt_id :: string
  lt_group :: string
  lt_proposal :: json
  lt_executed :: bool

definition legacy_ruling :: "config \<Rightarrow> queue \<Rightarrow> string \<Rightarrow> int \<Rightarrow> obj \<Rightarrow> legacy_target option outcome" where
  "legacy_ruling cf q g bound ruling =
     (if \<not> accepts ruling then Ok None else obind (num_or_refuse (rec_id ruling)) (\<lambda>n.
        let rid = getj ruling ''id''; p = (case get_rec q (getj ruling ''proposal_id'') ''proposal'' of None \<Rightarrow> [] | Some p \<Rightarrow> p);
            own = group_of (cf_routing cf) (getj p ''type'') in
        Ok (if n > bound \<or> g \<noteq> LEGACY_GROUP \<and> own \<noteq> Some g \<or> is_closed q ''ruling_id'' rid then None
          else Some \<lparr>lt_kind = ''ruling'', lt_id = rec_id ruling,
            lt_group = (case own of None \<Rightarrow> LEGACY_GROUP | Some o' \<Rightarrow> o'), lt_proposal = getj p ''id'',
            lt_executed = executed_exists q rid\<rparr>)))"

definition legacy_project :: "config \<Rightarrow> queue \<Rightarrow> string \<Rightarrow> int \<Rightarrow> obj \<Rightarrow> legacy_target option outcome" where
  "legacy_project cf q g bound project =
     (let rid = getj project ''from_ruling''; ro = cf_roster cf in
      if getj project ''role'' = JStr (executor ro) \<and> executor ro \<noteq> sole_writer ro then Ok None
      else obind (num_or_refuse (str_of rid)) (\<lambda>n.
        let p = (case proposal_of_ruling q rid of None \<Rightarrow> [] | Some p \<Rightarrow> p) in
        Ok (if n > bound \<or> group_of (cf_routing cf) (getj p ''type'') \<noteq> Some g
              \<or> is_closed q ''project_id'' (getj project ''id'') \<or> is_abandoned q (getj project ''id'')
              \<or> status_of q project = ''done'' then None
          else Some \<lparr>lt_kind = ''project'', lt_id = rec_id project, lt_group = g, lt_proposal = getj p ''id'',
            lt_executed = executed_exists q rid\<rparr>)))"

definition legacy_proposal :: "config \<Rightarrow> queue \<Rightarrow> string \<Rightarrow> obj \<Rightarrow> legacy_target option outcome" where
  "legacy_proposal cf q g p = Ok (if group_of (cf_routing cf) (getj p ''type'') \<noteq> Some g \<or> has p ''step''
       \<or> has_final_ruling q (getj p ''id'') \<or> is_closed q ''proposal_id'' (getj p ''id'') then None
     else Some \<lparr>lt_kind = ''proposal'', lt_id = rec_id p, lt_group = g, lt_proposal = getj p ''id'', lt_executed = False\<rparr>)"

definition legacy_targets :: "config \<Rightarrow> queue \<Rightarrow> string \<Rightarrow> legacy_target list outcome" where
  "legacy_targets cf q g =
     (if \<not> known_group cf g then Refused [''no such routing group''] else
      obind (legacy_bound q g) (\<lambda>bound.
      obind (collect (legacy_ruling cf q g bound) (of_kind q ''ruling'')) (\<lambda>rs.
        if g = LEGACY_GROUP then Ok rs else
        obind (collect (legacy_project cf q g bound) (of_kind q ''project'')) (\<lambda>ps.
        obind (collect (legacy_proposal cf q g) (of_kind q ''proposal'')) (\<lambda>ss. Ok (rs @ ps @ ss))))))"

subsection \<open>Plan reads\<close>

definition plan_version :: "queue \<Rightarrow> int \<Rightarrow> obj option" where
  "plan_version q v = find (\<lambda>p. getj p ''version'' = JInt v) (of_kind q ''fort_plan'')"

definition plan_history :: "queue \<Rightarrow> nat \<Rightarrow> obj list" where
  "plan_history q n = take n (rev (of_kind q ''fort_plan''))"

definition plan_changes_awaiting :: "queue \<Rightarrow> (obj \<times> string) list" where
  "plan_changes_awaiting q = concat (map (\<lambda>p. map (\<lambda>rl. (p, rec_id rl))
     (filter (\<lambda>rl. accepts rl \<and> \<not> exists_naming q ''fort_plan'' ''ruling_id'' (getj rl ''id'')
        \<and> \<not> is_closed q ''ruling_id'' (getj rl ''id'')) (rulings_on q (getj p ''id''))))
     (naming q ''proposal'' ''type'' (JStr ''plan_change'')))"

definition plan_last_pass_tick :: "queue \<Rightarrow> int option" where
  "plan_last_pass_tick q = Option.bind (map_of (q_meta q) ''plan:last_reviewed_tick'') parse_int"

definition plan_last_reviewed_tick :: "queue \<Rightarrow> int option" where
  "plan_last_reviewed_tick q = max_opt (plan_last_pass_tick q)
     (map_option (\<lambda>a. int_of (getj a ''cycle'')) (active_plan q))"

subsection \<open>Predictions due\<close>

definition pending_due :: "queue \<Rightarrow> int \<Rightarrow> prediction list" where
  "pending_due q tick = sort_key pr_due (filter (\<lambda>p. pr_status p = ''pending'' \<and> pr_due p \<le> tick) (q_preds q))"

definition proposer_of :: "queue \<Rightarrow> prediction \<Rightarrow> json" where
  "proposer_of q p = (case find (\<lambda>r. getj r ''id'' = JStr (pr_record_id p)) (q_records q) of
     None \<Rightarrow> JNull | Some r \<Rightarrow> getj r ''role'')"

end
