(* ===== verification/Grading.thy ===== *)
theory Grading
  imports Board
begin

section \<open>Grading predictions\<close>

text \<open>
  \<open>dfqueue/grade.py\<close> and the predicate of \<open>learning/predictions/grade.py\<close>. A prediction that is
  pending and due is read through its live signal (\<open>call\<close> is the tool interface, \<open>pr\<close> prints what
  Python's \<open>str\<close> prints of a float or a container) and compared. \<open>None\<close> is an exception: the
  batch is abandoned and nothing is written.
\<close>

subsection \<open>The predicate\<close>

definition comparable :: "json \<Rightarrow> json \<Rightarrow> bool" where
  "comparable a b = (num_of a \<noteq> None \<and> num_of b \<noteq> None \<or> is_str a \<and> is_str b \<or> is_arr a \<and> is_arr b)"

text \<open>\<open>a < b\<close>: numbers by value, strings and lists in dictionary order, anything else raises.\<close>

function py_lt :: "json \<Rightarrow> json \<Rightarrow> bool option" where
  "py_lt a b = (case (a, b) of
      (JStr s, JStr t) \<Rightarrow> Some (s < t)
    | (JArr (x # xs), JArr (y # ys)) \<Rightarrow> if py_eq x y then py_lt (JArr xs) (JArr ys) else py_lt x y
    | (JArr [], JArr ys) \<Rightarrow> Some (ys \<noteq> [])
    | (JArr _, JArr []) \<Rightarrow> Some False
    | _ \<Rightarrow> (case (num_of a, num_of b) of (Some x, Some y) \<Rightarrow> Some (x < y) | _ \<Rightarrow> None))"
  by pat_completeness auto
termination
  by (relation "measure (\<lambda>(a, b). size a)") auto

definition py_le :: "json \<Rightarrow> json \<Rightarrow> bool option" where
  "py_le a b = (if comparable a b \<and> py_eq a b then Some True else py_lt a b)"

definition sub_text :: "string \<Rightarrow> string \<Rightarrow> bool" where
  "sub_text s t = list_ex (\<lambda>i. starts_with (drop i t) s) [0..<length t + 1]"

text \<open>\<open>a in b\<close>.\<close>

definition py_in :: "json \<Rightarrow> json \<Rightarrow> bool option" where
  "py_in a b = (case b of
      JArr xs \<Rightarrow> Some (list_ex (py_eq a) xs)
    | JStr t \<Rightarrow> (case a of JStr s \<Rightarrow> Some (sub_text s t) | _ \<Rightarrow> None)
    | JObj r \<Rightarrow> if hashable a then Some (list_ex (\<lambda>(k, v). JStr k = a) r) else None
    | _ \<Rightarrow> None)"

definition apply_predicate :: "string \<Rightarrow> json \<Rightarrow> json \<Rightarrow> bool option" where
  "apply_predicate op actual target =
     (if op = ''eq'' then Some (py_eq actual target)
      else if op = ''ne'' then Some (\<not> py_eq actual target)
      else if op = ''gte'' then py_le target actual
      else if op = ''lte'' then py_le actual target
      else if op = ''gt'' then py_lt target actual
      else if op = ''lt'' then py_lt actual target
      else if op = ''in'' then py_in actual target
      else if op = ''contains'' then py_in target actual
      else None)"

subsection \<open>The game tick\<close>

text \<open>\<open>re.search(r"year (-?\d+)", date)\<close>.\<close>

definition digits_prefix :: "string \<Rightarrow> int option" where
  "digits_prefix s =
     (let neg = starts_with s ''-''; ds = takeWhile digit_char (if neg then tl s else s) in
      map_option (\<lambda>n. if neg then - int n else int n) (digits_value 0 False ds))"

fun search_number :: "string \<Rightarrow> string \<Rightarrow> int option" where
  "search_number w [] = None"
| "search_number w (c # cs) =
     (case (if starts_with (c # cs) w then digits_prefix (drop (length w) (c # cs)) else None) of
        Some n \<Rightarrow> Some n | None \<Rightarrow> search_number w cs)"

definition GAME_TICKS_PER_YEAR :: int where "GAME_TICKS_PER_YEAR = 403200"

definition game_tick_of_date :: "string \<Rightarrow> int option" where
  "game_tick_of_date date = do {
     year \<leftarrow> search_number ''year '' date;
     tick \<leftarrow> search_number ''tick '' date;
     Some (year * GAME_TICKS_PER_YEAR + tick)
   }"

definition game_tick_from_overview :: "json \<Rightarrow> int option" where
  "game_tick_from_overview overview = do {
     t \<leftarrow> subscript overview ''tier2'';
     date \<leftarrow> subscript t ''in_game_date'';
     (case date of JStr s \<Rightarrow> game_tick_of_date s | _ \<Rightarrow> None)
   }"

subsection \<open>Grading\<close>

type_synonym tool_call = "string \<Rightarrow> obj \<Rightarrow> json"

definition grade_one :: "(json \<Rightarrow> string) \<Rightarrow> tool_call \<Rightarrow> string \<Rightarrow> prediction \<Rightarrow> grade_update option" where
  "grade_one pr call graded_at p =
     (let upd = (\<lambda>st v note. \<lparr>gu_id = pr_id p, gu_status = st, gu_actual = v, gu_graded_at = JStr graded_at, gu_note = JStr note\<rparr>) in
      case parse_signal (pr_signal p) of
        None \<Rightarrow> Some (upd ''unresolvable'' JNull ''signal no longer parses'')
      | Some s \<Rightarrow> (case read_signal pr s call of
          SigRaised \<Rightarrow> None
        | Unresolvable \<Rightarrow> Some (upd ''unresolvable'' JNull ''signal not (yet) resolvable: the landmark or exit it names does not exist'')
        | SigValue v \<Rightarrow>
            if in_strs (pr_op p) PRESENCE_OPS
            then Some (upd (if pr_op p = JStr ''exists'' then ''graded_true'' else ''graded_false'') v [])
            else map_option (\<lambda>ok. upd (if ok then ''graded_true'' else ''graded_false'') v [])
              (apply_predicate (str_of (pr_op p)) v (pr_value p))))"

definition grade_due :: "(json \<Rightarrow> string) \<Rightarrow> tool_call \<Rightarrow> string \<Rightarrow> queue \<Rightarrow> int \<Rightarrow> (grade_update list \<times> queue) option" where
  "grade_due pr call graded_at q tick = do {
     us \<leftarrow> those (map (grade_one pr call graded_at) (pending_due q tick));
     Some (us, apply_grades us q)
   }"

record grading_report =
  gr_tick :: int
  gr_graded :: "grade_update list"
  gr_unexecuted :: "(obj \<times> string) list"

definition run_grading_cycle :: "config \<Rightarrow> (json \<Rightarrow> string) \<Rightarrow> tool_call \<Rightarrow> string \<Rightarrow> queue \<Rightarrow> (grading_report \<times> queue) option" where
  "run_grading_cycle cf pr call graded_at q = do {
     tick \<leftarrow> game_tick_from_overview (call ''overview.get'' []);
     (us, q') \<leftarrow> grade_due pr call graded_at q tick;
     Some (\<lparr>gr_tick = tick, gr_graded = us, gr_unexecuted = unexecuted_accepted_proposals cf q'\<rparr>, q')
   }"

subsection \<open>Lemmas\<close>

definition FINAL_STATUSES :: "string list" where
  "FINAL_STATUSES = [''graded_true'', ''graded_false'', ''unresolvable'', ''void'']"

lemma grade_one_status:
  assumes "grade_one pr call t p = Some u"
  shows "gu_id u = pr_id p \<and> gu_status u \<in> set [''graded_true'', ''graded_false'', ''unresolvable'']"
  using assms by (auto simp: grade_one_def Let_def split: option.splits signal_read.splits if_splits)

lemma in_on_scalar: "is_int v \<or> is_bool v \<Longrightarrow> py_in a v = None"
  by (cases v) (auto simp: py_in_def is_int_def is_bool_def)

lemma py_le_num: "num_of a = Some x \<Longrightarrow> num_of b = Some y \<Longrightarrow> py_le a b = Some (x \<le> y)"
  by (cases a; cases b) (auto simp: py_le_def comparable_def num_of_def is_str_def is_arr_def py_lt.simps split: json.splits if_splits)

lemma those_None: "x \<in> set xs \<Longrightarrow> x = None \<Longrightarrow> those xs = None"
  by (induction xs) (auto split: option.splits)

lemma those_Some: "those xs = Some ys \<Longrightarrow> xs = map Some ys"
  by (induction xs arbitrary: ys) (auto split: option.splits)

end
