(* ===== verification/Logs.thy ===== *)
theory Logs
  imports Prelude
begin

section \<open>Interfaces: append-only logs, keyed tables, life cycles\<close>

text \<open>
  The contracts the queue's invariants are proved against, independent of the queue.

  \<^item> \<open>guarded_log\<close>: a transition system with a log that every step leaves alone or extends by one
    admitted entry. Its client lemmas: the log is append-only, a property of the log that every admitted
    entry preserves is an invariant, a key no admitted entry repeats stays
    unique, and a property that holds of an entry when it is admitted, and survives extension, holds of
    every entry.
  \<^item> \<open>keyed_table\<close>: rows with a key and a write that keeps one row per key.
  \<^item> \<open>lifecycle\<close>: rows whose status only moves along allowed edges; a status with no outgoing edge
    is final.
\<close>

subsection \<open>Guarded logs\<close>

locale guarded_log =
  fixes log :: "'s \<Rightarrow> 'r list"
    and step :: "'s \<Rightarrow> 's \<Rightarrow> bool"
    and admits :: "'s \<Rightarrow> 'r \<Rightarrow> bool"
  assumes step_log: "step s s' \<Longrightarrow> log s' = log s \<or> (\<exists>r. admits s r \<and> log s' = log s @ [r])"
begin

lemma log_append_only:
  assumes "step\<^sup>*\<^sup>* s s'"
  shows "\<exists>new. log s' = log s @ new"
  using assms
proof induction
  case (step t u)
  with step_log [of t u] show ?case by auto
qed simp

lemma log_invariant:
  assumes "step\<^sup>*\<^sup>* s s'" and "P (log s)"
    and admitted: "\<And>t r. admits t r \<Longrightarrow> P (log t) \<Longrightarrow> P (log t @ [r])"
  shows "P (log s')"
  using assms(1,2)
proof induction
  case (step t u)
  from step_log [OF step.hyps(2)] show ?case
  proof
    assume "\<exists>r. admits t r \<and> log u = log t @ [r]"
    then obtain r where r: "admits t r" "log u = log t @ [r]" by blast
    have "P (log t)" using step by simp
    with admitted [OF r(1)] show ?thesis by (simp add: r(2))
  qed (use step in simp)
qed simp

lemma keys_distinct:
  assumes fresh: "\<And>t r k. admits t r \<Longrightarrow> sel r = Some k \<Longrightarrow> k \<notin> set (keys_by sel (log t))"
    and "step\<^sup>*\<^sup>* s s'" and "distinct (keys_by sel (log s))"
  shows "distinct (keys_by sel (log s'))"
  using assms(2,3)
proof induction
  case (step t u)
  from step_log [OF step.hyps(2)] show ?case
  proof
    assume "\<exists>r. admits t r \<and> log u = log t @ [r]"
    then obtain r where r: "admits t r" "log u = log t @ [r]" by blast
    with step fresh [OF r(1)] show ?thesis by (simp only: distinct_keys_by_snoc r(2)) simp
  qed (use step in simp)
qed simp

lemma entries_satisfy:
  assumes admitted: "\<And>t r. admits t r \<Longrightarrow> (\<forall>x \<in> set (log t). P (log t) x) \<Longrightarrow> P (log t @ [r]) r"
    and grows: "\<And>xs r x. P xs x \<Longrightarrow> P (xs @ [r]) x"
    and "step\<^sup>*\<^sup>* s s'" and "\<forall>x \<in> set (log s). P (log s) x"
  shows "\<forall>x \<in> set (log s'). P (log s') x"
  using assms(3,4)
proof induction
  case (step t u)
  from step_log [OF step.hyps(2)] show ?case
  proof
    assume "\<exists>r. admits t r \<and> log u = log t @ [r]"
    then obtain r where r: "admits t r" "log u = log t @ [r]" by blast
    have "\<forall>x \<in> set (log t). P (log t) x" using step by simp
    with admitted [OF r(1)] grows show ?thesis by (auto simp: r(2))
  qed (use step in simp)
qed simp

end

subsection \<open>Keyed tables\<close>

locale keyed_table =
  fixes key :: "'r \<Rightarrow> 'k"
    and put :: "'r \<Rightarrow> 'r list \<Rightarrow> 'r list"
  assumes put_keys: "distinct (map key rs) \<Longrightarrow> distinct (map key (put r rs))"
    and put_has: "key r \<in> key ` set (put r rs)"
    and put_other: "key x \<noteq> key r \<Longrightarrow> x \<in> set (put r rs) \<longleftrightarrow> x \<in> set rs"
    and put_keeps: "key ` set rs \<subseteq> key ` set (put r rs)"
begin

lemma fold_put_keys: "distinct (map key rs) \<Longrightarrow> distinct (map key (fold put xs rs))"
  by (induction xs arbitrary: rs) (auto intro: put_keys)

lemma fold_put_other: "key x \<notin> key ` set xs \<Longrightarrow> x \<in> set (fold put xs rs) \<longleftrightarrow> x \<in> set rs"
proof (induction xs arbitrary: rs)
  case (Cons y ys)
  have "x \<in> set (put y rs) \<longleftrightarrow> x \<in> set rs" using Cons.prems by (intro put_other) auto
  with Cons show ?case by simp
qed simp

lemma fold_put_keeps: "key ` set rs \<subseteq> key ` set (fold put xs rs)"
proof (induction xs arbitrary: rs)
  case (Cons y ys)
  have "key ` set rs \<subseteq> key ` set (put y rs)" by (rule put_keeps)
  also have "\<dots> \<subseteq> key ` set (fold put ys (put y rs))" by (rule Cons.IH)
  finally show ?case by simp
qed simp

lemma fold_put_has: "key ` set xs \<subseteq> key ` set (fold put xs rs)"
proof (induction xs arbitrary: rs)
  case (Cons y ys)
  have "key y \<in> key ` set (put y rs)" by (rule put_has)
  with fold_put_keeps [of "put y rs" ys] have "key y \<in> key ` set (fold put ys (put y rs))" by blast
  with Cons.IH [of "put y rs"] show ?case by simp
qed simp

end

text \<open>A table whose write also replaces: the row written is the one found under its key.\<close>

locale upsert_table = keyed_table +
  assumes put_in: "r \<in> set (put r rs)"
    and put_only: "x \<in> set (put r rs) \<Longrightarrow> key x = key r \<Longrightarrow> x = r"
begin

lemma last_put_wins:
  assumes "x \<in> set (fold put xs rs)" and "key x \<in> key ` set xs"
  shows "x \<in> set xs"
  using assms
proof (induction xs arbitrary: rs)
  case (Cons y ys)
  show ?case
  proof (cases "key x \<in> key ` set ys")
    case True
    with Cons.IH [of "put y rs"] Cons.prems show ?thesis by simp
  next
    case False
    with Cons.prems have "x \<in> set (put y rs)" and "key x = key y" by (auto simp: fold_put_other)
    with put_only show ?thesis by simp
  qed
qed simp

end

subsection \<open>Life cycles\<close>

locale lifecycle =
  fixes step :: "'s \<Rightarrow> 's \<Rightarrow> bool"
    and status :: "'s \<Rightarrow> 'i \<Rightarrow> 't option"
    and edge :: "'t \<Rightarrow> 't \<Rightarrow> bool"
  assumes moves: "step s s' \<Longrightarrow> status s i = Some a \<Longrightarrow> \<exists>b. status s' i = Some b \<and> (b = a \<or> edge a b)"
begin

lemma status_path:
  assumes "step\<^sup>*\<^sup>* s s'" and "status s i = Some a"
  shows "\<exists>b. status s' i = Some b \<and> edge\<^sup>*\<^sup>* a b"
  using assms
proof induction
  case (step t u)
  then obtain b where b: "status t i = Some b" "edge\<^sup>*\<^sup>* a b" by blast
  from moves [OF step.hyps(2) b(1)] obtain c where "status u i = Some c" "c = b \<or> edge b c" by blast
  with b(2) show ?case by (auto intro: rtranclp.rtrancl_into_rtrancl)
qed auto

lemma final_status:
  assumes "step\<^sup>*\<^sup>* s s'" and "status s i = Some a" and "\<And>b. \<not> edge a b"
  shows "status s' i = Some a"
proof -
  obtain b where b: "status s' i = Some b" "edge\<^sup>*\<^sup>* a b" using status_path [OF assms(1,2)] by blast
  from b(2) have "b = a" using assms(3) by (cases rule: converse_rtranclpE) auto
  with b show ?thesis by simp
qed

end

subsection \<open>Rows that only move along edges\<close>

text \<open>A list of rows grows at its end, and each row keeps its core and moves its status along an
  edge or not at all.\<close>

definition rows_move :: "('r \<Rightarrow> 'c) \<Rightarrow> ('r \<Rightarrow> 't) \<Rightarrow> ('t \<Rightarrow> 't \<Rightarrow> bool) \<Rightarrow> 'r list \<Rightarrow> 'r list \<Rightarrow> bool" where
  "rows_move core st edge xs ys \<longleftrightarrow> length xs \<le> length ys \<and>
     (\<forall>i < length xs. core (ys ! i) = core (xs ! i) \<and> (st (ys ! i) = st (xs ! i) \<or> edge (st (xs ! i)) (st (ys ! i))))"

lemma rows_move_refl [simp]: "rows_move core st edge xs xs"
  by (simp add: rows_move_def)

lemma rows_move_snoc [simp]: "rows_move core st edge xs (xs @ ys)"
  by (simp add: rows_move_def nth_append)

lemma rows_move_map:
  assumes "\<And>x. x \<in> set xs \<Longrightarrow> core (f x) = core x \<and> (st (f x) = st x \<or> edge (st x) (st (f x)))"
  shows "rows_move core st edge xs (map f xs)"
  using assms by (simp add: rows_move_def)

lemma rows_move_core:
  "rows_move core st edge xs ys \<Longrightarrow> \<exists>new. map core ys = map core xs @ new"
  by (intro exI [of _ "drop (length xs) (map core ys)"] nth_equalityI)
    (auto simp: rows_move_def nth_append)

definition status_at :: "('r \<Rightarrow> 't) \<Rightarrow> 'r list \<Rightarrow> nat \<Rightarrow> 't option" where
  "status_at st xs i = (if i < length xs then Some (st (xs ! i)) else None)"

lemma rows_move_status:
  "rows_move core st edge xs ys \<Longrightarrow> status_at st xs i = Some a \<Longrightarrow>
     \<exists>b. status_at st ys i = Some b \<and> (b = a \<or> edge a b)"
  by (auto simp: rows_move_def status_at_def split: if_splits)

text \<open>Rows numbered 1, 2, \<dots> in order, as autoincremented ids are.\<close>

definition numbered :: "('r \<Rightarrow> nat) \<Rightarrow> 'r list \<Rightarrow> bool" where
  "numbered f xs \<longleftrightarrow> map f xs = [1..<Suc (length xs)]"

lemma numbered_Nil [simp]: "numbered f []"
  by (simp add: numbered_def)

lemma numbered_snoc: "numbered f xs \<Longrightarrow> f x = length xs + 1 \<Longrightarrow> numbered f (xs @ [x])"
  by (simp add: numbered_def)

lemma numbered_cong: "map f ys = map f xs \<Longrightarrow> numbered f xs \<Longrightarrow> numbered f ys"
  by (simp add: numbered_def) (metis length_map)

lemma numbered_nth: "numbered f xs \<Longrightarrow> i < length xs \<Longrightarrow> f (xs ! i) = i + 1"
  unfolding numbered_def by (metis add.commute nth_map nth_upt plus_1_eq_Suc length_map length_upt diff_Suc_1 add_less_cancel_left)

lemma numbered_distinct: "numbered f xs \<Longrightarrow> distinct (map f xs)"
  by (simp add: numbered_def)

end
