(* ===== verification/Steps.thy ===== *)
theory Steps
  imports Grading Logs
begin

section \<open>The queue as a transition system\<close>

text \<open>
  \<open>qstep\<close> has one rule per operation of the store that writes. Every operation is made of four kinds
  of writes (\<open>mstep\<close>): a record appended through \<open>_append_in_conn\<close>, a cutover or review mark set,
  a run begun or settled, predictions graded or voided. The invariants are proved of \<open>mstep\<close>, through
  the interfaces of \<open>Logs\<close>, and hold of every queue an operation can reach.
\<close>

inductive qstep :: "config \<Rightarrow> queue \<Rightarrow> queue \<Rightarrow> bool" for cf :: config where
  q_append: "append_in_conn cf now q r t = Ok (r', q') \<Longrightarrow> qstep cf q q'"
| q_cutover: "set_cutover cf q g rid = Ok q' \<Longrightarrow> qstep cf q q'"
| q_open: "open_project_from_ruling cf now q rid urgency tick snapshot = Ok (r, q') \<Longrightarrow> qstep cf q q'"
| q_direct: "file_direct_action cf now q p r t = Ok (w, q') \<Longrightarrow> qstep cf q q'"
| q_followup: "apply_followup cf now q pid tick snapshot = Ok (r, q') \<Longrightarrow> qstep cf q q'"
| q_begin: "begin_step_run cf now q prid sid t baseline = Ok (i, q') \<Longrightarrow> qstep cf q q'"
| q_finish: "finish_step_run cf now q i executed handle = Ok (w, q') \<Longrightarrow> qstep cf q q'"
| q_resolve: "resolve_step_run cf now q i out handle tick notes = Ok (w, q') \<Longrightarrow> qstep cf q q'"
| q_observe: "record_observation cf now q prid sid t d detail snapshot = Ok (r, q') \<Longrightarrow> qstep cf q q'"
| q_close: "close_target cf now q target out reason cleanup tick snapshot = Ok (r, q') \<Longrightarrow> qstep cf q q'"
| q_legacy: "close_legacy cf now q target reason tick snapshot = Ok (r, q') \<Longrightarrow> qstep cf q q'"
| q_grade: "grade_due pr call now q t = Some (us, q') \<Longrightarrow> qstep cf q q'"
| q_void: "void_prediction now q pid note = Ok q' \<Longrightarrow> qstep cf q q'"
| q_reviewed: "qstep cf q (mark_plan_reviewed t q)"

inductive_cases qstepE: "qstep cf q q'"

definition reachable :: "config \<Rightarrow> queue \<Rightarrow> bool" where
  "reachable cf q \<longleftrightarrow> (qstep cf)\<^sup>*\<^sup>* empty_queue q"

subsection \<open>The four kinds of writes\<close>

definition pred_core :: "prediction \<Rightarrow> nat \<times> string \<times> json \<times> json \<times> json \<times> int \<times> int" where
  "pred_core p = (pr_id p, pr_record_id p, pr_signal p, pr_op p, pr_value p, pr_registered p, pr_after p)"

definition pred_edge :: "string \<Rightarrow> string \<Rightarrow> bool" where
  "pred_edge a b = (a = ''awaiting_execution'' \<and> b \<in> set [''pending'', ''void''] \<or>
     a = ''pending'' \<and> b \<in> set FINAL_STATUSES)"

abbreviation preds_move :: "prediction list \<Rightarrow> prediction list \<Rightarrow> bool" where
  "preds_move \<equiv> rows_move pred_core pr_status pred_edge"

definition run_core :: "run_row \<Rightarrow> nat \<times> string \<times> string \<times> int \<times> json" where
  "run_core r = (rn_id r, rn_project r, rn_step r, rn_tick r, rn_baseline r)"

definition run_edge :: "string \<Rightarrow> string \<Rightarrow> bool" where
  "run_edge a b = (a = ''issuing'' \<and> b \<in> set [''recorded'', ''resolved'', ''void'', ''held''])"

abbreviation runs_move :: "run_row list \<Rightarrow> run_row list \<Rightarrow> bool" where
  "runs_move \<equiv> rows_move run_core rn_status run_edge"

definition cutover_at :: "queue \<Rightarrow> string \<Rightarrow> int option" where
  "cutover_at q g = Option.bind (cutover q g) num"

definition ids_in_order :: "queue \<Rightarrow> bool" where
  "ids_in_order q \<longleftrightarrow> numbered pr_id (q_preds q) \<and> numbered rn_id (q_runs q)"

inductive mstep :: "config \<Rightarrow> queue \<Rightarrow> queue \<Rightarrow> bool" for cf :: config where
  m_append: "append_plain cf now q r t = Ok (r', q') \<Longrightarrow> mstep cf q q'"
| m_meta: "(\<And>g n. cutover_at q g = Some n \<Longrightarrow> \<exists>m \<ge> n. cutover_at (q\<lparr>q_meta := ms\<rparr>) g = Some m) \<Longrightarrow>
     mstep cf q (q\<lparr>q_meta := ms\<rparr>)"
| m_runs: "runs_move (q_runs q) rs \<Longrightarrow> numbered rn_id rs \<Longrightarrow> mstep cf q (q\<lparr>q_runs := rs\<rparr>)"
| m_preds: "preds_move (q_preds q) ps \<Longrightarrow> length ps = length (q_preds q) \<Longrightarrow> mstep cf q (q\<lparr>q_preds := ps\<rparr>)"

inductive_cases mstepE: "mstep cf q q'"

subsection \<open>What a record's write changes\<close>

lemma arm_first_move: "preds_move ps (arm_first pid tick ps) \<and> length (arm_first pid tick ps) = length ps"
proof (induction ps)
  case (Cons p ps)
  then show ?case
    by (auto simp: rows_move_def nth_Cons awaiting_def pred_core_def pred_edge_def split: nat.splits)
qed simp

lemma arm_prediction_simps [simp]:
  "q_records (arm_prediction i t q) = q_records q" "q_targets (arm_prediction i t q) = q_targets q"
  "q_meta (arm_prediction i t q) = q_meta q" "q_runs (arm_prediction i t q) = q_runs q"
  by (simp_all add: arm_prediction_def)

lemma write_effects_frame:
  "q_records (write_effects r t q) = q_records q \<and> q_meta (write_effects r t q) = q_meta q \<and>
   q_runs (write_effects r t q) = q_runs q"
  by (auto simp: write_effects_def insert_prediction_def apply_executed_target_states_def
      arm_on_first_execution_def seed_step_targets_def apply_observation_def Let_def split: option.splits)

lemma commit_record_frame [simp]:
  "q_records (commit_record r t q) = q_records q @ [r]"
  "q_meta (commit_record r t q) = q_meta q" "q_runs (commit_record r t q) = q_runs q"
  using write_effects_frame [of r t "insert_record r q"] by (simp_all add: commit_record_def insert_record_def)

lemma arm_moves: "preds_move (q_preds q) (q_preds (arm_prediction i t q))"
  using arm_first_move by (simp add: arm_prediction_def)

lemma arm_on_first_moves: "preds_move (q_preds q) (q_preds (arm_on_first_execution r q))"
  using arm_moves by (auto simp: arm_on_first_execution_def Let_def split: option.splits)

lemma executed_preds [simp]: "q_preds (apply_executed_target_states r q) = q_preds q"
  by (auto simp: apply_executed_target_states_def split: option.splits)

lemma commit_preds_move: "preds_move (q_preds q) (q_preds (commit_record r t q))"
proof -
  have o: "preds_move (q_preds q) (q_preds (apply_observation r q))" for q
    using arm_moves [of "q\<lparr>q_targets := ts\<rparr>" for ts]
    by (auto simp: apply_observation_def Let_def split: option.splits)
  have e: "preds_move (q_preds q) (q_preds (arm_on_first_execution r (insert_record r q)))"
    using arm_on_first_moves [of "insert_record r q"] by (simp add: insert_record_def)
  show ?thesis
    using e o [of "insert_record r q"]
    by (auto simp: commit_record_def write_effects_def insert_prediction_def insert_record_def
        seed_step_targets_def Let_def)
qed

lemma arm_first_ids: "map pr_id (arm_first pid t ps) = map pr_id ps"
  by (induction ps) auto

lemma arm_on_first_ids: "map pr_id (q_preds (arm_on_first_execution r q)) = map pr_id (q_preds q)"
  by (auto simp: arm_on_first_execution_def arm_prediction_def arm_first_ids Let_def split: option.splits)

lemma commit_ids:
  assumes "numbered pr_id (q_preds q)"
  shows "numbered pr_id (q_preds (commit_record r t q))"
proof -
  have len: "map pr_id ps = map pr_id (q_preds q) \<Longrightarrow> numbered pr_id ps" for ps :: "prediction list"
    by (erule numbered_cong) (rule assms)
  have o: "map pr_id (q_preds (apply_observation r (insert_record r q))) = map pr_id (q_preds q)"
    by (auto simp: apply_observation_def arm_prediction_def arm_first_ids insert_record_def Let_def split: option.splits)
  have e: "map pr_id (q_preds (arm_on_first_execution r (insert_record r q))) = map pr_id (q_preds q)"
    by (simp add: arm_on_first_ids insert_record_def)
  have p: "numbered pr_id (q_preds (insert_prediction r i (insert_record r q)))" for i
    using assms by (simp add: insert_prediction_def insert_record_def Let_def numbered_snoc)
  consider "is_kind ''proposal'' r" | "\<not> is_kind ''proposal'' r" "is_kind ''observation'' r"
    | "\<not> is_kind ''proposal'' r" "is_kind ''executed'' r"
    | "\<not> is_kind ''proposal'' r" "\<not> is_kind ''observation'' r" "\<not> is_kind ''executed'' r" by blast
  then show ?thesis
  proof cases
    case 1
    then show ?thesis using p by (simp add: commit_record_def write_effects_def)
  next
    case 2
    then have "commit_record r t q = apply_observation r (insert_record r q)"
      by (simp add: commit_record_def write_effects_def is_kind_def)
    then show ?thesis using len [OF o] by simp
  next
    case 3
    then have "map pr_id (q_preds (commit_record r t q)) = map pr_id (q_preds q)"
      using e by (simp add: commit_record_def write_effects_def insert_record_def)
    then show ?thesis by (rule len)
  next
    case 4
    then have "q_preds (commit_record r t q) = q_preds q"
      by (simp add: commit_record_def write_effects_def insert_record_def seed_step_targets_def)
    then show ?thesis using assms by simp
  qed
qed

lemma append_plain_commit:
  assumes "append_plain cf now q r t = Ok (r', q')"
  shows "q' = commit_record r' t q"
  using assms by (auto simp: append_plain_Ok)

lemma mstep_preds: "mstep cf q q' \<Longrightarrow> preds_move (q_preds q) (q_preds q')"
  by (erule mstepE) (auto dest!: append_plain_commit intro: commit_preds_move)

lemma mstep_runs: "mstep cf q q' \<Longrightarrow> runs_move (q_runs q) (q_runs q')"
  by (erule mstepE) (auto dest!: append_plain_commit)

lemma mstep_cutover:
  assumes "mstep cf q q'" and "cutover_at q g = Some n"
  shows "\<exists>m. cutover_at q' g = Some m \<and> (m = n \<or> n < m)"
  using assms
proof cases
  case (m_meta ms)
  from m_meta(2) [OF assms(2)] show ?thesis unfolding m_meta(1) by (auto simp: order.order_iff_strict)
qed (auto dest!: append_plain_commit simp: cutover_at_def cutover_def)

lemma mstep_ids:
  assumes "mstep cf q q'" and "ids_in_order q"
  shows "ids_in_order q'"
  using assms
proof cases
  case (m_append now r t r')
  then show ?thesis using assms(2) commit_ids by (auto dest!: append_plain_commit simp: ids_in_order_def)
next
  case (m_preds ps)
  from rows_move_core [OF m_preds(2)] m_preds(3) have "map pred_core ps = map pred_core (q_preds q)"
    by (metis append_eq_conv_conj append_Nil2 length_map take_all_iff order_refl)
  then have "map (fst \<circ> pred_core) ps = map (fst \<circ> pred_core) (q_preds q)" by (metis map_map)
  then have "map pr_id ps = map pr_id (q_preds q)" by (simp add: pred_core_def o_def)
  with assms(2) show ?thesis unfolding m_preds(1) ids_in_order_def by (auto intro: numbered_cong)
qed (use assms(2) in \<open>simp_all add: ids_in_order_def\<close>)

end
