(* ===== verification/Step_Writes.thy ===== *)
theory Step_Writes
  imports Steps
begin

section \<open>Every operation is a sequence of the four writes\<close>

text \<open>
  \<open>qstep_writes\<close>: from a queue whose prediction and run ids are in order, an operation of the store
  reaches its result by \<open>mstep\<close>s. The interfaces of \<open>Logs\<close> are interpreted on \<open>mstep\<close> here:
  \<open>records\<close> (the record log), \<open>preds\<close> and \<open>runs\<close> (the two status machines), \<open>cutovers\<close>
  (a cutover only moves up) and the targets table.
\<close>

subsection \<open>Decomposition\<close>

lemma append_in_conn_writes:
  assumes "append_in_conn cf now q r t = Ok (r', q')"
  shows "(mstep cf)\<^sup>*\<^sup>* q q'"
proof -
  obtain q1 where q1: "append_plain cf now q r t = Ok (r', q1)"
    and rest: "q' = q1 \<or> (\<exists>c x. append_plain cf now q1 x JNull = Ok (c, q'))"
    by (rule append_in_conn_plain [OF assms]) blast
  from q1 have "mstep cf q q1" by (rule m_append)
  moreover from rest have "(mstep cf)\<^sup>*\<^sup>* q1 q'" by (elim disjE exE) (auto dest: m_append)
  ultimately show ?thesis by simp
qed

lemma close_in_conn_writes:
  "close_in_conn cf now q field target out reason cleanup tick snapshot = Ok (r, q') \<Longrightarrow> (mstep cf)\<^sup>*\<^sup>* q q'"
  by (auto simp: close_in_conn_def intro: m_append)

lemma map_of_update: "map_of (AList.update k v xs) k' = (if k' = k then Some v else map_of xs k')"
  by (simp add: update_conv')

lemma cutover_set_meta: "cutover (set_meta k v q) g = (if cutover_key g = k then Some v else cutover q g)"
  by (simp add: cutover_def set_meta_def map_of_update)

lemma set_cutover_writes:
  assumes "set_cutover cf q g rid = Ok q'"
  shows "mstep cf q q'"
proof -
  let ?ms = "AList.update (cutover_key g) rid (q_meta q)"
  from assms have q': "q' = q\<lparr>q_meta := ?ms\<rparr>"
    by (auto simp: set_cutover_def set_meta_def split: if_splits option.splits)
  have "\<exists>m \<ge> n. cutover_at (q\<lparr>q_meta := ?ms\<rparr>) h = Some m" if "cutover_at q h = Some n" for h n
  proof (cases "h = g")
    case True
    from that True obtain c where c: "cutover q g = Some c" "num c = Some n"
      by (auto simp: cutover_at_def split: Option.bind_splits)
    with assms obtain k where "num rid = Some k" "n \<le> k"
      by (auto simp: set_cutover_def num_or_refuse_def split: if_splits option.splits)
    then show ?thesis using True
      by (auto simp: cutover_at_def cutover_def map_of_update)
  next
    case False
    with that show ?thesis by (auto simp: cutover_at_def cutover_def map_of_update cutover_key_def)
  qed
  then show ?thesis unfolding q' by (rule m_meta)
qed

lemma mark_plan_reviewed_writes: "mstep cf q (mark_plan_reviewed t q)"
proof -
  have "cutover_at (q\<lparr>q_meta := AList.update ''plan:last_reviewed_tick'' v (q_meta q)\<rparr>) g = cutover_at q g" for v g
    by (simp add: cutover_at_def cutover_def map_of_update cutover_key_def)
  then show ?thesis unfolding mark_plan_reviewed_def set_meta_def by (intro m_meta) auto
qed

lemma settle_run_writes:
  assumes "run_row_of q i = Some row" and "rn_status row = ''issuing''"
    and "status \<in> set [''recorded'', ''resolved'', ''void'', ''held'']"
    and "ids_in_order q'" and "q_runs q' = q_runs q"
  shows "mstep cf q' (settle_run i status out handle executed now q')"
proof -
  let ?f = "\<lambda>r. if rn_id r = i then r\<lparr>rn_status := status, rn_outcome := JStr out, rn_handle := handle,
    rn_executed := executed, rn_ended := JStr now\<rparr> else r"
  from assms(1) have row: "row \<in> set (q_runs q')" "rn_id row = i"
    using find_Some_in assms(5) by (fastforce simp: run_row_of_def)+
  have inj: "inj_on rn_id (set (q_runs q'))"
    using assms(4) numbered_distinct by (auto simp: ids_in_order_def distinct_map)
  have "runs_move (q_runs q') (map ?f (q_runs q'))"
  proof (rule rows_move_map)
    fix r assume r: "r \<in> set (q_runs q')"
    have "r = row" if "rn_id r = i" using inj_onD [OF inj] r row that by auto
    with assms(2,3) show "run_core (?f r) = run_core r \<and> (rn_status (?f r) = rn_status r \<or> run_edge (rn_status r) (rn_status (?f r)))"
      by (auto simp: run_core_def run_edge_def)
  qed
  moreover have "numbered rn_id (map ?f (q_runs q'))"
  proof (rule numbered_cong)
    show "map rn_id (map ?f (q_runs q')) = map rn_id (q_runs q')" by simp
    show "numbered rn_id (q_runs q')" using assms(4) by (simp add: ids_in_order_def)
  qed
  ultimately show ?thesis unfolding settle_run_def by (rule m_runs)
qed

lemma begin_step_run_writes:
  assumes "begin_step_run cf now q prid sid t baseline = Ok (i, q')" and "ids_in_order q"
  shows "mstep cf q q'"
proof -
  from assms(1) obtain r where q': "q' = q\<lparr>q_runs := q_runs q @ [r]\<rparr>" and r: "rn_id r = length (q_runs q) + 1"
    by (auto simp: begin_step_run_def Let_def)
  have "numbered rn_id (q_runs q @ [r])" using assms(2) r by (simp add: ids_in_order_def numbered_snoc)
  then show ?thesis unfolding q' by (intro m_runs) simp_all
qed

lemma append_plain_runs: "append_plain cf now q r t = Ok (r', q') \<Longrightarrow> q_runs q' = q_runs q"
  by (drule append_plain_commit) simp

lemma append_in_conn_runs: "append_in_conn cf now q r t = Ok (r', q') \<Longrightarrow> q_runs q' = q_runs q"
  by (erule append_in_conn_plain) (auto dest!: append_plain_runs)

lemma msteps_ids: "(mstep cf)\<^sup>*\<^sup>* q q' \<Longrightarrow> ids_in_order q \<Longrightarrow> ids_in_order q'"
  by (induction rule: rtranclp_induct) (auto intro: mstep_ids)

lemma append_settle_writes:
  assumes "run_row_of q i = Some row" and "rn_status row = ''issuing''" and "ids_in_order q"
    and "append_in_conn cf now q r t = Ok (w, q1)"
    and "status \<in> set [''recorded'', ''resolved'', ''void'', ''held'']"
  shows "(mstep cf)\<^sup>*\<^sup>* q (settle_run i status out handle executed now q1)"
proof -
  have w: "(mstep cf)\<^sup>*\<^sup>* q q1" using assms(4) by (rule append_in_conn_writes)
  have "mstep cf q1 (settle_run i status out handle executed now q1)"
    using settle_run_writes [OF assms(1,2,5) msteps_ids [OF w assms(3)] append_in_conn_runs [OF assms(4)]] .
  with w show ?thesis by simp
qed

lemma record_run_Ok:
  "record_run now q i executed handle w = Ok (w', q') \<Longrightarrow> \<exists>out ex. q' = settle_run i ''recorded'' out handle ex now q"
  by (auto simp: record_run_def split: option.splits)

lemma finish_step_run_writes:
  assumes "finish_step_run cf now q i executed handle = Ok (w, q')" and "ids_in_order q"
  shows "(mstep cf)\<^sup>*\<^sup>* q q'"
proof -
  from assms(1) obtain row where row: "run_row_of q i = Some row" "rn_status row = ''issuing''"
    by (auto simp: finish_step_run_def split: option.splits if_splits)
  from assms(1) row obtain h where h: "(if truthy handle then Some handle else first_handle executed) = Some h"
    by (auto simp: finish_step_run_def split: option.splits)
  show ?thesis
  proof (cases "is_cleanup (rn_step row)")
    case True
    with assms(1) row h have "record_run now q i executed h None = Ok (w, q')" by (simp add: finish_step_run_def)
    then obtain out ex where "q' = settle_run i ''recorded'' out h ex now q" using record_run_Ok by blast
    then show ?thesis using settle_run_writes [OF row _ assms(2) refl] by auto
  next
    case False
    with assms(1) row h obtain r w1 q1 where app: "append_in_conn cf now q r JNull = Ok (w1, q1)"
      and rec: "record_run now q1 i executed h (Some w1) = Ok (w, q')"
      by (auto simp: finish_step_run_def split: option.splits)
    from record_run_Ok [OF rec] obtain out ex where "q' = settle_run i ''recorded'' out h ex now q1" by blast
    then show ?thesis using append_settle_writes [OF row assms(2) app] by auto
  qed
qed

lemma resolve_step_run_writes:
  assumes "resolve_step_run cf now q i out handle tick notes = Ok (w, q')" and "ids_in_order q"
  shows "(mstep cf)\<^sup>*\<^sup>* q q'"
proof -
  from assms(1) obtain status where st: "map_of RESOLVE_STATUS out = Some status"
    by (auto simp: resolve_step_run_def split: option.splits)
  then have status: "status \<in> set [''recorded'', ''resolved'', ''void'', ''held'']"
    by (auto simp: RESOLVE_STATUS_def split: if_splits)
  from assms(1) st obtain row where row: "run_row_of q i = Some row" "rn_status row = ''issuing''"
    by (auto simp: resolve_step_run_def split: option.splits if_splits)
  from assms(1) st row consider (plain) "q' = settle_run i status out handle JNull now q"
    | (step) r w1 q1 ex where "append_in_conn cf now q r JNull = Ok (w1, q1)"
        "q' = settle_run i status out handle ex now q1"
    by (fastforce simp: resolve_step_run_def split: option.splits if_splits prod.splits)
  then show ?thesis
  proof cases
    case plain
    then show ?thesis using settle_run_writes [OF row status assms(2) refl] by auto
  next
    case step
    then show ?thesis using append_settle_writes [OF row assms(2) step(1) status] by auto
  qed
qed

lemma close_legacy_writes:
  "close_legacy cf now q target reason tick snapshot = Ok (r, q') \<Longrightarrow> (mstep cf)\<^sup>*\<^sup>* q q'"
  by (auto simp: close_legacy_def Let_def split: option.splits if_splits intro: close_in_conn_writes)

lemma update_prediction_writes:
  assumes "\<And>p. p \<in> set (q_preds q) \<Longrightarrow> pr_id p = i \<Longrightarrow> pred_core (f p) = pred_core p \<and> pred_edge (pr_status p) (pr_status (f p))"
  shows "mstep cf q (update_prediction i f q)"
  unfolding update_prediction_def
proof (rule m_preds)
  show "preds_move (q_preds q) (map (\<lambda>p. if pr_id p = i then f p else p) (q_preds q))"
    by (rule rows_move_map) (use assms in auto)
qed simp

lemma void_prediction_writes:
  assumes "void_prediction now q pid note = Ok q'" and "ids_in_order q"
  shows "mstep cf q q'"
proof -
  let ?f = "\<lambda>p. p\<lparr>pr_status := ''void'', pr_note := note, pr_graded_at := JStr now\<rparr>"
  from assms(1) obtain p where p: "find (\<lambda>p. pr_record_id p = pid) (q_preds q) = Some p"
    and st: "pr_status p \<in> set VOIDABLE_STATUSES" and q': "q' = update_prediction (pr_id p) ?f q"
    by (auto simp: void_prediction_def split: if_splits option.splits)
  have inj: "inj_on pr_id (set (q_preds q))"
    using assms(2) numbered_distinct by (auto simp: ids_in_order_def distinct_map)
  show ?thesis unfolding q'
  proof (rule update_prediction_writes)
    fix x assume x: "x \<in> set (q_preds q)" "pr_id x = pr_id p"
    from find_Some_in [OF p] inj_onD [OF inj] x have "x = p" by auto
    with st show "pred_core (?f x) = pred_core x \<and> pred_edge (pr_status x) (pr_status (?f x))"
      by (auto simp: pred_core_def pred_edge_def VOIDABLE_STATUSES_def FINAL_STATUSES_def)
  qed
qed

lemma apply_grades_writes:
  assumes "distinct (map gu_id us)"
    and "\<forall>u \<in> set us. gu_status u \<in> set [''graded_true'', ''graded_false'', ''unresolvable''] \<and>
      (\<forall>p \<in> set (q_preds q). pr_id p = gu_id u \<longrightarrow> pr_status p = ''pending'')"
  shows "(mstep cf)\<^sup>*\<^sup>* q (apply_grades us q)"
  using assms
proof (induction us arbitrary: q)
  case (Cons u us)
  let ?f = "\<lambda>p. p\<lparr>pr_status := gu_status u, pr_actual := gu_actual u, pr_graded_at := gu_graded_at u, pr_note := gu_note u\<rparr>"
  let ?q = "update_prediction (gu_id u) ?f q"
  have "mstep cf q ?q"
    by (rule update_prediction_writes) (use Cons.prems in \<open>auto simp: pred_core_def pred_edge_def FINAL_STATUSES_def\<close>)
  moreover have "(mstep cf)\<^sup>*\<^sup>* ?q (apply_grades us ?q)"
  proof (rule Cons.IH)
    show "distinct (map gu_id us)" using Cons.prems by simp
    have ne: "gu_id v \<noteq> gu_id u" if "v \<in> set us" for v
    proof
      assume e: "gu_id v = gu_id u"
      from that have "gu_id v \<in> gu_id ` set us" by (rule imageI)
      with e Cons.prems(1) show False by simp
    qed
    have "pr_status p = ''pending''" if "v \<in> set us" "p \<in> set (q_preds ?q)" "pr_id p = gu_id v" for v p
      using that Cons.prems(2) ne [OF that(1)] by (auto simp: update_prediction_def split: if_splits)
    then show "\<forall>v \<in> set us. gu_status v \<in> set [''graded_true'', ''graded_false'', ''unresolvable''] \<and>
      (\<forall>p \<in> set (q_preds ?q). pr_id p = gu_id v \<longrightarrow> pr_status p = ''pending'')"
      using Cons.prems(2) by simp
  qed
  ultimately show ?case by (simp add: apply_grades_def)
qed (simp add: apply_grades_def)

lemma pending_due_rows:
  assumes "ids_in_order q"
  shows "distinct (map pr_id (pending_due q t))"
    and "p \<in> set (pending_due q t) \<Longrightarrow> x \<in> set (q_preds q) \<Longrightarrow> pr_id x = pr_id p \<Longrightarrow> pr_status x = ''pending''"
proof -
  have d: "distinct (map pr_id (q_preds q))" using assms by (auto simp: ids_in_order_def intro: numbered_distinct)
  then have inj: "inj_on pr_id (set (q_preds q))" by (simp add: distinct_map)
  have "distinct (pending_due q t)" using d by (simp add: pending_due_def distinct_map)
  moreover have "inj_on pr_id (set (pending_due q t))" by (rule inj_on_subset [OF inj]) (auto simp: pending_due_def)
  ultimately show "distinct (map pr_id (pending_due q t))" by (simp add: distinct_map)
  assume "p \<in> set (pending_due q t)" "x \<in> set (q_preds q)" "pr_id x = pr_id p"
  with inj_onD [OF inj, of x p] show "pr_status x = ''pending''" by (auto simp: pending_due_def)
qed

lemma grade_due_updates:
  assumes "grade_due pr call now q t = Some (us, q')"
  shows "q' = apply_grades us q \<and> map gu_id us = map pr_id (pending_due q t) \<and>
    (\<forall>u \<in> set us. gu_status u \<in> set [''graded_true'', ''graded_false'', ''unresolvable''])"
proof -
  from assms have th: "those (map (grade_one pr call now) (pending_due q t)) = Some us" and q': "q' = apply_grades us q"
    by (auto simp: grade_due_def split: Option.bind_splits)
  from those_Some [OF th] have m: "map (grade_one pr call now) (pending_due q t) = map Some us" .
  have len: "length us = length (pending_due q t)" using m by (metis length_map)
  have one: "grade_one pr call now (pending_due q t ! i) = Some (us ! i)" if "i < length us" for i
    using m len that by (metis nth_map)
  have "gu_id (us ! i) = pr_id (pending_due q t ! i)" if "i < length us" for i
    using grade_one_status [OF one [OF that]] by simp
  with len have ids: "map gu_id us = map pr_id (pending_due q t)" by (intro nth_equalityI) simp_all
  have "gu_status u \<in> set [''graded_true'', ''graded_false'', ''unresolvable'']" if "u \<in> set us" for u
  proof -
    from that obtain i where "i < length us" "us ! i = u" by (auto simp: in_set_conv_nth)
    with grade_one_status [OF one [of i]] show ?thesis by simp
  qed
  with q' ids show ?thesis by blast
qed

lemma grade_due_writes:
  assumes "grade_due pr call now q t = Some (us, q')" and "ids_in_order q"
  shows "(mstep cf)\<^sup>*\<^sup>* q q'"
proof -
  from grade_due_updates [OF assms(1)] have q': "q' = apply_grades us q"
    and ids: "map gu_id us = map pr_id (pending_due q t)"
    and st: "\<forall>u \<in> set us. gu_status u \<in> set [''graded_true'', ''graded_false'', ''unresolvable'']" by blast+
  have "pr_status p = ''pending''" if u: "u \<in> set us" "p \<in> set (q_preds q)" "pr_id p = gu_id u" for u p
  proof -
    from u(1) ids have "gu_id u \<in> pr_id ` set (pending_due q t)" by (metis image_eqI image_set)
    then obtain d where "d \<in> set (pending_due q t)" "pr_id d = gu_id u" by auto
    with pending_due_rows(2) [OF assms(2)] u show ?thesis by auto
  qed
  then show ?thesis unfolding q' using st ids pending_due_rows(1) [OF assms(2)]
    by (intro apply_grades_writes) auto
qed

lemma qstep_writes:
  assumes "qstep cf q q'" and "ids_in_order q"
  shows "(mstep cf)\<^sup>*\<^sup>* q q'"
  using assms(1)
proof cases
  case (q_open now rid urgency tick snapshot r)
  then show ?thesis
    by (auto simp: open_project_from_ruling_def split: option.splits intro: append_in_conn_writes)
next
  case (q_direct now p r t w)
  then obtain p' q1 r' where "append_in_conn cf now q p t = Ok (p', q1)"
    and "append_in_conn cf now q1 (setj r ''proposal_id'' (getj p' ''id'')) t = Ok (r', q')"
    by (auto simp: file_direct_action_def split: if_splits)
  then show ?thesis by (auto dest!: append_in_conn_writes)
next
  case (q_followup now pid tick snapshot r)
  then show ?thesis by (auto simp: apply_followup_def split: option.splits intro: append_in_conn_writes)
next
  case (q_observe now prid sid t d detail snapshot r)
  then show ?thesis
    by (auto simp: record_observation_def Let_def split: if_splits intro: append_in_conn_writes)
next
  case (q_close now target out reason cleanup tick snapshot r)
  then show ?thesis by (auto simp: close_target_def split: option.splits intro: close_in_conn_writes)
qed (auto intro: append_in_conn_writes set_cutover_writes begin_step_run_writes finish_step_run_writes
    resolve_step_run_writes close_legacy_writes grade_due_writes void_prediction_writes
    mark_plan_reviewed_writes assms(2))

lemma qsteps_writes: "(qstep cf)\<^sup>*\<^sup>* q q' \<Longrightarrow> ids_in_order q \<Longrightarrow> (mstep cf)\<^sup>*\<^sup>* q q'"
proof (induction rule: rtranclp_induct)
  case (step r s)
  then have "(mstep cf)\<^sup>*\<^sup>* r s" using qstep_writes msteps_ids by blast
  with step show ?case by auto
qed simp

lemma empty_ids [simp]: "ids_in_order empty_queue"
  by (simp add: ids_in_order_def empty_queue_def)

lemma reachable_writes: "reachable cf q \<Longrightarrow> (mstep cf)\<^sup>*\<^sup>* empty_queue q"
  by (simp add: reachable_def qsteps_writes)

lemma reachable_ids: "reachable cf q \<Longrightarrow> ids_in_order q"
  using reachable_writes msteps_ids by fastforce

end
