(* ===== verification/Invariants.thy ===== *)
theory Invariants
  imports Step_Writes
begin

section \<open>Invariants of the queue\<close>

text \<open>
  The interfaces of \<open>Logs\<close> interpreted on the queue (\<open>records\<close>, \<open>preds\<close>, \<open>runs\<close>,
  \<open>cutovers\<close>, \<open>seeds\<close>, \<open>upserts\<close>), and what follows for every reachable queue: ids are unique, a
  proposal has one final ruling, a ruling one project, an ask one answer, a target one close; references
  point at records of the right kind; the steps of every project are well formed.
\<close>

subsection \<open>What an append admits\<close>

definition admits :: "config \<Rightarrow> queue \<Rightarrow> obj \<Rightarrow> bool" where
  "admits cf q r \<longleftrightarrow> (\<exists>r1 t. accepted cf r1 \<and> nonempty_str (getj r1 ''id'') \<and> \<not> id_taken q (getj r1 ''id'') \<and>
     check_kind cf q [] r1 t = Some [] \<and> r = flag_duplicate q r1)"

lemma fill_in_id:
  assumes "fill_in q now r = Some r1"
  shows "truthy (getj r1 ''id'')"
proof -
  have n: "next_id q k \<noteq> []" for k by (simp add: next_id_def pad4_def Let_def dec_nonempty)
  show ?thesis using assms n
    by (auto simp: fill_in_def normalize_project_def Let_def split: if_splits)
qed

lemma truthy_has: "truthy (getj r k) \<Longrightarrow> has r k"
  by (cases "has r k") (auto simp: getj_absent)

lemma append_plain_admits:
  assumes "append_plain cf now q r t = Ok (r', q')"
  shows "admits cf q r' \<and> q' = commit_record r' t q"
proof -
  from assms obtain r1 where f: "fill_in q now r = Some r1" and e: "append_errors cf q r1 t = Some []"
    and r': "r' = flag_duplicate q r1" "q' = commit_record r' t q" by (auto simp: append_plain_Ok)
  from e have a: "accepted cf r1" "\<not> id_taken q (getj r1 ''id'')" "check_kind cf q [] r1 t = Some []"
    by (auto simp: append_errors_Nil)
  from accepted_envelope(3) [OF a(1)] truthy_has [OF fill_in_id [OF f]] have "nonempty_str (getj r1 ''id'')" by simp
  with a r' show ?thesis by (auto simp: admits_def)
qed

interpretation records: guarded_log q_records "mstep cf" "admits cf" for cf
proof
  fix s s' :: queue
  assume "mstep cf s s'"
  then show "q_records s' = q_records s \<or> (\<exists>r. admits cf s r \<and> q_records s' = q_records s @ [r])"
    by cases (auto dest!: append_plain_admits)
qed

interpretation preds: lifecycle "mstep cf" "\<lambda>q. status_at pr_status (q_preds q)" pred_edge for cf
  by unfold_locales (erule rows_move_status [OF mstep_preds])

interpretation runs: lifecycle "mstep cf" "\<lambda>q. status_at rn_status (q_runs q)" run_edge for cf
  by unfold_locales (erule rows_move_status [OF mstep_runs])

interpretation cutovers: lifecycle "mstep cf" cutover_at "(<)" for cf
  by unfold_locales (rule mstep_cutover)

subsection \<open>The targets table\<close>

lemma map_replace_keys:
  "map key (map (\<lambda>u. if key u = key t then t else u) ts) = map key ts"
  by (induction ts) auto

lemma target_keys_seed: "map target_key (seed_target t ts) = (if target_key t \<in> target_key ` set ts then map target_key ts else map target_key ts @ [target_key t])"
  by (simp add: seed_target_def)

lemma target_keys_upsert: "map target_key (upsert_target t ts) = (if target_key t \<in> target_key ` set ts then map target_key ts else map target_key ts @ [target_key t])"
  by (simp add: upsert_target_def map_replace_keys)

interpretation seeds: keyed_table target_key seed_target
proof
  fix r x :: target_row and rs
  show "distinct (map target_key rs) \<Longrightarrow> distinct (map target_key (seed_target r rs))"
    by (simp add: target_keys_seed)
  show "target_key r \<in> target_key ` set (seed_target r rs)" by (simp add: seed_target_def)
  show "target_key x \<noteq> target_key r \<Longrightarrow> x \<in> set (seed_target r rs) \<longleftrightarrow> x \<in> set rs"
    by (auto simp: seed_target_def)
  show "target_key ` set rs \<subseteq> target_key ` set (seed_target r rs)" by (auto simp: seed_target_def)
qed

interpretation upserts: upsert_table target_key upsert_target
proof
  fix r x :: target_row and rs
  show "distinct (map target_key rs) \<Longrightarrow> distinct (map target_key (upsert_target r rs))"
    by (simp add: target_keys_upsert)
  show "target_key r \<in> target_key ` set (upsert_target r rs)" by (auto simp: upsert_target_def image_iff)
  show "target_key x \<noteq> target_key r \<Longrightarrow> x \<in> set (upsert_target r rs) \<longleftrightarrow> x \<in> set rs"
    by (auto simp: upsert_target_def image_iff)
  have "set (map target_key rs) \<subseteq> set (map target_key (upsert_target r rs))"
    by (subst target_keys_upsert) auto
  then show "target_key ` set rs \<subseteq> target_key ` set (upsert_target r rs)" by simp
  show "r \<in> set (upsert_target r rs)" by (auto simp: upsert_target_def image_iff)
  show "x \<in> set (upsert_target r rs) \<Longrightarrow> target_key x = target_key r \<Longrightarrow> x = r"
    by (auto simp: upsert_target_def image_iff split: if_splits)
qed

subsection \<open>Reading an admitted record\<close>

lemma flag_duplicate_get [simp]: "k \<noteq> ''duplicate_of'' \<Longrightarrow> getj (flag_duplicate q r) k = getj r k"
  by (auto simp: flag_duplicate_def split: option.splits)

lemma flag_duplicate_has [simp]: "k \<noteq> ''duplicate_of'' \<Longrightarrow> has (flag_duplicate q r) k = has r k"
  by (auto simp: flag_duplicate_def split: option.splits)

lemma flag_duplicate_kind [simp]: "is_kind k (flag_duplicate q r) = is_kind k r"
  by (simp add: is_kind_def)

lemma flag_duplicate_other: "\<not> is_kind ''proposal'' r \<Longrightarrow> flag_duplicate q r = r"
  by (simp add: flag_duplicate_def)

lemma kinds_exclusive: "is_kind k r \<Longrightarrow> is_kind k' r \<longleftrightarrow> k' = k"
  by (auto simp: is_kind_def)

lemma flagged_Nil [simp]: "\<not> flagged k []" "\<not> project_step_ids_already_flagged []"
  by (simp_all add: flagged_def project_step_ids_already_flagged_def)

lemma set_naming: "r \<in> set (naming q k f v) \<longleftrightarrow> r \<in> set (q_records q) \<and> is_kind k r \<and> v \<noteq> JNull \<and> getj r f = v"
  by (auto simp: naming_def of_kind_def)

lemma exists_naming_iff: "exists_naming q k f v \<longleftrightarrow> v \<noteq> JNull \<and> (\<exists>r \<in> set (q_records q). is_kind k r \<and> getj r f = v)"
proof -
  have "naming q k f v \<noteq> [] \<longleftrightarrow> (\<exists>r. r \<in> set (naming q k f v))" by (cases "naming q k f v") auto
  then show ?thesis unfolding exists_naming_def set_naming by blast
qed

text \<open>The key of the records of one kind that satisfy a condition.\<close>

definition kind_key :: "string \<Rightarrow> (obj \<Rightarrow> bool) \<Rightarrow> string \<Rightarrow> obj \<Rightarrow> json option" where
  "kind_key K P f r = (if is_kind K r \<and> P r \<and> getj r f \<noteq> JNull then Some (getj r f) else None)"

lemma kind_key_in:
  "k \<in> set (keys_by (kind_key K P f) rs) \<longleftrightarrow> k \<noteq> JNull \<and> (\<exists>r \<in> set rs. is_kind K r \<and> P r \<and> getj r f = k)"
  by (auto simp: set_keys_by kind_key_def split: if_splits)

lemma distinct_kind_key:
  assumes "distinct (keys_by (kind_key K P f) rs)" and "r \<in> set rs" "s \<in> set rs"
    and "is_kind K r" "is_kind K s" "P r" "P s" "getj r f = getj s f" "getj r f \<noteq> JNull"
  shows "r = s"
  using assms
proof (induction rs)
  case (Cons x xs)
  have k: "kind_key K P f y = Some (getj r f)" if "y \<in> {r, s}" for y
    using that Cons.prems by (auto simp: kind_key_def)
  have i: "getj r f \<in> set (keys_by (kind_key K P f) xs)" if "r \<in> set xs \<or> s \<in> set xs"
    using that Cons.prems by (auto simp: kind_key_in)
  show ?case
  proof (cases "x = r \<or> x = s")
    case True
    with k have "kind_key K P f x = Some (getj r f)" by auto
    with Cons.prems(1) i have "r \<notin> set xs" "s \<notin> set xs" by auto
    with Cons.prems(2,3) show ?thesis by simp
  next
    case False
    with Cons.prems have "r \<in> set xs" "s \<in> set xs" by auto
    moreover have "distinct (keys_by (kind_key K P f) xs)"
      using Cons.prems(1) by (auto split: option.splits)
    ultimately show ?thesis using Cons.IH Cons.prems(4-9) by blast
  qed
qed simp

subsection \<open>Unique keys\<close>

lemma admitsE:
  assumes "admits cf q r" and "is_kind k r"
  obtains r1 t where "accepted cf r1" and "is_kind k r1" and "check_kind cf q [] r1 t = Some []"
    and "r = flag_duplicate q r1" and "nonempty_str (getj r1 ''id'')" and "\<not> id_taken q (getj r1 ''id'')"
  using assms by (auto simp: admits_def)

definition reaches :: "config \<Rightarrow> queue \<Rightarrow> queue \<Rightarrow> bool" where
  "reaches cf q q' \<longleftrightarrow> (qstep cf)\<^sup>*\<^sup>* q q'"

lemma reaches_writes: "reachable cf q \<Longrightarrow> reaches cf q q' \<Longrightarrow> (mstep cf)\<^sup>*\<^sup>* q q'"
  by (simp add: reaches_def qsteps_writes reachable_ids)

lemma ids_fresh:
  assumes "admits cf q r"
  shows "rec_id r \<notin> set (map rec_id (q_records q)) \<or> \<not> (\<forall>x \<in> set (q_records q). is_str (getj x ''id''))"
proof (rule ccontr)
  assume "\<not> ?thesis"
  then obtain x where x: "x \<in> set (q_records q)" "rec_id x = rec_id r" "is_str (getj x ''id'')" by auto
  from assms have "nonempty_str (getj r ''id'')" "\<not> id_taken q (getj r ''id'')" by (auto simp: admits_def)
  with x show False by (auto simp: id_taken_def list_ex_iff rec_id_def is_str_iff elim!: nonempty_strE)
qed

definition id_key :: "obj \<Rightarrow> json option" where
  "id_key r = Some (getj r ''id'')"

lemma keys_by_id: "keys_by id_key rs = map (\<lambda>r. getj r ''id'') rs"
  by (induction rs) (auto simp: id_key_def)

lemma reachable_keys:
  assumes "reachable cf q" and "\<And>t r k. admits cf t r \<Longrightarrow> sel r = Some k \<Longrightarrow> k \<notin> set (keys_by sel (q_records t))"
  shows "distinct (keys_by sel (q_records q))"
  by (rule records.keys_distinct [OF assms(2) reachable_writes [OF assms(1)]]) (auto simp: empty_queue_def)

lemma reachable_entries:
  assumes "reachable cf q"
    and "\<And>t r. admits cf t r \<Longrightarrow> (\<forall>x \<in> set (q_records t). P (q_records t) x) \<Longrightarrow> P (q_records t @ [r]) r"
    and "\<And>xs r x. P xs x \<Longrightarrow> P (xs @ [r]) x"
    and "r \<in> set (q_records q)"
  shows "P (q_records q) r"
proof -
  have "\<forall>x \<in> set (q_records q). P (q_records q) x"
    by (rule records.entries_satisfy [where cf = cf and P = P and s = empty_queue])
      (use assms(2,3) reachable_writes [OF assms(1)] in \<open>auto simp: empty_queue_def\<close>)
  with assms(4) show ?thesis by blast
qed

lemma reachable_distinct_ids: "reachable cf q \<Longrightarrow> distinct (map (\<lambda>r. getj r ''id'') (q_records q))"
proof -
  assume "reachable cf q"
  then have "distinct (keys_by id_key (q_records q))"
    by (rule reachable_keys [where cf = cf]) (auto simp: keys_by_id id_key_def admits_def id_taken_def list_ex_iff)
  then show ?thesis by (simp add: keys_by_id)
qed

lemma reachable_str_ids:
  assumes "reachable cf q" and "r \<in> set (q_records q)"
  shows "nonempty_str (getj r ''id'')"
  by (rule reachable_entries [OF assms(1) _ _ assms(2)]) (auto simp: admits_def)

lemma check_kind_simps:
  "is_kind ''ruling'' r \<Longrightarrow> check_kind cf q es r t = Some (check_ruling cf q es r)"
  "is_kind ''executed'' r \<Longrightarrow> check_kind cf q es r t = check_executed cf q es r"
  "is_kind ''project'' r \<Longrightarrow> check_kind cf q es r t = Some (check_project cf q es r)"
  "is_kind ''amend'' r \<Longrightarrow> check_kind cf q es r t = check_amend cf q es r"
  "is_kind ''close'' r \<Longrightarrow> check_kind cf q es r t = Some (check_close q r)"
  "is_kind ''abandon'' r \<Longrightarrow> check_kind cf q es r t = Some (check_abandon q es r)"
  "is_kind ''observation'' r \<Longrightarrow> check_kind cf q es r t = Some (check_observation q es r)"
  "is_kind ''ask'' r \<Longrightarrow> check_kind cf q es r t = Some (check_ask q es r)"
  "is_kind ''answer'' r \<Longrightarrow> check_kind cf q es r t = Some (check_answer q es r)"
  "is_kind ''fort_plan'' r \<Longrightarrow> check_kind cf q es r t = Some (if es = [] then check_fort_plan cf q r t else [])"
  "is_kind ''proposal'' r \<Longrightarrow> check_kind cf q es r t = check_proposal cf q es r t"
  by (simp_all add: check_kind_def is_kind_def)

lemma has_final_iff: "has_final_ruling q pid \<longleftrightarrow> pid \<noteq> JNull \<and>
    (\<exists>r \<in> set (q_records q). is_kind ''ruling'' r \<and> final_decision r \<and> getj r ''proposal_id'' = pid)"
  by (auto simp: has_final_ruling_def rulings_on_def list_ex_iff set_naming)

lemma ruling_fresh:
  assumes "admits cf q r" and "kind_key ''ruling'' final_decision ''proposal_id'' r = Some k"
  shows "k \<notin> set (keys_by (kind_key ''ruling'' final_decision ''proposal_id'') (q_records q))"
proof -
  from assms(2) have kd: "is_kind ''ruling'' r" "k = getj r ''proposal_id''" "k \<noteq> JNull"
    by (auto simp: kind_key_def split: if_splits)
  obtain r1 t where r1: "is_kind ''ruling'' r1" "check_kind cf q [] r1 t = Some []" "r = flag_duplicate q r1"
    by (rule admitsE [OF assms(1) kd(1)])
  then have "check_ruling cf q [] r1 = []" by (simp add: check_kind_simps)
  then have "\<not> has_final_ruling q k" using kd(2) r1(3)
    by (auto simp: check_ruling_def Let_def split: if_splits)
  then show ?thesis using kd(3) by (auto simp: kind_key_in has_final_iff)
qed

lemma fresh_key:
  assumes "admits cf q r" and "kind_key K (\<lambda>_. True) f r = Some k"
    and "\<And>r1 t. is_kind K r1 \<Longrightarrow> accepted cf r1 \<Longrightarrow> check_kind cf q [] r1 t = Some [] \<Longrightarrow> getj r1 f = k \<Longrightarrow> \<not> exists_naming q K f k"
    and "f \<noteq> ''duplicate_of''"
  shows "k \<notin> set (keys_by (kind_key K (\<lambda>_. True) f) (q_records q))"
proof -
  from assms(2) have kd: "is_kind K r" "k = getj r f" "k \<noteq> JNull"
    by (auto simp: kind_key_def split: if_splits)
  obtain r1 t where r1: "accepted cf r1" "is_kind K r1" "check_kind cf q [] r1 t = Some []" "r = flag_duplicate q r1"
    by (rule admitsE [OF assms(1) kd(1)])
  with kd(2) assms(4) have "getj r1 f = k" by simp
  with assms(3) [OF r1(2,1,3)] have "\<not> exists_naming q K f k" by simp
  then show ?thesis by (auto simp: kind_key_in exists_naming_iff)
qed

lemma find_project_iff: "find_project_for_ruling q rid = None \<longleftrightarrow> \<not> exists_naming q ''project'' ''from_ruling'' rid"
  by (cases "naming q ''project'' ''from_ruling'' rid") (simp_all add: find_project_for_ruling_def exists_naming_def)

lemma reachable_unique_rulings:
  "reachable cf q \<Longrightarrow> distinct (keys_by (kind_key ''ruling'' final_decision ''proposal_id'') (q_records q))"
  by (erule reachable_keys) (rule ruling_fresh)

lemma reachable_unique_projects:
  "reachable cf q \<Longrightarrow> distinct (keys_by (kind_key ''project'' (\<lambda>_. True) ''from_ruling'') (q_records q))"
proof (erule reachable_keys)
  fix t r k
  assume "admits cf t r" "kind_key ''project'' (\<lambda>_. True) ''from_ruling'' r = Some k"
  then show "k \<notin> set (keys_by (kind_key ''project'' (\<lambda>_. True) ''from_ruling'') (q_records t))"
  proof (rule fresh_key)
    fix r1 t'
    assume "is_kind ''project'' r1" "check_kind cf t [] r1 t' = Some []" "getj r1 ''from_ruling'' = k"
    then show "\<not> exists_naming t ''project'' ''from_ruling'' k"
      by (auto simp: check_kind_simps check_project_def Let_def find_project_iff split: option.splits if_splits)
  qed simp
qed

lemma reachable_unique_answers:
  "reachable cf q \<Longrightarrow> distinct (keys_by (kind_key ''answer'' (\<lambda>_. True) ''ask_id'') (q_records q))"
proof (erule reachable_keys)
  fix t r k
  assume "admits cf t r" "kind_key ''answer'' (\<lambda>_. True) ''ask_id'' r = Some k"
  then show "k \<notin> set (keys_by (kind_key ''answer'' (\<lambda>_. True) ''ask_id'') (q_records t))"
  proof (rule fresh_key)
    fix r1 t'
    assume "is_kind ''answer'' r1" "check_kind cf t [] r1 t' = Some []" "getj r1 ''ask_id'' = k"
    then show "\<not> exists_naming t ''answer'' ''ask_id'' k"
      by (auto simp: check_kind_simps check_answer_def Let_def split: option.splits if_splits)
  qed simp
qed

lemma reachable_unique_abandons:
  "reachable cf q \<Longrightarrow> distinct (keys_by (kind_key ''abandon'' (\<lambda>_. True) ''project_id'') (q_records q))"
proof (erule reachable_keys)
  fix t r k
  assume "admits cf t r" "kind_key ''abandon'' (\<lambda>_. True) ''project_id'' r = Some k"
  then show "k \<notin> set (keys_by (kind_key ''abandon'' (\<lambda>_. True) ''project_id'') (q_records t))"
  proof (rule fresh_key)
    fix r1 t'
    assume "is_kind ''abandon'' r1" "check_kind cf t [] r1 t' = Some []" "getj r1 ''project_id'' = k"
    then show "\<not> exists_naming t ''abandon'' ''project_id'' k"
      by (auto simp: check_kind_simps check_abandon_def is_abandoned_def Let_def split: if_splits)
  qed simp
qed

lemma check_close_fields_closed:
  assumes "check_close_fields q r fs = []" and "f \<in> set fs" and "has r f"
    and "\<forall>g \<in> set fs. has r g \<longrightarrow> nonempty_str (getj r g)"
  shows "\<not> is_closed q f (getj r f)"
  using assms
proof (induction q r fs rule: check_close_fields.induct)
  case (2 q r g gs)
  then show ?case by (auto simp: check_close_field_def split: if_splits)
qed simp

lemma accepted_close_fields:
  assumes "accepted cf r" and "is_kind ''close'' r" and "g \<in> set CLOSE_TARGET_FIELDS" and "has r g"
  shows "nonempty_str (getj r g)"
proof -
  from accepted_kind [OF assms(1)] assms(2) have "validate_close_fields r = []"
    by (auto simp: is_kind_def validate_kind_def)
  then have "\<forall>n \<in> set (filter (has r) CLOSE_TARGET_FIELDS). need_str (rfld n) str_msg (getj r n) = []"
    by (auto simp: validate_close_fields_def Let_def)
  with assms(3,4) show ?thesis by (simp del: need_str_Nil) (use need_str_Nil in blast)
qed

lemma reachable_unique_closes:
  assumes "reachable cf q" and "f \<in> set CLOSE_TARGET_FIELDS"
  shows "distinct (keys_by (kind_key ''close'' (\<lambda>_. True) f) (q_records q))"
proof (rule reachable_keys [OF assms(1)])
  fix t r k
  assume "admits cf t r" "kind_key ''close'' (\<lambda>_. True) f r = Some k"
  then show "k \<notin> set (keys_by (kind_key ''close'' (\<lambda>_. True) f) (q_records t))"
  proof (rule fresh_key)
    fix r1 t'
    assume r1: "is_kind ''close'' r1" "accepted cf r1" "check_kind cf t [] r1 t' = Some []" "getj r1 f = k"
    show "\<not> exists_naming t ''close'' f k"
    proof (cases "has r1 f")
      case True
      have "check_close_fields t r1 CLOSE_TARGET_FIELDS = []" using r1(1,3) by (simp add: check_kind_simps check_close_def)
      from check_close_fields_closed [OF this assms(2) True] accepted_close_fields [OF r1(2,1)] r1(4)
      show ?thesis by (auto simp: is_closed_def)
    next
      case False
      with r1(4) have "k = JNull" by (simp add: getj_absent)
      then show ?thesis by (simp add: exists_naming_iff)
    qed
  qed (use assms(2) in \<open>auto simp: CLOSE_TARGET_FIELDS_def\<close>)
qed

end
