(* ===== verification/Integrity.thy ===== *)
theory Integrity
  imports Invariants
begin

section \<open>What every stored record satisfies\<close>

text \<open>
  Invariants of single records in a reachable queue: each was accepted by \<open>validate\<close>
  (\<open>reachable_stored\<close>), and its references point at records of the right kind that were there before it
  (\<open>reachable_refs\<close>). From these: the current steps of every project are well formed, with a runnable
  step while one is unfinished, and the plan versions are numbered in order.
\<close>

subsection \<open>Accepted when it was written\<close>

text \<open>\<open>duplicate_of\<close> is the one field the store may add after validation.\<close>

definition stored :: "config \<Rightarrow> obj \<Rightarrow> bool" where
  "stored cf r \<longleftrightarrow> (\<exists>r1. accepted cf r1 \<and>
     (\<forall>k. k \<noteq> ''duplicate_of'' \<longrightarrow> getj r k = getj r1 k \<and> has r k = has r1 k))"

lemma admits_stored: "admits cf q r \<Longrightarrow> stored cf r"
  by (auto simp: admits_def stored_def)

lemma reachable_stored: "reachable cf q \<Longrightarrow> r \<in> set (q_records q) \<Longrightarrow> stored cf r"
  by (rule reachable_entries [where P = "\<lambda>_. stored cf" and cf = cf and q = q]) (auto intro: admits_stored)

lemma storedE:
  assumes "stored cf r"
  obtains r1 where "accepted cf r1"
    and "\<forall>k. k \<noteq> ''duplicate_of'' \<longrightarrow> getj r k = getj r1 k \<and> has r k = has r1 k"
  using assms unfolding stored_def by blast

lemma stored_kind:
  assumes "stored cf r"
  obtains k where "is_kind k r" and "k \<in> set KINDS"
  using assms
proof (rule storedE)
  fix r1
  assume a: "accepted cf r1" and e: "\<forall>k. k \<noteq> ''duplicate_of'' \<longrightarrow> getj r k = getj r1 k \<and> has r k = has r1 k"
  from a obtain k where k: "getj r1 ''kind'' = JStr k" "k \<in> set KINDS" by (rule acceptedE)
  from e have "getj r ''kind'' = getj r1 ''kind''" by simp
  with k that [of k] show thesis by (simp add: is_kind_def)
qed

lemma stored_writer:
  assumes "stored cf r" and "is_kind k r"
  shows "\<exists>w. getj r ''role'' = JStr w \<and> w \<in> set (enabled_roles (cf_roster cf)) \<and> w \<in> set (writers cf k)"
  using assms(1) by (rule storedE) (use accepted_writer assms(2) in \<open>auto simp: is_kind_def\<close>)

lemma text_fields_not_duplicate: "name \<in> set (text_fields k) \<Longrightarrow> name \<noteq> ''duplicate_of''"
  by (auto simp: text_fields_def split: if_splits)

lemma stored_text:
  assumes "stored cf r" and "is_kind k r" and "name \<in> set (text_fields k)"
  shows "nonempty_str (getj r name) \<and> find_coordinate (str_of (getj r name)) = None"
  using assms(1)
proof (rule storedE)
  fix r1
  assume a: "accepted cf r1" and e: "\<forall>k. k \<noteq> ''duplicate_of'' \<longrightarrow> getj r k = getj r1 k \<and> has r k = has r1 k"
  from e assms(2) have "getj r1 ''kind'' = JStr k" by (simp add: is_kind_def)
  from accepted_text [OF a this assms(3)] e text_fields_not_duplicate [OF assms(3)] show ?thesis by simp
qed

lemma stored_step_args:
  assumes "stored cf r" and "is_kind ''proposal'' r" and "has r ''step''"
  shows "\<not> inside (JArr [JInt i, JInt j, JInt k]) (getj (fields_of (getj r ''step'')) ''args'')"
  using assms(1)
proof (rule storedE)
  fix r1
  assume a: "accepted cf r1" and e: "\<forall>k. k \<noteq> ''duplicate_of'' \<longrightarrow> getj r k = getj r1 k \<and> has r k = has r1 k"
  from e assms have "getj r1 ''kind'' = JStr ''proposal''" "has r1 ''step''" "getj r ''step'' = getj r1 ''step''"
    by (simp_all add: is_kind_def)
  with accepted_step_args [OF a, of i j k] show ?thesis by auto
qed

lemma stored_prediction:
  assumes "stored cf r" and "is_kind ''proposal'' r"
  shows "is_obj (getj r ''prediction'') \<and> prediction_ok (fields_of (getj r ''prediction''))"
  using assms(1) by (rule storedE) (use accepted_prediction assms(2) in \<open>simp add: is_kind_def\<close>)

lemma stored_steps:
  assumes "stored cf r" and "is_kind ''project'' r \<or> is_kind ''amend'' r"
  shows "steps_ok (items_of (getj r ''steps'')) \<and> items_of (getj r ''steps'') \<noteq> []"
  using assms(1) by (rule storedE) (use accepted_steps assms(2) in \<open>auto simp: is_kind_def\<close>)

lemma stored_cycle: "stored cf r \<Longrightarrow> is_int (getj r ''cycle'')"
  by (elim storedE) (use accepted_envelope(1) in simp)

subsection \<open>References\<close>

text \<open>\<open>known rs k i P\<close>: the records \<open>rs\<close> have one of kind \<open>k\<close> with id \<open>i\<close> that satisfies \<open>P\<close>.\<close>

definition known :: "obj list \<Rightarrow> string \<Rightarrow> json \<Rightarrow> (obj \<Rightarrow> bool) \<Rightarrow> bool" where
  "known rs k i P \<longleftrightarrow> is_str i \<and> (\<exists>x \<in> set rs. is_kind k x \<and> getj x ''id'' = i \<and> P x)"

definition close_kind :: "string \<Rightarrow> string" where
  "close_kind f = (if f = ''project_id'' then ''project'' else if f = ''proposal_id'' then ''proposal'' else ''ruling'')"

definition refs_ok :: "obj list \<Rightarrow> obj \<Rightarrow> bool" where
  "refs_ok rs r \<longleftrightarrow>
     (is_kind ''ruling'' r \<longrightarrow> known rs ''proposal'' (getj r ''proposal_id'') (\<lambda>_. True)) \<and>
     (is_kind ''project'' r \<longrightarrow> known rs ''ruling'' (getj r ''from_ruling'') accepts) \<and>
     (is_kind ''executed'' r \<longrightarrow> known rs ''ruling'' (getj r ''ruling_id'') accepts \<and>
        (\<exists>p \<in> set rs. is_kind ''project'' p \<and> getj p ''from_ruling'' = getj r ''ruling_id'')) \<and>
     (is_kind ''amend'' r \<or> is_kind ''abandon'' r \<or> is_kind ''observation'' r \<longrightarrow>
        known rs ''project'' (getj r ''project_id'') (\<lambda>_. True)) \<and>
     (is_kind ''ask'' r \<and> has r ''proposal_id'' \<longrightarrow> known rs ''proposal'' (getj r ''proposal_id'') (\<lambda>_. True)) \<and>
     (is_kind ''answer'' r \<longrightarrow> known rs ''ask'' (getj r ''ask_id'') (\<lambda>a. ask_addressee a = getj r ''role'')) \<and>
     (is_kind ''close'' r \<longrightarrow> (\<forall>f \<in> set CLOSE_TARGET_FIELDS. has r f \<longrightarrow> known rs (close_kind f) (getj r f) (\<lambda>_. True)))"

lemma get_rec_Some:
  assumes "get_rec q i k = Some x"
  shows "is_str i \<and> x \<in> set (q_records q) \<and> is_kind k x \<and> getj x ''id'' = i"
  using assms find_Some_in [of "\<lambda>r. getj r ''id'' = i" "of_kind q k" x]
  by (auto simp: get_rec_def of_kind_def split: if_splits)

lemma get_rec_known: "get_rec q i k = Some x \<Longrightarrow> P x \<Longrightarrow> known (q_records q) k i P"
  by (auto dest!: get_rec_Some simp: known_def)

lemma get_rec_known': "get_rec q i k \<noteq> None \<Longrightarrow> known (q_records q) k i (\<lambda>_. True)"
  using get_rec_known by auto

lemma known_mono: "known rs k i P \<Longrightarrow> set rs \<subseteq> set rs' \<Longrightarrow> known rs' k i P"
  by (auto simp: known_def)

lemma refs_ok_mono:
  assumes "refs_ok rs r" and "set rs \<subseteq> set rs'"
  shows "refs_ok rs' r"
proof -
  have m: "known rs' k i P" if "known rs k i P" for k i P using known_mono that assms(2) by blast
  have p: "\<exists>p \<in> set rs'. is_kind ''project'' p \<and> getj p ''from_ruling'' = i"
    if "\<exists>p \<in> set rs. is_kind ''project'' p \<and> getj p ''from_ruling'' = i" for i using that assms(2) by blast
  show ?thesis using assms(1) by (simp add: refs_ok_def m p)
qed

lemma find_project_Some:
  assumes "find_project_for_ruling q rid = Some p"
  shows "p \<in> set (q_records q) \<and> is_kind ''project'' p \<and> getj p ''from_ruling'' = rid \<and> rid \<noteq> JNull"
  using find_Some_in [OF assms [unfolded find_project_for_ruling_def]] by (auto simp: set_naming)

lemma check_executed_refs:
  assumes "check_executed cf q [] r = Some []"
  shows "known (q_records q) ''ruling'' (getj r ''ruling_id'') accepts \<and>
    (\<exists>p. find_project_for_ruling q (getj r ''ruling_id'') = Some p)"
proof -
  from assms obtain rl where rl: "get_rec q (getj r ''ruling_id'') ''ruling'' = Some rl" and a: "accepts rl"
    by (auto simp: check_executed_def Let_def split: Option.bind_splits option.splits if_splits)
  with assms have "find_project_for_ruling q (getj r ''ruling_id'') \<noteq> None"
    by (auto simp: check_executed_def Let_def split: Option.bind_splits option.splits if_splits)
  with get_rec_known [OF rl, of accepts] a show ?thesis by blast
qed

lemma check_close_field_known:
  assumes "check_close_field q f v = []"
  shows "known (q_records q) (close_kind f) v (\<lambda>_. True)"
proof (rule get_rec_known')
  show "get_rec q v (close_kind f) \<noteq> None"
    using assms by (auto simp: check_close_field_def close_kind_def split: if_splits option.splits)
qed

lemma check_close_fields_known:
  assumes "check_close_fields q r fs = []" and "set fs \<subseteq> set CLOSE_TARGET_FIELDS" and "f \<in> set fs" and "has r f"
    and "\<forall>g \<in> set fs. has r g \<longrightarrow> nonempty_str (getj r g)"
  shows "known (q_records q) (close_kind f) (getj r f) (\<lambda>_. True)"
  using assms
proof (induction q r fs rule: check_close_fields.induct)
  case (2 q r g gs)
  show ?case
  proof (cases "f = g")
    case True
    with "2.prems"(4,5) have n: "nonempty_str (getj r g)" by simp
    with True "2.prems"(1,4) have "check_close_field q f (getj r f) = []" by simp
    then show ?thesis by (rule check_close_field_known)
  next
    case False
    with "2.prems"(2,3,5) have rest: "set gs \<subseteq> set CLOSE_TARGET_FIELDS" "f \<in> set gs"
      "\<forall>g \<in> set gs. has r g \<longrightarrow> nonempty_str (getj r g)" by simp_all
    show ?thesis
    proof (cases "has r g")
      case True
      with "2.prems"(5) have n: "nonempty_str (getj r g)" by simp
      with True "2.prems"(1) have "check_close_fields q r gs = []" by simp
      with "2.IH"(2) True n rest "2.prems"(4) show ?thesis by blast
    next
      case False
      with "2.prems"(1) have "check_close_fields q r gs = []" by simp
      with "2.IH"(1) False rest "2.prems"(4) show ?thesis by blast
    qed
  qed
qed simp

lemma admits_checked:
  assumes "admits cf q r" and "is_kind k r"
  obtains r1 t where "accepted cf r1" and "is_kind k r1" and "check_kind cf q [] r1 t = Some []"
    and "\<And>f. f \<noteq> ''duplicate_of'' \<Longrightarrow> getj r f = getj r1 f" and "\<And>f. f \<noteq> ''duplicate_of'' \<Longrightarrow> has r f = has r1 f"
  using assms by (rule admitsE) (rule that, assumption+, simp_all)

lemma admits_project_refs:
  assumes "admits cf q r" and "is_kind k r" and "k \<in> {''amend'', ''abandon'', ''observation''}"
  shows "known (q_records q) ''project'' (getj r ''project_id'') (\<lambda>_. True)"
proof -
  obtain r1 t where r1: "is_kind k r1" "check_kind cf q [] r1 t = Some []" "getj r ''project_id'' = getj r1 ''project_id''"
    using assms(1,2) by (rule admits_checked) simp
  have "get_rec q (getj r1 ''project_id'') ''project'' \<noteq> None"
    using r1(1,2) assms(3)
    by (elim insertE) (auto simp: check_kind_simps check_amend_def check_abandon_def check_observation_def Let_def
        split: if_splits option.splits Option.bind_splits)
  with r1(3) show ?thesis by (simp add: get_rec_known')
qed

lemma admits_refs:
  assumes "admits cf q r"
  shows "refs_ok (q_records q) r"
  unfolding refs_ok_def
proof (intro conjI impI ballI)
  assume k: "is_kind ''ruling'' r"
  obtain r1 t where "is_kind ''ruling'' r1" "check_kind cf q [] r1 t = Some []" "getj r ''proposal_id'' = getj r1 ''proposal_id''"
    using assms k by (rule admits_checked) simp
  then show "known (q_records q) ''proposal'' (getj r ''proposal_id'') (\<lambda>_. True)"
    by (auto simp: check_kind_simps check_ruling_def Let_def intro: get_rec_known' split: if_splits)
next
  assume k: "is_kind ''project'' r"
  obtain r1 t where "is_kind ''project'' r1" "check_kind cf q [] r1 t = Some []" "getj r ''from_ruling'' = getj r1 ''from_ruling''"
    using assms k by (rule admits_checked) simp
  then show "known (q_records q) ''ruling'' (getj r ''from_ruling'') accepts"
    by (auto simp: check_kind_simps check_project_def Let_def intro: get_rec_known split: if_splits option.splits)
next
  assume k: "is_kind ''executed'' r"
  obtain r1 t where "is_kind ''executed'' r1" "check_kind cf q [] r1 t = Some []" and r: "getj r ''ruling_id'' = getj r1 ''ruling_id''"
    using assms k by (rule admits_checked) simp
  then have c: "check_executed cf q [] r1 = Some []" by (simp add: check_kind_simps)
  from check_executed_refs [OF c] r show "known (q_records q) ''ruling'' (getj r ''ruling_id'') accepts" by simp
  from check_executed_refs [OF c] r
  show "\<exists>p \<in> set (q_records q). is_kind ''project'' p \<and> getj p ''from_ruling'' = getj r ''ruling_id''"
    by (auto dest!: find_project_Some)
next
  assume "is_kind ''amend'' r \<or> is_kind ''abandon'' r \<or> is_kind ''observation'' r"
  then show "known (q_records q) ''project'' (getj r ''project_id'') (\<lambda>_. True)"
    by (elim disjE) (erule admits_project_refs [OF assms], simp)+
next
  assume k: "is_kind ''ask'' r \<and> has r ''proposal_id''"
  obtain r1 t where "is_kind ''ask'' r1" "check_kind cf q [] r1 t = Some []" "getj r ''proposal_id'' = getj r1 ''proposal_id''"
    "has r ''proposal_id'' = has r1 ''proposal_id''"
    using assms k [THEN conjunct1] by (rule admits_checked) simp
  then show "known (q_records q) ''proposal'' (getj r ''proposal_id'') (\<lambda>_. True)"
    using k by (auto simp: check_kind_simps check_ask_def intro: get_rec_known' split: if_splits)
next
  assume k: "is_kind ''answer'' r"
  obtain r1 t where "is_kind ''answer'' r1" "check_kind cf q [] r1 t = Some []" "getj r ''ask_id'' = getj r1 ''ask_id''"
    "getj r ''role'' = getj r1 ''role''"
    using assms k by (rule admits_checked) simp
  then show "known (q_records q) ''ask'' (getj r ''ask_id'') (\<lambda>a. ask_addressee a = getj r ''role'')"
    by (auto simp: check_kind_simps check_answer_def Let_def intro: get_rec_known split: if_splits option.splits)
next
  fix f
  assume k: "is_kind ''close'' r" and f: "f \<in> set CLOSE_TARGET_FIELDS" "has r f"
  have nd: "f \<noteq> ''duplicate_of''" using f(1) by (auto simp: CLOSE_TARGET_FIELDS_def)
  obtain r1 t where r1: "accepted cf r1" "is_kind ''close'' r1" "check_kind cf q [] r1 t = Some []"
    "getj r f = getj r1 f" "has r f = has r1 f"
    using assms k by (rule admits_checked) (use nd in simp)
  then have c: "check_close_fields q r1 CLOSE_TARGET_FIELDS = []" by (simp add: check_kind_simps check_close_def)
  have "known (q_records q) (close_kind f) (getj r1 f) (\<lambda>_. True)"
    using c subset_refl f(1) by (rule check_close_fields_known)
      (use r1 f(2) accepted_close_fields [OF r1(1,2)] in auto)
  with r1(4) show "known (q_records q) (close_kind f) (getj r f) (\<lambda>_. True)" by simp
qed

lemma reachable_refs: "reachable cf q \<Longrightarrow> r \<in> set (q_records q) \<Longrightarrow> refs_ok (q_records q) r"
proof (rule reachable_entries)
  show "refs_ok (q_records t @ [r]) r" if "admits cf t r" for t r
    using admits_refs [OF that] by (rule refs_ok_mono) auto
  show "refs_ok (xs @ [r]) x" if "refs_ok xs x" for xs r x
    using that by (rule refs_ok_mono) auto
qed

subsection \<open>The current plan of a project\<close>

lemma current_steps_source:
  assumes "is_kind ''project'' p" and "p \<in> set (q_records q)"
  obtains r where "r \<in> set (q_records q)" and "is_kind ''project'' r \<or> is_kind ''amend'' r"
    and "current_steps q p = items_of (getj r ''steps'')"
proof (cases "amends_for_project q (getj p ''id'') = []")
  case True
  then have "current_steps q p = items_of (getj p ''steps'')"
    by (simp add: current_steps_def current_steps_and_version_def)
  with assms that show thesis by blast
next
  case False
  let ?a = "last (amends_for_project q (getj p ''id''))"
  from False have "?a \<in> set (amends_for_project q (getj p ''id''))" by (rule last_in_set)
  then have "?a \<in> set (q_records q)" "is_kind ''amend'' ?a" by (simp_all add: amends_for_project_def set_naming)
  moreover from False have "current_steps q p = items_of (getj ?a ''steps'')"
    by (simp add: current_steps_def current_steps_and_version_def Let_def)
  ultimately show thesis using that by blast
qed

lemma reachable_steps_ok:
  assumes "reachable cf q" and "p \<in> set (q_records q)" and "is_kind ''project'' p"
  shows "steps_ok (current_steps q p) \<and> current_steps q p \<noteq> []"
  using assms(3,2)
proof (rule current_steps_source)
  fix r
  assume "r \<in> set (q_records q)" "is_kind ''project'' r \<or> is_kind ''amend'' r"
    and e: "current_steps q p = items_of (getj r ''steps'')"
  with stored_steps [OF reachable_stored [OF assms(1)]] show ?thesis by (simp add: e)
qed

text \<open>The steps of a project whose every tracked target is done.\<close>

definition finished_steps :: "queue \<Rightarrow> obj \<Rightarrow> string set" where
  "finished_steps q p = {i. states_of_step q (getj p ''id'') (JStr i) \<noteq> [] \<and>
     list_all (\<lambda>s. s = ''done'') (states_of_step q (getj p ''id'') (JStr i))}"

lemma finished_satisfies:
  assumes "list_all is_str (items_of (getj st ''requires''))" and "set (requires_of st) \<subseteq> finished_steps q p"
  shows "step_prerequisites_satisfied st (states_of_step q (getj p ''id''))"
  unfolding step_prerequisites_satisfied_def list_all_iff
proof
  fix v assume v: "v \<in> set (items_of (getj st ''requires''))"
  with assms(1) obtain i where i: "v = JStr i" by (auto simp: list_all_iff is_str_iff)
  from v i have "i \<in> set (requires_of st)" by (force simp: requires_of_def)
  with assms(2) have "i \<in> finished_steps q p" by blast
  then show "states_of_step q (getj p ''id'') v \<noteq> [] \<and>
      (if getj st ''trigger'' = JStr ''all_done''
       then \<forall>s \<in> set (states_of_step q (getj p ''id'') v). s \<in> set FINISHED_STATES
       else \<forall>s \<in> set (states_of_step q (getj p ''id'') v). s = ''done'')"
    by (auto simp: finished_steps_def i list_all_iff FINISHED_STATES_def)
qed

lemma reachable_progress:
  assumes "reachable cf q" and "p \<in> set (q_records q)" and "is_kind ''project'' p"
    and "\<exists>i \<in> set (step_ids_of (current_steps q p)). i \<notin> finished_steps q p"
  shows "\<exists>s \<in> set (current_steps q p). \<exists>i. step_id_of s = Some i \<and> i \<notin> finished_steps q p \<and>
    step_prerequisites_satisfied (fields_of s) (states_of_step q (getj p ''id''))"
proof -
  have ok: "steps_ok (current_steps q p)" using reachable_steps_ok [OF assms(1-3)] by simp
  from steps_ok_progress [OF ok assms(4)] obtain s i where s: "s \<in> set (current_steps q p)"
    "step_id_of s = Some i" "i \<notin> finished_steps q p" "set (requires_of (fields_of s)) \<subseteq> finished_steps q p" by blast
  from ok s(1) have "list_all is_str (items_of (getj (fields_of s) ''requires''))" by (auto simp: steps_ok_def)
  from finished_satisfies [OF this s(4)] s(1-3) show ?thesis by blast
qed

subsection \<open>Plan versions\<close>

text \<open>Each version's number and the version it supersedes, in the order they were filed.\<close>

fun plan_chain :: "int \<Rightarrow> json \<Rightarrow> obj list \<Rightarrow> bool" where
  "plan_chain n prev [] = True"
| "plan_chain n prev (p # ps) \<longleftrightarrow>
     getj p ''version'' = JInt n \<and> getj p ''supersedes'' = prev \<and> plan_chain (n + 1) (getj p ''id'') ps"

lemma plan_chain_snoc:
  "plan_chain n prev (ps @ [p]) \<longleftrightarrow> plan_chain n prev ps \<and>
     getj p ''version'' = JInt (n + int (length ps)) \<and>
     getj p ''supersedes'' = (if ps = [] then prev else getj (last ps) ''id'')"
  by (induction ps arbitrary: n prev) (auto simp: algebra_simps)

lemma plan_chain_last:
  "plan_chain n prev ps \<Longrightarrow> ps \<noteq> [] \<Longrightarrow> getj (last ps) ''version'' = JInt (n + int (length ps) - 1)"
  by (induction n prev ps rule: plan_chain.induct) auto

lemma plan_chain_nth:
  "plan_chain n prev ps \<Longrightarrow> i < length ps \<Longrightarrow> getj (ps ! i) ''version'' = JInt (n + int i)"
proof (induction n prev ps arbitrary: i rule: plan_chain.induct)
  case (2 n prev p ps)
  then show ?case by (cases i) auto
qed simp

lemma accepted_version:
  assumes "accepted cf r" and "is_kind ''fort_plan'' r"
  shows "is_int (getj r ''version'')"
proof -
  from accepted_kind [OF assms(1)] assms(2) have "validate_fort_plan_fields cf r = []"
    by (auto simp: is_kind_def validate_kind_def)
  then show ?thesis by (auto simp: validate_fort_plan_fields_def Let_def split: if_splits)
qed

lemma admits_plan:
  assumes "admits cf q r" and "is_kind ''fort_plan'' r"
  shows "getj r ''version'' = JInt (case active_plan q of None \<Rightarrow> 1 | Some a \<Rightarrow> int_of (getj a ''version'') + 1) \<and>
    getj r ''supersedes'' = (case active_plan q of None \<Rightarrow> JNull | Some a \<Rightarrow> getj a ''id'')"
proof -
  obtain r1 t where r1: "accepted cf r1" "is_kind ''fort_plan'' r1" "check_kind cf q [] r1 t = Some []"
    and g: "getj r ''version'' = getj r1 ''version''" "getj r ''supersedes'' = getj r1 ''supersedes''"
    using assms by (rule admits_checked) simp
  from r1(2,3) have c: "check_fort_plan cf q r1 t = []" by (simp add: check_kind_simps)
  obtain v where v: "getj r1 ''version'' = JInt v"
    using accepted_version [OF r1(1,2)] by (auto simp: is_int_def split: json.splits)
  from c v have "v = (case active_plan q of None \<Rightarrow> 1 | Some a \<Rightarrow> int_of (getj a ''version'') + 1)"
    and "getj r1 ''supersedes'' = (case active_plan q of None \<Rightarrow> JNull | Some a \<Rightarrow> getj a ''id'')"
    unfolding check_fort_plan_def Let_def append_is_Nil_conv by (auto simp: int_of_def)
  with v g show ?thesis by simp
qed

lemma reachable_plan_chain:
  assumes "reachable cf q"
  shows "plan_chain 1 JNull (filter (is_kind ''fort_plan'') (q_records q))"
  using reachable_writes [OF assms]
proof (rule records.log_invariant)
  show "plan_chain 1 JNull (filter (is_kind ''fort_plan'') (q_records empty_queue))" by (simp add: empty_queue_def)
  fix t r
  assume a: "admits cf t r" and ih: "plan_chain 1 JNull (filter (is_kind ''fort_plan'') (q_records t))"
  show "plan_chain 1 JNull (filter (is_kind ''fort_plan'') (q_records t @ [r]))"
  proof (cases "is_kind ''fort_plan'' r")
    case True
    let ?ps = "filter (is_kind ''fort_plan'') (q_records t)"
    have act: "active_plan t = (if ?ps = [] then None else Some (last ?ps))"
      by (simp add: active_plan_def of_kind_def Let_def)
    have v: "?ps \<noteq> [] \<Longrightarrow> int_of (getj (last ?ps) ''version'') = int (length ?ps)"
      using plan_chain_last [OF ih] by (simp add: int_of_def)
    from admits_plan [OF a True] act v have "getj r ''version'' = JInt (1 + int (length ?ps))"
      "getj r ''supersedes'' = (if ?ps = [] then JNull else getj (last ?ps) ''id'')"
      by (auto split: if_splits)
    with True ih show ?thesis by (simp add: plan_chain_snoc)
  qed (use ih in simp)
qed

subsection \<open>How many records name a key\<close>

lemma key_count:
  assumes "distinct (keys_by (kind_key K P f) rs)" and "v \<noteq> JNull"
  shows "length (filter (\<lambda>r. is_kind K r \<and> P r \<and> getj r f = v) rs) \<le> 1"
  using assms(1)
proof (induction rs)
  case (Cons x xs)
  show ?case
  proof (cases "is_kind K x \<and> P x \<and> getj x f = v")
    case True
    with assms(2) have "kind_key K P f x = Some v" by (simp add: kind_key_def)
    with Cons.prems have "v \<notin> set (keys_by (kind_key K P f) xs)" by simp
    then have "filter (\<lambda>r. is_kind K r \<and> P r \<and> getj r f = v) xs = []"
      using assms(2) by (auto simp: kind_key_in filter_empty_conv)
    with True show ?thesis by simp
  next
    case False
    with Cons show ?thesis by (auto split: option.splits)
  qed
qed simp

lemma known_not_null: "known rs k i P \<Longrightarrow> i \<noteq> JNull"
  by (auto simp: known_def is_str_def)

lemma reachable_count:
  assumes "reachable cf q" and "distinct (keys_by (kind_key k P f) (q_records q))"
    and "\<And>r. r \<in> set (q_records q) \<Longrightarrow> refs_ok (q_records q) r \<Longrightarrow> is_kind k r \<Longrightarrow> P r \<Longrightarrow> getj r f \<noteq> JNull"
  shows "length (filter (\<lambda>r. is_kind k r \<and> P r \<and> getj r f = v) (q_records q)) \<le> 1"
proof (cases "v = JNull")
  case True
  then have "filter (\<lambda>r. is_kind k r \<and> P r \<and> getj r f = v) (q_records q) = []"
    using assms(3) reachable_refs [OF assms(1)] by (fastforce simp: filter_empty_conv)
  then show ?thesis by simp
qed (rule key_count [OF assms(2)])

lemma refs_ok_names:
  assumes "refs_ok rs r"
  shows "is_kind ''ruling'' r \<Longrightarrow> getj r ''proposal_id'' \<noteq> JNull"
    and "is_kind ''project'' r \<Longrightarrow> getj r ''from_ruling'' \<noteq> JNull"
    and "is_kind ''answer'' r \<Longrightarrow> getj r ''ask_id'' \<noteq> JNull"
    and "is_kind ''abandon'' r \<Longrightarrow> getj r ''project_id'' \<noteq> JNull"
    and "is_kind ''close'' r \<Longrightarrow> f \<in> set CLOSE_TARGET_FIELDS \<Longrightarrow> has r f \<Longrightarrow> getj r f \<noteq> JNull"
  using assms unfolding refs_ok_def by (blast dest: known_not_null)+

lemma reachable_refs_back:
  assumes "reachable cf q"
  shows "\<forall>i < length (q_records q). refs_ok (take i (q_records q)) (q_records q ! i)"
  using reachable_writes [OF assms]
proof (rule records.log_invariant)
  fix t r
  assume a: "admits cf t r" and ih: "\<forall>i < length (q_records t). refs_ok (take i (q_records t)) (q_records t ! i)"
  show "\<forall>i < length (q_records t @ [r]). refs_ok (take i (q_records t @ [r])) ((q_records t @ [r]) ! i)"
    using ih admits_refs [OF a] by (auto simp: nth_append less_Suc_eq)
qed (simp add: empty_queue_def)

end
