(* ===== verification/Step_Runs.thy ===== *)
theory Step_Runs
  imports Integrity
begin

section \<open>Runs of a step\<close>

text \<open>
  What \<open>begin_step_run\<close> guarantees of the call it lets through (\<open>begin_safe\<close>), and the invariant that
  keeps two calls of one step from being in flight together: a step has at most one run that is
  \<open>issuing\<close> or \<open>held\<close> (\<open>reachable_one_run\<close>). Cleanup calls are outside the plan and not counted.
\<close>

subsection \<open>What may run\<close>

definition unresolved :: "run_row \<Rightarrow> bool" where
  "unresolved r \<longleftrightarrow> rn_status r \<in> set [''issuing'', ''held'']"

definition same_step :: "run_row \<Rightarrow> run_row \<Rightarrow> bool" where
  "same_step r s \<longleftrightarrow> rn_project r = rn_project s \<and> rn_step r = rn_step s"

lemma find_step_Some:
  assumes "find_step steps i = Some st"
  shows "\<exists>s \<in> set steps. fields_of s = st \<and> getj st ''id'' = i"
  using assms find_Some_in [of "\<lambda>s. getj (fields_of s) ''id'' = i" steps] by (auto simp: find_step_def)

text \<open>The conditions under which a step's call may be made.\<close>

definition step_content :: "config \<Rightarrow> obj \<Rightarrow> string" where
  "step_content cf s = dumps (cf_float_repr cf) True (if truthy (getj s ''args'') then getj s ''args'' else JObj [])"

definition may_run :: "config \<Rightarrow> queue \<Rightarrow> string \<Rightarrow> string \<Rightarrow> bool" where
  "may_run cf q prid sid \<longleftrightarrow> (\<exists>project step proposal ruling.
     project \<in> set (q_records q) \<and> is_kind ''project'' project \<and> getj project ''id'' = JStr prid \<and>
     JObj step \<in> set (current_steps q project) \<and> getj step ''id'' = JStr sid \<and>
     proposal \<in> set (q_records q) \<and> is_kind ''proposal'' proposal \<and> getj step ''proposal_id'' = getj proposal ''id'' \<and>
     ruling \<in> set (q_records q) \<and> is_kind ''ruling'' ruling \<and> accepts ruling \<and> getj project ''from_ruling'' = getj ruling ''id'' \<and>
     \<not> is_closed q ''project_id'' (JStr prid) \<and> \<not> is_abandoned q (JStr prid) \<and>
     getj step ''tool'' = getj (fields_of (getj proposal ''step'')) ''tool'' \<and>
     step_content cf step = step_content cf (fields_of (getj proposal ''step'')) \<and>
     step_prerequisites_satisfied step (states_of_step q (JStr prid)) \<and>
     set (states_of_step q (JStr prid) (JStr sid)) \<inter> {''issued'', ''done'', ''failed''} = {} \<and>
     (\<forall>r \<in> set (q_runs q). rn_project r = prid \<and> rn_step r = sid \<longrightarrow> \<not> unresolved r))"

lemma runnable_may_run:
  assumes "runnable_reasons cf q prid sid latched = Ok []" and "reachable cf q"
  shows "may_run cf q prid sid"
proof -
  from assms(1) obtain project where pr: "get_rec q (JStr prid) ''project'' = Some project"
    by (auto simp: runnable_reasons_def split: option.splits)
  note un = assms(1) [unfolded runnable_reasons_def pr option.case]
  from un have open': "\<not> is_closed q ''project_id'' (JStr prid)" "\<not> is_abandoned q (JStr prid)" by (auto split: if_splits)
  from un open' obtain rl where rl: "get_rec q (getj project ''from_ruling'') ''ruling'' = Some rl" "accepts rl"
    by (auto split: option.splits if_splits)
  from un open' rl obtain step where st: "find_step (current_steps q project) (JStr sid) = Some step"
    by (auto split: option.splits)
  from un open' rl st obtain p where p: "get_rec q (getj step ''proposal_id'') ''proposal'' = Some p" "has p ''step''"
    by (auto split: option.splits if_splits)
  from un open' rl st p have rr: "run_reasons cf q project step p (proposal_of_ruling q (getj project ''from_ruling'')) latched = Ok []"
    by (auto split: if_splits)
  note pr' = get_rec_Some [OF pr] and rl' = get_rec_Some [OF rl(1)] and p' = get_rec_Some [OF p(1)]
  from find_step_Some [OF st] obtain s where s: "s \<in> set (current_steps q project)" "fields_of s = step" "getj step ''id'' = JStr sid" by blast
  have "steps_ok (current_steps q project)" using reachable_steps_ok [OF assms(2)] pr' by blast
  with s have "is_obj s" by (simp add: steps_ok_def)
  with s(2) have "s = JObj step" by (auto elim: is_objE)
  with s(1) have js: "JObj step \<in> set (current_steps q project)" by simp
  from rr have facts: "getj step ''tool'' = getj (fields_of (getj p ''step'')) ''tool''"
    "step_content cf step = step_content cf (fields_of (getj p ''step''))"
    "step_prerequisites_satisfied step (states_of_step q (getj project ''id''))"
    "\<not> list_ex (\<lambda>s. s \<in> set [''issued'', ''done'']) (states_of_step q (getj project ''id'') (getj step ''id''))"
    "\<not> list_ex (\<lambda>s. s = ''failed'') (states_of_step q (getj project ''id'') (getj step ''id''))"
    "\<not> list_ex (\<lambda>r. JStr (rn_project r) = getj project ''id'' \<and> JStr (rn_step r) = getj step ''id'' \<and>
       rn_status r \<in> set [''issuing'', ''held'']) (q_runs q)"
    unfolding run_reasons_def Let_def step_content_def
    by (auto simp: obind_Ok split: if_splits option.splits outcome.splits)
  have "set (states_of_step q (JStr prid) (JStr sid)) \<inter> {''issued'', ''done'', ''failed''} = {}"
    using facts(4,5) s(3) pr' by (auto simp: list_ex_iff)
  moreover have "\<forall>r \<in> set (q_runs q). rn_project r = prid \<and> rn_step r = sid \<longrightarrow> \<not> unresolved r"
    using facts(6) s(3) pr' by (auto simp: list_ex_iff unresolved_def)
  moreover have "step_prerequisites_satisfied step (states_of_step q (JStr prid))" using facts(3) pr' by simp
  ultimately show ?thesis unfolding may_run_def
    using pr' rl' rl(2) p' js s(3) open' facts(1,2) by (intro exI [of _ project] exI [of _ step] exI [of _ p] exI [of _ rl]) simp
qed

lemma begin_Ok:
  assumes "begin_step_run cf now q prid sid tick baseline = Ok (i, q')"
  shows "(if is_cleanup sid then get_rec q (JStr prid) ''project'' \<noteq> None else runnable_reasons cf q prid sid False = Ok []) \<and>
    i = length (q_runs q) + 1 \<and> (\<exists>r. q' = q\<lparr>q_runs := q_runs q @ [r]\<rparr> \<and> rn_id r = i \<and> rn_project r = prid \<and> rn_step r = sid \<and>
      rn_status r = ''issuing'' \<and> rn_tick r = tick \<and> rn_baseline r = baseline)"
  using assms by (auto simp: begin_step_run_def obind_Ok Let_def split: if_splits)

subsection \<open>At most one run in flight\<close>

definition one_run :: "run_row list \<Rightarrow> bool" where
  "one_run rs \<longleftrightarrow> (\<forall>i < length rs. \<forall>j < length rs.
     unresolved (rs ! i) \<and> unresolved (rs ! j) \<and> same_step (rs ! i) (rs ! j) \<and> \<not> is_cleanup (rn_step (rs ! i)) \<longrightarrow> i = j)"

lemma one_run_snoc:
  assumes "one_run rs" and "is_cleanup (rn_step r) \<or> (\<forall>s \<in> set rs. same_step s r \<longrightarrow> \<not> unresolved s)"
  shows "one_run (rs @ [r])"
  unfolding one_run_def
proof (intro allI impI)
  fix i j
  assume i: "i < length (rs @ [r])" and j: "j < length (rs @ [r])"
    and h: "unresolved ((rs @ [r]) ! i) \<and> unresolved ((rs @ [r]) ! j) \<and> same_step ((rs @ [r]) ! i) ((rs @ [r]) ! j) \<and>
      \<not> is_cleanup (rn_step ((rs @ [r]) ! i))"
  consider "i < length rs" "j < length rs" | "i < length rs" "j = length rs" | "i = length rs" "j < length rs"
    | "i = length rs" "j = length rs" using i j by force
  then show "i = j"
  proof cases
    case 1
    with h assms(1) show ?thesis by (simp add: one_run_def nth_append)
  next
    case 2
    with h have "unresolved (rs ! i)" "same_step (rs ! i) r" "rs ! i \<in> set rs" by (simp_all add: nth_append)
    with assms(2) 2 h show ?thesis by (auto simp: nth_append same_step_def)
  next
    case 3
    with h have "unresolved (rs ! j)" "same_step (rs ! j) r" "rs ! j \<in> set rs" by (simp_all add: nth_append same_step_def)
    with assms(2) 3 h show ?thesis by (auto simp: nth_append)
  qed simp
qed


lemma one_run_map:
  assumes "one_run rs"
    and "\<And>r. r \<in> set rs \<Longrightarrow> rn_project (f r) = rn_project r \<and> rn_step (f r) = rn_step r \<and> (unresolved (f r) \<longrightarrow> unresolved r)"
  shows "one_run (map f rs)"
  using assms(1) assms(2) [OF nth_mem] unfolding one_run_def same_step_def by (simp, blast)

lemma settle_one_run:
  assumes "run_row_of q i = Some row" and "rn_status row = ''issuing''" and "ids_in_order q" and "one_run (q_runs q)"
  shows "one_run (q_runs (settle_run i st out h ex now q))"
proof -
  have row: "row \<in> set (q_runs q)" "rn_id row = i"
    using find_Some_in [OF assms(1) [unfolded run_row_of_def]] by simp_all
  have inj: "inj_on rn_id (set (q_runs q))"
    using assms(3) numbered_distinct by (auto simp: ids_in_order_def distinct_map)
  let ?f = "\<lambda>r. if rn_id r = i then r\<lparr>rn_status := st, rn_outcome := JStr out, rn_handle := h,
    rn_executed := ex, rn_ended := JStr now\<rparr> else r"
  have "one_run (map ?f (q_runs q))"
  proof (rule one_run_map [OF assms(4)])
    fix r assume r: "r \<in> set (q_runs q)"
    have "r = row" if "rn_id r = i" using inj_onD [OF inj] r row that by auto
    with assms(2) show "rn_project (?f r) = rn_project r \<and> rn_step (?f r) = rn_step r \<and> (unresolved (?f r) \<longrightarrow> unresolved r)"
      by (auto simp: unresolved_def)
  qed
  then show ?thesis by (simp add: settle_run_def)
qed

lemma settle_after:
  assumes "run_row_of q i = Some row" and "rn_status row = ''issuing''" and "ids_in_order q" and "one_run (q_runs q)"
    and "append_in_conn cf now q r JNull = Ok (w, q1)"
  shows "one_run (q_runs (settle_run i st out h ex now q1))"
proof (rule settle_one_run)
  have runs: "q_runs q1 = q_runs q" using append_in_conn_runs [OF assms(5)] .
  then show "run_row_of q1 i = Some row" "one_run (q_runs q1)" using assms(1,4) by (simp_all add: run_row_of_def)
  show "rn_status row = ''issuing''" by (rule assms(2))
  show "ids_in_order q1" using msteps_ids [OF append_in_conn_writes [OF assms(5)] assms(3)] .
qed

lemma finish_one_run:
  assumes "finish_step_run cf now q i executed handle = Ok (w, q')" and "ids_in_order q" and "one_run (q_runs q)"
  shows "one_run (q_runs q')"
proof -
  from assms(1) obtain row h where row: "run_row_of q i = Some row" "rn_status row = ''issuing''"
    and h: "(if truthy handle then Some handle else first_handle executed) = Some h"
    by (auto simp: finish_step_run_def split: option.splits if_splits)
  show ?thesis
  proof (cases "is_cleanup (rn_step row)")
    case True
    with assms(1) row h have "record_run now q i executed h None = Ok (w, q')" by (simp add: finish_step_run_def)
    then obtain out ex where "q' = settle_run i ''recorded'' out h ex now q" using record_run_Ok by blast
    then show ?thesis using settle_one_run [OF row assms(2,3)] by simp
  next
    case False
    with assms(1) row h obtain r w1 q1 where app: "append_in_conn cf now q r JNull = Ok (w1, q1)"
      and rec: "record_run now q1 i executed h (Some w1) = Ok (w, q')"
      by (auto simp: finish_step_run_def split: option.splits)
    from record_run_Ok [OF rec] obtain out ex where "q' = settle_run i ''recorded'' out h ex now q1" by blast
    then show ?thesis using settle_after [OF row assms(2,3) app] by simp
  qed
qed

lemma resolve_one_run:
  assumes "resolve_step_run cf now q i out handle tick notes = Ok (w, q')" and "ids_in_order q" and "one_run (q_runs q)"
  shows "one_run (q_runs q')"
proof -
  from assms(1) obtain status row where st: "map_of RESOLVE_STATUS out = Some status"
    and row: "run_row_of q i = Some row" "rn_status row = ''issuing''"
    by (auto simp: resolve_step_run_def split: option.splits if_splits)
  from assms(1) st row consider (plain) "q' = settle_run i status out handle JNull now q"
    | (step) r w1 q1 ex where "append_in_conn cf now q r JNull = Ok (w1, q1)"
        "q' = settle_run i status out handle ex now q1"
    by (fastforce simp: resolve_step_run_def split: option.splits if_splits prod.splits)
  then show ?thesis
  proof cases
    case plain
    then show ?thesis using settle_one_run [OF row assms(2,3)] by simp
  next
    case step
    then show ?thesis using settle_after [OF row assms(2,3) step(1)] by simp
  qed
qed

lemma begin_one_run:
  assumes "begin_step_run cf now q prid sid tick baseline = Ok (i, q')" and "reachable cf q" and "one_run (q_runs q)"
  shows "one_run (q_runs q')"
proof -
  from begin_Ok [OF assms(1)] obtain r where r: "q' = q\<lparr>q_runs := q_runs q @ [r]\<rparr>" "rn_project r = prid" "rn_step r = sid"
    and c: "if is_cleanup sid then get_rec q (JStr prid) ''project'' \<noteq> None else runnable_reasons cf q prid sid False = Ok []" by blast
  have "is_cleanup (rn_step r) \<or> (\<forall>s \<in> set (q_runs q). same_step s r \<longrightarrow> \<not> unresolved s)"
  proof (cases "is_cleanup sid")
    case False
    with c have "runnable_reasons cf q prid sid False = Ok []" by simp
    from runnable_may_run [OF this assms(2)] show ?thesis by (auto simp: may_run_def same_step_def r)
  qed (simp add: r)
  with one_run_snoc [OF assms(3)] show ?thesis by (simp add: r(1))
qed

lemma qstep_other_runs:
  assumes "qstep cf q q'"
  shows "q_runs q' = q_runs q \<or> (\<exists>now prid sid t b i. begin_step_run cf now q prid sid t b = Ok (i, q')) \<or>
    (\<exists>now i e h w. finish_step_run cf now q i e h = Ok (w, q')) \<or>
    (\<exists>now i out h t n w. resolve_step_run cf now q i out h t n = Ok (w, q'))"
  using assms
proof cases
  case (q_cutover g rid)
  then show ?thesis by (auto simp: set_cutover_def set_meta_def split: if_splits option.splits)
next
  case (q_open now rid urgency tick snapshot r)
  then show ?thesis by (auto simp: open_project_from_ruling_def dest: append_in_conn_runs split: option.splits)
next
  case (q_direct now p r t w)
  then show ?thesis by (auto simp: file_direct_action_def dest!: append_in_conn_runs split: if_splits)
next
  case (q_followup now pid tick snapshot r)
  then show ?thesis by (auto simp: apply_followup_def dest: append_in_conn_runs split: option.splits)
next
  case (q_observe now prid sid t d detail snapshot r)
  then show ?thesis by (auto simp: record_observation_def Let_def dest: append_in_conn_runs split: if_splits)
next
  case (q_close now target out reason cleanup tick snapshot r)
  then show ?thesis by (auto simp: close_target_def close_in_conn_def dest: append_plain_runs split: option.splits)
next
  case (q_legacy now target reason tick snapshot r)
  then show ?thesis
    by (auto simp: close_legacy_def close_in_conn_def Let_def dest: append_plain_runs split: option.splits if_splits)
next
  case (q_grade pr call now t us)
  have "q_runs (apply_grades us q) = q_runs q" for us q
    by (induction us arbitrary: q) (simp_all add: apply_grades_def update_prediction_def)
  with grade_due_updates [OF q_grade] show ?thesis by simp
next
  case (q_void now pid why)
  then show ?thesis by (auto simp: void_prediction_def update_prediction_def split: if_splits option.splits)
next
  case (q_reviewed t)
  then show ?thesis by (simp add: mark_plan_reviewed_def set_meta_def)
qed (auto dest: append_in_conn_runs)

lemma reachable_one_run:
  assumes "reachable cf q"
  shows "one_run (q_runs q)"
  using assms [unfolded reachable_def]
proof (induction rule: rtranclp_induct)
  case base
  show ?case by (simp add: one_run_def empty_queue_def)
next
  case (step t u)
  have t: "reachable cf t" using step.hyps(1) by (simp add: reachable_def)
  from qstep_other_runs [OF step.hyps(2)] show ?case
    using step.IH begin_one_run [OF _ t] finish_one_run [OF _ reachable_ids [OF t]] resolve_one_run [OF _ reachable_ids [OF t]]
    by (elim disjE exE) simp_all
qed

end
