(* ===== verification/Predictions.thy ===== *)
theory Predictions
  imports Integrity
begin

section \<open>The predictions table\<close>

text \<open>
  The table mirrors the proposals: one row per proposal, in order, with the prediction the proposal
  wrote (\<open>reachable_mirror\<close>), so what \<open>validate\<close> guarantees of a proposal's prediction holds of every
  row. Then grading: what one cycle changes, that a second one at the same tick changes nothing, and the rows it cannot grade.
\<close>

subsection \<open>One row per proposal\<close>

definition row_of :: "prediction \<Rightarrow> string \<times> json \<times> json \<times> json \<times> int" where
  "row_of p = (pr_record_id p, pr_signal p, pr_op p, pr_value p, pr_after p)"

definition predicted :: "obj \<Rightarrow> string \<times> json \<times> json \<times> json \<times> int" where
  "predicted r = (let pr = fields_of (getj r ''prediction'') in
     (rec_id r, getj pr ''signal'', getj pr ''op'', getj pr ''value'', int_of (getj pr ''check_after_ticks'')))"

definition mirrored :: "queue \<Rightarrow> bool" where
  "mirrored q \<longleftrightarrow> map row_of (q_preds q) = map predicted (of_kind q ''proposal'')"

lemma arm_first_rows: "map row_of (arm_first pid t ps) = map row_of ps"
  by (induction ps) (auto simp: row_of_def)

lemma arm_prediction_rows: "map row_of (q_preds (arm_prediction pid t q)) = map row_of (q_preds q)"
  by (simp add: arm_prediction_def arm_first_rows)

lemma commit_rows:
  "map row_of (q_preds (commit_record r t q)) =
     map row_of (q_preds q) @ (if is_kind ''proposal'' r then [predicted r] else [])"
proof -
  have o: "map row_of (q_preds (apply_observation r q1)) = map row_of (q_preds q1)" for q1
    by (auto simp: apply_observation_def arm_prediction_rows Let_def split: option.splits)
  have e: "map row_of (q_preds (arm_on_first_execution r q1)) = map row_of (q_preds q1)" for q1
    by (auto simp: arm_on_first_execution_def arm_prediction_rows Let_def split: option.splits)
  show ?thesis
    by (simp add: commit_record_def write_effects_def o e insert_record_def seed_step_targets_def
        insert_prediction_def row_of_def predicted_def rec_id_def Let_def)
qed

lemma core_row: "pred_core a = pred_core b \<Longrightarrow> row_of a = row_of b"
  by (simp add: pred_core_def row_of_def)

lemma rows_move_same:
  assumes "preds_move ps ps'" and "length ps' = length ps"
  shows "map row_of ps' = map row_of ps"
  using assms by (intro nth_equalityI) (auto simp: rows_move_def intro: core_row)

lemma mstep_mirror:
  assumes "mstep cf q q'" and "mirrored q"
  shows "mirrored q'"
  using assms
proof cases
  case (m_append now r t r')
  with assms(2) show ?thesis
    by (auto dest!: append_plain_commit simp: mirrored_def commit_rows of_kind_def)
next
  case (m_preds ps)
  with assms(2) show ?thesis by (simp add: mirrored_def rows_move_same of_kind_def)
qed (use assms(2) in \<open>simp_all add: mirrored_def of_kind_def\<close>)

lemma reachable_mirror:
  assumes "reachable cf q"
  shows "mirrored q"
  using reachable_writes [OF assms]
proof (induction rule: rtranclp_induct)
  case base
  show ?case by (simp add: mirrored_def empty_queue_def of_kind_def)
qed (rule mstep_mirror)

lemma reachable_prediction:
  assumes "reachable cf q" and "p \<in> set (q_preds q)"
  obtains r where "r \<in> set (q_records q)" and "is_kind ''proposal'' r" and "row_of p = predicted r"
    and "prediction_ok (fields_of (getj r ''prediction''))"
proof -
  have "row_of p \<in> set (map row_of (q_preds q))" using assms(2) by simp
  then have "row_of p \<in> set (map predicted (of_kind q ''proposal''))"
    using reachable_mirror [OF assms(1)] by (simp only: mirrored_def)
  then obtain r where r: "r \<in> set (q_records q)" "is_kind ''proposal'' r" "row_of p = predicted r"
    by (auto simp: of_kind_def)
  with stored_prediction [OF reachable_stored [OF assms(1) r(1)] r(2)] that show thesis by blast
qed

subsection \<open>Life cycle\<close>

lemma preds_path:
  assumes "(mstep cf)\<^sup>*\<^sup>* q q'" and "i < length (q_preds q)"
  shows "i < length (q_preds q') \<and> pred_core (q_preds q' ! i) = pred_core (q_preds q ! i) \<and>
    pred_edge\<^sup>*\<^sup>* (pr_status (q_preds q ! i)) (pr_status (q_preds q' ! i))"
  using assms
proof (induction rule: rtranclp_induct)
  case (step t u)
  from mstep_preds [OF step.hyps(2)] step.IH [OF step.prems]
  show ?case unfolding rows_move_def by (auto intro: rtranclp.rtrancl_into_rtrancl)
qed simp

lemma final_no_edge: "a \<in> set FINAL_STATUSES \<Longrightarrow> \<not> pred_edge a b"
  by (auto simp: FINAL_STATUSES_def pred_edge_def)

subsection \<open>Grading\<close>

lemma grades_frame:
  "q_records (apply_grades us q) = q_records q \<and> q_targets (apply_grades us q) = q_targets q \<and>
   q_meta (apply_grades us q) = q_meta q \<and> q_runs (apply_grades us q) = q_runs q"
  by (induction us arbitrary: q) (simp_all add: apply_grades_def update_prediction_def)

definition graded_by :: "grade_update \<Rightarrow> prediction \<Rightarrow> prediction" where
  "graded_by u p = p\<lparr>pr_status := gu_status u, pr_actual := gu_actual u, pr_graded_at := gu_graded_at u, pr_note := gu_note u\<rparr>"

lemma find_update: "find (\<lambda>u. gu_id u = i) us = None \<longleftrightarrow> i \<notin> gu_id ` set us"
  by (auto simp: find_None_iff)

lemma apply_grades_preds:
  assumes "distinct (map gu_id us)"
  shows "q_preds (apply_grades us q) = map (\<lambda>p. case find (\<lambda>u. gu_id u = pr_id p) us of
     None \<Rightarrow> p | Some u \<Rightarrow> graded_by u p) (q_preds q)"
  using assms
proof (induction us arbitrary: q)
  case Nil
  show ?case by (simp add: apply_grades_def)
next
  case (Cons u us)
  let ?f = "\<lambda>p. if pr_id p = gu_id u then graded_by u p else p"
  let ?q = "q\<lparr>q_preds := map ?f (q_preds q)\<rparr>"
  have q: "apply_grades (u # us) q = apply_grades us ?q"
    by (simp add: apply_grades_def update_prediction_def graded_by_def cong: if_cong)
  have no: "find (\<lambda>v. gu_id v = gu_id u) us = None"
    using Cons.prems by (simp add: find_update)
  have "q_preds (apply_grades us ?q) = map (\<lambda>p. case find (\<lambda>u. gu_id u = pr_id p) us of
     None \<Rightarrow> p | Some u \<Rightarrow> graded_by u p) (q_preds ?q)"
    using Cons.prems by (intro Cons.IH) simp
  also have "\<dots> = map (\<lambda>p. case find (\<lambda>u. gu_id u = pr_id p) (u # us) of
     None \<Rightarrow> p | Some u \<Rightarrow> graded_by u p) (q_preds q)"
    using no by (auto simp: graded_by_def)
  finally show ?case by (simp only: q)
qed

lemma find_due:
  assumes "map gu_id us = map pr_id ds"
  shows "find (\<lambda>u. gu_id u = i) us = None \<longleftrightarrow> i \<notin> pr_id ` set ds"
proof -
  from assms have "gu_id ` set us = pr_id ` set ds" by (metis image_set)
  then show ?thesis by (simp add: find_update)
qed

text \<open>A prediction that was due is final after the cycle; every other row is untouched.\<close>

lemma grade_due_rows:
  assumes "grade_due pr call now q t = Some (us, q')" and "ids_in_order q" and "p \<in> set (q_preds q)"
  shows "if p \<in> set (pending_due q t)
    then \<exists>p' \<in> set (q_preds q'). pred_core p' = pred_core p \<and> pr_status p' \<in> set [''graded_true'', ''graded_false'', ''unresolvable'']
    else p \<in> set (q_preds q')"
proof -
  from grade_due_updates [OF assms(1)] have q': "q' = apply_grades us q" and ids: "map gu_id us = map pr_id (pending_due q t)"
    and st: "\<forall>u \<in> set us. gu_status u \<in> set [''graded_true'', ''graded_false'', ''unresolvable'']" by blast+
  have "distinct (map gu_id us)" unfolding ids by (rule pending_due_rows(1) [OF assms(2)])
  note ps = apply_grades_preds [OF this, of q, folded q']
  let ?g = "\<lambda>p. case find (\<lambda>u. gu_id u = pr_id p) us of None \<Rightarrow> p | Some u \<Rightarrow> graded_by u p"
  have in': "?g p \<in> set (q_preds q')" unfolding ps using assms(3) by simp
  have inj: "inj_on pr_id (set (q_preds q))"
    using assms(2) numbered_distinct by (auto simp: ids_in_order_def distinct_map)
  have sub: "set (pending_due q t) \<subseteq> set (q_preds q)" by (auto simp: pending_due_def)
  show ?thesis
  proof (cases "p \<in> set (pending_due q t)")
    case True
    then have "find (\<lambda>u. gu_id u = pr_id p) us \<noteq> None" using find_due [OF ids] by blast
    then obtain u where u: "find (\<lambda>u. gu_id u = pr_id p) us = Some u" by blast
    with find_Some_in [OF u] st have "gu_status u \<in> set [''graded_true'', ''graded_false'', ''unresolvable'']" by blast
    with in' u have "pred_core (graded_by u p) = pred_core p \<and>
      pr_status (graded_by u p) \<in> set [''graded_true'', ''graded_false'', ''unresolvable'']"
      by (simp add: graded_by_def pred_core_def)
    with in' u True show ?thesis by (auto simp del: set_simps)
  next
    case False
    have "pr_id p \<notin> pr_id ` set (pending_due q t)"
      using False inj_onD [OF inj] assms(3) sub by blast
    then have "find (\<lambda>u. gu_id u = pr_id p) us = None" using find_due [OF ids] by blast
    with in' False show ?thesis by simp
  qed
qed

lemma grade_due_none_left:
  assumes "grade_due pr call now q t = Some (us, q')" and "ids_in_order q"
  shows "pending_due q' t = []"
proof -
  from grade_due_updates [OF assms(1)] have q': "q' = apply_grades us q" and ids: "map gu_id us = map pr_id (pending_due q t)"
    and st: "\<forall>u \<in> set us. gu_status u \<in> set [''graded_true'', ''graded_false'', ''unresolvable'']" by blast+
  have "distinct (map gu_id us)" unfolding ids by (rule pending_due_rows(1) [OF assms(2)])
  note ps = apply_grades_preds [OF this, of q, folded q']
  have "\<not> (pr_status x = ''pending'' \<and> pr_due x \<le> t)" if "x \<in> set (q_preds q')" for x
  proof -
    from that ps obtain p where p: "p \<in> set (q_preds q)"
      "x = (case find (\<lambda>u. gu_id u = pr_id p) us of None \<Rightarrow> p | Some u \<Rightarrow> graded_by u p)" by auto
    show ?thesis
    proof (cases "find (\<lambda>u. gu_id u = pr_id p) us")
      case None
      then have "p \<notin> set (pending_due q t)" using find_due [OF ids] by auto
      with p None show ?thesis by (auto simp: pending_due_def)
    next
      case (Some u)
      with find_Some_in [OF Some] st p show ?thesis by (auto simp: graded_by_def)
    qed
  qed
  then show ?thesis by (auto simp: pending_due_def filter_empty_conv)
qed

text \<open>A pending prediction whose operator asks for membership in a number: reading its signal gives
  a value, comparing raises, and the whole batch is lost.\<close>

lemma grade_one_poison:
  assumes "parse_signal (pr_signal p) = Some s" and "read_signal pr s call = SigValue v"
    and "pr_op p = JStr ''in''" and "is_int (pr_value p) \<or> is_bool (pr_value p)"
  shows "grade_one pr call now p = None"
  using assms in_on_scalar [OF assms(4), of v]
  by (simp add: grade_one_def apply_predicate_def PRESENCE_OPS_def Let_def)

lemma grade_due_poison:
  assumes "p \<in> set (pending_due q t)" and "grade_one pr call now p = None"
  shows "grade_due pr call now q t = None"
proof -
  have "None \<in> set (map (grade_one pr call now) (pending_due q t))"
    using assms by (metis image_eqI image_set)
  then have "those (map (grade_one pr call now) (pending_due q t)) = None"
    by (rule those_None) simp
  then show ?thesis by (simp add: grade_due_def)
qed

end
