(* ===== verification/Effects.thy ===== *)
theory Effects
  imports Step_Runs Predictions Board
begin

section \<open>What the operations do to a reachable queue\<close>

text \<open>
  The functional behaviour of single operations: the boards agree with the operations they
  announce (\<open>openable_iff\<close>, \<open>followup_iff\<close>, \<open>ruling_pending_iff\<close>), what an amend may change, what
  an executed record, an observation and a plan version need and what they write.
\<close>

subsection \<open>Unique ids\<close>

lemma reachable_same_id:
  assumes "reachable cf q" and "r \<in> set (q_records q)" and "s \<in> set (q_records q)" and "getj r ''id'' = getj s ''id''"
  shows "r = s"
proof -
  have "inj_on (\<lambda>r. getj r ''id'') (set (q_records q))"
    using reachable_distinct_ids [OF assms(1)] by (simp only: distinct_map)
  from inj_onD [OF this assms(4,2,3)] show ?thesis .
qed

lemma reachable_str_id: "reachable cf q \<Longrightarrow> r \<in> set (q_records q) \<Longrightarrow> getj r ''id'' = JStr (rec_id r)"
proof -
  assume "reachable cf q" and "r \<in> set (q_records q)"
  then have "nonempty_str (getj r ''id'')" by (rule reachable_str_ids)
  then obtain s where "getj r ''id'' = JStr s" by (rule nonempty_strE)
  then show "getj r ''id'' = JStr (rec_id r)" by (simp only: rec_id_def str_of_def json.case)
qed

lemma find_unique:
  assumes "x \<in> set xs" and "P x" and "\<And>y. y \<in> set xs \<Longrightarrow> P y \<Longrightarrow> y = x"
  shows "find P xs = Some x"
proof -
  from assms(1,2) have "find P xs \<noteq> None" by (metis find_None_iff)
  then obtain y where y: "find P xs = Some y" by blast
  from find_Some_in [OF y] have "y = x" by (blast intro: assms(3))
  with y show ?thesis by simp
qed

lemma reachable_get:
  assumes "reachable cf q" and "r \<in> set (q_records q)" and "is_kind k r"
  shows "get_rec q (getj r ''id'') k = Some r"
proof -
  have "find (\<lambda>s. getj s ''id'' = getj r ''id'') (of_kind q k) = Some r"
  proof (rule find_unique)
    show "r \<in> set (of_kind q k)" using assms(2,3) by (simp add: of_kind_def)
  next
    fix s assume "s \<in> set (of_kind q k)" and e: "getj s ''id'' = getj r ''id''"
    then have "s \<in> set (q_records q)" by (simp add: of_kind_def)
    from reachable_same_id [OF assms(1) this assms(2) e] show "s = r" .
  qed (rule refl)
  with reachable_str_id [OF assms(1,2)] show ?thesis by (simp add: get_rec_def is_str_def)
qed

lemma reachable_get_iff:
  assumes "reachable cf q"
  shows "get_rec q i k = Some r \<longleftrightarrow> r \<in> set (q_records q) \<and> is_kind k r \<and> getj r ''id'' = i"
  using get_rec_Some [of q i k r] reachable_get [OF assms, of r k] by blast

subsection \<open>The boards and the operations they announce\<close>

lemma known_get:
  assumes "reachable cf q" and "known (q_records q) k i P"
  obtains x where "get_rec q i k = Some x" and "P x"
  using assms(2) reachable_get [OF assms(1)] unfolding known_def by blast

lemma open_reasons_Nil:
  assumes "get_rec q (getj ruling ''proposal_id'') ''proposal'' = Some p"
  shows "open_reasons cf q rid ruling = Ok [] \<longleftrightarrow> accepts ruling \<and> getj p ''project_id'' = JNull \<and>
    group_of (cf_routing cf) (getj p ''type'') \<noteq> None \<and> is_routed (cf_routing cf) (getj p ''type'') \<and> has p ''step'' \<and>
    (\<exists>c n. effective_cutover_num cf q (group_of (cf_routing cf) (getj p ''type'')) = Ok (Some c) \<and> num rid = Some n \<and> c < n) \<and>
    \<not> is_closed q ''ruling_id'' (JStr rid) \<and> find_project_for_ruling q (JStr rid) = None"
  unfolding open_reasons_def Let_def assms
  by (cases "group_of (cf_routing cf) (getj p ''type'')")
    (auto simp: num_or_refuse_def split: option.splits)

lemma openable_ruling_iff:
  assumes "get_rec q (getj ruling ''proposal_id'') ''proposal'' = Some p" and "accepts ruling" and "getj ruling ''id'' = JStr rid"
  shows "(\<exists>e. openable_ruling cf q ruling = Ok (Some e)) \<longleftrightarrow> open_reasons cf q rid ruling = Ok []"
proof -
  let ?ty = "getj p ''type''"
  let ?e = "\<lparr>op_ruling = rid, op_proposal = rec_id p, op_role = getj p ''role''\<rparr>"
  let ?fits = "getj p ''project_id'' = JNull \<and> group_of (cf_routing cf) ?ty \<noteq> None \<and> is_routed (cf_routing cf) ?ty \<and>
    has p ''step'' \<and> \<not> is_closed q ''ruling_id'' (JStr rid) \<and> find_project_for_ruling q (JStr rid) = None"
  have r: "rec_id ruling = rid" using assms(3) by (simp add: rec_id_def str_of_def)
  have "(\<exists>e. openable_ruling cf q ruling = Ok (Some e)) \<longleftrightarrow> ?fits \<and>
      (\<exists>c n. effective_cutover_num cf q (group_of (cf_routing cf) ?ty) = Ok (Some c) \<and> num rid = Some n \<and> c < n)"
    (is "?l \<longleftrightarrow> ?fits \<and> ?late")
  proof
    assume ?l
    then show "?fits \<and> ?late"
      by (auto simp: openable_ruling_def assms(1,3) r Let_def num_or_refuse_def split: option.splits if_splits)
  next
    assume "?fits \<and> ?late"
    then show ?l by (auto simp: openable_ruling_def assms(1,3) r Let_def num_or_refuse_def)
  qed
  then show ?thesis unfolding open_reasons_Nil [OF assms(1)] using assms(2) by blast
qed

lemma openable_ruling_id: "openable_ruling cf q ruling = Ok (Some e) \<Longrightarrow> op_ruling e = rec_id ruling"
  by (auto simp: openable_ruling_def Let_def split: option.splits if_splits)

lemma openable_iff:
  assumes "reachable cf q" and "openable_rulings cf q = Ok os"
  shows "(\<exists>e \<in> set os. op_ruling e = rid) \<longleftrightarrow>
    (\<exists>ruling. get_rec q (JStr rid) ''ruling'' = Some ruling \<and> open_reasons cf q rid ruling = Ok [])"
proof -
  note c = assms(2) [unfolded openable_rulings_def]
  have one: "(\<exists>e. openable_ruling cf q r = Ok (Some e)) \<longleftrightarrow> open_reasons cf q (rec_id r) r = Ok []"
    if r: "r \<in> set (q_records q)" "is_kind ''ruling'' r" "accepts r" for r
  proof -
    from reachable_refs [OF assms(1) r(1)] r(2) have "known (q_records q) ''proposal'' (getj r ''proposal_id'') (\<lambda>_. True)"
      by (simp add: refs_ok_def)
    with assms(1) obtain p where p: "get_rec q (getj r ''proposal_id'') ''proposal'' = Some p" by (rule known_get)
    show ?thesis by (rule openable_ruling_iff [OF p r(3) reachable_str_id [OF assms(1) r(1)]])
  qed
  have acc: "accepts ruling" if "get_rec q (JStr rid) ''ruling'' = Some ruling" "open_reasons cf q rid ruling = Ok []" for ruling
    using that(2) by (auto simp: open_reasons_def Let_def)
  show ?thesis
  proof
    assume "\<exists>e \<in> set os. op_ruling e = rid"
    then obtain e r where e: "op_ruling e = rid" "openable_ruling cf q r = Ok (Some e)"
      and r: "r \<in> set (q_records q)" "is_kind ''ruling'' r" "accepts r"
      using collect_Ok_set [OF c] by (auto simp: of_kind_def)
    with openable_ruling_id have i: "rec_id r = rid" by simp
    from one [OF r] e(2) i have "open_reasons cf q rid r = Ok []" by blast
    moreover have "get_rec q (JStr rid) ''ruling'' = Some r"
      using reachable_get [OF assms(1) r(1,2)] reachable_str_id [OF assms(1) r(1)] i by simp
    ultimately show "\<exists>ruling. get_rec q (JStr rid) ''ruling'' = Some ruling \<and> open_reasons cf q rid ruling = Ok []" by blast
  next
    assume "\<exists>ruling. get_rec q (JStr rid) ''ruling'' = Some ruling \<and> open_reasons cf q rid ruling = Ok []"
    then obtain r where r: "get_rec q (JStr rid) ''ruling'' = Some r" "open_reasons cf q rid r = Ok []" by blast
    note g = get_rec_Some [OF r(1)] and a = acc [OF r]
    have i: "rec_id r = rid" using g by (simp add: rec_id_def str_of_def)
    from one [of r] g a i r(2) obtain e where e: "openable_ruling cf q r = Ok (Some e)" by auto
    have "e \<in> set os" using collect_Ok_set [OF c, of e] e g a by (auto simp: of_kind_def)
    with openable_ruling_id [OF e] i show "\<exists>e \<in> set os. op_ruling e = rid" by auto
  qed
qed

lemma followup_iff:
  assumes "reachable cf q"
  shows "(pid, prid) \<in> set (applicable_followups q) \<longleftrightarrow>
    (\<exists>p project. get_rec q (JStr pid) ''proposal'' = Some p \<and> get_rec q (getj p ''project_id'') ''project'' = Some project \<and>
       followup_reasons q p project = [] \<and> prid = rec_id project)"
proof -
  have one: "applicable_followup q p = Some (pid, prid) \<longleftrightarrow>
      (\<exists>project. get_rec q (getj p ''project_id'') ''project'' = Some project \<and> followup_reasons q p project = [] \<and>
         pid = rec_id p \<and> prid = rec_id project)" for p
    by (auto simp: applicable_followup_def followup_reasons_def Let_def split: option.splits)
  have null: "get_rec q (getj p ''project_id'') k = Some x \<Longrightarrow> getj p ''project_id'' \<noteq> JNull" for p k x
    by (auto dest!: get_rec_Some simp: is_str_def)
  have "(pid, prid) \<in> set (applicable_followups q) \<longleftrightarrow>
      (\<exists>p \<in> set (q_records q). is_kind ''proposal'' p \<and> getj p ''project_id'' \<noteq> JNull \<and> applicable_followup q p = Some (pid, prid))"
    by (auto simp: applicable_followups_def set_keys_by of_kind_def)
  also have "\<dots> \<longleftrightarrow> (\<exists>p project. p \<in> set (q_records q) \<and> is_kind ''proposal'' p \<and> pid = rec_id p \<and>
      get_rec q (getj p ''project_id'') ''project'' = Some project \<and> followup_reasons q p project = [] \<and> prid = rec_id project)"
    unfolding one using null by blast
  also have "\<dots> \<longleftrightarrow> (\<exists>p project. get_rec q (JStr pid) ''proposal'' = Some p \<and>
      get_rec q (getj p ''project_id'') ''project'' = Some project \<and> followup_reasons q p project = [] \<and> prid = rec_id project)"
    unfolding reachable_get_iff [OF assms, of "JStr pid"] using reachable_str_id [OF assms] by (metis json.inject(4))
  finally show ?thesis .
qed

lemma set_pending: "p \<in> set (pending_proposals q None) \<longleftrightarrow> p \<in> set (q_records q) \<and> is_kind ''proposal'' p \<and> is_pending q p"
  by (auto simp: pending_proposals_def limit_to_def by_ts_def of_kind_def)

lemma ruling_pending_iff:
  assumes "reachable cf q"
  shows "check_ruling cf q [] r = [] \<longleftrightarrow>
    (\<exists>p \<in> set (pending_proposals q None). getj p ''id'' = getj r ''proposal_id'') \<and> \<not> open_fact_check cf q (getj r ''proposal_id'')"
proof -
  let ?i = "getj r ''proposal_id''"
  let ?waiting = "\<exists>p \<in> set (pending_proposals q None). getj p ''id'' = ?i"
  have w: "?waiting \<longleftrightarrow> (\<exists>p. get_rec q ?i ''proposal'' = Some p \<and> is_pending q p)"
    unfolding reachable_get_iff [OF assms] Bex_def set_pending by blast
  show ?thesis
  proof (cases "get_rec q ?i ''proposal''")
    case None
    with w show ?thesis by (simp add: check_ruling_def)
  next
    case (Some p)
    with get_rec_Some [OF Some] w show ?thesis
      by (auto simp: check_ruling_def is_pending_def proposal_is_covered_or_closed_def Let_def)
  qed
qed

end
