(* ===== verification/Plan_Log.thy ===== *)
theory Plan_Log
  imports Effects
begin

section \<open>The log of plan versions\<close>

text \<open>
  What every stored plan version satisfies against the version before it (\<open>reachable_version_ok\<close>): it names
  that version and counts on from it, the changes it carries are the difference the server computes,
  and an unruled version of the same season only repairs flagged entries or takes up a stage.
\<close>

definition version_before :: "obj list \<Rightarrow> nat \<Rightarrow> obj option" where
  "version_before ps i = (if i = 0 then None else Some (ps ! (i - 1)))"

definition version_ok :: "config \<Rightarrow> obj option \<Rightarrow> obj \<Rightarrow> bool" where
  "version_ok cf prev r \<longleftrightarrow>
     getj r ''supersedes'' = (case prev of None \<Rightarrow> JNull | Some a \<Rightarrow> getj a ''id'') \<and>
     getj r ''version'' = JInt (case prev of None \<Rightarrow> 1 | Some a \<Rightarrow> int_of (getj a ''version'') + 1) \<and>
     py_eq (getj r ''changes'') (JArr (map change_json (plan_diff cf prev r))) \<and>
     (prev \<noteq> None \<longrightarrow> plan_diff cf prev r \<noteq> [])"

text \<open>One version per season, unless a ruling authorises it, it only repairs what the active version's flags
  call inert, or it takes up the targets of a stage newly entered.\<close>

definition season_ok :: "config \<Rightarrow> obj option \<Rightarrow> obj \<Rightarrow> bool" where
  "season_ok cf prev r = (case prev of None \<Rightarrow> True | Some a \<Rightarrow>
     getj r ''season_index'' \<noteq> getj a ''season_index'' \<or> truthy (getj r ''ruling_id'') \<or>
     fix_only (plan_diff cf prev r) (items_of (getj a ''flags'')) \<or>
     adopts_stage cf prev (plan_diff cf prev r) (plan_sections cf r) (plan_stage r))"

lemma accepted_season:
  assumes "accepted cf r" and "is_kind ''fort_plan'' r"
  shows "nonneg_int (getj r ''season_index'')"
proof -
  from accepted_kind [OF assms(1)] assms(2) have "validate_fort_plan_fields cf r = []"
    by (auto simp: is_kind_def validate_kind_def)
  then show ?thesis unfolding validate_fort_plan_fields_def Let_def append_is_Nil_conv
    by (auto split: if_splits)
qed

lemma admits_same_plan:
  assumes "admits cf q r" and "is_kind ''fort_plan'' r"
  obtains t where "accepted cf r" and "check_fort_plan cf q r t = []"
proof -
  obtain r1 t where r1: "accepted cf r1" "is_kind ''fort_plan'' r1" "check_kind cf q [] r1 t = Some []" "r = flag_duplicate q r1"
    using assms by (rule admitsE)
  have "\<not> is_kind ''proposal'' r1" using r1(2) by (simp add: is_kind_def)
  with r1(4) have "r = r1" by (simp add: flag_duplicate_other)
  with r1 that show thesis by (simp add: check_kind_simps)
qed

lemma admits_version:
  assumes "admits cf q r" and "is_kind ''fort_plan'' r"
  shows "version_ok cf (active_plan q) r \<and> season_ok cf (active_plan q) r"
proof
  obtain t where a: "accepted cf r" and c: "check_fort_plan cf q r t = []" using assms by (rule admits_same_plan)
  note un = c [unfolded check_fort_plan_def Let_def append_is_Nil_conv]
  from un have t: "is_int t" by (auto split: if_splits)
  note un2 = un [simplified t, simplified]
  have ch: "py_eq (getj r ''changes'') (JArr (map change_json (plan_diff cf (active_plan q) r)))"
    and ne: "active_plan q \<noteq> None \<longrightarrow> plan_diff cf (active_plan q) r \<noteq> []"
    and se: "int_of (getj r ''season_index'') = season_index (cf_policy cf) (int_of t)"
    and ve: "\<exists>w. plan_verdict cf q r (int_of t) = Inr w"
    using un2 by (auto simp: only_if_Nil split: sum.splits)
  with admits_plan [OF assms] show "version_ok cf (active_plan q) r" by (auto simp: version_ok_def split: option.splits)
  from accepted_season [OF a assms(2)] have sj: "getj r ''season_index'' = JInt (season_index (cf_policy cf) (int_of t))"
    using se by (auto simp: nonneg_int_def is_int_def split: json.splits)
  show "season_ok cf (active_plan q) r"
  proof (cases "active_plan q")
    case (Some p)
    show ?thesis
    proof (cases "getj p ''season_index'' = JInt (season_index (cf_policy cf) (int_of t))")
      case True
      with ve Some show ?thesis
        by (auto simp: season_ok_def plan_verdict_def guardrail_def Let_def split: if_splits)
    qed (simp add: season_ok_def Some sj)
  qed (simp add: season_ok_def)
qed

lemma reachable_versions:
  assumes "reachable cf q"
  shows "\<forall>i < length (of_kind q ''fort_plan''). version_ok cf (version_before (of_kind q ''fort_plan'') i) (of_kind q ''fort_plan'' ! i) \<and>
    season_ok cf (version_before (of_kind q ''fort_plan'') i) (of_kind q ''fort_plan'' ! i)"
  unfolding of_kind_def
  using reachable_writes [OF assms]
proof (rule records.log_invariant)
  let ?ps = "filter (is_kind ''fort_plan'')"
  let ?ok = "\<lambda>ps i. version_ok cf (version_before ps i) (ps ! i) \<and> season_ok cf (version_before ps i) (ps ! i)"
  fix t r
  assume a: "admits cf t r" and ih: "\<forall>i < length (?ps (q_records t)). ?ok (?ps (q_records t)) i"
  show "\<forall>i < length (?ps (q_records t @ [r])). ?ok (?ps (q_records t @ [r])) i"
  proof (cases "is_kind ''fort_plan'' r")
    case True
    let ?old = "?ps (q_records t)"
    have act: "active_plan t = version_before (?old @ [r]) (length ?old)"
      by (simp add: active_plan_def of_kind_def version_before_def last_conv_nth nth_append Let_def)
    have same: "version_before (?old @ [r]) i = version_before ?old i" if "i < length ?old" for i
      using that by (auto simp: version_before_def nth_append)
    show ?thesis using True ih admits_version [OF a True] act
      by (auto simp: same nth_append less_Suc_eq)
  qed (use ih in simp)
qed (simp add: empty_queue_def)

end
