(* ===== verification/Fort.thy ===== *)
theory Fort
  imports Steps
begin

section \<open>The deployed configuration and a day in the queue\<close>

text \<open>
  \<open>uniboslan\<close> is the configuration the repository ships: \<open>agents/ROSTER.yaml\<close>,
  \<open>dfqueue/action_tools.yaml\<close>, \<open>dfqueue/step_identity.yaml\<close>, \<open>dfqueue/plan_policy.yaml\<close> and the
  hold codes of \<open>dfqueue/public_text.yaml\<close>. The tool ids are the ones the groups name, the roadmap is
  cut down to two targets of its first stage, and no template is loaded. The float printer is
  that of the few values used here.

  The second half is a run of the queue under that configuration, one definition per call, used by
  the witnesses of the properties: the Overseer files a direct action, the conductor opens its
  project, runs its step, observes it done, grades the prediction and closes the project.
\<close>

subsection \<open>Configuration\<close>

definition role_entry :: "bool \<Rightarrow> bool \<Rightarrow> obj" where
  "role_entry enabled answerer = [(''enabled'', JBool enabled)] @ (if answerer then [(''answerer'', JBool True)] else [])"

definition uniboslan_roster :: roster where
  "uniboslan_roster = \<lparr>ro_sole_writer = ''overseer'', ro_executor = JStr ''conductor'', ro_fort = ''Uniboslan'',
     ro_roles = [(''overseer'', role_entry True False), (''architect'', role_entry True False),
       (''consultant'', role_entry True True), (''planner'', role_entry True False),
       (''conductor'', role_entry True False), (''quartermaster'', role_entry True True),
       (''marshal'', role_entry False False), (''chronicler'', role_entry False False)]\<rparr>"

definition rooms :: group where
  "rooms = \<lparr>g_name = ''rooms'', g_types = [''room_siting'', ''workshop_siting'', ''corridor'', ''smoothing'', ''dig_order''],
     g_tools = [''blueprint.reserve'', ''blueprint.apply'', ''blueprint.release'', ''blueprint.unreserve'', ''zone.place'',
       ''zone.assign-owner'', ''building.build'', ''diggable.dig-stair'', ''construction.mine-vein'', ''construction.mine-vein-site''],
     g_ruling_only = False, g_routed = True, g_frozen = False, g_coverage = False, g_direct = False\<rparr>"

definition stockpiles :: group where
  "stockpiles = \<lparr>g_name = ''stockpiles'', g_types = [''stockpile_siting''],
     g_tools = [''stockpile.place'', ''stockpile.configure'', ''stockpile.link'', ''stockpile.settings'',
       ''stockpile.set-materials'', ''stockpile.remove''],
     g_ruling_only = False, g_routed = False, g_frozen = False, g_coverage = False, g_direct = False\<rparr>"

definition orders :: group where
  "orders = \<lparr>g_name = ''orders'', g_types = [''work_order''],
     g_tools = [''orders.create'', ''orders.reorder'', ''orders.cancel'', ''orders.recheck'', ''workjob.queue'', ''workjob.cancel''],
     g_ruling_only = False, g_routed = False, g_frozen = False, g_coverage = False, g_direct = False\<rparr>"

definition direct :: group where
  "direct = \<lparr>g_name = ''direct'', g_types = [''direct_action''],
     g_tools = [''openarea.build'', ''diggable.dig'', ''landmarks.build'', ''farm.build'', ''workshop.build'', ''zone.clear-owner'',
       ''trees.fell'', ''well.build'', ''orders.create'', ''orders.reorder'', ''orders.recheck'', ''orders.cancel'',
       ''workjob.queue'', ''workjob.cancel'', ''labor.set-labor''],
     g_ruling_only = False, g_routed = False, g_frozen = False, g_coverage = False, g_direct = True\<rparr>"

definition plan_group :: group where
  "plan_group = \<lparr>g_name = ''plan'', g_types = [''plan_change''], g_tools = [],
     g_ruling_only = True, g_routed = False, g_frozen = False, g_coverage = False, g_direct = False\<rparr>"

definition uniboslan_routing :: routing where
  "uniboslan_routing = \<lparr>rt_groups = [rooms, stockpiles, orders, direct, plan_group],
     rt_retired = [''ui.click'', ''ui.embark-mode'', ''ui.leave-embark-mode'', ''ledger.record'', ''farm.set-crop'']\<rparr>"

definition uniboslan_policy :: plan_policy where
  "uniboslan_policy = \<lparr>pp_season_ticks = 100800,
     pp_sections = [(''targets'', ''P1''), (''districts'', ''P2''), (''closeness'', ''P2''), (''industries'', ''P3''),
       (''flows'', ''P3''), (''access'', ''P4'')],
     pp_open_sections = [''targets''], pp_cap_targets = 16, pp_cap_relies_on = 6, pp_field_max = 160,
     pp_public_rationale_max = 300, pp_max_in_flight_max = 8, pp_per = [''alive''], pp_cooldown_ticks = 12000,
     pp_per_season_cap = 2,
     pp_family_serving_types = [(''zones'', [''room_siting'', ''corridor'']), (''stocks'', [''work_order'', ''stock_target'']),
       (''order'', [''work_order''])],
     pp_default_item_owner = ''quartermaster'', pp_item_owner = [(''bed'', ''quartermaster'')],
     pp_item_types = [(''bed'', ''BED'')]\<rparr>"

definition founding :: obj where
  "founding = [(''stages'', JArr [JObj [(''id'', JStr ''founding''), (''targets'', JArr [
     JObj [(''id'', JStr ''drink''), (''signal'', JStr ''stocks.drink.units''), (''want'', JInt 2), (''per'', JStr ''alive''),
       (''reorder'', JInt 1), (''owner'', JStr ''quartermaster'')],
     JObj [(''id'', JStr ''seeds''), (''signal'', JStr ''stocks.seeds.units''), (''want'', JInt 40),
       (''reorder'', JInt 20), (''owner'', JStr ''quartermaster'')]])]])]"

definition uniboslan :: config where
  "uniboslan = \<lparr>cf_roster = uniboslan_roster, cf_routing = uniboslan_routing,
     cf_hold_codes = [''no_material_in_reach'', ''site_unreachable'', ''site_flooded'', ''no_worker'', ''waiting_for_haul'',
       ''preview_failed'', ''tool_refused'', ''other''],
     cf_tool_ids = concat (map g_tools (rt_groups uniboslan_routing)),
     cf_float_repr = (\<lambda>q. if q = 1/2 then ''0.5'' else dec_int \<lfloor>q\<rfloor> @ ''.0''),
     cf_ledger_field = (\<lambda>s. s = ''population_final''),
     cf_identity_tools = [(''blueprint.apply'', [''site'', ''phase'']), (''blueprint.release'', [''site_id'']),
       (''blueprint.unreserve'', [''res_id'']), (''construction.mine-vein'', [''zone_id'']),
       (''construction.mine-vein-site'', [''site_id'']), (''zone.assign-owner'', [''zone_id'']), (''orders.cancel'', [''id'']),
       (''orders.reorder'', [''id'']), (''orders.recheck'', [''id'']), (''stockpile.configure'', [''id'']),
       (''stockpile.settings'', [''id'']), (''stockpile.set-materials'', [''id'', ''category'']),
       (''stockpile.remove'', [''id'']), (''workjob.cancel'', [''job_id''])],
     cf_follow_up_checked = [''zone.assign-owner''], cf_policy = uniboslan_policy, cf_roadmap = founding,
     cf_templates = []\<rparr>"

subsection \<open>A day in the queue\<close>

definition well_proposal :: obj where
  "well_proposal = [(''kind'', JStr ''proposal''), (''role'', JStr ''overseer''), (''cycle'', JInt 1000),
     (''snapshot'', JStr ''snap-1''), (''type'', JStr ''direct_action''), (''summary'', JStr ''Build a well by the dining hall''),
     (''rationale'', JStr ''Drink runs short in winter''), (''public_rationale'', JStr ''A well keeps everyone drinking''),
     (''cost'', JObj [(''estimate'', JInt 200), (''unit'', JStr ''dwarf_ticks'')]), (''suggested_priority'', JInt 3),
     (''preconditions'', JArr []),
     (''prediction'', JObj [(''signal'', JStr ''fort.population''), (''op'', JStr ''gte''), (''value'', JInt 7),
       (''check_after_ticks'', JInt 500)]),
     (''step'', JObj [(''tool'', JStr ''well.build''), (''args'', JObj [(''landmark'', JStr ''dining hall'')])])]"

definition well_ruling :: obj where
  "well_ruling = [(''kind'', JStr ''ruling''), (''role'', JStr ''overseer''), (''cycle'', JInt 1000),
     (''snapshot'', JStr ''snap-1''), (''decision'', JStr ''accept''), (''reason'', JStr ''Needed before winter''), (''public_rationale'', JStr ''Drink first'')]"

definition clock :: string where
  "clock = ''2026-10-09T00:00:00+00:00''"

text \<open>The records of the day, as the queue stores them.\<close>

definition stamped :: "obj \<Rightarrow> string \<Rightarrow> obj" where
  "stamped r i = r @ [(''id'', JStr i), (''ts'', JStr clock)]"

definition proposal_1 :: obj where "proposal_1 = stamped well_proposal ''proposal-0001''"

definition ruling_1 :: obj where
  "ruling_1 = stamped (well_ruling @ [(''proposal_id'', JStr ''proposal-0001'')]) ''ruling-0001''"

definition project_1 :: obj where
  "project_1 = [(''id'', JStr ''project-0001''), (''kind'', JStr ''project''), (''role'', JStr ''conductor''),
     (''cycle'', JInt 1000), (''snapshot'', JStr ''executor''), (''from_ruling'', JStr ''ruling-0001''),
     (''summary'', JStr ''Build a well by the dining hall''), (''because'', JStr ''Drink runs short in winter''),
     (''steps'', JArr [JObj [(''id'', JStr ''project-0001/s1''), (''tool'', JStr ''well.build''),
        (''args'', JObj [(''landmark'', JStr ''dining hall'')]),
        (''targets'', JObj [(''set'', JArr [JStr ''project-0001/s1''])]), (''requires'', JArr []),
        (''trigger'', JStr ''all_success''), (''prefer_after'', JArr []), (''guards'', JStr ''default''),
        (''proposal_id'', JStr ''proposal-0001'')]]),
     (''public_rationale'', JStr ''A well keeps everyone drinking''), (''ts'', JStr clock)]"

definition well_dug :: obj where
  "well_dug = [(''actions'', JArr [JObj [(''tool'', JStr ''well.build''), (''outcome'', JStr ''success''),
     (''targets'', JArr [JStr ''project-0001/s1'']), (''target_state'', JStr ''issued''),
     (''game_refs'', JArr [JStr ''building-12''])]])]"

definition executed_1 :: obj where
  "executed_1 = stamped (well_dug @ [(''kind'', JStr ''executed''), (''role'', JStr ''conductor''),
     (''ruling_id'', JStr ''ruling-0001''), (''step_id'', JStr ''project-0001/s1''),
     (''proposal_id'', JStr ''proposal-0001''), (''cycle'', JInt 1100), (''snapshot'', JStr ''executor''),
     (''notes'', JStr ''run 1 of project-0001/s1'')]) ''executed-0001''"

definition observation_1 :: obj where
  "observation_1 = stamped [(''kind'', JStr ''observation''), (''role'', JStr ''conductor''), (''cycle'', JInt 1200),
     (''snapshot'', JStr ''executor''), (''project_id'', JStr ''project-0001''), (''step_id'', JStr ''project-0001/s1''),
     (''game_tick'', JInt 1200), (''results'', JArr [JObj [(''target'', JStr ''project-0001/s1''),
       (''status'', JStr ''consistent''), (''reason'', JStr ''phase done'')]]), (''done'', JBool True)] ''observation-0001''"

definition close_1 :: obj where
  "close_1 = stamped [(''kind'', JStr ''close''), (''role'', JStr ''conductor''), (''cycle'', JInt 1200),
     (''snapshot'', JStr ''executor''), (''project_id'', JStr ''project-0001''), (''outcome'', JStr ''completed''),
     (''reason'', JStr ''the well holds water'')] ''close-0001''"

definition well_prediction :: prediction where
  "well_prediction = \<lparr>pr_id = 1, pr_record_id = ''proposal-0001'', pr_signal = JStr ''fort.population'',
     pr_op = JStr ''gte'', pr_value = JInt 7, pr_registered = 1000, pr_due = 1500, pr_status = ''awaiting_execution'',
     pr_actual = JNull, pr_graded_at = JNull, pr_note = JNull, pr_after = 500\<rparr>"

definition well_target :: "string \<Rightarrow> json \<Rightarrow> json \<Rightarrow> target_row" where
  "well_target st reason tick = \<lparr>tg_project = ''project-0001'', tg_step = ''project-0001/s1'',
     tg_target = ''project-0001/s1'', tg_state = st, tg_reason = reason, tg_tick = tick\<rparr>"

definition well_run :: run_row where
  "well_run = \<lparr>rn_id = 1, rn_project = ''project-0001'', rn_step = ''project-0001/s1'', rn_status = ''issuing'',
     rn_outcome = JNull, rn_tick = 1100, rn_baseline = JNull, rn_handle = JNull, rn_executed = JNull,
     rn_started = clock, rn_ended = JNull\<rparr>"

text \<open>The queue after each call.\<close>

definition filed :: queue where
  "filed = empty_queue\<lparr>q_records := [proposal_1, ruling_1], q_preds := [well_prediction]\<rparr>"

definition opened :: queue where
  "opened = filed\<lparr>q_records := [proposal_1, ruling_1, project_1], q_targets := [well_target ''ready'' JNull JNull]\<rparr>"

definition begun :: queue where
  "begun = opened\<lparr>q_runs := [well_run]\<rparr>"

definition issued :: queue where
  "issued = begun\<lparr>q_records := [proposal_1, ruling_1, project_1, executed_1],
     q_targets := [well_target ''issued'' JNull (JInt 1100)],
     q_runs := [well_run\<lparr>rn_status := ''recorded'', rn_outcome := JStr ''success'', rn_handle := JStr ''building-12'',
       rn_executed := JStr ''executed-0001'', rn_ended := JStr clock\<rparr>]\<rparr>"

definition observed :: queue where
  "observed = issued\<lparr>q_records := [proposal_1, ruling_1, project_1, executed_1, observation_1],
     q_preds := [well_prediction\<lparr>pr_status := ''pending'', pr_due := 1700\<rparr>],
     q_targets := [well_target ''done'' (JStr ''observed done'') (JInt 1200)]\<rparr>"

definition graded :: queue where
  "graded = observed\<lparr>q_preds := [well_prediction\<lparr>pr_status := ''graded_true'', pr_due := 1700, pr_actual := JInt 9,
     pr_graded_at := JStr clock, pr_note := JStr []\<rparr>]\<rparr>"

definition closed_day :: queue where
  "closed_day = graded\<lparr>q_records := [proposal_1, ruling_1, project_1, executed_1, observation_1, close_1]\<rparr>"

text \<open>The game answers every read with a population of nine.\<close>

definition nine_dwarves :: "string \<Rightarrow> obj \<Rightarrow> json" where
  "nine_dwarves tool args = JObj [(''tier1'', JObj [(''population'', JInt 9)])]"

subsection \<open>Every call of the day succeeds\<close>

lemma filed_call:
  "file_direct_action uniboslan clock empty_queue well_proposal well_ruling (JInt 1000) = Ok ((proposal_1, ruling_1), filed)"
  by code_simp

lemma opened_call:
  "open_project_from_ruling uniboslan clock filed ''ruling-0001'' None None ''executor'' = Ok (project_1, opened)"
  by code_simp

lemma begun_call:
  "begin_step_run uniboslan clock opened ''project-0001'' ''project-0001/s1'' 1100 JNull = Ok (1, begun)"
  by code_simp

lemma issued_call: "finish_step_run uniboslan clock begun 1 well_dug JNull = Ok (Some executed_1, issued)"
  by code_simp

lemma observed_call:
  "record_observation uniboslan clock issued ''project-0001'' ''project-0001/s1'' 1200 True [] ''executor'' =
     Ok (observation_1, observed)"
  by code_simp

definition well_grade :: grade_update where
  "well_grade = \<lparr>gu_id = 1, gu_status = ''graded_true'', gu_actual = JInt 9, gu_graded_at = JStr clock, gu_note = JStr []\<rparr>"

lemma graded_call: "grade_due (\<lambda>_. []) nine_dwarves clock observed 1700 = Some ([well_grade], graded)"
  by code_simp

lemma closed_call:
  "close_target uniboslan clock graded ''project-0001'' ''completed'' ''the well holds water'' None None ''executor'' =
     Ok (close_1, closed_day)"
  by code_simp

subsection \<open>The queues of the day are reachable\<close>

lemma day_steps:
  "qstep uniboslan empty_queue filed" "qstep uniboslan filed opened" "qstep uniboslan opened begun"
  "qstep uniboslan begun issued" "qstep uniboslan issued observed" "qstep uniboslan observed graded"
  "qstep uniboslan graded closed_day"
  by (rule q_direct [OF filed_call] q_open [OF opened_call] q_begin [OF begun_call] q_finish [OF issued_call]
      q_observe [OF observed_call] q_grade [OF graded_call] q_close [OF closed_call])+

lemma day_reachable:
  "reachable uniboslan filed" "reachable uniboslan opened" "reachable uniboslan begun" "reachable uniboslan issued"
  "reachable uniboslan observed" "reachable uniboslan graded" "reachable uniboslan closed_day"
proof -
  note more = rtranclp.rtrancl_into_rtrancl [of "qstep uniboslan" empty_queue]
  show 1: "reachable uniboslan filed" unfolding reachable_def by (intro r_into_rtranclp day_steps)
  show 2: "reachable uniboslan opened" using more [OF 1 [unfolded reachable_def] day_steps(2)] by (simp add: reachable_def)
  show 3: "reachable uniboslan begun" using more [OF 2 [unfolded reachable_def] day_steps(3)] by (simp add: reachable_def)
  show 4: "reachable uniboslan issued" using more [OF 3 [unfolded reachable_def] day_steps(4)] by (simp add: reachable_def)
  show 5: "reachable uniboslan observed" using more [OF 4 [unfolded reachable_def] day_steps(5)] by (simp add: reachable_def)
  show 6: "reachable uniboslan graded" using more [OF 5 [unfolded reachable_def] day_steps(6)] by (simp add: reachable_def)
  show "reachable uniboslan closed_day" using more [OF 6 [unfolded reachable_def] day_steps(7)] by (simp add: reachable_def)
qed

end
