(* ===== verification/Fort_Days.thy ===== *)
theory Fort_Days
  imports Fort Invariants
begin

section \<open>More runs of the deployed queue\<close>

text \<open>
  Further reachable queues of \<open>uniboslan\<close> for the witnesses: the day of \<open>Fort\<close> again with a
  prediction the store accepts and grading cannot compare, a cutover set at the end of the day, and
  two versions of the fort plan.
\<close>

lemma reachable_step: "reachable cf q \<Longrightarrow> qstep cf q q' \<Longrightarrow> reachable cf q'"
  unfolding reachable_def by (rule rtranclp.rtrancl_into_rtrancl)

lemma reachable_empty: "reachable cf empty_queue"
  by (simp add: reachable_def)

lemma day_records:
  "q_records filed = [proposal_1, ruling_1]"
  "q_records opened = [proposal_1, ruling_1, project_1]"
  "q_records begun = [proposal_1, ruling_1, project_1]"
  "q_records issued = [proposal_1, ruling_1, project_1, executed_1]"
  "q_records observed = [proposal_1, ruling_1, project_1, executed_1, observation_1]"
  "q_records closed_day = [proposal_1, ruling_1, project_1, executed_1, observation_1, close_1]"
  by (simp_all add: closed_day_def graded_def observed_def issued_def begun_def opened_def filed_def)

lemma day_kinds:
  "is_kind ''proposal'' proposal_1" "is_kind ''ruling'' ruling_1" "is_kind ''project'' project_1"
  "is_kind ''executed'' executed_1" "is_kind ''observation'' observation_1" "is_kind ''close'' close_1"
  by code_simp+

lemma day_reaches:
  "reaches uniboslan filed closed_day" "reaches uniboslan opened closed_day" "reaches uniboslan issued closed_day"
proof -
  note s = day_steps
  show a: "reaches uniboslan issued closed_day" unfolding reaches_def
    using s(5,6,7) by (meson rtranclp.rtrancl_into_rtrancl rtranclp.rtrancl_refl)
  show b: "reaches uniboslan opened closed_day"
    using a s(3,4) unfolding reaches_def by (meson converse_rtranclp_into_rtranclp)
  show "reaches uniboslan filed closed_day"
    using b s(2) unfolding reaches_def by (meson converse_rtranclp_into_rtranclp)
qed

subsection \<open>A cutover\<close>

definition cut_day :: queue where
  "cut_day = set_meta (cutover_key ''rooms'') ''ruling-0001'' closed_day"

lemma cut_call: "set_cutover uniboslan closed_day ''rooms'' ''ruling-0001'' = Ok cut_day"
  by code_simp

lemma cut_reachable: "reachable uniboslan cut_day"
  by (rule reachable_step [OF day_reachable(7) q_cutover [OF cut_call]])

lemma cut_reaches: "reaches uniboslan cut_day (mark_plan_reviewed 2000 cut_day)"
  unfolding reaches_def by (rule r_into_rtranclp) (rule q_reviewed)

subsection \<open>A prediction nobody can grade\<close>

text \<open>The same day as a function of the proposal filed in the morning.\<close>

definition day_of :: "obj \<Rightarrow> queue outcome" where
  "day_of p =
     obind (file_direct_action uniboslan clock empty_queue p well_ruling (JInt 1000)) (\<lambda>(_, q1).
     obind (open_project_from_ruling uniboslan clock q1 ''ruling-0001'' None None ''executor'') (\<lambda>(_, q2).
     obind (begin_step_run uniboslan clock q2 ''project-0001'' ''project-0001/s1'' 1100 JNull) (\<lambda>(_, q3).
     obind (finish_step_run uniboslan clock q3 1 well_dug JNull) (\<lambda>(_, q4).
     obind (record_observation uniboslan clock q4 ''project-0001'' ''project-0001/s1'' 1200 True [] ''executor'') (\<lambda>(_, q5).
     Ok q5)))))"

lemma obindE:
  assumes "obind x f = Ok y"
  obtains v where "x = Ok v" and "f v = Ok y"
  using assms by (cases x) auto

lemma day_of_reachable: "day_of p = Ok q \<Longrightarrow> reachable uniboslan q"
  unfolding day_of_def
  by (elim obindE) (auto elim!: obindE intro!: reachable_step [OF reachable_step [OF reachable_step [OF reachable_step [OF
      reachable_step [OF reachable_empty q_direct] q_open] q_begin] q_finish] q_observe])

definition puzzling_proposal :: obj where
  "puzzling_proposal = setj well_proposal ''prediction'' (JObj [(''signal'', JStr ''fort.population''), (''op'', JStr ''in''),
     (''value'', JInt 7), (''check_after_ticks'', JInt 500)])"

definition puzzled :: queue where
  "puzzled = (case day_of puzzling_proposal of Ok q \<Rightarrow> q | _ \<Rightarrow> empty_queue)"

lemma puzzled_day: "day_of puzzling_proposal = Ok puzzled"
  by code_simp

lemma puzzled_reachable: "reachable uniboslan puzzled"
  by (rule day_of_reachable [OF puzzled_day])

lemma puzzled_rows: "q_preds puzzled = [well_prediction\<lparr>pr_op := JStr ''in'', pr_status := ''pending'', pr_due := 1700\<rparr>]"
  by code_simp

subsection \<open>The shipped routing file\<close>

text \<open>\<open>dfqueue/action_tools.yaml\<close> as parsed; \<open>_validate\<close> turns it into \<open>uniboslan_routing\<close>.\<close>

definition group_json :: "group \<Rightarrow> json" where
  "group_json g = JObj ([(''types'', JArr (map JStr (g_types g)))] @
     (if g_tools g = [] then [] else [(''tools'', JArr (map JStr (g_tools g)))]) @
     [(''routed'', JBool (g_routed g)), (''frozen'', JBool (g_frozen g)), (''coverage'', JBool (g_coverage g))] @
     (if g_ruling_only g then [(''ruling_only'', JBool True)] else []) @
     (if g_direct g then [(''direct'', JBool True)] else []))"

definition action_tools :: obj where
  "action_tools = [(''groups'', JObj (map (\<lambda>g. (g_name g, group_json g)) [rooms, stockpiles, orders, direct, plan_group])),
     (''created_refs'', JObj [(''orders.create'', JObj [(''handle_path'', JStr ''order_handle''), (''prefix'', JStr ''order-''),
        (''list_tool'', JStr ''orders.list''), (''list_rows'', JStr ''orders''), (''id_field'', JStr ''id''),
        (''cancel_tool'', JStr ''orders.cancel''), (''cancel_args'', JObj [(''id'', JStr ''$ref'')])])]),
     (''retired'', JArr (map JStr (rt_retired uniboslan_routing)))]"

lemma action_tools_valid: "routing_validate action_tools = Some uniboslan_routing"
  by code_simp

subsection \<open>Two versions of the plan\<close>

definition goal :: "int \<Rightarrow> json" where
  "goal n = JObj [(''id'', JStr ''ale''), (''want'', JInt n)]"

definition plan_draft :: "int \<Rightarrow> json \<Rightarrow> json list \<Rightarrow> json list \<Rightarrow> obj" where
  "plan_draft v base ts changes = [(''kind'', JStr ''fort_plan''), (''role'', JStr ''planner''), (''cycle'', JInt v),
     (''snapshot'', JStr ''s''), (''version'', JInt v), (''supersedes'', base), (''season_index'', JInt v),
     (''reason'', JStr ''Ale''), (''targets'', JArr ts), (''changes'', JArr changes)]"

definition change_of :: "string \<Rightarrow> string \<Rightarrow> string list \<Rightarrow> json" where
  "change_of i op fs = JObj ([(''section'', JStr ''targets''), (''id'', JStr i), (''op'', JStr op)] @
     (if fs = [] then [] else [(''fields'', JArr (map JStr fs))]))"

definition plan_1 :: obj where
  "plan_1 = stamped (plan_draft 1 JNull [goal 3] [change_of ''ale'' ''added'' [], change_of ''drink'' ''removed'' [],
     change_of ''seeds'' ''removed'' []]) ''fort_plan-0001''"

definition plan_2 :: obj where
  "plan_2 = stamped (plan_draft 2 (JStr ''fort_plan-0001'') [goal 4] [change_of ''ale'' ''changed'' [''want'']]) ''fort_plan-0002''"

definition planned :: queue where
  "planned = empty_queue\<lparr>q_records := [plan_1]\<rparr>"

definition replanned :: queue where
  "replanned = empty_queue\<lparr>q_records := [plan_1, plan_2]\<rparr>"

lemma planned_call:
  "append_in_conn uniboslan clock empty_queue (plan_draft 1 JNull [goal 3] [change_of ''ale'' ''added'' [],
     change_of ''drink'' ''removed'' [], change_of ''seeds'' ''removed'' []]) (JInt 100800) = Ok (plan_1, planned)"
  by code_simp

lemma replanned_call:
  "append_in_conn uniboslan clock planned (plan_draft 2 (JStr ''fort_plan-0001'') [goal 4]
     [change_of ''ale'' ''changed'' [''want'']]) (JInt 201600) = Ok (plan_2, replanned)"
  by code_simp

lemma plans_reachable: "reachable uniboslan planned" "reachable uniboslan replanned"
proof -
  show p: "reachable uniboslan planned" by (rule reachable_step [OF reachable_empty q_append [OF planned_call]])
  show "reachable uniboslan replanned" by (rule reachable_step [OF p q_append [OF replanned_call]])
qed

end
