(* ===== verification/Hold.thy ===== *)
theory Hold
  imports Duplicates
begin

section \<open>The operator hold\<close>

text \<open>
  \<open>conductor/hold.py\<close>: the hold file the operator sets, and the total reader of the cycle. A file is
  absent, a JSON document, something that is not JSON, or something reading fails on in another way. The
  wall clock is an argument.
\<close>

datatype hold_file = NoFile | NotJson | ReadFails string | Doc json

record hold_state =
  hs_held :: bool
  hs_reason :: "string option"
  hs_since :: "rat option"
  hs_who :: "string option"
  hs_expires_at :: "rat option"
  hs_corrupt :: bool
  hs_expired :: bool
  hs_allow_execution :: bool

definition NO_HOLD :: hold_state where
  "NO_HOLD = \<lparr>hs_held = False, hs_reason = None, hs_since = None, hs_who = None, hs_expires_at = None,
     hs_corrupt = False, hs_expired = False, hs_allow_execution = False\<rparr>"

definition corrupt_hold :: "string \<Rightarrow> hold_state" where
  "corrupt_hold why = NO_HOLD\<lparr>hs_held := True,
     hs_reason := Some (''hold file unreadable ('' @ why @ ''); treated as held''), hs_corrupt := True\<rparr>"

definition as_number :: "json \<Rightarrow> rat option" where
  "as_number v = (case v of JInt i \<Rightarrow> Some (of_int i) | JFloat q \<Rightarrow> Some q | _ \<Rightarrow> None)"

text \<open>\<open>str(who) if who else None\<close> and \<open>None\<close> or a text.\<close>

definition who_of :: "(json \<Rightarrow> string) \<Rightarrow> json \<Rightarrow> string option" where
  "who_of pr v = (if truthy v then Some (py_str pr v) else None)"

definition read_hold_doc :: "(json \<Rightarrow> string) \<Rightarrow> rat \<Rightarrow> obj \<Rightarrow> hold_state" where
  "read_hold_doc pr now raw =
     (if \<not> is_str (getj raw ''reason'') \<or> strip (str_of (getj raw ''reason'')) = [] then corrupt_hold ''no reason''
      else case as_number (getj raw ''since'') of
        None \<Rightarrow> corrupt_hold ''bad since''
      | Some since \<Rightarrow>
          (if getj raw ''expires_at'' \<noteq> JNull \<and> as_number (getj raw ''expires_at'') = None
           then corrupt_hold ''bad expires_at''
           else (case as_number (getj raw ''expires_at'') of
               Some e \<Rightarrow> if e \<le> now
                 then NO_HOLD\<lparr>hs_reason := Some (str_of (getj raw ''reason'')), hs_since := Some since,
                        hs_who := (case getj raw ''who'' of JNull \<Rightarrow> None | v \<Rightarrow> Some (py_str pr v)),
                        hs_expires_at := Some e, hs_expired := True\<rparr>
                 else NO_HOLD\<lparr>hs_held := True, hs_reason := Some (str_of (getj raw ''reason'')),
                        hs_since := Some since, hs_who := who_of pr (getj raw ''who''), hs_expires_at := Some e,
                        hs_allow_execution := (getj raw ''allow_execution'' = JBool True)\<rparr>
             | None \<Rightarrow> NO_HOLD\<lparr>hs_held := True, hs_reason := Some (str_of (getj raw ''reason'')),
                        hs_since := Some since, hs_who := who_of pr (getj raw ''who''),
                        hs_allow_execution := (getj raw ''allow_execution'' = JBool True)\<rparr>)))"

definition read_hold :: "(json \<Rightarrow> string) \<Rightarrow> rat \<Rightarrow> hold_file \<Rightarrow> hold_state" where
  "read_hold pr now f = (case f of
      NoFile \<Rightarrow> NO_HOLD
    | NotJson \<Rightarrow> corrupt_hold ''not valid JSON''
    | ReadFails exc \<Rightarrow> corrupt_hold exc
    | Doc (JObj raw) \<Rightarrow> read_hold_doc pr now raw
    | Doc _ \<Rightarrow> corrupt_hold ''not a JSON object'')"

text \<open>\<open>HoldStore.set\<close>: the document it writes, or the message of its \<open>ValueError\<close>. \<open>os_user\<close> is the name the
  operating system gives the operator.\<close>

definition one_line :: "string \<Rightarrow> string" where
  "one_line s = join '' '' (runs (\<lambda>c. \<not> space_char c) [] s)"

definition set_hold :: "string \<Rightarrow> string \<Rightarrow> string option \<Rightarrow> rat \<Rightarrow> rat option \<Rightarrow> bool \<Rightarrow> string + hold_file" where
  "set_hold os_user reason who now expires_in allow =
     (if one_line reason = [] then Inl ''a hold needs a reason (one line)''
      else if \<exists>e. expires_in = Some e \<and> e \<le> 0 then Inl ''expiry must be positive''
      else Inr (Doc (JObj [(''reason'', JStr (one_line reason)), (''since'', JFloat now),
        (''who'', JStr (case who of Some (c # cs) \<Rightarrow> c # cs | _ \<Rightarrow> os_user)),
        (''expires_at'', case expires_in of None \<Rightarrow> JNull | Some e \<Rightarrow> JFloat (now + e)),
        (''allow_execution'', JBool allow)])))"

definition clear_hold :: "hold_file \<Rightarrow> bool \<times> hold_file" where
  "clear_hold f = (f \<noteq> NoFile, NoFile)"

definition hold_as_dict :: "hold_state \<Rightarrow> obj option" where
  "hold_as_dict h = (if \<not> hs_held h then None else Some
     [(''reason'', case hs_reason h of None \<Rightarrow> JNull | Some s \<Rightarrow> JStr s),
      (''since'', case hs_since h of None \<Rightarrow> JNull | Some q \<Rightarrow> JFloat q),
      (''who'', case hs_who h of None \<Rightarrow> JNull | Some s \<Rightarrow> JStr s),
      (''expires_at'', case hs_expires_at h of None \<Rightarrow> JNull | Some q \<Rightarrow> JFloat q),
      (''corrupt'', JBool (hs_corrupt h)), (''allow_execution'', JBool (hs_allow_execution h))])"

text \<open>The reader's verdict. A hold is let go only when there is no file, or when a well-formed document has
  run out; whatever else is on the disk holds the fort, and only a document that says so allows execution.\<close>

definition run_out :: "rat \<Rightarrow> hold_file \<Rightarrow> bool" where
  "run_out now f = (case f of
      Doc (JObj raw) \<Rightarrow> is_str (getj raw ''reason'') \<and> strip (str_of (getj raw ''reason'')) \<noteq> [] \<and>
        as_number (getj raw ''since'') \<noteq> None \<and>
        (case as_number (getj raw ''expires_at'') of Some e \<Rightarrow> e \<le> now | None \<Rightarrow> False)
    | _ \<Rightarrow> False)"

lemma NO_HOLD_simps [simp]: "\<not> hs_held NO_HOLD" "\<not> hs_corrupt NO_HOLD" "\<not> hs_expired NO_HOLD"
  "\<not> hs_allow_execution NO_HOLD"
  by (simp_all add: NO_HOLD_def)

lemma corrupt_hold_simps [simp]: "hs_held (corrupt_hold why)" "hs_corrupt (corrupt_hold why)"
  "\<not> hs_allow_execution (corrupt_hold why)"
  by (simp_all add: corrupt_hold_def)

lemma read_hold_doc_held: "hs_held (read_hold_doc pr now raw) \<longleftrightarrow> \<not> run_out now (Doc (JObj raw))"
  by (auto simp: read_hold_doc_def run_out_def split: option.splits)

lemma read_hold_held: "hs_held (read_hold pr now f) \<longleftrightarrow> f \<noteq> NoFile \<and> \<not> run_out now f"
proof (cases f)
  case (Doc v)
  then show ?thesis by (cases v) (simp_all add: read_hold_def read_hold_doc_held, simp_all add: run_out_def)
qed (simp_all add: read_hold_def run_out_def)

lemma read_hold_doc_allows:
  "hs_allow_execution (read_hold_doc pr now raw) \<Longrightarrow>
     hs_held (read_hold_doc pr now raw) \<and> getj raw ''allow_execution'' = JBool True \<and>
     \<not> hs_corrupt (read_hold_doc pr now raw)"
  by (auto simp: read_hold_doc_def split: option.splits if_splits)

lemma read_hold_allows:
  assumes "hs_allow_execution (read_hold pr now f)"
  shows "\<exists>raw. f = Doc (JObj raw) \<and> getj raw ''allow_execution'' = JBool True \<and> \<not> hs_corrupt (read_hold pr now f)"
proof (cases f)
  case (Doc v)
  with assms show ?thesis by (cases v) (auto simp: read_hold_def dest: read_hold_doc_allows)
qed (use assms in \<open>simp_all add: read_hold_def\<close>)

lemma read_hold_later:
  assumes "hs_held (read_hold pr now f)" and "now' \<le> now"
  shows "hs_held (read_hold pr now' f)"
  using assms by (auto simp: read_hold_held run_out_def split: hold_file.splits json.splits option.splits)

text \<open>Round trip: what the operator's command writes reads back as a hold with the reason it was given.\<close>

lemma runs_nonempty: "w \<in> set (runs P acc s) \<Longrightarrow> w \<noteq> []"
  by (induction s arbitrary: acc) (simp_all split: if_splits, blast+)

lemma runs_chars: "w \<in> set (runs P acc s) \<Longrightarrow> \<forall>c \<in> set acc. P c \<Longrightarrow> c \<in> set w \<Longrightarrow> P c"
proof (induction s arbitrary: acc)
  case Nil
  then show ?case by (simp split: if_splits)
next
  case (Cons x xs)
  show ?case
  proof (cases "P x")
    case True
    with Cons.prems Cons.IH [of "acc @ [x]"] show ?thesis by simp
  next
    case False
    with Cons.prems Cons.IH [of "[]"] show ?thesis by (auto split: if_splits)
  qed
qed

lemma join_head: "xs \<noteq> [] \<Longrightarrow> set (hd xs) \<subseteq> set (join sep xs)"
  by (induction sep xs rule: join.induct) auto

lemma strip_Nil:
  assumes "strip s = []" and "c \<in> set s"
  shows "space_char c"
proof -
  from assms(1) have all: "\<forall>x \<in> set (dropWhile space_char s). space_char x"
    by (simp add: strip_def dropWhile_eq_Nil_conv)
  from assms(2) have "c \<in> set (takeWhile space_char s) \<union> set (dropWhile space_char s)"
    by (metis set_append takeWhile_dropWhile_id)
  with all show ?thesis by (auto dest: set_takeWhileD)
qed

lemma one_line_strip: "one_line s \<noteq> [] \<Longrightarrow> strip (one_line s) \<noteq> []"
proof
  assume ne: "one_line s \<noteq> []" and e: "strip (one_line s) = []"
  let ?ws = "runs (\<lambda>c. \<not> space_char c) [] s"
  from ne have ws: "?ws \<noteq> []" by (auto simp: one_line_def)
  then have "hd ?ws \<in> set ?ws" by (rule hd_in_set)
  then have hd_ne: "hd ?ws \<noteq> []" and nosp: "\<forall>c \<in> set (hd ?ws). \<not> space_char c"
    by (auto dest: runs_nonempty runs_chars)
  from hd_ne obtain c where c: "c \<in> set (hd ?ws)" by (cases "hd ?ws") auto
  with join_head [OF ws] have "c \<in> set (one_line s)" by (auto simp: one_line_def)
  with e have "space_char c" by (rule strip_Nil)
  with nosp c show False by blast
qed

lemma set_hold_reads_back:
  assumes "set_hold os_user reason who now expires_in allow = Inr f"
  shows "read_hold pr now f = NO_HOLD\<lparr>hs_held := True, hs_reason := Some (one_line reason), hs_since := Some now,
     hs_who := who_of pr (JStr (case who of Some (c # cs) \<Rightarrow> c # cs | _ \<Rightarrow> os_user)),
     hs_expires_at := map_option (\<lambda>e. now + e) expires_in, hs_allow_execution := allow\<rparr>"
proof -
  from assms have r: "one_line reason \<noteq> []" and e: "\<forall>x. expires_in = Some x \<longrightarrow> \<not> x \<le> 0"
    by (auto simp: set_hold_def split: if_splits)
  from r have "strip (one_line reason) \<noteq> []" by (rule one_line_strip)
  with assms r e show ?thesis
    by (cases expires_in) (auto simp: set_hold_def read_hold_def read_hold_doc_def getj_def as_number_def NO_HOLD_def)
qed

end
