(* ===== verification/Backoff.thy ===== *)
theory Backoff
  imports Prelude
begin

section \<open>The renotify rule and the retry clock\<close>

text \<open>
  \<open>conductor/backoff.py\<close>: \<open>advance\<close> folds one observation of a standing fact into its record and says
  whether to wake someone now. A record always has the keys \<open>last\<close>, \<open>wakes\<close> and \<open>stalled\<close>; the watches
  that keep those in separate cursors pass no \<open>first\<close>. \<open>wakes_at\<close> observes a fact at a list of ticks, and
  the lemmas say how often and how far apart it wakes. \<open>retry_now\<close> is \<open>RetryClock.now\<close> over the three
  integers it keeps in the cursor store.
\<close>

subsection \<open>The rule\<close>

record backoff_rule =
  bo_base :: int
  bo_cap :: int
  bo_max :: int

record backoff_rec =
  br_first :: "int option"
  br_last :: int
  br_wakes :: int
  br_stalled :: bool

definition wait_ticks :: "backoff_rule \<Rightarrow> int \<Rightarrow> int" where
  "wait_ticks rule wakes = min (bo_base rule * 2 ^ nat (max (wakes - 1) 0)) (bo_cap rule)"

definition new_record :: "int \<Rightarrow> backoff_rec" where
  "new_record now = \<lparr>br_first = Some now, br_last = now, br_wakes = 0, br_stalled = False\<rparr>"

text \<open>The record, whether a wake is due now, and whether it was the last one.\<close>

definition advance :: "backoff_rec option \<Rightarrow> int \<Rightarrow> backoff_rule \<Rightarrow> backoff_rec \<times> bool \<times> bool" where
  "advance r now rule = (case r of
      None \<Rightarrow> (let st = 1 \<ge> bo_max rule in ((new_record now)\<lparr>br_wakes := 1, br_stalled := st\<rparr>, True, st))
    | Some rc \<Rightarrow>
        if br_last rc > now then (let st = 1 \<ge> bo_max rule in ((new_record now)\<lparr>br_wakes := 1, br_stalled := st\<rparr>, True, st))
        else
          let out = rc\<lparr>br_first := (case br_first rc of None \<Rightarrow> Some now | Some f \<Rightarrow> Some f)\<rparr> in
          if br_stalled rc then (out, False, False)
          else if \<not> (br_wakes rc \<le> 0 \<or> now - br_last rc \<ge> wait_ticks rule (br_wakes rc)) then (out, False, False)
          else let st = br_wakes rc + 1 \<ge> bo_max rule in
            (out\<lparr>br_last := now, br_wakes := br_wakes rc + 1, br_stalled := st\<rparr>, True, st))"

subsection \<open>A standing fact, observed again and again\<close>

fun wakes_at :: "backoff_rule \<Rightarrow> backoff_rec option \<Rightarrow> int list \<Rightarrow> int list" where
  "wakes_at rule r [] = []"
| "wakes_at rule r (t # ts) = (case advance r t rule of (r', due, _) \<Rightarrow>
     (if due then [t] else []) @ wakes_at rule (Some r') ts)"

text \<open>What a record says: it counts its wakes, and it is stalled exactly when they are used up.\<close>

definition sound :: "backoff_rule \<Rightarrow> backoff_rec \<Rightarrow> bool" where
  "sound rule r \<longleftrightarrow> br_wakes r \<ge> 1 \<and> (br_stalled r \<longleftrightarrow> br_wakes r \<ge> bo_max rule)"

lemma advance_sound:
  assumes "\<forall>x. r = Some x \<longrightarrow> sound rule x" and "advance r t rule = (r', due, st)"
  shows "sound rule r'"
  using assms by (auto simp: advance_def sound_def new_record_def Let_def split: option.splits if_splits)

lemma wakes_later:
  assumes "sound rule r" and "sorted (br_last r # ts)"
  shows "length (wakes_at rule (Some r) ts) \<le> nat (max (bo_max rule) 1 - br_wakes r) \<and>
    (\<forall>i < length (wakes_at rule (Some r) ts).
       wakes_at rule (Some r) ts ! i - (br_last r # wakes_at rule (Some r) ts) ! i \<ge> wait_ticks rule (br_wakes r + int i))"
  using assms
proof (induction ts arbitrary: r)
  case (Cons t ts)
  obtain r' due st where a: "advance (Some r) t rule = (r', due, st)" using prod_cases3 by blast
  have le: "br_last r \<le> t" and s: "sorted (t # ts)" and w: "br_wakes r \<ge> 1" using Cons.prems by (auto simp: sound_def)
  have snd: "sound rule r'" by (rule advance_sound [OF _ a]) (simp add: Cons.prems(1))
  show ?case
  proof (cases due)
    case False
    with a le w have r': "br_last r' = br_last r" "br_wakes r' = br_wakes r"
      by (auto simp: advance_def Let_def split: if_splits)
    from Cons.prems(2) r' have "sorted (br_last r' # ts)" by simp
    from Cons.IH [OF snd this] a False r' show ?thesis by simp
  next
    case True
    with a le w have r': "br_last r' = t" "br_wakes r' = br_wakes r + 1" and wait: "t - br_last r \<ge> wait_ticks rule (br_wakes r)"
      and ns: "\<not> br_stalled r"
      by (auto simp: advance_def Let_def split: if_splits)
    let ?ws = "wakes_at rule (Some r') ts"
    from s r' have "sorted (br_last r' # ts)" by simp
    note ih = Cons.IH [OF snd this, unfolded r']
    have e: "wakes_at rule (Some r) (t # ts) = t # ?ws" using a True by simp
    from ns Cons.prems(1) have "br_wakes r < bo_max rule" by (auto simp: sound_def)
    with w have m: "max (bo_max rule) 1 = bo_max rule" "nat (bo_max rule - br_wakes r) = Suc (nat (bo_max rule - (br_wakes r + 1)))" by simp_all
    from ih have "length ?ws \<le> nat (bo_max rule - (br_wakes r + 1))" unfolding m(1) by blast
    then have len: "length (t # ?ws) \<le> nat (max (bo_max rule) 1 - br_wakes r)" unfolding m by simp
    have gap: "(t # ?ws) ! i - (br_last r # t # ?ws) ! i \<ge> wait_ticks rule (br_wakes r + int i)" if "i < length (t # ?ws)" for i
    proof (cases i)
      case (Suc j)
      with that have "j < length ?ws" by simp
      with ih have "?ws ! j - (t # ?ws) ! j \<ge> wait_ticks rule (br_wakes r + 1 + int j)" by blast
      with Suc show ?thesis by (simp add: algebra_simps)
    qed (use wait in simp)
    from len gap show ?thesis unfolding e by blast
  qed
qed simp

lemma wakes_from_start:
  assumes "sorted ts" and "ts \<noteq> []"
  shows "wakes_at rule None ts \<noteq> [] \<and> hd (wakes_at rule None ts) = hd ts \<and>
    length (wakes_at rule None ts) \<le> nat (max (bo_max rule) 1) \<and>
    (\<forall>i. Suc i < length (wakes_at rule None ts) \<longrightarrow>
       wakes_at rule None ts ! Suc i - wakes_at rule None ts ! i \<ge> wait_ticks rule (int i + 1))"
proof -
  from assms obtain t us where ts: "ts = t # us" by (cases ts) auto
  let ?r = "(new_record t)\<lparr>br_wakes := 1, br_stalled := 1 \<ge> bo_max rule\<rparr>"
  have e: "wakes_at rule None ts = t # wakes_at rule (Some ?r) us" by (simp add: ts advance_def Let_def)
  have "sound rule ?r" by (simp add: sound_def)
  moreover have "sorted (br_last ?r # us)" using assms(1) ts by (simp add: new_record_def)
  ultimately have l: "length (wakes_at rule (Some ?r) us) \<le> nat (max (bo_max rule) 1 - 1)"
    and g: "\<forall>i < length (wakes_at rule (Some ?r) us).
       wakes_at rule (Some ?r) us ! i - (t # wakes_at rule (Some ?r) us) ! i \<ge> wait_ticks rule (1 + int i)"
    using wakes_later [of rule ?r us] by (simp_all add: new_record_def)
  from l have "length (wakes_at rule None ts) \<le> nat (max (bo_max rule) 1)" unfolding e by simp
  with g show ?thesis unfolding e by (simp add: ts add.commute)
qed

text \<open>A fact that is not stalled is not forgotten: once the wait is over, the next look wakes.\<close>

lemma wakes_when_waited:
  assumes "sound rule r" and "\<not> br_stalled r" and "t \<ge> br_last r + wait_ticks rule (br_wakes r)" and "t \<ge> br_last r"
  shows "fst (snd (advance (Some r) t rule))"
  using assms by (auto simp: advance_def Let_def sound_def)

subsection \<open>The retry clock\<close>

record retry_cursors =
  rt_seen :: "int option"
  rt_wall :: "int option"
  rt_offset :: int

record retry_clock =
  rc_paused_seconds :: rat
  rc_retry_ticks :: int

definition retry_now :: "retry_clock \<Rightarrow> int \<Rightarrow> int option \<Rightarrow> retry_cursors \<Rightarrow> int option \<times> retry_cursors" where
  "retry_now rc now_wall tick cur = (case tick of
      None \<Rightarrow> (None, cur)
    | Some now \<Rightarrow>
        if rc_paused_seconds rc \<le> 0 then (Some now, cur) else
        let off = rt_offset cur;
            (seen', wall', off') = (case (rt_seen cur, rt_wall cur) of
                (Some seen, Some wall0) \<Rightarrow>
                  if now < seen then (now, now_wall, 0)
                  else if now > seen then (now, now_wall, off)
                  else if of_int (now_wall - wall0) \<ge> rc_paused_seconds rc then (seen, now_wall, off + rc_retry_ticks rc)
                  else (seen, wall0, off)
              | _ \<Rightarrow> (now, now_wall, off)) in
        (Some (now + off'), \<lparr>rt_seen = Some seen', rt_wall = Some wall', rt_offset = off'\<rparr>))"

text \<open>Reading the clock at a list of (wall second, game tick) pairs.\<close>

fun retry_run :: "retry_clock \<Rightarrow> retry_cursors \<Rightarrow> (int \<times> int) list \<Rightarrow> int list" where
  "retry_run rc cur [] = []"
| "retry_run rc cur ((w, t) # xs) = (case retry_now rc w (Some t) cur of (v, cur') \<Rightarrow>
     (case v of Some n \<Rightarrow> [n] | None \<Rightarrow> []) @ retry_run rc cur' xs)"

lemma retry_run_from:
  assumes "rc_retry_ticks rc \<ge> 0" and "rc_paused_seconds rc > 0" and "rt_seen cur = Some s" and "rt_wall cur \<noteq> None"
    and "sorted (s # map snd xs)"
  shows "sorted ((s + rt_offset cur) # retry_run rc cur xs)"
  using assms(3-)
proof (induction xs arbitrary: cur s)
  case (Cons x xs)
  obtain w t where x: "x = (w, t)" by force
  obtain v cur' where n: "retry_now rc w (Some t) cur = (v, cur')" by force
  have le: "s \<le> t" and sor: "sorted (t # map snd xs)" using Cons.prems(3) x by auto
  from n Cons.prems(1,2) le assms(1,2) have c: "v = Some (t + rt_offset cur')" "rt_seen cur' = Some t" "rt_wall cur' \<noteq> None"
    and off: "rt_offset cur \<le> rt_offset cur'"
    by (auto simp: retry_now_def Let_def split: option.splits if_splits)
  from Cons.IH [OF c(2,3) sor] have "sorted ((t + rt_offset cur') # retry_run rc cur' xs)" .
  with le off show ?case by (simp add: x n c(1)) fastforce
qed simp

text \<open>While the game tick does not go back, neither does the clock.\<close>

lemma retry_run_sorted:
  assumes "rc_retry_ticks rc \<ge> 0" and "sorted (map snd xs)" and "\<forall>s. rt_seen cur = Some s \<longrightarrow> xs \<noteq> [] \<longrightarrow> s \<le> snd (hd xs)"
  shows "sorted (retry_run rc cur xs)"
proof (cases "rc_paused_seconds rc > 0")
  case False
  have "retry_run rc cur xs = map snd xs" using False by (induction xs) (auto simp: retry_now_def)
  with assms(2) show ?thesis by simp
next
  case True
  show ?thesis
  proof (cases xs)
    case (Cons x ys)
    obtain w t where x: "x = (w, t)" by force
    obtain v cur' where n: "retry_now rc w (Some t) cur = (v, cur')" by force
    from n assms(1,3) True Cons x have c: "v = Some (t + rt_offset cur')" "rt_seen cur' = Some t" "rt_wall cur' \<noteq> None"
      by (auto simp: retry_now_def Let_def split: option.splits if_splits)
    have "sorted (t # map snd ys)" using assms(2) Cons x by simp
    from retry_run_from [OF assms(1) True c(2,3) this] show ?thesis by (simp add: Cons x n c(1))
  qed simp
qed

text \<open>A paused fort's clock moves on: standing still for the interval adds the retry ticks.\<close>

lemma retry_advances:
  assumes "rc_paused_seconds rc > 0" and "rt_seen cur = Some t" and "rt_wall cur = Some w0"
    and "of_int (w - w0) \<ge> rc_paused_seconds rc"
  shows "fst (retry_now rc w (Some t) cur) = Some (t + rt_offset cur + rc_retry_ticks rc)"
  using assms by (simp add: retry_now_def Let_def)

end
