(* ===== verification/Watches.thy ===== *)
theory Watches
  imports Backoff Signals
begin

section \<open>What the conductor polls: orders, jobs, latches\<close>

text \<open>
  \<open>conductor/order_watch.py\<close>, \<open>conductor/job_watch.py\<close> and \<open>conductor/tripwire.py\<close>. An order is the object
  \<open>orders.list\<close> returns, whose ids and amounts are integers; the cursor store is a dict of integers where an
  absent key reads 0. The job watch keeps one entry per key. \<open>pr\<close> prints what Python's \<open>str\<close> prints of a
  value that is not a string.
\<close>

subsection \<open>The cursor store\<close>

type_synonym cursors = "(string \<times> int) list"

definition cur_get :: "cursors \<Rightarrow> string \<Rightarrow> int" where
  "cur_get c k = (case map_of c k of None \<Rightarrow> 0 | Some v \<Rightarrow> v)"

definition cur_set :: "string \<Rightarrow> int \<Rightarrow> cursors \<Rightarrow> cursors" where
  "cur_set k v c = AList.update k v c"

lemma cur_get_set [simp]: "cur_get (cur_set k v c) k' = (if k' = k then v else cur_get c k')"
  by (simp add: cur_get_def cur_set_def update_conv')

subsection \<open>Manager orders\<close>

datatype order_condition = Stalled_Order | Blocked_Order

definition order_finished :: "obj \<Rightarrow> bool" where
  "order_finished o1 = (getj o1 ''finished_year'' \<noteq> JNull \<and> getj o1 ''finished_year'' \<noteq> JInt (-1))"

definition order_has_work_left :: "obj \<Rightarrow> bool" where
  "order_has_work_left o1 =
     (if getj o1 ''amount_total'' = JInt 0 then True
      else if getj o1 ''amount_left'' = JNull then True
      else int_of (getj o1 ''amount_left'') > 0)"

definition order_condition_of :: "obj \<Rightarrow> order_condition option" where
  "order_condition_of o1 =
     (if order_finished o1 \<or> \<not> order_has_work_left o1 then None
      else if getj o1 ''validated'' = JBool False then Some Blocked_Order
      else if getj o1 ''validated'' = JBool True \<and> getj o1 ''active'' = JBool False then Some Stalled_Order
      else None)"

record order_policy =
  op_threshold :: int
  op_rule :: backoff_rule

definition first_key :: "int \<Rightarrow> string" where "first_key i = ''__order_first_seen_'' @ dec_int i"
definition notified_key :: "int \<Rightarrow> string" where "notified_key i = ''__order_last_notified_'' @ dec_int i"
definition wakes_key :: "int \<Rightarrow> string" where "wakes_key i = ''__order_wakes_'' @ dec_int i"

text \<open>One order of the loop: the store after it, and its condition when a wake is due for it.\<close>

definition watch_order :: "order_policy \<Rightarrow> bool \<Rightarrow> int \<Rightarrow> int \<Rightarrow> obj \<Rightarrow> cursors \<Rightarrow> cursors \<times> (int \<times> order_condition) option" where
  "watch_order pol dry tick rt o1 c = (case getj o1 ''id'' of
      JInt i \<Rightarrow> (case order_condition_of o1 of
          None \<Rightarrow> (if dry then c else cur_set (wakes_key i) 0 (cur_set (notified_key i) 0 (cur_set (first_key i) 0 c)), None)
        | Some cond \<Rightarrow>
            let seen = cur_get c (first_key i);
                first = (if seen = 0 then tick else seen);
                c1 = (if seen = 0 \<and> \<not> dry then cur_set (first_key i) first c else c) in
            if max 0 (tick - first) < op_threshold pol then (c1, None) else
            let last = cur_get c (notified_key i); w0 = cur_get c (wakes_key i);
                wakes = (if w0 = 0 \<and> last \<noteq> 0 then 1 else w0);
                (rc, due, _) = advance (if wakes \<noteq> 0 then Some \<lparr>br_first = None, br_last = last, br_wakes = wakes,
                    br_stalled = (wakes \<ge> bo_max (op_rule pol))\<rparr> else None) rt (op_rule pol) in
            if \<not> due then (c1, None)
            else (if dry then c1 else cur_set (wakes_key i) (br_wakes rc) (cur_set (notified_key i) rt c1), Some (i, cond)))
    | _ \<Rightarrow> (c, None))"

fun watch_orders :: "order_policy \<Rightarrow> bool \<Rightarrow> int \<Rightarrow> int \<Rightarrow> obj list \<Rightarrow> cursors \<Rightarrow> cursors \<times> (int \<times> order_condition) list" where
  "watch_orders pol dry tick rt [] c = (c, [])"
| "watch_orders pol dry tick rt (o1 # os) c = (case watch_order pol dry tick rt o1 c of (c1, due) \<Rightarrow>
     case watch_orders pol dry tick rt os c1 of (c2, ds) \<Rightarrow> (c2, (case due of None \<Rightarrow> [] | Some d \<Rightarrow> [d]) @ ds))"

record order_watch =
  ow_stalled :: "int list"
  ow_blocked :: "int list"

definition evaluate_orders :: "order_policy \<Rightarrow> bool \<Rightarrow> int option \<Rightarrow> int option \<Rightarrow> obj list \<Rightarrow> cursors \<Rightarrow> cursors \<times> order_watch" where
  "evaluate_orders pol dry game_tick retry_tick os c = (case game_tick of
      None \<Rightarrow> (c, \<lparr>ow_stalled = [], ow_blocked = []\<rparr>)
    | Some tick \<Rightarrow>
        (case watch_orders pol dry tick (case retry_tick of Some t \<Rightarrow> t | None \<Rightarrow> tick) os c of (c', ds) \<Rightarrow>
          (c', \<lparr>ow_stalled = map fst (filter (\<lambda>(_, k). k = Stalled_Order) ds),
                ow_blocked = map fst (filter (\<lambda>(_, k). k = Blocked_Order) ds)\<rparr>)))"

subsection \<open>Orders: a dry run sees what a real cycle would\<close>

lemma dec_inject: "dec m = dec n \<longleftrightarrow> m = n"
  by (metis digits_value_dec option.inject)

lemma dec_no_minus: "dec n \<noteq> CHR ''-'' # s"
  using dec_digits [of "CHR ''-''" n] by (auto simp: digit_char_def)

lemma dec_int_inject: "dec_int i = dec_int j \<longleftrightarrow> i = j"
  using dec_no_minus by (auto simp: dec_int_def dec_inject) metis

lemma order_keys [simp]:
  "first_key i \<noteq> notified_key j" "notified_key i \<noteq> first_key j" "first_key i \<noteq> wakes_key j" "wakes_key i \<noteq> first_key j"
  "notified_key i \<noteq> wakes_key j" "wakes_key i \<noteq> notified_key j"
  "first_key i = first_key j \<longleftrightarrow> i = j" "notified_key i = notified_key j \<longleftrightarrow> i = j" "wakes_key i = wakes_key j \<longleftrightarrow> i = j"
  by (simp_all add: first_key_def notified_key_def wakes_key_def dec_int_inject)

definition same_order :: "int \<Rightarrow> cursors \<Rightarrow> cursors \<Rightarrow> bool" where
  "same_order i c d \<longleftrightarrow> cur_get c (first_key i) = cur_get d (first_key i) \<and>
     cur_get c (notified_key i) = cur_get d (notified_key i) \<and> cur_get c (wakes_key i) = cur_get d (wakes_key i)"

lemma watch_order_dry: "fst (watch_order pol True tick rt o1 c) = c"
  by (auto simp: watch_order_def Let_def split: json.splits option.splits prod.splits)

lemma watch_order_other:
  assumes "getj o1 ''id'' \<noteq> JInt j"
  shows "same_order j (fst (watch_order pol False tick rt o1 c)) c"
  using assms by (auto simp: watch_order_def same_order_def Let_def split: json.splits option.splits prod.splits)

lemma watch_order_verdict:
  assumes "\<And>i. getj o1 ''id'' = JInt i \<Longrightarrow> same_order i c d"
  shows "snd (watch_order pol dry tick rt o1 c) = snd (watch_order pol dry' tick rt o1 d)"
proof (cases "getj o1 ''id''")
  case (JInt i)
  from assms [OF JInt] show ?thesis
    by (auto simp: watch_order_def same_order_def JInt Let_def split: option.splits prod.splits)
qed (simp_all add: watch_order_def)

lemma watch_orders_dry:
  assumes "distinct (map (\<lambda>o1. getj o1 ''id'') os)" and "\<And>o1 i. o1 \<in> set os \<Longrightarrow> getj o1 ''id'' = JInt i \<Longrightarrow> same_order i c d"
  shows "fst (watch_orders pol True tick rt os c) = c \<and>
    snd (watch_orders pol True tick rt os c) = snd (watch_orders pol False tick rt os d)"
  using assms
proof (induction os arbitrary: d)
  case (Cons o1 os)
  obtain d1 v where d1: "watch_order pol False tick rt o1 d = (d1, v)" by force
  have v: "watch_order pol True tick rt o1 c = (c, v)"
    using watch_order_dry [of pol tick rt o1 c] watch_order_verdict [of o1 c d pol True tick rt False] Cons.prems(2) d1
    by (cases "watch_order pol True tick rt o1 c") auto
  have "same_order i c d1" if "p \<in> set os" "getj p ''id'' = JInt i" for p i
  proof -
    have "getj o1 ''id'' \<noteq> JInt i" using Cons.prems(1) that by force
    from watch_order_other [OF this, of pol tick rt d] d1 Cons.prems(2) [of p i] that show ?thesis by (simp add: same_order_def)
  qed
  with Cons.IH [of d1] Cons.prems(1) have "fst (watch_orders pol True tick rt os c) = c"
    "snd (watch_orders pol True tick rt os c) = snd (watch_orders pol False tick rt os d1)" by simp_all
  then show ?case by (auto simp: v d1 split: prod.splits)
qed simp

subsection \<open>Orders: the wakes of one that stays stuck\<close>

fun order_wakes_at :: "order_policy \<Rightarrow> obj \<Rightarrow> (int \<times> int) list \<Rightarrow> cursors \<Rightarrow> int list" where
  "order_wakes_at pol o1 [] c = []"
| "order_wakes_at pol o1 ((tick, rt) # ts) c = (case watch_order pol False tick rt o1 c of (c1, due) \<Rightarrow>
     (if due = None then [] else [rt]) @ order_wakes_at pol o1 ts c1)"

definition cursor_rec :: "order_policy \<Rightarrow> int \<Rightarrow> cursors \<Rightarrow> backoff_rec option" where
  "cursor_rec pol i c = (if cur_get c (wakes_key i) = 0 then None
     else Some \<lparr>br_first = None, br_last = cur_get c (notified_key i), br_wakes = cur_get c (wakes_key i),
       br_stalled = (cur_get c (wakes_key i) \<ge> bo_max (op_rule pol))\<rparr>)"

text \<open>Only the tick of the first sighting is kept in the watch's record, and no wake depends on it.\<close>

lemma wakes_at_first: "wakes_at rule (Some r) ts = wakes_at rule (Some (r\<lparr>br_first := f\<rparr>)) ts"
proof (induction ts arbitrary: r f)
  case (Cons t ts)
  obtain r1 d1 s1 where a: "advance (Some r) t rule = (r1, d1, s1)" using prod_cases3 by blast
  obtain r2 d2 s2 where b: "advance (Some (r\<lparr>br_first := f\<rparr>)) t rule = (r2, d2, s2)" using prod_cases3 by blast
  have "d2 = d1 \<and> r2 = r1\<lparr>br_first := br_first r2\<rparr>" using a b
    by (cases r) (auto simp: advance_def Let_def new_record_def split: if_splits)
  then have d: "d2 = d1" and r: "r2 = r1\<lparr>br_first := br_first r2\<rparr>" by blast+
  from Cons.IH [of r1 "br_first r2"] r have "wakes_at rule (Some r1) ts = wakes_at rule (Some r2) ts" by metis
  with a b d show ?case by simp
qed simp

lemma order_wakes_stuck:
  assumes "getj o1 ''id'' = JInt i" and "order_condition_of o1 = Some cond"
    and "cur_get c (first_key i) = f" and "f \<noteq> 0" and "\<forall>(tick, rt) \<in> set ts. max 0 (tick - f) \<ge> op_threshold pol"
    and "cur_get c (wakes_key i) = 0 \<longrightarrow> cur_get c (notified_key i) = 0" and "cur_get c (wakes_key i) \<ge> 0"
  shows "order_wakes_at pol o1 ts c = wakes_at (op_rule pol) (cursor_rec pol i c) (map snd ts)"
  using assms(3-)
proof (induction ts arbitrary: c)
  case (Cons x ts)
  obtain tick rt where x: "x = (tick, rt)" by force
  let ?rc = "cursor_rec pol i c"
  obtain r due st where a: "advance ?rc rt (op_rule pol) = (r, due, st)" using prod_cases3 by blast
  have th: "\<not> max 0 (tick - f) < op_threshold pol" using Cons.prems(3) x by auto
  have w: "watch_order pol False tick rt o1 c =
     (if due then (cur_set (wakes_key i) (br_wakes r) (cur_set (notified_key i) rt c), Some (i, cond)) else (c, None))"
    using a th Cons.prems assms(1,2) by (auto simp: watch_order_def cursor_rec_def Let_def split: if_splits)
  have rest: "\<forall>(tick, rt) \<in> set ts. max 0 (tick - f) \<ge> op_threshold pol" using Cons.prems(3) by simp
  show ?case
  proof (cases due)
    case True
    let ?c = "cur_set (wakes_key i) (br_wakes r) (cur_set (notified_key i) rt c)"
    from a True Cons.prems(5) have r: "br_last r = rt" "br_wakes r \<ge> 1" "br_stalled r \<longleftrightarrow> br_wakes r \<ge> bo_max (op_rule pol)"
      by (auto simp: advance_def cursor_rec_def new_record_def Let_def split: option.splits if_splits)
    have "cursor_rec pol i ?c = Some (r\<lparr>br_first := None\<rparr>)" using r by (cases r) (auto simp: cursor_rec_def)
    moreover have "order_wakes_at pol o1 ts ?c = wakes_at (op_rule pol) (cursor_rec pol i ?c) (map snd ts)"
      by (rule Cons.IH) (use Cons.prems r rest in auto)
    ultimately show ?thesis using w True a x wakes_at_first [of "op_rule pol" r "map snd ts" None] by simp
  next
    case False
    then have n: "?rc \<noteq> None" using a by (auto simp: advance_def Let_def split: option.splits)
    then obtain q where q: "?rc = Some q" by blast
    with a False have "r = q\<lparr>br_first := br_first r\<rparr>"
      by (auto simp: advance_def Let_def split: if_splits)
    then have "wakes_at (op_rule pol) (Some r) (map snd ts) = wakes_at (op_rule pol) ?rc (map snd ts)"
      using wakes_at_first [of "op_rule pol" q "map snd ts" "br_first r"] q by simp
    moreover have "order_wakes_at pol o1 ts c = wakes_at (op_rule pol) ?rc (map snd ts)"
      by (rule Cons.IH) (use Cons.prems rest in auto)
    ultimately show ?thesis using w False a x by simp
  qed
qed simp

subsection \<open>Stuck jobs\<close>

definition TICKS_PER_GAME_DAY :: int where "TICKS_PER_GAME_DAY = 1200"

datatype job_kind = Unclaimed | Suspended

definition text_of :: "(json \<Rightarrow> string) \<Rightarrow> json \<Rightarrow> string" where
  "text_of pr v = (if v = JNull then [] else strip (py_str pr v))"

definition job_kind_of :: "obj \<Rightarrow> job_kind" where
  "job_kind_of j = (if getj j ''waiting_on'' = JStr ''suspended'' then Suspended else Unclaimed)"

definition job_base_key :: "(json \<Rightarrow> string) \<Rightarrow> obj \<Rightarrow> string" where
  "job_base_key pr j = join ''|'' (map (\<lambda>f. text_of pr (getj j f))
     [''job_type'', ''detail'', ''building'', ''near_landmark'', ''direction'', ''distance_tiles'', ''order_id''])"

definition job_name :: "(json \<Rightarrow> string) \<Rightarrow> obj \<Rightarrow> string" where
  "job_name pr j = (let d = text_of pr (getj j ''detail''); t = text_of pr (getj j ''job_type'') in
     if d \<noteq> [] then d else if t \<noteq> [] then t else ''job'')"

definition job_where :: "(json \<Rightarrow> string) \<Rightarrow> obj \<Rightarrow> string" where
  "job_where pr j =
     (let landmark = text_of pr (getj j ''near_landmark''); dist = getj j ''distance_tiles'';
          direction = text_of pr (getj j ''direction'');
          far = (if dist = JNull then [] else py_str pr dist @ '' tiles'');
          offset = (if far \<noteq> [] \<and> direction \<noteq> [] then far @ '' '' @ direction else far @ direction) in
      if landmark = [] then [] else if offset \<noteq> [] then '', '' @ offset @ '' of '' @ landmark else '', near '' @ landmark)"

definition describe_job :: "(json \<Rightarrow> string) \<Rightarrow> obj \<Rightarrow> job_kind \<Rightarrow> int \<Rightarrow> string" where
  "describe_job pr j kind age =
     (let days = max 1 (age div TICKS_PER_GAME_DAY) in
      job_name pr j @ (if kind = Suspended then '' suspended'' else '' unclaimed'') @ '' for '' @ dec_int days
        @ (if days = 1 then '' game day'' else '' game days'') @ job_where pr j)"

record job_policy =
  jp_unclaimed :: int
  jp_suspended :: int
  jp_rule :: backoff_rule

record job_entry =
  je_first :: "int option"
  je_notified :: "int option"
  je_wakes :: int
  je_stalled :: bool

record stuck_job =
  sj_key :: string
  sj_kind :: job_kind
  sj_age :: int
  sj_line :: string

definition watched_job :: "json \<Rightarrow> bool" where
  "watched_job v = (is_obj v \<and> \<not> truthy (getj (fields_of v) ''auto_followed'')
     \<and> getj (fields_of v) ''waiting_on'' \<noteq> JStr ''auto_followed'')"

text \<open>One job with its key: the entry to keep, and the job when it is stuck, with whether a wake is due.\<close>

definition watch_job :: "(json \<Rightarrow> string) \<Rightarrow> job_policy \<Rightarrow> int \<Rightarrow> int \<Rightarrow> job_entry option \<Rightarrow> string \<Rightarrow> obj
    \<Rightarrow> job_entry \<times> (stuck_job \<times> bool) option" where
  "watch_job pr pol tick rt prior key j =
     (let kind = job_kind_of j;
          first = (case Option.bind prior je_first of Some f \<Rightarrow> if f > tick then tick else f | None \<Rightarrow> tick);
          last = Option.bind prior je_notified;
          w = (case prior of None \<Rightarrow> 0 | Some e \<Rightarrow> je_wakes e);
          wakes = (if w \<noteq> 0 then w else if last \<noteq> None then 1 else 0);
          entry = \<lparr>je_first = Some first, je_notified = last, je_wakes = wakes, je_stalled = (wakes \<ge> bo_max (jp_rule pol))\<rparr>;
          age = max 0 (tick - first) in
      if age < (if kind = Suspended then jp_suspended pol else jp_unclaimed pol) then (entry, None) else
      let item = \<lparr>sj_key = key, sj_kind = kind, sj_age = age, sj_line = describe_job pr j kind age\<rparr>;
          (rc, due, _) = advance (if wakes \<noteq> 0 then Some \<lparr>br_first = None, br_last = (case last of Some t \<Rightarrow> t | None \<Rightarrow> 0),
            br_wakes = wakes, br_stalled = je_stalled entry\<rparr> else None) rt (jp_rule pol) in
      (if due then entry\<lparr>je_notified := Some rt, je_wakes := br_wakes rc, je_stalled := br_stalled rc\<rparr> else entry,
       Some (item, due)))"

text \<open>The keys of the jobs polled: the base key and how many of the same have come before.\<close>

fun job_keys :: "(json \<Rightarrow> string) \<Rightarrow> string list \<Rightarrow> obj list \<Rightarrow> string list" where
  "job_keys pr seen [] = []"
| "job_keys pr seen (j # js) = (let b = job_base_key pr j in
     (b @ CHR ''#'' # dec (count_list seen b)) # job_keys pr (b # seen) js)"

record job_watch =
  jw_stuck :: "stuck_job list"
  jw_due :: "stuck_job list"

definition evaluate_jobs :: "(json \<Rightarrow> string) \<Rightarrow> job_policy \<Rightarrow> int option \<Rightarrow> int option \<Rightarrow> json list
    \<Rightarrow> (string \<times> job_entry) list \<Rightarrow> (string \<times> job_entry) list \<times> job_watch" where
  "evaluate_jobs pr pol game_tick retry_tick jobs state = (case game_tick of
      None \<Rightarrow> (state, \<lparr>jw_stuck = [], jw_due = []\<rparr>)
    | Some tick \<Rightarrow>
        let rt = (case retry_tick of Some t \<Rightarrow> t | None \<Rightarrow> tick); js = map fields_of (filter watched_job jobs);
            rows = map (\<lambda>(k, j). (k, watch_job pr pol tick rt (map_of state k) k j)) (zip (job_keys pr [] js) js);
            stuck = keys_by (\<lambda>(_, _, s). s) rows;
            oldest = sort_key (\<lambda>x. - sj_age x) in
        (fold (\<lambda>(k, e, _). AList.update k e) rows [],
         \<lparr>jw_stuck = oldest (map fst stuck), jw_due = oldest (map fst (filter snd stuck))\<rparr>))"

lemma hash_split:
  assumes "a @ CHR ''#'' # dec m = b @ CHR ''#'' # dec n"
  shows "a = b \<and> m = n"
proof -
  have no: "CHR ''#'' \<notin> set (dec k)" for k using dec_digits [of "CHR ''#''" k] by (auto simp: digit_char_def)
  have "takeWhile (\<lambda>c. c \<noteq> CHR ''#'') (rev (s @ CHR ''#'' # dec k)) = rev (dec k)" for s k
  proof -
    have "takeWhile (\<lambda>c. c \<noteq> CHR ''#'') (rev (dec k) @ CHR ''#'' # rev s)
        = rev (dec k) @ takeWhile (\<lambda>c. c \<noteq> CHR ''#'') (CHR ''#'' # rev s)"
      by (rule takeWhile_append2) (use no in auto)
    then show ?thesis by simp
  qed
  from this [of a m] this [of b n] assms have "dec m = dec n" by (metis rev_rev_ident)
  with assms show ?thesis by (simp add: dec_inject)
qed

lemma job_keys_shape:
  "k \<in> set (job_keys pr seen js) \<Longrightarrow> \<exists>j \<in> set js. \<exists>n. k = job_base_key pr j @ CHR ''#'' # dec n \<and> n \<ge> count_list seen (job_base_key pr j)"
proof (induction pr seen js rule: job_keys.induct)
  case (2 pr seen j js)
  let ?b = "job_base_key pr j"
  from "2.prems" consider "k = ?b @ CHR ''#'' # dec (count_list seen ?b)" | "k \<in> set (job_keys pr (?b # seen) js)"
    by (auto simp: Let_def)
  then show ?case
  proof cases
    case 2
    from "2.IH" [OF refl 2] obtain i n where i: "i \<in> set js" and k: "k = job_base_key pr i @ CHR ''#'' # dec n"
      and n: "n \<ge> count_list (?b # seen) (job_base_key pr i)" by blast
    have "n \<ge> count_list seen (job_base_key pr i)" using n by (cases "?b = job_base_key pr i") simp_all
    with i k show ?thesis by (intro bexI [of _ i] exI [of _ n]) simp_all
  qed auto
qed simp

lemma job_keys_distinct: "distinct (job_keys pr seen js)"
proof (induction pr seen js rule: job_keys.induct)
  case (2 pr seen j js)
  let ?b = "job_base_key pr j"
  have "?b @ CHR ''#'' # dec (count_list seen ?b) \<notin> set (job_keys pr (?b # seen) js)"
  proof
    assume "?b @ CHR ''#'' # dec (count_list seen ?b) \<in> set (job_keys pr (?b # seen) js)"
    then obtain i n where e: "?b @ CHR ''#'' # dec (count_list seen ?b) = job_base_key pr i @ CHR ''#'' # dec n"
      and n: "n \<ge> count_list (?b # seen) (job_base_key pr i)" using job_keys_shape by blast
    have b: "?b = job_base_key pr i" and c: "count_list seen ?b = n" using hash_split [OF e] by blast+
    from n c show False unfolding b [symmetric] by simp
  qed
  with "2.IH" [OF refl] show ?case by (simp add: Let_def)
qed simp

lemma job_keys_length [simp]: "length (job_keys pr seen js) = length js"
  by (induction pr seen js rule: job_keys.induct) (auto simp: Let_def)

lemma update_absent: "k \<notin> set (map fst xs) \<Longrightarrow> AList.update k v xs = xs @ [(k, v)]"
  by (induction xs) auto

lemma fold_update_distinct:
  "distinct (map fst rows) \<Longrightarrow> set (map fst rows) \<inter> set (map fst acc) = {} \<Longrightarrow>
     fold (\<lambda>(k, e, _). AList.update k e) rows acc = acc @ map (\<lambda>(k, e, _). (k, e)) rows"
proof (induction rows arbitrary: acc)
  case (Cons row rows)
  obtain k e s where r: "row = (k, e, s)" using prod_cases3 by blast
  have "k \<notin> set (map fst acc)" using Cons.prems(2) r by auto
  with Cons r show ?case by (simp add: update_absent)
qed simp

text \<open>Every watched job keeps an entry of its own: identical jobs at one spot stay apart.\<close>

lemma evaluate_jobs_entries:
  assumes "evaluate_jobs pr pol (Some tick) rt jobs state = (state', res)"
  shows "map fst state' = job_keys pr [] (map fields_of (filter watched_job jobs)) \<and> distinct (map fst state') \<and>
    length state' = length (filter watched_job jobs) \<and> set (jw_due res) \<subseteq> set (jw_stuck res)"
proof -
  let ?js = "map fields_of (filter watched_job jobs)"
  let ?rt = "case rt of Some t \<Rightarrow> t | None \<Rightarrow> tick"
  let ?rows = "map (\<lambda>(k, j). (k, watch_job pr pol tick ?rt (map_of state k) k j)) (zip (job_keys pr [] ?js) ?js)"
  have k: "map fst ?rows = job_keys pr [] ?js" by (simp add: o_def case_prod_unfold)
  have s: "state' = fold (\<lambda>(k, e, _). AList.update k e) ?rows []"
    and r: "set (jw_due res) \<subseteq> set (jw_stuck res)"
    using assms by (auto simp: evaluate_jobs_def Let_def)
  have "state' = map (\<lambda>(k, e, _). (k, e)) ?rows"
    unfolding s by (subst fold_update_distinct) (simp_all only: k job_keys_distinct list.map(1) list.set(1) Int_empty_right append_Nil)
  then have "map fst state' = map fst ?rows" by (simp add: o_def case_prod_unfold)
  then have m: "map fst state' = job_keys pr [] ?js" using k by simp
  then have "length (map fst state') = length (job_keys pr [] ?js)" by (rule arg_cong)
  then have "length state' = length (filter watched_job jobs)" by (simp only: length_map job_keys_length)
  with m r job_keys_distinct show ?thesis by metis
qed

subsection \<open>Tripwire latches\<close>

record episode =
  ep_reason :: string
  ep_tick :: json

definition KEEP_EPISODES :: nat where "KEEP_EPISODES = 40"

definition keep_last :: "nat \<Rightarrow> 'a list \<Rightarrow> 'a list" where
  "keep_last n xs = drop (length xs - n) xs"

definition note_latch :: "episode \<Rightarrow> episode list \<Rightarrow> bool \<times> episode list" where
  "note_latch l eps = (if l \<in> set eps then (False, eps) else (True, keep_last KEEP_EPISODES (eps @ [l])))"

definition repeat_count :: "episode list \<Rightarrow> episode \<Rightarrow> int \<Rightarrow> nat" where
  "repeat_count eps l window = length (filter (\<lambda>e. ep_reason e = ep_reason l \<and>
     (if is_int (ep_tick l) \<and> is_int (ep_tick e) then abs (int_of (ep_tick l) - int_of (ep_tick e)) \<le> window
      else \<not> is_int (ep_tick l) \<and> \<not> is_int (ep_tick e))) eps)"

definition owners_for :: "(string \<times> string list) list \<Rightarrow> string \<Rightarrow> string list" where
  "owners_for owners reason = (case map_of owners reason of None \<Rightarrow> [] | Some rs \<Rightarrow> rs)"

lemma keep_last_snoc: "n > 0 \<Longrightarrow> x \<in> set (keep_last n (xs @ [x]))"
  by (simp add: keep_last_def)

lemma note_latch_noted: "l \<in> set (snd (note_latch l eps))"
proof (cases "l \<in> set eps")
  case False
  have "l \<in> set (keep_last KEEP_EPISODES (eps @ [l]))" by (rule keep_last_snoc) (simp add: KEEP_EPISODES_def)
  with False show ?thesis by (simp add: note_latch_def)
qed (simp add: note_latch_def)

text \<open>A standing latch is one episode: noting it again changes nothing, and it counts towards itself.\<close>

lemma note_latch_once: "note_latch l (snd (note_latch l eps)) = (False, snd (note_latch l eps))"
  using note_latch_noted by (simp add: note_latch_def)

lemma repeat_count_self:
  assumes "l \<in> set eps" and "window \<ge> 0"
  shows "repeat_count eps l window \<ge> 1"
proof -
  let ?P = "\<lambda>e. ep_reason e = ep_reason l \<and>
     (if is_int (ep_tick l) \<and> is_int (ep_tick e) then abs (int_of (ep_tick l) - int_of (ep_tick e)) \<le> window
      else \<not> is_int (ep_tick l) \<and> \<not> is_int (ep_tick e))"
  have "l \<in> set (filter ?P eps)" using assms by simp
  then have "length (filter ?P eps) > 0" by (rule length_pos_if_in_set)
  then show ?thesis unfolding repeat_count_def by linarith
qed

lemma note_latch_bound: "length eps \<le> KEEP_EPISODES \<Longrightarrow> length (snd (note_latch l eps)) \<le> KEEP_EPISODES"
  by (auto simp: note_latch_def keep_last_def KEEP_EPISODES_def)

end
