(* ===== verification/Holds.thy ===== *)
theory Holds
  imports Watches "HOL-Library.Product_Lexorder"
begin

section \<open>What holds a step: ore on the walls, short stock\<close>

text \<open>
  \<open>conductor/ore_watch.py\<close> (the ore a \<open>blueprint.sites\<close> read shows) and \<open>conductor/stock_hold.py\<close> (what a
  step eats, whether the free stock covers it, when a hold wakes someone). Policy patterns are predicates.
  A float is the rational it stands for; \<open>parse_float\<close> reads what Python's \<open>float\<close> reads of a decimal
  text, without the names of the infinities and of NaN. \<open>pr\<close> prints a float or a container.
\<close>

subsection \<open>Numbers\<close>

text \<open>\<open>int(v)\<close> of a read value: a float is cut towards zero; \<open>None\<close> stands for the exception.\<close>

definition trunc :: "rat \<Rightarrow> int" where
  "trunc q = (if q < 0 then - \<lfloor>- q\<rfloor> else \<lfloor>q\<rfloor>)"

definition py_int :: "json \<Rightarrow> int option" where
  "py_int v = (case v of JInt i \<Rightarrow> Some i | JBool b \<Rightarrow> Some (if b then 1 else 0) | JFloat q \<Rightarrow> Some (trunc q)
     | JStr s \<Rightarrow> parse_int s | _ \<Rightarrow> None)"

definition parse_fraction :: "string \<Rightarrow> rat option" where
  "parse_fraction s =
     (let whole = takeWhile (\<lambda>c. c \<noteq> CHR ''.'') s; rest = dropWhile (\<lambda>c. c \<noteq> CHR ''.'') s;
          number = (\<lambda>t. if t = [] then Some 0 else digits_value 0 False t);
          frac = tl rest in
      if whole = [] \<and> frac = [] then None
      else Option.bind (number whole) (\<lambda>w. map_option
        (\<lambda>f. of_nat w + of_nat f / 10 ^ length (filter digit_char frac)) (number frac)))"

definition parse_signed :: "string \<Rightarrow> (string \<Rightarrow> rat option) \<Rightarrow> rat option" where
  "parse_signed s f = (case s of [] \<Rightarrow> None | c # cs \<Rightarrow>
     if c = CHR ''-'' then map_option uminus (f cs) else if c = CHR ''+'' then f cs else f s)"

definition parse_float :: "string \<Rightarrow> rat option" where
  "parse_float s =
     (let t = lower (strip s); mant = takeWhile (\<lambda>c. c \<noteq> CHR ''e'') t; ex = dropWhile (\<lambda>c. c \<noteq> CHR ''e'') t in
      Option.bind (parse_signed mant parse_fraction) (\<lambda>m.
        if ex = [] then Some m
        else map_option (\<lambda>e. if e < 0 then m / 10 ^ nat (- \<lfloor>e\<rfloor>) else m * 10 ^ nat \<lfloor>e\<rfloor>)
          (parse_signed (tl ex) (\<lambda>d. map_option of_nat (digits_value 0 False d)))))"

definition py_float :: "json \<Rightarrow> rat option" where
  "py_float v = (case v of JInt i \<Rightarrow> Some (of_int i) | JBool b \<Rightarrow> Some (if b then 1 else 0) | JFloat q \<Rightarrow> Some q
     | JStr s \<Rightarrow> parse_float s | _ \<Rightarrow> None)"

definition plain_number :: "json \<Rightarrow> bool" where
  "plain_number v = (case v of JInt _ \<Rightarrow> True | JFloat _ \<Rightarrow> True | _ \<Rightarrow> False)"

subsection \<open>Ore shown by a site\<close>

record ore_exposure =
  ox_handle :: string
  ox_mineral :: string
  ox_kind :: string
  ox_tiles :: int
  ox_line :: string

record ore_read =
  or_exposures :: "ore_exposure list"
  or_unreadable :: "string list"
  or_unclassified :: "(string \<times> int) list"

definition MINE_TOOL :: string where "MINE_TOOL = ''construction.mine-vein-site''"
definition MAX_LINE_CHARS :: nat where "MAX_LINE_CHARS = 200"

definition ore_key :: "ore_exposure \<Rightarrow> string" where
  "ore_key x = ox_handle x @ '':'' @ ox_mineral x"

definition exposed_on :: "ore_read \<Rightarrow> string \<Rightarrow> ore_exposure list" where
  "exposed_on o1 handle = filter (\<lambda>x. ox_handle x = handle) (or_exposures o1)"

definition ore_where :: "(json \<Rightarrow> string) \<Rightarrow> obj \<Rightarrow> string" where
  "ore_where pr row =
     (let landmark = text_of pr (getj row ''near_landmark''); dist = getj row ''distance_tiles'';
          direction = text_of pr (getj row ''direction'');
          offset = join '' '' (filter (\<lambda>p. p \<noteq> [])
            [if dist \<noteq> JNull then py_str pr dist @ '' tiles'' else [], direction]) in
      if landmark = [] then [] else if offset \<noteq> [] then '' ('' @ offset @ '' of '' @ landmark @ '')''
      else '' (near '' @ landmark @ '')'')"

definition describe_ore :: "(json \<Rightarrow> string) \<Rightarrow> obj \<Rightarrow> string \<Rightarrow> string \<Rightarrow> int \<Rightarrow> string" where
  "describe_ore pr row mineral kind tiles =
     (let handle = text_of pr (getj row ''handle'') in
      take MAX_LINE_CHARS (mineral @ '' '' @ (if kind \<noteq> [] then kind else ''ore'') @ '': '' @ dec_int tiles @ '' ''
        @ (if tiles = 1 then ''tile'' else ''tiles'') @ '' exposed on '' @ handle @ '''s room walls'' @ ore_where pr row
        @ ''; mine with '' @ MINE_TOOL @ '' '' @ handle))"

text \<open>\<open>int(v or 0)\<close>, and 0 when that raises.\<close>

definition int_or_0 :: "json \<Rightarrow> int" where
  "int_or_0 v = (if truthy v then (case py_int v of Some i \<Rightarrow> i | None \<Rightarrow> 0) else 0)"

definition ore_materials :: "json \<Rightarrow> obj list" where
  "ore_materials exposed = map fields_of (filter is_obj (items_of (getj (fields_of exposed) ''materials'')))"

definition ore_unreadable :: "json \<Rightarrow> bool" where
  "ore_unreadable exposed \<longleftrightarrow> \<not> is_obj exposed \<or> truthy (getj (fields_of exposed) ''unreadable'')
     \<or> truthy (getj (fields_of exposed) ''error'') \<or> truthy (getj (fields_of exposed) ''skipped'')"

definition ore_exposure_of :: "(json \<Rightarrow> string) \<Rightarrow> obj \<Rightarrow> obj \<Rightarrow> ore_exposure option" where
  "ore_exposure_of pr row mat =
     (let mineral = text_of pr (getj mat ''mineral_name''); tiles = int_or_0 (getj mat ''tiles'');
          kind = text_of pr (getj mat ''kind'') in
      if mineral = [] \<or> tiles \<le> 0 then None
      else Some \<lparr>ox_handle = text_of pr (getj row ''handle''), ox_mineral = mineral, ox_kind = kind, ox_tiles = tiles,
        ox_line = describe_ore pr row mineral kind tiles\<rparr>)"

text \<open>The rows of a poll: a bare array or one under \<open>sites\<close> or \<open>result\<close>; anything else is a failed poll.\<close>

definition site_rows :: "json \<Rightarrow> json list option" where
  "site_rows result = (case result of
      JArr rows \<Rightarrow> Some rows
    | JObj r \<Rightarrow> if is_arr (getj r ''sites'') then Some (items_of (getj r ''sites''))
                else if is_arr (getj r ''result'') then Some (items_of (getj r ''result'')) else None
    | _ \<Rightarrow> None)"

definition ore_read_from_sites :: "(json \<Rightarrow> string) \<Rightarrow> json \<Rightarrow> ore_read option" where
  "ore_read_from_sites pr result = map_option (\<lambda>rows.
     let sites = filter (\<lambda>r. text_of pr (getj r ''handle'') \<noteq> []) (map fields_of (filter is_obj rows));
         bad = filter (\<lambda>r. ore_unreadable (getj r ''ore_exposed'')) sites;
         good = filter (\<lambda>r. \<not> ore_unreadable (getj r ''ore_exposed'')) sites in
     \<lparr>or_exposures = sort_key (\<lambda>x. (ox_handle x, ox_mineral x))
        (concat (map (\<lambda>r. keys_by (ore_exposure_of pr r) (ore_materials (getj r ''ore_exposed''))) good)),
      or_unreadable = map (\<lambda>r. text_of pr (getj r ''handle'')) bad,
      or_unclassified = fold (\<lambda>r u. let n = int_or_0 (getj (fields_of (getj r ''ore_exposed'')) ''unclassified_tiles'') in
        if n > 0 then AList.update (text_of pr (getj r ''handle'')) n u else u) good []\<rparr>) (site_rows result)"

subsection \<open>What a step eats\<close>

record stock_consumer =
  sc_item :: "string option"
  sc_item_arg :: "string option"
  sc_item_map :: "(string \<times> string) list"
  sc_count_arg :: "string option"
  sc_per_unit :: rat

text \<open>The survival pattern is a predicate of the tool and the arguments it is searched in.\<close>

record stock_policy =
  sp_enabled :: bool
  sp_margin :: int
  sp_margin_fraction :: rat
  sp_read_tool :: string
  sp_read_arg :: string
  sp_free_field :: string
  sp_in_job_field :: string
  sp_consumers :: "(string \<times> stock_consumer) list"
  sp_survival :: "(json \<Rightarrow> obj \<Rightarrow> bool) option"
  sp_wake_after :: int

definition nonempty_opt :: "string option \<Rightarrow> bool" where
  "nonempty_opt x = (case x of Some s \<Rightarrow> s \<noteq> [] | None \<Rightarrow> False)"

definition arg_ci :: "obj \<Rightarrow> string \<Rightarrow> json" where
  "arg_ci args name = (case find (\<lambda>(k, v). lower k = lower name) args of Some (_, v) \<Rightarrow> v | None \<Rightarrow> JNull)"

definition needed_item :: "(json \<Rightarrow> string) \<Rightarrow> stock_consumer \<Rightarrow> obj \<Rightarrow> string option" where
  "needed_item pr c args =
     (if nonempty_opt (sc_item_arg c) then
        let raw = arg_ci args (the (sc_item_arg c)) in
        if raw = JNull then None
        else if sc_item_map c \<noteq> [] then map_of (sc_item_map c) (py_str pr raw)
        else if nonempty_opt (sc_item c) then sc_item c else Some (py_str pr raw)
      else sc_item c)"

definition need_for :: "(json \<Rightarrow> string) \<Rightarrow> stock_consumer \<Rightarrow> obj \<Rightarrow> (string \<times> int) option" where
  "need_for pr c args =
     (let item = needed_item pr c args in
      if \<not> nonempty_opt item then None else
      case (if nonempty_opt (sc_count_arg c) then py_float (arg_ci args (the (sc_count_arg c))) else Some 1) of
        None \<Rightarrow> None
      | Some count \<Rightarrow>
          let need = \<lceil>count * sc_per_unit c\<rceil> in if need > 0 then Some (the item, need) else None)"

definition required_with_margin :: "stock_policy \<Rightarrow> int \<Rightarrow> int" where
  "required_with_margin sp need = need + max (sp_margin sp) \<lceil>of_int need * sp_margin_fraction sp\<rceil>"

definition free_units :: "stock_policy \<Rightarrow> json \<Rightarrow> (int \<times> int option) option" where
  "free_units sp rd = (case rd of
      JObj r \<Rightarrow>
        if truthy (getj r ''error'') \<or> \<not> plain_number (getj r (sp_free_field sp)) then None
        else Some (the (py_int (getj r (sp_free_field sp))),
          (if plain_number (getj r (sp_in_job_field sp)) then py_int (getj r (sp_in_job_field sp)) else None))
    | _ \<Rightarrow> None)"

definition short_reason :: "string \<Rightarrow> int \<Rightarrow> int \<Rightarrow> int \<Rightarrow> int option \<Rightarrow> string option" where
  "short_reason item need required free in_jobs =
     (if free \<ge> required then None
      else Some (''short '' @ item @ '': needs '' @ dec_int need @ '' (+'' @ dec_int (required - need) @ '' margin), ''
        @ dec_int (max free 0) @ '' free''
        @ (case in_jobs of Some n \<Rightarrow> if n \<noteq> 0 then ''; '' @ dec_int n @ '' more held by other jobs'' else [] | None \<Rightarrow> [])))"

subsection \<open>Holds\<close>

record hold_note =
  hn_project :: string
  hn_tool :: string
  hn_why :: string
  hn_since :: "int option"

definition step_args :: "obj \<Rightarrow> obj" where
  "step_args step = fields_of (getj step ''args'')"

definition is_survival :: "stock_policy \<Rightarrow> obj \<Rightarrow> bool" where
  "is_survival sp step = (case sp_survival sp of None \<Rightarrow> False | Some f \<Rightarrow> f (getj step ''tool'') (step_args step))"

definition wake_kind :: "stock_policy \<Rightarrow> obj \<Rightarrow> hold_note \<Rightarrow> int option \<Rightarrow> bool \<Rightarrow> string option" where
  "wake_kind sp step hn tick blocks_others =
     (if is_survival sp step then Some ''survival''
      else if (case (tick, hn_since hn) of (Some t, Some s) \<Rightarrow> t - s \<ge> sp_wake_after sp | _ \<Rightarrow> False) then Some ''old''
      else if blocks_others then Some ''blocks'' else None)"

definition hold_line :: "string \<Rightarrow> hold_note \<Rightarrow> string" where
  "hold_line sid hn = ''held step '' @ hn_project hn @ ''/'' @ sid @ '' ('' @ hn_tool hn @ ''): '' @ hn_why hn
     @ (case hn_since hn of Some s \<Rightarrow> '', held since tick '' @ dec_int s | None \<Rightarrow> []) @ ''; it retries each cycle''"

definition hold_lines :: "(string \<times> hold_note) list \<Rightarrow> nat \<Rightarrow> string list" where
  "hold_lines holds cap =
     (let items = sort_key (\<lambda>(_, hn). case hn_since hn of Some s \<Rightarrow> s | None \<Rightarrow> 2 ^ 60) holds in
      map (\<lambda>(sid, hn). hold_line sid hn) (take cap items)
        @ (if length items > cap then [''... and '' @ dec (length items - cap) @ '' more held steps''] else []))"

definition survival_or_age_text :: "string \<Rightarrow> string \<Rightarrow> string \<Rightarrow> string \<Rightarrow> string" where
  "survival_or_age_text kind pid sid why =
     (let cause = (if kind = ''survival'' then ''it serves food, drink or defence''
        else if kind = ''old'' then ''it has been held over a game day'' else ''it blocks other steps in its project'') in
      ''project '' @ pid @ '' step '' @ sid @ '' is held, not run ('' @ cause @ ''): '' @ why
        @ ''. Nothing was changed; it retries each cycle. Free the stock (order it, or wait for it), or queue.pass naming ''
        @ pid @ '' to drop it.'')"

subsection \<open>Facts\<close>

text \<open>A step held on short stock is short of what it needs and the margin; the note says how much is free.\<close>

lemma short_reason_iff: "short_reason item need required free in_jobs = None \<longleftrightarrow> free \<ge> required"
  by (simp add: short_reason_def)

lemma required_covers_need: "sp_margin sp \<ge> 0 \<Longrightarrow> required_with_margin sp need \<ge> need"
  by (simp add: required_with_margin_def)

lemma required_mono:
  assumes "sp_margin_fraction sp \<ge> 0" and "m \<le> n"
  shows "required_with_margin sp m \<le> required_with_margin sp n"
proof -
  have "of_int m * sp_margin_fraction sp \<le> of_int n * sp_margin_fraction sp"
    using assms by (intro mult_right_mono) simp_all
  then have "\<lceil>of_int m * sp_margin_fraction sp\<rceil> \<le> \<lceil>of_int n * sp_margin_fraction sp\<rceil>" by (rule ceiling_mono)
  with assms(2) show ?thesis by (simp add: required_with_margin_def)
qed

lemma need_for_positive: "need_for pr c args = Some (item, n) \<Longrightarrow> n > 0 \<and> item \<noteq> []"
  by (auto simp: need_for_def Let_def nonempty_opt_def split: if_splits option.splits)

lemma hold_lines_bound: "length (hold_lines holds cap) \<le> Suc cap"
  by (auto simp: hold_lines_def Let_def)

lemma ore_exposure_of_Some:
  "ore_exposure_of pr r m = Some x \<Longrightarrow> ox_tiles x > 0 \<and> ox_mineral x \<noteq> [] \<and> ox_handle x = text_of pr (getj r ''handle'')"
  by (auto simp: ore_exposure_of_def Let_def split: if_splits)

lemma ore_read_exposures:
  assumes "ore_read_from_sites pr v = Some o1"
  shows "sorted (map (\<lambda>x. (ox_handle x, ox_mineral x)) (or_exposures o1))"
    and "x \<in> set (or_exposures o1) \<Longrightarrow> ox_tiles x > 0 \<and> ox_mineral x \<noteq> [] \<and> ox_handle x \<noteq> []"
  using assms by (auto simp: ore_read_from_sites_def Let_def set_keys_by dest!: ore_exposure_of_Some)

end
