(* ===== verification/Pause.thy ===== *)
theory Pause
  imports Hold Holds
begin

section \<open>The pause watchdog\<close>

text \<open>
  \<open>conductor/pause_watch.py\<close>: the decision table and the executor around it. The tool caller is a function of
  the calls and sleeps made before (\<open>None\<close> for the \<open>MCPToolError\<close> the module catches), so the game may
  move between two reads; the trace of a pass is part of its result. Wall seconds are rationals, ticks integers.
  The clock status and the results of \<open>pause.*\<close> are read as the tools write them: objects, lists of objects,
  integer counts and ticks or null.
\<close>

subsection \<open>Policy and state\<close>

definition WHY_TOOL_ID :: string where "WHY_TOOL_ID = ''pause.why''"
definition DISMISS_TOOL_ID :: string where "DISMISS_TOOL_ID = ''pause.dismiss''"
definition VERDICT_READ_TOOL_ID :: string where "VERDICT_READ_TOOL_ID = ''pause.verdict_read''"
definition OWNED_ESCALATION :: string where "OWNED_ESCALATION = ''escalation''"
definition HISTORY_LIMIT :: nat where "HISTORY_LIMIT = 20"

record pause_policy =
  pp_harmless :: "string list"
  pp_window :: int
  pp_slack :: int
  pp_dismiss_cap :: int
  pp_grace :: rat
  pp_liveness :: rat
  pp_verify_wait :: rat
  pp_verify_min :: int
  pp_frozen_after :: rat

definition policy_number :: "obj \<Rightarrow> string \<Rightarrow> rat \<Rightarrow> rat option" where
  "policy_number doc key lo = (if \<not> has doc key then None else
     case as_number (getj doc key) of None \<Rightarrow> None | Some q \<Rightarrow> if q < lo then None else Some q)"

definition load_pause_policy :: "obj \<Rightarrow> pause_policy option" where
  "load_pause_policy doc =
     (if \<not> has doc ''harmless_announcements'' then None
      else case getj doc ''harmless_announcements'' of
        JArr xs \<Rightarrow> if list_ex (\<lambda>x. \<not> nonempty_str x) xs then None else
          do { win \<leftarrow> policy_number doc ''cause_window_ticks'' 1;
               slack \<leftarrow> policy_number doc ''cause_slack_ticks'' 0;
               cap \<leftarrow> policy_number doc ''dismiss_cap'' 1;
               grace \<leftarrow> policy_number doc ''plain_pause_grace_seconds'' 0;
               live \<leftarrow> policy_number doc ''liveness_limit_seconds'' 1;
               wait \<leftarrow> policy_number doc ''verify_wait_seconds'' 0;
               vmin \<leftarrow> policy_number doc ''verify_min_ticks'' 1;
               frozen \<leftarrow> policy_number doc ''frozen_after_seconds'' 1;
               Some \<lparr>pp_harmless = map str_of xs, pp_window = trunc win, pp_slack = trunc slack,
                 pp_dismiss_cap = trunc cap, pp_grace = grace, pp_liveness = live, pp_verify_wait = wait,
                 pp_verify_min = trunc vmin, pp_frozen_after = frozen\<rparr> }
      | _ \<Rightarrow> None)"

record history_note =
  hn_at :: rat
  hn_kind :: string
  hn_detail :: json

record watch_state =
  ws_episode :: "rat option"
  ws_owned :: "string option"
  ws_dismissed :: int
  ws_dismiss_failed :: bool
  ws_resume_attempts :: int
  ws_overseer_woken :: bool
  ws_last_alert :: "rat option"
  ws_alert_reason :: "string option"
  ws_alert_since :: "rat option"
  ws_last_tick :: "int option"
  ws_last_change :: "rat option"
  ws_history :: "history_note list"

definition new_watch :: watch_state where
  "new_watch = \<lparr>ws_episode = None, ws_owned = None, ws_dismissed = 0, ws_dismiss_failed = False,
     ws_resume_attempts = 0, ws_overseer_woken = False, ws_last_alert = None, ws_alert_reason = None,
     ws_alert_since = None, ws_last_tick = None, ws_last_change = None, ws_history = []\<rparr>"

definition end_episode :: "watch_state \<Rightarrow> watch_state" where
  "end_episode st = st\<lparr>ws_episode := None, ws_owned := None, ws_dismissed := 0, ws_dismiss_failed := False,
     ws_resume_attempts := 0, ws_overseer_woken := False, ws_last_alert := None, ws_alert_reason := None,
     ws_alert_since := None\<rparr>"

definition add_note :: "rat \<Rightarrow> string \<Rightarrow> json \<Rightarrow> watch_state \<Rightarrow> watch_state" where
  "add_note now kind detail st = (let h = ws_history st @ [\<lparr>hn_at = now, hn_kind = kind, hn_detail = detail\<rparr>] in
     st\<lparr>ws_history := drop (length h - HISTORY_LIMIT) h\<rparr>)"

definition mark_owned :: "string \<Rightarrow> rat \<Rightarrow> watch_state \<Rightarrow> watch_state" where
  "mark_owned kind now st =
     add_note now ''owned'' (JStr kind)
       (st\<lparr>ws_episode := (case ws_episode st of None \<Rightarrow> Some now | e \<Rightarrow> e), ws_owned := Some kind\<rparr>)"

subsection \<open>The decision table\<close>

datatype pause_call = V_IDLE | V_TRIPWIRE | V_OWNED | V_DISMISS | V_ALERT | V_RESUME | V_WAKE_OVERSEER | V_WAIT
  | V_HELD | V_ORDINARY_HELD

record observation =
  ob_paused :: bool
  ob_tripwire :: bool
  ob_cause :: json
  ob_popups :: int
  ob_screen :: json
  ob_types :: "string list"
  ob_ticks :: "int option list"
  ob_abs_tick :: "int option"

datatype cause_kind = Harmless | Hold_it | No_cause

definition known_ticks :: "int option list \<Rightarrow> int list" where
  "known_ticks ts = map the (filter (\<lambda>t. t \<noteq> None) ts)"

definition classify_causes :: "observation \<Rightarrow> pause_policy \<Rightarrow> bool \<Rightarrow> cause_kind" where
  "classify_causes ob pol popup_dismissed =
     (if ob_types ob = [] then No_cause
      else if \<not> list_all (\<lambda>t. t \<in> set (pp_harmless pol)) (ob_types ob) then Hold_it
      else if popup_dismissed then Harmless
      else case ob_abs_tick ob of
        Some now \<Rightarrow> if known_ticks (ob_ticks ob) \<noteq> [] \<and> now - Max (set (known_ticks (ob_ticks ob))) \<le> pp_slack pol
          then Harmless else Hold_it
      | None \<Rightarrow> Hold_it)"

definition decide :: "(json \<Rightarrow> string) \<Rightarrow> observation \<Rightarrow> pause_policy \<Rightarrow> watch_state \<Rightarrow> rat \<Rightarrow> bool \<Rightarrow> pause_call \<times> string" where
  "decide pr ob pol st now held =
     (if \<not> ob_paused ob then (V_IDLE, ''not paused'')
      else if ob_tripwire ob then (V_TRIPWIRE, ''a tripwire is latched; the tripwire branch owns this pause'')
      else if ws_owned st = Some OWNED_ESCALATION then (V_OWNED, ''an Overseer escalation owns this pause'')
      else if ob_cause ob = JStr ''modal_viewscreen'' then
        (V_ALERT, ''the game is on '' @ py_str pr (ob_screen ob) @ '', not the play screen; a human must look'')
      else if ob_popups ob > 0 then
        (if ws_dismiss_failed st \<or> ws_dismissed st \<ge> pp_dismiss_cap pol
         then (V_ALERT, ''a popup is pending and dismissing did not clear it'')
         else (V_DISMISS, ''a popup is pending; close it (dismiss never resumes)''))
      else if held \<and> list_all (\<lambda>t. t \<in> set (pp_harmless pol)) (ob_types ob) then
        (V_ORDINARY_HELD, ''held by operator: a plain or harmless pause is not resumed and not escalated; the ordinary cycle goes on'')
      else if ws_resume_attempts st \<ge> 1 \<or> ws_overseer_woken st then
        (V_HELD, ''this episode was already handled once; staying paused'')
      else (case classify_causes ob pol (ws_dismissed st > 0) of
          Harmless \<Rightarrow> (V_RESUME, ''every recent cause is on the harmless list: resume once and verify'')
        | Hold_it \<Rightarrow> (V_WAKE_OVERSEER, ''a recent cause is a threat, unknown, or not tied to this pause'')
        | No_cause \<Rightarrow>
            (if now - (case ws_episode st of Some s \<Rightarrow> s | None \<Rightarrow> now) < pp_grace pol
             then (V_WAIT, ''a plain pause inside the grace period; a human may have paused it'')
             else (V_WAKE_OVERSEER, ''a plain pause nothing explains, past the grace period''))))"

definition liveness_due :: "watch_state \<Rightarrow> pause_policy \<Rightarrow> rat \<Rightarrow> bool" where
  "liveness_due st pol now = (case ws_episode st of None \<Rightarrow> False | Some s \<Rightarrow>
     \<not> now - s < pp_liveness pol \<and>
     (case ws_last_alert st of None \<Rightarrow> True | Some a \<Rightarrow> pp_liveness pol \<le> now - a))"

subsection \<open>The executor\<close>

record watch_outcome =
  wo_verdict :: pause_call
  wo_reason :: string
  wo_actions :: "obj list"
  wo_alerts :: "(rat \<times> string) list"
  wo_wake_detail :: "string option"
  wo_why :: "obj option"
  wo_still_paused :: bool
  wo_resumed :: bool
  wo_alert :: "(string \<times> rat option) option"
  wo_waiting :: bool
  wo_held :: bool
  wo_panel :: json

definition new_outcome :: "pause_call \<Rightarrow> string \<Rightarrow> bool \<Rightarrow> bool \<Rightarrow> watch_outcome" where
  "new_outcome v reason still held = \<lparr>wo_verdict = v, wo_reason = reason, wo_actions = [], wo_alerts = [],
     wo_wake_detail = None, wo_why = None, wo_still_paused = still, wo_resumed = False, wo_alert = None,
     wo_waiting = False, wo_held = held, wo_panel = JNull\<rparr>"

text \<open>What was done to the world, in order: the calls, the sleeps, and (in a cycle) the runs of roles.\<close>

datatype world_event = Called string obj | Slept rat | Ran string

type_synonym world = "world_event list \<Rightarrow> string \<Rightarrow> obj \<Rightarrow> json option"

text \<open>A pass in progress: the state it loaded, the outcome it builds, its trace.\<close>

record watch_pass =
  wp_st :: watch_state
  wp_out :: watch_outcome
  wp_trace :: "world_event list"

definition call_tool :: "world \<Rightarrow> string \<Rightarrow> obj \<Rightarrow> watch_pass \<Rightarrow> json option \<times> watch_pass" where
  "call_tool w name args p = (w (wp_trace p) name args, p\<lparr>wp_trace := wp_trace p @ [Called name args]\<rparr>)"

definition upd_st :: "(watch_state \<Rightarrow> watch_state) \<Rightarrow> watch_pass \<Rightarrow> watch_pass" where
  "upd_st f p = p\<lparr>wp_st := f (wp_st p)\<rparr>"

definition upd_out :: "(watch_outcome \<Rightarrow> watch_outcome) \<Rightarrow> watch_pass \<Rightarrow> watch_pass" where
  "upd_out f p = p\<lparr>wp_out := f (wp_out p)\<rparr>"

definition action :: "obj \<Rightarrow> watch_pass \<Rightarrow> watch_pass" where
  "action a = upd_out (\<lambda>o'. o'\<lparr>wo_actions := wo_actions o' @ [a]\<rparr>)"

definition standing_alert :: "watch_state \<Rightarrow> (string \<times> rat option) option" where
  "standing_alert st = (case ws_alert_reason st of None \<Rightarrow> None | Some r \<Rightarrow> Some (r, ws_alert_since st))"

definition entries_of :: "json \<Rightarrow> obj list" where
  "entries_of v = map fields_of (items_of v)"

definition opt_int :: "json \<Rightarrow> int option" where
  "opt_int v = (case v of JInt i \<Rightarrow> Some i | _ \<Rightarrow> None)"

definition observation_of :: "(json \<Rightarrow> string) \<Rightarrow> obj \<Rightarrow> obj option \<Rightarrow> observation" where
  "observation_of pr status why =
     (let y = (case why of None \<Rightarrow> [] | Some y \<Rightarrow> y); reports = entries_of (getj y ''recent_reports'') in
      \<lparr>ob_paused = truthy (getj status ''paused''), ob_tripwire = truthy (getj status ''tripwire''),
       ob_cause = getj y ''cause'', ob_popups = int_of (getj y ''popups_pending''),
       ob_screen = getj y ''viewscreen_type'',
       ob_types = map (\<lambda>r. py_str pr (getj r ''type'')) reports,
       ob_ticks = map (\<lambda>r. opt_int (getj r ''tick'')) reports,
       ob_abs_tick = opt_int (getj status ''abs_tick'')\<rparr>)"

definition raise_alert :: "rat \<Rightarrow> string \<Rightarrow> watch_pass \<Rightarrow> watch_pass" where
  "raise_alert now reason p =
     (let st = (wp_st p)\<lparr>ws_last_alert := Some now, ws_alert_reason := Some reason,
          ws_alert_since := (case ws_alert_since (wp_st p) of None \<Rightarrow> Some now | a \<Rightarrow> a)\<rparr> in
      upd_st (\<lambda>_. add_note now ''alert'' (JStr reason) st)
        (upd_out (\<lambda>o'. o'\<lparr>wo_alerts := wo_alerts o' @ [(now, reason)], wo_alert := standing_alert st\<rparr>) p))"

definition read_why :: "world \<Rightarrow> int \<Rightarrow> watch_pass \<Rightarrow> obj option \<times> watch_pass" where
  "read_why w window p = (case call_tool w WHY_TOOL_ID [(''window_ticks'', JInt window)] p of
     (res, p1) \<Rightarrow> (case res of Some (JObj y) \<Rightarrow> Some y | _ \<Rightarrow> None, p1))"

definition note_dismissed :: "rat \<Rightarrow> obj \<Rightarrow> watch_state \<Rightarrow> watch_state" where
  "note_dismissed now c = add_note now ''dismissed'' (JObj [(''kind'', getj c ''kind''), (''said'', getj c ''said'')])"

definition dismiss_popups :: "world \<Rightarrow> int \<Rightarrow> rat \<Rightarrow> watch_pass \<Rightarrow> watch_pass" where
  "dismiss_popups w cap now p = (case call_tool w DISMISS_TOOL_ID [(''max'', JInt cap)] p of
     (None, p1) \<Rightarrow> action [(''tool'', JStr DISMISS_TOOL_ID), (''error'', JBool True)]
        (upd_st (\<lambda>st. st\<lparr>ws_dismiss_failed := True\<rparr>) p1)
   | (Some res, p1) \<Rightarrow>
       (let r = fields_of res; closed = entries_of (or_empty (getj r ''dismissed''));
            failed = (\<not> truthy (getj r ''ok'') \<and> int_of (getj r ''remaining'') > 0) in
        upd_st (fold (note_dismissed now) closed)
          (action [(''tool'', JStr DISMISS_TOOL_ID), (''closed'', JInt (int (length closed))),
              (''remaining'', getj r ''remaining''), (''said'', JArr (map (\<lambda>c. getj c ''said'') closed))]
            (upd_st (\<lambda>st. st\<lparr>ws_dismissed := ws_dismissed st + int (length closed),
                ws_dismiss_failed := (failed \<or> ws_dismiss_failed st)\<rparr>) p1))))"

definition panel_note :: "(json \<Rightarrow> string) \<Rightarrow> json \<Rightarrow> string" where
  "panel_note pr panel = (if \<not> truthy panel then [] else
     '' (blocked by an open panel: '' @ py_str pr (getj (fields_of panel) ''name'') @ '' at '' @
     py_str pr (getj (fields_of panel) ''focus'') @ ''; a player must close it)'')"

definition tick_json :: "int option \<Rightarrow> json" where
  "tick_json t = (case t of None \<Rightarrow> JNull | Some i \<Rightarrow> JInt i)"

definition tick_moved :: "pause_policy \<Rightarrow> int option \<Rightarrow> obj \<Rightarrow> bool" where
  "tick_moved pol before after = (case (before, opt_int (getj after ''abs_tick'')) of
     (Some b, Some a) \<Rightarrow> pp_verify_min pol \<le> a - b \<and> \<not> truthy (getj after ''paused'') | _ \<Rightarrow> False)"

definition pause_again :: "world \<Rightarrow> watch_pass \<Rightarrow> watch_pass" where
  "pause_again w p = (case call_tool w ''clock.pause'' [] p of
     (None, p1) \<Rightarrow> action [(''tool'', JStr ''clock.pause''), (''error'', JBool True)] p1
   | (Some _, p1) \<Rightarrow> action [(''tool'', JStr ''clock.pause''), (''why'', JStr ''verify failed; back to the safe state'')] p1)"

definition verify_resume :: "world \<Rightarrow> pause_policy \<Rightarrow> int option \<Rightarrow> watch_pass \<Rightarrow> bool \<times> watch_pass" where
  "verify_resume w pol before p =
     (case call_tool w ''clock.status'' [] (p\<lparr>wp_trace := wp_trace p @ [Slept (pp_verify_wait pol)]\<rparr>) of
        (None, p1) \<Rightarrow> (False, action [(''tool'', JStr ''clock.status''), (''error'', JBool True)] p1)
      | (Some res, p1) \<Rightarrow>
          (let after = fields_of res; moved = tick_moved pol before after;
               p2 = action [(''tool'', JStr ''clock.status''),
                   (''verify'', JStr (if moved then ''tick advanced'' else ''tick did NOT advance'')),
                   (''before'', tick_json before), (''after'', getj after ''abs_tick'')] p1;
               panel = (if truthy (getj after ''blocking_panel'') then getj after ''blocking_panel'' else wo_panel (wp_out p2));
               p3 = (if truthy panel
                     then action [(''tool'', JStr ''clock.status''), (''blocking_panel'', panel)]
                        (upd_out (\<lambda>o'. o'\<lparr>wo_panel := panel\<rparr>) p2)
                     else p2) in
           if moved then (True, p2) else (False, pause_again w p3)))"

definition resume_and_verify :: "world \<Rightarrow> pause_policy \<Rightarrow> int option \<Rightarrow> watch_pass \<Rightarrow> bool \<times> watch_pass" where
  "resume_and_verify w pol before p =
     (case call_tool w ''clock.resume'' [] p of
        (None, p1) \<Rightarrow> (False, action [(''tool'', JStr ''clock.resume''), (''error'', JBool True)] p1)
      | (Some res, p1) \<Rightarrow>
          (let p2 = action [(''tool'', JStr ''clock.resume''), (''result'', res)] p1;
               r = fields_of res;
               p3 = (if truthy (getj r ''blocking_panel'')
                     then upd_out (\<lambda>o'. o'\<lparr>wo_panel := getj r ''blocking_panel''\<rparr>) p2 else p2) in
           if \<not> truthy (getj r ''ok'') then (False, p3) else verify_resume w pol before p3))"

subsection \<open>One pass\<close>

text \<open>The tick of an unpaused fort is compared with the one of the last pass; the result says whether it has stood
  still for too long.\<close>

definition track_tick :: "pause_policy \<Rightarrow> rat \<Rightarrow> bool \<Rightarrow> int option \<Rightarrow> watch_state \<Rightarrow> bool \<times> watch_state" where
  "track_tick pol now paused tick st =
     (if paused then (False, st\<lparr>ws_last_tick := None, ws_last_change := None\<rparr>)
      else if ws_last_tick st \<noteq> None \<and> tick \<noteq> None \<and> tick = ws_last_tick st
      then ((case ws_last_change st of None \<Rightarrow> False | Some t \<Rightarrow> pp_frozen_after pol \<le> now - t), st\<lparr>ws_last_tick := tick\<rparr>)
      else (False, st\<lparr>ws_last_change := Some now, ws_last_tick := tick\<rparr>))"

definition frozen_pass :: "(json \<Rightarrow> string) \<Rightarrow> world \<Rightarrow> pause_policy \<Rightarrow> rat \<Rightarrow> bool \<Rightarrow> json \<Rightarrow> watch_pass \<Rightarrow> watch_pass" where
  "frozen_pass pr w pol now dry panel p =
     (case read_why w (pp_window pol) p of (why, p1) \<Rightarrow>
       (let p2 = upd_out (\<lambda>o'. o'\<lparr>wo_why := why, wo_verdict := V_ALERT,
               wo_reason := ''the tick has stopped advancing though the fort is not paused'', wo_still_paused := True,
               wo_panel := (if truthy panel then panel else wo_panel o')\<rparr>) p1;
            y = (case why of None \<Rightarrow> [] | Some y \<Rightarrow> y) in
        if dry then p2
        else if int_of (getj y ''popups_pending'') > 0 then
          upd_st (\<lambda>st. (add_note now ''frozen_dismissed'' JNull st)\<lparr>ws_last_change := Some now\<rparr>)
            (upd_out (\<lambda>o'. o'\<lparr>wo_reason := ''frozen behind a popup; dismissed it''\<rparr>)
              (dismiss_popups w (pp_dismiss_cap pol) now p2))
        else raise_alert now (''the tick is not advancing and the fort is not paused (cause: '' @
            (if has y ''cause'' then py_str pr (getj y ''cause'') else ''unknown'') @ '')'' @ panel_note pr panel) p2))"

text \<open>\<open>for _pass in range(3)\<close>: a popup is closed and the pause read again; anything else ends the loop. The last
  read comes with the pass.\<close>

primrec decide_loop :: "nat \<Rightarrow> (json \<Rightarrow> string) \<Rightarrow> world \<Rightarrow> pause_policy \<Rightarrow> obj \<Rightarrow> rat \<Rightarrow> bool \<Rightarrow> bool \<Rightarrow> obj option
    \<Rightarrow> watch_pass \<Rightarrow> obj option \<times> watch_pass" where
  "decide_loop 0 pr w pol status now dry held why p = (why, p)"
| "decide_loop (Suc n) pr w pol status now dry held why p =
     (case decide pr (observation_of pr status why) pol (wp_st p) now held of (v, reason) \<Rightarrow>
       (let p1 = upd_out (\<lambda>o'. o'\<lparr>wo_verdict := v, wo_reason := reason\<rparr>) p in
        if v \<noteq> V_DISMISS \<or> dry then (why, p1)
        else (case read_why w (pp_window pol) (dismiss_popups w (pp_dismiss_cap pol) now p1) of
          (why', p2) \<Rightarrow> decide_loop n pr w pol status now dry held why' (upd_out (\<lambda>o'. o'\<lparr>wo_why := why'\<rparr>) p2))))"

definition recent_reports :: "obj option \<Rightarrow> json" where
  "recent_reports why = (case why of None \<Rightarrow> JArr [] | Some y \<Rightarrow>
     if has y ''recent_reports'' then getj y ''recent_reports'' else JArr [])"

definition wake_detail_of :: "(json \<Rightarrow> string) \<Rightarrow> string \<Rightarrow> obj option \<Rightarrow> int \<Rightarrow> string" where
  "wake_detail_of pr reason why dismissed =
     reason @ ''. cause='' @ py_str pr (case why of None \<Rightarrow> JNull | Some y \<Rightarrow> getj y ''cause'') @ '', recent='' @
     pr (JArr (map (\<lambda>r. getj r ''type'') (entries_of (recent_reports why)))) @ '', dismissed_this_episode='' @ dec_int dismissed"

definition resume_pass :: "(json \<Rightarrow> string) \<Rightarrow> world \<Rightarrow> pause_policy \<Rightarrow> int option \<Rightarrow> rat \<Rightarrow> obj option \<Rightarrow> watch_pass \<Rightarrow> watch_pass" where
  "resume_pass pr w pol tick now why p =
     (case resume_and_verify w pol tick (upd_st (\<lambda>st. st\<lparr>ws_resume_attempts := ws_resume_attempts st + 1\<rparr>) p) of
        (True, p1) \<Rightarrow> upd_st (\<lambda>st. end_episode (add_note now ''resumed'' (JObj [(''causes'', recent_reports why)]) st))
            (upd_out (\<lambda>o'. o'\<lparr>wo_resumed := True\<rparr>) p1)
      | (False, p1) \<Rightarrow> upd_out (\<lambda>o'. o'\<lparr>wo_verdict := V_ALERT\<rparr>)
            (raise_alert now (''a harmless-cause resume did not move the tick; staying paused'' @
               panel_note pr (wo_panel (wp_out p1))) p1))"

definition suppress_resume :: "watch_pass \<Rightarrow> watch_pass" where
  "suppress_resume p = action [(''suppressed'', JStr ''clock.resume''), (''why'', JStr ''held by operator'')]
     (upd_out (\<lambda>o'. o'\<lparr>wo_verdict := V_ORDINARY_HELD\<rparr>) p)"

text \<open>What the verdict of the loop makes the pass do.\<close>

definition act_on :: "(json \<Rightarrow> string) \<Rightarrow> world \<Rightarrow> pause_policy \<Rightarrow> int option \<Rightarrow> rat \<Rightarrow> obj option \<Rightarrow> pause_call \<Rightarrow> watch_pass \<Rightarrow> watch_pass" where
  "act_on pr w pol tick now why v p = (case v of
      V_ORDINARY_HELD \<Rightarrow> upd_st (\<lambda>st. st\<lparr>ws_episode := Some now\<rparr>) p
    | V_RESUME \<Rightarrow> resume_pass pr w pol tick now why p
    | V_ALERT \<Rightarrow> raise_alert now (wo_reason (wp_out p)) p
    | V_WAKE_OVERSEER \<Rightarrow>
        upd_out (\<lambda>o'. o'\<lparr>wo_wake_detail := Some (wake_detail_of pr (wo_reason o') why (ws_dismissed (wp_st p)))\<rparr>)
          (upd_st (\<lambda>st. st\<lparr>ws_overseer_woken := True\<rparr>) p)
    | _ \<Rightarrow> p)"

definition liveness_alert :: "pause_policy \<Rightarrow> rat \<Rightarrow> pause_call \<Rightarrow> watch_pass \<Rightarrow> watch_pass" where
  "liveness_alert pol now v p =
     (if v \<noteq> V_ORDINARY_HELD \<and> wo_alerts (wp_out p) = [] \<and> liveness_due (wp_st p) pol now
      then raise_alert now ''the pause has gone unresolved past the liveness limit'' p else p)"

definition settle_outcome :: "watch_pass \<Rightarrow> watch_pass" where
  "settle_outcome p = upd_out (\<lambda>o'.
     (if wo_resumed o' then o'\<lparr>wo_still_paused := False\<rparr>
      else o'\<lparr>wo_still_paused := True, wo_waiting := (wo_verdict o' = V_WAIT),
        wo_alert := (case wo_alert o' of None \<Rightarrow> standing_alert (wp_st p) | a \<Rightarrow> a)\<rparr>)) p"

definition begin_episode :: "rat \<Rightarrow> watch_state \<Rightarrow> watch_state" where
  "begin_episode now st = (case ws_episode st of Some _ \<Rightarrow> st
     | None \<Rightarrow> add_note now ''episode_started'' JNull (st\<lparr>ws_episode := Some now\<rparr>))"

definition paused_pass :: "(json \<Rightarrow> string) \<Rightarrow> world \<Rightarrow> pause_policy \<Rightarrow> obj \<Rightarrow> rat \<Rightarrow> bool \<Rightarrow> bool \<Rightarrow> watch_pass \<Rightarrow> watch_pass" where
  "paused_pass pr w pol status now dry held p0 =
     (let p = upd_st (begin_episode now) p0;
          tick = opt_int (getj status ''abs_tick'') in
      case (if ws_owned (wp_st p) = Some OWNED_ESCALATION then (None, p)
            else case read_why w (pp_window pol) p of (y, p1) \<Rightarrow> (y, upd_out (\<lambda>o'. o'\<lparr>wo_why := y\<rparr>) p1)) of (why0, p1) \<Rightarrow>
      case decide_loop 3 pr w pol status now dry held why0 p1 of (why, p2) \<Rightarrow>
        (let p3 = (if held \<and> wo_verdict (wp_out p2) = V_RESUME then suppress_resume p2 else p2);
             v = wo_verdict (wp_out p3) in
         if dry then settle_outcome p3
         else settle_outcome (liveness_alert pol now v (act_on pr w pol tick now why v p3))))"

text \<open>The pass from the state it loads to the state it leaves on the disk (a dry run leaves what it found).\<close>

definition run_pause_watch :: "(json \<Rightarrow> string) \<Rightarrow> world \<Rightarrow> pause_policy \<Rightarrow> obj \<Rightarrow> rat \<Rightarrow> bool \<Rightarrow> bool \<Rightarrow> world_event list
    \<Rightarrow> watch_state \<Rightarrow> watch_state \<times> watch_outcome \<times> world_event list" where
  "run_pause_watch pr w pol status now dry held tr st =
     (let paused = truthy (getj status ''paused'');
          (frozen, st1) = track_tick pol now paused (opt_int (getj status ''abs_tick'')) st;
          p = \<lparr>wp_st = st1, wp_out = new_outcome V_IDLE ''not paused'' False held, wp_trace = tr\<rparr>;
          q = (if \<not> paused then
                 (let p1 = upd_st end_episode p in
                  if frozen then frozen_pass pr w pol now dry (getj status ''blocking_panel'') p1 else p1)
               else if truthy (getj status ''tripwire'') then
                 \<lparr>wp_st = end_episode st1, wp_out = new_outcome V_TRIPWIRE
                    ''a tripwire is latched; the tripwire branch owns this pause'' True held, wp_trace = tr\<rparr>
               else paused_pass pr w pol status now dry held p) in
      (if dry then st else wp_st q, wp_out q, wp_trace q))"

subsection \<open>The Overseer's verdict\<close>

definition read_verdict_baseline :: "world \<Rightarrow> watch_pass \<Rightarrow> int option \<times> watch_pass" where
  "read_verdict_baseline w p = (case call_tool w VERDICT_READ_TOOL_ID [(''since_id'', JInt 0)] p of
     (res, p1) \<Rightarrow> (case res of Some (JObj r) \<Rightarrow>
         (case getj r ''latest_id'' of JInt i \<Rightarrow> Some i | JBool b \<Rightarrow> Some (if b then 1 else 0) | _ \<Rightarrow> None) | _ \<Rightarrow> None, p1))"

record pause_verdict =
  pv_resume :: bool
  pv_reason :: string

definition last_verdict :: "(json \<Rightarrow> string) \<Rightarrow> json \<Rightarrow> pause_verdict option" where
  "last_verdict pr rows = (case rows of
      JArr xs \<Rightarrow> if xs = [] then None else (case last xs of
          JObj r \<Rightarrow> (case getj r ''resume'' of
              JBool b \<Rightarrow> Some \<lparr>pv_resume = b,
                pv_reason = (if truthy (getj r ''reason'') then py_str pr (getj r ''reason'') else [])\<rparr>
            | _ \<Rightarrow> None)
        | _ \<Rightarrow> None)
    | _ \<Rightarrow> None)"

definition read_verdict_after :: "(json \<Rightarrow> string) \<Rightarrow> world \<Rightarrow> int option \<Rightarrow> watch_pass \<Rightarrow> pause_verdict option \<times> watch_pass" where
  "read_verdict_after pr w baseline p = (case baseline of
      None \<Rightarrow> (None, p)
    | Some b \<Rightarrow> (case call_tool w VERDICT_READ_TOOL_ID [(''since_id'', JInt b)] p of
        (res, p1) \<Rightarrow> (case res of Some (JObj r) \<Rightarrow> last_verdict pr (getj r ''verdicts'') | _ \<Rightarrow> None, p1)))"

definition verdict_note :: "pause_verdict \<Rightarrow> json" where
  "verdict_note v = JObj [(''resume'', JBool True), (''reason'', JStr (pv_reason v))]"

definition set_verdict :: "pause_call \<Rightarrow> watch_pass \<Rightarrow> watch_pass" where
  "set_verdict v = upd_out (\<lambda>o'. o'\<lparr>wo_verdict := v\<rparr>)"

definition verdict_resume :: "(json \<Rightarrow> string) \<Rightarrow> world \<Rightarrow> pause_policy \<Rightarrow> int option \<Rightarrow> rat \<Rightarrow> pause_verdict \<Rightarrow> watch_pass \<Rightarrow> watch_pass" where
  "verdict_resume pr w pol tick now v p =
     (case resume_and_verify w pol tick
         (upd_st (\<lambda>st. add_note now ''overseer_verdict'' (verdict_note v)
             (st\<lparr>ws_resume_attempts := ws_resume_attempts st + 1\<rparr>)) p) of
        (True, p1) \<Rightarrow> upd_st (\<lambda>st. end_episode (add_note now ''resumed_after_overseer'' JNull st))
            (upd_out (\<lambda>o'. o'\<lparr>wo_resumed := True, wo_still_paused := False\<rparr>) p1)
      | (False, p1) \<Rightarrow> set_verdict V_ALERT
            (raise_alert now (''resuming after the Overseer''@ [CHR 0x27] @''s verdict did not move the tick; staying paused'' @
               panel_note pr (wo_panel (wp_out p1))) p1))"

definition finish_after_overseer :: "(json \<Rightarrow> string) \<Rightarrow> world \<Rightarrow> pause_policy \<Rightarrow> bool \<Rightarrow> obj \<Rightarrow> rat \<Rightarrow> pause_verdict option
    \<Rightarrow> bool \<Rightarrow> string \<Rightarrow> world_event list \<Rightarrow> watch_state \<Rightarrow> watch_state \<times> watch_outcome \<times> world_event list" where
  "finish_after_overseer pr w pol escalated status now verdict held what tr st =
     (let p = \<lparr>wp_st = st, wp_out = new_outcome V_WAKE_OVERSEER (''the Overseer ran on '' @ what) True held, wp_trace = tr\<rparr>;
          q = (if escalated then
                 raise_alert now (''the Overseer escalated '' @ what)
                   (upd_st (\<lambda>s. add_note now ''owned'' (JStr OWNED_ESCALATION) (s\<lparr>ws_owned := Some OWNED_ESCALATION\<rparr>)) p)
               else case verdict of
                 None \<Rightarrow> set_verdict V_ALERT (raise_alert now (''the Overseer gave no verdict on '' @ what @ ''; staying paused'') p)
               | Some v \<Rightarrow>
                   (if \<not> pv_resume v then set_verdict V_ALERT
                      (raise_alert now (take 300 (''the Overseer says do not resume '' @ what @ '': '' @ one_line (pv_reason v))) p)
                    else if held then
                      upd_out (\<lambda>o'. o'\<lparr>wo_verdict := V_HELD,
                          wo_reason := ''held by operator: the Overseer'' @ [CHR 0x27] @ ''s resume verdict was not acted on''\<rparr>)
                        (action [(''suppressed'', JStr ''clock.resume''), (''why'', JStr ''held by operator'')]
                          (upd_st (add_note now ''overseer_verdict_suppressed'' (verdict_note v)) p))
                    else verdict_resume pr w pol (opt_int (getj status ''abs_tick'')) now v p)) in
      (wp_st q, wp_out q, wp_trace q))"

end
