(* ===== verification/Execute.thy ===== *)
theory Execute
  imports Holds Duplicates
begin

section \<open>The execute phase\<close>

text \<open>
  \<open>conductor/execute.py\<close>. The tool caller is a function argument: \<open>ee_answer\<close> gives what a call returns
  after the calls made before it in the pass (\<open>None\<close> for an exception), so the environment may depend on
  everything the pass did; the calls of the pass are kept in \<open>ph_calls\<close>, the quicksave among them. A pass
  is one function from the state it loads to the state it leaves, with its report. What the queue's own tools
  return is read as they write it: lists of objects, integer counts. The text of an exception is not
  represented (the report keeps the tool that failed); the ellipsis of a clipped text is three full stops.
\<close>

subsection \<open>Texts\<close>

definition clip_str :: "nat \<Rightarrow> string \<Rightarrow> string" where
  "clip_str cap s = (let t = join '' '' (runs (\<lambda>c. \<not> space_char c) [] s) in
     if length t \<le> cap then t else take (cap - 1) t @ ''...'')"

definition clip :: "(json \<Rightarrow> string) \<Rightarrow> nat \<Rightarrow> json \<Rightarrow> string" where
  "clip pr cap v = clip_str cap (if v = JNull then [] else py_str pr v)"

text \<open>\<open>str(v or "")\<close>.\<close>

definition str_or_empty :: "(json \<Rightarrow> string) \<Rightarrow> json \<Rightarrow> string" where
  "str_or_empty pr v = (if truthy v then py_str pr v else [])"

definition entries :: "obj \<Rightarrow> string \<Rightarrow> obj list" where
  "entries snap k = map fields_of (filter is_obj (items_of (getj snap k)))"

subsection \<open>State\<close>

definition REASON_DONE :: string where "REASON_DONE = ''step_done''"
definition REASON_ATTENTION :: string where "REASON_ATTENTION = ''step_attention''"
definition REASON_IDLE :: string where "REASON_IDLE = ''project_idle''"
definition SENT_KEEP :: nat where "SENT_KEEP = 400"
definition TEXT_CAP :: nat where "TEXT_CAP = 300"

record stale_policy =
  so_enabled :: bool
  so_outcomes :: "string list"
  so_grace :: int
  so_max :: int

record exec_policy =
  ep_max_steps :: int
  ep_idle_wake :: int
  ep_idle_close :: int
  ep_uncertain_hold :: int
  ep_transient :: int
  ep_unknown :: int
  ep_ore_hold :: "(string \<Rightarrow> bool) option"
  ep_urgency :: "string list"
  ep_refusal :: int
  ep_stock :: stock_policy
  ep_stale :: stale_policy

record idle_rec =
  ir_since :: "int option"
  ir_woke :: "int option"

type_synonym counts = "(string \<times> int) list"

definition count_of :: "counts \<Rightarrow> string \<Rightarrow> int" where
  "count_of m k = (case map_of m k of None \<Rightarrow> 0 | Some n \<Rightarrow> n)"

definition bump :: "string \<Rightarrow> counts \<Rightarrow> counts" where
  "bump k m = AList.update k (count_of m k + 1) m"

record exec_state =
  es_since :: "string option"
  es_sent :: "string list"
  es_uncertain :: counts
  es_transient :: counts
  es_unknown :: counts
  es_attention :: "(string \<times> string) list"
  es_ore_held :: "(string \<times> string) list"
  es_refused :: counts
  es_cleanup_failed :: counts
  es_idle :: "(string \<times> idle_rec) list"
  es_roles :: "(string \<times> string) list"
  es_direct :: "string list"
  es_holds :: "(string \<times> hold_note) list"

record exec_wake =
  ew_role :: string
  ew_reason :: string
  ew_key :: string
  ew_text :: string

type_synonym phase_call = "string \<times> obj"

record exec_env =
  ee_answer :: "phase_call list \<Rightarrow> phase_call \<Rightarrow> json option"
  ee_pr :: "json \<Rightarrow> string"
  ee_pol :: exec_policy
  ee_tick :: "int option"
  ee_ore :: "ore_read option"
  ee_quicksave :: bool
  ee_fallback :: "string list"
  ee_latched :: bool

record phase =
  ph_st :: exec_state
  ph_projects :: "(string \<times> obj) list"
  ph_actions :: "(string \<times> obj) list"
  ph_wakes :: "exec_wake list"
  ph_errors :: "string list"
  ph_steps_run :: int
  ph_to_close :: "(string \<times> string) list"
  ph_stock_reads :: "(string \<times> json) list"
  ph_calls :: "phase_call list"

definition start_phase :: "exec_state \<Rightarrow> phase" where
  "start_phase st = \<lparr>ph_st = st, ph_projects = [], ph_actions = [], ph_wakes = [], ph_errors = [], ph_steps_run = 0,
     ph_to_close = [], ph_stock_reads = [], ph_calls = []\<rparr>"

definition upd :: "(exec_state \<Rightarrow> exec_state) \<Rightarrow> phase \<Rightarrow> phase" where
  "upd f ph = ph\<lparr>ph_st := f (ph_st ph)\<rparr>"

subsection \<open>Plumbing\<close>

definition act :: "string \<Rightarrow> obj \<Rightarrow> phase \<Rightarrow> phase" where
  "act kind detail ph = ph\<lparr>ph_actions := ph_actions ph @ [(kind, filter (\<lambda>(_, v). v \<noteq> JNull) detail)]\<rparr>"

definition tool :: "exec_env \<Rightarrow> string \<Rightarrow> obj \<Rightarrow> phase \<Rightarrow> json \<times> phase" where
  "tool e name args ph =
     (let ph1 = ph\<lparr>ph_calls := ph_calls ph @ [(name, args)]\<rparr> in
      case ee_answer e (ph_calls ph) (name, args) of
        None \<Rightarrow> (JNull, ph1\<lparr>ph_errors := ph_errors ph @ [name]\<rparr>)
      | Some v \<Rightarrow> (v, ph1))"

definition project_of :: "phase \<Rightarrow> string \<Rightarrow> obj" where
  "project_of ph pid = (case map_of (ph_projects ph) pid of None \<Rightarrow> [] | Some p \<Rightarrow> p)"

definition direct_project :: "phase \<Rightarrow> string \<Rightarrow> bool" where
  "direct_project ph pid = (truthy (getj (project_of ph pid) ''direct'') \<or> pid \<in> set (es_direct (ph_st ph)))"

definition roles_for :: "exec_env \<Rightarrow> phase \<Rightarrow> string \<Rightarrow> string list" where
  "roles_for e ph pid =
     (let r = getj (project_of ph pid) ''role'' in
      if truthy r then [py_str (ee_pr e) r]
      else case map_of (es_roles (ph_st ph)) pid of
        Some s \<Rightarrow> if s \<noteq> [] then [s] else ee_fallback e
      | None \<Rightarrow> ee_fallback e)"

definition send_wake :: "exec_env \<Rightarrow> string \<Rightarrow> string \<Rightarrow> string \<Rightarrow> string \<Rightarrow> phase \<Rightarrow> phase" where
  "send_wake e pid reason key msg ph = ph\<lparr>ph_wakes := ph_wakes ph @
     map (\<lambda>r. \<lparr>ew_role = r, ew_reason = reason, ew_key = reason @ '':'' @ key, ew_text = clip_str TEXT_CAP msg\<rparr>)
       (roles_for e ph pid)\<rparr>"

definition attend :: "exec_env \<Rightarrow> string \<Rightarrow> string \<Rightarrow> string \<Rightarrow> string \<Rightarrow> phase \<Rightarrow> phase" where
  "attend e pid sid cause msg ph =
     (if map_of (es_attention (ph_st ph)) sid = Some cause then ph else
      let ph1 = upd (\<lambda>st. st\<lparr>es_attention := AList.update sid cause (es_attention st)\<rparr>) ph;
          ph2 = (if direct_project ph1 pid then
              let w = send_wake e pid REASON_ATTENTION sid (''your direct action '' @ pid @ '' did not run: '' @ msg
                    @ '' Nothing was changed by it; call the tool again if it is still wanted.'') ph1 in
              w\<lparr>ph_to_close := ph_to_close w @ [(pid, clip_str 200 msg)]\<rparr>
            else send_wake e pid REASON_ATTENTION sid (''project '' @ pid @ '' step '' @ sid @ '': '' @ msg
                    @ '' File a follow-up, or queue.pass naming '' @ pid @ '' to close it.'') ph1) in
      act ''attention'' [(''project'', JStr pid), (''step'', JStr sid), (''cause'', JStr cause)] ph2)"

definition step_is_done :: "exec_env \<Rightarrow> string \<Rightarrow> string \<Rightarrow> string \<Rightarrow> phase \<Rightarrow> phase" where
  "step_is_done e pid sid detail ph =
     (if sid \<in> set (es_sent (ph_st ph)) then ph else
      let ph1 = upd (\<lambda>st. st\<lparr>es_sent := keep_last SENT_KEEP (es_sent st @ [sid]),
            es_attention := AList.delete sid (es_attention st), es_transient := AList.delete sid (es_transient st),
            es_unknown := AList.delete sid (es_unknown st), es_ore_held := AList.delete sid (es_ore_held st)\<rparr>) ph in
      if direct_project ph1 pid
      then act ''step_done'' [(''project'', JStr pid), (''step'', JStr sid), (''direct'', JBool True)] ph1
      else
        let left = getj (project_of ph1 pid) ''phases_remaining'';
            tail = (if int_of left > 0 then '' '' @ dec_int (int_of left) @ '' declared phase(s) left.'' else []) in
        act ''step_done'' [(''project'', JStr pid), (''step'', JStr sid)]
          (send_wake e pid REASON_DONE sid (''project '' @ pid @ '': step '' @ sid @ '' is done''
             @ (if detail \<noteq> [] then '' ('' @ detail @ '')'' else []) @ ''.'' @ tail
             @ '' File the next step as a follow-up naming project '' @ pid @ '' and step '' @ sid
             @ '', or queue.pass naming '' @ pid @ '' to close it.'') ph1))"

subsection \<open>Reading the state\<close>

definition state_projects :: "exec_env \<Rightarrow> obj \<Rightarrow> (string \<times> obj) list" where
  "state_projects e out = fold (\<lambda>p m. AList.update (py_str (ee_pr e) (getj p ''project_id'')) p m)
     (filter (\<lambda>p. truthy (getj p ''project_id'')) (entries out ''open_projects'')) []"

definition remember_project :: "exec_env \<Rightarrow> string \<times> obj \<Rightarrow> exec_state \<Rightarrow> exec_state" where
  "remember_project e = (\<lambda>(pid, p) st.
     let st1 = (if truthy (getj p ''role'') then st\<lparr>es_roles := AList.update pid (py_str (ee_pr e) (getj p ''role'')) (es_roles st)\<rparr>
                else st) in
     if truthy (getj p ''direct'') \<and> pid \<notin> set (es_direct st1)
     then st1\<lparr>es_direct := keep_last SENT_KEEP (es_direct st1 @ [pid])\<rparr> else st1)"

definition read_state :: "exec_env \<Rightarrow> phase \<Rightarrow> obj option \<times> phase" where
  "read_state e ph =
     (let since = es_since (ph_st ph);
          (out, ph1) = tool e ''queue.execution_state'' (if nonempty_opt since then [(''since'', JStr (the since))] else []) ph in
      case out of
        JObj snap \<Rightarrow> (let ps = state_projects e snap in
          (Some snap, upd (\<lambda>st. fold (remember_project e) ps st) (ph1\<lparr>ph_projects := ps\<rparr>)))
      | _ \<Rightarrow> (None, ph1))"

text \<open>\<open>await ph.read_state() or snap\<close>: a failed or an empty read keeps the earlier one.\<close>

definition reread :: "exec_env \<Rightarrow> obj \<Rightarrow> phase \<Rightarrow> obj \<times> phase" where
  "reread e snap ph = (case read_state e ph of (out, ph1) \<Rightarrow>
     (case out of Some s \<Rightarrow> if s \<noteq> [] then s else snap | None \<Rightarrow> snap, ph1))"

subsection \<open>Uncertain runs\<close>

definition resolve_run :: "exec_env \<Rightarrow> obj \<Rightarrow> phase \<Rightarrow> phase" where
  "resolve_run e run ph =
     (let rid = getj run ''run_id''; (out, ph1) = tool e ''queue.resolve_uncertain'' [(''run_id'', rid)] ph in
      if \<not> is_obj out then ph1 else
      let o1 = fields_of out; key = dec_int (int_of rid); cls = getj o1 ''class'';
          pid = str_or_empty (ee_pr e) (getj run ''project_id''); sid = str_or_empty (ee_pr e) (getj run ''step_id'') in
      if cls = JStr ''success'' \<or> cls = JStr ''transient''
      then act ''resolved'' [(''run'', rid), (''outcome'', cls), (''handle'', getj o1 ''handle'')]
             (upd (\<lambda>st. st\<lparr>es_uncertain := AList.delete key (es_uncertain st)\<rparr>) ph1)
      else
        let count = count_of (es_uncertain (ph_st ph1)) key + 1;
            ph2 = act ''unreadable'' [(''run'', rid), (''count'', JInt count)]
                    (upd (\<lambda>st. st\<lparr>es_uncertain := bump key (es_uncertain st)\<rparr>) ph1) in
        if count \<ge> ep_uncertain_hold (ee_pol e) then
          let (held, ph3) = tool e ''queue.resolve_uncertain'' [(''run_id'', rid), (''hold'', JBool True)] ph2 in
          if is_obj held \<and> \<not> starts_with sid ''cleanup:''
          then attend e pid sid (''uncertain-held:'' @ key) (''a call may have run and could not be read back after ''
                 @ dec_int count @ '' tries; the step is held.'') ph3
          else ph3
        else ph2)"

definition resolvable :: "obj list \<Rightarrow> obj list" where
  "resolvable rs = filter (\<lambda>run. is_int (getj run ''run_id'')) rs"

definition resolve_uncertain :: "exec_env \<Rightarrow> obj list \<Rightarrow> phase \<Rightarrow> nat \<times> phase" where
  "resolve_uncertain e rs ph = (length (resolvable rs), fold (resolve_run e) (resolvable rs) ph)"

subsection \<open>Opening and applying\<close>

definition may_retry :: "exec_env \<Rightarrow> json \<Rightarrow> phase \<Rightarrow> bool" where
  "may_retry e v ph = (is_str v \<and> count_of (es_refused (ph_st ph)) (str_of v) < ep_refusal (ee_pol e))"

definition refuse :: "json \<Rightarrow> phase \<Rightarrow> phase" where
  "refuse v ph = upd (\<lambda>st. st\<lparr>es_refused := bump (str_of v) (es_refused st)\<rparr>) ph"

definition open_one :: "exec_env \<Rightarrow> obj \<Rightarrow> bool \<times> phase \<Rightarrow> bool \<times> phase" where
  "open_one e entry = (\<lambda>(changed, ph).
     let rid = getj entry ''ruling_id'' in
     if \<not> may_retry e rid ph then (changed, ph) else
     let (out, ph1) = tool e ''queue.open_project'' [(''ruling_id'', rid)] ph; prid = getj (fields_of out) ''project_id'' in
     if is_obj out \<and> truthy prid then
       (True, (let ph2 = act ''opened'' [(''ruling'', rid), (''project'', prid)] ph1 in
          if truthy (getj entry ''role'') then upd (\<lambda>st. st\<lparr>es_roles := AList.update (py_str (ee_pr e) prid)
            (py_str (ee_pr e) (getj entry ''role'')) (es_roles st)\<rparr>) ph2 else ph2))
     else (changed, refuse rid ph1))"

definition apply_one :: "exec_env \<Rightarrow> obj \<Rightarrow> bool \<times> phase \<Rightarrow> bool \<times> phase" where
  "apply_one e entry = (\<lambda>(changed, ph).
     let pid = getj entry ''proposal_id'' in
     if \<not> may_retry e pid ph then (changed, ph) else
     let (out, ph1) = tool e ''queue.apply_followup'' [(''proposal_id'', pid)] ph; o1 = fields_of out in
     if is_obj out \<and> truthy (getj o1 ''step_id'') then
       (True, act ''applied'' [(''proposal'', pid), (''project'', getj o1 ''project_id''), (''step'', getj o1 ''step_id'')] ph1)
     else (changed, refuse pid ph1))"

definition open_and_apply :: "exec_env \<Rightarrow> obj \<Rightarrow> phase \<Rightarrow> bool \<times> phase" where
  "open_and_apply e snap ph = fold (apply_one e) (entries snap ''to_apply'') (fold (open_one e) (entries snap ''to_open'') (False, ph))"

subsection \<open>Cleaning up\<close>

definition cleanup_one :: "exec_env \<Rightarrow> obj \<Rightarrow> phase \<Rightarrow> phase" where
  "cleanup_one e entry ph =
     (let pid = getj entry ''project_id'' in
      if \<not> is_str pid then ph else
      let (out, ph1) = tool e ''queue.cleanup_project'' [(''project_id'', pid)] ph;
          more = upd (\<lambda>st. st\<lparr>es_cleanup_failed := bump (str_of pid) (es_cleanup_failed st)\<rparr>) in
      if \<not> is_obj out then more ph1 else
      let o1 = fields_of out; len = (\<lambda>k. JInt (int (length (items_of (getj o1 k)))));
          ph2 = act ''cleanup'' [(''project'', pid), (''released'', len ''released''), (''unreserved'', len ''unreserved''),
            (''failed'', len ''failed''), (''close_id'', getj o1 ''close_id'')] ph1 in
      if truthy (getj o1 ''failed'') then more ph2
      else upd (\<lambda>st. st\<lparr>es_cleanup_failed := AList.delete (str_of pid) (es_cleanup_failed st)\<rparr>) ph2)"

definition cancel_stale_orders :: "exec_env \<Rightarrow> phase \<Rightarrow> phase" where
  "cancel_stale_orders e ph =
     (let sp = ep_stale (ee_pol e) in
      if \<not> so_enabled sp then ph else
      let (out, ph1) = tool e ''queue.cancel_stale_orders''
            ([(''outcomes'', JArr (map JStr (so_outcomes sp))), (''completed_grace_ticks'', JInt (so_grace sp)),
              (''max'', JInt (so_max sp))] @ (case ee_tick e of Some t \<Rightarrow> [(''tick'', JInt t)] | None \<Rightarrow> [])) ph;
          o1 = fields_of out in
      fold (\<lambda>row. act ''order_left'' [(''project'', getj row ''project_id''), (''handle'', getj row ''handle''), (''why'', getj row ''why'')])
        (entries o1 ''left'')
        (fold (\<lambda>row. act ''order_cancelled'' [(''project'', getj row ''project_id''), (''handle'', getj row ''handle''),
            (''outcome'', getj row ''outcome'')]) (entries o1 ''cancelled'') ph1))"

subsection \<open>Observing what was issued\<close>

definition observe_one :: "exec_env \<Rightarrow> obj \<Rightarrow> phase \<Rightarrow> phase" where
  "observe_one e entry ph =
     (let pid = str_or_empty (ee_pr e) (getj entry ''project_id''); sid = str_or_empty (ee_pr e) (getj entry ''step_id'') in
      if pid = [] \<or> sid = [] then ph else
      let (out, ph1) = tool e ''queue.observe'' [(''project_id'', JStr pid), (''step_id'', JStr sid)] ph in
      if \<not> is_obj out then ph1 else
      let o1 = fields_of out; obs = getj o1 ''state''; detail = getj o1 ''detail'' in
      if obs = JStr ''done'' then
        step_is_done e pid sid (if detail \<noteq> JStr ''already done'' then clip (ee_pr e) 80 detail else []) ph1
      else if obs = JStr ''unknown'' then
        let n = count_of (es_unknown (ph_st ph1)) sid + 1;
            ph2 = upd (\<lambda>st. st\<lparr>es_unknown := bump sid (es_unknown st)\<rparr>) ph1 in
        if n \<ge> ep_unknown (ee_pol e)
        then attend e pid sid ''unknown'' (''its progress cannot be read ('' @ dec_int n @ '' reads in a row): ''
               @ clip (ee_pr e) 120 detail @ ''.'') ph2
        else ph2
      else
        let ph2 = upd (\<lambda>st. st\<lparr>es_unknown := AList.delete sid (es_unknown st)\<rparr>) ph1 in
        if obs = JStr ''cancelled_by_game'' then
          attend e pid sid (str_of obs) (''the game cancelled the dig (damp or warm stone beside it), ''
            @ ''not a stuck dig: choose another site, do not retry this one'') ph2
        else if obs = JStr ''stalled'' \<or> obs = JStr ''blocked_material'' then
          attend e pid sid (str_of obs) ((if obs = JStr ''stalled'' then ''the work has stalled'' else ''a material it needs is blocked'')
            @ '': '' @ clip (ee_pr e) 160 detail @ ''.'') ph2
        else if obs = JStr ''issued'' then upd (\<lambda>st. st\<lparr>es_attention := AList.delete sid (es_attention st)\<rparr>) ph2
        else ph2)"

definition reconcile :: "exec_env \<Rightarrow> obj \<Rightarrow> phase \<Rightarrow> phase" where
  "reconcile e snap ph = fold (observe_one e) (entries snap ''issued_steps'')
     (fold (\<lambda>d. step_is_done e (py_str (ee_pr e) (getj d ''project_id'')) (py_str (ee_pr e) (getj d ''step_id'')) [])
       (filter (\<lambda>d. truthy (getj d ''step_id'')) (entries snap ''done_since'')) ph)"

subsection \<open>Idle projects\<close>

definition is_waiting :: "obj \<Rightarrow> bool" where
  "is_waiting p = (int_or_0 (getj p ''steps_open'') = 0 \<and> int_or_0 (getj p ''phases_remaining'') > 0)"

definition days_of :: "int \<Rightarrow> string" where
  "days_of ticks = dec_int (ticks div 1200)"

text \<open>The record to go on from: a fresh one when there is none, or when its tick is ahead (a reloaded save).\<close>

definition idle_rec_at :: "int \<Rightarrow> idle_rec option \<Rightarrow> idle_rec" where
  "idle_rec_at tick r =
     (let fresh = \<lparr>ir_since = Some tick, ir_woke = None\<rparr>; rec0 = (case r of None \<Rightarrow> fresh | Some x \<Rightarrow> x) in
      case ir_since rec0 of None \<Rightarrow> fresh | Some s \<Rightarrow> if s > tick then fresh else rec0)"

definition idle_one :: "exec_env \<Rightarrow> int \<Rightarrow> string \<Rightarrow> phase \<Rightarrow> phase" where
  "idle_one e tick pid ph =
     (let pol = ee_pol e; rc = idle_rec_at tick (map_of (es_idle (ph_st ph)) pid);
          set_rec = (\<lambda>r. upd (\<lambda>st. st\<lparr>es_idle := AList.update pid r (es_idle st)\<rparr>)) in
      case ir_woke rc of
        None \<Rightarrow>
          if tick - the (ir_since rc) \<ge> ep_idle_wake pol
          then act ''idle_wake'' [(''project'', JStr pid)]
                 (send_wake e pid REASON_IDLE pid (''project '' @ pid @ '' has every step done and nothing filed for ''
                    @ days_of (ep_idle_wake pol) @ '' game days. File the next step as a follow-up, or queue.pass naming ''
                    @ pid @ '' to close it; otherwise it closes in '' @ days_of (ep_idle_close pol) @ '' more.'')
                   (set_rec (rc\<lparr>ir_woke := Some tick\<rparr>) ph))
          else set_rec rc ph
      | Some w \<Rightarrow>
          if tick - w \<ge> ep_idle_close pol then
            let (out, ph1) = tool e ''queue.close'' [(''project_id'', JStr pid), (''outcome'', JStr ''completed''),
                  (''reason'', JStr (''idle: every step done and no follow-up for ''
                     @ days_of (ep_idle_wake pol + ep_idle_close pol) @ '' game days''))] (set_rec rc ph) in
            if is_obj out \<and> truthy (getj (fields_of out) ''close_id'')
            then act ''idle_close'' [(''project'', JStr pid), (''close_id'', getj (fields_of out) ''close_id'')]
                   (upd (\<lambda>st. st\<lparr>es_idle := AList.delete pid (es_idle st)\<rparr>) ph1)
            else ph1
          else set_rec rc ph)"

definition idle :: "exec_env \<Rightarrow> phase \<Rightarrow> phase" where
  "idle e ph = (case ee_tick e of
      None \<Rightarrow> ph
    | Some tick \<Rightarrow>
        let live = map fst (filter (\<lambda>(_, p). is_waiting p) (ph_projects ph)) in
        upd (\<lambda>st. st\<lparr>es_idle := filter (\<lambda>(p, _). p \<in> set live) (es_idle st)\<rparr>) (fold (idle_one e tick) live ph))"

subsection \<open>What holds a ready step\<close>

definition mats_text :: "ore_exposure list \<Rightarrow> string" where
  "mats_text xs = (if xs = [] then ''unclassified tiles''
     else join '', '' (map (\<lambda>x. ox_mineral x @ '' ('' @ dec_int (ox_tiles x) @ '')'') xs))"

definition ore_block :: "exec_env \<Rightarrow> obj \<Rightarrow> (string \<times> string option) option" where
  "ore_block e step =
     (let phs = getj (step_args step) ''phase''; st = getj (step_args step) ''site'' in
      case ep_ore_hold (ee_pol e) of None \<Rightarrow> None | Some found \<Rightarrow>
      if \<not> truthy phs \<or> \<not> truthy st \<or> \<not> found (py_str (ee_pr e) phs) then None else
      let site = py_str (ee_pr e) st in
      case ee_ore e of
        None \<Rightarrow> Some (''the ore read is unavailable'', None)
      | Some rd \<Rightarrow>
          let xs = exposed_on rd site; unknown = count_of (or_unclassified rd) site in
          if xs \<noteq> [] \<or> unknown \<noteq> 0 then
            Some (mats_text xs, Some (''waiting on ore: '' @ mats_text xs @ '' still shows on '' @ site @ '''s room walls''
              @ (if xs \<noteq> [] then ''; mine with '' @ MINE_TOOL @ '' '' @ site else [])
              @ ''. It runs again once nothing is exposed.''))
          else if site \<in> set (or_unreadable rd) then Some (''the site's walls could not be read'', None)
          else None)"

definition stock_check :: "exec_env \<Rightarrow> obj \<Rightarrow> phase \<Rightarrow> string option \<times> phase" where
  "stock_check e step ph =
     (let sp = ep_stock (ee_pol e) in
      if \<not> sp_enabled sp then (None, ph) else
      case map_of (sp_consumers sp) (str_or_empty (ee_pr e) (getj step ''tool'')) of None \<Rightarrow> (None, ph) | Some c \<Rightarrow>
      case need_for (ee_pr e) c (step_args step) of None \<Rightarrow> (None, ph) | Some (item, count) \<Rightarrow>
      let (rd, ph1) = (case map_of (ph_stock_reads ph) item of
            Some r \<Rightarrow> (r, ph)
          | None \<Rightarrow> (let (r, p1) = tool e (sp_read_tool sp) [(sp_read_arg sp, JStr item)] ph in
              (r, p1\<lparr>ph_stock_reads := AList.update item r (ph_stock_reads p1)\<rparr>))) in
      (case free_units sp rd of
        None \<Rightarrow> None
      | Some (free, in_jobs) \<Rightarrow> short_reason item count (required_with_margin sp count) free in_jobs, ph1))"

definition hold_step :: "exec_env \<Rightarrow> obj \<Rightarrow> string \<Rightarrow> phase \<Rightarrow> phase" where
  "hold_step e step why ph =
     (let pid = py_str (ee_pr e) (getj step ''project_id''); sid = py_str (ee_pr e) (getj step ''step_id'');
          stale = (\<lambda>r. case (ee_tick e, hn_since r) of (Some t, Some s) \<Rightarrow> s > t | _ \<Rightarrow> False);
          since = (case map_of (es_holds (ph_st ph)) sid of
              None \<Rightarrow> ee_tick e | Some r \<Rightarrow> if stale r then ee_tick e else hn_since r);
          rc = \<lparr>hn_project = pid, hn_tool = str_or_empty (ee_pr e) (getj step ''tool''), hn_why = clip_str 200 why, hn_since = since\<rparr>;
          ph1 = act ''stock_hold'' [(''project'', JStr pid), (''step'', JStr sid), (''why'', JStr (clip_str 120 why))]
            (upd (\<lambda>st. st\<lparr>es_holds := AList.update sid rc (es_holds st)\<rparr>) ph);
          blocks = (int_or_0 (getj (project_of ph1 pid) ''steps_open'') > 1) in
      case wake_kind (ep_stock (ee_pol e)) step rc (ee_tick e) blocks of
        None \<Rightarrow> upd (\<lambda>st. st\<lparr>es_attention := AList.delete sid (es_attention st)\<rparr>) ph1
      | Some kind \<Rightarrow>
          if map_of (es_attention (ph_st ph1)) sid = Some (''hold:'' @ kind) then ph1
          else act ''hold_wake'' [(''project'', JStr pid), (''step'', JStr sid), (''cause'', JStr kind)]
            (send_wake e pid REASON_ATTENTION (sid @ '':hold:'' @ kind) (survival_or_age_text kind pid sid why)
              (upd (\<lambda>st. st\<lparr>es_attention := AList.update sid (''hold:'' @ kind) (es_attention st)\<rparr>) ph1)))"

definition release_hold :: "string \<Rightarrow> phase \<Rightarrow> phase" where
  "release_hold sid ph =
     (if map_of (es_holds (ph_st ph)) sid = None then ph
      else act ''hold_released'' [(''step'', JStr sid)]
        (upd (\<lambda>st. st\<lparr>es_holds := AList.delete sid (es_holds st), es_attention := AList.delete sid (es_attention st)\<rparr>) ph))"

definition prune_holds :: "string list \<Rightarrow> phase \<Rightarrow> phase" where
  "prune_holds ready ph = upd (\<lambda>st.
     let gone = filter (\<lambda>k. k \<notin> set ready) (map fst (es_holds st)) in
     st\<lparr>es_holds := filter (\<lambda>(k, _). k \<in> set ready) (es_holds st),
        es_attention := filter (\<lambda>(k, c). \<not> (k \<in> set gone \<and> starts_with c ''hold:'')) (es_attention st)\<rparr>) ph"

definition after_run :: "exec_env \<Rightarrow> string \<Rightarrow> string \<Rightarrow> obj \<Rightarrow> phase \<Rightarrow> phase" where
  "after_run e pid sid out ph =
     (let cls = getj out ''class''; detail = getj out ''detail'';
          ph1 = act ''run'' [(''project'', JStr pid), (''step'', JStr sid), (''outcome'', cls), (''handle'', getj out ''handle'')] ph in
      if cls = JStr ''success'' then
        upd (\<lambda>st. st\<lparr>es_transient := AList.delete sid (es_transient st), es_attention := AList.delete sid (es_attention st)\<rparr>) ph1
      else if cls = JStr ''transient'' then
        let n = count_of (es_transient (ph_st ph1)) sid + 1;
            ph2 = upd (\<lambda>st. st\<lparr>es_transient := bump sid (es_transient st)\<rparr>) ph1 in
        if n \<ge> ep_transient (ee_pol e)
        then attend e pid sid ''transient'' (''it could not be run '' @ dec_int n @ '' times in a row: '' @ clip (ee_pr e) 140 detail @ ''.'') ph2
        else ph2
      else if cls = JStr ''needs_judgment'' then
        attend e pid sid (''judgment:'' @ clip (ee_pr e) 60 detail) (''it needs your judgment: '' @ clip (ee_pr e) 180 detail @ ''.'') ph1
      else if cls = JStr ''failed'' then
        (if getj out ''retryable'' = JBool False
         then attend e pid sid ''failed'' (''it failed and will not be retried: '' @ clip (ee_pr e) 160 detail @ ''.'') ph1 else ph1)
      else if cls = JStr ''uncertain'' then
        act ''uncertain'' [(''project'', JStr pid), (''step'', JStr sid), (''run'', getj out ''run_id'')] ph1
      else ph1)"

subsection \<open>Running what is ready\<close>

definition urgency_of :: "exec_env \<Rightarrow> obj \<Rightarrow> string" where
  "urgency_of e step = (let u = getj step ''urgency'' in if truthy u then py_str (ee_pr e) u else ''normal'')"

definition urgency_rank :: "string list \<Rightarrow> string \<Rightarrow> nat" where
  "urgency_rank order u = (case map_of (rev (zip order [0..<length order])) u of Some i \<Rightarrow> i | None \<Rightarrow> length order)"

text \<open>One ready step below the cap: whether the quicksave has been made, and the phase after it.\<close>

definition run_one :: "exec_env \<Rightarrow> string list \<Rightarrow> obj \<Rightarrow> bool \<Rightarrow> phase \<Rightarrow> bool \<times> phase" where
  "run_one e blocked step saved ph =
     (let pid = str_or_empty (ee_pr e) (getj step ''project_id''); sid = str_or_empty (ee_pr e) (getj step ''step_id'') in
      if pid = [] \<or> sid = [] then (saved, ph)
      else if ee_latched e \<and> urgency_of e step \<noteq> ''high'' then (saved, ph)
      else if pid \<in> set blocked then (saved, ph)
      else case ore_block e step of
        Some (why, msg) \<Rightarrow>
          let ph1 = (if map_of (es_ore_held (ph_st ph)) sid = Some why then ph else
                let p = upd (\<lambda>st. st\<lparr>es_ore_held := AList.update sid why (es_ore_held st)\<rparr>) ph in
                case msg of None \<Rightarrow> p | Some m \<Rightarrow> if m = [] then p
                  else send_wake e pid REASON_ATTENTION (sid @ '':ore'') (''project '' @ pid @ '' step '' @ sid @ '': '' @ m) p) in
          (saved, act ''ore_hold'' [(''project'', JStr pid), (''step'', JStr sid), (''why'', JStr why)] ph1)
      | None \<Rightarrow>
          let ph1 = (if map_of (es_ore_held (ph_st ph)) sid = None then ph else
                act ''ore_released'' [(''project'', JStr pid), (''step'', JStr sid)]
                  (upd (\<lambda>st. st\<lparr>es_ore_held := AList.delete sid (es_ore_held st)\<rparr>) ph));
              (why, ph2) = stock_check e step ph1 in
          case why of
            Some w \<Rightarrow> (saved, hold_step e step w ph2)
          | None \<Rightarrow>
              let ph3 = release_hold sid ph2;
                  save = (\<not> saved \<and> ee_quicksave e);
                  ph4 = (if save then snd (tool e ''quicksave'' [] ph3) else ph3);
                  (out, ph5) = tool e ''queue.run_step'' [(''project_id'', JStr pid), (''step_id'', JStr sid)] ph4 in
              (saved \<or> save,
               if is_obj out then after_run e pid sid (fields_of out) (ph5\<lparr>ph_steps_run := ph_steps_run ph5 + 1\<rparr>) else ph5))"

fun run_steps :: "exec_env \<Rightarrow> string list \<Rightarrow> obj list \<Rightarrow> bool \<Rightarrow> phase \<Rightarrow> phase" where
  "run_steps e blocked [] saved ph = ph"
| "run_steps e blocked (step # steps) saved ph =
     (if ph_steps_run ph \<ge> ep_max_steps (ee_pol e) then act ''cap'' [(''max'', JInt (ep_max_steps (ee_pol e)))] ph
      else case run_one e blocked step saved ph of (saved', ph') \<Rightarrow> run_steps e blocked steps saved' ph')"

definition blocked_projects :: "exec_env \<Rightarrow> obj \<Rightarrow> string list" where
  "blocked_projects e snap = map (\<lambda>r. py_str (ee_pr e) (getj r ''project_id'')) (entries snap ''unresolved_runs'')"

definition run_ready :: "exec_env \<Rightarrow> obj \<Rightarrow> phase \<Rightarrow> phase" where
  "run_ready e snap ph =
     (let ready = entries snap ''ready_steps'' in
      run_steps e (blocked_projects e snap) (sort_key (\<lambda>s. urgency_rank (ep_urgency (ee_pol e)) (urgency_of e s)) ready) False
        (prune_holds (map (\<lambda>s. py_str (ee_pr e) (getj s ''step_id'')) ready) ph))"

definition close_one :: "exec_env \<Rightarrow> string \<times> string \<Rightarrow> phase \<Rightarrow> phase" where
  "close_one e = (\<lambda>(pid, reason) ph.
     let (out, ph1) = tool e ''queue.close'' [(''project_id'', JStr pid), (''outcome'', JStr ''not_done''), (''reason'', JStr reason)] ph in
     if is_obj out \<and> truthy (getj (fields_of out) ''close_id'')
     then act ''direct_closed'' [(''project'', JStr pid), (''close_id'', getj (fields_of out) ''close_id'')] ph1 else ph1)"

definition close_failed_direct :: "exec_env \<Rightarrow> phase \<Rightarrow> phase" where
  "close_failed_direct e ph = (fold (close_one e) (rev (remdups (rev (ph_to_close ph)))) ph)\<lparr>ph_to_close := []\<rparr>"

subsection \<open>The pass\<close>

definition quiet_work :: "exec_env \<Rightarrow> obj \<Rightarrow> phase \<Rightarrow> phase" where
  "quiet_work e snap ph = idle e (reconcile e snap (cancel_stale_orders e
     (fold (cleanup_one e) (entries snap ''awaiting_cleanup'') ph)))"

definition run_execute :: "exec_env \<Rightarrow> exec_state \<Rightarrow> bool \<times> phase" where
  "run_execute e st = (case read_state e (start_phase st) of
      (None, ph) \<Rightarrow> (False, ph)
    | (Some s0, ph1) \<Rightarrow>
        let (n, ph2) = resolve_uncertain e (entries s0 ''unresolved_runs'') ph1;
            (s1, ph3) = (if n \<noteq> 0 then reread e s0 ph2 else (s0, ph2));
            (changed, ph4) = open_and_apply e s1 ph3;
            (s2, ph5) = (if changed then reread e s1 ph4 else (s1, ph4));
            ph6 = (if ee_latched e then ph5 else quiet_work e s2 ph5);
            ph7 = (case getj s2 ''latest_observation_id'' of JStr l \<Rightarrow> upd (\<lambda>st. st\<lparr>es_since := Some l\<rparr>) ph6 | _ \<Rightarrow> ph6) in
        (True, close_failed_direct e (run_ready e s2 ph7)))"

end
