(* ===== verification/Lane_Reads.thy ===== *)
theory Lane_Reads
  imports Holds
begin

section \<open>Reads behind the lane wakes: unsupplied buildings, rooms of office holders\<close>

text \<open>
  \<open>conductor/unsupplied_watch.py\<close> and \<open>conductor/noble_room_watch.py\<close>: what the tools' results say, judged
  without a guess. \<open>None\<close> is a failed poll; an entry that cannot be judged is kept apart, so that its wake
  state is neither served nor forgotten. A row's producers and an order's fields are objects and texts as the
  tools print them.
\<close>

definition safe_int :: "json \<Rightarrow> int option" where
  "safe_int v = (if is_bool v then None else py_int v)"

subsection \<open>Unsupplied buildings\<close>

record producer =
  pd_job :: string
  pd_reaction :: string
  pd_shop :: string

record unsupplied_item =
  ui_item :: string
  ui_buildings :: int
  ui_units :: int
  ui_producers :: "producer list"
  ui_orders :: "string list"

record unsupplied_read =
  ur_items :: "unsupplied_item list"
  ur_unreadable :: "string list"

definition MAX_UNSUPPLIED_CHARS :: nat where "MAX_UNSUPPLIED_CHARS = 240"
definition MAX_PRODUCERS_NAMED :: nat where "MAX_PRODUCERS_NAMED = 2"

definition unsupplied_line :: "unsupplied_item \<Rightarrow> int \<Rightarrow> string" where
  "unsupplied_line u waiting =
     (let wait = (if waiting \<ge> 0 then '' '' @ dec_int (waiting div TICKS_PER_GAME_DAY) @ ''d'' else []);
          head = ui_item u @ '': '' @ dec_int (ui_buildings u) @ '' planned '' @ (if ui_buildings u = 1 then ''building'' else ''buildings'')
            @ '' waiting'' @ wait @ '', 0 free'';
          named = map (\<lambda>p. (if pd_reaction p \<noteq> [] then pd_reaction p else pd_job p) @ '' at '' @ pd_shop p)
            (take MAX_PRODUCERS_NAMED (ui_producers u));
          more = length (ui_producers u) - MAX_PRODUCERS_NAMED;
          made = (if ui_producers u \<noteq> [] then ''made by '' @ join '', '' named
              @ (if more > 0 then '' (+'' @ dec more @ '' more)'' else [])
            else ''no built workshop offers a job making it'');
          tail = (if ui_orders u \<noteq> [] then ''; '' @ join ''; '' (ui_orders u) else ''; no order or job is making it'') in
      take MAX_UNSUPPLIED_CHARS (head @ ''; '' @ made @ tail))"

definition order_matches :: "(json \<Rightarrow> string) \<Rightarrow> obj \<Rightarrow> producer list \<Rightarrow> bool" where
  "order_matches pr o1 ps = list_ex (\<lambda>p. lower (text_of pr (getj o1 ''job'')) = lower (pd_job p) \<and>
     (pd_reaction p = [] \<or> lower (text_of pr (getj o1 ''reaction'')) = lower (pd_reaction p))) ps"

definition order_state :: "obj \<Rightarrow> string" where
  "order_state o1 =
     (if getj o1 ''validated'' = JBool False then ''unvalidated''
      else if getj o1 ''validated'' = JBool True \<and> getj o1 ''active'' = JBool True then ''running''
      else if getj o1 ''active'' = JBool False then ''inactive''
      else ''not confirmed running'')"

definition producers_of :: "(json \<Rightarrow> string) \<Rightarrow> obj \<Rightarrow> producer list" where
  "producers_of pr row = map (\<lambda>p. \<lparr>pd_job = text_of pr (getj p ''job''), pd_reaction = text_of pr (getj p ''reaction''),
       pd_shop = text_of pr (getj p ''workshop_kind'')\<rparr>)
     (filter (\<lambda>p. text_of pr (getj p ''job'') \<noteq> []) (map fields_of (filter is_obj (items_of (getj row ''producers'')))))"

datatype verdict = Unreadable | Supplied | Unsupplied unsupplied_item

definition judge_unsupplied :: "(json \<Rightarrow> string) \<Rightarrow> obj list option \<Rightarrow> obj \<Rightarrow> verdict" where
  "judge_unsupplied pr os row = (case (safe_int (getj row ''available''), safe_int (getj row ''jobs_queued_now''), os) of
      (Some available, Some queued, Some orders) \<Rightarrow>
        if available > 0 \<or> queued > 0 then Supplied else
        let ps = producers_of pr row;
            matching = (if ps \<noteq> [] then filter (\<lambda>o1. order_matches pr o1 ps) orders else []) in
        if list_ex (\<lambda>o1. order_state o1 = ''running'') matching then Supplied
        else Unsupplied \<lparr>ui_item = text_of pr (getj row ''item''),
          ui_buildings = (case safe_int (getj row ''buildings_waiting'') of Some n \<Rightarrow> n | None \<Rightarrow> 0),
          ui_units = (case safe_int (getj row ''units_needed'') of Some n \<Rightarrow> n | None \<Rightarrow> 0), ui_producers = ps,
          ui_orders = map (\<lambda>o1. ''order #'' @ py_str pr (getj o1 ''id'') @ '' for it is '' @ order_state o1)
            (filter (\<lambda>o1. getj o1 ''id'' \<noteq> JNull) matching)\<rparr>
    | _ \<Rightarrow> Unreadable)"

definition unsupplied_rows :: "json \<Rightarrow> json list option" where
  "unsupplied_rows result = (case result of
      JArr rows \<Rightarrow> Some rows
    | JObj r \<Rightarrow> if is_arr (getj r ''unsupplied'') then Some (items_of (getj r ''unsupplied''))
        else if is_arr (getj r ''result'') then Some (items_of (getj r ''result''))
        else if getj r ''error'' = JNull \<and> has r ''unsupplied'' then Some [] else None
    | _ \<Rightarrow> None)"

definition live_orders :: "json list option \<Rightarrow> obj list option" where
  "live_orders os = map_option (\<lambda>xs. filter (\<lambda>o1. \<not> order_finished o1 \<and> order_has_work_left o1)
     (map fields_of (filter is_obj xs))) os"

definition unsupplied_read_of :: "(json \<Rightarrow> string) \<Rightarrow> json \<Rightarrow> json list option \<Rightarrow> unsupplied_read option" where
  "unsupplied_read_of pr result os = map_option (\<lambda>rows.
     let rs = filter (\<lambda>r. text_of pr (getj r ''item'') \<noteq> []) (map fields_of (filter is_obj rows));
         judge = judge_unsupplied pr (live_orders os) in
     \<lparr>ur_items = sort_key ui_item (keys_by (\<lambda>r. case judge r of Unsupplied u \<Rightarrow> Some u | _ \<Rightarrow> None) rs),
      ur_unreadable = map (\<lambda>r. text_of pr (getj r ''item'')) (filter (\<lambda>r. judge r = Unreadable) rs)\<rparr>) (unsupplied_rows result)"

subsection \<open>Rooms of office holders\<close>

record noble_item =
  ni_position :: string
  ni_unit :: int
  ni_holder :: string
  ni_kind :: string
  ni_zones :: "int list option"

record noble_read =
  nr_items :: "noble_item list"
  nr_unreadable :: "string list"
  nr_covered :: "int list"
  nr_bad_codes :: "string list"

definition ASSIGN_TOOL :: string where "ASSIGN_TOOL = ''zone.assign-owner''"
definition MAX_NOBLE_CHARS :: nat where "MAX_NOBLE_CHARS = 300"
definition MAX_ZONES_NAMED :: nat where "MAX_ZONES_NAMED = 5"

definition noble_key :: "noble_item \<Rightarrow> string" where
  "noble_key i = ni_position i @ '':'' @ dec_int (ni_unit i) @ '':'' @ ni_kind i"

definition noble_line :: "noble_item \<Rightarrow> string" where
  "noble_line i =
     (let who = ni_position i @ '' held by unit '' @ dec_int (ni_unit i)
            @ (if ni_holder i \<noteq> [] then '' ('' @ ni_holder i @ '')'' else []);
          head = who @ '' owns no '' @ ni_kind i @ '' zone, which the position requires'';
          tail = (case ni_zones i of
              None \<Rightarrow> ''; unowned zones could not be read (zone.list)''
            | Some zs \<Rightarrow> if zs = [] then ''; no unowned '' @ ni_kind i @ '' zone exists, so one must be built first''
                else ''; unowned '' @ ni_kind i @ '' zone id(s): '' @ join '', '' (map dec_int (take MAX_ZONES_NAMED zs))
                  @ (if length zs > MAX_ZONES_NAMED then '' (+'' @ dec (length zs - MAX_ZONES_NAMED) @ '' more)'' else [])) in
      take MAX_NOBLE_CHARS (head @ tail))"

definition held_entry :: "(json \<Rightarrow> string) \<Rightarrow> obj \<Rightarrow> (string \<times> int \<times> string) option" where
  "held_entry pr row = (case (getj row ''vacant'', getj row ''code'', safe_int (getj row ''holder_unit_id'')) of
      (JBool False, JStr code, Some uid) \<Rightarrow>
        if code = [] \<or> uid < 0 then None
        else Some (code, uid, if truthy (getj row ''name'') then py_str pr (getj row ''name'') else [])
    | _ \<Rightarrow> None)"

text \<open>Held positions, one per code and holder, at most \<open>limit\<close>; the limit is looked at after an entry is added.\<close>

fun held_loop :: "nat \<Rightarrow> (string \<times> int) list \<Rightarrow> (string \<times> int \<times> string) list \<Rightarrow> (string \<times> int \<times> string) list" where
  "held_loop limit seen [] = []"
| "held_loop limit seen ((code, uid, name) # es) =
     (if (code, uid) \<in> set seen then held_loop limit seen es
      else (code, uid, name) # (if Suc (length seen) \<ge> limit then [] else held_loop limit ((code, uid) # seen) es))"

definition held_positions :: "(json \<Rightarrow> string) \<Rightarrow> json \<Rightarrow> nat \<Rightarrow> (string \<times> int \<times> string) list option" where
  "held_positions pr result limit =
     (let ps = getj (fields_of result) ''positions'' in
      if \<not> is_arr ps then None else Some (held_loop limit [] (keys_by (held_entry pr) (map fields_of (filter is_obj (items_of ps))))))"

definition unmet_of :: "string list \<Rightarrow> string \<times> json \<Rightarrow> bool" where
  "unmet_of statuses = (\<lambda>(kind, st). is_obj st \<and> getj (fields_of st) ''status'' \<in> set (map JStr statuses) \<and>
     \<not> truthy (getj (fields_of st) ''zone_ids''))"

definition unmet_kinds :: "json \<Rightarrow> int \<Rightarrow> string list \<Rightarrow> string list option" where
  "unmet_kinds result uid statuses =
     (let as = getj (fields_of result) ''assignments'' in
      if \<not> is_arr as then None else
      let mine = filter (\<lambda>r. safe_int (getj r ''holder_unit_id'') = Some uid) (map fields_of (filter is_obj (items_of as))) in
      Some (rev (remdups (rev (map fst (filter (unmet_of statuses) (concat (map (\<lambda>r. fields_of (getj r ''room_value'')) mine))))))))"

definition unowned_zone_ids :: "json \<Rightarrow> int list option" where
  "unowned_zone_ids result =
     (let zs = getj (fields_of result) ''zones'' in
      if \<not> is_arr zs then None
      else Some (keys_by (\<lambda>z. safe_int (getj z ''id'')) (map fields_of (filter is_obj (items_of zs)))))"

definition covered_unit_ids :: "json \<Rightarrow> int list option" where
  "covered_unit_ids overview =
     (let os = getj (fields_of overview) ''open_steps'' in
      if \<not> is_arr os then None
      else Some (keys_by (\<lambda>r. if getj r ''tool'' = JStr ASSIGN_TOOL then safe_int (arg_ci (fields_of (getj r ''args'')) ''unit_id'') else None)
        (map fields_of (filter is_obj (items_of os)))))"

subsection \<open>Facts\<close>

text \<open>A failed order read never makes a building look unsupplied.\<close>

lemma no_orders_no_verdict: "judge_unsupplied pr None row = Unreadable"
  by (simp add: judge_unsupplied_def split: option.splits)

lemma unsupplied_without_orders: "unsupplied_read_of pr result None = Some r \<Longrightarrow> ur_items r = []"
proof -
  have "keys_by (\<lambda>r. case judge_unsupplied pr None r of Unsupplied u \<Rightarrow> Some u | _ \<Rightarrow> None) rs = []" for rs
    by (induction rs) (simp_all add: no_orders_no_verdict)
  then show "unsupplied_read_of pr result None = Some r \<Longrightarrow> ur_items r = []"
    by (auto simp: unsupplied_read_of_def live_orders_def Let_def)
qed

lemma held_loop_facts:
  assumes "length seen < limit"
  shows "length (held_loop limit seen es) \<le> limit - length seen \<and> distinct (map (\<lambda>(c, u, _). (c, u)) (held_loop limit seen es)) \<and>
    set (map (\<lambda>(c, u, _). (c, u)) (held_loop limit seen es)) \<inter> set seen = {}"
  using assms
proof (induction limit seen es rule: held_loop.induct)
  case (2 limit seen code uid name es)
  show ?case
  proof (cases "(code, uid) \<in> set seen")
    case False
    show ?thesis
    proof (cases "Suc (length seen) \<ge> limit")
      case room: False
      with "2.IH"(2) [OF False room] show ?thesis using False by auto
    qed (use False "2.prems" in auto)
  qed (use "2.IH"(1) "2.prems" in auto)
qed simp

end
