(* ===== verification/Triage.thy ===== *)
theory Triage
  imports Texts
begin

section \<open>Triage: who wakes, and at what clock\<close>

text \<open>
  The clock policy of \<open>conductor/policy.py\<close> and \<open>conductor/triage.py\<close>. A clock level is a constructor
  (the loader admits no other), a wake reason missing from the policy is the \<open>PolicyError\<close> branch, \<open>None\<close>.
  A figure printed with one decimal goes through the argument \<open>fmt1\<close>.
\<close>

subsection \<open>The clock policy\<close>

datatype clock_level = Full_Speed | Slowed | Paused

fun urgency :: "clock_level \<Rightarrow> nat" where
  "urgency Full_Speed = 0"
| "urgency Slowed = 1"
| "urgency Paused = 2"

record wake_reason =
  wr_clock :: clock_level
  wr_wakes :: "string list"
  wr_computable :: bool

record clock_policy =
  cp_base_fps :: int
  cp_closing_in :: rat
  cp_thinking_seconds :: rat
  cp_review_days :: int
  cp_reasons :: "(string \<times> wake_reason) list"

definition policy_reason :: "clock_policy \<Rightarrow> string \<Rightarrow> wake_reason option" where
  "policy_reason pol name = map_of (cp_reasons pol) name"

definition ticks_to_consequence_clock :: "int option \<Rightarrow> clock_policy \<Rightarrow> int option \<Rightarrow> clock_level option" where
  "ticks_to_consequence_clock ticks pol base_fps = (case ticks of
      None \<Rightarrow> Some Full_Speed
    | Some t \<Rightarrow>
        if t < 0 then None else
        let fps = (case base_fps of Some f \<Rightarrow> f | None \<Rightarrow> cp_base_fps pol);
            threshold = cp_closing_in pol * (cp_thinking_seconds pol * of_int fps) in
        Some (if of_int t < threshold then Slowed else Full_Speed))"

definition clock_for_reason :: "string \<Rightarrow> clock_policy \<Rightarrow> int option \<Rightarrow> int option \<Rightarrow> clock_level option" where
  "clock_for_reason name pol ticks base_fps = (case policy_reason pol name of
      None \<Rightarrow> None
    | Some rp \<Rightarrow> if wr_computable rp \<and> ticks \<noteq> None then ticks_to_consequence_clock ticks pol base_fps
                else Some (wr_clock rp))"

text \<open>\<open>max(levels, key=\<dots>)\<close>, the first of equals.\<close>

fun most_urgent :: "clock_level list \<Rightarrow> clock_level" where
  "most_urgent [] = Full_Speed"
| "most_urgent [l] = l"
| "most_urgent (l # ls) = (let m = most_urgent ls in if urgency m > urgency l then m else l)"

definition THINKING_TIME_EWMA_WEIGHT :: rat where "THINKING_TIME_EWMA_WEIGHT = 3 / 10"

definition update_expected_thinking_seconds :: "clock_policy \<Rightarrow> rat \<Rightarrow> clock_policy option" where
  "update_expected_thinking_seconds pol measured =
     (if measured < 0 then None
      else Some (pol\<lparr>cp_thinking_seconds := (1 - THINKING_TIME_EWMA_WEIGHT) * cp_thinking_seconds pol
        + THINKING_TIME_EWMA_WEIGHT * measured\<rparr>))"

subsection \<open>Signals and wakes\<close>

definition ADVISORS :: "string list" where "ADVISORS = [''architect'', ''quartermaster'']"
definition CONSULTANT :: string where "CONSULTANT = ''consultant''"
definition OVERSEER :: string where "OVERSEER = ''overseer''"
definition PLANNER :: string where "PLANNER = ''planner''"

record wake =
  wk_reason :: string
  wk_detail :: string
  wk_roles :: "string list"
  wk_clock :: clock_level

record lane_wake =
  lw_reason :: string
  lw_detail :: string
  lw_roles :: "string list"

record signals =
  sg_vital_nearing :: bool
  sg_vital_ticks :: "int option"
  sg_stuck_job :: bool
  sg_stuck_job_ticks :: "int option"
  sg_stuck_job_detail :: string
  sg_stuck_job_roles :: "string list option"
  sg_season_change :: bool
  sg_stalled_order :: bool
  sg_stalled_ids :: "int list"
  sg_blocked_order :: bool
  sg_blocked_ids :: "int list"
  sg_slow :: bool
  sg_slow_roles :: "string list"
  sg_slow_detail :: string
  sg_graded :: bool
  sg_misses :: nat
  sg_miss_roles :: "string list"
  sg_lane_wakes :: "lane_wake list"
  sg_days_since_review :: rat
  sg_queue_holds :: bool
  sg_open_ask :: bool
  sg_open_ask_roles :: "string list"

definition quiet :: signals where
  "quiet = \<lparr>sg_vital_nearing = False, sg_vital_ticks = None, sg_stuck_job = False, sg_stuck_job_ticks = None,
     sg_stuck_job_detail = [], sg_stuck_job_roles = None, sg_season_change = False, sg_stalled_order = False,
     sg_stalled_ids = [], sg_blocked_order = False, sg_blocked_ids = [], sg_slow = False, sg_slow_roles = [],
     sg_slow_detail = [], sg_graded = False, sg_misses = 0, sg_miss_roles = [], sg_lane_wakes = [],
     sg_days_since_review = 0, sg_queue_holds = False, sg_open_ask = False, sg_open_ask_roles = []\<rparr>"

record triage_result =
  tr_wakes :: "wake list"
  tr_clock :: clock_level
  tr_roles :: "string list"

text \<open>A wake whose clock the policy gives, for the reason's own roles or the ones the signal carries.\<close>

definition reason_wake :: "clock_policy \<Rightarrow> string \<Rightarrow> string \<Rightarrow> (wake_reason \<Rightarrow> string list) \<Rightarrow> int option \<Rightarrow> int option \<Rightarrow> wake option" where
  "reason_wake pol name detail roles ticks base_fps = do {
     rp \<leftarrow> policy_reason pol name;
     c \<leftarrow> clock_for_reason name pol ticks base_fps;
     Some \<lparr>wk_reason = name, wk_detail = detail, wk_roles = roles rp, wk_clock = c\<rparr>
   }"

definition wake_if :: "bool \<Rightarrow> wake option \<Rightarrow> wake list option" where
  "wake_if b w = (if b then map_option (\<lambda>x. [x]) w else Some [])"

definition computable_wake :: "clock_policy \<Rightarrow> int option \<Rightarrow> string \<Rightarrow> string \<Rightarrow> string list option \<Rightarrow> int option \<Rightarrow> wake option" where
  "computable_wake pol base_fps name detail roles ticks =
     reason_wake pol name
       (detail @ (case ticks of None \<Rightarrow> [] | Some t \<Rightarrow> '' ('' @ dec_int t @ '' ticks to consequence)''))
       (\<lambda>rp. case roles of Some rs \<Rightarrow> rs | None \<Rightarrow> wr_wakes rp) ticks base_fps"

definition prediction_wakes :: "signals \<Rightarrow> clock_policy \<Rightarrow> wake list option" where
  "prediction_wakes sg pol = wake_if (sg_graded sg) (reason_wake pol ''prediction_graded''
     (if sg_misses sg \<noteq> 0 then dec (sg_misses sg) @ '' prediction(s) missed when graded this cycle''
      else ''a prediction was graded this cycle'')
     (\<lambda>rp. if sg_miss_roles sg \<noteq> [] then sg_miss_roles sg else wr_wakes rp) None None)"

definition computable_wakes :: "signals \<Rightarrow> clock_policy \<Rightarrow> int option \<Rightarrow> wake list option" where
  "computable_wakes sg pol base_fps = do {
     a \<leftarrow> wake_if (sg_stuck_job sg) (computable_wake pol base_fps ''stuck_job''
            (if sg_stuck_job_detail sg \<noteq> [] then sg_stuck_job_detail sg else ''stuck job'')
            (sg_stuck_job_roles sg) (sg_stuck_job_ticks sg));
     b \<leftarrow> wake_if (sg_vital_nearing sg) (computable_wake pol base_fps ''vital_nearing_threshold''
            ''vital nearing threshold'' None (sg_vital_ticks sg));
     Some (a @ b)
   }"

definition review_wakes :: "(rat \<Rightarrow> string) \<Rightarrow> signals \<Rightarrow> clock_policy \<Rightarrow> wake list option" where
  "review_wakes fmt1 sg pol = wake_if (sg_days_since_review sg \<ge> of_int (cp_review_days pol))
     (reason_wake pol ''routine_review''
        (fmt1 (sg_days_since_review sg) @ '' game days since the last routine review (interval ''
           @ dec_int (cp_review_days pol) @ '')'') wr_wakes None None)"

definition lane_wakes :: "signals \<Rightarrow> clock_policy \<Rightarrow> wake list option" where
  "lane_wakes sg pol = those (map (\<lambda>l. map_option (\<lambda>c. \<lparr>wk_reason = lw_reason l, wk_detail = lw_detail l,
     wk_roles = lw_roles l, wk_clock = c\<rparr>) (clock_for_reason (lw_reason l) pol None None)) (sg_lane_wakes sg))"

definition order_wakes :: "signals \<Rightarrow> clock_policy \<Rightarrow> wake list option" where
  "order_wakes sg pol = do {
     a \<leftarrow> wake_if (sg_stalled_order sg) (reason_wake pol ''stalled_order''
            (''order(s) '' @ join '', '' (map dec_int (sg_stalled_ids sg)) @ '' validated but not dispatched for at least the stall threshold'')
            wr_wakes None None);
     b \<leftarrow> wake_if (sg_blocked_order sg) (reason_wake pol ''blocked_order''
            (''order(s) '' @ join '', '' (map dec_int (sg_blocked_ids sg)) @ '' could not be validated by the Manager'') wr_wakes None None);
     Some (a @ b)
   }"

definition slow_wakes :: "signals \<Rightarrow> clock_policy \<Rightarrow> wake list option" where
  "slow_wakes sg pol = wake_if (sg_slow sg) (map_option (\<lambda>c. \<lparr>wk_reason = ''slow_announcement'',
     wk_detail = (if sg_slow_detail sg \<noteq> [] then sg_slow_detail sg else ''a slow-tier announcement fired''),
     wk_roles = sg_slow_roles sg, wk_clock = c\<rparr>) (clock_for_reason ''slow_announcement'' pol None None))"

definition queue_wakes :: "signals \<Rightarrow> wake list" where
  "queue_wakes sg =
     (if sg_queue_holds sg then [\<lparr>wk_reason = ''queue_pending'', wk_detail = ''the queue holds something for the Overseer'',
        wk_roles = [OVERSEER], wk_clock = Full_Speed\<rparr>] else [])
     @ (if sg_open_ask sg then [\<lparr>wk_reason = ''open_ask'', wk_detail = ''an ask or fact-check is open for the Consultant'',
        wk_roles = [CONSULTANT], wk_clock = Full_Speed\<rparr>] else [])
     @ map (\<lambda>a. \<lparr>wk_reason = ''open_ask'', wk_detail = ''an ask is open for '' @ a, wk_roles = [a], wk_clock = Full_Speed\<rparr>)
         (filter (\<lambda>a. a \<noteq> CONSULTANT) (sg_open_ask_roles sg))"

definition triage_wakes :: "(rat \<Rightarrow> string) \<Rightarrow> signals \<Rightarrow> clock_policy \<Rightarrow> int option \<Rightarrow> wake list option" where
  "triage_wakes fmt1 sg pol base_fps = do {
     a \<leftarrow> prediction_wakes sg pol;
     b \<leftarrow> wake_if (sg_season_change sg) (reason_wake pol ''season_change'' ''season change'' wr_wakes None None);
     c \<leftarrow> computable_wakes sg pol base_fps;
     d \<leftarrow> review_wakes fmt1 sg pol;
     e \<leftarrow> lane_wakes sg pol;
     f \<leftarrow> order_wakes sg pol;
     g \<leftarrow> slow_wakes sg pol;
     Some (a @ b @ c @ d @ e @ f @ g @ queue_wakes sg)
   }"

text \<open>The roles named, each once, in the order a cycle runs them.\<close>

definition roles_named :: "wake list \<Rightarrow> string list" where
  "roles_named ws = rev (remdups (rev (filter (\<lambda>r. r \<noteq> []) (concat (map wk_roles ws)))))"

definition order_roles :: "string list \<Rightarrow> string list" where
  "order_roles named =
     (let fixed = [PLANNER] @ ADVISORS @ [CONSULTANT, OVERSEER];
          ordered = filter (\<lambda>r. r \<in> set named) fixed;
          extras = filter (\<lambda>r. r \<notin> set ordered) named in
      if extras = [] then ordered
      else filter (\<lambda>r. r \<noteq> OVERSEER) ordered @ extras @ filter (\<lambda>r. r = OVERSEER) ordered)"

definition triage :: "(rat \<Rightarrow> string) \<Rightarrow> signals \<Rightarrow> clock_policy \<Rightarrow> int option \<Rightarrow> triage_result option" where
  "triage fmt1 sg pol base_fps = map_option (\<lambda>ws.
     \<lparr>tr_wakes = ws, tr_clock = most_urgent (map wk_clock ws), tr_roles = order_roles (roles_named ws)\<rparr>)
     (triage_wakes fmt1 sg pol base_fps)"

subsection \<open>Reading a result\<close>

definition wake_for :: "triage_result \<Rightarrow> string \<Rightarrow> wake option" where
  "wake_for tr role = find (\<lambda>w. role \<in> set (wk_roles w)) (tr_wakes tr)"

definition reasons_for :: "triage_result \<Rightarrow> string \<Rightarrow> string list" where
  "reasons_for tr role = rev (remdups (rev (map wk_reason (filter (\<lambda>w. role \<in> set (wk_roles w)) (tr_wakes tr)))))"

definition merged_wake_for :: "triage_result \<Rightarrow> string \<Rightarrow> wake option" where
  "merged_wake_for tr role = (case filter (\<lambda>w. role \<in> set (wk_roles w)) (tr_wakes tr) of
      [] \<Rightarrow> None
    | [w] \<Rightarrow> Some w
    | w # ws \<Rightarrow> Some \<lparr>wk_reason = wk_reason w,
        wk_detail = join '' | '' (map (\<lambda>w. wk_reason w @ '': '' @ wk_detail w) (w # ws)), wk_roles = wk_roles w,
        wk_clock = most_urgent (map wk_clock (w # ws))\<rparr>)"

subsection \<open>Lemmas\<close>

lemma most_urgent_ge: "l \<in> set ls \<Longrightarrow> urgency l \<le> urgency (most_urgent ls)"
  by (induction ls rule: most_urgent.induct) (auto simp: Let_def)

lemma most_urgent_in: "ls \<noteq> [] \<Longrightarrow> most_urgent ls \<in> set ls"
  by (induction ls rule: most_urgent.induct) (auto simp: Let_def)

lemma set_roles_named: "set (roles_named ws) = {r. r \<noteq> [] \<and> (\<exists>w \<in> set ws. r \<in> set (wk_roles w))}"
  by (auto simp: roles_named_def)

lemma distinct_roles_named: "distinct (roles_named ws)"
  by (simp add: roles_named_def)

lemma fixed_distinct: "distinct ([PLANNER] @ ADVISORS @ [CONSULTANT, OVERSEER])"
  by (simp add: PLANNER_def ADVISORS_def CONSULTANT_def OVERSEER_def)

lemma set_order_roles: "set (order_roles named) = set named"
  by (auto simp: order_roles_def Let_def filter_empty_conv)

lemma distinct_order_roles:
  assumes "distinct named"
  shows "distinct (order_roles named)"
  using assms fixed_distinct by (auto simp: order_roles_def Let_def)

text \<open>The Overseer runs last, after every other role woken, and the Planner first.\<close>

lemma order_roles_overseer:
  assumes "OVERSEER \<in> set named"
  shows "\<exists>front. order_roles named = front @ [OVERSEER] \<and> OVERSEER \<notin> set front"
proof -
  let ?fixed = "[PLANNER] @ ADVISORS @ [CONSULTANT]"
  have no: "OVERSEER \<notin> set ?fixed" by (simp add: PLANNER_def ADVISORS_def CONSULTANT_def OVERSEER_def)
  let ?o = "filter (\<lambda>r. r \<in> set named) ?fixed"
  let ?x = "filter (\<lambda>r. r \<notin> set (?o @ [OVERSEER])) named"
  have o: "filter (\<lambda>r. r \<in> set named) ([PLANNER] @ ADVISORS @ [CONSULTANT, OVERSEER]) = ?o @ [OVERSEER]"
    using assms by simp
  have e: "order_roles named = (if ?x = [] then ?o @ [OVERSEER]
      else filter (\<lambda>r. r \<noteq> OVERSEER) (?o @ [OVERSEER]) @ ?x @ filter (\<lambda>r. r = OVERSEER) (?o @ [OVERSEER]))"
    unfolding order_roles_def Let_def o ..
  have f: "filter (\<lambda>r. r \<noteq> OVERSEER) (?o @ [OVERSEER]) = ?o"
    using no by (auto intro!: filter_cong)
  have g: "filter (\<lambda>r. r = OVERSEER) (?o @ [OVERSEER]) = [OVERSEER]"
    using no by (simp only: filter_append) (auto simp: filter_empty_conv)
  have nx: "OVERSEER \<notin> set (?o @ ?x)" using no by auto
  show ?thesis
  proof (cases "?x = []")
    case True
    then have "order_roles named = ?o @ [OVERSEER]" unfolding e by (rule if_P)
    moreover have "OVERSEER \<notin> set ?o" using nx by simp
    ultimately show ?thesis by blast
  next
    case False
    then have "order_roles named = ?o @ ?x @ [OVERSEER]" unfolding e f g by (rule if_not_P)
    then have "order_roles named = (?o @ ?x) @ [OVERSEER]" by (simp only: append_assoc)
    with nx show ?thesis by blast
  qed
qed

lemma order_roles_planner:
  assumes "PLANNER \<in> set named"
  shows "hd (order_roles named) = PLANNER"
  using assms by (auto simp: order_roles_def Let_def PLANNER_def OVERSEER_def)

lemma merged_wake_None: "merged_wake_for tr role = None \<longleftrightarrow> (\<forall>w \<in> set (tr_wakes tr). role \<notin> set (wk_roles w))"
proof -
  have "merged_wake_for tr role = None \<longleftrightarrow> filter (\<lambda>w. role \<in> set (wk_roles w)) (tr_wakes tr) = []"
    by (auto simp: merged_wake_for_def split: list.splits)
  then show ?thesis by (simp add: filter_empty_conv)
qed

lemma thinking_between:
  assumes "update_expected_thinking_seconds pol m = Some pol'"
  shows "min (cp_thinking_seconds pol) m \<le> cp_thinking_seconds pol' \<and> cp_thinking_seconds pol' \<le> max (cp_thinking_seconds pol) m"
  using assms by (auto simp: update_expected_thinking_seconds_def THINKING_TIME_EWMA_WEIGHT_def min_def max_def
      split: if_splits)

text \<open>A quiet cycle wakes nobody, whatever the policy, while a review is not due.\<close>

lemma quiet_triage:
  assumes "cp_review_days pol > 0"
  shows "triage fmt1 quiet pol base_fps = Some \<lparr>tr_wakes = [], tr_clock = Full_Speed, tr_roles = []\<rparr>"
  using assms by (simp add: triage_def triage_wakes_def quiet_def prediction_wakes_def computable_wakes_def review_wakes_def
      lane_wakes_def order_wakes_def slow_wakes_def queue_wakes_def wake_if_def roles_named_def order_roles_def)

end
