(* ===== verification/Lanes.thy ===== *)
theory Lanes
  imports Lane_Reads Triage
begin

section \<open>Lane triggers: a role wakes on a change in its own lane\<close>

text \<open>
  \<open>conductor/lanes.py\<close>. \<open>lane_state\<close> is what survives a cycle; the lanes of the policy are an association
  list in the order of the file, their patterns predicates. An edge operation folds one poll into the state:
  a wake owed to a role is an entry of \<open>ls_pending\<close> until the role completes a run.
\<close>

subsection \<open>Policy and state\<close>

record event_rule =
  er_type :: string
  er_detail :: "(string \<Rightarrow> bool) list"

record lane_triggers =
  lt_events :: "event_rule list"
  lt_stuck_jobs :: "(string \<Rightarrow> bool) list"
  lt_alerts :: "string list"
  lt_rulings :: bool
  lt_ore :: bool
  lt_unsupplied :: bool
  lt_noble_rooms :: bool
  lt_answers :: bool

record lane_policy =
  lp_lanes :: "(string \<times> lane_triggers) list"
  lp_alert_rule :: backoff_rule
  lp_ore_rule :: backoff_rule
  lp_unsupplied_rule :: backoff_rule
  lp_noble_rule :: backoff_rule
  lp_defer_cycles :: int

record seen_mark =
  sm_asks :: "string list"
  sm_at :: int

record lane_state =
  ls_alerts :: "(string \<times> bool) list"
  ls_proposers :: "(string \<times> string) list"
  ls_pending :: "(string \<times> (string \<times> string) list) list"
  ls_ore :: "(string \<times> int) list"
  ls_ore_wakes :: "(string \<times> int) list"
  ls_alert_wakes :: "(string \<times> backoff_rec) list"
  ls_unsupplied :: "(string \<times> backoff_rec) list"
  ls_noble :: "(string \<times> backoff_rec) list"
  ls_askers :: "(string \<times> string) list"
  ls_cycles :: int
  ls_seen :: "(string \<times> seen_mark) list"

definition pending_of :: "lane_state \<Rightarrow> string \<Rightarrow> (string \<times> string) list" where
  "pending_of st role = (case map_of (ls_pending st) role of None \<Rightarrow> [] | Some es \<Rightarrow> es)"

definition add_pending :: "string \<Rightarrow> string \<Rightarrow> string \<Rightarrow> lane_state \<Rightarrow> lane_state" where
  "add_pending key msg role st = st\<lparr>ls_pending := AList.update role (AList.update key msg (pending_of st role)) (ls_pending st)\<rparr>"

definition owe :: "(lane_triggers \<Rightarrow> bool) \<Rightarrow> lane_policy \<Rightarrow> string \<Rightarrow> string \<Rightarrow> lane_state \<Rightarrow> lane_state" where
  "owe wants pol key msg st = fold (add_pending key msg) (map fst (filter (\<lambda>(_, l). wants l) (lp_lanes pol))) st"

definition drop_pending :: "string \<Rightarrow> lane_state \<Rightarrow> lane_state" where
  "drop_pending key st = st\<lparr>ls_pending := map (\<lambda>(r, es). (r, AList.delete key es)) (ls_pending st)\<rparr>"

definition clear_served :: "string \<Rightarrow> lane_state \<Rightarrow> lane_state" where
  "clear_served role st = st\<lparr>ls_pending := AList.delete role (ls_pending st)\<rparr>"

subsection \<open>Events and stuck jobs\<close>

definition event_line :: "(json \<Rightarrow> string) \<Rightarrow> lane_triggers \<Rightarrow> obj \<Rightarrow> string option" where
  "event_line pr lane ev =
     (let etype = (if truthy (getj ev ''type'') then getj ev ''type'' else getj ev ''announcement'');
          detail = (if truthy (getj ev ''detail'') then py_str pr (getj ev ''detail'') else []) in
      if list_ex (\<lambda>r. etype = JStr (er_type r) \<and> (er_detail r = [] \<or> list_ex (\<lambda>p. p detail) (er_detail r))) (lt_events lane)
      then Some (if detail \<noteq> [] then py_str pr etype @ '': '' @ detail else py_str pr etype) else None)"

definition event_matches :: "(json \<Rightarrow> string) \<Rightarrow> lane_policy \<Rightarrow> string \<Rightarrow> obj list \<Rightarrow> string list" where
  "event_matches pr pol role evs = (case map_of (lp_lanes pol) role of None \<Rightarrow> [] | Some lane \<Rightarrow> keys_by (event_line pr lane) evs)"

definition stuck_job_roles :: "lane_policy \<Rightarrow> stuck_job list \<Rightarrow> string list" where
  "stuck_job_roles pol due = map fst (filter (\<lambda>(_, lane).
     list_ex (\<lambda>j. list_ex (\<lambda>p. p (sj_key j @ '' '' @ sj_line j)) (lt_stuck_jobs lane)) due) (lp_lanes pol))"

subsection \<open>Alerts\<close>

definition alert_key :: "string \<Rightarrow> string" where "alert_key name = ''alert:'' @ name"

definition wants_alert :: "string \<Rightarrow> lane_triggers \<Rightarrow> bool" where
  "wants_alert name lane = (name \<in> set (lt_alerts lane) \<or> ''*'' \<in> set (lt_alerts lane))"

definition alert_edge :: "lane_policy \<Rightarrow> (string \<times> string) list \<Rightarrow> int option \<Rightarrow> string \<Rightarrow> bool \<Rightarrow> lane_state \<Rightarrow> lane_state" where
  "alert_edge pol lines tick name crossed st =
     (let was = (map_of (ls_alerts st) name = Some True);
          st1 = st\<lparr>ls_alerts := AList.update name crossed (ls_alerts st)\<rparr>;
          put = (\<lambda>r s. s\<lparr>ls_alert_wakes := AList.update name r (ls_alert_wakes s)\<rparr>);
          msg = (case map_of lines name of Some l \<Rightarrow> if l \<noteq> [] then l else name | None \<Rightarrow> name);
          wake = owe (wants_alert name) pol (alert_key name) msg in
      if \<not> crossed then drop_pending (alert_key name) (st1\<lparr>ls_alert_wakes := AList.delete name (ls_alert_wakes st1)\<rparr>)
      else if \<not> was then
        wake (case tick of Some t \<Rightarrow> put (fst (advance None t (lp_alert_rule pol))) st1 | None \<Rightarrow> st1)
      else (case tick of
          None \<Rightarrow> st1
        | Some t \<Rightarrow> (case advance (map_of (ls_alert_wakes st1) name) t (lp_alert_rule pol) of (r, due, _) \<Rightarrow>
            if due then wake (put r st1) else put r st1)))"

definition apply_alert_edges :: "lane_policy \<Rightarrow> (string \<times> bool option) list \<Rightarrow> (string \<times> string) list \<Rightarrow> int option
    \<Rightarrow> lane_state \<Rightarrow> lane_state" where
  "apply_alert_edges pol crossed lines tick st = fold (\<lambda>(name, now) s. case now of
     None \<Rightarrow> s | Some b \<Rightarrow> alert_edge pol lines tick name b s) crossed st"

subsection \<open>Ore, unsupplied buildings, noble rooms\<close>

definition now_of :: "int option \<Rightarrow> int" where
  "now_of tick = (case tick of Some t \<Rightarrow> t | None \<Rightarrow> 0)"

definition key_prefix :: "string \<Rightarrow> string" where
  "key_prefix k = takeWhile (\<lambda>c. c \<noteq> CHR '':'') k"

definition ore_record :: "backoff_rule \<Rightarrow> lane_state \<Rightarrow> string \<Rightarrow> backoff_rec option" where
  "ore_record rule st k = (case map_of (ls_ore st) k of
      None \<Rightarrow> None
    | Some t \<Rightarrow> (let w = (case map_of (ls_ore_wakes st) k of Some n \<Rightarrow> n | None \<Rightarrow> 1) in
        Some \<lparr>br_first = Some t, br_last = t, br_wakes = w, br_stalled = (w \<ge> bo_max rule)\<rparr>))"

definition ore_edge :: "lane_policy \<Rightarrow> int \<Rightarrow> ore_exposure \<Rightarrow> lane_state \<Rightarrow> lane_state" where
  "ore_edge pol now x st =
     (case advance (ore_record (lp_ore_rule pol) st (ore_key x)) now (lp_ore_rule pol) of (r, due, _) \<Rightarrow>
        if due then owe lt_ore pol (''ore:'' @ ore_key x) (ox_line x)
          (st\<lparr>ls_ore := AList.update (ore_key x) now (ls_ore st), ls_ore_wakes := AList.update (ore_key x) (br_wakes r) (ls_ore_wakes st)\<rparr>)
        else st)"

definition forget_ore :: "string \<Rightarrow> lane_state \<Rightarrow> lane_state" where
  "forget_ore k st = drop_pending (''ore:'' @ k) (st\<lparr>ls_ore := AList.delete k (ls_ore st), ls_ore_wakes := AList.delete k (ls_ore_wakes st)\<rparr>)"

definition apply_ore_edges :: "lane_policy \<Rightarrow> ore_read option \<Rightarrow> int option \<Rightarrow> lane_state \<Rightarrow> lane_state" where
  "apply_ore_edges pol rd tick st = (case rd of None \<Rightarrow> st | Some r \<Rightarrow>
     let st1 = fold (ore_edge pol (now_of tick)) (or_exposures r) st;
         gone = filter (\<lambda>k. k \<notin> set (map ore_key (or_exposures r)) \<and> key_prefix k \<notin> set (or_unreadable r)) (map fst (ls_ore st1)) in
     fold forget_ore gone st1)"

text \<open>A record whose first sighting is in the future is a reloaded save: the fact starts over.\<close>

definition prior_of :: "int \<Rightarrow> backoff_rec option \<Rightarrow> backoff_rec option" where
  "prior_of now r = (case r of Some x \<Rightarrow> if (case br_first x of Some f \<Rightarrow> f > now | None \<Rightarrow> False) then None else Some x | None \<Rightarrow> None)"

definition advance_prior :: "backoff_rule \<Rightarrow> int \<Rightarrow> backoff_rec option \<Rightarrow> backoff_rec \<times> bool" where
  "advance_prior rule now prior = (case advance prior now rule of (r, due, _) \<Rightarrow>
     (if prior = None then r\<lparr>br_first := Some now\<rparr> else r, due))"

definition first_of :: "backoff_rec \<Rightarrow> int" where
  "first_of r = (case br_first r of Some f \<Rightarrow> f | None \<Rightarrow> 0)"

definition unsupplied_edge :: "lane_policy \<Rightarrow> int \<Rightarrow> unsupplied_item \<Rightarrow> lane_state \<Rightarrow> lane_state" where
  "unsupplied_edge pol now u st =
     (case advance_prior (lp_unsupplied_rule pol) now (prior_of now (map_of (ls_unsupplied st) (ui_item u))) of (r, due) \<Rightarrow>
        let st1 = st\<lparr>ls_unsupplied := AList.update (ui_item u) r (ls_unsupplied st)\<rparr> in
        if due then owe lt_unsupplied pol (''unsupplied:'' @ ui_item u) (unsupplied_line u (now - first_of r)) st1 else st1)"

definition forget_unsupplied :: "string \<Rightarrow> lane_state \<Rightarrow> lane_state" where
  "forget_unsupplied k st = drop_pending (''unsupplied:'' @ k) (st\<lparr>ls_unsupplied := AList.delete k (ls_unsupplied st)\<rparr>)"

definition apply_unsupplied_edges :: "lane_policy \<Rightarrow> unsupplied_read option \<Rightarrow> int option \<Rightarrow> lane_state \<Rightarrow> lane_state" where
  "apply_unsupplied_edges pol rd tick st = (case rd of None \<Rightarrow> st | Some r \<Rightarrow>
     let st1 = fold (unsupplied_edge pol (now_of tick)) (ur_items r) st;
         gone = filter (\<lambda>k. k \<notin> set (map ui_item (ur_items r)) \<and> k \<notin> set (ur_unreadable r)) (map fst (ls_unsupplied st1)) in
     fold forget_unsupplied gone st1)"

definition noble_edge :: "lane_policy \<Rightarrow> int list \<Rightarrow> int \<Rightarrow> noble_item \<Rightarrow> lane_state \<Rightarrow> lane_state" where
  "noble_edge pol covered now i st =
     (let prior = prior_of now (map_of (ls_noble st) (noble_key i));
          put = (\<lambda>r s. s\<lparr>ls_noble := AList.update (noble_key i) r (ls_noble s)\<rparr>) in
      if ni_unit i \<in> set covered then
        drop_pending (''noble_room:'' @ noble_key i) (case prior of Some r \<Rightarrow> put r st | None \<Rightarrow> st)
      else (case advance_prior (lp_noble_rule pol) now prior of (r, due) \<Rightarrow>
        if due then owe lt_noble_rooms pol (''noble_room:'' @ noble_key i) (noble_line i) (put r st) else put r st))"

definition forget_noble :: "string \<Rightarrow> lane_state \<Rightarrow> lane_state" where
  "forget_noble k st = drop_pending (''noble_room:'' @ k) (st\<lparr>ls_noble := AList.delete k (ls_noble st)\<rparr>)"

definition apply_noble_room_edges :: "lane_policy \<Rightarrow> noble_read option \<Rightarrow> int option \<Rightarrow> lane_state \<Rightarrow> lane_state" where
  "apply_noble_room_edges pol rd tick st = (case rd of None \<Rightarrow> st | Some r \<Rightarrow>
     let st1 = fold (noble_edge pol (nr_covered r) (now_of tick)) (nr_items r) st;
         gone = filter (\<lambda>k. k \<notin> set (map noble_key (nr_items r)) \<and> k \<notin> set (nr_unreadable r) \<and> key_prefix k \<notin> set (nr_bad_codes r))
           (map fst (ls_noble st1)) in
     fold forget_noble gone st1)"

subsection \<open>The Overseer and deferred proposals\<close>

definition OVERSEER_BRIEF_CAP :: nat where "OVERSEER_BRIEF_CAP = 8"

definition defer_changed :: "lane_policy \<Rightarrow> lane_state \<Rightarrow> seen_mark \<Rightarrow> string list \<Rightarrow> string option" where
  "defer_changed pol st mark open_asks =
     (let answered = filter (\<lambda>a. a \<notin> set open_asks) (sm_asks mark) in
      if answered \<noteq> [] then Some (''ask '' @ join '', '' answered @ '' answered since the defer'')
      else if ls_cycles st - sm_at mark \<ge> lp_defer_cycles pol then Some (dec_int (lp_defer_cycles pol) @ '' cycles since the defer'')
      else None)"

definition is_fresh :: "lane_policy \<Rightarrow> lane_state \<Rightarrow> string list \<Rightarrow> string \<Rightarrow> bool" where
  "is_fresh pol st open_asks pid = (case map_of (ls_seen st) pid of None \<Rightarrow> True | Some m \<Rightarrow> defer_changed pol st m open_asks \<noteq> None)"

definition split_pending_for_overseer :: "lane_policy \<Rightarrow> lane_state \<Rightarrow> string list \<Rightarrow> string list \<Rightarrow> string list \<times> (string \<times> string) list" where
  "split_pending_for_overseer pol st pending open_asks =
     (filter (is_fresh pol st open_asks) pending,
      map (\<lambda>p. (p, ''already deferred, nothing changed'')) (filter (\<lambda>p. \<not> is_fresh pol st open_asks p) pending))"

definition record_overseer_seen :: "string list \<Rightarrow> string list \<Rightarrow> lane_state \<Rightarrow> lane_state" where
  "record_overseer_seen pending open_asks st =
     (let marked = fold (\<lambda>p. AList.update p \<lparr>sm_asks = open_asks, sm_at = ls_cycles st\<rparr>) (take OVERSEER_BRIEF_CAP pending) (ls_seen st) in
      st\<lparr>ls_seen := filter (\<lambda>(p, _). p \<in> set pending) marked\<rparr>)"

subsection \<open>Rulings and answers\<close>

text \<open>The author of each new id: the one the queue recorded, or the role whose run is finishing.\<close>

definition author_of :: "(string \<times> json) list option \<Rightarrow> string \<Rightarrow> string \<Rightarrow> string option" where
  "author_of authors role i = (case (case authors of Some m \<Rightarrow> getj m i | None \<Rightarrow> JStr role) of
      JStr a \<Rightarrow> if a \<noteq> [] then Some a else None | _ \<Rightarrow> None)"

definition learn :: "(string \<times> json) list option \<Rightarrow> string \<Rightarrow> string list \<Rightarrow> string list \<Rightarrow> (string \<times> string) list \<Rightarrow> (string \<times> string) list" where
  "learn authors role known ids m = fold (\<lambda>i m. case author_of authors role i of Some a \<Rightarrow> AList.update i a m | None \<Rightarrow> m)
     (sort (remdups (filter (\<lambda>i. i \<notin> set known) ids))) m"

definition attribute_new_proposals :: "string \<Rightarrow> string list \<Rightarrow> string list \<Rightarrow> (string \<times> json) list option \<Rightarrow> lane_state \<Rightarrow> lane_state \<times> string list" where
  "attribute_new_proposals role known ids authors st =
     (st\<lparr>ls_proposers := learn authors role known ids (ls_proposers st)\<rparr>, remdups (known @ ids))"

definition attribute_new_asks :: "string \<Rightarrow> string list \<Rightarrow> string list \<Rightarrow> (string \<times> json) list option \<Rightarrow> lane_state \<Rightarrow> lane_state \<times> string list" where
  "attribute_new_asks role known ids authors st =
     (st\<lparr>ls_askers := learn authors role known ids (ls_askers st)\<rparr>, remdups (known @ ids))"

definition lane_wants :: "lane_policy \<Rightarrow> (lane_triggers \<Rightarrow> bool) \<Rightarrow> string \<Rightarrow> bool" where
  "lane_wants pol wants role = (case map_of (lp_lanes pol) role of Some l \<Rightarrow> wants l | None \<Rightarrow> False)"

definition apply_answers :: "lane_policy \<Rightarrow> string list \<Rightarrow> lane_state \<Rightarrow> lane_state" where
  "apply_answers pol open_asks st =
     (let gone = filter (\<lambda>(a, _). a \<notin> set open_asks) (ls_askers st) in
      fold (\<lambda>(a, role) s. if lane_wants pol lt_answers role then add_pending (''answer:'' @ a) (a @ '' was answered'') role s else s)
        gone (st\<lparr>ls_askers := filter (\<lambda>(a, _). a \<in> set open_asks) (ls_askers st)\<rparr>))"

definition apply_rulings :: "lane_policy \<Rightarrow> string list \<Rightarrow> lane_state \<Rightarrow> lane_state" where
  "apply_rulings pol pending st =
     (let gone = filter (\<lambda>(p, _). p \<notin> set pending) (ls_proposers st) in
      fold (\<lambda>(p, role) s. if lane_wants pol lt_rulings role then add_pending (''ruling:'' @ p) (p @ '' was ruled on'') role s else s)
        gone (st\<lparr>ls_proposers := filter (\<lambda>(p, _). p \<in> set pending) (ls_proposers st)\<rparr>))"

subsection \<open>The wakes owed\<close>

definition LANE_PREFIXES :: "(string \<times> string) list" where
  "LANE_PREFIXES = [(''alert:'', ''alert_crossed''), (''ruling:'', ''ruling_on_own''), (''ore:'', ''ore_exposed''),
     (''unsupplied:'', ''unsupplied_building''), (''noble_room:'', ''noble_room_unmet''), (''answer:'', ''answer_ready''),
     (''step_done:'', ''step_done''), (''step_attention:'', ''step_attention''), (''project_idle:'', ''project_idle'')]"

definition role_wakes :: "(json \<Rightarrow> string) \<Rightarrow> lane_policy \<Rightarrow> lane_state \<Rightarrow> (string \<times> obj list) list \<Rightarrow> string \<Rightarrow> lane_wake list" where
  "role_wakes pr pol st events role =
     (let lines = event_matches pr pol role (case map_of events role of Some es \<Rightarrow> es | None \<Rightarrow> []);
          owed = sort_key fst (pending_of st role) in
      (case lines of [] \<Rightarrow> []
        | l # ls \<Rightarrow> [\<lparr>lw_reason = ''lane_event'', lw_detail = l @ (if ls \<noteq> [] then '' (and '' @ dec (length ls) @ '' more)'' else []),
            lw_roles = [role]\<rparr>])
      @ keys_by (\<lambda>(prefix, reason).
          let details = map snd (filter (\<lambda>(k, _). starts_with k prefix) owed) in
          if details = [] then None else Some \<lparr>lw_reason = reason, lw_detail = join ''; '' details, lw_roles = [role]\<rparr>) LANE_PREFIXES)"

definition lane_wakes_of :: "(json \<Rightarrow> string) \<Rightarrow> lane_policy \<Rightarrow> lane_state \<Rightarrow> (string \<times> obj list) list \<Rightarrow> lane_wake list" where
  "lane_wakes_of pr pol st events = concat (map (role_wakes pr pol st events) (map fst (lp_lanes pol)))"

end
