(* ===== verification/Cycle.thy ===== *)
theory Cycle
  imports Pause Execute Lanes
begin

section \<open>The paused cycles of the conductor\<close>

text \<open>
  \<open>conductor/cycle.py\<close>: the helpers of a cycle and the two cycles that run while the fort is paused, after a
  tripwire latch and on a pause nothing explains. A cycle works on the files the conductor keeps (the watchdog's
  state, the repeat counter, the cursors, the execute and lane state) and on a trace of everything it did: tool
  calls, sleeps, runs of roles. The tools and the role runner are functions of that trace, so what a tool answers
  may depend on what a role did. A file that cannot be read is \<open>None\<close>. The texts a role is briefed with, the
  archive and the log of clock writes are not represented.
\<close>

subsection \<open>Reads of the queue overview\<close>

definition ALL_ROLES :: "string list" where "ALL_ROLES = ADVISORS @ [CONSULTANT, OVERSEER]"

text \<open>\<open>queue_state.get("asks") or {}\<close>, and the addressees of \<open>asks.to\<close>.\<close>

definition asks_of :: "obj \<Rightarrow> obj" where "asks_of q = fields_of (getj q ''asks'')"

definition open_ask_addressees :: "obj \<Rightarrow> string list" where
  "open_ask_addressees q =
     (if getj (asks_of q) ''to'' = JNull
      then (if has (asks_of q) ''count'' \<and> truthy (getj (asks_of q) ''count'') then [CONSULTANT] else [])
      else map fst (filter (\<lambda>(_, ids). truthy ids) (fields_of (getj (asks_of q) ''to''))))"

definition runnable_ask_addressees :: "obj \<Rightarrow> string list" where
  "runnable_ask_addressees q =
     filter (\<lambda>r. r \<noteq> CONSULTANT \<and> r \<in> set ALL_ROLES \<and> r \<noteq> OVERSEER) (open_ask_addressees q)"

definition empty_summary :: json where "empty_summary = JObj [(''count'', JInt 0)]"

definition queue_summary_for :: "string \<Rightarrow> obj \<Rightarrow> json" where
  "queue_summary_for role q =
     (let asks = (if truthy (getj q ''asks'') then getj q ''asks'' else empty_summary);
          to = getj (fields_of asks) ''to'' in
      if role = CONSULTANT \<or> has (fields_of to) role then
        (if to = JNull then (if role = CONSULTANT then asks else empty_summary)
         else (let ids = items_of (getj (fields_of to) role) in
           JObj [(''count'', JInt (int (length ids))), (''ask_ids'', JArr ids)]))
      else if truthy (getj q ''proposals'') then getj q ''proposals'' else empty_summary)"

text \<open>Who a missed prediction wakes: its proposer; the rows of an older server name none.\<close>

definition misses_of :: "obj \<Rightarrow> obj list" where
  "misses_of g = filter (\<lambda>r. getj r ''status'' = JStr ''graded_false'')
     (map fields_of (filter is_obj (items_of (or_empty (getj g ''graded'')))))"

definition miss_proposers :: "string list \<Rightarrow> bool \<Rightarrow> obj \<Rightarrow> string list" where
  "miss_proposers fallback plan_enabled g =
     (if misses_of g = [] then []
      else if list_ex (\<lambda>r. \<not> has r ''proposer'') (misses_of g) then fallback
      else let runnable = ADVISORS @ (if plan_enabled then [PLANNER] else []) in
        fold (\<lambda>r roles. if is_str (getj r ''proposer'') \<and> str_of (getj r ''proposer'') \<in> set runnable
                 \<and> str_of (getj r ''proposer'') \<notin> set roles
            then roles @ [str_of (getj r ''proposer'')] else roles) (misses_of g) [])"

definition vital_nearing :: "obj \<Rightarrow> bool" where
  "vital_nearing v = (getj v ''worst_hunger_status'' \<in> {JStr ''hungry'', JStr ''thirsty''} \<or>
     getj v ''worst_thirst_status'' \<in> {JStr ''hungry'', JStr ''thirsty''})"

definition game_days_since :: "cursors \<Rightarrow> int option \<Rightarrow> int \<Rightarrow> rat" where
  "game_days_since cur tick interval = (case tick of
      None \<Rightarrow> 0
    | Some t \<Rightarrow> let l = cur_get cur ''__routine_review__'' in
        if l = 0 then of_int interval else max 0 (of_int (t - l)) / 1200)"

text \<open>The slow-tier announcements of all drains, once each: a later drain of the same one replaces the earlier in its
  place.\<close>

definition slow_events :: "(string \<times> obj list) list \<Rightarrow> ((json \<times> json) \<times> obj) list" where
  "slow_events drained = fold (\<lambda>e seen. AList.update (getj e ''announcement_type'', getj e ''tick'') e seen)
     (filter (\<lambda>e. getj e ''type'' = JStr ''announcement_slow'') (concat (map snd drained))) []"

definition slow_roles :: "obj list \<Rightarrow> string list" where
  "slow_roles es = filter (\<lambda>r. list_ex (\<lambda>e. JStr r \<in> set (items_of (getj e ''wake''))) es) ALL_ROLES"

text \<open>\<open>max(..., key=...)\<close>: the first of the largest.\<close>

fun first_max :: "('a \<Rightarrow> int) \<Rightarrow> 'a \<Rightarrow> 'a list \<Rightarrow> 'a" where
  "first_max f b [] = b"
| "first_max f b (x # xs) = first_max f (if f b < f x then x else b) xs"

definition classify_slow_announcements :: "(json \<Rightarrow> string) \<Rightarrow> (string \<times> obj list) list \<Rightarrow> bool \<times> string list \<times> string" where
  "classify_slow_announcements pr drained = (case map snd (slow_events drained) of
      [] \<Rightarrow> (False, [], [])
    | e # es \<Rightarrow>
        let late = first_max (\<lambda>x. int_of (getj x ''tick'')) e es in
        (True, slow_roles (e # es),
         dec (Suc (length es)) @ '' slow-tier announcement(s), most recent '' @ py_str pr (getj late ''announcement_type'') @
         '' at tick '' @ py_str pr (getj late ''tick'') @
         (if truthy (getj late ''detail'') then '': '' @ py_str pr (getj late ''detail'') else [])))"

subsection \<open>Runs of roles\<close>

record role_run =
  rr_ok :: bool
  rr_timed_out :: bool
  rr_status :: string
  rr_tools :: "string list"
  rr_duration :: json
  rr_cost :: json
  rr_error :: json
  rr_answer :: json
  rr_thinking :: json
  rr_transcript :: string

text \<open>\<open>tool_id.replace(".", "__")\<close>.\<close>

definition tool_name :: "string \<Rightarrow> string" where
  "tool_name tid = concat (map (\<lambda>c. if c = CHR ''.'' then ''__'' else [c]) tid)"

definition ESCALATE_TOOL_ID :: string where "ESCALATE_TOOL_ID = ''queue.escalate''"
definition REPORT_TOOL_ID :: string where "REPORT_TOOL_ID = ''conductor.report''"
definition ORE_POLL_TOOL :: string where "ORE_POLL_TOOL = ''blueprint.sites''"
definition UNEXPLAINED_PAUSE :: string where "UNEXPLAINED_PAUSE = ''unexplained_pause''"

definition overseer_called_escalate :: "role_run \<Rightarrow> bool" where
  "overseer_called_escalate r = (tool_name ESCALATE_TOOL_ID \<in> set (rr_tools r))"

record trip_state =
  ts_episodes :: "episode list"
  ts_escalated :: "episode option"

record cycle =
  cy_trace :: "world_event list"
  cy_watch :: watch_state
  cy_trip :: "trip_state option"
  cy_cursors :: cursors
  cy_exec :: "exec_state option"
  cy_lanes :: "lane_state option"

record cycle_deps =
  cd_world :: world
  cd_runner :: "world_event list \<Rightarrow> string \<Rightarrow> wake \<Rightarrow> role_run"
  cd_clock :: "world_event list \<Rightarrow> rat"
  cd_pr :: "json \<Rightarrow> string"
  cd_pause :: pause_policy
  cd_owners :: "(string \<times> string list) list"
  cd_repeat_window :: int
  cd_repeat_limit :: int
  cd_exec :: exec_policy
  cd_lane :: lane_policy
  cd_fallback :: "string list"
  cd_index :: int
  cd_dry :: bool

definition call_cy :: "cycle_deps \<Rightarrow> string \<Rightarrow> obj \<Rightarrow> cycle \<Rightarrow> json option \<times> cycle" where
  "call_cy d name args cy = (cd_world d (cy_trace cy) name args, cy\<lparr>cy_trace := cy_trace cy @ [Called name args]\<rparr>)"

text \<open>A write whose refusal the cycle only logs.\<close>

definition call_write :: "cycle_deps \<Rightarrow> string \<Rightarrow> obj \<Rightarrow> cycle \<Rightarrow> cycle" where
  "call_write d name args cy = snd (call_cy d name args cy)"

definition commit_cursor :: "cycle_deps \<Rightarrow> (string \<times> int) list \<Rightarrow> string \<Rightarrow> cycle \<Rightarrow> cycle" where
  "commit_cursor d new_cursors role cy = (case map_of new_cursors role of
      Some c \<Rightarrow> if cd_dry d then cy else cy\<lparr>cy_cursors := cur_set role c (cy_cursors cy)\<rparr>
    | None \<Rightarrow> cy)"

definition wake_fields :: "cycle_deps \<Rightarrow> string \<Rightarrow> wake \<Rightarrow> string list \<Rightarrow> obj" where
  "wake_fields d role wk reasons = [(''role'', JStr role), (''wake_reason'', JStr (wk_reason wk)),
     (''wake_reasons'', JArr (map JStr reasons)), (''wake_detail'', JStr (wk_detail wk)), (''cycle'', JInt (cd_index d))]"

definition end_fields :: "role_run \<Rightarrow> obj" where
  "end_fields r = [(''phase'', JStr ''end''), (''status'', JStr (rr_status r)), (''ok'', JBool (rr_ok r)),
     (''timed_out'', JBool (rr_timed_out r)), (''duration_s'', rr_duration r), (''cost_usd'', rr_cost r),
     (''error'', rr_error r), (''final_answer'', rr_answer r)] @
     (if truthy (rr_thinking r) then [(''thinking'', rr_thinking r)] else []) @
     (if rr_transcript r \<noteq> [] then [(''transcript'', JStr (rr_transcript r))] else [])"

definition report_run :: "cycle_deps \<Rightarrow> obj \<Rightarrow> cycle \<Rightarrow> obj option \<times> cycle" where
  "report_run d args cy = (case call_cy d REPORT_TOOL_ID args cy of
     (res, cy1) \<Rightarrow> (case res of Some (JObj r) \<Rightarrow> Some r | _ \<Rightarrow> None, cy1))"

text \<open>A run between its two reports. \<open>reasons\<close> are the further wake reasons of the role.\<close>

definition run_role :: "cycle_deps \<Rightarrow> string \<Rightarrow> wake \<Rightarrow> string list \<Rightarrow> cycle \<Rightarrow> role_run \<times> cycle" where
  "run_role d role wk reasons cy =
     (let rs = wk_reason wk # filter (\<lambda>r. r \<noteq> wk_reason wk) (rev (remdups (rev reasons)));
          (started, cy1) = report_run d ((''phase'', JStr ''start'') # wake_fields d role wk rs) cy;
          run_id = getj (case started of None \<Rightarrow> [] | Some r \<Rightarrow> r) ''run_id'';
          r = cd_runner d (cy_trace cy1) role wk;
          cy2 = cy1\<lparr>cy_trace := cy_trace cy1 @ [Ran role]\<rparr>;
          (_, cy3) = report_run d (end_fields r @ (if truthy run_id then [(''run_id'', run_id)] else wake_fields d role wk rs)) cy2 in
      (r, cy3))"

subsection \<open>The execute phase of a cycle\<close>

text \<open>The pass of \<open>Execute\<close> runs in the world of the cycle; its quicksave is the cycle's logged write, which never
  raises.\<close>

definition phase_event :: "phase_call \<Rightarrow> world_event" where
  "phase_event c = (if fst c = ''quicksave'' then Called ''fort.quicksave'' [] else Called (fst c) (snd c))"

definition exec_env_of :: "cycle_deps \<Rightarrow> int option \<Rightarrow> ore_read option \<Rightarrow> bool \<Rightarrow> world_event list \<Rightarrow> exec_env" where
  "exec_env_of d tick ore latched tr = \<lparr>ee_answer = (\<lambda>calls c. if fst c = ''quicksave'' then Some JNull
        else cd_world d (tr @ map phase_event calls) (fst c) (snd c)),
     ee_pr = cd_pr d, ee_pol = cd_exec d, ee_tick = tick, ee_ore = ore, ee_quicksave = True,
     ee_fallback = cd_fallback d, ee_latched = latched\<rparr>"

definition send_pending :: "exec_wake list \<Rightarrow> lane_state \<Rightarrow> lane_state" where
  "send_pending ws st = fold (\<lambda>x. add_pending (ew_key x) (ew_text x) (ew_role x)) ws st"

text \<open>Why the phase did not run, or the pass it made.\<close>

definition execute_phase :: "cycle_deps \<Rightarrow> int option \<Rightarrow> hold_state \<Rightarrow> bool \<Rightarrow> ore_read option \<Rightarrow> lane_state \<Rightarrow> bool \<Rightarrow> cycle
    \<Rightarrow> (string + phase) \<times> cycle" where
  "execute_phase d tick hold escalated ore lanes latched cy =
     (if escalated then (Inl ''an escalation this cycle'', cy)
      else if hs_held hold \<and> \<not> hs_allow_execution hold then (Inl ''operator hold'', cy)
      else case cy_exec cy of None \<Rightarrow> (Inl ''execute state unreadable'', cy)
      | Some st \<Rightarrow> (case run_execute (exec_env_of d tick ore latched (cy_trace cy)) st of (did, ph) \<Rightarrow>
          (let cy1 = cy\<lparr>cy_trace := cy_trace cy @ map phase_event (ph_calls ph)\<rparr> in
           if \<not> did then (Inl ''queue.execution_state could not be read'', cy1)
           else (Inr ph, cy1\<lparr>cy_exec := Some (ph_st ph),
               cy_lanes := (if ph_wakes ph \<noteq> [] \<and> lp_lanes (cd_lane d) \<noteq> []
                 then Some (send_pending (ph_wakes ph) lanes) else cy_lanes cy)\<rparr>))))"

definition watch_ore :: "cycle_deps \<Rightarrow> cycle \<Rightarrow> ore_read option \<times> cycle" where
  "watch_ore d cy = (if \<not> list_ex (\<lambda>l. lt_ore (snd l)) (lp_lanes (cd_lane d)) then (None, cy)
     else case call_cy d ORE_POLL_TOOL [] cy of
       (res, cy1) \<Rightarrow> (case res of None \<Rightarrow> None | Some v \<Rightarrow> ore_read_from_sites (cd_pr d) v, cy1))"

subsection \<open>The watchdog inside a cycle\<close>

definition raise_human :: "cycle_deps \<Rightarrow> string \<Rightarrow> cycle \<Rightarrow> watch_outcome \<times> cycle" where
  "raise_human d reason cy =
     (let p = raise_alert (cd_clock d (cy_trace cy)) reason
          \<lparr>wp_st = cy_watch cy, wp_out = new_outcome V_ALERT reason True False, wp_trace = cy_trace cy\<rparr> in
      (wp_out p, cy\<lparr>cy_watch := wp_st p\<rparr>))"

definition watch_in_cycle :: "cycle_deps \<Rightarrow> obj \<Rightarrow> hold_state \<Rightarrow> cycle \<Rightarrow> watch_outcome \<times> cycle" where
  "watch_in_cycle d status hold cy =
     (case run_pause_watch (cd_pr d) (cd_world d) (cd_pause d) status (cd_clock d (cy_trace cy)) (cd_dry d) (hs_held hold)
        (cy_trace cy) (cy_watch cy) of
        (st, out, tr) \<Rightarrow> (out, cy\<lparr>cy_watch := st, cy_trace := tr\<rparr>))"

definition finish_in_cycle :: "cycle_deps \<Rightarrow> bool \<Rightarrow> obj \<Rightarrow> pause_verdict option \<Rightarrow> hold_state \<Rightarrow> string \<Rightarrow> cycle \<Rightarrow> watch_outcome \<times> cycle" where
  "finish_in_cycle d escalated status verdict hold what cy =
     (case finish_after_overseer (cd_pr d) (cd_world d) (cd_pause d) escalated status (cd_clock d (cy_trace cy)) verdict
        (hs_held hold) what (cy_trace cy) (cy_watch cy) of
        (st, out, tr) \<Rightarrow> (out, cy\<lparr>cy_watch := st, cy_trace := tr\<rparr>))"

definition as_pass :: "cycle \<Rightarrow> watch_pass" where
  "as_pass cy = \<lparr>wp_st = cy_watch cy, wp_out = new_outcome V_IDLE [] False False, wp_trace = cy_trace cy\<rparr>"

definition baseline_in_cycle :: "cycle_deps \<Rightarrow> cycle \<Rightarrow> int option \<times> cycle" where
  "baseline_in_cycle d cy = (case read_verdict_baseline (cd_world d) (as_pass cy) of
     (b, p) \<Rightarrow> (b, cy\<lparr>cy_trace := wp_trace p\<rparr>))"

definition verdict_in_cycle :: "cycle_deps \<Rightarrow> int option \<Rightarrow> cycle \<Rightarrow> pause_verdict option \<times> cycle" where
  "verdict_in_cycle d b cy = (case read_verdict_after (cd_pr d) (cd_world d) b (as_pass cy) of
     (v, p) \<Rightarrow> (v, cy\<lparr>cy_trace := wp_trace p\<rparr>))"

record cycle_result =
  cr_clock :: clock_level
  cr_roles :: "string list"
  cr_runs :: "(string \<times> role_run) list"
  cr_escalated :: bool
  cr_watch :: "watch_outcome option"
  cr_execute :: "(string + phase) option"

definition unclean :: "role_run \<Rightarrow> bool" where
  "unclean r = (\<not> rr_ok r \<or> rr_timed_out r)"

subsection \<open>A cycle on an unexplained pause\<close>

text \<open>\<open>_paused_cycle_result\<close>: when the watchdog asks for the Overseer, it runs once and its verdict decides.\<close>

definition merge_finish :: "watch_outcome \<Rightarrow> watch_outcome \<Rightarrow> watch_outcome" where
  "merge_finish out fin = out\<lparr>wo_actions := wo_actions out @ wo_actions fin, wo_alerts := wo_alerts out @ wo_alerts fin,
     wo_resumed := wo_resumed fin, wo_still_paused := wo_still_paused fin, wo_alert := wo_alert fin, wo_waiting := False,
     wo_verdict := (if wo_verdict fin \<in> {V_ALERT, V_HELD} then wo_verdict fin else wo_verdict out)\<rparr>"

definition commit_others :: "cycle_deps \<Rightarrow> (string \<times> int) list \<Rightarrow> string list \<Rightarrow> cycle \<Rightarrow> cycle" where
  "commit_others d new_cursors keep cy = fold (commit_cursor d new_cursors) (filter (\<lambda>r. r \<notin> set keep) ALL_ROLES) cy"

definition judged_pause :: "cycle_deps \<Rightarrow> (string \<times> int) list \<Rightarrow> obj \<Rightarrow> hold_state \<Rightarrow> string \<Rightarrow> cycle
    \<Rightarrow> role_run \<times> bool \<times> watch_outcome \<times> cycle" where
  "judged_pause d new_cursors status hold detail cy =
     (let wk = \<lparr>wk_reason = UNEXPLAINED_PAUSE, wk_detail = detail, wk_roles = [OVERSEER], wk_clock = Paused\<rparr>;
          cy1 = call_write d ''fort.quicksave'' [] (commit_others d new_cursors [OVERSEER] cy);
          (baseline, cy2) = baseline_in_cycle d cy1;
          (r, cy3) = run_role d OVERSEER wk [] cy2;
          cy4 = (if rr_ok r then commit_cursor d new_cursors OVERSEER cy3 else cy3);
          escalated = (overseer_called_escalate r \<or> unclean r);
          (verdict, cy5) = (if escalated then (None, cy4) else verdict_in_cycle d baseline cy4);
          (fin, cy6) = finish_in_cycle d escalated status verdict hold ''an unexplained pause'' cy5 in
      (r, escalated, fin, cy6))"

definition level_of :: "watch_outcome \<Rightarrow> clock_level" where
  "level_of out = (if wo_still_paused out then Paused else Full_Speed)"

definition paused_cycle :: "cycle_deps \<Rightarrow> (string \<times> int) list \<Rightarrow> obj \<Rightarrow> hold_state \<Rightarrow> watch_outcome \<Rightarrow> cycle \<Rightarrow> cycle_result \<times> cycle" where
  "paused_cycle d new_cursors status hold out cy =
     (case (wo_verdict out = V_WAKE_OVERSEER \<and> \<not> cd_dry d, wo_wake_detail out) of
        (True, Some (c # cs)) \<Rightarrow>
          (case judged_pause d new_cursors status hold (c # cs) cy of (r, escalated, fin, cy1) \<Rightarrow>
            (let out1 = merge_finish out fin in
             (\<lparr>cr_clock = level_of out1, cr_roles = [OVERSEER], cr_runs = [(OVERSEER, r)], cr_escalated = escalated,
               cr_watch = Some out1, cr_execute = None\<rparr>, cy1)))
      | _ \<Rightarrow> (\<lparr>cr_clock = level_of out, cr_roles = [], cr_runs = [], cr_escalated = False, cr_watch = Some out,
               cr_execute = None\<rparr>, cy))"

subsection \<open>A cycle with a latched tripwire\<close>

definition owner_roles :: "string list" where
  "owner_roles = [''architect'', ''quartermaster'', ''consultant'', ''overseer'', ''planner'']"

text \<open>The policy's owners of a cause: the Overseer is left out, a name is kept once.\<close>

definition owners_entry :: "string \<times> json \<Rightarrow> (string \<times> string list) option" where
  "owners_entry e = (case snd e of
      JArr roles \<Rightarrow> if list_ex (\<lambda>r. \<not> is_str r \<or> str_of r \<notin> set owner_roles) roles then None
        else Some (fst e, rev (remdups (rev (filter (\<lambda>r. r \<noteq> OVERSEER) (map str_of roles)))))
    | _ \<Rightarrow> None)"

definition load_tripwire_owners :: "json \<Rightarrow> (string \<times> string list) list option" where
  "load_tripwire_owners raw = (case raw of
      JNull \<Rightarrow> Some []
    | JObj es \<Rightarrow> if list_ex (\<lambda>e. owners_entry e = None) es then None else Some (map (\<lambda>e. the (owners_entry e)) es)
    | _ \<Rightarrow> None)"

definition repeat_number :: "obj \<Rightarrow> string \<Rightarrow> int \<Rightarrow> int option" where
  "repeat_number raw key dflt = (if \<not> has raw key then Some dflt else
     case getj raw key of JInt v \<Rightarrow> if v < 1 then None else Some v | _ \<Rightarrow> None)"

definition load_tripwire_repeat :: "json \<Rightarrow> (int \<times> int) option" where
  "load_tripwire_repeat raw = (case raw of
      JNull \<Rightarrow> Some (3, 4800)
    | JObj r \<Rightarrow> do { limit \<leftarrow> repeat_number r ''limit'' 3; window \<leftarrow> repeat_number r ''window_ticks'' 4800; Some (limit, window) }
    | _ \<Rightarrow> None)"

text \<open>The repeat counter: the state it leaves and the reason to leave the latch to the human.\<close>

definition latch_of :: "(json \<Rightarrow> string) \<Rightarrow> obj \<Rightarrow> episode" where
  "latch_of pr trip = \<lparr>ep_reason = py_str pr (getj trip ''reason''), ep_tick = getj trip ''tick''\<rparr>"

definition repeat_check :: "cycle_deps \<Rightarrow> obj \<Rightarrow> cycle \<Rightarrow> string option \<times> cycle" where
  "repeat_check d trip cy = (case cy_trip cy of
      None \<Rightarrow> (Some (''the tripwire repeat counter'' @ [CHR 0x27] @ ''s state file is unreadable''), cy)
    | Some ts \<Rightarrow>
        let l = latch_of (cd_pr d) trip;
            eps = snd (note_latch l (ts_episodes ts));
            n = repeat_count eps l (cd_repeat_window d);
            again = (ts_escalated ts = Some l \<or> int n > cd_repeat_limit d) in
        (if again then Some (''tripwire '' @ ep_reason l @ '' has latched '' @ dec n @ '' times within '' @
             dec_int (cd_repeat_window d) @ '' game ticks (limit '' @ dec_int (cd_repeat_limit d) @ ''); not re-running the sequence'')
           else None,
         cy\<lparr>cy_trip := Some (ts\<lparr>ts_episodes := eps, ts_escalated := (if again then Some l else ts_escalated ts)\<rparr>)\<rparr>))"

definition latch_text :: "cycle_deps \<Rightarrow> obj \<Rightarrow> string" where
  "latch_text d trip = py_str (cd_pr d) (getj trip ''reason'') @ '': '' @ py_str (cd_pr d) (getj trip ''detail'')"

definition overseer_note :: "string list \<Rightarrow> string" where
  "overseer_note owners = (if owners = [] then [] else
     ''; the '' @ join '', '' owners @ '' ran first this cycle and may have filed proposals'')"

text \<open>One role of the sequence: the Overseer's run is preceded by the brief and the baseline of its verdict.\<close>

definition owner_run :: "cycle_deps \<Rightarrow> (string \<times> int) list \<Rightarrow> obj \<Rightarrow> string \<Rightarrow> cycle \<Rightarrow> role_run \<times> cycle" where
  "owner_run d new_cursors trip role cy =
     (case run_role d role \<lparr>wk_reason = ''tripwire'', wk_detail = latch_text d trip, wk_roles = [role], wk_clock = Paused\<rparr> [] cy of
        (r, cy1) \<Rightarrow> (r, if rr_ok r then commit_cursor d new_cursors role cy1 else cy1))"

definition judge_run :: "cycle_deps \<Rightarrow> (string \<times> int) list \<Rightarrow> obj \<Rightarrow> string list \<Rightarrow> cycle \<Rightarrow> role_run \<times> int option \<times> cycle" where
  "judge_run d new_cursors trip owners cy =
     (let wk = \<lparr>wk_reason = ''tripwire'', wk_detail = latch_text d trip @ overseer_note owners @
            ''. Rule on what is pending, then give your pause.verdict.'', wk_roles = [OVERSEER], wk_clock = Paused\<rparr>;
          (_, cy1) = call_cy d ''queue.pending_brief'' [] cy;
          (baseline, cy2) = baseline_in_cycle d cy1;
          (r, cy3) = run_role d OVERSEER wk [] cy2 in
      (r, baseline, if rr_ok r then commit_cursor d new_cursors OVERSEER cy3 else cy3))"

fun run_owners :: "cycle_deps \<Rightarrow> (string \<times> int) list \<Rightarrow> obj \<Rightarrow> string list \<Rightarrow> cycle \<Rightarrow> (string \<times> role_run) list \<times> cycle" where
  "run_owners d new_cursors trip [] cy = ([], cy)"
| "run_owners d new_cursors trip (role # roles) cy =
     (case owner_run d new_cursors trip role cy of (r, cy1) \<Rightarrow>
      case run_owners d new_cursors trip roles cy1 of (rs, cy2) \<Rightarrow> ((role, r) # rs, cy2))"

definition new_lanes :: lane_state where
  "new_lanes = \<lparr>ls_alerts = [], ls_proposers = [], ls_pending = [], ls_ore = [], ls_ore_wakes = [], ls_alert_wakes = [],
     ls_unsupplied = [], ls_noble = [], ls_askers = [], ls_cycles = 0, ls_seen = []\<rparr>"

definition latched_execute :: "cycle_deps \<Rightarrow> int option \<Rightarrow> hold_state \<Rightarrow> cycle \<Rightarrow> (string + phase) \<times> cycle" where
  "latched_execute d tick hold cy =
     (let lanes = (case cy_lanes cy of Some l \<Rightarrow> l | None \<Rightarrow> new_lanes);
          (ore, cy1) = watch_ore d cy in
      execute_phase d tick hold False ore lanes True cy1)"

definition tripwire_cycle :: "cycle_deps \<Rightarrow> int option \<Rightarrow> (string \<times> int) list \<Rightarrow> obj \<Rightarrow> obj \<Rightarrow> hold_state \<Rightarrow> cycle
    \<Rightarrow> cycle_result \<times> cycle" where
  "tripwire_cycle d tick new_cursors status trip hold cy =
     (let owners = owners_for (cd_owners d) (py_str (cd_pr d) (getj trip ''reason''));
          cy0 = commit_others d new_cursors (owners @ [OVERSEER]) cy in
      if cd_dry d then (\<lparr>cr_clock = Paused, cr_roles = owners @ [OVERSEER], cr_runs = [], cr_escalated = False,
         cr_watch = None, cr_execute = None\<rparr>, cy0)
      else case repeat_check d trip cy0 of
        (Some why, cy1) \<Rightarrow> (case raise_human d why cy1 of (out, cy2) \<Rightarrow>
           (\<lparr>cr_clock = Paused, cr_roles = [], cr_runs = [], cr_escalated = True, cr_watch = Some out, cr_execute = None\<rparr>, cy2))
      | (None, cy1) \<Rightarrow>
          let (rs, cy2) = run_owners d new_cursors trip owners (call_write d ''fort.quicksave'' [] cy1);
              (r, baseline, cy3) = judge_run d new_cursors trip owners cy2;
              escalated = (unclean r \<or> overseer_called_escalate r);
              (ex, cy4) = (if escalated then (None, cy3) else case latched_execute d tick hold cy3 of (e, c) \<Rightarrow> (Some e, c));
              (verdict, cy5) = (if escalated then (None, cy4) else verdict_in_cycle d baseline cy4);
              cy6 = (case verdict of Some v \<Rightarrow> if pv_resume v then call_write d ''clock.clear'' [] cy5 else cy5 | None \<Rightarrow> cy5);
              (out, cy7) = finish_in_cycle d escalated status verdict hold
                 (''tripwire '' @ py_str (cd_pr d) (getj trip ''reason'')) cy6 in
          (\<lparr>cr_clock = level_of out, cr_roles = owners @ [OVERSEER], cr_runs = rs @ [(OVERSEER, r)], cr_escalated = escalated,
            cr_watch = Some out, cr_execute = ex\<rparr>, cy7))"

text \<open>The start of \<open>_run_cycle\<close> after its reads: a latch has its own cycle, a pause the watchdog does not end has
  another, and \<open>None\<close> is the ordinary path.\<close>

definition paused_part :: "cycle_deps \<Rightarrow> int option \<Rightarrow> (string \<times> int) list \<Rightarrow> obj \<Rightarrow> hold_state \<Rightarrow> cycle \<Rightarrow> cycle_result option \<times> cycle" where
  "paused_part d tick new_cursors status hold cy =
     (let cy1 = (if \<not> cd_dry d \<and> \<not> truthy (getj status ''armed'') then call_write d ''clock.arm'' [] cy else cy) in
      if getj status ''tripwire'' \<noteq> JNull then
        (case tripwire_cycle d tick new_cursors status (fields_of (getj status ''tripwire'')) hold cy1 of (r, c) \<Rightarrow> (Some r, c))
      else case watch_in_cycle d status hold cy1 of (out, cy2) \<Rightarrow>
        (if wo_verdict out \<notin> {V_IDLE, V_ORDINARY_HELD} \<and> wo_still_paused out
         then (case paused_cycle d new_cursors status hold out cy2 of (r, c) \<Rightarrow> (Some r, c))
         else (None, cy2)))"

end
