(* ===== verification/Pause_Facts.thy ===== *)
theory Pause_Facts
  imports Pause
begin

section \<open>What the watchdog can do to the clock\<close>

text \<open>
  Facts on the trace of a pass: which tools it calls, when \<open>clock.resume\<close> is among them, what it leaves in
  its state. The central ones: a pass resumes only on a harmless cause it has just read, once per pause, and
  never under a latch, an escalation, an operator hold or a dry run; an overdue pause is alerted.
\<close>

named_theorems pass_simps "projections of a pass in progress"

lemma upd_pass_simps [simp, pass_simps]:
  "wp_st (upd_st f p) = f (wp_st p)" "wp_out (upd_st f p) = wp_out p" "wp_trace (upd_st f p) = wp_trace p"
  "wp_st (upd_out g p) = wp_st p" "wp_out (upd_out g p) = g (wp_out p)" "wp_trace (upd_out g p) = wp_trace p"
  "wp_st (action a p) = wp_st p" "wp_trace (action a p) = wp_trace p"
  "wp_out (action a p) = (wp_out p)\<lparr>wo_actions := wo_actions (wp_out p) @ [a]\<rparr>"
  by (simp_all add: upd_st_def upd_out_def action_def)

lemma add_note_simps [simp]:
  "ws_episode (add_note now k d st) = ws_episode st" "ws_owned (add_note now k d st) = ws_owned st"
  "ws_dismissed (add_note now k d st) = ws_dismissed st" "ws_dismiss_failed (add_note now k d st) = ws_dismiss_failed st"
  "ws_resume_attempts (add_note now k d st) = ws_resume_attempts st"
  "ws_overseer_woken (add_note now k d st) = ws_overseer_woken st" "ws_last_alert (add_note now k d st) = ws_last_alert st"
  "ws_alert_reason (add_note now k d st) = ws_alert_reason st" "ws_alert_since (add_note now k d st) = ws_alert_since st"
  by (simp_all add: add_note_def Let_def)

lemma history_bounded: "length (ws_history (add_note now k d st)) \<le> HISTORY_LIMIT"
  by (simp add: add_note_def Let_def)

lemma raise_alert_simps [simp]:
  "wp_trace (raise_alert now r p) = wp_trace p" "ws_last_alert (wp_st (raise_alert now r p)) = Some now"
  "ws_episode (wp_st (raise_alert now r p)) = ws_episode (wp_st p)" "ws_owned (wp_st (raise_alert now r p)) = ws_owned (wp_st p)"
  "ws_resume_attempts (wp_st (raise_alert now r p)) = ws_resume_attempts (wp_st p)"
  "ws_overseer_woken (wp_st (raise_alert now r p)) = ws_overseer_woken (wp_st p)"
  "wo_alerts (wp_out (raise_alert now r p)) = wo_alerts (wp_out p) @ [(now, r)]"
  "wo_verdict (wp_out (raise_alert now r p)) = wo_verdict (wp_out p)"
  "wo_resumed (wp_out (raise_alert now r p)) = wo_resumed (wp_out p)"
  "wo_still_paused (wp_out (raise_alert now r p)) = wo_still_paused (wp_out p)"
  "ws_alert_reason (wp_st (raise_alert now r p)) = Some r"
  by (simp_all add: raise_alert_def Let_def)

lemma call_tool_simps [simp]:
  "fst (call_tool w n a p) = w (wp_trace p) n a" "wp_st (snd (call_tool w n a p)) = wp_st p"
  "wp_out (snd (call_tool w n a p)) = wp_out p" "wp_trace (snd (call_tool w n a p)) = wp_trace p @ [Called n a]"
  by (simp_all add: call_tool_def)

subsection \<open>The tools an operation calls\<close>

definition uses :: "string set \<Rightarrow> world_event \<Rightarrow> bool" where
  "uses S e = (case e of Called n _ \<Rightarrow> n \<in> S | _ \<Rightarrow> True)"

definition calls_only :: "string set \<Rightarrow> watch_pass \<Rightarrow> watch_pass \<Rightarrow> bool" where
  "calls_only S p q = (\<exists>es. wp_trace q = wp_trace p @ es \<and> (\<forall>e \<in> set es. uses S e))"

lemma calls_only_refl [simp, intro]: "calls_only S p p"
  by (simp add: calls_only_def)

lemma calls_only_same: "wp_trace q = wp_trace p \<Longrightarrow> calls_only S p q"
  by (simp add: calls_only_def)

lemma calls_only_trans [trans]: "calls_only S p q \<Longrightarrow> calls_only S q r \<Longrightarrow> calls_only S p r"
  unfolding calls_only_def by (metis Un_iff append.assoc set_append)

lemma calls_only_trace:
  "calls_only S p q \<Longrightarrow> wp_trace p' = wp_trace p \<Longrightarrow> wp_trace q' = wp_trace q \<Longrightarrow> calls_only S p' q'"
  by (simp add: calls_only_def)

lemma calls_only_upd [simp]:
  "calls_only S p (upd_st f q) = calls_only S p q" "calls_only S p (upd_out g q) = calls_only S p q"
  "calls_only S p (action a q) = calls_only S p q" "calls_only S p (raise_alert now r q) = calls_only S p q"
  by (simp_all add: calls_only_def)

lemma calls_only_mono: "calls_only S p q \<Longrightarrow> S \<subseteq> T \<Longrightarrow> calls_only T p q"
  by (auto simp: calls_only_def uses_def split: world_event.splits)

lemma dismiss_calls: "calls_only {DISMISS_TOOL_ID} p (dismiss_popups w cap now p)"
proof -
  have "wp_trace (dismiss_popups w cap now p) = wp_trace p @ [Called DISMISS_TOOL_ID [(''max'', JInt cap)]]"
    by (auto simp: dismiss_popups_def call_tool_def Let_def split: option.splits)
  then show ?thesis by (simp add: calls_only_def uses_def)
qed

lemma read_why_simps [simp]:
  "wp_st (snd (read_why w win p)) = wp_st p" "wp_out (snd (read_why w win p)) = wp_out p"
  "wp_trace (snd (read_why w win p)) = wp_trace p @ [Called WHY_TOOL_ID [(''window_ticks'', JInt win)]]"
  by (simp_all add: read_why_def call_tool_def)

lemma read_why_calls: "calls_only {WHY_TOOL_ID} p (snd (read_why w win p))"
  by (simp add: calls_only_def uses_def)

lemma read_why_Some:
  "fst (read_why w win p) = Some y \<Longrightarrow> w (wp_trace p) WHY_TOOL_ID [(''window_ticks'', JInt win)] = Some (JObj y)"
  by (auto simp: read_why_def call_tool_def split: option.splits json.splits)

lemma note_dismissed_simps [simp]:
  "ws_episode (note_dismissed now c st) = ws_episode st" "ws_owned (note_dismissed now c st) = ws_owned st"
  "ws_resume_attempts (note_dismissed now c st) = ws_resume_attempts st"
  "ws_overseer_woken (note_dismissed now c st) = ws_overseer_woken st"
  "ws_last_alert (note_dismissed now c st) = ws_last_alert st"
  by (simp_all add: note_dismissed_def)

lemma fold_dismissed_simps [simp]:
  "ws_episode (fold (note_dismissed now) cs st) = ws_episode st" "ws_owned (fold (note_dismissed now) cs st) = ws_owned st"
  "ws_resume_attempts (fold (note_dismissed now) cs st) = ws_resume_attempts st"
  "ws_overseer_woken (fold (note_dismissed now) cs st) = ws_overseer_woken st"
  "ws_last_alert (fold (note_dismissed now) cs st) = ws_last_alert st"
  by (induction cs arbitrary: st) simp_all

text \<open>What closing popups leaves alone.\<close>

lemma dismiss_popups_keeps [simp]:
  "ws_episode (wp_st (dismiss_popups w cap now p)) = ws_episode (wp_st p)"
  "ws_owned (wp_st (dismiss_popups w cap now p)) = ws_owned (wp_st p)"
  "ws_resume_attempts (wp_st (dismiss_popups w cap now p)) = ws_resume_attempts (wp_st p)"
  "ws_overseer_woken (wp_st (dismiss_popups w cap now p)) = ws_overseer_woken (wp_st p)"
  "ws_last_alert (wp_st (dismiss_popups w cap now p)) = ws_last_alert (wp_st p)"
  "wo_alerts (wp_out (dismiss_popups w cap now p)) = wo_alerts (wp_out p)"
  "wo_resumed (wp_out (dismiss_popups w cap now p)) = wo_resumed (wp_out p)"
  by (simp_all add: dismiss_popups_def call_tool_def Let_def split: option.splits)

subsection \<open>The decision table, row by row\<close>

lemma decide_resume_iff:
  "fst (decide pr ob pol st now held) = V_RESUME \<longleftrightarrow>
     ob_paused ob \<and> \<not> ob_tripwire ob \<and> ws_owned st \<noteq> Some OWNED_ESCALATION \<and> ob_cause ob \<noteq> JStr ''modal_viewscreen'' \<and>
     ob_popups ob \<le> 0 \<and> \<not> held \<and> ws_resume_attempts st < 1 \<and> \<not> ws_overseer_woken st \<and>
     classify_causes ob pol (ws_dismissed st > 0) = Harmless"
  by (auto simp: decide_def classify_causes_def not_less split: cause_kind.splits if_splits option.splits)

lemma harmless_causes:
  "classify_causes ob pol d = Harmless \<Longrightarrow> ob_types ob \<noteq> [] \<and> set (ob_types ob) \<subseteq> set (pp_harmless pol)"
  by (auto simp: classify_causes_def list_all_iff split: if_splits)

subsection \<open>Resuming\<close>

definition resumes :: "world_event list \<Rightarrow> nat" where
  "resumes tr = length (filter (\<lambda>e. e = Called ''clock.resume'' []) tr)"

lemma resumes_append [simp]: "resumes (xs @ ys) = resumes xs + resumes ys"
  by (simp add: resumes_def)

lemma resumes_simps [simp]: "resumes [] = 0" "resumes (Slept s # es) = resumes es" "resumes (Ran r # es) = resumes es"
  "resumes (Called n a # es) = (if n = ''clock.resume'' \<and> a = [] then Suc (resumes es) else resumes es)"
  by (simp_all add: resumes_def)

lemma no_resumes: "\<forall>e \<in> set es. uses S e \<Longrightarrow> ''clock.resume'' \<notin> S \<Longrightarrow> resumes es = 0"
  by (induction es) (auto simp: uses_def split: world_event.splits)

lemma calls_only_resumes: "calls_only S p q \<Longrightarrow> ''clock.resume'' \<notin> S \<Longrightarrow> resumes (wp_trace q) = resumes (wp_trace p)"
  by (auto simp: calls_only_def no_resumes)

lemma pause_again_simps [simp]:
  "wp_trace (pause_again w p) = wp_trace p @ [Called ''clock.pause'' []]" "wp_st (pause_again w p) = wp_st p"
  "wo_alerts (wp_out (pause_again w p)) = wo_alerts (wp_out p)"
  "wo_resumed (wp_out (pause_again w p)) = wo_resumed (wp_out p)" "wo_verdict (wp_out (pause_again w p)) = wo_verdict (wp_out p)"
  "wo_still_paused (wp_out (pause_again w p)) = wo_still_paused (wp_out p)"
  by (auto simp: pause_again_def call_tool_def split: option.splits)

text \<open>After the resume: a sleep, a read of the clock, and a pause when the read shows no movement.\<close>

lemma verify_resume_trace:
  "wp_trace (snd (verify_resume w pol before p)) = wp_trace p @ [Slept (pp_verify_wait pol), Called ''clock.status'' []] @
     (case w (wp_trace p @ [Slept (pp_verify_wait pol)]) ''clock.status'' [] of None \<Rightarrow> []
      | Some res \<Rightarrow> if tick_moved pol before (fields_of res) then [] else [Called ''clock.pause'' []])"
  by (auto simp: verify_resume_def call_tool_def Let_def split: option.splits)

lemma verify_resume_moved:
  "fst (verify_resume w pol before p) \<longleftrightarrow>
     (\<exists>res. w (wp_trace p @ [Slept (pp_verify_wait pol)]) ''clock.status'' [] = Some res \<and> tick_moved pol before (fields_of res))"
  by (auto simp: verify_resume_def call_tool_def Let_def split: option.splits)

lemma verify_resume_keeps [simp]:
  "wp_st (snd (verify_resume w pol before p)) = wp_st p"
  "wo_alerts (wp_out (snd (verify_resume w pol before p))) = wo_alerts (wp_out p)"
  "wo_resumed (wp_out (snd (verify_resume w pol before p))) = wo_resumed (wp_out p)"
  "wo_verdict (wp_out (snd (verify_resume w pol before p))) = wo_verdict (wp_out p)"
  "wo_still_paused (wp_out (snd (verify_resume w pol before p))) = wo_still_paused (wp_out p)"
  by (auto simp: verify_resume_def call_tool_def Let_def split: option.splits)

lemma resume_and_verify_trace:
  "wp_trace (snd (resume_and_verify w pol before p)) = wp_trace p @ [Called ''clock.resume'' []] @
     (case w (wp_trace p) ''clock.resume'' [] of
        Some res \<Rightarrow> if truthy (getj (fields_of res) ''ok'') then
            (let tr = wp_trace p @ [Called ''clock.resume'' [], Slept (pp_verify_wait pol)] in
             [Slept (pp_verify_wait pol), Called ''clock.status'' []] @
             (case w tr ''clock.status'' [] of None \<Rightarrow> []
              | Some r \<Rightarrow> if tick_moved pol before (fields_of r) then [] else [Called ''clock.pause'' []])) else []
      | None \<Rightarrow> [])"
  by (auto simp: resume_and_verify_def call_tool_def Let_def verify_resume_trace split: option.splits)

lemma resume_and_verify_keeps [simp]:
  "wp_st (snd (resume_and_verify w pol before p)) = wp_st p"
  "wo_alerts (wp_out (snd (resume_and_verify w pol before p))) = wo_alerts (wp_out p)"
  "wo_resumed (wp_out (snd (resume_and_verify w pol before p))) = wo_resumed (wp_out p)"
  "wo_verdict (wp_out (snd (resume_and_verify w pol before p))) = wo_verdict (wp_out p)"
  "wo_still_paused (wp_out (snd (resume_and_verify w pol before p))) = wo_still_paused (wp_out p)"
  by (auto simp: resume_and_verify_def call_tool_def Let_def split: option.splits)

lemma resume_and_verify_moved:
  assumes "fst (resume_and_verify w pol before p)"
  shows "\<exists>res. w (wp_trace p @ [Called ''clock.resume'' [], Slept (pp_verify_wait pol)]) ''clock.status'' [] = Some res
     \<and> tick_moved pol before (fields_of res)"
  using assms
  by (auto simp: resume_and_verify_def call_tool_def Let_def verify_resume_moved split: option.splits if_splits)

lemma resume_and_verify_resumes [simp]:
  "resumes (wp_trace (snd (resume_and_verify w pol before p))) = Suc (resumes (wp_trace p))"
  by (auto simp: resume_and_verify_trace Let_def split: option.splits)

subsection \<open>The loop of a pass\<close>

lemma calls_only_pair: "f p = (a, q) \<Longrightarrow> calls_only S p (snd (f p)) \<Longrightarrow> calls_only S p q"
  by simp

text \<open>The read a decision rests on is the last thing the pass did.\<close>

definition just_read :: "world \<Rightarrow> int \<Rightarrow> watch_pass \<Rightarrow> obj \<Rightarrow> bool" where
  "just_read w win p y = (\<exists>tr. wp_trace p = tr @ [Called WHY_TOOL_ID [(''window_ticks'', JInt win)]] \<and>
     w tr WHY_TOOL_ID [(''window_ticks'', JInt win)] = Some (JObj y))"

lemma just_read_why: "fst (read_why w win p) = Some y \<Longrightarrow> just_read w win (snd (read_why w win p)) y"
  by (auto simp: just_read_def dest: read_why_Some)

lemma just_read_upd [simp]: "just_read w win (upd_out f p) y = just_read w win p y"
  by (simp add: just_read_def)

definition loop_effect :: "world \<Rightarrow> pause_policy \<Rightarrow> bool \<Rightarrow> watch_pass \<Rightarrow> watch_pass \<Rightarrow> bool" where
  "loop_effect w pol dry p q \<longleftrightarrow> calls_only {WHY_TOOL_ID, DISMISS_TOOL_ID} p q \<and> (dry \<longrightarrow> wp_trace q = wp_trace p) \<and>
     ws_episode (wp_st q) = ws_episode (wp_st p) \<and> ws_owned (wp_st q) = ws_owned (wp_st p) \<and>
     ws_resume_attempts (wp_st q) = ws_resume_attempts (wp_st p) \<and>
     ws_overseer_woken (wp_st q) = ws_overseer_woken (wp_st p) \<and> ws_last_alert (wp_st q) = ws_last_alert (wp_st p) \<and>
     wo_alerts (wp_out q) = wo_alerts (wp_out p) \<and> wo_resumed (wp_out q) = wo_resumed (wp_out p)"

lemma loop_effect_upd_out: "wo_alerts (f (wp_out p)) = wo_alerts (wp_out p) \<Longrightarrow>
    wo_resumed (f (wp_out p)) = wo_resumed (wp_out p) \<Longrightarrow> loop_effect w pol dry p (upd_out f p)"
  by (simp add: loop_effect_def calls_only_same)

lemma loop_effect_trans: "loop_effect w pol dry p q \<Longrightarrow> loop_effect w pol dry q r \<Longrightarrow> loop_effect w pol dry p r"
  by (auto simp: loop_effect_def intro: calls_only_trans)

lemma decide_loop_props:
  assumes "decide_loop n pr w pol status now dry held why p = (why', q)"
    and "\<And>y. why = Some y \<Longrightarrow> just_read w (pp_window pol) p y"
  shows "loop_effect w pol dry p q \<and> (\<forall>z. why' = Some z \<longrightarrow> just_read w (pp_window pol) q z)"
  using assms
proof (induction n arbitrary: why p)
  case 0
  then show ?case by (simp add: loop_effect_def)
next
  case (Suc n)
  obtain v reason where d: "decide pr (observation_of pr status why) pol (wp_st p) now held = (v, reason)"
    by (cases "decide pr (observation_of pr status why) pol (wp_st p) now held")
  define p1 where "p1 = upd_out (\<lambda>o'. o'\<lparr>wo_verdict := v, wo_reason := reason\<rparr>) p"
  show ?case
  proof (cases "v \<noteq> V_DISMISS \<or> dry")
    case True
    with d Suc.prems(1) have q: "q = p1" "why' = why" by (auto simp: p1_def)
    have "loop_effect w pol dry p p1" unfolding p1_def by (rule loop_effect_upd_out) simp_all
    with Suc.prems(2) show ?thesis by (simp add: q p1_def)
  next
    case False
    define p2 where "p2 = dismiss_popups w (pp_dismiss_cap pol) now p1"
    obtain y p3 where r: "read_why w (pp_window pol) p2 = (y, p3)" by (cases "read_why w (pp_window pol) p2")
    define p4 where "p4 = upd_out (\<lambda>o'. o'\<lparr>wo_why := y\<rparr>) p3"
    from r have p3: "p3 = snd (read_why w (pp_window pol) p2)" and y: "y = fst (read_why w (pp_window pol) p2)" by simp_all
    have jr: "y = Some z' \<Longrightarrow> just_read w (pp_window pol) p4 z'" for z'
      using just_read_why [of w "pp_window pol" p2 z'] by (simp add: p3 y p4_def)
    have c: "calls_only {WHY_TOOL_ID, DISMISS_TOOL_ID} p p4"
    proof -
      have "calls_only {WHY_TOOL_ID, DISMISS_TOOL_ID} p p1" by (simp add: p1_def calls_only_same)
      also have "calls_only {WHY_TOOL_ID, DISMISS_TOOL_ID} p1 p2"
        unfolding p2_def by (rule calls_only_mono [OF dismiss_calls]) simp
      also have "calls_only {WHY_TOOL_ID, DISMISS_TOOL_ID} p2 p3"
        unfolding p3 by (rule calls_only_mono [OF read_why_calls]) simp
      also have "calls_only {WHY_TOOL_ID, DISMISS_TOOL_ID} p3 p4" by (simp add: p4_def calls_only_same)
      finally show ?thesis .
    qed
    from c False have e: "loop_effect w pol dry p p4"
      by (simp add: loop_effect_def p4_def p3 p2_def p1_def)
    from False d r [unfolded p2_def p1_def]
    have "decide_loop (Suc n) pr w pol status now dry held why p = decide_loop n pr w pol status now dry held y p4"
      by (simp add: p4_def)
    with Suc.prems(1) have "decide_loop n pr w pol status now dry held y p4 = (why', q)" by simp
    from Suc.IH [OF this jr] loop_effect_trans [OF e] show ?thesis by blast
  qed
qed

lemma decide_loop_verdict:
  assumes "decide_loop n pr w pol status now dry held why p = (why', q)"
    and "n = 0 \<Longrightarrow> wo_verdict (wp_out p) = V_DISMISS"
  shows "wo_verdict (wp_out q) = V_DISMISS \<or>
     decide pr (observation_of pr status why') pol (wp_st q) now held = (wo_verdict (wp_out q), wo_reason (wp_out q))"
  using assms
proof (induction n arbitrary: why p)
  case 0
  then show ?case by simp
next
  case (Suc n)
  obtain v reason where d: "decide pr (observation_of pr status why) pol (wp_st p) now held = (v, reason)"
    by (cases "decide pr (observation_of pr status why) pol (wp_st p) now held")
  show ?case
  proof (cases "v \<noteq> V_DISMISS \<or> dry")
    case True
    with d Suc.prems(1) show ?thesis by auto
  next
    case False
    let ?p1 = "upd_out (\<lambda>o'. o'\<lparr>wo_verdict := v, wo_reason := reason\<rparr>) p"
    obtain y p3 where r: "read_why w (pp_window pol) (dismiss_popups w (pp_dismiss_cap pol) now ?p1) = (y, p3)"
      by fastforce
    then have p3: "p3 = snd (read_why w (pp_window pol) (dismiss_popups w (pp_dismiss_cap pol) now ?p1))" by simp
    have v: "wo_verdict (wp_out (upd_out (\<lambda>o'. o'\<lparr>wo_why := y\<rparr>) p3)) = V_DISMISS"
      using False by (simp add: p3 dismiss_popups_def call_tool_def Let_def split: option.splits)
    from False d r Suc.prems(1) Suc.IH [OF _ v] show ?thesis by simp
  qed
qed

subsection \<open>A whole pass\<close>

lemma track_tick_keeps [simp]:
  "ws_episode (snd (track_tick pol now paused t st)) = ws_episode st" "ws_owned (snd (track_tick pol now paused t st)) = ws_owned st"
  "ws_resume_attempts (snd (track_tick pol now paused t st)) = ws_resume_attempts st"
  "ws_overseer_woken (snd (track_tick pol now paused t st)) = ws_overseer_woken st"
  "ws_last_alert (snd (track_tick pol now paused t st)) = ws_last_alert st"
  by (simp_all add: track_tick_def)

lemma begin_episode_keeps [simp]:
  "ws_owned (begin_episode now st) = ws_owned st" "ws_resume_attempts (begin_episode now st) = ws_resume_attempts st"
  "ws_overseer_woken (begin_episode now st) = ws_overseer_woken st" "ws_last_alert (begin_episode now st) = ws_last_alert st"
  "ws_episode (begin_episode now st) = (case ws_episode st of None \<Rightarrow> Some now | e \<Rightarrow> e)"
  by (auto simp: begin_episode_def split: option.splits)

lemma settle_outcome_keeps [simp]:
  "wp_st (settle_outcome p) = wp_st p" "wp_trace (settle_outcome p) = wp_trace p"
  "wo_verdict (wp_out (settle_outcome p)) = wo_verdict (wp_out p)" "wo_resumed (wp_out (settle_outcome p)) = wo_resumed (wp_out p)"
  "wo_alerts (wp_out (settle_outcome p)) = wo_alerts (wp_out p)"
  "wo_still_paused (wp_out (settle_outcome p)) \<longleftrightarrow> \<not> wo_resumed (wp_out p)"
  by (simp_all add: settle_outcome_def)

lemma suppress_resume_keeps [simp]:
  "wp_st (suppress_resume p) = wp_st p" "wp_trace (suppress_resume p) = wp_trace p"
  "wo_resumed (wp_out (suppress_resume p)) = wo_resumed (wp_out p)" "wo_alerts (wp_out (suppress_resume p)) = wo_alerts (wp_out p)"
  "wo_verdict (wp_out (suppress_resume p)) = V_ORDINARY_HELD"
  by (simp_all add: suppress_resume_def)

lemma liveness_alert_keeps [simp]:
  "wp_trace (liveness_alert pol now v p) = wp_trace p" "wo_resumed (wp_out (liveness_alert pol now v p)) = wo_resumed (wp_out p)"
  "ws_owned (wp_st (liveness_alert pol now v p)) = ws_owned (wp_st p)"
  "ws_resume_attempts (wp_st (liveness_alert pol now v p)) = ws_resume_attempts (wp_st p)"
  "ws_overseer_woken (wp_st (liveness_alert pol now v p)) = ws_overseer_woken (wp_st p)"
  "ws_episode (wp_st (liveness_alert pol now v p)) = ws_episode (wp_st p)"
  "wo_verdict (wp_out (liveness_alert pol now v p)) = wo_verdict (wp_out p)"
  by (simp_all add: liveness_alert_def)

lemma act_on_trace: "v \<noteq> V_RESUME \<Longrightarrow> wp_trace (act_on pr w pol t now why v p) = wp_trace p"
  by (simp add: act_on_def split: pause_call.splits)

lemma resume_pass_trace:
  "wp_trace (resume_pass pr w pol t now why p) = wp_trace (snd (resume_and_verify w pol t
     (upd_st (\<lambda>st. st\<lparr>ws_resume_attempts := ws_resume_attempts st + 1\<rparr>) p)))"
  by (simp add: resume_pass_def split: prod.splits bool.splits)

text \<open>The parts of a pass over a paused, unlatched fort: the pass \<open>p1\<close> after the first read, the result of the
  loop, the verdict acted on.\<close>

definition first_read :: "world \<Rightarrow> pause_policy \<Rightarrow> watch_pass \<Rightarrow> obj option \<times> watch_pass" where
  "first_read w pol p = (if ws_owned (wp_st p) = Some OWNED_ESCALATION then (None, p)
     else case read_why w (pp_window pol) p of (y, p1) \<Rightarrow> (y, upd_out (\<lambda>o'. o'\<lparr>wo_why := y\<rparr>) p1))"

lemma paused_passE:
  obtains why0 p1 why p2 p3 where
    "first_read w pol (upd_st (begin_episode now) p0) = (why0, p1)"
    "decide_loop 3 pr w pol status now dry held why0 p1 = (why, p2)"
    "p3 = (if held \<and> wo_verdict (wp_out p2) = V_RESUME then suppress_resume p2 else p2)"
    "paused_pass pr w pol status now dry held p0 = settle_outcome (if dry then p3
       else liveness_alert pol now (wo_verdict (wp_out p3))
         (act_on pr w pol (opt_int (getj status ''abs_tick'')) now why (wo_verdict (wp_out p3)) p3))"
proof -
  obtain why0 p1 where r: "first_read w pol (upd_st (begin_episode now) p0) = (why0, p1)" by fastforce
  obtain why p2 where l: "decide_loop 3 pr w pol status now dry held why0 p1 = (why, p2)" by fastforce
  show ?thesis
    by (rule that [OF r l refl])
      (use r l in \<open>simp add: paused_pass_def first_read_def [symmetric] Let_def del: decide_loop.simps\<close>)
qed

lemma first_read_alt: "first_read w pol p = (if ws_owned (wp_st p) = Some OWNED_ESCALATION then (None, p)
     else (fst (read_why w (pp_window pol) p),
       upd_out (\<lambda>o'. o'\<lparr>wo_why := fst (read_why w (pp_window pol) p)\<rparr>) (snd (read_why w (pp_window pol) p))))"
  by (simp add: first_read_def split_beta)

lemma first_read_props:
  assumes "first_read w pol p = (why0, p1)"
  shows "wp_st p1 = wp_st p" "wo_alerts (wp_out p1) = wo_alerts (wp_out p)" "wo_resumed (wp_out p1) = wo_resumed (wp_out p)"
    "calls_only {WHY_TOOL_ID} p p1" "why0 = Some y \<Longrightarrow> just_read w (pp_window pol) p1 y"
    "ws_owned (wp_st p) = Some OWNED_ESCALATION \<Longrightarrow> p1 = p \<and> why0 = None"
    "ws_owned (wp_st p) \<noteq> Some OWNED_ESCALATION \<Longrightarrow>
       wp_trace p1 = wp_trace p @ [Called WHY_TOOL_ID [(''window_ticks'', JInt (pp_window pol))]]"
proof -
  have c: "calls_only {WHY_TOOL_ID} p (upd_out f (snd (read_why w (pp_window pol) p)))" for f
    by (rule calls_only_trace [OF read_why_calls [of p w "pp_window pol"]]) simp_all
  show "wp_st p1 = wp_st p" "wo_alerts (wp_out p1) = wo_alerts (wp_out p)" "wo_resumed (wp_out p1) = wo_resumed (wp_out p)"
    "calls_only {WHY_TOOL_ID} p p1" "why0 = Some y \<Longrightarrow> just_read w (pp_window pol) p1 y"
    "ws_owned (wp_st p) = Some OWNED_ESCALATION \<Longrightarrow> p1 = p \<and> why0 = None"
    "ws_owned (wp_st p) \<noteq> Some OWNED_ESCALATION \<Longrightarrow>
       wp_trace p1 = wp_trace p @ [Called WHY_TOOL_ID [(''window_ticks'', JInt (pp_window pol))]]"
    using assms c by (auto simp: first_read_alt just_read_why split: if_splits)
qed

lemma tool_ids [simp]: "''clock.resume'' \<noteq> WHY_TOOL_ID" "''clock.resume'' \<noteq> DISMISS_TOOL_ID"
  "''clock.resume'' \<noteq> VERDICT_READ_TOOL_ID"
  by (simp_all add: WHY_TOOL_ID_def DISMISS_TOOL_ID_def VERDICT_READ_TOOL_ID_def)

text \<open>A pause the policy lets the watchdog end: the play screen, no popup left, and at least one recent report,
  every one of them on the harmless list.\<close>

definition safe_to_resume :: "(json \<Rightarrow> string) \<Rightarrow> pause_policy \<Rightarrow> obj \<Rightarrow> obj \<Rightarrow> bool" where
  "safe_to_resume pr pol status y = (let ob = observation_of pr status (Some y) in
     ob_paused ob \<and> \<not> ob_tripwire ob \<and> ob_cause ob \<noteq> JStr ''modal_viewscreen'' \<and> ob_popups ob \<le> 0 \<and>
     ob_types ob \<noteq> [] \<and> set (ob_types ob) \<subseteq> set (pp_harmless pol))"

text \<open>What is known when a pass over a paused fort has called \<open>clock.resume\<close>.\<close>

lemma paused_pass_resume:
  assumes r: "resumes (wp_trace (paused_pass pr w pol status now dry held p0)) \<noteq> resumes (wp_trace p0)"
  shows "\<not> dry \<and> \<not> held \<and> ws_owned (wp_st p0) \<noteq> Some OWNED_ESCALATION \<and> ws_resume_attempts (wp_st p0) < 1 \<and>
    \<not> ws_overseer_woken (wp_st p0) \<and>
    resumes (wp_trace (paused_pass pr w pol status now dry held p0)) = Suc (resumes (wp_trace p0)) \<and>
    (\<exists>mid y post. wp_trace (paused_pass pr w pol status now dry held p0) =
        wp_trace p0 @ mid @ [Called WHY_TOOL_ID [(''window_ticks'', JInt (pp_window pol))], Called ''clock.resume'' []] @ post \<and>
      w (wp_trace p0 @ mid) WHY_TOOL_ID [(''window_ticks'', JInt (pp_window pol))] = Some (JObj y) \<and>
      safe_to_resume pr pol status y)"
proof -
  obtain why0 p1 why p2 p3 where f: "first_read w pol (upd_st (begin_episode now) p0) = (why0, p1)"
    and l: "decide_loop 3 pr w pol status now dry held why0 p1 = (why, p2)"
    and p3: "p3 = (if held \<and> wo_verdict (wp_out p2) = V_RESUME then suppress_resume p2 else p2)"
    and q: "paused_pass pr w pol status now dry held p0 = settle_outcome (if dry then p3
       else liveness_alert pol now (wo_verdict (wp_out p3))
         (act_on pr w pol (opt_int (getj status ''abs_tick'')) now why (wo_verdict (wp_out p3)) p3))"
    by (rule paused_passE)
  note fp = first_read_props [OF f]
  from decide_loop_props [OF l fp(5)] have e: "loop_effect w pol dry p1 p2"
    and jr: "why = Some z \<Longrightarrow> just_read w (pp_window pol) p2 z" for z by auto
  have c: "calls_only {WHY_TOOL_ID, DISMISS_TOOL_ID} p0 p2"
  proof -
    from fp(4) have "calls_only {WHY_TOOL_ID, DISMISS_TOOL_ID} (upd_st (begin_episode now) p0) p2"
      using e by (auto simp: loop_effect_def intro: calls_only_trans calls_only_mono)
    then show ?thesis by (rule calls_only_trace) simp_all
  qed
  then have n2: "resumes (wp_trace p2) = resumes (wp_trace p0)" by (rule calls_only_resumes) simp
  have t3: "wp_trace p3 = wp_trace p2" "wp_st p3 = wp_st p2" by (simp_all add: p3)
  have nd: "\<not> dry" using r n2 by (auto simp: q t3)
  have v: "wo_verdict (wp_out p3) = V_RESUME"
  proof (rule ccontr)
    assume "wo_verdict (wp_out p3) \<noteq> V_RESUME"
    with r n2 show False unfolding q by (simp add: act_on_trace t3 split: if_splits)
  qed
  then have nh: "\<not> held" and p32: "p3 = p2" and v2: "wo_verdict (wp_out p2) = V_RESUME"
    by (auto simp: p3 split: if_splits)
  from decide_loop_verdict [OF l] v2
  have d: "fst (decide pr (observation_of pr status why) pol (wp_st p2) now held) = V_RESUME" by auto
  from d have types: "ob_types (observation_of pr status why) \<noteq> []"
    unfolding decide_resume_iff using harmless_causes by blast
  then obtain y where y: "why = Some y"
    by (cases why) (auto simp: observation_of_def Let_def entries_of_def items_of_def getj_def)
  from jr [OF y] obtain tr where tr: "wp_trace p2 = tr @ [Called WHY_TOOL_ID [(''window_ticks'', JInt (pp_window pol))]]"
    "w tr WHY_TOOL_ID [(''window_ticks'', JInt (pp_window pol))] = Some (JObj y)"
    by (auto simp: just_read_def)
  have own: "ws_owned (wp_st p0) \<noteq> Some OWNED_ESCALATION" "ws_resume_attempts (wp_st p0) < 1" "\<not> ws_overseer_woken (wp_st p0)"
    using d e fp(1) unfolding decide_resume_iff by (auto simp: loop_effect_def)
  have "calls_only {WHY_TOOL_ID, DISMISS_TOOL_ID} p1 p2" using e by (simp add: loop_effect_def)
  have "\<exists>mid. tr = wp_trace p0 @ mid"
  proof -
    have r1: "wp_trace p1 = wp_trace p0 @ [Called WHY_TOOL_ID [(''window_ticks'', JInt (pp_window pol))]]"
      using fp(7) own(1) by simp
    from e obtain es where es: "wp_trace p2 = wp_trace p1 @ es" by (auto simp: loop_effect_def calls_only_def)
    show ?thesis
      using es r1 tr(1) by (cases es rule: rev_cases) auto
  qed
  then obtain mid where mid: "tr = wp_trace p0 @ mid" by blast
  have whole: "wp_trace (paused_pass pr w pol status now dry held p0) =
      wp_trace (snd (resume_and_verify w pol (opt_int (getj status ''abs_tick''))
        (upd_st (\<lambda>st. st\<lparr>ws_resume_attempts := ws_resume_attempts st + 1\<rparr>) p2)))"
    unfolding q using nd v by (simp add: p32 act_on_def resume_pass_trace)
  obtain post where post: "wp_trace (paused_pass pr w pol status now dry held p0) = wp_trace p2 @ [Called ''clock.resume'' []] @ post"
    unfolding whole resume_and_verify_trace by auto
  have cnt: "resumes (wp_trace (paused_pass pr w pol status now dry held p0)) = Suc (resumes (wp_trace p0))"
    by (simp add: whole n2)
  have dd: "safe_to_resume pr pol status y"
    using d harmless_causes unfolding y decide_resume_iff safe_to_resume_def by (fastforce simp: Let_def)
  have "wp_trace (paused_pass pr w pol status now dry held p0) =
        wp_trace p0 @ mid @ [Called WHY_TOOL_ID [(''window_ticks'', JInt (pp_window pol))], Called ''clock.resume'' []] @ post"
    using post tr(1) mid by simp
  with nd nh own cnt dd tr(2) mid show ?thesis by blast
qed

lemma resume_and_verify_last:
  assumes "fst (resume_and_verify w pol t p)"
  shows "\<exists>tr res. wp_trace (snd (resume_and_verify w pol t p)) = tr @ [Called ''clock.status'' []] \<and>
     w tr ''clock.status'' [] = Some res \<and> tick_moved pol t (fields_of res)"
proof -
  let ?tr = "wp_trace p @ [Called ''clock.resume'' [], Slept (pp_verify_wait pol)]"
  obtain res where r: "w ?tr ''clock.status'' [] = Some res" "tick_moved pol t (fields_of res)"
    using resume_and_verify_moved [OF assms] by blast
  obtain r0 where "w (wp_trace p) ''clock.resume'' [] = Some r0" "truthy (getj (fields_of r0) ''ok'')"
    using assms by (auto simp: resume_and_verify_def call_tool_def Let_def split: option.splits if_splits)
  with r have "wp_trace (snd (resume_and_verify w pol t p)) = ?tr @ [Called ''clock.status'' []]"
    by (simp add: resume_and_verify_trace Let_def)
  with r show ?thesis by blast
qed

lemma resume_pass_cases:
  obtains p1 where "resume_and_verify w pol t (upd_st (\<lambda>st. st\<lparr>ws_resume_attempts := ws_resume_attempts st + 1\<rparr>) p) = (True, p1)"
      "resume_pass pr w pol t now why p = upd_st (\<lambda>st. end_episode (add_note now ''resumed'' (JObj [(''causes'', recent_reports why)]) st))
            (upd_out (\<lambda>o'. o'\<lparr>wo_resumed := True\<rparr>) p1)"
      "wo_alerts (wp_out p1) = wo_alerts (wp_out p)" "wo_verdict (wp_out p1) = wo_verdict (wp_out p)"
  | p1 r where "resume_pass pr w pol t now why p = upd_out (\<lambda>o'. o'\<lparr>wo_verdict := V_ALERT\<rparr>) (raise_alert now r p1)"
      "wo_resumed (wp_out p1) = wo_resumed (wp_out p)"
      "wp_st p1 = (wp_st p)\<lparr>ws_resume_attempts := ws_resume_attempts (wp_st p) + 1\<rparr>"
proof -
  let ?p = "upd_st (\<lambda>st. st\<lparr>ws_resume_attempts := ws_resume_attempts st + 1\<rparr>) p"
  obtain b p1 where rv: "resume_and_verify w pol t ?p = (b, p1)" by fastforce
  then have p1: "p1 = snd (resume_and_verify w pol t ?p)" by simp
  then have k: "wo_resumed (wp_out p1) = wo_resumed (wp_out p)" "wo_alerts (wp_out p1) = wo_alerts (wp_out p)"
    "wp_st p1 = (wp_st p)\<lparr>ws_resume_attempts := ws_resume_attempts (wp_st p) + 1\<rparr>"
    "wo_verdict (wp_out p1) = wo_verdict (wp_out p)"
    by simp_all
  show ?thesis
  proof (cases b)
    case True
    with rv k that(1) show ?thesis by (simp add: resume_pass_def)
  next
    case False
    with rv k that(2) show ?thesis by (simp add: resume_pass_def)
  qed
qed

text \<open>A pass that resumed reports a resume or an alert, never a wake.\<close>

lemma paused_pass_verdict:
  assumes r: "resumes (wp_trace (paused_pass pr w pol status now dry held p0)) \<noteq> resumes (wp_trace p0)"
  shows "wo_verdict (wp_out (paused_pass pr w pol status now dry held p0)) \<in> {V_RESUME, V_ALERT}"
proof -
  obtain why0 p1 why p2 p3 where f: "first_read w pol (upd_st (begin_episode now) p0) = (why0, p1)"
    and l: "decide_loop 3 pr w pol status now dry held why0 p1 = (why, p2)"
    and p3: "p3 = (if held \<and> wo_verdict (wp_out p2) = V_RESUME then suppress_resume p2 else p2)"
    and q: "paused_pass pr w pol status now dry held p0 = settle_outcome (if dry then p3
       else liveness_alert pol now (wo_verdict (wp_out p3))
         (act_on pr w pol (opt_int (getj status ''abs_tick'')) now why (wo_verdict (wp_out p3)) p3))"
    by (rule paused_passE)
  note fp = first_read_props [OF f]
  from decide_loop_props [OF l fp(5)] have e: "loop_effect w pol dry p1 p2" by auto
  have "calls_only {WHY_TOOL_ID, DISMISS_TOOL_ID} (upd_st (begin_episode now) p0) p2"
    using e fp(4) by (auto simp: loop_effect_def intro: calls_only_trans calls_only_mono)
  then have "resumes (wp_trace p2) = resumes (wp_trace (upd_st (begin_episode now) p0))"
    by (rule calls_only_resumes) simp
  then have n: "resumes (wp_trace p3) = resumes (wp_trace p0)" by (simp add: p3)
  let ?t = "opt_int (getj status ''abs_tick'')"
  have v: "wo_verdict (wp_out p3) = V_RESUME" and nd: "\<not> dry"
    using r n unfolding q by (auto simp: act_on_trace split: if_splits) (metis act_on_trace)
  show ?thesis
  proof (cases rule: resume_pass_cases [of w pol ?t p3 pr now why])
    case (1 p4)
    then show ?thesis unfolding q using nd by (simp add: v act_on_def)
  next
    case (2 p4 r)
    then show ?thesis unfolding q using nd by (simp add: v act_on_def)
  qed
qed

abbreviation why_read :: "pause_policy \<Rightarrow> world_event" where
  "why_read pol \<equiv> Called WHY_TOOL_ID [(''window_ticks'', JInt (pp_window pol))]"

abbreviation resume_call :: world_event where
  "resume_call \<equiv> Called ''clock.resume'' []"

lemma frozen_pass_calls: "calls_only {WHY_TOOL_ID, DISMISS_TOOL_ID} p (frozen_pass pr w pol now dry panel p)"
proof -
  obtain why p1 where r: "read_why w (pp_window pol) p = (why, p1)" by fastforce
  then have p1: "p1 = snd (read_why w (pp_window pol) p)" by simp
  have c: "calls_only {WHY_TOOL_ID, DISMISS_TOOL_ID} p p1"
    unfolding p1 by (rule calls_only_mono [OF read_why_calls]) simp
  have d: "calls_only {WHY_TOOL_ID, DISMISS_TOOL_ID} p (dismiss_popups w (pp_dismiss_cap pol) now (upd_out f p1))" for f
    by (rule calls_only_trans [OF _ calls_only_mono [OF dismiss_calls]]) (simp_all add: c)
  show ?thesis by (simp add: frozen_pass_def r Let_def c d)
qed

lemma frozen_pass_resumes [simp]: "resumes (wp_trace (frozen_pass pr w pol now dry panel p)) = resumes (wp_trace p)"
  by (rule calls_only_resumes [OF frozen_pass_calls]) simp

text \<open>The three kinds of pass.\<close>

definition start_pass :: "pause_policy \<Rightarrow> obj \<Rightarrow> rat \<Rightarrow> bool \<Rightarrow> world_event list \<Rightarrow> watch_state \<Rightarrow> watch_pass" where
  "start_pass pol status now held tr st =
     \<lparr>wp_st = snd (track_tick pol now (truthy (getj status ''paused'')) (opt_int (getj status ''abs_tick'')) st),
      wp_out = new_outcome V_IDLE ''not paused'' False held, wp_trace = tr\<rparr>"

lemma start_pass_simps [simp]:
  "wp_trace (start_pass pol status now held tr st) = tr" "wo_alerts (wp_out (start_pass pol status now held tr st)) = []"
  "ws_owned (wp_st (start_pass pol status now held tr st)) = ws_owned st"
  "ws_resume_attempts (wp_st (start_pass pol status now held tr st)) = ws_resume_attempts st"
  "ws_overseer_woken (wp_st (start_pass pol status now held tr st)) = ws_overseer_woken st"
  "\<not> wo_resumed (wp_out (start_pass pol status now held tr st))"
  by (simp_all add: start_pass_def new_outcome_def)

definition lasting :: "obj \<Rightarrow> bool" where
  "lasting status \<longleftrightarrow> truthy (getj status ''paused'') \<and> \<not> truthy (getj status ''tripwire'')"

lemma run_lasting:
  assumes "lasting status"
  shows "run_pause_watch pr w pol status now dry held tr st =
     (let q = paused_pass pr w pol status now dry held (start_pass pol status now held tr st) in
      (if dry then st else wp_st q, wp_out q, wp_trace q))"
  using assms by (simp add: run_pause_watch_def start_pass_def lasting_def Let_def split_beta)

lemma run_latched:
  assumes "truthy (getj status ''paused'')" and "truthy (getj status ''tripwire'')"
  shows "run_pause_watch pr w pol status now dry held tr st = (if dry then st else end_episode (wp_st (start_pass pol status now held tr st)),
     new_outcome V_TRIPWIRE ''a tripwire is latched; the tripwire branch owns this pause'' True held, tr)"
  using assms by (simp add: run_pause_watch_def start_pass_def Let_def split_beta)

lemma run_unpaused:
  assumes "\<not> truthy (getj status ''paused'')"
  shows "\<exists>q. run_pause_watch pr w pol status now dry held tr st = (if dry then st else wp_st q, wp_out q, wp_trace q) \<and>
     (q = upd_st end_episode (start_pass pol status now held tr st) \<or>
      q = frozen_pass pr w pol now dry (getj status ''blocking_panel'') (upd_st end_episode (start_pass pol status now held tr st)))"
proof -
  let ?p = "upd_st end_episode (start_pass pol status now held tr st)"
  let ?q = "if fst (track_tick pol now False (opt_int (getj status ''abs_tick'')) st)
    then frozen_pass pr w pol now dry (getj status ''blocking_panel'') ?p else ?p"
  have "run_pause_watch pr w pol status now dry held tr st = (if dry then st else wp_st ?q, wp_out ?q, wp_trace ?q)"
    using assms by (simp add: run_pause_watch_def start_pass_def Let_def split_beta)
  then show ?thesis by (intro exI [of _ ?q]) auto
qed

lemma end_episode_simps [simp]:
  "ws_episode (end_episode st) = None" "ws_owned (end_episode st) = None" "ws_resume_attempts (end_episode st) = 0"
  "\<not> ws_overseer_woken (end_episode st)" "ws_last_alert (end_episode st) = None"
  by (simp_all add: end_episode_def)

lemma frozen_pass_keeps [simp]:
  "ws_episode (wp_st (frozen_pass pr w pol now dry b p)) = ws_episode (wp_st p)"
  "ws_owned (wp_st (frozen_pass pr w pol now dry b p)) = ws_owned (wp_st p)"
  "ws_resume_attempts (wp_st (frozen_pass pr w pol now dry b p)) = ws_resume_attempts (wp_st p)"
proof -
  obtain why p1 where r: "read_why w (pp_window pol) p = (why, p1)" by fastforce
  then have "wp_st p1 = wp_st p" by (metis read_why_simps(1) snd_conv)
  then show "ws_episode (wp_st (frozen_pass pr w pol now dry b p)) = ws_episode (wp_st p)"
    "ws_owned (wp_st (frozen_pass pr w pol now dry b p)) = ws_owned (wp_st p)"
    "ws_resume_attempts (wp_st (frozen_pass pr w pol now dry b p)) = ws_resume_attempts (wp_st p)"
    by (simp_all add: frozen_pass_def r Let_def)
qed

text \<open>A whole run: the resume, when there is one, is safe, verified and alone.\<close>

lemma run_over_episode:
  assumes "\<not> lasting status" and run: "run_pause_watch pr w pol status now dry held tr st = (st', out, tr')"
  shows "resumes tr' = resumes tr" and "\<not> dry \<Longrightarrow> ws_episode st' = None \<and> ws_owned st' = None \<and> ws_resume_attempts st' = 0"
    and "dry \<Longrightarrow> st' = st"
proof -
  have "resumes tr' = resumes tr \<and> (\<not> dry \<longrightarrow> ws_episode st' = None \<and> ws_owned st' = None \<and> ws_resume_attempts st' = 0) \<and>
    (dry \<longrightarrow> st' = st)"
  proof (cases "truthy (getj status ''paused'')")
    case True
    with assms(1) have "truthy (getj status ''tripwire'')" by (simp add: lasting_def)
    from run [unfolded run_latched [OF True this]] show ?thesis by auto
  next
    case False
    from run_unpaused [OF False, of pr w pol now dry held tr st] run show ?thesis by auto
  qed
  then show "resumes tr' = resumes tr" "\<not> dry \<Longrightarrow> ws_episode st' = None \<and> ws_owned st' = None \<and> ws_resume_attempts st' = 0"
    "dry \<Longrightarrow> st' = st" by auto
qed

lemma run_pause_watch_resume:
  assumes run: "run_pause_watch pr w pol status now dry held tr st = (st', out, tr')"
    and r: "resumes tr' \<noteq> resumes tr"
  shows "\<not> dry \<and> \<not> held \<and> truthy (getj status ''paused'') \<and> \<not> truthy (getj status ''tripwire'') \<and>
    ws_owned st \<noteq> Some OWNED_ESCALATION \<and> ws_resume_attempts st < 1 \<and> \<not> ws_overseer_woken st \<and>
    resumes tr' = Suc (resumes tr) \<and>
    (\<exists>mid y post. tr' = tr @ mid @ [why_read pol, resume_call] @ post \<and>
      w (tr @ mid) WHY_TOOL_ID [(''window_ticks'', JInt (pp_window pol))] = Some (JObj y) \<and> safe_to_resume pr pol status y)"
proof -
  have ls: "lasting status" using run_over_episode(1) [OF _ run] r by blast
  define p where "p = start_pass pol status now held tr st"
  define q where "q = paused_pass pr w pol status now dry held p"
  have tr': "tr' = wp_trace q"
    using run unfolding run_lasting [OF ls] by (simp add: Let_def p_def q_def)
  have "resumes (wp_trace (paused_pass pr w pol status now dry held p)) \<noteq> resumes (wp_trace p)"
    using r by (simp add: tr' q_def [symmetric], simp add: p_def)
  from paused_pass_resume [OF this, folded q_def tr'] ls show ?thesis
    by (simp add: p_def lasting_def)
qed

text \<open>A fort reported resumed is one whose clock was read again and had moved on.\<close>

lemma resume_pass_resumed:
  assumes "wo_resumed (wp_out (resume_pass pr w pol t now why p))" and "\<not> wo_resumed (wp_out p)"
  shows "\<exists>tr res. wp_trace (resume_pass pr w pol t now why p) = tr @ [Called ''clock.status'' []] \<and>
     w tr ''clock.status'' [] = Some res \<and> tick_moved pol t (fields_of res)"
proof (cases rule: resume_pass_cases [of w pol t p pr now why])
  case (1 p1)
  then have "fst (resume_and_verify w pol t (upd_st (\<lambda>st. st\<lparr>ws_resume_attempts := ws_resume_attempts st + 1\<rparr>) p))" by simp
  then show ?thesis unfolding resume_pass_trace by (rule resume_and_verify_last)
next
  case (2 p1 r)
  with assms show ?thesis by simp
qed

text \<open>No overdue pause without an alert.\<close>

lemma liveness_done: "pp_liveness pol > 0 \<Longrightarrow> ws_last_alert st = Some now \<Longrightarrow> \<not> liveness_due st pol now"
  by (auto simp: liveness_due_def split: option.splits)

lemma liveness_alert_done:
  assumes "pp_liveness pol > 0" and "v \<noteq> V_ORDINARY_HELD"
    and "wo_alerts (wp_out p) \<noteq> [] \<Longrightarrow> ws_last_alert (wp_st p) = Some now"
  shows "\<not> liveness_due (wp_st (liveness_alert pol now v p)) pol now"
proof (cases "wo_alerts (wp_out p) = [] \<and> liveness_due (wp_st p) pol now")
  case True
  with assms(2) show ?thesis by (simp add: liveness_alert_def liveness_done [OF assms(1)])
next
  case False
  with assms show ?thesis by (auto simp: liveness_alert_def liveness_done [OF assms(1)])
qed

lemma act_on_alerts:
  assumes "wo_alerts (wp_out p) = []" and "wo_alerts (wp_out (act_on pr w pol t now why v p)) \<noteq> []"
  shows "ws_last_alert (wp_st (act_on pr w pol t now why v p)) = Some now"
proof (cases v)
  case V_RESUME
  show ?thesis
  proof (cases rule: resume_pass_cases [of w pol t p pr now why])
    case (1 p1)
    with assms V_RESUME show ?thesis by (simp add: act_on_def)
  next
    case (2 p1 r)
    then show ?thesis by (simp add: act_on_def V_RESUME)
  qed
qed (use assms in \<open>simp_all add: act_on_def\<close>)

lemma liveness_free: "ws_episode st = None \<Longrightarrow> \<not> liveness_due st pol now"
  by (simp add: liveness_due_def)

lemma paused_pass_liveness:
  assumes "pp_liveness pol > 0" and "\<not> dry" and "wo_alerts (wp_out p0) = []"
    and v: "wo_verdict (wp_out (paused_pass pr w pol status now dry held p0)) \<noteq> V_ORDINARY_HELD"
  shows "\<not> liveness_due (wp_st (paused_pass pr w pol status now dry held p0)) pol now"
proof -
  obtain why0 p1 why p2 p3 where f: "first_read w pol (upd_st (begin_episode now) p0) = (why0, p1)"
    and l: "decide_loop 3 pr w pol status now dry held why0 p1 = (why, p2)"
    and p3: "p3 = (if held \<and> wo_verdict (wp_out p2) = V_RESUME then suppress_resume p2 else p2)"
    and q: "paused_pass pr w pol status now dry held p0 = settle_outcome (if dry then p3
       else liveness_alert pol now (wo_verdict (wp_out p3))
         (act_on pr w pol (opt_int (getj status ''abs_tick'')) now why (wo_verdict (wp_out p3)) p3))"
    by (rule paused_passE)
  note fp = first_read_props [OF f]
  from decide_loop_props [OF l fp(5)] have e: "loop_effect w pol dry p1 p2" by auto
  have a3: "wo_alerts (wp_out p3) = []"
    using e fp(2) assms(3) by (simp add: p3 loop_effect_def)
  have nv: "wo_verdict (wp_out p3) \<noteq> V_ORDINARY_HELD"
  proof
    assume o: "wo_verdict (wp_out p3) = V_ORDINARY_HELD"
    with v assms(2) show False unfolding q by (simp add: act_on_def)
  qed
  from liveness_alert_done [OF assms(1) nv act_on_alerts [OF a3]] assms(2)
  show ?thesis unfolding q by simp
qed

lemma paused_pass_held:
  assumes "pp_liveness pol > 0" and "\<not> dry"
    and v: "wo_verdict (wp_out (paused_pass pr w pol status now dry held p0)) = V_ORDINARY_HELD"
  shows "\<not> liveness_due (wp_st (paused_pass pr w pol status now dry held p0)) pol now"
proof -
  obtain why0 p1 why p2 p3 where p3: "p3 = (if held \<and> wo_verdict (wp_out p2) = V_RESUME then suppress_resume p2 else p2)"
    and q: "paused_pass pr w pol status now dry held p0 = settle_outcome (if dry then p3
       else liveness_alert pol now (wo_verdict (wp_out p3))
         (act_on pr w pol (opt_int (getj status ''abs_tick'')) now why (wo_verdict (wp_out p3)) p3))"
    by (rule paused_passE)
  let ?v = "wo_verdict (wp_out p3)"
  have "?v = V_ORDINARY_HELD"
  proof (cases "?v = V_RESUME")
    case True
    with v assms(2) show ?thesis unfolding q
      by (cases rule: resume_pass_cases [of w pol "opt_int (getj status ''abs_tick'')" p3 pr now why])
        (simp_all add: act_on_def)
  next
    case False
    with v assms(2) show ?thesis unfolding q by (auto simp: act_on_def split: pause_call.splits)
  qed
  with assms show ?thesis unfolding q by (simp add: act_on_def liveness_alert_def liveness_due_def)
qed

text \<open>The state a pass leaves, by the parts that matter to the next one.\<close>

lemma act_on_attempts:
  assumes "\<not> wo_resumed (wp_out (act_on pr w pol t now why v p))"
  shows "ws_resume_attempts (wp_st (act_on pr w pol t now why v p)) =
     ws_resume_attempts (wp_st p) + (if v = V_RESUME then 1 else 0)"
    and "ws_owned (wp_st (act_on pr w pol t now why v p)) = ws_owned (wp_st p)"
proof -
  have "ws_resume_attempts (wp_st (act_on pr w pol t now why v p)) =
     ws_resume_attempts (wp_st p) + (if v = V_RESUME then 1 else 0) \<and>
     ws_owned (wp_st (act_on pr w pol t now why v p)) = ws_owned (wp_st p)"
  proof (cases "v = V_RESUME")
    case True
    with assms show ?thesis
      by (cases rule: resume_pass_cases [of w pol t p pr now why]) (simp_all add: act_on_def)
  next
    case False
    then show ?thesis by (auto simp: act_on_def split: pause_call.splits)
  qed
  then show "ws_resume_attempts (wp_st (act_on pr w pol t now why v p)) =
     ws_resume_attempts (wp_st p) + (if v = V_RESUME then 1 else 0)"
    "ws_owned (wp_st (act_on pr w pol t now why v p)) = ws_owned (wp_st p)" by simp_all
qed

lemma act_on_resumes:
  "resumes (wp_trace (act_on pr w pol t now why v p)) = resumes (wp_trace p) + (if v = V_RESUME then 1 else 0)"
  by (cases "v = V_RESUME") (simp_all add: act_on_trace, simp add: act_on_def resume_pass_trace)

lemma paused_pass_kept:
  assumes "\<not> dry" and nr: "\<not> wo_resumed (wp_out (paused_pass pr w pol status now dry held p0))"
  shows "ws_resume_attempts (wp_st (paused_pass pr w pol status now dry held p0)) + int (resumes (wp_trace p0)) =
      ws_resume_attempts (wp_st p0) + int (resumes (wp_trace (paused_pass pr w pol status now dry held p0)))"
    and "ws_owned (wp_st (paused_pass pr w pol status now dry held p0)) = ws_owned (wp_st p0)"
proof -
  obtain why0 p1 why p2 p3 where f: "first_read w pol (upd_st (begin_episode now) p0) = (why0, p1)"
    and l: "decide_loop 3 pr w pol status now dry held why0 p1 = (why, p2)"
    and p3: "p3 = (if held \<and> wo_verdict (wp_out p2) = V_RESUME then suppress_resume p2 else p2)"
    and q: "paused_pass pr w pol status now dry held p0 = settle_outcome (if dry then p3
       else liveness_alert pol now (wo_verdict (wp_out p3))
         (act_on pr w pol (opt_int (getj status ''abs_tick'')) now why (wo_verdict (wp_out p3)) p3))"
    by (rule paused_passE)
  note fp = first_read_props [OF f]
  from decide_loop_props [OF l fp(5)] have e: "loop_effect w pol dry p1 p2" by auto
  have "calls_only {WHY_TOOL_ID, DISMISS_TOOL_ID} (upd_st (begin_episode now) p0) p2"
    using e fp(4) by (auto simp: loop_effect_def intro: calls_only_trans calls_only_mono)
  then have "resumes (wp_trace p2) = resumes (wp_trace (upd_st (begin_episode now) p0))"
    by (rule calls_only_resumes) simp
  then have n: "resumes (wp_trace p3) = resumes (wp_trace p0)" by (simp add: p3)
  have s: "ws_resume_attempts (wp_st p3) = ws_resume_attempts (wp_st p0)" "ws_owned (wp_st p3) = ws_owned (wp_st p0)"
    using e fp(1) by (simp_all add: p3 loop_effect_def)
  let ?a = "act_on pr w pol (opt_int (getj status ''abs_tick'')) now why (wo_verdict (wp_out p3)) p3"
  have na: "\<not> wo_resumed (wp_out ?a)" using nr assms(1) unfolding q by simp
  show "ws_resume_attempts (wp_st (paused_pass pr w pol status now dry held p0)) + int (resumes (wp_trace p0)) =
      ws_resume_attempts (wp_st p0) + int (resumes (wp_trace (paused_pass pr w pol status now dry held p0)))"
    unfolding q using assms(1) act_on_attempts(1) [OF na] s n by (simp add: act_on_resumes)
  show "ws_owned (wp_st (paused_pass pr w pol status now dry held p0)) = ws_owned (wp_st p0)"
    unfolding q using assms(1) act_on_attempts(2) [OF na] s by simp
qed

text \<open>A pass only adds to the trace.\<close>

lemma act_on_extends: "\<exists>es. wp_trace (act_on pr w pol t now why v p) = wp_trace p @ es"
  by (cases "v = V_RESUME") (simp_all add: act_on_trace, simp add: act_on_def resume_pass_trace resume_and_verify_trace)

lemma paused_pass_extends: "\<exists>es. wp_trace (paused_pass pr w pol status now dry held p0) = wp_trace p0 @ es"
proof -
  obtain why0 p1 why p2 p3 where f: "first_read w pol (upd_st (begin_episode now) p0) = (why0, p1)"
    and l: "decide_loop 3 pr w pol status now dry held why0 p1 = (why, p2)"
    and p3: "p3 = (if held \<and> wo_verdict (wp_out p2) = V_RESUME then suppress_resume p2 else p2)"
    and q: "paused_pass pr w pol status now dry held p0 = settle_outcome (if dry then p3
       else liveness_alert pol now (wo_verdict (wp_out p3))
         (act_on pr w pol (opt_int (getj status ''abs_tick'')) now why (wo_verdict (wp_out p3)) p3))"
    by (rule paused_passE)
  note fp = first_read_props [OF f]
  from decide_loop_props [OF l fp(5)] have e: "loop_effect w pol dry p1 p2" by auto
  from fp(4) obtain a where a: "wp_trace p1 = wp_trace p0 @ a" by (auto simp: calls_only_def)
  from e obtain b where "wp_trace p2 = wp_trace p1 @ b" unfolding loop_effect_def calls_only_def by blast
  with a have ab: "wp_trace p2 = wp_trace p0 @ a @ b" by simp
  have t3: "wp_trace p3 = wp_trace p2" by (simp add: p3)
  obtain c where "wp_trace (act_on pr w pol (opt_int (getj status ''abs_tick'')) now why (wo_verdict (wp_out p3)) p3) = wp_trace p3 @ c"
    using act_on_extends by blast
  then show ?thesis unfolding q using ab t3 by simp
qed

lemma run_trace_extends:
  assumes run: "run_pause_watch pr w pol status now dry held tr st = (st', out, tr')"
  shows "\<exists>es. tr' = tr @ es"
proof (cases "lasting status")
  case True
  from run paused_pass_extends [of pr w pol status now dry held "start_pass pol status now held tr st"] show ?thesis
    unfolding run_lasting [OF True] by (auto simp: Let_def)
next
  case False
  show ?thesis
  proof (cases "truthy (getj status ''paused'')")
    case True
    with False have "truthy (getj status ''tripwire'')" by (simp add: lasting_def)
    from run [unfolded run_latched [OF True this]] show ?thesis by simp
  next
    case np: False
    let ?p = "upd_st end_episode (start_pass pol status now held tr st)"
    from frozen_pass_calls [of ?p pr w pol now dry "getj status ''blocking_panel''"]
    have "\<exists>es. wp_trace (frozen_pass pr w pol now dry (getj status ''blocking_panel'') ?p) = tr @ es" by (auto simp: calls_only_def)
    with run_unpaused [OF np, of pr w pol now dry held tr st] run show ?thesis by auto
  qed
qed

subsection \<open>Passes one after the other\<close>

text \<open>Whatever a pass finds, no alert is overdue after it.\<close>

lemma run_pause_watch_overdue:
  assumes run: "run_pause_watch pr w pol status now False held tr st = (st', out, tr')" and l: "pp_liveness pol > 0"
  shows "\<not> liveness_due st' pol now"
proof (cases "lasting status")
  case False
  from run_over_episode(2) [OF False run] show ?thesis by (simp add: liveness_free)
next
  case True
  define p where "p = start_pass pol status now held tr st"
  have a: "wo_alerts (wp_out p) = []" by (simp add: p_def)
  have "st' = wp_st (paused_pass pr w pol status now False held p)"
    using run unfolding run_lasting [OF True] by (simp add: Let_def p_def)
  then show ?thesis
    using paused_pass_liveness [OF l _ a, of False pr w status now held] paused_pass_held [OF l, of False pr w status now held p]
    by (cases "wo_verdict (wp_out (paused_pass pr w pol status now False held p)) = V_ORDINARY_HELD") auto
qed

lemma paused_pass_resumed_state:
  assumes "wo_resumed (wp_out (paused_pass pr w pol status now dry held p0))" and "\<not> wo_resumed (wp_out p0)"
  shows "ws_resume_attempts (wp_st (paused_pass pr w pol status now dry held p0)) = 0"
proof -
  obtain why0 p1 why p2 p3 where f: "first_read w pol (upd_st (begin_episode now) p0) = (why0, p1)"
    and l: "decide_loop 3 pr w pol status now dry held why0 p1 = (why, p2)"
    and p3: "p3 = (if held \<and> wo_verdict (wp_out p2) = V_RESUME then suppress_resume p2 else p2)"
    and q: "paused_pass pr w pol status now dry held p0 = settle_outcome (if dry then p3
       else liveness_alert pol now (wo_verdict (wp_out p3))
         (act_on pr w pol (opt_int (getj status ''abs_tick'')) now why (wo_verdict (wp_out p3)) p3))"
    by (rule paused_passE)
  note fp = first_read_props [OF f]
  from decide_loop_props [OF l fp(5)] have e: "loop_effect w pol dry p1 p2" by auto
  have n3: "\<not> wo_resumed (wp_out p3)" using e fp(3) assms(2) by (simp add: p3 loop_effect_def)
  then have nd: "\<not> dry" using assms(1) unfolding q by auto
  let ?t = "opt_int (getj status ''abs_tick'')"
  from assms(1) nd have r: "wo_resumed (wp_out (act_on pr w pol ?t now why (wo_verdict (wp_out p3)) p3))"
    unfolding q by simp
  then have v: "wo_verdict (wp_out p3) = V_RESUME" using n3 by (auto simp: act_on_def split: pause_call.splits)
  show ?thesis
  proof (cases rule: resume_pass_cases [of w pol ?t p3 pr now why])
    case (1 p1)
    then show ?thesis unfolding q using nd by (simp add: v act_on_def)
  next
    case (2 p1 r)
    with r n3 show ?thesis by (simp add: v act_on_def)
  qed
qed

lemma run_pause_watch_kept:
  assumes run: "run_pause_watch pr w pol status now dry held tr st = (st', out, tr')" and "lasting status"
    and "\<not> wo_resumed out" and nd: "\<not> dry"
  shows "ws_resume_attempts st' + int (resumes tr) = ws_resume_attempts st + int (resumes tr')" "ws_owned st' = ws_owned st"
proof -
  define p where "p = start_pass pol status now held tr st"
  have q: "st' = wp_st (paused_pass pr w pol status now dry held p)" "out = wp_out (paused_pass pr w pol status now dry held p)"
    "tr' = wp_trace (paused_pass pr w pol status now dry held p)"
    using run nd unfolding run_lasting [OF assms(2)] by (simp_all add: Let_def p_def)
  from paused_pass_kept [OF nd, of pr w pol status now held p] assms(3)
  show "ws_resume_attempts st' + int (resumes tr) = ws_resume_attempts st + int (resumes tr')" "ws_owned st' = ws_owned st"
    unfolding q by (simp_all add: p_def)
qed

text \<open>A dry run reads at most once and leaves the state.\<close>

lemma run_dry:
  assumes "run_pause_watch pr w pol status now dry held tr st = (st', out, tr')" and "dry"
  shows "st' = st" and "resumes tr' = resumes tr"
proof -
  show "st' = st" using assms by (simp add: run_pause_watch_def Let_def split_beta)
  show "resumes tr' = resumes tr" using run_pause_watch_resume [OF assms(1)] assms(2) by blast
qed

record watch_input =
  wi_world :: world
  wi_status :: obj
  wi_now :: rat
  wi_dry :: bool
  wi_held :: bool

text \<open>Passes in sequence over one state file, with the log of the outcomes.\<close>

primrec watch_passes :: "(json \<Rightarrow> string) \<Rightarrow> pause_policy \<Rightarrow> watch_input list \<Rightarrow> watch_state \<Rightarrow> world_event list
    \<Rightarrow> watch_state \<times> world_event list \<times> watch_outcome list" where
  "watch_passes pr pol [] st tr = (st, tr, [])"
| "watch_passes pr pol (i # is) st tr =
     (case run_pause_watch pr (wi_world i) pol (wi_status i) (wi_now i) (wi_dry i) (wi_held i) tr st of (st1, out, tr1) \<Rightarrow>
      case watch_passes pr pol is st1 tr1 of (st2, tr2, outs) \<Rightarrow> (st2, tr2, out # outs))"

text \<open>The pauses that ended in a sequence: passes that found the fort running or latched, or resumed it.\<close>

fun pauses_ended :: "watch_input list \<Rightarrow> watch_outcome list \<Rightarrow> nat" where
  "pauses_ended (i # is) (o' # outs) = (if \<not> wi_dry i \<and> (\<not> lasting (wi_status i) \<or> wo_resumed o') then 1 else 0) + pauses_ended is outs"
| "pauses_ended _ _ = 0"

definition resume_budget :: "watch_state \<Rightarrow> nat" where
  "resume_budget st = (if ws_resume_attempts st < 1 then 1 else 0)"

lemma one_pass_budget:
  assumes run: "run_pause_watch pr w pol status now dry held tr st = (st', out, tr')" and nn: "ws_resume_attempts st \<ge> 0"
  shows "resumes tr' + resume_budget st' \<le> resumes tr + resume_budget st +
      (if \<not> dry \<and> (\<not> lasting status \<or> wo_resumed out) then 1 else 0)"
proof (cases dry)
  case True
  from run_dry [OF run True] show ?thesis by simp
next
  case nd: False
  show ?thesis
  proof (cases "\<not> lasting status \<or> wo_resumed out")
    case True
    have "resumes tr' \<le> resumes tr + resume_budget st"
      using run_pause_watch_resume [OF run] by (cases "resumes tr' = resumes tr") (auto simp: resume_budget_def)
    moreover have "resume_budget st' \<le> 1" by (simp add: resume_budget_def)
    ultimately show ?thesis using True nd by simp
  next
    case False
    then have k: "ws_resume_attempts st' + int (resumes tr) = ws_resume_attempts st + int (resumes tr')"
      using run_pause_watch_kept(1) [OF run _ _ nd] by blast
    show ?thesis
    proof (cases "resumes tr' = resumes tr")
      case True
      with k show ?thesis by (simp add: resume_budget_def)
    next
      case r: False
      from run_pause_watch_resume [OF run r] k nn show ?thesis by (simp add: resume_budget_def)
    qed
  qed
qed

lemma run_attempts_nonneg:
  assumes run: "run_pause_watch pr w pol status now dry held tr st = (st', out, tr')" and nn: "ws_resume_attempts st \<ge> 0"
  shows "ws_resume_attempts st' \<ge> 0"
proof (cases "dry \<or> \<not> lasting status")
  case True
  with nn show ?thesis using run_dry(1) [OF run] run_over_episode(2,3) [OF _ run] by (cases dry) auto
next
  case False
  define p where "p = start_pass pol status now held tr st"
  have q: "st' = wp_st (paused_pass pr w pol status now dry held p)" "out = wp_out (paused_pass pr w pol status now dry held p)"
    using run False run_lasting [of status pr w pol now dry held tr st] by (simp_all add: Let_def p_def)
  show ?thesis
  proof (cases "wo_resumed out")
    case True
    then show ?thesis using paused_pass_resumed_state [of pr w pol status now dry held p] q by (simp add: p_def)
  next
    case nr: False
    have "resumes tr' \<ge> resumes tr"
      using run_pause_watch_resume [OF run] by (cases "resumes tr' = resumes tr") auto
    with run_pause_watch_kept(1) [OF run _ nr] False nn show ?thesis by auto
  qed
qed

lemma passes_budget:
  assumes "watch_passes pr pol is st tr = (st', tr', outs)" and "ws_resume_attempts st \<ge> 0"
  shows "resumes tr' + resume_budget st' \<le> resumes tr + resume_budget st + pauses_ended is outs"
  using assms
proof (induction "is" arbitrary: st tr outs)
  case Nil
  then show ?case by simp
next
  case (Cons i rest)
  obtain st1 out tr1 where one: "run_pause_watch pr (wi_world i) pol (wi_status i) (wi_now i) (wi_dry i) (wi_held i) tr st = (st1, out, tr1)"
    by (rule prod_cases3)
  obtain st2 tr2 outs2 where more: "watch_passes pr pol rest st1 tr1 = (st2, tr2, outs2)" by (rule prod_cases3)
  from Cons.prems one more have eq: "st' = st2" "tr' = tr2" "outs = out # outs2" by simp_all
  have "resumes tr' + resume_budget st' \<le> resumes tr1 + resume_budget st1 + pauses_ended rest outs2"
    using Cons.IH [of st1 tr1 outs2] more run_attempts_nonneg [OF one Cons.prems(2)] by (simp add: eq)
  with one_pass_budget [OF one Cons.prems(2)] show ?case by (simp add: eq)
qed

subsection \<open>After the Overseer\<close>

lemma verdict_resume_cases:
  obtains p1 where "verdict_resume pr w pol t now v p =
       upd_st (\<lambda>st. end_episode (add_note now ''resumed_after_overseer'' JNull st))
            (upd_out (\<lambda>o'. o'\<lparr>wo_resumed := True, wo_still_paused := False\<rparr>) p1)"
      "\<exists>tr res. wp_trace p1 = tr @ [Called ''clock.status'' []] \<and> w tr ''clock.status'' [] = Some res \<and> tick_moved pol t (fields_of res)"
  | p1 r where "verdict_resume pr w pol t now v p = set_verdict V_ALERT (raise_alert now r p1)"
      "wo_resumed (wp_out p1) = wo_resumed (wp_out p)"
proof -
  let ?p = "upd_st (\<lambda>st. add_note now ''overseer_verdict'' (verdict_note v)
             (st\<lparr>ws_resume_attempts := ws_resume_attempts st + 1\<rparr>)) p"
  obtain b p1 where rv: "resume_and_verify w pol t ?p = (b, p1)" by fastforce
  then have p1: "p1 = snd (resume_and_verify w pol t ?p)" and b: "b = fst (resume_and_verify w pol t ?p)" by simp_all
  show ?thesis
  proof (cases b)
    case True
    with b have f: "fst (resume_and_verify w pol t ?p)" by simp
    have ex: "\<exists>tr res. wp_trace p1 = tr @ [Called ''clock.status'' []] \<and> w tr ''clock.status'' [] = Some res \<and> tick_moved pol t (fields_of res)"
      unfolding p1 by (rule resume_and_verify_last [OF f])
    show ?thesis by (rule that(1) [OF _ ex]) (simp add: verdict_resume_def rv True)
  next
    case False
    have k: "wo_resumed (wp_out p1) = wo_resumed (wp_out p)" unfolding p1 by simp
    show ?thesis by (rule that(2) [OF _ k]) (simp add: verdict_resume_def rv False)
  qed
qed

lemma set_verdict_simps [simp]:
  "wp_st (set_verdict v p) = wp_st p" "wp_trace (set_verdict v p) = wp_trace p"
  "wo_resumed (wp_out (set_verdict v p)) = wo_resumed (wp_out p)"
  "wo_still_paused (wp_out (set_verdict v p)) = wo_still_paused (wp_out p)" "wo_alerts (wp_out (set_verdict v p)) = wo_alerts (wp_out p)"
  by (simp_all add: set_verdict_def)

lemma verdict_resume_trace:
  "wp_trace (verdict_resume pr w pol t now v p) = wp_trace (snd (resume_and_verify w pol t
     (upd_st (\<lambda>st. add_note now ''overseer_verdict'' (verdict_note v)
             (st\<lparr>ws_resume_attempts := ws_resume_attempts st + 1\<rparr>)) p)))"
  by (simp add: verdict_resume_def split: prod.splits bool.splits)

text \<open>When this sequence touches the clock at all, and what it does then.\<close>

definition resume_granted :: "bool \<Rightarrow> bool \<Rightarrow> pause_verdict option \<Rightarrow> bool" where
  "resume_granted escalated held verdict \<longleftrightarrow> \<not> escalated \<and> \<not> held \<and> (\<exists>v. verdict = Some v \<and> pv_resume v)"

definition overseer_pass :: "bool \<Rightarrow> string \<Rightarrow> world_event list \<Rightarrow> watch_state \<Rightarrow> watch_pass" where
  "overseer_pass held what tr st =
     \<lparr>wp_st = st, wp_out = new_outcome V_WAKE_OVERSEER (''the Overseer ran on '' @ what) True held, wp_trace = tr\<rparr>"

lemma overseer_pass_simps [simp]:
  "wp_st (overseer_pass held what tr st) = st" "wp_trace (overseer_pass held what tr st) = tr"
  "\<not> wo_resumed (wp_out (overseer_pass held what tr st))" "wo_still_paused (wp_out (overseer_pass held what tr st))"
  by (simp_all only: overseer_pass_def new_outcome_def watch_pass.simps watch_outcome.simps simp_thms)

text \<open>The four ways out of the sequence; the texts of the alerts do not matter below.\<close>

lemma finish_cases:
  assumes "finish_after_overseer pr w pol escalated status now verdict held what tr st = (st', out, tr')"
  obtains q where "(st', out, tr') = (wp_st q, wp_out q, wp_trace q)"
    and "escalated \<and> (\<exists>r f. q = raise_alert now r (upd_st f (overseer_pass held what tr st)) \<and> ws_owned (f st) = Some OWNED_ESCALATION) \<or>
      \<not> escalated \<and> \<not> resume_granted escalated held verdict \<and>
        (\<exists>r. q = set_verdict V_ALERT (raise_alert now r (overseer_pass held what tr st))) \<or>
      \<not> escalated \<and> \<not> resume_granted escalated held verdict \<and> held \<and>
        (\<exists>f a r. q = upd_out (\<lambda>o'. o'\<lparr>wo_verdict := V_HELD, wo_reason := r\<rparr>) (action a (upd_st f (overseer_pass held what tr st)))) \<or>
      resume_granted escalated held verdict \<and>
        (\<exists>v. q = verdict_resume pr w pol (opt_int (getj status ''abs_tick'')) now v (overseer_pass held what tr st))"
proof -
  note d = assms [unfolded finish_after_overseer_def Let_def, folded overseer_pass_def]
  show ?thesis
  proof (cases escalated)
    case True
    show ?thesis
      by (rule that [OF d [unfolded if_P [OF True], symmetric]], rule disjI1, intro conjI exI, rule True, rule refl) simp
  next
    case False
    note d = d [unfolded if_not_P [OF False]]
    show ?thesis
    proof (cases verdict)
      case None
      show ?thesis
        by (rule that [OF d [unfolded None option.case, symmetric]], rule disjI2, rule disjI1)
          (use False in \<open>auto simp: resume_granted_def None simp del: append.simps\<close>)
    next
      case (Some v)
      note d = d [unfolded Some option.case]
      show ?thesis
      proof (cases "pv_resume v")
        case no: False
        show ?thesis
          by (rule that [OF d [unfolded if_P [OF no], symmetric]], rule disjI2, rule disjI1)
            (use False no in \<open>auto simp: resume_granted_def Some simp del: append.simps\<close>)
      next
        case yes: True
        then have nn: "\<not> \<not> pv_resume v" by simp
        note d = d [unfolded if_not_P [OF nn]]
        show ?thesis
        proof (cases held)
          case True
          show ?thesis
            by (rule that [OF d [unfolded if_P [OF True], symmetric]], rule disjI2, rule disjI2, rule disjI1)
              (use False True in \<open>auto simp: resume_granted_def Some simp del: append.simps\<close>)
        next
          case nh: False
          show ?thesis
            by (rule that [OF d [unfolded if_not_P [OF nh], symmetric]], rule disjI2, rule disjI2, rule disjI2)
              (use False nh yes in \<open>auto simp: resume_granted_def Some\<close>)
        qed
      qed
    qed
  qed
qed

lemma verdict_resume_still:
  assumes "wo_still_paused (wp_out p)" and "\<not> wo_resumed (wp_out p)"
  shows "wo_still_paused (wp_out (verdict_resume pr w pol t now v p)) \<longleftrightarrow> \<not> wo_resumed (wp_out (verdict_resume pr w pol t now v p))"
proof -
  let ?q = "upd_st (\<lambda>st. add_note now ''overseer_verdict'' (verdict_note v)
      (st\<lparr>ws_resume_attempts := ws_resume_attempts st + 1\<rparr>)) p"
  obtain b q1 where r: "resume_and_verify w pol t ?q = (b, q1)" by fastforce
  then have "q1 = snd (resume_and_verify w pol t ?q)" by simp
  then have "wo_still_paused (wp_out q1)" "\<not> wo_resumed (wp_out q1)" using assms by simp_all
  then show ?thesis by (cases b) (simp_all add: verdict_resume_def r)
qed

lemma finish_trace:
  assumes "finish_after_overseer pr w pol escalated status now verdict held what tr st = (st', out, tr')"
  shows "\<not> resume_granted escalated held verdict \<Longrightarrow> tr' = tr"
    and "resume_granted escalated held verdict \<Longrightarrow> \<exists>post. tr' = tr @ resume_call # post \<and> resumes post = 0"
proof -
  have "(\<not> resume_granted escalated held verdict \<longrightarrow> tr' = tr) \<and>
    (resume_granted escalated held verdict \<longrightarrow> (\<exists>post. tr' = tr @ resume_call # post \<and> resumes post = 0))"
    by (rule finish_cases [OF assms], elim disjE conjE exE)
      (auto simp: resume_granted_def verdict_resume_trace resume_and_verify_trace Let_def split: option.splits)
  then show "\<not> resume_granted escalated held verdict \<Longrightarrow> tr' = tr"
    "resume_granted escalated held verdict \<Longrightarrow> \<exists>post. tr' = tr @ resume_call # post \<and> resumes post = 0" by blast+
qed

lemma finish_outcome:
  assumes "finish_after_overseer pr w pol escalated status now verdict held what tr st = (st', out, tr')"
  shows "wo_resumed out \<Longrightarrow> resume_granted escalated held verdict \<and>
      (\<exists>tr0 res. tr' = tr0 @ [Called ''clock.status'' []] \<and> w tr0 ''clock.status'' [] = Some res \<and>
         tick_moved pol (opt_int (getj status ''abs_tick'')) (fields_of res))"
    and "\<not> wo_resumed out \<Longrightarrow> wo_alerts out \<noteq> [] \<or> held \<and> wo_verdict out = V_HELD"
    and "escalated \<Longrightarrow> ws_owned st' = Some OWNED_ESCALATION"
    and "wo_still_paused out \<longleftrightarrow> \<not> wo_resumed out"
proof -
  let ?t = "opt_int (getj status ''abs_tick'')"
  have "(wo_resumed out \<longrightarrow> resume_granted escalated held verdict \<and>
      (\<exists>tr0 res. tr' = tr0 @ [Called ''clock.status'' []] \<and> w tr0 ''clock.status'' [] = Some res \<and>
         tick_moved pol ?t (fields_of res))) \<and>
    (\<not> wo_resumed out \<longrightarrow> wo_alerts out \<noteq> [] \<or> held \<and> wo_verdict out = V_HELD) \<and>
    (escalated \<longrightarrow> ws_owned st' = Some OWNED_ESCALATION) \<and> (wo_still_paused out \<longleftrightarrow> \<not> wo_resumed out)"
  proof (rule finish_cases [OF assms], elim disjE conjE exE, goal_cases)
    case (4 q v)
    let ?p = "overseer_pass held what tr st"
    have s: "wo_still_paused (wp_out q) \<longleftrightarrow> \<not> wo_resumed (wp_out q)"
      unfolding 4 by (rule verdict_resume_still) simp_all
    have ne: "\<not> escalated" using 4 by (simp add: resume_granted_def)
    show ?case
    proof (cases rule: verdict_resume_cases [of pr w pol ?t now v ?p])
      case (1 p1)
      with 4 ne s show ?thesis by simp
    next
      case (2 p1 r)
      with 4 ne s show ?thesis by simp
    qed
  qed (auto simp: resume_granted_def)
  then show "wo_resumed out \<Longrightarrow> resume_granted escalated held verdict \<and>
      (\<exists>tr0 res. tr' = tr0 @ [Called ''clock.status'' []] \<and> w tr0 ''clock.status'' [] = Some res \<and>
         tick_moved pol ?t (fields_of res))"
    "\<not> wo_resumed out \<Longrightarrow> wo_alerts out \<noteq> [] \<or> held \<and> wo_verdict out = V_HELD"
    "escalated \<Longrightarrow> ws_owned st' = Some OWNED_ESCALATION" "wo_still_paused out \<longleftrightarrow> \<not> wo_resumed out"
    by blast+
qed

text \<open>A resume that took but whose check could not be read is not taken back: no pause follows it.\<close>

lemma unread_check_not_paused:
  assumes "w tr ''clock.resume'' [] = Some res" and "truthy (getj (fields_of res) ''ok'')"
    and "w (tr @ [resume_call, Slept (pp_verify_wait pol)]) ''clock.status'' [] = None" and "wp_trace p = tr"
  shows "\<not> fst (resume_and_verify w pol before p)"
    and "wp_trace (snd (resume_and_verify w pol before p)) = tr @ [resume_call, Slept (pp_verify_wait pol), Called ''clock.status'' []]"
  using assms by (simp_all add: resume_and_verify_trace Let_def)
    (auto simp: resume_and_verify_def call_tool_def Let_def verify_resume_moved)

end
