(* ===== verification/Execute_Facts.thy ===== *)
theory Execute_Facts
  imports Execute
begin

section \<open>What an execute pass does and does not do\<close>

text \<open>
  \<open>grew P ph ph'\<close>: the calls from one phase to a later one all satisfy \<open>P\<close>, and no step was counted as
  run; one lemma per operation, composed along the pass. \<open>run_execute_calls\<close> is the shape of a whole pass:
  calls that run nothing, then the runs over a state the queue returned in this pass, then the closes.
\<close>

subsection \<open>What a pass calls\<close>

lemma tool_calls: "ph_calls (snd (tool e name args ph)) = ph_calls ph @ [(name, args)]"
  by (simp add: tool_def Let_def split: option.splits)

lemma tool_frame: "tool e name args ph = (v, ph1) \<Longrightarrow>
    ph_calls ph1 = ph_calls ph @ [(name, args)] \<and> ph_st ph1 = ph_st ph \<and> ph_projects ph1 = ph_projects ph \<and>
    ph_wakes ph1 = ph_wakes ph \<and> ph_actions ph1 = ph_actions ph \<and> ph_steps_run ph1 = ph_steps_run ph \<and>
    ph_to_close ph1 = ph_to_close ph \<and> ph_stock_reads ph1 = ph_stock_reads ph"
  by (auto simp: tool_def Let_def split: option.splits)

lemma act_frame [simp]: "ph_calls (act k d ph) = ph_calls ph" "ph_st (act k d ph) = ph_st ph"
  "ph_steps_run (act k d ph) = ph_steps_run ph" "ph_projects (act k d ph) = ph_projects ph" "ph_wakes (act k d ph) = ph_wakes ph"
  by (simp_all add: act_def)

lemma upd_frame [simp]: "ph_calls (upd f ph) = ph_calls ph" "ph_st (upd f ph) = f (ph_st ph)"
  "ph_steps_run (upd f ph) = ph_steps_run ph" "ph_projects (upd f ph) = ph_projects ph" "ph_wakes (upd f ph) = ph_wakes ph"
  by (simp_all add: upd_def)

lemma send_wake_frame [simp]: "ph_calls (send_wake e p r k m ph) = ph_calls ph" "ph_st (send_wake e p r k m ph) = ph_st ph"
  "ph_steps_run (send_wake e p r k m ph) = ph_steps_run ph" "ph_projects (send_wake e p r k m ph) = ph_projects ph"
  by (simp_all add: send_wake_def)

lemma attend_frame [simp]: "ph_calls (attend e p s c m ph) = ph_calls ph" "ph_steps_run (attend e p s c m ph) = ph_steps_run ph"
  "ph_projects (attend e p s c m ph) = ph_projects ph"
  by (simp_all add: attend_def Let_def)

lemma step_is_done_frame [simp]: "ph_calls (step_is_done e p s d ph) = ph_calls ph"
  "ph_steps_run (step_is_done e p s d ph) = ph_steps_run ph" "ph_projects (step_is_done e p s d ph) = ph_projects ph"
  by (simp_all add: step_is_done_def Let_def)

lemma hold_step_frame [simp]: "ph_calls (hold_step e s w ph) = ph_calls ph" "ph_steps_run (hold_step e s w ph) = ph_steps_run ph"
  by (simp_all add: hold_step_def Let_def split: option.splits)

lemma release_hold_frame [simp]: "ph_calls (release_hold s ph) = ph_calls ph" "ph_steps_run (release_hold s ph) = ph_steps_run ph"
  by (simp_all add: release_hold_def)

lemma prune_holds_frame [simp]: "ph_calls (prune_holds rs ph) = ph_calls ph" "ph_steps_run (prune_holds rs ph) = ph_steps_run ph"
  by (simp_all add: prune_holds_def)

lemma after_run_frame [simp]: "ph_calls (after_run e p s out ph) = ph_calls ph" "ph_steps_run (after_run e p s out ph) = ph_steps_run ph"
  by (simp_all add: after_run_def Let_def)

text \<open>Going on from \<open>ph\<close> to \<open>ph'\<close>, the calls are appended, each satisfies \<open>P\<close>, and no step is counted as run.\<close>

definition grew :: "(phase_call \<Rightarrow> bool) \<Rightarrow> phase \<Rightarrow> phase \<Rightarrow> bool" where
  "grew P ph ph' \<longleftrightarrow> (\<exists>cs. ph_calls ph' = ph_calls ph @ cs \<and> list_all P cs) \<and> ph_steps_run ph' = ph_steps_run ph"

lemma grew_same: "ph_calls ph' = ph_calls ph \<Longrightarrow> ph_steps_run ph' = ph_steps_run ph \<Longrightarrow> grew P ph ph'"
  by (simp add: grew_def)

lemma grew_trans [trans]: "grew P a b \<Longrightarrow> grew P b c \<Longrightarrow> grew P a c"
  by (fastforce simp: grew_def)

lemma grew_mono: "grew P a b \<Longrightarrow> (\<And>c. P c \<Longrightarrow> Q c) \<Longrightarrow> grew Q a b"
  by (force simp: grew_def list_all_iff)

lemma grew_tool: "tool e name args ph = (v, ph1) \<Longrightarrow> P (name, args) \<Longrightarrow> ph_calls ph' = ph_calls ph1 \<Longrightarrow>
    ph_steps_run ph' = ph_steps_run ph1 \<Longrightarrow> grew P ph ph'"
  by (auto simp: grew_def dest!: tool_frame)

lemma grew_fold:
  assumes "\<And>x ph. x \<in> set xs \<Longrightarrow> grew P ph (f x ph)"
  shows "grew P ph (fold f xs ph)"
  using assms
proof (induction xs arbitrary: ph)
  case (Cons x xs)
  have "grew P ph (f x ph)" by (rule Cons.prems) simp
  moreover have "grew P (f x ph) (fold f xs (f x ph))" by (rule Cons.IH) (rule Cons.prems, simp)
  ultimately show ?case by (simp add: grew_trans)
qed (simp add: grew_same)

lemma grew_fold_snd:
  assumes "\<And>x b ph. grew P ph (snd (f x (b, ph)))"
  shows "grew P (snd z) (snd (fold f xs z))"
proof (induction xs arbitrary: z)
  case (Cons x xs)
  have "grew P (snd z) (snd (f x z))" using assms [of "snd z" x "fst z"] by simp
  with Cons.IH [of "f x z"] show ?case by (simp add: grew_trans)
qed (simp add: grew_same)

lemma read_state_calls:
  assumes "P (''queue.execution_state'', [])" and "\<And>v. P (''queue.execution_state'', [(''since'', v)])"
  shows "grew P ph (snd (read_state e ph))"
proof -
  let ?args = "if nonempty_opt (es_since (ph_st ph)) then [(''since'', JStr (the (es_since (ph_st ph))))] else []"
  obtain v ph1 where t: "tool e ''queue.execution_state'' ?args ph = (v, ph1)" by force
  have "P (''queue.execution_state'', ?args)" using assms by simp
  moreover have "ph_calls (snd (read_state e ph)) = ph_calls ph1" "ph_steps_run (snd (read_state e ph)) = ph_steps_run ph1"
    using t by (auto simp: read_state_def Let_def split: json.splits)
  ultimately show ?thesis by (rule grew_tool [OF t])
qed

lemma reread_calls: "snd (reread e s ph) = snd (read_state e ph)"
  by (simp add: reread_def split: prod.splits)


lemmas calls_auto = grew_def Let_def list_all_iff

lemma resolve_run_calls:
  assumes "\<And>a. P (''queue.resolve_uncertain'', a)"
  shows "grew P ph (resolve_run e run ph)"
  using assms by (auto simp: calls_auto resolve_run_def split: prod.splits dest!: tool_frame)

lemma open_one_calls:
  assumes "\<And>a. P (''queue.open_project'', a)"
  shows "grew P ph (snd (open_one e x (b, ph)))"
  using assms by (auto simp: calls_auto open_one_def refuse_def split: prod.splits dest!: tool_frame)

lemma apply_one_calls:
  assumes "\<And>a. P (''queue.apply_followup'', a)"
  shows "grew P ph (snd (apply_one e x (b, ph)))"
  using assms by (auto simp: calls_auto apply_one_def refuse_def split: prod.splits dest!: tool_frame)

lemma cleanup_one_calls:
  assumes "\<And>a. P (''queue.cleanup_project'', a)"
  shows "grew P ph (cleanup_one e x ph)"
  using assms by (auto simp: calls_auto cleanup_one_def split: prod.splits dest!: tool_frame)

lemma fold_act_calls: "ph_calls (fold (\<lambda>r. act (k r) (d r)) xs ph) = ph_calls ph"
  "ph_steps_run (fold (\<lambda>r. act (k r) (d r)) xs ph) = ph_steps_run ph"
  by (induction xs arbitrary: ph) simp_all

lemma cancel_calls:
  assumes "\<And>a. P (''queue.cancel_stale_orders'', a)"
  shows "grew P ph (cancel_stale_orders e ph)"
  using assms by (auto simp: calls_auto cancel_stale_orders_def fold_act_calls split: prod.splits dest!: tool_frame)

lemma observe_one_calls:
  assumes "\<And>a. P (''queue.observe'', a)"
  shows "grew P ph (observe_one e x ph)"
  using assms by (auto simp: calls_auto observe_one_def split: prod.splits dest!: tool_frame)

lemma idle_one_calls:
  assumes "\<And>a. P (''queue.close'', a)"
  shows "grew P ph (idle_one e t x ph)"
  using assms by (auto simp: calls_auto idle_one_def split: prod.splits option.splits dest!: tool_frame)

lemma stock_check_calls:
  assumes "\<And>a. P (sp_read_tool (ep_stock (ee_pol e)), a)"
  shows "grew P ph (snd (stock_check e step ph))"
  using assms by (auto simp: calls_auto stock_check_def split: prod.splits option.splits dest!: tool_frame)

lemma close_one_calls:
  assumes "\<And>a. P (''queue.close'', a)"
  shows "grew P ph (close_one e x ph)"
  using assms by (auto simp: calls_auto close_one_def split: prod.splits option.splits dest!: tool_frame)


subsection \<open>The parts of a pass\<close>

definition was_read :: "exec_env \<Rightarrow> obj \<Rightarrow> phase \<Rightarrow> bool" where
  "was_read e snap ph \<longleftrightarrow> (\<exists>pre args post. ph_calls ph = pre @ (''queue.execution_state'', args) # post \<and>
     ee_answer e pre (''queue.execution_state'', args) = Some (JObj snap))"

lemma was_read_grew: "was_read e s ph \<Longrightarrow> grew P ph ph' \<Longrightarrow> was_read e s ph'"
  by (fastforce simp: was_read_def grew_def)

lemma read_state_was_read:
  assumes "read_state e ph = (Some s, ph')"
  shows "was_read e s ph'"
proof -
  obtain args where "ph_calls ph' = ph_calls ph @ [(''queue.execution_state'', args)]"
    and "ee_answer e (ph_calls ph) (''queue.execution_state'', args) = Some (JObj s)"
    using assms by (auto simp: read_state_def tool_def Let_def split: option.splits json.splits)
  then show ?thesis by (auto simp: was_read_def)
qed

lemma reread_was_read:
  assumes "was_read e s ph" and "reread e s ph = (s', ph')"
  shows "was_read e s' ph'"
proof -
  obtain r where r: "read_state e ph = (r, ph')" using assms(2) by (auto simp: reread_def split: prod.splits)
  have "grew (\<lambda>_. True) ph ph'" using read_state_calls [of "\<lambda>_. True" ph e] r by simp
  with assms(1) have "was_read e s ph'" by (rule was_read_grew)
  with r assms(2) read_state_was_read [of e ph] show ?thesis
    by (auto simp: reread_def split: option.splits if_splits)
qed

definition before_runs :: "exec_env \<Rightarrow> string set" where
  "before_runs e = {''queue.execution_state'', ''queue.resolve_uncertain'', ''queue.open_project'', ''queue.apply_followup''}
     \<union> (if ee_latched e then {} else {''queue.cleanup_project'', ''queue.cancel_stale_orders'', ''queue.observe'', ''queue.close''})"

lemma resolve_uncertain_calls:
  assumes "\<And>a. P (''queue.resolve_uncertain'', a)"
  shows "grew P ph (snd (resolve_uncertain e rs ph))"
  unfolding resolve_uncertain_def by (simp add: grew_fold resolve_run_calls assms)

lemma open_and_apply_calls:
  assumes "\<And>a. P (''queue.open_project'', a)" and "\<And>a. P (''queue.apply_followup'', a)"
  shows "grew P ph (snd (open_and_apply e snap ph))"
proof -
  let ?z = "fold (open_one e) (entries snap ''to_open'') (False, ph)"
  have "grew P (snd (False, ph)) (snd ?z)" by (rule grew_fold_snd) (rule open_one_calls, rule assms(1))
  also have "grew P (snd ?z) (snd (open_and_apply e snap ph))"
    unfolding open_and_apply_def by (rule grew_fold_snd) (rule apply_one_calls, rule assms(2))
  finally show ?thesis by simp
qed

lemma quiet_work_calls:
  assumes "\<And>n a. n \<in> {''queue.cleanup_project'', ''queue.cancel_stale_orders'', ''queue.observe'', ''queue.close''} \<Longrightarrow> P (n, a)"
  shows "grew P ph (quiet_work e snap ph)"
proof -
  let ?a = "fold (cleanup_one e) (entries snap ''awaiting_cleanup'') ph"
  let ?b = "cancel_stale_orders e ?a"
  let ?c = "reconcile e snap ?b"
  have "grew P ph ?a" by (rule grew_fold) (rule cleanup_one_calls, simp add: assms)
  also have "grew P ?a ?b" by (rule cancel_calls) (simp add: assms)
  also have "grew P ?b ?c"
  proof -
    let ?d = "fold (\<lambda>d. step_is_done e (py_str (ee_pr e) (getj d ''project_id'')) (py_str (ee_pr e) (getj d ''step_id'')) [])
       (filter (\<lambda>d. truthy (getj d ''step_id'')) (entries snap ''done_since'')) ?b"
    have "grew P ?b ?d" by (rule grew_fold) (simp add: grew_same)
    also have "grew P ?d ?c" unfolding reconcile_def by (rule grew_fold) (rule observe_one_calls, simp add: assms)
    finally show ?thesis .
  qed
  also have "grew P ?c (idle e ?c)"
  proof (cases "ee_tick e")
    case (Some t)
    let ?live = "map fst (filter (\<lambda>(_, p). is_waiting p) (ph_projects ?c))"
    have "grew P ?c (fold (idle_one e t) ?live ?c)" by (rule grew_fold) (rule idle_one_calls, simp add: assms)
    also have "grew P (fold (idle_one e t) ?live ?c) (idle e ?c)" by (rule grew_same) (simp_all add: idle_def Some Let_def)
    finally show ?thesis .
  qed (simp add: idle_def grew_same)
  finally show ?thesis unfolding quiet_work_def .
qed

text \<open>A pass that read the state is: calls that run nothing, the runs over a state it read, the closes.\<close>

lemma run_execute_parts:
  assumes "run_execute e st = (True, ph)"
  obtains snap ph0 where "was_read e snap ph0" and "grew (\<lambda>c. fst c \<in> before_runs e) (start_phase st) ph0"
    and "ph = close_failed_direct e (run_ready e snap ph0)"
proof -
  let ?P = "\<lambda>c. fst c \<in> before_runs e"
  have rd: "grew ?P a (snd (read_state e a))" for a by (rule read_state_calls) (simp_all add: before_runs_def)
  obtain s0 ph1 where r0: "read_state e (start_phase st) = (Some s0, ph1)"
    using assms by (auto simp: run_execute_def split: prod.splits option.splits)
  obtain n ph2 where r2: "resolve_uncertain e (entries s0 ''unresolved_runs'') ph1 = (n, ph2)" by force
  obtain s1 ph3 where r3: "(if n \<noteq> 0 then reread e s0 ph2 else (s0, ph2)) = (s1, ph3)" by force
  obtain ch ph4 where r4: "open_and_apply e s1 ph3 = (ch, ph4)" by force
  obtain s2 ph5 where r5: "(if ch then reread e s1 ph4 else (s1, ph4)) = (s2, ph5)" by force
  define ph6 where "ph6 = (if ee_latched e then ph5 else quiet_work e s2 ph5)"
  define ph7 where "ph7 = (case getj s2 ''latest_observation_id'' of
    JStr l \<Rightarrow> upd (\<lambda>st. st\<lparr>es_since := Some l\<rparr>) ph6 | _ \<Rightarrow> ph6)"
  have e: "ph = close_failed_direct e (run_ready e s2 ph7)"
    using assms unfolding run_execute_def r0 ph7_def ph6_def
    by (simp only: prod.case option.case r2 r3 r4 r5 Let_def prod.inject simp_thms)
  have g1: "grew ?P (start_phase st) ph1" using rd [of "start_phase st"] r0 by simp
  have g2: "grew ?P ph1 ph2"
    using resolve_uncertain_calls [of ?P ph1 e "entries s0 ''unresolved_runs''"] r2 by (simp add: before_runs_def)
  have g3: "grew ?P ph2 ph3" using r3 rd [of ph2] reread_calls [of e s0 ph2] by (auto split: if_splits simp: grew_same)
  have g4: "grew ?P ph3 ph4" using open_and_apply_calls [of ?P ph3 e s1] r4 by (simp add: before_runs_def)
  have g5: "grew ?P ph4 ph5" using r5 rd [of ph4] reread_calls [of e s1 ph4] by (auto split: if_splits simp: grew_same)
  have g6: "grew ?P ph5 ph6"
    unfolding ph6_def by (cases "ee_latched e") (auto simp: grew_same before_runs_def intro!: quiet_work_calls)
  have g7: "grew ?P ph6 ph7" unfolding ph7_def by (rule grew_same) (simp_all split: json.splits)
  have w2: "was_read e s0 ph2" by (rule was_read_grew [OF read_state_was_read [OF r0] g2])
  then have w3: "was_read e s1 ph3" using r3 reread_was_read by (auto split: if_splits)
  have "was_read e s1 ph4" by (rule was_read_grew [OF w3 g4])
  then have w5: "was_read e s2 ph5" using r5 reread_was_read by (auto split: if_splits)
  have "was_read e s2 ph7" by (rule was_read_grew [OF was_read_grew [OF w5 g6] g7])
  moreover have "grew ?P (start_phase st) ph7" using g1 g2 g3 g4 g5 g6 g7 by (blast intro: grew_trans)
  ultimately show thesis using e that by blast
qed

lemma run_execute_unread:
  assumes "run_execute e st = (False, ph)"
  shows "grew (\<lambda>c. fst c = ''queue.execution_state'') (start_phase st) ph"
  using assms read_state_calls [of "\<lambda>c. fst c = ''queue.execution_state''" "start_phase st" e]
  by (auto simp: run_execute_def Let_def case_prod_unfold split: prod.splits option.splits)


subsection \<open>What a step needs to be run\<close>

definition run_call_for :: "exec_env \<Rightarrow> obj \<Rightarrow> phase_call" where
  "run_call_for e step = (''queue.run_step'', [(''project_id'', JStr (str_or_empty (ee_pr e) (getj step ''project_id''))),
     (''step_id'', JStr (str_or_empty (ee_pr e) (getj step ''step_id'')))])"

definition admissible :: "exec_env \<Rightarrow> string list \<Rightarrow> obj \<Rightarrow> bool" where
  "admissible e blocked step \<longleftrightarrow> str_or_empty (ee_pr e) (getj step ''project_id'') \<noteq> [] \<and>
     str_or_empty (ee_pr e) (getj step ''project_id'') \<notin> set blocked \<and>
     (ee_latched e \<longrightarrow> urgency_of e step = ''high'') \<and> ore_block e step = None"

text \<open>At most one quicksave, and before the first run; \<open>s\<close> says whether it has been made.\<close>

fun saves_ok :: "bool \<Rightarrow> phase_call list \<Rightarrow> bool" where
  "saves_ok s [] = True"
| "saves_ok s (c # cs) = (if fst c = ''quicksave'' then \<not> s \<and> saves_ok True cs
     else (fst c = ''queue.run_step'' \<longrightarrow> s) \<and> saves_ok s cs)"

lemma saves_ok_append: "saves_ok s (xs @ ys) \<longleftrightarrow> saves_ok s xs \<and> saves_ok (s \<or> ''quicksave'' \<in> fst ` set xs) ys"
  by (induction xs arbitrary: s) auto

lemma saves_ok_other: "(\<And>c. c \<in> set cs \<Longrightarrow> fst c \<noteq> ''quicksave'' \<and> fst c \<noteq> ''queue.run_step'') \<Longrightarrow> saves_ok s cs"
  by (induction cs) auto

lemma stock_check_appends:
  assumes "stock_check e step ph = (why, ph')"
  shows "\<exists>cs. ph_calls ph' = ph_calls ph @ cs \<and> (\<forall>c \<in> set cs. fst c = sp_read_tool (ep_stock (ee_pol e))) \<and>
    ph_steps_run ph' = ph_steps_run ph"
  using stock_check_calls [of "\<lambda>c. fst c = sp_read_tool (ep_stock (ee_pol e))" e ph step] assms
  by (auto simp: grew_def list_all_iff)

lemma run_one_calls:
  assumes "run_one e blocked step saved ph = (saved', ph')"
  shows "\<exists>reads cs. ph_calls ph' = ph_calls ph @ reads @ cs \<and> (\<forall>c \<in> set reads. fst c = sp_read_tool (ep_stock (ee_pol e))) \<and>
    (cs = [] \<and> saved' = saved \<and> ph_steps_run ph' = ph_steps_run ph \<or>
     admissible e blocked step \<and> cs = (if \<not> saved \<and> ee_quicksave e then [(''quicksave'', [])] else []) @ [run_call_for e step] \<and>
     saved' = (saved \<or> ee_quicksave e) \<and>
     (ph_steps_run ph' = ph_steps_run ph \<or> ph_steps_run ph' = ph_steps_run ph + 1))"
proof -
  let ?pid = "str_or_empty (ee_pr e) (getj step ''project_id'')" and ?sid = "str_or_empty (ee_pr e) (getj step ''step_id'')"
  consider (skip) "?pid = [] \<or> ?sid = [] \<or> ee_latched e \<and> urgency_of e step \<noteq> ''high'' \<or> ?pid \<in> set blocked"
    | (ore) x where "ore_block e step = Some x" and "\<not> (?pid = [] \<or> ?sid = [])"
        "\<not> (ee_latched e \<and> urgency_of e step \<noteq> ''high'')" "?pid \<notin> set blocked"
    | (go) "ore_block e step = None" and "\<not> (?pid = [] \<or> ?sid = [])"
        "\<not> (ee_latched e \<and> urgency_of e step \<noteq> ''high'')" "?pid \<notin> set blocked" by blast
  then show ?thesis
  proof cases
    case skip
    then have "run_one e blocked step saved ph = (saved, ph)" by (auto simp: run_one_def Let_def)
    with assms show ?thesis by simp
  next
    case ore
    obtain why msg where x: "x = (why, msg)" by force
    from assms ore(2-) have "saved' = saved \<and> ph_calls ph' = ph_calls ph \<and> ph_steps_run ph' = ph_steps_run ph"
      by (auto simp: run_one_def Let_def ore(1) x split: option.splits)
    then show ?thesis by simp
  next
    case go
    define ph1 where "ph1 = (if map_of (es_ore_held (ph_st ph)) ?sid = None then ph else
      act ''ore_released'' [(''project'', JStr ?pid), (''step'', JStr ?sid)]
        (upd (\<lambda>st. st\<lparr>es_ore_held := AList.delete ?sid (es_ore_held st)\<rparr>) ph))"
    have f1: "ph_calls ph1 = ph_calls ph" "ph_steps_run ph1 = ph_steps_run ph" by (simp_all add: ph1_def)
    obtain why ph2 where s: "stock_check e step ph1 = (why, ph2)" by force
    from stock_check_appends [OF s] f1 obtain reads where r: "ph_calls ph2 = ph_calls ph @ reads"
      "\<forall>c \<in> set reads. fst c = sp_read_tool (ep_stock (ee_pol e))" "ph_steps_run ph2 = ph_steps_run ph" by auto
    have gof: "(?pid = [] \<or> ?sid = []) = False" "(ee_latched e \<and> urgency_of e step \<noteq> ''high'') = False"
      "(?pid \<in> set blocked) = False" using go by blast+
    have a: "admissible e blocked step" using go by (auto simp: admissible_def)
    show ?thesis
    proof (cases why)
      case (Some w)
      have "run_one e blocked step saved ph = (saved, hold_step e step w ph2)"
        unfolding run_one_def Let_def by (simp only: gof if_False go(1) option.case s [unfolded ph1_def Some] prod.case)
      with assms r show ?thesis by (intro exI [of _ reads] exI [of _ "[]"]) auto
    next
      case None
      define ph4 where "ph4 = (if \<not> saved \<and> ee_quicksave e then snd (tool e ''quicksave'' [] (release_hold ?sid ph2)) else release_hold ?sid ph2)"
      have f4: "ph_calls ph4 = ph_calls ph2 @ (if \<not> saved \<and> ee_quicksave e then [(''quicksave'', [])] else [])"
        "ph_steps_run ph4 = ph_steps_run ph2"
        by (auto simp: ph4_def tool_def Let_def split: option.splits)
      obtain out ph5 where t: "tool e ''queue.run_step'' [(''project_id'', JStr ?pid), (''step_id'', JStr ?sid)] ph4 = (out, ph5)" by force
      have "run_one e blocked step saved ph = (saved \<or> (\<not> saved \<and> ee_quicksave e),
          if is_obj out then after_run e ?pid ?sid (fields_of out) (ph5\<lparr>ph_steps_run := ph_steps_run ph5 + 1\<rparr>) else ph5)"
        unfolding run_one_def Let_def
        by (simp only: gof if_False go(1) option.case s [unfolded ph1_def None] prod.case ph4_def [symmetric] t)
      with assms have sv: "saved' = (saved \<or> ee_quicksave e)" and c: "ph_calls ph' = ph_calls ph5"
        and n: "ph_steps_run ph' = ph_steps_run ph5 \<or> ph_steps_run ph' = ph_steps_run ph5 + 1" by (auto split: if_splits)
      let ?cs = "(if \<not> saved \<and> ee_quicksave e then [(''quicksave'', [])] else []) @ [run_call_for e step]"
      have f5: "ph_calls ph5 = ph_calls ph4 @ [run_call_for e step]" "ph_steps_run ph5 = ph_steps_run ph4"
        using tool_frame [OF t] by (simp_all add: run_call_for_def)
      have "ph_calls ph' = ph_calls ph @ reads @ ?cs" unfolding c f5 f4 r by simp
      moreover have "ph_steps_run ph' = ph_steps_run ph \<or> ph_steps_run ph' = ph_steps_run ph + 1"
        using n unfolding f5 f4 r .
      ultimately show ?thesis using sv r(2) a by (intro exI [of _ reads] exI [of _ ?cs]) blast
    qed
  qed
qed

lemma run_steps_calls:
  "\<exists>cs. ph_calls (run_steps e blocked steps saved ph) = ph_calls ph @ cs \<and>
    (\<forall>c \<in> set cs. fst c = sp_read_tool (ep_stock (ee_pol e)) \<or> c = (''quicksave'', []) \<or>
       (\<exists>step \<in> set steps. admissible e blocked step \<and> c = run_call_for e step)) \<and>
    (ee_quicksave e \<longrightarrow> sp_read_tool (ep_stock (ee_pol e)) \<notin> {''quicksave'', ''queue.run_step''} \<longrightarrow> saves_ok saved cs)"
proof (induction e blocked steps saved ph rule: run_steps.induct)
  case (2 e blocked step steps saved ph)
  show ?case
  proof (cases "ph_steps_run ph \<ge> ep_max_steps (ee_pol e)")
    case False
    obtain saved' ph' where o: "run_one e blocked step saved ph = (saved', ph')" by force
    from "2.IH" [OF False o [symmetric]] obtain cs where cs: "ph_calls (run_steps e blocked steps saved' ph') = ph_calls ph' @ cs"
      "\<forall>c \<in> set cs. fst c = sp_read_tool (ep_stock (ee_pol e)) \<or> c = (''quicksave'', []) \<or>
        (\<exists>step \<in> set steps. admissible e blocked step \<and> c = run_call_for e step)"
      "ee_quicksave e \<longrightarrow> sp_read_tool (ep_stock (ee_pol e)) \<notin> {''quicksave'', ''queue.run_step''} \<longrightarrow> saves_ok saved' cs" by blast
    from run_one_calls [OF o] obtain reads ds where ds: "ph_calls ph' = ph_calls ph @ reads @ ds"
      "\<forall>c \<in> set reads. fst c = sp_read_tool (ep_stock (ee_pol e))"
      "ds = [] \<and> saved' = saved \<or> admissible e blocked step \<and>
        ds = (if \<not> saved \<and> ee_quicksave e then [(''quicksave'', [])] else []) @ [run_call_for e step] \<and> saved' = (saved \<or> ee_quicksave e)"
      by blast
    have ok: "saves_ok saved (reads @ ds @ cs)"
      if q: "ee_quicksave e" "sp_read_tool (ep_stock (ee_pol e)) \<notin> {''quicksave'', ''queue.run_step''}"
    proof -
      have "saves_ok saved reads" by (rule saves_ok_other) (use ds(2) q(2) in auto)
      moreover have "''quicksave'' \<notin> fst ` set reads" using ds(2) q(2) by auto
      moreover have "saves_ok saved' cs" using cs(3) q by blast
      ultimately show ?thesis using ds(3) q(1) by (cases saved) (auto simp: saves_ok_append run_call_for_def)
    qed
    have "ph_calls (run_steps e blocked (step # steps) saved ph) = ph_calls ph @ reads @ ds @ cs"
      using False o cs(1) ds(1) by simp
    moreover have "\<forall>c \<in> set (reads @ ds @ cs). fst c = sp_read_tool (ep_stock (ee_pol e)) \<or> c = (''quicksave'', []) \<or>
        (\<exists>s \<in> set (step # steps). admissible e blocked s \<and> c = run_call_for e s)"
      using ds(2,3) cs(2) by (auto split: if_splits)
    ultimately show ?thesis using ok by (intro exI [of _ "reads @ ds @ cs"]) blast
  qed (simp add: exI [of _ "[]"])
qed simp

lemma run_steps_cap:
  "ph_steps_run ph \<le> max 0 (ep_max_steps (ee_pol e)) \<Longrightarrow>
    ph_steps_run (run_steps e blocked steps saved ph) \<le> max 0 (ep_max_steps (ee_pol e))"
proof (induction e blocked steps saved ph rule: run_steps.induct)
  case (2 e blocked step steps saved ph)
  show ?case
  proof (cases "ph_steps_run ph \<ge> ep_max_steps (ee_pol e)")
    case False
    obtain saved' ph' where o: "run_one e blocked step saved ph = (saved', ph')" by force
    from run_one_calls [OF o] have "ph_steps_run ph' = ph_steps_run ph \<or> ph_steps_run ph' = ph_steps_run ph + 1" by blast
    with False have "ph_steps_run ph' \<le> max 0 (ep_max_steps (ee_pol e))" using "2.prems" by linarith
    from "2.IH" [OF False o [symmetric] this] False o show ?thesis by simp
  qed (use "2.prems" in simp)
qed simp

lemma close_failed_direct_calls: "grew (\<lambda>c. fst c = ''queue.close'') ph (close_failed_direct e ph)"
proof -
  let ?ph = "fold (close_one e) (rev (remdups (rev (ph_to_close ph)))) ph"
  have "grew (\<lambda>c. fst c = ''queue.close'') ph ?ph" by (rule grew_fold) (rule close_one_calls, simp)
  also have "grew (\<lambda>c. fst c = ''queue.close'') ?ph (close_failed_direct e ph)"
    by (rule grew_same) (simp_all add: close_failed_direct_def)
  finally show ?thesis .
qed

text \<open>The calls of a pass that read its state, in order: what precedes the runs, the runs, the closes.\<close>

lemma run_execute_calls:
  assumes "run_execute e st = (True, ph)"
  obtains snap pre rs cl where "ph_calls ph = pre @ rs @ cl" and "was_read e snap ph"
    and "\<forall>c \<in> set pre. fst c \<in> before_runs e" and "\<forall>c \<in> set cl. fst c = ''queue.close''"
    and "\<forall>c \<in> set rs. fst c = sp_read_tool (ep_stock (ee_pol e)) \<or> c = (''quicksave'', []) \<or>
       (\<exists>step \<in> set (entries snap ''ready_steps''). admissible e (blocked_projects e snap) step \<and> c = run_call_for e step)"
    and "ee_quicksave e \<longrightarrow> sp_read_tool (ep_stock (ee_pol e)) \<notin> {''quicksave'', ''queue.run_step''} \<longrightarrow> saves_ok False rs"
    and "ph_steps_run ph \<le> max 0 (ep_max_steps (ee_pol e))"
proof -
  obtain snap ph0 where w: "was_read e snap ph0" and g: "grew (\<lambda>c. fst c \<in> before_runs e) (start_phase st) ph0"
    and ph: "ph = close_failed_direct e (run_ready e snap ph0)" by (rule run_execute_parts [OF assms])
  from g obtain pre where pre: "ph_calls ph0 = pre" "\<forall>c \<in> set pre. fst c \<in> before_runs e" and z: "ph_steps_run ph0 = 0"
    by (auto simp: grew_def start_phase_def list_all_iff)
  let ?b = "blocked_projects e snap"
  let ?ss = "sort_key (\<lambda>s. urgency_rank (ep_urgency (ee_pol e)) (urgency_of e s)) (entries snap ''ready_steps'')"
  let ?p = "prune_holds (map (\<lambda>s. py_str (ee_pr e) (getj s ''step_id'')) (entries snap ''ready_steps'')) ph0"
  have rr: "run_ready e snap ph0 = run_steps e ?b ?ss False ?p" by (simp add: run_ready_def Let_def)
  obtain rs where rs: "ph_calls (run_steps e ?b ?ss False ?p) = ph_calls ?p @ rs"
    "\<forall>c \<in> set rs. fst c = sp_read_tool (ep_stock (ee_pol e)) \<or> c = (''quicksave'', []) \<or>
       (\<exists>step \<in> set ?ss. admissible e ?b step \<and> c = run_call_for e step)"
    "ee_quicksave e \<longrightarrow> sp_read_tool (ep_stock (ee_pol e)) \<notin> {''quicksave'', ''queue.run_step''} \<longrightarrow> saves_ok False rs"
    using run_steps_calls [of e ?b ?ss False ?p] by blast
  from close_failed_direct_calls [of "run_ready e snap ph0" e] obtain cl where cl: "ph_calls ph = ph_calls (run_ready e snap ph0) @ cl"
    "\<forall>c \<in> set cl. fst c = ''queue.close''" "ph_steps_run ph = ph_steps_run (run_ready e snap ph0)"
    by (auto simp: grew_def list_all_iff ph)
  have calls: "ph_calls ph = pre @ rs @ cl" using cl(1) rs(1) pre(1) by (simp add: rr)
  have "was_read e snap ph" using w calls pre(1) by (fastforce simp: was_read_def)
  moreover have "ph_steps_run ph \<le> max 0 (ep_max_steps (ee_pol e))"
    unfolding cl(3) rr by (rule run_steps_cap) (simp add: z)
  ultimately show thesis using that [OF calls _ pre(2) cl(2)] rs(2,3) by simp
qed

lemma pass_calls:
  assumes "run_execute e st = (ok, ph)" and "c \<in> set (ph_calls ph)"
  shows "fst c \<in> before_runs e \<union> {''queue.run_step'', ''quicksave'', ''queue.close'', sp_read_tool (ep_stock (ee_pol e))}"
proof (cases ok)
  case True
  then have r: "run_execute e st = (True, ph)" using assms(1) by simp
  obtain snap pre rs cl where c: "ph_calls ph = pre @ rs @ cl" and w: "was_read e snap ph"
    and pre: "\<forall>c \<in> set pre. fst c \<in> before_runs e" and cl: "\<forall>c \<in> set cl. fst c = ''queue.close''"
    and rs: "\<forall>c \<in> set rs. fst c = sp_read_tool (ep_stock (ee_pol e)) \<or> c = (''quicksave'', []) \<or>
       (\<exists>step \<in> set (entries snap ''ready_steps''). admissible e (blocked_projects e snap) step \<and> c = run_call_for e step)"
    and sv: "ee_quicksave e \<longrightarrow> sp_read_tool (ep_stock (ee_pol e)) \<notin> {''quicksave'', ''queue.run_step''} \<longrightarrow> saves_ok False rs"
    and n: "ph_steps_run ph \<le> max 0 (ep_max_steps (ee_pol e))" by (rule run_execute_calls [OF r])
  from c pre cl rs assms(2) show ?thesis by (auto simp: run_call_for_def)
next
  case False
  then have r: "run_execute e st = (False, ph)" using assms(1) by simp
  from run_execute_unread [OF r] assms(2) show ?thesis
    by (auto simp: grew_def start_phase_def list_all_iff before_runs_def)
qed

lemma pass_runs:
  assumes "run_execute e st = (ok, ph)" and "c \<in> set (ph_calls ph)" and "fst c = ''queue.run_step''"
    and "sp_read_tool (ep_stock (ee_pol e)) \<noteq> ''queue.run_step''"
  shows "\<exists>snap. was_read e snap ph \<and> (\<exists>step \<in> set (entries snap ''ready_steps'').
    admissible e (blocked_projects e snap) step \<and> c = run_call_for e step)"
proof (cases ok)
  case True
  then have r: "run_execute e st = (True, ph)" using assms(1) by simp
  obtain snap pre rs cl where c: "ph_calls ph = pre @ rs @ cl" and w: "was_read e snap ph"
    and pre: "\<forall>c \<in> set pre. fst c \<in> before_runs e" and cl: "\<forall>c \<in> set cl. fst c = ''queue.close''"
    and rs: "\<forall>c \<in> set rs. fst c = sp_read_tool (ep_stock (ee_pol e)) \<or> c = (''quicksave'', []) \<or>
       (\<exists>step \<in> set (entries snap ''ready_steps''). admissible e (blocked_projects e snap) step \<and> c = run_call_for e step)"
    and sv: "ee_quicksave e \<longrightarrow> sp_read_tool (ep_stock (ee_pol e)) \<notin> {''quicksave'', ''queue.run_step''} \<longrightarrow> saves_ok False rs"
    and n: "ph_steps_run ph \<le> max 0 (ep_max_steps (ee_pol e))" by (rule run_execute_calls [OF r])
  have "c \<notin> set pre" "c \<notin> set cl" using pre cl assms(3) by (auto simp: before_runs_def split: if_splits)
  with assms(2) c have "c \<in> set rs" by simp
  with rs assms(3,4) w show ?thesis by (intro exI [of _ snap]) fastforce
next
  case False
  then have r: "run_execute e st = (False, ph)" using assms(1) by simp
  from run_execute_unread [OF r] assms(2,3) show ?thesis
    by (auto simp: grew_def start_phase_def list_all_iff)
qed

lemma pass_saves:
  assumes "run_execute e st = (ok, ph)" and "ee_quicksave e"
    and "sp_read_tool (ep_stock (ee_pol e)) \<notin> {''quicksave'', ''queue.run_step''}"
  shows "saves_ok False (ph_calls ph)"
proof (cases ok)
  case True
  then have r: "run_execute e st = (True, ph)" using assms(1) by simp
  obtain snap pre rs cl where c: "ph_calls ph = pre @ rs @ cl" and w: "was_read e snap ph"
    and pre: "\<forall>c \<in> set pre. fst c \<in> before_runs e" and cl: "\<forall>c \<in> set cl. fst c = ''queue.close''"
    and rs: "\<forall>c \<in> set rs. fst c = sp_read_tool (ep_stock (ee_pol e)) \<or> c = (''quicksave'', []) \<or>
       (\<exists>step \<in> set (entries snap ''ready_steps''). admissible e (blocked_projects e snap) step \<and> c = run_call_for e step)"
    and sv: "ee_quicksave e \<longrightarrow> sp_read_tool (ep_stock (ee_pol e)) \<notin> {''quicksave'', ''queue.run_step''} \<longrightarrow> saves_ok False rs"
    and n: "ph_steps_run ph \<le> max 0 (ep_max_steps (ee_pol e))" by (rule run_execute_calls [OF r])
  have rs': "saves_ok False rs" using sv assms(2,3) by blast
  have "saves_ok False pre" by (rule saves_ok_other) (use pre in \<open>auto simp: before_runs_def split: if_splits\<close>)
  moreover have "''quicksave'' \<notin> fst ` set pre" using pre by (auto simp: before_runs_def split: if_splits)
  moreover have "saves_ok s cl" for s by (rule saves_ok_other) (use cl in auto)
  ultimately show ?thesis using rs' unfolding c saves_ok_append by simp
next
  case False
  then have r: "run_execute e st = (False, ph)" using assms(1) by simp
  from run_execute_unread [OF r]
  have "\<forall>c \<in> set (ph_calls ph). fst c = ''queue.execution_state''" by (auto simp: grew_def start_phase_def list_all_iff)
  then show ?thesis by (intro saves_ok_other) auto
qed

lemma pass_cap:
  assumes "run_execute e st = (ok, ph)"
  shows "ph_steps_run ph \<le> max 0 (ep_max_steps (ee_pol e))"
proof (cases ok)
  case True
  then have r: "run_execute e st = (True, ph)" using assms by simp
  obtain snap pre rs cl where c: "ph_calls ph = pre @ rs @ cl" and w: "was_read e snap ph"
    and pre: "\<forall>c \<in> set pre. fst c \<in> before_runs e" and cl: "\<forall>c \<in> set cl. fst c = ''queue.close''"
    and rs: "\<forall>c \<in> set rs. fst c = sp_read_tool (ep_stock (ee_pol e)) \<or> c = (''quicksave'', []) \<or>
       (\<exists>step \<in> set (entries snap ''ready_steps''). admissible e (blocked_projects e snap) step \<and> c = run_call_for e step)"
    and sv: "ee_quicksave e \<longrightarrow> sp_read_tool (ep_stock (ee_pol e)) \<notin> {''quicksave'', ''queue.run_step''} \<longrightarrow> saves_ok False rs"
    and n: "ph_steps_run ph \<le> max 0 (ep_max_steps (ee_pol e))" by (rule run_execute_calls [OF r])
  show ?thesis by (rule n)
next
  case False
  then have r: "run_execute e st = (False, ph)" using assms by simp
  from run_execute_unread [OF r] show ?thesis by (simp add: grew_def start_phase_def)
qed

subsection \<open>Nothing is said twice\<close>

lemma attend_once: "attend e p s c m' (attend e p s c m ph) = attend e p s c m ph"
proof -
  have "map_of (es_attention (ph_st (attend e p s c m ph))) s = Some c"
    by (auto simp: attend_def Let_def update_conv')
  then show ?thesis by (simp add: attend_def [of e p s c m' "attend e p s c m ph"])
qed

lemma done_recorded: "s \<in> set (es_sent (ph_st (step_is_done e p s d ph)))"
proof (cases "s \<in> set (es_sent (ph_st ph))")
  case True
  then show ?thesis by (simp add: step_is_done_def)
next
  case False
  have "s \<in> set (keep_last SENT_KEEP (es_sent (ph_st ph) @ [s]))" by (rule keep_last_snoc) (simp add: SENT_KEEP_def)
  with False show ?thesis by (simp add: step_is_done_def Let_def)
qed

lemma done_once: "step_is_done e p s d' (step_is_done e p s d ph) = step_is_done e p s d ph"
  using done_recorded [of s e p d ph] by (simp add: step_is_done_def [of e p s d' "step_is_done e p s d ph"])

subsection \<open>A refused opening is tried a bounded number of times\<close>

lemma count_bump [simp]: "count_of (bump k m) k' = (if k' = k then count_of m k + 1 else count_of m k')"
  by (auto simp: bump_def count_of_def update_conv')

definition refused_bounded :: "exec_env \<Rightarrow> exec_state \<Rightarrow> bool" where
  "refused_bounded e st \<longleftrightarrow> (\<forall>k. count_of (es_refused st) k \<le> max 0 (ep_refusal (ee_pol e)))"

lemma open_one_refused:
  assumes "open_one e x (b, ph) = (b', ph')"
  shows "refused_bounded e (ph_st ph) \<Longrightarrow> refused_bounded e (ph_st ph')"
    and "count_of (es_refused (ph_st ph)) k \<le> count_of (es_refused (ph_st ph')) k"
    and "\<exists>cs. ph_calls ph' = ph_calls ph @ cs \<and> (\<forall>c \<in> set cs. \<exists>i. c = (''queue.open_project'', [(''ruling_id'', JStr i)]) \<and>
      count_of (es_refused (ph_st ph)) i < ep_refusal (ee_pol e))"
  using assms
  by (auto simp: open_one_def may_retry_def refuse_def refused_bounded_def Let_def is_str_def
      split: if_splits prod.splits json.splits dest!: tool_frame)

lemma apply_one_refused:
  assumes "apply_one e x (b, ph) = (b', ph')"
  shows "refused_bounded e (ph_st ph) \<Longrightarrow> refused_bounded e (ph_st ph')"
    and "count_of (es_refused (ph_st ph)) k \<le> count_of (es_refused (ph_st ph')) k"
    and "\<exists>cs. ph_calls ph' = ph_calls ph @ cs \<and> (\<forall>c \<in> set cs. \<exists>i. c = (''queue.apply_followup'', [(''proposal_id'', JStr i)]) \<and>
      count_of (es_refused (ph_st ph)) i < ep_refusal (ee_pol e))"
  using assms
  by (auto simp: apply_one_def may_retry_def refuse_def refused_bounded_def Let_def is_str_def
      split: if_splits prod.splits json.splits dest!: tool_frame)

text \<open>\<open>tried e st c\<close>: the call opens or applies something refused fewer times than the limit.\<close>

definition tried :: "exec_env \<Rightarrow> exec_state \<Rightarrow> phase_call \<Rightarrow> bool" where
  "tried e st c \<longleftrightarrow> (\<exists>i. (c = (''queue.open_project'', [(''ruling_id'', JStr i)]) \<or> c = (''queue.apply_followup'', [(''proposal_id'', JStr i)]))
     \<and> count_of (es_refused st) i < ep_refusal (ee_pol e))"

definition retries_ok :: "exec_env \<Rightarrow> phase \<Rightarrow> phase \<Rightarrow> bool" where
  "retries_ok e ph ph' \<longleftrightarrow> (refused_bounded e (ph_st ph) \<longrightarrow> refused_bounded e (ph_st ph')) \<and>
     (\<forall>k. count_of (es_refused (ph_st ph)) k \<le> count_of (es_refused (ph_st ph')) k) \<and>
     (\<exists>cs. ph_calls ph' = ph_calls ph @ cs \<and> (\<forall>c \<in> set cs. tried e (ph_st ph) c))"

lemma retries_trans:
  assumes "retries_ok e a b" and "retries_ok e b c"
  shows "retries_ok e a c"
proof -
  have le: "count_of (es_refused (ph_st a)) k \<le> count_of (es_refused (ph_st b)) k" for k using assms(1) by (auto simp: retries_ok_def)
  have "tried e (ph_st a) x" if "tried e (ph_st b) x" for x
  proof -
    from that obtain i where "x = (''queue.open_project'', [(''ruling_id'', JStr i)]) \<or> x = (''queue.apply_followup'', [(''proposal_id'', JStr i)])"
      and "count_of (es_refused (ph_st b)) i < ep_refusal (ee_pol e)" unfolding tried_def by blast
    moreover from this(2) le [of i] have "count_of (es_refused (ph_st a)) i < ep_refusal (ee_pol e)" by linarith
    ultimately show ?thesis unfolding tried_def by blast
  qed
  with assms show ?thesis unfolding retries_ok_def by (fastforce intro: order_trans)
qed

lemma retries_fold:
  assumes "\<And>x b ph b' ph'. f x (b, ph) = (b', ph') \<Longrightarrow> retries_ok e ph ph'"
  shows "retries_ok e (snd z) (snd (fold f xs z))"
proof (induction xs arbitrary: z)
  case (Cons x xs)
  have "retries_ok e (snd z) (snd (f x z))" using assms [of x "fst z" "snd z"] by (cases "f x z") simp
  with Cons.IH [of "f x z"] show ?case by (auto intro: retries_trans)
qed (simp add: retries_ok_def)

lemma open_and_apply_retries: "retries_ok e ph (snd (open_and_apply e snap ph))"
proof -
  let ?z = "fold (open_one e) (entries snap ''to_open'') (False, ph)"
  have "retries_ok e ph' ph''" if "open_one e x (b, ph') = (b', ph'')" for x b ph' b' ph''
    unfolding retries_ok_def tried_def using open_one_refused [OF that] by fast
  then have "retries_ok e (snd (False, ph)) (snd ?z)" by (rule retries_fold)
  moreover have "retries_ok e ph' ph''" if "apply_one e x (b, ph') = (b', ph'')" for x b ph' b' ph''
    unfolding retries_ok_def tried_def using apply_one_refused [OF that] by fast
  then have "retries_ok e (snd ?z) (snd (open_and_apply e snap ph))" unfolding open_and_apply_def by (rule retries_fold)
  ultimately show ?thesis by (auto intro: retries_trans)
qed

subsection \<open>Idle projects are warned before they are closed\<close>

text \<open>The project was told at tick \<open>w\<close>, in a pass that ran at that tick, and has been idle since.\<close>

definition warned :: "exec_env \<Rightarrow> int \<Rightarrow> exec_state \<Rightarrow> string \<Rightarrow> bool" where
  "warned e tick st pid \<longleftrightarrow> (\<exists>r s w. map_of (es_idle st) pid = Some r \<and> ir_since r = Some s \<and> s \<le> tick \<and>
     ir_woke r = Some w \<and> tick - w \<ge> ep_idle_close (ee_pol e))"

lemma idle_rec_woke:
  assumes "ir_woke (idle_rec_at tick r) = Some w"
  shows "\<exists>s x. r = Some x \<and> ir_since x = Some s \<and> s \<le> tick \<and> ir_woke x = Some w"
  using assms by (auto simp: idle_rec_at_def Let_def split: option.splits if_splits)

definition idle_close_call :: "string \<Rightarrow> phase_call \<Rightarrow> bool" where
  "idle_close_call pid c \<longleftrightarrow>
     (\<exists>reason. c = (''queue.close'', [(''project_id'', JStr pid), (''outcome'', JStr ''completed''), (''reason'', reason)]))"

lemma idle_one_other: "pid' \<noteq> pid \<Longrightarrow> map_of (es_idle (ph_st (idle_one e tick pid ph))) pid' = map_of (es_idle (ph_st ph)) pid'"
  by (auto simp: idle_one_def Let_def update_conv' delete_conv' split: option.splits prod.splits dest!: tool_frame)

lemma idle_one_close:
  "\<exists>cs. ph_calls (idle_one e tick pid ph) = ph_calls ph @ cs \<and>
     (\<forall>c \<in> set cs. warned e tick (ph_st ph) pid \<and> idle_close_call pid c)"
proof (cases "ir_woke (idle_rec_at tick (map_of (es_idle (ph_st ph)) pid))")
  case None
  then show ?thesis by (simp add: idle_one_def Let_def)
next
  case (Some w)
  from idle_rec_woke [OF Some] have "warned e tick (ph_st ph) pid" if "tick - w \<ge> ep_idle_close (ee_pol e)"
    using that unfolding warned_def by blast
  with Some show ?thesis
    by (auto simp: idle_one_def Let_def idle_close_call_def split: prod.splits dest!: tool_frame)
qed

lemma idle_closes:
  assumes "distinct live" and "c \<in> set (drop (length (ph_calls ph)) (ph_calls (fold (idle_one e tick) live ph)))"
  shows "\<exists>pid \<in> set live. warned e tick (ph_st ph) pid \<and>
      idle_close_call pid c"
proof -
  have "\<exists>cs. ph_calls (fold (idle_one e tick) live ph) = ph_calls ph @ cs \<and> (\<forall>c \<in> set cs. \<exists>pid \<in> set live. warned e tick (ph_st ph) pid \<and>
      idle_close_call pid c)"
    using assms(1)
  proof (induction live arbitrary: ph)
    case (Cons pid live)
    let ?ph = "idle_one e tick pid ph"
    obtain cs where cs: "ph_calls (fold (idle_one e tick) live ?ph) = ph_calls ?ph @ cs"
      "\<forall>c \<in> set cs. \<exists>p \<in> set live. warned e tick (ph_st ?ph) p \<and>
        idle_close_call p c" using Cons.IH [of ?ph] Cons.prems by auto
    have w: "warned e tick (ph_st ?ph) p = warned e tick (ph_st ph) p" if "p \<in> set live" for p
    proof -
      have "p \<noteq> pid" using that Cons.prems by auto
      from idle_one_other [OF this, of e tick ph] show ?thesis unfolding warned_def by simp
    qed
    from idle_one_close [of e tick pid ph] obtain ds where ds: "ph_calls ?ph = ph_calls ph @ ds"
      "\<forall>c \<in> set ds. warned e tick (ph_st ph) pid \<and>
        idle_close_call pid c" by blast
    have "\<forall>c \<in> set (ds @ cs). \<exists>p \<in> set (pid # live). warned e tick (ph_st ph) p \<and>
      idle_close_call p c"
      using ds(2) cs(2) w by (metis Un_iff list.set_intros set_append)
    with ds(1) cs(1) show ?case by (intro exI [of _ "ds @ cs"]) simp
  qed simp
  with assms(2) show ?thesis by auto
qed

lemma distinct_fold_update: "distinct (map fst m) \<Longrightarrow> distinct (map fst (fold (\<lambda>p. AList.update (k p) (v p)) ps m))"
  by (induction ps arbitrary: m) (auto simp: distinct_update)

lemma state_projects_distinct: "distinct (map fst (state_projects e out))"
  unfolding state_projects_def by (rule distinct_fold_update) simp

lemma idle_close_warned:
  assumes "distinct (map fst (ph_projects ph))" and "ee_tick e = Some tick"
    and "c \<in> set (drop (length (ph_calls ph)) (ph_calls (idle e ph)))"
  shows "\<exists>(pid, p) \<in> set (ph_projects ph). is_waiting p \<and> warned e tick (ph_st ph) pid \<and> idle_close_call pid c"
proof -
  let ?live = "map fst (filter (\<lambda>(_, p). is_waiting p) (ph_projects ph))"
  have "distinct ?live" using assms(1) by (rule distinct_map_filter)
  moreover have "c \<in> set (drop (length (ph_calls ph)) (ph_calls (fold (idle_one e tick) ?live ph)))"
    using assms(2,3) by (simp add: idle_def Let_def)
  ultimately obtain pid where "pid \<in> set ?live" "warned e tick (ph_st ph) pid" "idle_close_call pid c"
    using idle_closes by blast
  then show ?thesis by auto
qed

subsection \<open>A call that raises is not counted\<close>

definition runs_of :: "phase \<Rightarrow> nat" where
  "runs_of ph = length (filter (\<lambda>c. fst c = ''queue.run_step'') (ph_calls ph))"

lemma failed_run_one:
  assumes "\<And>h a. ee_answer e h (''queue.run_step'', a) = None" and "ep_ore_hold (ee_pol e) = None" and "\<not> sp_enabled (ep_stock (ee_pol e))"
    and "\<not> ee_latched e" and "str_or_empty (ee_pr e) (getj s ''project_id'') \<notin> set ([] # blocked)"
    and "str_or_empty (ee_pr e) (getj s ''step_id'') \<noteq> []" and "run_one e blocked s saved ph = (saved', ph')"
  shows "runs_of ph' = Suc (runs_of ph) \<and> ph_steps_run ph' = ph_steps_run ph"
  using assms
  by (auto simp: run_one_def ore_block_def stock_check_def runs_of_def tool_def Let_def split: if_splits option.splits prod.splits)

lemma failed_runs:
  assumes "\<And>h a. ee_answer e h (''queue.run_step'', a) = None" and "ep_ore_hold (ee_pol e) = None" and "\<not> sp_enabled (ep_stock (ee_pol e))"
    and "\<not> ee_latched e"
    and "\<forall>s \<in> set steps. str_or_empty (ee_pr e) (getj s ''project_id'') \<notin> set ([] # blocked) \<and> str_or_empty (ee_pr e) (getj s ''step_id'') \<noteq> []"
    and "ph_steps_run ph < ep_max_steps (ee_pol e)"
  shows "runs_of (run_steps e blocked steps saved ph) = runs_of ph + length steps"
  using assms(5,6)
proof (induction steps arbitrary: saved ph)
  case (Cons s steps)
  obtain saved' ph' where o: "run_one e blocked s saved ph = (saved', ph')" by force
  have "runs_of ph' = Suc (runs_of ph) \<and> ph_steps_run ph' = ph_steps_run ph"
    by (rule failed_run_one [OF assms(1-4) _ _ o]) (use Cons.prems(1) in auto)
  with Cons.IH [of ph' saved'] Cons.prems o show ?case by simp
qed simp

end
