(* ===== verification/Cycle_Facts.thy ===== *)
theory Cycle_Facts
  imports Cycle Pause_Facts Execute_Facts
begin

section \<open>Who may end a pause\<close>

text \<open>
  The paused cycles as a whole: every way the conductor can resume the fort before the ordinary path, from the
  watchdog's facts (\<open>Pause_Facts\<close>) and the calls of a pass while a tripwire is latched (\<open>Execute_Facts\<close>).
  \<open>went S\<close> says that a part of a cycle appended only calls of the tools in \<open>S\<close>, sleeps and runs.
\<close>

definition went :: "string set \<Rightarrow> cycle \<Rightarrow> cycle \<Rightarrow> bool" where
  "went S cy cy' = (\<exists>es. cy_trace cy' = cy_trace cy @ es \<and> (\<forall>e \<in> set es. uses S e))"

lemma went_refl [simp, intro]: "went S cy cy"
  by (simp add: went_def)

lemma went_trans [trans]: "went S a b \<Longrightarrow> went S b c \<Longrightarrow> went S a c"
  unfolding went_def by (metis Un_iff append.assoc set_append)

lemma went_mono: "went S a b \<Longrightarrow> S \<subseteq> T \<Longrightarrow> went T a b"
  by (auto simp: went_def uses_def split: world_event.splits)

lemma went_same: "cy_trace b = cy_trace a \<Longrightarrow> went S a b"
  by (simp add: went_def)

lemma went_resumes: "went S a b \<Longrightarrow> ''clock.resume'' \<notin> S \<Longrightarrow> resumes (cy_trace b) = resumes (cy_trace a)"
  by (auto simp: went_def no_resumes)

lemma call_cy_simps [simp]:
  "cy_trace (snd (call_cy d n a cy)) = cy_trace cy @ [Called n a]" "fst (call_cy d n a cy) = cd_world d (cy_trace cy) n a"
  "cy_watch (snd (call_cy d n a cy)) = cy_watch cy" "cy_trip (snd (call_cy d n a cy)) = cy_trip cy"
  "cy_trace (call_write d n a cy) = cy_trace cy @ [Called n a]" "cy_watch (call_write d n a cy) = cy_watch cy"
  "cy_trip (call_write d n a cy) = cy_trip cy"
  by (simp_all add: call_cy_def call_write_def)

lemma commit_cursor_simps [simp]:
  "cy_trace (commit_cursor d nc r cy) = cy_trace cy" "cy_watch (commit_cursor d nc r cy) = cy_watch cy"
  "cy_trip (commit_cursor d nc r cy) = cy_trip cy"
  by (simp_all add: commit_cursor_def split: option.splits)

lemma commit_others_simps [simp]:
  "cy_trace (commit_others d nc k cy) = cy_trace cy" "cy_watch (commit_others d nc k cy) = cy_watch cy"
  "cy_trip (commit_others d nc k cy) = cy_trip cy"
proof -
  have "cy_trace (fold (commit_cursor d nc) rs c) = cy_trace c \<and> cy_watch (fold (commit_cursor d nc) rs c) = cy_watch c \<and>
    cy_trip (fold (commit_cursor d nc) rs c) = cy_trip c" for rs c
    by (induction rs arbitrary: c) simp_all
  then show "cy_trace (commit_others d nc k cy) = cy_trace cy" "cy_watch (commit_others d nc k cy) = cy_watch cy"
    "cy_trip (commit_others d nc k cy) = cy_trip cy"
    by (simp_all add: commit_others_def)
qed

subsection \<open>A run of a role\<close>

lemma report_run_simps [simp]:
  "cy_trace (snd (report_run d a cy)) = cy_trace cy @ [Called REPORT_TOOL_ID a]" "cy_watch (snd (report_run d a cy)) = cy_watch cy"
  "cy_trip (snd (report_run d a cy)) = cy_trip cy"
  by (simp_all add: report_run_def call_cy_def)

lemma run_roleE:
  assumes "run_role d role wk reasons cy = (r, cy')"
  obtains a b where "cy_trace cy' = cy_trace cy @ [Called REPORT_TOOL_ID a, Ran role, Called REPORT_TOOL_ID b]"
    and "r = cd_runner d (cy_trace cy @ [Called REPORT_TOOL_ID a]) role wk" and "cy_watch cy' = cy_watch cy"
    and "cy_trip cy' = cy_trip cy"
proof -
  obtain s c1 where s: "report_run d ((''phase'', JStr ''start'') # wake_fields d role wk
      (wk_reason wk # filter (\<lambda>r. r \<noteq> wk_reason wk) (rev (remdups (rev reasons))))) cy = (s, c1)" by fastforce
  then have c1: "cy_trace c1 = cy_trace cy @ [Called REPORT_TOOL_ID ((''phase'', JStr ''start'') # wake_fields d role wk
      (wk_reason wk # filter (\<lambda>r. r \<noteq> wk_reason wk) (rev (remdups (rev reasons)))))]" "cy_watch c1 = cy_watch cy" "cy_trip c1 = cy_trip cy"
    by (metis report_run_simps snd_conv)+
  show ?thesis
    by (rule that) (use assms c1 in \<open>auto simp: run_role_def s Let_def split_beta\<close>)
qed

lemma run_role_went: "run_role d role wk reasons cy = (r, cy') \<Longrightarrow> went {REPORT_TOOL_ID} cy cy'"
  by (elim run_roleE) (simp add: went_def uses_def)

lemma baseline_simps:
  assumes "baseline_in_cycle d cy = (b, cy')"
  shows "cy_trace cy' = cy_trace cy @ [Called VERDICT_READ_TOOL_ID [(''since_id'', JInt 0)]]" "cy_watch cy' = cy_watch cy"
    "cy_trip cy' = cy_trip cy"
  using assms by (auto simp: baseline_in_cycle_def read_verdict_baseline_def as_pass_def call_tool_def)

definition verdict_call :: "int \<Rightarrow> world_event" where
  "verdict_call b = Called VERDICT_READ_TOOL_ID [(''since_id'', JInt b)]"

text \<open>The verdict a read of the tool gives.\<close>

definition verdict_read :: "cycle_deps \<Rightarrow> world_event list \<Rightarrow> int \<Rightarrow> pause_verdict option" where
  "verdict_read d tr b = (case cd_world d tr VERDICT_READ_TOOL_ID [(''since_id'', JInt b)] of
     Some (JObj r) \<Rightarrow> last_verdict (cd_pr d) (getj r ''verdicts'') | _ \<Rightarrow> None)"

lemma verdict_simps:
  assumes "verdict_in_cycle d b cy = (v, cy')"
  shows "cy_watch cy' = cy_watch cy" "cy_trip cy' = cy_trip cy" "went {VERDICT_READ_TOOL_ID} cy cy'"
    "v = Some x \<Longrightarrow> \<exists>i. b = Some i \<and> verdict_read d (cy_trace cy) i = Some x \<and> cy_trace cy' = cy_trace cy @ [verdict_call i]"
  using assms
  by (auto simp: verdict_in_cycle_def read_verdict_after_def as_pass_def call_tool_def verdict_read_def verdict_call_def went_def uses_def
    split: option.splits)

lemma finish_in_cycle_unfold:
  assumes "finish_in_cycle d esc status v hold what cy = (out, cy')"
  shows "finish_after_overseer (cd_pr d) (cd_world d) (cd_pause d) esc status (cd_clock d (cy_trace cy)) v (hs_held hold) what
     (cy_trace cy) (cy_watch cy) = (cy_watch cy', out, cy_trace cy')" and "cy_trip cy' = cy_trip cy"
  using assms by (auto simp: finish_in_cycle_def split: prod.splits)

text \<open>What the Overseer's run in this cycle must have been for its word to count: the latest verdict was read just
  before the run; the run was clean and showed no escalation; a verdict written after that reads as resume.\<close>

definition overseer_said_resume :: "cycle_deps \<Rightarrow> string set \<Rightarrow> world_event list \<Rightarrow> world_event list \<Rightarrow> bool" where
  "overseer_said_resume d S tr tr' \<longleftrightarrow> (\<exists>t0 rep wk rep' es b v.
     tr' = tr @ t0 @ [verdict_call 0, Called REPORT_TOOL_ID rep, Ran OVERSEER, Called REPORT_TOOL_ID rep'] @ es @ [verdict_call b] \<and>
     (let r = cd_runner d (tr @ t0 @ [verdict_call 0, Called REPORT_TOOL_ID rep]) OVERSEER wk in
        \<not> unclean r \<and> \<not> overseer_called_escalate r) \<and>
     (\<forall>e \<in> set es. uses S e \<and> (\<forall>x. e \<noteq> Ran x)) \<and>
     verdict_read d (tr @ t0 @ [verdict_call 0, Called REPORT_TOOL_ID rep, Ran OVERSEER, Called REPORT_TOOL_ID rep'] @ es) b = Some v \<and>
     pv_resume v)"

subsection \<open>The cycle on an unexplained pause\<close>

definition resumed_on_word :: "cycle_deps \<Rightarrow> string set \<Rightarrow> hold_state \<Rightarrow> world_event list \<Rightarrow> world_event list \<Rightarrow> world_event list \<Rightarrow> bool" where
  "resumed_on_word d S hold clr tr tr' \<longleftrightarrow> \<not> hs_held hold \<and> resumes tr' = Suc (resumes tr) \<and>
     (\<exists>mid post. tr' = mid @ clr @ [resume_call] @ post \<and> resumes post = 0 \<and> overseer_said_resume d S tr mid)"

lemma verdict_call_baseline: "Called VERDICT_READ_TOOL_ID [(''since_id'', JInt b)] = verdict_call b"
  by (simp add: verdict_call_def)

lemma judged_pauseE:
  assumes j: "judged_pause d nc status hold detail cy = (r, esc, fin, cy')"
  obtains baseline cy2 cy3 v cy5 where
    "baseline_in_cycle d (call_write d ''fort.quicksave'' [] (commit_others d nc [OVERSEER] cy)) = (baseline, cy2)"
    "run_role d OVERSEER \<lparr>wk_reason = UNEXPLAINED_PAUSE, wk_detail = detail, wk_roles = [OVERSEER], wk_clock = Paused\<rparr> [] cy2 = (r, cy3)"
    "esc \<longleftrightarrow> overseer_called_escalate r \<or> unclean r"
    "(if esc then (None, if rr_ok r then commit_cursor d nc OVERSEER cy3 else cy3)
      else verdict_in_cycle d baseline (if rr_ok r then commit_cursor d nc OVERSEER cy3 else cy3)) = (v, cy5)"
    "finish_in_cycle d esc status v hold ''an unexplained pause'' cy5 = (fin, cy')"
proof -
  obtain baseline cy2 where b: "baseline_in_cycle d (call_write d ''fort.quicksave'' [] (commit_others d nc [OVERSEER] cy)) = (baseline, cy2)"
    by fastforce
  obtain r0 cy3 where rr: "run_role d OVERSEER \<lparr>wk_reason = UNEXPLAINED_PAUSE, wk_detail = detail, wk_roles = [OVERSEER],
      wk_clock = Paused\<rparr> [] cy2 = (r0, cy3)" by fastforce
  let ?e = "overseer_called_escalate r0 \<or> unclean r0"
  let ?c = "if rr_ok r0 then commit_cursor d nc OVERSEER cy3 else cy3"
  obtain v cy5 where v: "(if ?e then (None, ?c) else verdict_in_cycle d baseline ?c) = (v, cy5)" by fastforce
  obtain f cy6 where f: "finish_in_cycle d ?e status v hold ''an unexplained pause'' cy5 = (f, cy6)" by fastforce
  have "(r, esc, fin, cy') = (r0, ?e, f, cy6)"
    using j unfolding judged_pause_def Let_def b rr v f split by blast
  then have e1: "r = r0" and e2: "esc = ?e" and e3: "fin = f" and e4: "cy' = cy6" by blast+
  show ?thesis unfolding e1 e2 e3 e4
    by (rule that [OF b rr [folded e1] _ v [folded e2, folded e1] f [folded e2 e3 e4]], unfold e2 e1, rule refl)
qed

lemma judged_pause_resume:
  assumes j: "judged_pause d nc status hold detail cy = (r, e, fin, cy')" and "resumes (cy_trace cy') \<noteq> resumes (cy_trace cy)"
  shows "resumed_on_word d {} hold [] (cy_trace cy) (cy_trace cy')"
proof -
  let ?wk = "\<lparr>wk_reason = UNEXPLAINED_PAUSE, wk_detail = detail, wk_roles = [OVERSEER], wk_clock = Paused\<rparr>"
  obtain baseline cy2 cy3 v cy5 where
    b: "baseline_in_cycle d (call_write d ''fort.quicksave'' [] (commit_others d nc [OVERSEER] cy)) = (baseline, cy2)" and
    rr: "run_role d OVERSEER ?wk [] cy2 = (r, cy3)" and
    e: "e \<longleftrightarrow> overseer_called_escalate r \<or> unclean r" and
    v0: "(if e then (None, if rr_ok r then commit_cursor d nc OVERSEER cy3 else cy3)
      else verdict_in_cycle d baseline (if rr_ok r then commit_cursor d nc OVERSEER cy3 else cy3)) = (v, cy5)" and
    f: "finish_in_cycle d e status v hold ''an unexplained pause'' cy5 = (fin, cy')"
    by (rule judged_pauseE [OF j])
  define cy4 where "cy4 = (if rr_ok r then commit_cursor d nc OVERSEER cy3 else cy3)"
  note v = v0 [folded cy4_def]
  obtain a a' where t3: "cy_trace cy3 = cy_trace cy2 @ [Called REPORT_TOOL_ID a, Ran OVERSEER, Called REPORT_TOOL_ID a']"
    and r0: "r = cd_runner d (cy_trace cy2 @ [Called REPORT_TOOL_ID a]) OVERSEER ?wk"
    by (rule run_roleE [OF rr])
  have t2: "cy_trace cy2 = cy_trace cy @ [Called ''fort.quicksave'' [], verdict_call 0]"
    using baseline_simps(1) [OF b] by (simp add: verdict_call_def)
  have t4: "cy_trace cy4 = cy_trace cy3" by (simp add: cy4_def)
  note fin = finish_in_cycle_unfold(1) [OF f]
  have n5: "resumes (cy_trace cy5) = resumes (cy_trace cy)"
  proof -
    have "went {VERDICT_READ_TOOL_ID} cy4 cy5" using v verdict_simps(3) by (cases e) auto
    then have "resumes (cy_trace cy5) = resumes (cy_trace cy4)" by (rule went_resumes) simp
    then show ?thesis by (simp add: t4 t3 t2 verdict_call_def REPORT_TOOL_ID_def VERDICT_READ_TOOL_ID_def)
  qed
  have g: "resume_granted e (hs_held hold) v"
    using finish_trace(1) [OF fin] assms(2) n5 by metis
  then obtain x where x: "v = Some x" "pv_resume x" "\<not> e" "\<not> hs_held hold" by (auto simp: resume_granted_def)
  then obtain i where i: "verdict_read d (cy_trace cy4) i = Some x" "cy_trace cy5 = cy_trace cy4 @ [verdict_call i]"
    using v verdict_simps(4) [of d baseline cy4 v cy5 x] by auto
  obtain post where post: "cy_trace cy' = cy_trace cy5 @ resume_call # post" "resumes post = 0"
    using finish_trace(2) [OF fin g] by blast
  have w: "\<not> unclean r \<and> \<not> overseer_called_escalate r" using x e by simp
  have "overseer_said_resume d {} (cy_trace cy) (cy_trace cy5)"
    unfolding overseer_said_resume_def
    by (rule exI [of _ "[Called ''fort.quicksave'' []]"], rule exI [of _ a], rule exI [of _ ?wk], rule exI [of _ a'],
        rule exI [of _ "[]"], rule exI [of _ i], rule exI [of _ x])
      (use i x w r0 in \<open>simp add: t4 t3 t2 Let_def\<close>)
  with post x n5 show ?thesis by (auto simp: resumed_on_word_def)
qed

text \<open>What the sequence leaves when it does not resume: an alert, or the operator's hold.\<close>

lemma judged_pause_silent:
  assumes j: "judged_pause d nc status hold detail cy = (r, esc, fin, cy')"
  shows "wo_resumed fin \<or> wo_alerts fin \<noteq> [] \<or> hs_held hold \<and> wo_verdict fin = V_HELD"
    and "esc \<longleftrightarrow> overseer_called_escalate r \<or> unclean r"
    and "esc \<Longrightarrow> ws_owned (cy_watch cy') = Some OWNED_ESCALATION"
    and "wo_still_paused fin \<longleftrightarrow> \<not> wo_resumed fin"
proof -
  obtain baseline cy2 cy3 v cy5 where e: "esc \<longleftrightarrow> overseer_called_escalate r \<or> unclean r" and
    f: "finish_in_cycle d esc status v hold ''an unexplained pause'' cy5 = (fin, cy')"
    by (rule judged_pauseE [OF j])
  show "esc \<longleftrightarrow> overseer_called_escalate r \<or> unclean r" by (rule e)
  note fin = finish_in_cycle_unfold(1) [OF f]
  show "wo_resumed fin \<or> wo_alerts fin \<noteq> [] \<or> hs_held hold \<and> wo_verdict fin = V_HELD"
    using finish_outcome(2) [OF fin] by blast
  show "esc \<Longrightarrow> ws_owned (cy_watch cy') = Some OWNED_ESCALATION" by (rule finish_outcome(3) [OF fin])
  show "wo_still_paused fin \<longleftrightarrow> \<not> wo_resumed fin" by (rule finish_outcome(4) [OF fin])
qed

subsection \<open>The cycle with a latched tripwire\<close>

definition latched_tools :: "cycle_deps \<Rightarrow> string set" where
  "latched_tools d = {ORE_POLL_TOOL, ''queue.execution_state'', ''queue.resolve_uncertain'', ''queue.open_project'', ''queue.apply_followup'',
     ''fort.quicksave'', ''queue.run_step'', ''queue.close'', sp_read_tool (ep_stock (cd_exec d))}"

definition only_calls :: "string set \<Rightarrow> cycle \<Rightarrow> cycle \<Rightarrow> bool" where
  "only_calls S a b \<longleftrightarrow> (\<exists>es. cy_trace b = cy_trace a @ es \<and> (\<forall>e \<in> set es. uses S e \<and> (\<forall>x. e \<noteq> Ran x)))"

lemma only_calls_refl [simp]: "only_calls S a a"
  by (simp add: only_calls_def)

lemma only_calls_trans: "only_calls S a b \<Longrightarrow> only_calls S b c \<Longrightarrow> only_calls S a c"
  unfolding only_calls_def by (metis Un_iff append.assoc set_append)

lemma only_calls_resumes: "only_calls S a b \<Longrightarrow> ''clock.resume'' \<notin> S \<Longrightarrow> resumes (cy_trace b) = resumes (cy_trace a)"
  by (rule went_resumes [of S]) (auto simp: only_calls_def went_def)

lemma phase_event_uses:
  assumes "fst c \<in> before_runs e \<union> {''quicksave'', ''queue.run_step'', ''queue.close'', sp_read_tool (ep_stock (cd_exec d))}"
    and "ee_latched e"
  shows "uses (latched_tools d) (phase_event c) \<and> (\<forall>x. phase_event c \<noteq> Ran x)"
  using assms by (auto simp: phase_event_def uses_def latched_tools_def before_runs_def)

lemma execute_phase_latched:
  assumes "execute_phase d tick hold esc ore lanes True cy = (res, cy')"
  shows "only_calls (latched_tools d) cy cy'" and "cy_watch cy' = cy_watch cy" and "cy_trip cy' = cy_trip cy"
proof -
  let ?e = "exec_env_of d tick ore True (cy_trace cy)"
  have lat: "ee_latched ?e" "ee_pol ?e = cd_exec d" by (simp_all add: exec_env_of_def)
  have u: "\<forall>e \<in> set (map phase_event (ph_calls ph)). uses (latched_tools d) e \<and> (\<forall>x. e \<noteq> Ran x)"
    if r: "run_execute ?e st = (did, ph)" for st did ph
  proof
    fix e assume "e \<in> set (map phase_event (ph_calls ph))"
    then obtain c where c: "c \<in> set (ph_calls ph)" "e = phase_event c" by auto
    have "fst c \<in> before_runs ?e \<union> {''quicksave'', ''queue.run_step'', ''queue.close'', sp_read_tool (ep_stock (cd_exec d))}"
      using pass_calls [OF r c(1)] by (auto simp: lat(2))
    from phase_event_uses [OF this lat(1)] show "uses (latched_tools d) e \<and> (\<forall>x. e \<noteq> Ran x)" by (simp add: c(2))
  qed
  have "only_calls (latched_tools d) cy cy' \<and> cy_watch cy' = cy_watch cy \<and> cy_trip cy' = cy_trip cy"
  proof (cases "cy_exec cy")
    case None
    with assms show ?thesis by (auto simp: execute_phase_def split: if_splits)
  next
    case (Some st)
    obtain did ph where r: "run_execute ?e st = (did, ph)" by fastforce
    with assms Some u [OF r] show ?thesis
      by (auto simp: execute_phase_def only_calls_def Let_def split: if_splits)
  qed
  then show "only_calls (latched_tools d) cy cy'" "cy_watch cy' = cy_watch cy" "cy_trip cy' = cy_trip cy" by simp_all
qed

lemma latched_execute_props:
  assumes "latched_execute d tick hold cy = (res, cy')"
  shows "only_calls (latched_tools d) cy cy'" and "cy_watch cy' = cy_watch cy" and "cy_trip cy' = cy_trip cy"
proof -
  obtain ore cy1 where o1: "watch_ore d cy = (ore, cy1)" by fastforce
  then have 1: "only_calls (latched_tools d) cy cy1" "cy_watch cy1 = cy_watch cy" "cy_trip cy1 = cy_trip cy"
    by (auto simp: watch_ore_def only_calls_def uses_def latched_tools_def call_cy_def split: if_splits)
  have x: "execute_phase d tick hold False ore (case cy_lanes cy of Some l \<Rightarrow> l | None \<Rightarrow> new_lanes) True cy1 = (res, cy')"
    using assms o1 by (simp add: latched_execute_def Let_def)
  note e = execute_phase_latched [OF x]
  show "only_calls (latched_tools d) cy cy'" by (rule only_calls_trans [OF 1(1) e(1)])
  show "cy_watch cy' = cy_watch cy" "cy_trip cy' = cy_trip cy" using 1 e by simp_all
qed

lemma run_owners_props:
  assumes "run_owners d nc trip roles cy = (rs, cy')"
  shows "went {REPORT_TOOL_ID} cy cy'" and "cy_watch cy' = cy_watch cy" and "cy_trip cy' = cy_trip cy" and "map fst rs = roles"
proof -
  have "went {REPORT_TOOL_ID} cy cy' \<and> cy_watch cy' = cy_watch cy \<and> cy_trip cy' = cy_trip cy \<and> map fst rs = roles"
    using assms
  proof (induction roles arbitrary: cy rs)
    case Nil
    then show ?case by simp
  next
    case (Cons role roles)
    obtain r c1 where o1: "owner_run d nc trip role cy = (r, c1)" by fastforce
    obtain rs2 c2 where o2: "run_owners d nc trip roles c1 = (rs2, c2)" by fastforce
    from Cons.prems o1 o2 have eq: "rs = (role, r) # rs2" "cy' = c2" by simp_all
    obtain r' c0 where rr: "run_role d role \<lparr>wk_reason = ''tripwire'', wk_detail = latch_text d trip, wk_roles = [role], wk_clock = Paused\<rparr> [] cy = (r', c0)"
      by fastforce
    have c1: "c1 = (if rr_ok r' then commit_cursor d nc role c0 else c0)" using o1 rr by (auto simp: owner_run_def)
    have "went {REPORT_TOOL_ID} cy c0" by (rule run_role_went [OF rr])
    moreover have "cy_watch c0 = cy_watch cy \<and> cy_trip c0 = cy_trip cy" by (rule run_roleE [OF rr]) simp
    moreover have "went {REPORT_TOOL_ID} c0 c1" "cy_watch c1 = cy_watch c0" "cy_trip c1 = cy_trip c0" by (simp_all add: c1 went_same)
    ultimately show ?case using Cons.IH [of c1 rs2] o2 by (auto simp: eq intro: went_trans)
  qed
  then show "went {REPORT_TOOL_ID} cy cy'" "cy_watch cy' = cy_watch cy" "cy_trip cy' = cy_trip cy" "map fst rs = roles" by simp_all
qed

lemma judge_runE:
  assumes "judge_run d nc trip owners cy = (r, b, cy')"
  obtains rep rep' wk where "cy_trace cy' = cy_trace cy @ [Called ''queue.pending_brief'' [], verdict_call 0, Called REPORT_TOOL_ID rep,
      Ran OVERSEER, Called REPORT_TOOL_ID rep']"
    and "r = cd_runner d (cy_trace cy @ [Called ''queue.pending_brief'' [], verdict_call 0, Called REPORT_TOOL_ID rep]) OVERSEER wk"
    and "cy_watch cy' = cy_watch cy" and "cy_trip cy' = cy_trip cy"
proof -
  let ?wk = "\<lparr>wk_reason = ''tripwire'', wk_detail = latch_text d trip @ overseer_note owners @
            ''. Rule on what is pending, then give your pause.verdict.'', wk_roles = [OVERSEER], wk_clock = Paused\<rparr>"
  obtain c1 x where c1: "call_cy d ''queue.pending_brief'' [] cy = (x, c1)" by fastforce
  obtain b0 c2 where b: "baseline_in_cycle d c1 = (b0, c2)" by fastforce
  obtain r0 c3 where rr: "run_role d OVERSEER ?wk [] c2 = (r0, c3)" by fastforce
  have "(r, b, cy') = (r0, b0, if rr_ok r0 then commit_cursor d nc OVERSEER c3 else c3)"
    using assms unfolding judge_run_def Let_def c1 b rr split by blast
  then have e: "r = r0" "cy' = (if rr_ok r0 then commit_cursor d nc OVERSEER c3 else c3)" by blast+
  have t1: "cy_trace c1 = cy_trace cy @ [Called ''queue.pending_brief'' []]" "cy_watch c1 = cy_watch cy" "cy_trip c1 = cy_trip cy"
    using c1 call_cy_simps(1,3,4) [of d "''queue.pending_brief''" "[]" cy] by (simp_all del: call_cy_simps)
  show ?thesis
  proof (rule run_roleE [OF rr])
    fix a a' assume t3: "cy_trace c3 = cy_trace c2 @ [Called REPORT_TOOL_ID a, Ran OVERSEER, Called REPORT_TOOL_ID a']"
      and r0: "r0 = cd_runner d (cy_trace c2 @ [Called REPORT_TOOL_ID a]) OVERSEER ?wk" and k: "cy_watch c3 = cy_watch c2" "cy_trip c3 = cy_trip c2"
    have t2: "cy_trace c2 = cy_trace cy @ [Called ''queue.pending_brief'' [], verdict_call 0]"
      using baseline_simps(1) [OF b] by (simp add: t1 verdict_call_def)
    have c': "cy_trace cy' = cy_trace c3" "cy_watch cy' = cy_watch cy" "cy_trip cy' = cy_trip cy"
      using k baseline_simps(2,3) [OF b] t1 by (simp_all add: e(2))
    show thesis
    proof (rule that)
      show "cy_trace cy' = cy_trace cy @ [Called ''queue.pending_brief'' [], verdict_call 0, Called REPORT_TOOL_ID a, Ran OVERSEER,
          Called REPORT_TOOL_ID a']" by (simp add: c' t3 t2)
      show "r = cd_runner d (cy_trace cy @ [Called ''queue.pending_brief'' [], verdict_call 0, Called REPORT_TOOL_ID a]) OVERSEER ?wk"
        unfolding e(1) r0 t2 by simp
    qed (rule c')+
  qed
qed

text \<open>The repeat check and the alert it leads to.\<close>

lemma repeat_check_simps [simp]:
  "cy_trace (snd (repeat_check d trip cy)) = cy_trace cy" "cy_watch (snd (repeat_check d trip cy)) = cy_watch cy"
  by (simp_all add: repeat_check_def Let_def split: option.splits)

lemma raise_human_simps [simp]:
  "cy_trace (snd (raise_human d why cy)) = cy_trace cy" "wo_alerts (fst (raise_human d why cy)) \<noteq> []"
  "wo_still_paused (fst (raise_human d why cy))" "\<not> wo_resumed (fst (raise_human d why cy))"
  by (simp_all add: raise_human_def Let_def new_outcome_def)

abbreviation clear_call :: world_event where
  "clear_call \<equiv> Called ''clock.clear'' []"

text \<open>The parts of a cycle that runs the sequence.\<close>

lemma tripwire_cycleE:
  assumes t: "tripwire_cycle d tick nc status trip hold cy = (res, cy')"
  obtains (dry) "cd_dry d" "cy' = commit_others d nc (owners_for (cd_owners d) (py_str (cd_pr d) (getj trip ''reason'')) @ [OVERSEER]) cy"
      "cr_watch res = None" "cr_clock res = Paused" "cr_runs res = []"
  | (human) why cy1 where "\<not> cd_dry d"
      "repeat_check d trip (commit_others d nc (owners_for (cd_owners d) (py_str (cd_pr d) (getj trip ''reason'')) @ [OVERSEER]) cy) = (Some why, cy1)"
      "cy' = snd (raise_human d why cy1)" "cr_watch res = Some (fst (raise_human d why cy1))" "cr_clock res = Paused" "cr_runs res = []"
      "cr_escalated res"
  | (ruled) owners cy1 rs cy2 r b cy3 cy4 v cy5 out where "\<not> cd_dry d" "owners = owners_for (cd_owners d) (py_str (cd_pr d) (getj trip ''reason''))"
      "repeat_check d trip (commit_others d nc (owners @ [OVERSEER]) cy) = (None, cy1)"
      "run_owners d nc trip owners (call_write d ''fort.quicksave'' [] cy1) = (rs, cy2)"
      "judge_run d nc trip owners cy2 = (r, b, cy3)" "cr_escalated res \<longleftrightarrow> unclean r \<or> overseer_called_escalate r"
      "if cr_escalated res then cy4 = cy3 else \<exists>e. latched_execute d tick hold cy3 = (e, cy4)"
      "if cr_escalated res then v = None \<and> cy5 = cy4 else verdict_in_cycle d b cy4 = (v, cy5)"
      "finish_in_cycle d (cr_escalated res) status v hold (''tripwire '' @ py_str (cd_pr d) (getj trip ''reason''))
         (case v of Some x \<Rightarrow> if pv_resume x then call_write d ''clock.clear'' [] cy5 else cy5 | None \<Rightarrow> cy5) = (out, cy')"
      "cr_watch res = Some out" "cr_clock res = level_of out" "cr_runs res = rs @ [(OVERSEER, r)]"
proof -
  define owners where "owners = owners_for (cd_owners d) (py_str (cd_pr d) (getj trip ''reason''))"
  note t = t [unfolded tripwire_cycle_def Let_def, folded owners_def]
  show ?thesis
  proof (cases "cd_dry d")
    case True
    from t [unfolded if_P [OF True]] show ?thesis by (intro dry) (auto simp: True owners_def)
  next
    case False
    note t = t [unfolded if_not_P [OF False]]
    obtain why0 cy1 where rc: "repeat_check d trip (commit_others d nc (owners @ [OVERSEER]) cy) = (why0, cy1)" by fastforce
    note t = t [unfolded rc prod.case]
    show ?thesis
    proof (cases why0)
      case (Some why)
      obtain o2 c2 where rh: "raise_human d why cy1 = (o2, c2)" by fastforce
      note t = t [unfolded Some option.case rh prod.case]
      show ?thesis
        by (rule human [OF False, of why cy1]) (use t rc in \<open>auto simp: Some owners_def rh\<close>)
    next
      case None
      note t = t [unfolded None option.case]
      obtain rs cy2 where ro: "run_owners d nc trip owners (call_write d ''fort.quicksave'' [] cy1) = (rs, cy2)" by fastforce
      obtain r b cy3 where jr: "judge_run d nc trip owners cy2 = (r, b, cy3)" by (rule prod_cases3)
      note t = t [unfolded ro prod.case jr]
      let ?e = "unclean r \<or> overseer_called_escalate r"
      obtain ex cy4 where x: "(if ?e then (None, cy3) else case latched_execute d tick hold cy3 of (e, c) \<Rightarrow> (Some e, c)) = (ex, cy4)"
        by fastforce
      note t = t [unfolded x prod.case]
      obtain v cy5 where v: "(if ?e then (None, cy4) else verdict_in_cycle d b cy4) = (v, cy5)" by fastforce
      note t = t [unfolded v prod.case]
      let ?c6 = "case v of Some x \<Rightarrow> if pv_resume x then call_write d ''clock.clear'' [] cy5 else cy5 | None \<Rightarrow> cy5"
      obtain out cy7 where f: "finish_in_cycle d ?e status v hold (''tripwire '' @ py_str (cd_pr d) (getj trip ''reason'')) ?c6 = (out, cy7)"
        by fastforce
      have c6: "(case v of None \<Rightarrow> cy5 | Some v \<Rightarrow> if pv_resume v then call_write d ''clock.clear'' [] cy5 else cy5) = ?c6" by (rule refl)
      note t = t [unfolded f prod.case]
      from t have e: "cy' = cy7" "cr_escalated res \<longleftrightarrow> ?e" "cr_watch res = Some out" "cr_clock res = level_of out"
        "cr_runs res = rs @ [(OVERSEER, r)]" by auto
      have x': "if cr_escalated res then cy4 = cy3 else \<exists>e. latched_execute d tick hold cy3 = (e, cy4)"
        using x e(2) by (auto split: if_splits prod.splits)
      have v': "if cr_escalated res then v = None \<and> cy5 = cy4 else verdict_in_cycle d b cy4 = (v, cy5)"
        using v e(2) by (auto split: if_splits)
      show ?thesis
        by (rule ruled [OF False owners_def rc [unfolded None] ro jr e(2) x' v' f [folded e(1,2)] e(3,4,5)])
    qed
  qed
qed

lemma clear_not_resume [simp]: "resumes (tr @ [clear_call]) = resumes tr"
  by simp

lemma tripwire_cycle_resume:
  assumes t: "tripwire_cycle d tick nc status trip hold cy = (res, cy')"
    and sp: "sp_read_tool (ep_stock (cd_exec d)) \<noteq> ''clock.resume''"
    and r: "resumes (cy_trace cy') \<noteq> resumes (cy_trace cy)"
  shows "\<not> cd_dry d \<and> resumed_on_word d (latched_tools d) hold [clear_call] (cy_trace cy) (cy_trace cy')"
  using t
proof (cases rule: tripwire_cycleE)
  case dry
  with r show ?thesis by simp
next
  case (human why cy1)
  let ?c = "commit_others d nc (owners_for (cd_owners d) (py_str (cd_pr d) (getj trip ''reason'')) @ [OVERSEER]) cy"
  have "cy1 = snd (repeat_check d trip ?c)" using human(2) by simp
  with human(3) r show ?thesis by simp
next
  case (ruled owners cy1 rs cy2 rn b cy3 cy4 v cy5 out)
  note esc = ruled(6) and ex = ruled(7) and vd = ruled(8) and fin = finish_in_cycle_unfold(1) [OF ruled(9)]
  let ?e = "cr_escalated res"
  let ?c6 = "case v of Some x \<Rightarrow> if pv_resume x then call_write d ''clock.clear'' [] cy5 else cy5 | None \<Rightarrow> cy5"
  have "cy1 = snd (repeat_check d trip (commit_others d nc (owners @ [OVERSEER]) cy))" using ruled(3) by simp
  then have t1: "cy_trace cy1 = cy_trace cy" by simp
  from run_owners_props(1) [OF ruled(4)] obtain es where es: "cy_trace cy2 = cy_trace cy @ Called ''fort.quicksave'' [] # es"
    "\<forall>e \<in> set es. uses {REPORT_TOOL_ID} e" by (auto simp: went_def t1)
  obtain rep rep' wk where t3: "cy_trace cy3 = cy_trace cy2 @ [Called ''queue.pending_brief'' [], verdict_call 0, Called REPORT_TOOL_ID rep,
      Ran OVERSEER, Called REPORT_TOOL_ID rep']"
    and rn: "rn = cd_runner d (cy_trace cy2 @ [Called ''queue.pending_brief'' [], verdict_call 0, Called REPORT_TOOL_ID rep]) OVERSEER wk"
    by (rule judge_runE [OF ruled(5)])
  have oc: "only_calls (latched_tools d) cy3 cy4" using ex latched_execute_props(1) by (cases ?e) auto
  then obtain xs where xs: "cy_trace cy4 = cy_trace cy3 @ xs" "\<forall>e \<in> set xs. uses (latched_tools d) e \<and> (\<forall>x. e \<noteq> Ran x)"
    by (auto simp: only_calls_def)
  have nl: "''clock.resume'' \<notin> latched_tools d" using sp by (simp add: latched_tools_def ORE_POLL_TOOL_def)
  have n4: "resumes (cy_trace cy4) = resumes (cy_trace cy)"
  proof -
    have "resumes es = 0" by (rule no_resumes [OF es(2)]) (simp add: REPORT_TOOL_ID_def)
    then have "resumes (cy_trace cy3) = resumes (cy_trace cy)"
      by (simp add: t3 es(1) verdict_call_def VERDICT_READ_TOOL_ID_def REPORT_TOOL_ID_def)
    with only_calls_resumes [OF oc nl] show ?thesis by simp
  qed
  have w5: "went {VERDICT_READ_TOOL_ID} cy4 cy5" using vd verdict_simps(3) by (cases ?e) auto
  have n5: "resumes (cy_trace cy5) = resumes (cy_trace cy)" using went_resumes [OF w5] n4 by simp
  have n6: "resumes (cy_trace ?c6) = resumes (cy_trace cy)" using n5 by (simp split: option.splits)
  have g: "resume_granted ?e (hs_held hold) v"
  proof (rule ccontr)
    assume "\<not> resume_granted ?e (hs_held hold) v"
    from finish_trace(1) [OF fin this] n6 r show False by simp
  qed
  then obtain x where x: "v = Some x" "pv_resume x" "\<not> ?e" "\<not> hs_held hold" by (auto simp: resume_granted_def)
  from vd x(3) have "verdict_in_cycle d b cy4 = (v, cy5)" by simp
  from verdict_simps(4) [OF this x(1)] obtain i where i: "verdict_read d (cy_trace cy4) i = Some x"
    "cy_trace cy5 = cy_trace cy4 @ [verdict_call i]" by blast
  obtain post where post: "cy_trace cy' = cy_trace ?c6 @ resume_call # post" "resumes post = 0"
    using finish_trace(2) [OF fin g] by blast
  have t6: "cy_trace ?c6 = cy_trace cy5 @ [clear_call]" by (simp add: x)
  have w: "\<not> unclean rn \<and> \<not> overseer_called_escalate rn" using x(3) esc by simp
  have said: "overseer_said_resume d (latched_tools d) (cy_trace cy) (cy_trace cy5)"
    unfolding overseer_said_resume_def
  proof (intro exI conjI)
    show "cy_trace cy5 = cy_trace cy @ (Called ''fort.quicksave'' [] # es @ [Called ''queue.pending_brief'' []]) @
      [verdict_call 0, Called REPORT_TOOL_ID rep, Ran OVERSEER, Called REPORT_TOOL_ID rep'] @ xs @ [verdict_call i]"
      by (simp add: i(2) xs(1) t3 es(1))
    show "let r = cd_runner d (cy_trace cy @ (Called ''fort.quicksave'' [] # es @ [Called ''queue.pending_brief'' []]) @
        [verdict_call 0, Called REPORT_TOOL_ID rep]) OVERSEER wk in \<not> unclean r \<and> \<not> overseer_called_escalate r"
      using w rn by (simp add: es(1) Let_def)
    show "\<forall>e \<in> set xs. uses (latched_tools d) e \<and> (\<forall>x. e \<noteq> Ran x)" by (rule xs(2))
    show "verdict_read d (cy_trace cy @ (Called ''fort.quicksave'' [] # es @ [Called ''queue.pending_brief'' []]) @
      [verdict_call 0, Called REPORT_TOOL_ID rep, Ran OVERSEER, Called REPORT_TOOL_ID rep'] @ xs) i = Some x"
      using i(1) by (simp add: xs(1) t3 es(1))
    show "pv_resume x" by (rule x(2))
  qed
  have "resumed_on_word d (latched_tools d) hold [clear_call] (cy_trace cy) (cy_trace cy')"
    unfolding resumed_on_word_def
  proof (intro conjI exI)
    show "\<not> hs_held hold" by (rule x(4))
    show "resumes (cy_trace cy') = Suc (resumes (cy_trace cy))" using post t6 n5 by simp
    show "cy_trace cy' = cy_trace cy5 @ [clear_call] @ [resume_call] @ post" using post t6 by simp
    show "resumes post = 0" by (rule post(2))
    show "overseer_said_resume d (latched_tools d) (cy_trace cy) (cy_trace cy5)" by (rule said)
  qed
  with ruled(1) show ?thesis by simp
qed

text \<open>What a cycle with a latch leaves when it does not resume.\<close>

lemma tripwire_cycle_silent:
  assumes t: "tripwire_cycle d tick nc status trip hold cy = (res, cy')" and "\<not> cd_dry d"
  shows "\<exists>out. cr_watch res = Some out \<and> (wo_resumed out \<or> wo_alerts out \<noteq> [] \<or> hs_held hold \<and> wo_verdict out = V_HELD) \<and>
      (cr_clock res = Full_Speed \<longleftrightarrow> wo_resumed out)"
    and "cr_runs res \<noteq> [] \<Longrightarrow> cr_escalated res \<Longrightarrow> ws_owned (cy_watch cy') = Some OWNED_ESCALATION"
proof -
  have "(\<exists>out. cr_watch res = Some out \<and> (wo_resumed out \<or> wo_alerts out \<noteq> [] \<or> hs_held hold \<and> wo_verdict out = V_HELD) \<and>
      (cr_clock res = Full_Speed \<longleftrightarrow> wo_resumed out)) \<and>
    (cr_runs res \<noteq> [] \<longrightarrow> cr_escalated res \<longrightarrow> ws_owned (cy_watch cy') = Some OWNED_ESCALATION)"
    using t
  proof (cases rule: tripwire_cycleE)
    case dry
    with assms(2) show ?thesis by simp
  next
    case (human why cy1)
    then show ?thesis by simp
  next
    case (ruled owners cy1 rs cy2 rn b cy3 cy4 v cy5 out)
    note fin = finish_in_cycle_unfold(1) [OF ruled(9)]
    show ?thesis
      using finish_outcome(2,3,4) [OF fin] ruled(10,11) by (auto simp: level_of_def)
  qed
  then show "\<exists>out. cr_watch res = Some out \<and> (wo_resumed out \<or> wo_alerts out \<noteq> [] \<or> hs_held hold \<and> wo_verdict out = V_HELD) \<and>
      (cr_clock res = Full_Speed \<longleftrightarrow> wo_resumed out)"
    "cr_runs res \<noteq> [] \<Longrightarrow> cr_escalated res \<Longrightarrow> ws_owned (cy_watch cy') = Some OWNED_ESCALATION" by blast+
qed

subsection \<open>The paused part of a cycle\<close>

lemma watch_in_cycle_unfold:
  assumes "watch_in_cycle d status hold cy = (out, cy')"
  shows "run_pause_watch (cd_pr d) (cd_world d) (cd_pause d) status (cd_clock d (cy_trace cy)) (cd_dry d) (hs_held hold)
     (cy_trace cy) (cy_watch cy) = (cy_watch cy', out, cy_trace cy')"
  using assms by (auto simp: watch_in_cycle_def split: prod.splits)

lemma run_wakes_no_resume:
  assumes "run_pause_watch pr w pol status now dry held tr st = (st', out, tr')" and "wo_verdict out = V_WAKE_OVERSEER"
  shows "resumes tr' = resumes tr"
proof (rule ccontr)
  assume n: "resumes tr' \<noteq> resumes tr"
  from run_pause_watch_resume [OF assms(1) n] have ls: "lasting status" and nd: "\<not> dry" by (simp_all add: lasting_def)
  define p where "p = start_pass pol status now held tr st"
  have q: "out = wp_out (paused_pass pr w pol status now dry held p)" "tr' = wp_trace (paused_pass pr w pol status now dry held p)"
    using assms(1) unfolding run_lasting [OF ls] by (simp_all add: Let_def p_def)
  have rp: "resumes (wp_trace (paused_pass pr w pol status now dry held p)) \<noteq> resumes (wp_trace p)"
    using n unfolding q by (simp add: p_def)
  from paused_pass_verdict [OF rp] show False using assms(2) q by auto
qed

text \<open>The paused cycle adds at most the Overseer's resume.\<close>

lemma paused_cycle_resume:
  assumes p: "paused_cycle d nc status hold out cy = (res, cy')" and r: "resumes (cy_trace cy') \<noteq> resumes (cy_trace cy)"
  shows "\<not> cd_dry d \<and> wo_verdict out = V_WAKE_OVERSEER \<and> resumed_on_word d {} hold [] (cy_trace cy) (cy_trace cy')"
proof -
  have w: "wo_verdict out = V_WAKE_OVERSEER \<and> \<not> cd_dry d"
    using p r by (auto simp: paused_cycle_def split: bool.splits)
  then obtain c cs where wd: "wo_wake_detail out = Some (c # cs)"
    using p r by (auto simp: paused_cycle_def split: option.splits list.splits)
  obtain rn esc fin cy1 where j: "judged_pause d nc status hold (c # cs) cy = (rn, esc, fin, cy1)" by (rule prod_cases4)
  with p w wd have "cy' = cy1" by (auto simp: paused_cycle_def Let_def)
  with judged_pause_resume [OF j] r w show ?thesis by simp
qed

text \<open>All the ways out of a pause. The conductor calls \<open>clock.resume\<close> at most once before the ordinary part of a cycle,
  never on a dry run or under an operator hold, and only after a harmless cause it has just read, or on the word of an
  Overseer that ran in this cycle, cleanly and without escalating; under a latch only on that word, the latch cleared
  first.\<close>

lemma arm_trace:
  assumes "cy1 = (if \<not> cd_dry d \<and> \<not> truthy (getj status ''armed'') then call_write d ''clock.arm'' [] cy else cy)"
  shows "resumes (cy_trace cy1) = resumes (cy_trace cy)" "\<exists>es. cy_trace cy1 = cy_trace cy @ es"
  using assms by (auto simp: Let_def)

lemma said_resume_prefix:
  assumes "overseer_said_resume d S (tr @ es) mid"
  shows "overseer_said_resume d S tr mid"
  using assms unfolding overseer_said_resume_def
  by (elim exE conjE) (intro exI [of _ "es @ _"] exI conjI; simp)

lemma resumed_prefix:
  assumes "resumed_on_word d S hold clr (tr @ es) tr'" and "resumes es = 0"
  shows "resumed_on_word d S hold clr tr tr'"
  using assms said_resume_prefix unfolding resumed_on_word_def by fastforce

lemma paused_part_resume:
  assumes p: "paused_part d tick nc status hold cy = (res, cy')"
    and sp: "sp_read_tool (ep_stock (cd_exec d)) \<noteq> ''clock.resume''"
    and r: "resumes (cy_trace cy') \<noteq> resumes (cy_trace cy)"
  shows "\<not> cd_dry d \<and> \<not> hs_held hold \<and> resumes (cy_trace cy') = Suc (resumes (cy_trace cy)) \<and>
    (if getj status ''tripwire'' \<noteq> JNull
     then resumed_on_word d (latched_tools d) hold [clear_call] (cy_trace cy) (cy_trace cy')
     else resumed_on_word d {} hold [] (cy_trace cy) (cy_trace cy') \<or>
       ws_owned (cy_watch cy) \<noteq> Some OWNED_ESCALATION \<and> ws_resume_attempts (cy_watch cy) < 1 \<and>
       (\<exists>mid y post. cy_trace cy' = cy_trace cy @ mid @ [why_read (cd_pause d), resume_call] @ post \<and>
          cd_world d (cy_trace cy @ mid) WHY_TOOL_ID [(''window_ticks'', JInt (pp_window (cd_pause d)))] = Some (JObj y) \<and>
          safe_to_resume (cd_pr d) (cd_pause d) status y))"
proof -
  define cy1 where "cy1 = (if \<not> cd_dry d \<and> \<not> truthy (getj status ''armed'') then call_write d ''clock.arm'' [] cy else cy)"
  have n1: "resumes (cy_trace cy1) = resumes (cy_trace cy)" by (rule arm_trace(1) [OF cy1_def])
  obtain es where es: "cy_trace cy1 = cy_trace cy @ es" using arm_trace(2) [OF cy1_def] by blast
  have es0: "resumes es = 0" using n1 es by simp
  have k1: "cy_watch cy1 = cy_watch cy" by (simp add: cy1_def)
  note p = p [unfolded paused_part_def Let_def, folded cy1_def]
  show ?thesis
  proof (cases "getj status ''tripwire'' \<noteq> JNull")
    case True
    obtain rs c where t: "tripwire_cycle d tick nc status (fields_of (getj status ''tripwire'')) hold cy1 = (rs, c)" by fastforce
    with p True have c: "cy' = c" by auto
    from tripwire_cycle_resume [OF t sp] r n1 have
      "\<not> cd_dry d \<and> resumed_on_word d (latched_tools d) hold [clear_call] (cy_trace cy1) (cy_trace cy')" by (simp add: c)
    with resumed_prefix [of d "latched_tools d" hold "[clear_call]" "cy_trace cy" es "cy_trace cy'"] es es0 True
    show ?thesis by (auto simp: resumed_on_word_def)
  next
    case False
    obtain out cy2 where w: "watch_in_cycle d status hold cy1 = (out, cy2)" by fastforce
    note p = p [unfolded if_not_P [OF False] w prod.case]
    note run = watch_in_cycle_unfold [OF w]
    show ?thesis
    proof (cases "resumes (cy_trace cy2) = resumes (cy_trace cy1)")
      case same: True
      have "resumes (cy_trace cy') \<noteq> resumes (cy_trace cy2)" using r n1 same by simp
      then obtain rs where pc: "paused_cycle d nc status hold out cy2 = (rs, cy')"
        using p by (auto split: if_splits prod.splits)
      from paused_cycle_resume [OF pc] \<open>resumes (cy_trace cy') \<noteq> resumes (cy_trace cy2)\<close>
      have nd: "\<not> cd_dry d" and rw: "resumed_on_word d {} hold [] (cy_trace cy2) (cy_trace cy')" by auto
      from run_trace_extends [OF run] obtain fs where fs: "cy_trace cy2 = cy_trace cy1 @ fs" by blast
      then have "resumes (es @ fs) = 0" using same es0 by simp
      from resumed_prefix [OF _ this, of d "{}" hold "[]" "cy_trace cy" "cy_trace cy'"] rw fs es
      have "resumed_on_word d {} hold [] (cy_trace cy) (cy_trace cy')" by simp
      with nd False show ?thesis by (auto simp: resumed_on_word_def)
    next
      case diff: False
      from run_pause_watch_resume [OF run diff]
      have f: "\<not> cd_dry d" "\<not> hs_held hold" "ws_owned (cy_watch cy1) \<noteq> Some OWNED_ESCALATION" "ws_resume_attempts (cy_watch cy1) < 1"
        "resumes (cy_trace cy2) = Suc (resumes (cy_trace cy1))" by simp_all
      from run_pause_watch_resume [OF run diff] obtain mid y post where
        m: "cy_trace cy2 = cy_trace cy1 @ mid @ [why_read (cd_pause d), resume_call] @ post"
        "cd_world d (cy_trace cy1 @ mid) WHY_TOOL_ID [(''window_ticks'', JInt (pp_window (cd_pause d)))] = Some (JObj y)"
        "safe_to_resume (cd_pr d) (cd_pause d) status y" by auto
      have nw: "wo_verdict out \<noteq> V_WAKE_OVERSEER" using run_wakes_no_resume [OF run] diff by blast
      have c': "cy_trace cy' = cy_trace cy2"
        using p nw by (auto simp: paused_cycle_def split: if_splits prod.splits bool.splits)
      have t': "cy_trace cy' = cy_trace cy @ (es @ mid) @ [why_read (cd_pause d), resume_call] @ post"
        using m(1) c' es by simp
      have a': "cd_world d (cy_trace cy @ (es @ mid)) WHY_TOOL_ID [(''window_ticks'', JInt (pp_window (cd_pause d)))] = Some (JObj y)"
        using m(2) es by simp
      have "\<exists>mid y post. cy_trace cy' = cy_trace cy @ mid @ [why_read (cd_pause d), resume_call] @ post \<and>
          cd_world d (cy_trace cy @ mid) WHY_TOOL_ID [(''window_ticks'', JInt (pp_window (cd_pause d)))] = Some (JObj y) \<and>
          safe_to_resume (cd_pr d) (cd_pause d) status y"
        using t' a' m(3) by blast
      moreover have "resumes (cy_trace cy') = Suc (resumes (cy_trace cy))" using f(5) n1 c' by simp
      ultimately show ?thesis using f False k1 by simp
    qed
  qed
qed

subsection \<open>The brake on a cause that keeps latching\<close>

lemma keep_last_keep_last: "keep_last n (keep_last n xs @ ys) = keep_last n (xs @ ys)"
  by (cases "length xs \<le> n") (simp_all add: keep_last_def add.commute)

lemma keep_last_append: "keep_last n (xs @ ys) = keep_last (n - length ys) xs @ keep_last n ys"
  by (cases "length ys \<le> n"; cases "length xs + length ys \<le> n") (simp_all add: keep_last_def)

lemma length_keep_last: "length (keep_last n xs) = min n (length xs)"
  by (simp add: keep_last_def)

lemma keep_last_all: "length xs \<le> n \<Longrightarrow> keep_last n xs = xs"
  by (simp add: keep_last_def)

text \<open>Latches of one cause, at ticks within the window of each other.\<close>

definition same_burst :: "int \<Rightarrow> episode list \<Rightarrow> bool" where
  "same_burst window ls \<longleftrightarrow> (\<forall>a \<in> set ls. \<forall>b \<in> set ls. ep_reason a = ep_reason b \<and> is_int (ep_tick a) \<and> is_int (ep_tick b) \<and>
     abs (int_of (ep_tick a) - int_of (ep_tick b)) \<le> window)"

lemma same_burst_subset: "same_burst window ls \<Longrightarrow> set ks \<subseteq> set ls \<Longrightarrow> same_burst window ks"
  unfolding same_burst_def by blast

lemma burst_count:
  assumes "same_burst window ls" and "l \<in> set ls"
  shows "repeat_count (keep_last KEEP_EPISODES (eps @ ls)) l window \<ge> min KEEP_EPISODES (length ls)"
proof -
  let ?P = "\<lambda>e. ep_reason e = ep_reason l \<and>
     (if is_int (ep_tick l) \<and> is_int (ep_tick e) then abs (int_of (ep_tick l) - int_of (ep_tick e)) \<le> window
      else \<not> is_int (ep_tick l) \<and> \<not> is_int (ep_tick e))"
  have "filter ?P (keep_last KEEP_EPISODES ls) = keep_last KEEP_EPISODES ls"
  proof (rule filter_True, rule ballI)
    fix x assume "x \<in> set (keep_last KEEP_EPISODES ls)"
    then have "x \<in> set ls" by (auto simp: keep_last_def dest: in_set_dropD)
    with assms have "ep_reason x = ep_reason l \<and> is_int (ep_tick l) \<and> is_int (ep_tick x) \<and>
        abs (int_of (ep_tick l) - int_of (ep_tick x)) \<le> window"
      unfolding same_burst_def by blast
    then show "?P x" by simp
  qed
  then have k: "length (filter ?P (keep_last KEEP_EPISODES ls)) = min KEEP_EPISODES (length ls)"
    by (simp only: length_keep_last)
  have "repeat_count (keep_last KEEP_EPISODES (eps @ ls)) l window =
      length (filter ?P (keep_last (KEEP_EPISODES - length ls) eps)) + length (filter ?P (keep_last KEEP_EPISODES ls))"
    unfolding repeat_count_def keep_last_append filter_append length_append by (rule refl)
  with k show ?thesis by linarith
qed

primrec repeat_checks :: "cycle_deps \<Rightarrow> obj list \<Rightarrow> cycle \<Rightarrow> string option list" where
  "repeat_checks d [] cy = []"
| "repeat_checks d (t # ts) cy = fst (repeat_check d t cy) # repeat_checks d ts (snd (repeat_check d t cy))"

lemma repeat_check_new:
  assumes "cy_trip cy = Some st" and "latch_of (cd_pr d) t \<notin> set (ts_episodes st)"
  shows "\<exists>st'. cy_trip (snd (repeat_check d t cy)) = Some st' \<and>
      ts_episodes st' = keep_last KEEP_EPISODES (ts_episodes st @ [latch_of (cd_pr d) t])"
    and "fst (repeat_check d t cy) = None \<Longrightarrow>
      int (repeat_count (keep_last KEEP_EPISODES (ts_episodes st @ [latch_of (cd_pr d) t])) (latch_of (cd_pr d) t) (cd_repeat_window d)) \<le> cd_repeat_limit d"
  using assms by (auto simp: repeat_check_def note_latch_def Let_def split: if_splits)

lemma checks_bounded:
  assumes "cy_trip cy = Some st" and "ts_episodes st = keep_last KEEP_EPISODES (eps @ past)"
    and "same_burst (cd_repeat_window d) (past @ map (latch_of (cd_pr d)) ts)"
    and "distinct (map (latch_of (cd_pr d)) ts)" and "set (map (latch_of (cd_pr d)) ts) \<inter> (set eps \<union> set past) = {}"
    and "cd_repeat_limit d < int KEEP_EPISODES"
  shows "int (length (filter (\<lambda>x. x = None) (repeat_checks d ts cy))) + int (length past) \<le> max (cd_repeat_limit d) (int (length past))"
  using assms
proof (induction ts arbitrary: cy st past)
  case Nil
  then show ?case by simp
next
  case (Cons t ts)
  let ?l = "latch_of (cd_pr d) t"
  have notin: "?l \<notin> set (ts_episodes st)"
    using Cons.prems(2,5) by (auto simp: keep_last_def dest: in_set_dropD)
  note rc = repeat_check_new [OF Cons.prems(1) notin]
  from rc(1) obtain st' where st': "cy_trip (snd (repeat_check d t cy)) = Some st'"
    "ts_episodes st' = keep_last KEEP_EPISODES (eps @ past @ [?l])"
    by (auto simp: Cons.prems(2) keep_last_keep_last)
  have b: "same_burst (cd_repeat_window d) ((past @ [?l]) @ map (latch_of (cd_pr d)) ts)" using Cons.prems(3) by simp
  have ih: "int (length (filter (\<lambda>x. x = None) (repeat_checks d ts (snd (repeat_check d t cy))))) + int (length (past @ [?l]))
      \<le> max (cd_repeat_limit d) (int (length (past @ [?l])))"
    by (rule Cons.IH [OF st'(1) _ b]) (use Cons.prems st' in auto)
  show ?case
  proof (cases "fst (repeat_check d t cy) = None")
    case True
    have "same_burst (cd_repeat_window d) (past @ [?l])" by (rule same_burst_subset [OF Cons.prems(3)]) auto
    from burst_count [OF this, of ?l eps] have
      "min KEEP_EPISODES (Suc (length past)) \<le> repeat_count (keep_last KEEP_EPISODES (eps @ past @ [?l])) ?l (cd_repeat_window d)" by simp
    moreover have "int (repeat_count (keep_last KEEP_EPISODES (eps @ past @ [?l])) ?l (cd_repeat_window d)) \<le> cd_repeat_limit d"
      using rc(2) [OF True] by (simp add: Cons.prems(2) keep_last_keep_last)
    ultimately have "int (min KEEP_EPISODES (Suc (length past))) \<le> cd_repeat_limit d" by linarith
    with Cons.prems(6) have "int (Suc (length past)) \<le> cd_repeat_limit d" by linarith
    with ih True show ?thesis by simp
  next
    case False
    then have "filter (\<lambda>x. x = None) (repeat_checks d (t # ts) cy) = filter (\<lambda>x. x = None) (repeat_checks d ts (snd (repeat_check d t cy)))"
      by simp
    with ih show ?thesis by (simp only: length_append list.size)
  qed
qed

subsection \<open>Escalations by their wire names\<close>

text \<open>The gateway's summary names a tool by its server and its id.\<close>

definition wire_name :: "string \<Rightarrow> string \<Rightarrow> string" where
  "wire_name server tid = server @ ''__'' @ tool_name tid"

lemma tool_name_append [simp]: "tool_name (xs @ ys) = tool_name xs @ tool_name ys"
  by (simp add: tool_name_def)

lemma dotted_underscores: "CHR ''.'' \<in> set tid \<Longrightarrow> count_list (tool_name tid) (CHR ''_'') \<ge> 2"
proof -
  assume "CHR ''.'' \<in> set tid"
  then obtain a b where t: "tid = a @ CHR ''.'' # b" by (metis split_list)
  have "tool_name (CHR ''.'' # b) = ''__'' @ tool_name b" by (simp add: tool_name_def)
  then show ?thesis by (simp add: t)
qed

lemma wire_name_not_escalate:
  assumes "CHR ''.'' \<in> set tid"
  shows "wire_name server tid \<noteq> tool_name ESCALATE_TOOL_ID"
proof
  assume eq: "wire_name server tid = tool_name ESCALATE_TOOL_ID"
  have "count_list (wire_name server tid) (CHR ''_'') \<ge> 4"
    using dotted_underscores [OF assms] by (simp add: wire_name_def)
  moreover have "count_list (tool_name ESCALATE_TOOL_ID) (CHR ''_'') = 2"
    by (simp add: tool_name_def ESCALATE_TOOL_ID_def)
  ultimately show False by (simp add: eq)
qed

lemma wire_escalation_missed:
  assumes "\<forall>t \<in> set (rr_tools r). \<exists>server tid. CHR ''.'' \<in> set tid \<and> t = wire_name server tid"
  shows "\<not> overseer_called_escalate r"
  using assms wire_name_not_escalate unfolding overseer_called_escalate_def by metis

end
