(* ===== verification/Lane_Facts.thy ===== *)
theory Lane_Facts
  imports Lanes
begin

section \<open>Edges: what is woken, kept and forgotten\<close>

text \<open>
  The three watches that keep a record per fact (ore on a wall, an unsupplied kind, an office holder without a
  room) share a contract, the locale \<open>standing_watch\<close>: an edge touches only its own key, forgetting a key
  drops its record and every wake owed for it. Its lemmas say what one poll leaves; the interpretations at the
  end are the three watches of the model.
\<close>

subsection \<open>Wakes owed\<close>

definition owed :: "string \<Rightarrow> lane_state \<Rightarrow> bool" where
  "owed key st \<longleftrightarrow> (\<exists>role. key \<in> fst ` set (pending_of st role))"

lemma pending_add: "pending_of (add_pending key msg role st) r =
    (if r = role then AList.update key msg (pending_of st role) else pending_of st r)"
  by (simp add: pending_of_def add_pending_def update_conv')

lemma set_update_fst: "fst ` set (AList.update k v m) = insert k (fst ` set m)"
  by (simp add: dom_map_of_conv_image_fst [symmetric] update_conv')

lemma set_delete_fst: "fst ` set (AList.delete k m) = fst ` set m - {k}"
  using arg_cong [OF delete_keys [of k m], of set] by simp

lemma owed_add: "owed k (add_pending key msg role st) \<longleftrightarrow> k = key \<or> owed k st"
proof -
  have "k \<in> fst ` set (pending_of (add_pending key msg role st) r) \<longleftrightarrow> r = role \<and> k = key \<or> k \<in> fst ` set (pending_of st r)" for r
    by (simp add: pending_add set_update_fst)
  then show ?thesis by (auto simp only: owed_def)
qed

lemma owed_fold: "k \<noteq> key \<Longrightarrow> owed k (fold (add_pending key msg) roles st) = owed k st"
  by (induction roles arbitrary: st) (simp_all add: owed_add)

lemma owed_owe: "k \<noteq> key \<Longrightarrow> owed k (owe wants pol key msg st) = owed k st"
  by (simp add: owe_def owed_fold)

lemma pending_drop: "pending_of (drop_pending key st) role = AList.delete key (pending_of st role)"
  by (simp add: pending_of_def drop_pending_def map_of_map option.map_sel split: option.splits)

lemma owed_drop: "owed k (drop_pending key st) \<longleftrightarrow> k \<noteq> key \<and> owed k st"
  unfolding owed_def pending_drop set_delete_fst by blast

lemma owed_served: "pending_of (clear_served role st) role = []"
  by (simp add: pending_of_def clear_served_def delete_conv')

lemma owed_frame: "ls_pending st' = ls_pending st \<Longrightarrow> owed k st' = owed k st"
  by (simp add: owed_def pending_of_def)

lemma owe_frame [simp]: "ls_ore (owe w pol k m st) = ls_ore st" "ls_unsupplied (owe w pol k m st) = ls_unsupplied st"
  "ls_noble (owe w pol k m st) = ls_noble st"
proof -
  have "ls_ore (fold (add_pending k m) rs st) = ls_ore st \<and> ls_unsupplied (fold (add_pending k m) rs st) = ls_unsupplied st \<and>
    ls_noble (fold (add_pending k m) rs st) = ls_noble st" for rs
    by (induction rs arbitrary: st) (simp_all add: add_pending_def)
  then show "ls_ore (owe w pol k m st) = ls_ore st" "ls_unsupplied (owe w pol k m st) = ls_unsupplied st"
    "ls_noble (owe w pol k m st) = ls_noble st" by (simp_all add: owe_def)
qed

lemma drop_frame [simp]: "ls_ore (drop_pending k st) = ls_ore st" "ls_unsupplied (drop_pending k st) = ls_unsupplied st"
  "ls_noble (drop_pending k st) = ls_noble st"
  by (simp_all add: drop_pending_def)

subsection \<open>The contract\<close>

locale standing_watch =
  fixes tracked :: "lane_state \<Rightarrow> string set"
    and owed_key :: "string \<Rightarrow> string"
    and key :: "'i \<Rightarrow> string"
    and edge :: "'i \<Rightarrow> lane_state \<Rightarrow> lane_state"
    and forget :: "string \<Rightarrow> lane_state \<Rightarrow> lane_state"
  assumes edge_keeps: "tracked st \<subseteq> tracked (edge i st)"
    and edge_adds: "tracked (edge i st) \<subseteq> insert (key i) (tracked st)"
    and forget_tracked: "tracked (forget k st) = tracked st - {k}"
    and edge_owed: "k \<noteq> key i \<Longrightarrow> owed (owed_key k) (edge i st) = owed (owed_key k) st"
    and forget_owed: "owed (owed_key k) (forget k' st) \<longleftrightarrow> k \<noteq> k' \<and> owed (owed_key k) st"
begin

lemma edges_tracked: "tracked st \<subseteq> tracked (fold edge is st) \<and> tracked (fold edge is st) \<subseteq> key ` set is \<union> tracked st"
proof (induction "is" arbitrary: st)
  case (Cons i "is")
  from Cons.IH [of "edge i st"] edge_keeps [of st i] edge_adds [of i st] show ?case by auto
qed simp

lemma edges_owed: "k \<notin> key ` set is \<Longrightarrow> owed (owed_key k) (fold edge is st) = owed (owed_key k) st"
  by (induction "is" arbitrary: st) (simp_all add: edge_owed)

lemma forgets_tracked: "tracked (fold forget ks st) = tracked st - set ks"
  by (induction ks arbitrary: st) (auto simp: forget_tracked)

lemma forgets_owed: "owed (owed_key k) (fold forget ks st) \<longleftrightarrow> k \<notin> set ks \<and> owed (owed_key k) st"
  by (induction ks arbitrary: st) (auto simp: forget_owed)

text \<open>One poll: the items seen, then everything tracked that was not seen and is not \<open>kept\<close> forgotten.\<close>

lemma poll:
  assumes "st' = fold forget gone (fold edge is st)" and "set gone = {k \<in> tracked (fold edge is st). k \<notin> key ` set is \<and> \<not> kept k}"
  shows "tracked st' \<subseteq> key ` set is \<union> {k. kept k}"
    and "k \<in> tracked st \<Longrightarrow> k \<in> key ` set is \<or> kept k \<Longrightarrow> k \<in> tracked st'"
    and "k \<in> tracked st \<Longrightarrow> k \<notin> key ` set is \<Longrightarrow> \<not> kept k \<Longrightarrow> k \<notin> tracked st' \<and> \<not> owed (owed_key k) st'"
    and "k \<notin> key ` set is \<Longrightarrow> kept k \<Longrightarrow> owed (owed_key k) st' = owed (owed_key k) st"
  using edges_tracked [of st "is"] assms by (auto simp: forgets_tracked forgets_owed edges_owed)

end

subsection \<open>The three watches\<close>

lemma ore_edge_tracked: "fst ` set (ls_ore (ore_edge pol now x st)) = insert (ore_key x) (fst ` set (ls_ore st))"
proof (cases "map_of (ls_ore st) (ore_key x)")
  case None
  then show ?thesis by (simp add: ore_edge_def ore_record_def advance_def Let_def set_update_fst)
next
  case (Some t)
  then have "ore_key x \<in> fst ` set (ls_ore st)" by (metis domI dom_map_of_conv_image_fst)
  then show ?thesis by (auto simp: ore_edge_def set_update_fst split: prod.splits)
qed

interpretation ore_watch: standing_watch "\<lambda>st. fst ` set (ls_ore st)" "\<lambda>k. ''ore:'' @ k" ore_key "ore_edge pol now" forget_ore
proof
  fix st k and i :: ore_exposure
  show "fst ` set (ls_ore st) \<subseteq> fst ` set (ls_ore (ore_edge pol now i st))"
    "fst ` set (ls_ore (ore_edge pol now i st)) \<subseteq> insert (ore_key i) (fst ` set (ls_ore st))"
    by (auto simp: ore_edge_tracked)
  show "fst ` set (ls_ore (forget_ore k st)) = fst ` set (ls_ore st) - {k}" by (simp add: forget_ore_def set_delete_fst)
next
  fix k st and i :: ore_exposure assume "k \<noteq> ore_key i"
  then show "owed (''ore:'' @ k) (ore_edge pol now i st) = owed (''ore:'' @ k) st"
    by (auto simp: ore_edge_def owed_owe split: prod.splits intro!: owed_frame)
next
  fix k k' st
  have "owed (''ore:'' @ k) (st\<lparr>ls_ore := a, ls_ore_wakes := b\<rparr>) = owed (''ore:'' @ k) st" for a b by (rule owed_frame) simp
  then show "owed (''ore:'' @ k) (forget_ore k' st) \<longleftrightarrow> k \<noteq> k' \<and> owed (''ore:'' @ k) st" by (simp add: forget_ore_def owed_drop)
qed

interpretation unsupplied_watch: standing_watch "\<lambda>st. fst ` set (ls_unsupplied st)" "\<lambda>k. ''unsupplied:'' @ k" ui_item
  "unsupplied_edge pol now" forget_unsupplied
proof
  fix st k and i :: unsupplied_item
  show "fst ` set (ls_unsupplied st) \<subseteq> fst ` set (ls_unsupplied (unsupplied_edge pol now i st))"
    "fst ` set (ls_unsupplied (unsupplied_edge pol now i st)) \<subseteq> insert (ui_item i) (fst ` set (ls_unsupplied st))"
    by (auto simp: unsupplied_edge_def Let_def set_update_fst split: prod.splits)
  show "fst ` set (ls_unsupplied (forget_unsupplied k st)) = fst ` set (ls_unsupplied st) - {k}"
    by (simp add: forget_unsupplied_def set_delete_fst)
next
  fix k st and i :: unsupplied_item assume "k \<noteq> ui_item i"
  then show "owed (''unsupplied:'' @ k) (unsupplied_edge pol now i st) = owed (''unsupplied:'' @ k) st"
    by (auto simp: unsupplied_edge_def Let_def owed_owe split: prod.splits intro!: owed_frame)
next
  fix k k' st
  have "owed (''unsupplied:'' @ k) (st\<lparr>ls_unsupplied := a\<rparr>) = owed (''unsupplied:'' @ k) st" for a by (rule owed_frame) simp
  then show "owed (''unsupplied:'' @ k) (forget_unsupplied k' st) \<longleftrightarrow> k \<noteq> k' \<and> owed (''unsupplied:'' @ k) st"
    by (simp add: forget_unsupplied_def owed_drop)
qed

interpretation noble_watch: standing_watch "\<lambda>st. fst ` set (ls_noble st)" "\<lambda>k. ''noble_room:'' @ k" noble_key
  "noble_edge pol covered now" forget_noble
proof
  fix st k and i :: noble_item
  show "fst ` set (ls_noble st) \<subseteq> fst ` set (ls_noble (noble_edge pol covered now i st))"
    "fst ` set (ls_noble (noble_edge pol covered now i st)) \<subseteq> insert (noble_key i) (fst ` set (ls_noble st))"
    by (auto simp: noble_edge_def Let_def set_update_fst split: prod.splits option.splits)
  show "fst ` set (ls_noble (forget_noble k st)) = fst ` set (ls_noble st) - {k}" by (simp add: forget_noble_def set_delete_fst)
next
  fix k st and i :: noble_item assume "k \<noteq> noble_key i"
  then show "owed (''noble_room:'' @ k) (noble_edge pol covered now i st) = owed (''noble_room:'' @ k) st"
    by (auto simp: noble_edge_def Let_def owed_owe owed_drop split: prod.splits option.splits intro!: owed_frame)
next
  fix k k' st
  have "owed (''noble_room:'' @ k) (st\<lparr>ls_noble := a\<rparr>) = owed (''noble_room:'' @ k) st" for a by (rule owed_frame) simp
  then show "owed (''noble_room:'' @ k) (forget_noble k' st) \<longleftrightarrow> k \<noteq> k' \<and> owed (''noble_room:'' @ k) st"
    by (simp add: forget_noble_def owed_drop)
qed


lemma ore_poll:
  fixes r :: ore_read
  defines "seen \<equiv> ore_key ` set (or_exposures r)" and "kept \<equiv> {k. key_prefix k \<in> set (or_unreadable r)}"
  assumes "st' = apply_ore_edges pol (Some r) tick st"
  shows "k \<in> fst ` set (ls_ore st) \<Longrightarrow> k \<notin> seen \<Longrightarrow> k \<notin> kept \<Longrightarrow> k \<notin> fst ` set (ls_ore st') \<and> \<not> owed (''ore:'' @ k) st'"
    and "k \<in> fst ` set (ls_ore st) \<Longrightarrow> k \<in> seen \<or> k \<in> kept \<Longrightarrow> k \<in> fst ` set (ls_ore st')"
    and "fst ` set (ls_ore st') \<subseteq> seen \<union> kept"
    and "k \<notin> seen \<Longrightarrow> k \<in> kept \<Longrightarrow> owed (''ore:'' @ k) st' = owed (''ore:'' @ k) st"
proof -
  let ?st1 = "fold (ore_edge pol (now_of tick)) (or_exposures r) st"
  let ?gone = "filter (\<lambda>k. k \<notin> set (map ore_key (or_exposures r)) \<and> key_prefix k \<notin> set (or_unreadable r)) (map fst (ls_ore ?st1))"
  have s: "st' = fold forget_ore ?gone ?st1" using assms(3) by (simp add: apply_ore_edges_def Let_def)
  have g: "set ?gone = {k \<in> fst ` set (ls_ore ?st1). k \<notin> ore_key ` set (or_exposures r) \<and> \<not> k \<in> kept}"
    unfolding kept_def by auto
  note p = ore_watch.poll [OF s g]
  show "k \<in> fst ` set (ls_ore st) \<Longrightarrow> k \<notin> seen \<Longrightarrow> k \<notin> kept \<Longrightarrow> k \<notin> fst ` set (ls_ore st') \<and> \<not> owed (''ore:'' @ k) st'"
    using p(3) [of k] unfolding seen_def by blast
  show "k \<in> fst ` set (ls_ore st) \<Longrightarrow> k \<in> seen \<or> k \<in> kept \<Longrightarrow> k \<in> fst ` set (ls_ore st')"
    using p(2) [of k] unfolding seen_def by blast
  show "fst ` set (ls_ore st') \<subseteq> seen \<union> kept" using p(1) unfolding seen_def by blast
  show "k \<notin> seen \<Longrightarrow> k \<in> kept \<Longrightarrow> owed (''ore:'' @ k) st' = owed (''ore:'' @ k) st"
    using p(4) [of k] unfolding seen_def by blast
qed

lemma unsupplied_poll:
  fixes r :: unsupplied_read
  assumes "st' = apply_unsupplied_edges pol (Some r) tick st" and "k \<in> fst ` set (ls_unsupplied st)"
  shows "k \<notin> ui_item ` set (ur_items r) \<Longrightarrow> k \<notin> set (ur_unreadable r) \<Longrightarrow>
      k \<notin> fst ` set (ls_unsupplied st') \<and> \<not> owed (''unsupplied:'' @ k) st'"
    and "k \<in> ui_item ` set (ur_items r) \<or> k \<in> set (ur_unreadable r) \<Longrightarrow> k \<in> fst ` set (ls_unsupplied st')"
proof -
  let ?st1 = "fold (unsupplied_edge pol (now_of tick)) (ur_items r) st"
  let ?gone = "filter (\<lambda>k. k \<notin> set (map ui_item (ur_items r)) \<and> k \<notin> set (ur_unreadable r)) (map fst (ls_unsupplied ?st1))"
  have s: "st' = fold forget_unsupplied ?gone ?st1" using assms(1) by (simp add: apply_unsupplied_edges_def Let_def)
  have g: "set ?gone = {k \<in> fst ` set (ls_unsupplied ?st1). k \<notin> ui_item ` set (ur_items r) \<and> \<not> k \<in> set (ur_unreadable r)}" by auto
  note p = unsupplied_watch.poll [OF s g]
  show "k \<notin> ui_item ` set (ur_items r) \<Longrightarrow> k \<notin> set (ur_unreadable r) \<Longrightarrow>
      k \<notin> fst ` set (ls_unsupplied st') \<and> \<not> owed (''unsupplied:'' @ k) st'" using p(3) [OF assms(2)] by blast
  show "k \<in> ui_item ` set (ur_items r) \<or> k \<in> set (ur_unreadable r) \<Longrightarrow> k \<in> fst ` set (ls_unsupplied st')"
    using p(2) [OF assms(2)] by blast
qed

lemma noble_poll:
  fixes r :: noble_read
  assumes "st' = apply_noble_room_edges pol (Some r) tick st" and "k \<in> fst ` set (ls_noble st)"
  shows "k \<notin> noble_key ` set (nr_items r) \<Longrightarrow> k \<notin> set (nr_unreadable r) \<Longrightarrow> key_prefix k \<notin> set (nr_bad_codes r) \<Longrightarrow>
      k \<notin> fst ` set (ls_noble st') \<and> \<not> owed (''noble_room:'' @ k) st'"
    and "k \<in> noble_key ` set (nr_items r) \<or> k \<in> set (nr_unreadable r) \<or> key_prefix k \<in> set (nr_bad_codes r) \<Longrightarrow>
      k \<in> fst ` set (ls_noble st')"
proof -
  let ?st1 = "fold (noble_edge pol (nr_covered r) (now_of tick)) (nr_items r) st"
  let ?gone = "filter (\<lambda>k. k \<notin> set (map noble_key (nr_items r)) \<and> k \<notin> set (nr_unreadable r) \<and> key_prefix k \<notin> set (nr_bad_codes r))
    (map fst (ls_noble ?st1))"
  have s: "st' = fold forget_noble ?gone ?st1" using assms(1) by (simp add: apply_noble_room_edges_def Let_def)
  have g: "set ?gone = {k \<in> fst ` set (ls_noble ?st1). k \<notin> noble_key ` set (nr_items r) \<and>
      \<not> (k \<in> set (nr_unreadable r) \<or> key_prefix k \<in> set (nr_bad_codes r))}" by auto
  note p = noble_watch.poll [OF s g]
  show "k \<notin> noble_key ` set (nr_items r) \<Longrightarrow> k \<notin> set (nr_unreadable r) \<Longrightarrow> key_prefix k \<notin> set (nr_bad_codes r) \<Longrightarrow>
      k \<notin> fst ` set (ls_noble st') \<and> \<not> owed (''noble_room:'' @ k) st'" using p(3) [OF assms(2)] by blast
  show "k \<in> noble_key ` set (nr_items r) \<or> k \<in> set (nr_unreadable r) \<or> key_prefix k \<in> set (nr_bad_codes r) \<Longrightarrow>
      k \<in> fst ` set (ls_noble st')" using p(2) [OF assms(2)] by blast
qed

subsection \<open>The Overseer is not woken again for what it left pending\<close>

lemma map_of_fold_update: "map_of (fold (\<lambda>p. AList.update p v) ps m) k = (if k \<in> set ps then Some v else map_of m k)"
  by (induction ps arbitrary: m) (auto simp: update_conv')

lemma map_of_filter_key: "map_of (filter (\<lambda>(p, _). P p) m) k = (if P k then map_of m k else None)"
  by (induction m) auto

lemma seen_after: "map_of (ls_seen (record_overseer_seen pending asks st)) p =
    (if p \<in> set (take OVERSEER_BRIEF_CAP pending) then Some \<lparr>sm_asks = asks, sm_at = ls_cycles st\<rparr>
     else if p \<in> set pending then map_of (ls_seen st) p else None)"
  by (auto simp: record_overseer_seen_def Let_def map_of_filter_key map_of_fold_update dest: in_set_takeD)

lemma split_after_seen:
  assumes "set asks \<subseteq> set asks'" and "n < lp_defer_cycles pol"
    and "st' = (record_overseer_seen pending asks st)\<lparr>ls_cycles := ls_cycles st + n\<rparr>" and "p \<in> set (take OVERSEER_BRIEF_CAP pending)"
  shows "p \<notin> set (fst (split_pending_for_overseer pol st' pending' asks'))"
proof -
  have "map_of (ls_seen st') p = Some \<lparr>sm_asks = asks, sm_at = ls_cycles st\<rparr>" using assms(3,4) by (simp add: seen_after)
  moreover have "filter (\<lambda>a. a \<notin> set asks') asks = []" using assms(1) by (auto simp: filter_empty_conv)
  ultimately have "\<not> is_fresh pol st' asks' p" using assms(2,3) by (simp add: is_fresh_def defer_changed_def Let_def)
  then show ?thesis by (simp add: split_pending_for_overseer_def)
qed

lemma woken_when_answered:
  assumes "a \<in> set asks" and "a \<notin> set asks'" and "map_of (ls_seen st) p = Some \<lparr>sm_asks = asks, sm_at = t\<rparr>" and "p \<in> set pending"
  shows "p \<in> set (fst (split_pending_for_overseer pol st pending asks'))"
proof -
  have "filter (\<lambda>a. a \<notin> set asks') asks \<noteq> []" using assms(1,2) by (auto simp: filter_empty_conv)
  then have "is_fresh pol st asks' p" using assms(3) by (simp add: is_fresh_def defer_changed_def Let_def)
  with assms(4) show ?thesis by (simp add: split_pending_for_overseer_def)
qed

end
