(* ===== verification/Conductor_Runs.thy ===== *)
theory Conductor_Runs
  imports Execute_Facts Lane_Facts
begin

section \<open>The conductor under the shipped policy\<close>

text \<open>
  Part of the wake table of \<open>conductor/policy.yaml\<close> and a cycle's signals, an order and a job poll; then the \<open>execution\<close>, \<open>stock_check\<close> and \<open>stale_orders\<close> sections of \<open>conductor/policy.yaml\<close> as constants (the
  survival pattern is left out), and passes over small queue states for the witnesses. \<open>busy_state\<close> has six
  ready steps of two projects; under \<open>answering\<close> every run succeeds, under \<open>refusing\<close> every run raises.
\<close>

subsection \<open>A cycle's wakes\<close>

definition shipped_clock :: clock_policy where
  "shipped_clock = \<lparr>cp_base_fps = 100, cp_closing_in = 3, cp_thinking_seconds = 90, cp_review_days = 84, cp_reasons =
     [(''season_change'', \<lparr>wr_clock = Full_Speed, wr_wakes = [''quartermaster''], wr_computable = False\<rparr>),
      (''stuck_job'', \<lparr>wr_clock = Full_Speed, wr_wakes = [''quartermaster''], wr_computable = True\<rparr>)]\<rparr>"

definition season_cycle :: signals where
  "season_cycle = quiet\<lparr>sg_season_change := True, sg_stuck_job := True, sg_stuck_job_ticks := Some 300, sg_stuck_job_roles := Some [''architect''],
     sg_queue_holds := True, sg_open_ask_roles := [''marshal'', PLANNER]\<rparr>"

definition season_result :: triage_result where
  "season_result = the (triage (\<lambda>_. []) season_cycle shipped_clock None)"

lemma season_triage: "triage (\<lambda>_. []) season_cycle shipped_clock None = Some season_result"
proof -
  have "triage (\<lambda>_. []) season_cycle shipped_clock None \<noteq> None" by code_simp
  then show ?thesis by (simp add: season_result_def)
qed

lemma season_roles: "tr_roles season_result = [PLANNER, ''architect'', ''quartermaster'', ''marshal'', OVERSEER]"
  by code_simp

definition half_day :: backoff_rule where
  "half_day = \<lparr>bo_base = 600, bo_cap = 100800, bo_max = 3\<rparr>"

definition stalled_order :: obj where
  "stalled_order = [(''id'', JInt 7), (''amount_total'', JInt 10), (''amount_left'', JInt 4), (''finished_year'', JInt (-1)),
     (''validated'', JBool True), (''active'', JBool False)]"

definition stalled_cursors :: cursors where
  "stalled_cursors = [(first_key 7, 5000)]"

definition bed_job :: json where
  "bed_job = JObj [(''job_type'', JStr ''ConstructBed''), (''detail'', JStr ''Construct Bed''), (''waiting_on'', JStr ''suspended''),
     (''near_landmark'', JStr ''Well''), (''distance_tiles'', JInt 4), (''direction'', JStr ''N'')]"

definition bed_policy :: job_policy where
  "bed_policy = \<lparr>jp_unclaimed = 1200, jp_suspended = 2400, jp_rule = half_day\<rparr>"

definition bed_poll :: "(string \<times> job_entry) list \<times> job_watch" where
  "bed_poll = evaluate_jobs (\<lambda>_. []) bed_policy (Some 9000) None [bed_job, bed_job] []"

lemma bed_polled: "evaluate_jobs (\<lambda>_. []) bed_policy (Some 9000) None [bed_job, bed_job] [] = (fst bed_poll, snd bed_poll)"
  by (simp add: bed_poll_def)

lemma bed_watched: "length (filter watched_job [bed_job, bed_job]) = 2"
  by code_simp

subsection \<open>Execute passes\<close>

definition finish_phase :: "string \<Rightarrow> bool" where
  "finish_phase s = (let ends = (\<lambda>t. starts_with (rev s) (rev t)) in ends ''_finish'' \<or> ends ''_zone'' \<or> ends ''_build'')"

definition shipped_stock :: stock_policy where
  "shipped_stock = \<lparr>sp_enabled = True, sp_margin = 1, sp_margin_fraction = 1 / 10, sp_read_tool = ''stocks.availability'',
     sp_read_arg = ''type'', sp_free_field = ''available_units'', sp_in_job_field = ''in_job_units'',
     sp_consumers = [(''orders.create'', \<lparr>sc_item = None, sc_item_arg = Some ''job'',
       sc_item_map = [(''ConstructBlocks'', ''BOULDER'')], sc_count_arg = Some ''amount'', sc_per_unit = 1 / 4\<rparr>)],
     sp_survival = None, sp_wake_after = 1200\<rparr>"

definition shipped_execution :: exec_policy where
  "shipped_execution = \<lparr>ep_max_steps = 4, ep_idle_wake = 8400, ep_idle_close = 8400, ep_uncertain_hold = 3, ep_transient = 3,
     ep_unknown = 3, ep_ore_hold = Some finish_phase, ep_urgency = [''high'', ''normal'', ''low''], ep_refusal = 3,
     ep_stock = shipped_stock, ep_stale = \<lparr>so_enabled = True, so_outcomes = [''abandoned'', ''superseded'', ''completed''],
       so_grace = 1200, so_max = 4\<rparr>\<rparr>"

definition fresh_state :: exec_state where
  "fresh_state = \<lparr>es_since = None, es_sent = [], es_uncertain = [], es_transient = [], es_unknown = [], es_attention = [],
     es_ore_held = [], es_refused = [], es_cleanup_failed = [], es_idle = [], es_roles = [], es_direct = [], es_holds = []\<rparr>"

definition ready_step :: "string \<Rightarrow> string \<Rightarrow> string \<Rightarrow> json" where
  "ready_step pid sid u = JObj [(''project_id'', JStr pid), (''step_id'', JStr sid), (''urgency'', JStr u),
     (''tool'', JStr ''blueprint.dig-room''), (''args'', JObj [(''template'', JStr ''bedroom'')])]"

definition busy_state :: json where
  "busy_state = JObj [(''open_projects'', JArr [JObj [(''project_id'', JStr ''project-0001''), (''role'', JStr ''architect''),
        (''steps_open'', JInt 3), (''phases_remaining'', JInt 0)]]),
     (''ready_steps'', JArr [ready_step ''project-0001'' ''s1'' ''normal'', ready_step ''project-0001'' ''s2'' ''low'',
        ready_step ''project-0002'' ''s3'' ''high'', ready_step ''project-0002'' ''s4'' ''normal'',
        ready_step ''project-0001'' ''s5'' ''normal'', ready_step ''project-0001'' ''s6'' ''normal''])]"

definition answering :: "phase_call list \<Rightarrow> phase_call \<Rightarrow> json option" where
  "answering h c = (if fst c = ''queue.execution_state'' then Some busy_state
     else if fst c = ''queue.run_step'' then Some (JObj [(''class'', JStr ''success'')]) else Some JNull)"

definition refusing :: "phase_call list \<Rightarrow> phase_call \<Rightarrow> json option" where
  "refusing h c = (if fst c = ''queue.execution_state'' then Some busy_state
     else if fst c = ''queue.run_step'' then None else Some JNull)"

definition pass_env :: "(phase_call list \<Rightarrow> phase_call \<Rightarrow> json option) \<Rightarrow> bool \<Rightarrow> exec_env" where
  "pass_env ans latched = \<lparr>ee_answer = ans, ee_pr = (\<lambda>_. []), ee_pol = shipped_execution, ee_tick = Some 50000, ee_ore = None,
     ee_quicksave = True, ee_fallback = [''architect''], ee_latched = latched\<rparr>"

abbreviation calls_of_pass :: "(phase_call list \<Rightarrow> phase_call \<Rightarrow> json option) \<Rightarrow> bool \<Rightarrow> phase_call list" where
  "calls_of_pass ans latched \<equiv> ph_calls (snd (run_execute (pass_env ans latched) fresh_state))"

definition run_of :: "string \<Rightarrow> string \<Rightarrow> phase_call" where
  "run_of pid sid = (''queue.run_step'', [(''project_id'', JStr pid), (''step_id'', JStr sid)])"

lemma pass_env_simps [simp]: "sp_read_tool (ep_stock (ee_pol (pass_env ans latched))) = ''stocks.availability''"
  "ee_quicksave (pass_env ans latched)" "ee_latched (pass_env ans latched) = latched" "ee_tick (pass_env ans latched) = Some 50000"
  by (simp_all add: pass_env_def shipped_execution_def shipped_stock_def)

lemma busy_pass: "calls_of_pass answering False =
    [(''queue.execution_state'', []),
     (''queue.cancel_stale_orders'', [(''outcomes'', JArr [JStr ''abandoned'', JStr ''superseded'', JStr ''completed'']),
        (''completed_grace_ticks'', JInt 1200), (''max'', JInt 4), (''tick'', JInt 50000)]),
     (''quicksave'', []), run_of ''project-0002'' ''s3'', run_of ''project-0001'' ''s1'', run_of ''project-0002'' ''s4'',
     run_of ''project-0001'' ''s5'']"
  by code_simp

lemma latched_pass: "calls_of_pass answering True =
    [(''queue.execution_state'', []), (''quicksave'', []), run_of ''project-0002'' ''s3'']"
  by code_simp

lemma refused_pass: "length (filter (\<lambda>c. fst c = ''queue.run_step'') (calls_of_pass refusing False)) = 6 \<and>
    ep_max_steps shipped_execution = 4"
  by code_simp

text \<open>A project idle since tick 30000, told at 40000 and still idle at 50000.\<close>

definition idle_phase :: phase where
  "idle_phase = (start_phase fresh_state)\<lparr>ph_st := fresh_state\<lparr>es_idle :=
       [(''project-0003'', \<lparr>ir_since = Some 30000, ir_woke = Some 40000\<rparr>)]\<rparr>,
     ph_projects := [(''project-0003'', [(''steps_open'', JInt 0), (''phases_remaining'', JInt 2)])]\<rparr>"

lemma idle_calls: "ph_calls (idle (pass_env answering False) idle_phase) =
    [(''queue.close'', [(''project_id'', JStr ''project-0003''), (''outcome'', JStr ''completed''),
       (''reason'', JStr ''idle: every step done and no follow-up for 14 game days'')])]"
  by code_simp

text \<open>A policy with a cap of one and no holds, in a queue where every run raises.\<close>

definition bare_env :: exec_env where
  "bare_env = (pass_env refusing False)\<lparr>ee_pol := shipped_execution\<lparr>ep_max_steps := 1, ep_ore_hold := None,
     ep_stock := shipped_stock\<lparr>sp_enabled := False\<rparr>\<rparr>\<rparr>"

lemma bare_env_simps: "ee_answer bare_env h (''queue.run_step'', a) = None" "ep_ore_hold (ee_pol bare_env) = None"
  "\<not> sp_enabled (ep_stock (ee_pol bare_env))" "\<not> ee_latched bare_env" "ep_max_steps (ee_pol bare_env) = 1"
  by (simp_all add: bare_env_def pass_env_def refusing_def)

subsection \<open>A lane\<close>

definition month :: backoff_rule where
  "month = \<lparr>bo_base = 12000, bo_cap = 100800, bo_max = 3\<rparr>"

definition ore_lanes :: lane_policy where
  "ore_lanes = \<lparr>lp_lanes = [(''architect'', \<lparr>lt_events = [], lt_stuck_jobs = [], lt_alerts = [''*''], lt_rulings = True, lt_ore = True,
       lt_unsupplied = False, lt_noble_rooms = True, lt_answers = True\<rparr>)],
     lp_alert_rule = month, lp_ore_rule = month, lp_unsupplied_rule = month, lp_noble_rule = month, lp_defer_cycles = 12\<rparr>"

definition no_lanes :: lane_state where
  "no_lanes = \<lparr>ls_alerts = [], ls_proposers = [], ls_pending = [], ls_ore = [], ls_ore_wakes = [], ls_alert_wakes = [],
     ls_unsupplied = [], ls_noble = [], ls_askers = [], ls_cycles = 0, ls_seen = []\<rparr>"

definition shown_read :: ore_read where
  "shown_read = \<lparr>or_exposures = [\<lparr>ox_handle = ''site-1'', ox_mineral = ''GALENA'', ox_kind = ''ore'', ox_tiles = 2, ox_line = ''GALENA ore''\<rparr>],
     or_unreadable = [], or_unclassified = []\<rparr>"

definition mined_read :: ore_read where
  "mined_read = \<lparr>or_exposures = [], or_unreadable = [], or_unclassified = []\<rparr>"

definition ore_state :: lane_state where
  "ore_state = apply_ore_edges ore_lanes (Some shown_read) (Some 8000) no_lanes"

definition mined_state :: lane_state where
  "mined_state = apply_ore_edges ore_lanes (Some mined_read) (Some 9000) ore_state"

lemma ore_owed: "ls_pending ore_state = [(''architect'', [(''ore:site-1:GALENA'', ''GALENA ore'')])] \<and>
    lane_wakes_of (\<lambda>_. []) ore_lanes ore_state [] = [\<lparr>lw_reason = ''ore_exposed'', lw_detail = ''GALENA ore'', lw_roles = [''architect'']\<rparr>]"
  by code_simp

end
