(* ===== verification/Pause_Runs.thy ===== *)
theory Pause_Runs
  imports Cycle_Facts Conductor_Runs
begin

section \<open>Paused cycles under the shipped policy\<close>

text \<open>
  \<open>conductor/pause_policy.yaml\<close> as a constant, a hold file, and a fort for the witnesses: it answers \<open>pause.why\<close>
  with a mood of the nobles two ticks old, moves on once it is resumed, and has a verdict on file once an Overseer
  has run.
\<close>

definition shipped_pause :: pause_policy where
  "shipped_pause = \<lparr>pp_harmless = [''FORT_POSITION_SUCCESSION'', ''FIRST_CARAVAN_ARRIVAL'', ''MONARCH_ARRIVAL'', ''HASTY_MONARCH'',
       ''SATISFIED_MONARCH'', ''MOUNTAINHOME'', ''NEW_HOLDING'', ''NEW_MARKET_LINK'', ''MADE_ARTIFACT'', ''NAMED_ARTIFACT'',
       ''STRUCK_DEEP_METAL'', ''FEATURE_DISCOVERY'', ''GAIN_SITE_CONTROL''],
     pp_window = 1200, pp_slack = 120, pp_dismiss_cap = 5, pp_grace = 600, pp_liveness = 1800, pp_verify_wait = 3,
     pp_verify_min = 1, pp_frozen_after = 60\<rparr>"

definition fort_pauses :: "string \<Rightarrow> world" where
  "fort_pauses report tr name args =
     (if name = WHY_TOOL_ID then Some (JObj [(''cause'', JStr ''plain''), (''popups_pending'', JInt 0),
         (''recent_reports'', JArr [JObj [(''type'', JStr report), (''tick'', JInt 49998)]])])
      else if name = ''clock.status'' then Some (JObj [(''paused'', JBool False), (''abs_tick'', JInt 50030)])
      else if name = VERDICT_READ_TOOL_ID then Some (JObj [(''latest_id'', JInt 4),
         (''verdicts'', JArr (if Ran OVERSEER \<in> set tr then [JObj [(''resume'', JBool True), (''reason'', JStr ''stores are full'')]] else []))])
      else Some (JObj [(''ok'', JBool True)]))"

definition clean_run :: role_run where
  "clean_run = \<lparr>rr_ok = True, rr_timed_out = False, rr_status = ''ok'', rr_tools = [''queue__write''], rr_duration = JInt 90, rr_cost = JNull,
     rr_error = JNull, rr_answer = JStr ''done'', rr_thinking = JNull, rr_transcript = []\<rparr>"

definition conductor_of :: "string \<Rightarrow> bool \<Rightarrow> cycle_deps" where
  "conductor_of report dry = \<lparr>cd_world = fort_pauses report, cd_runner = (\<lambda>_ _ _. clean_run), cd_clock = (\<lambda>_. 9000), cd_pr = (\<lambda>_. []),
     cd_pause = shipped_pause, cd_owners = [(''starvation'', [''quartermaster''])], cd_repeat_window = 4800, cd_repeat_limit = 3,
     cd_exec = shipped_execution, cd_lane = ore_lanes, cd_fallback = [''architect''], cd_index = 7, cd_dry = dry\<rparr>"

definition quiet_files :: cycle where
  "quiet_files = \<lparr>cy_trace = [], cy_watch = new_watch, cy_trip = Some \<lparr>ts_episodes = [], ts_escalated = None\<rparr>, cy_cursors = [],
     cy_exec = Some fresh_state, cy_lanes = Some no_lanes\<rparr>"

definition pause_status :: "json \<Rightarrow> obj" where
  "pause_status trip = [(''paused'', JBool True), (''armed'', JBool True), (''abs_tick'', JInt 50000), (''tripwire'', trip)]"

definition starving :: obj where
  "starving = [(''reason'', JStr ''starvation''), (''detail'', JStr ''no food''), (''tick'', JInt 49990)]"

definition paused_trace :: "string \<Rightarrow> json \<Rightarrow> world_event list" where
  "paused_trace report trip = cy_trace (snd (paused_part (conductor_of report False) (Some 50000) [] (pause_status trip) NO_HOLD quiet_files))"

lemma harmless_resumed: "resumes (paused_trace ''MADE_ARTIFACT'' JNull) = 1"
  by code_simp

lemma judged_resumed: "resumes (paused_trace ''FORT_DEFEATED'' JNull) = 1"
  by code_simp

lemma latched_resumed: "resumes (paused_trace ''FORT_DEFEATED'' (JObj starving)) = 1"
  by code_simp

lemma conductor_tools [simp]: "sp_read_tool (ep_stock (cd_exec (conductor_of report dry))) \<noteq> ''clock.resume''"
  "cd_dry (conductor_of report dry) = dry" "cd_repeat_limit (conductor_of report dry) = 3" "cd_repeat_window (conductor_of report dry) = 4800"
  by (simp_all add: conductor_of_def shipped_execution_def shipped_stock_def)

lemma pause_status_trip: "getj (pause_status (JObj o')) ''tripwire'' \<noteq> JNull"
  by (simp add: pause_status_def getj_def)

subsection \<open>A hold, and latches in a burst\<close>

definition patch_hold :: hold_file where
  "patch_hold = Doc (JObj [(''reason'', JStr ''patching the server''), (''since'', JFloat 500), (''who'', JStr ''operator''),
     (''expires_at'', JFloat 1100), (''allow_execution'', JBool False)])"

definition patch_text :: string where "patch_text = ''patching'' @ [CHR 0x0A] @ ''the   server''"

lemma patch_reason: "one_line patch_text = ''patching the server''"
  by code_simp

lemma patch_hold_set: "set_hold ''operator'' patch_text None 500 (Some 600) False = Inr patch_hold"
  by (simp add: set_hold_def patch_reason patch_hold_def)

definition starving_at :: "int \<Rightarrow> obj" where
  "starving_at t = [(''reason'', JStr ''starvation''), (''tick'', JInt t)]"

lemma starving_latches: "latch_of pr (starving_at t) = \<lparr>ep_reason = ''starvation'', ep_tick = JInt t\<rparr>"
  by (simp add: latch_of_def starving_at_def getj_def py_str_def)

lemma quiet_trip: "cy_trip quiet_files = Some \<lparr>ts_episodes = [], ts_escalated = None\<rparr>"
  by (simp add: quiet_files_def)

text \<open>A latch while the file of the repeat counter cannot be read.\<close>

definition unread_latch :: "cycle_result \<times> cycle" where
  "unread_latch = tripwire_cycle (conductor_of ''FORT_DEFEATED'' False) (Some 50000) [] (pause_status (JObj starving)) starving NO_HOLD
     (quiet_files\<lparr>cy_trip := None\<rparr>)"

lemma unread_clock: "cr_clock (fst unread_latch) = Paused"
  by code_simp

end
