(* ===== verification/Action_Data.thy ===== *)
theory Action_Data
  imports Grading
begin

section \<open>What a tool's output means\<close>

text \<open>
  \<open>dfmcp/action_data.py\<close>: the execution data a tool declares and how its outputs are read through it. \<open>pr\<close>
  prints a value where the code writes \<open>!r\<close> or \<open>str()\<close> of a container. An \<open>ActionDataError\<close> is \<open>None\<close>;
  a \<open>landed\<close> declaration's pattern is searched with the parameter \<open>re_search\<close>.
\<close>

subsection \<open>Paths and substitution\<close>

definition DRY_RUN_ARG :: string where "DRY_RUN_ARG = ''dry_run''"

definition TOP_KEYS :: "string list" where
  "TOP_KEYS = [''verdict'', ''dry_run_echo'', ''issues_handle'', ''resolution_fields'', ''nothing_applied'', ''append_to_arg'',
     ''override_args'', ''handle_args'', ''phases'', ''progress'', ''landed'', ''cleanup'', ''preview_fields'']"

definition VERDICT_KEYS :: "string list" where
  "VERDICT_KEYS = [''ok'', ''dry_ok'', ''real_ok'', ''refused_if_true'', ''refused_if_present'', ''reason'']"

definition LANDED_KINDS :: "string list" where
  "LANDED_KINDS = [''new_row'', ''field_set'', ''list_gains'']"

definition unwrap :: "json \<Rightarrow> obj" where
  "unwrap v = (case v of JObj r \<Rightarrow> r | _ \<Rightarrow> [(''result'', v)])"

fun split_on :: "char \<Rightarrow> string \<Rightarrow> string list" where
  "split_on c [] = [[]]"
| "split_on c (x # xs) = (if x = c then [] # split_on c xs else (case split_on c xs of
     [] \<Rightarrow> [[x]] | p # ps \<Rightarrow> (x # p) # ps))"

definition list_index :: "string \<Rightarrow> nat option" where
  "list_index p = (if p = [] \<or> \<not> list_all digit_char p then None else digits_value 0 False p)"

primrec follow :: "string list \<Rightarrow> json \<Rightarrow> json option" where
  "follow [] v = Some v"
| "follow (p # ps) v = (case v of
      JArr xs \<Rightarrow> (case list_index p of Some i \<Rightarrow> if i < length xs then follow ps (xs ! i) else None | None \<Rightarrow> None)
    | JObj r \<Rightarrow> Option.bind (map_of r p) (follow ps)
    | _ \<Rightarrow> None)"

definition get_path :: "json \<Rightarrow> string \<Rightarrow> json option" where
  "get_path v path = follow (split_on (CHR ''.'') path) v"

definition error_text :: "json \<Rightarrow> string option" where
  "error_text v = (case v of JObj r \<Rightarrow> (if map fst r = [''error''] \<and> is_str (getj r ''error'') then Some (str_of (getj r ''error'')) else None)
     | _ \<Rightarrow> None)"

text \<open>\<open>\$([A-Za-z_][A-Za-z0-9_]*)\<close>, replaced from the left.\<close>

definition name_start :: "char \<Rightarrow> bool" where
  "name_start c = (cp (CHR ''a'') \<le> cp c \<and> cp c \<le> cp (CHR ''z'') \<or> cp (CHR ''A'') \<le> cp c \<and> cp c \<le> cp (CHR ''Z'') \<or> c = CHR ''_'')"

definition name_char :: "char \<Rightarrow> bool" where
  "name_char c = (name_start c \<or> digit_char c)"

definition var_value :: "(json \<Rightarrow> string) \<Rightarrow> obj \<Rightarrow> string \<Rightarrow> string option" where
  "var_value pr ctx n = (case map_of ctx n of None \<Rightarrow> None | Some JNull \<Rightarrow> None | Some v \<Rightarrow> Some (py_str pr v))"

function sub_vars :: "(json \<Rightarrow> string) \<Rightarrow> obj \<Rightarrow> string \<Rightarrow> string option" where
  "sub_vars pr ctx s = (case s of
      [] \<Rightarrow> Some []
    | c # cs \<Rightarrow>
        if c = CHR 0x24 \<and> cs \<noteq> [] \<and> name_start (hd cs)
        then (case var_value pr ctx (takeWhile name_char cs) of
            None \<Rightarrow> None
          | Some v \<Rightarrow> map_option (\<lambda>t. v @ t) (sub_vars pr ctx (dropWhile name_char cs)))
        else map_option (\<lambda>t. c # t) (sub_vars pr ctx cs))"
  by pat_completeness auto
termination
  by (relation "measure (\<lambda>(pr, ctx, s). length s)") (auto simp: less_Suc_eq_le length_dropWhile_le)

declare sub_vars.simps [simp del]

fun substitute :: "(json \<Rightarrow> string) \<Rightarrow> obj \<Rightarrow> json \<Rightarrow> json option"
  and substitute_fields :: "(json \<Rightarrow> string) \<Rightarrow> obj \<Rightarrow> obj \<Rightarrow> obj option"
  and substitute_items :: "(json \<Rightarrow> string) \<Rightarrow> obj \<Rightarrow> json list \<Rightarrow> json list option" where
  "substitute pr ctx (JStr s) = map_option JStr (sub_vars pr ctx s)"
| "substitute pr ctx (JObj r) = map_option JObj (substitute_fields pr ctx r)"
| "substitute pr ctx (JArr xs) = map_option JArr (substitute_items pr ctx xs)"
| "substitute pr ctx v = Some v"
| "substitute_fields pr ctx [] = Some []"
| "substitute_fields pr ctx ((k, v) # r) = do { w \<leftarrow> substitute pr ctx v; s \<leftarrow> substitute_fields pr ctx r; Some ((k, w) # s) }"
| "substitute_items pr ctx [] = Some []"
| "substitute_items pr ctx (v # vs) = do { w \<leftarrow> substitute pr ctx v; ws \<leftarrow> substitute_items pr ctx vs; Some (w # ws) }"

subsection \<open>The declaration\<close>

record exec_spec =
  sx_tool :: string
  sx_verdict :: obj
  sx_echo :: string
  sx_handle :: json
  sx_resolution :: "string list"
  sx_nothing :: "obj option"
  sx_append :: "obj option"
  sx_override :: "string list"
  sx_handle_args :: "string list"
  sx_phases :: "obj option"
  sx_progress :: "obj option"
  sx_landed :: "obj list"
  sx_cleanup :: "obj option"
  sx_preview :: "string list"
  sx_dry_run :: bool
  sx_handle_optional :: bool

definition direct_spec :: "string \<Rightarrow> bool \<Rightarrow> json \<Rightarrow> exec_spec" where
  "direct_spec tid dry handle = \<lparr>sx_tool = tid, sx_verdict = [(''refused_if_present'', JArr [JStr ''error''])], sx_echo = [],
     sx_handle = handle, sx_resolution = [], sx_nothing = Some [(''refusal'', JBool True)], sx_append = None, sx_override = [],
     sx_handle_args = [], sx_phases = None, sx_progress = None, sx_landed = [], sx_cleanup = None, sx_preview = [],
     sx_dry_run = dry, sx_handle_optional = truthy handle\<rparr>"

definition str_list :: "json \<Rightarrow> string list option" where
  "str_list v = (case v of JNull \<Rightarrow> Some []
     | JArr xs \<Rightarrow> if list_all nonempty_str xs then Some (map str_of xs) else None | _ \<Rightarrow> None)"

definition opt_obj :: "json \<Rightarrow> obj option" where
  "opt_obj v = (case v of JObj r \<Rightarrow> if r \<noteq> [] then Some r else None | _ \<Rightarrow> None)"

definition has_all :: "obj \<Rightarrow> string list \<Rightarrow> bool" where
  "has_all r ks = list_all (has r) ks"

definition only_keys :: "obj \<Rightarrow> string list \<Rightarrow> bool" where
  "only_keys r ks = list_all (\<lambda>(k, _). k \<in> set ks) r"

definition verdict_ok :: "json \<Rightarrow> bool" where
  "verdict_ok v = (case v of
      JObj r \<Rightarrow> r \<noteq> [] \<and> only_keys r VERDICT_KEYS \<and>
        list_ex (\<lambda>k. truthy (getj r k)) [''ok'', ''dry_ok'', ''real_ok'', ''refused_if_true'', ''refused_if_present''] \<and>
        list_all (\<lambda>k. has r k \<longrightarrow> is_str (getj r k)) [''ok'', ''dry_ok'', ''real_ok'', ''reason''] \<and>
        list_all (\<lambda>k. str_list (getj r k) \<noteq> None) [''refused_if_true'', ''refused_if_present'']
    | _ \<Rightarrow> False)"

definition nothing_ok :: "json \<Rightarrow> bool" where
  "nothing_ok v = (case v of JNull \<Rightarrow> True
    | JObj r \<Rightarrow> map fst r = [''refusal''] \<or> map fst r = [''all_zero''] \<and> str_list (getj r ''all_zero'') \<noteq> None
    | _ \<Rightarrow> False)"

definition append_ok :: "json \<Rightarrow> bool" where
  "append_ok v = (case v of JNull \<Rightarrow> True | JObj r \<Rightarrow> set (map fst r) = {''arg'', ''text''} | _ \<Rightarrow> False)"

definition phases_ok :: "json \<Rightarrow> bool" where
  "phases_ok v = (case v of JNull \<Rightarrow> True
    | JObj r \<Rightarrow> has_all r [''arg'', ''site_arg'', ''carry'', ''source''] \<and> is_obj (getj r ''source'') \<and>
        has_all (fields_of (getj r ''source'')) [''tool'', ''args'', ''rows'', ''label_field'']
    | _ \<Rightarrow> False)"

definition progress_ok :: "json \<Rightarrow> bool" where
  "progress_ok v = (case v of JNull \<Rightarrow> True
    | JObj r \<Rightarrow> is_obj (getj r ''read'') \<and> is_str (getj r ''done_field'') \<and>
        only_keys r [''read'', ''done_field'', ''not_done_if'', ''stalled_if'', ''blocked_if'', ''cancelled_if'']
    | _ \<Rightarrow> False)"

definition landed_entry_ok :: "json \<Rightarrow> bool" where
  "landed_entry_ok v = (case v of
      JObj r \<Rightarrow> in_strs (getj r ''kind'') LANDED_KINDS \<and> is_obj (getj r ''read'') \<and>
        has_all (fields_of (getj r ''read'')) [''tool'', ''rows''] \<and>
        (getj r ''kind'' = JStr ''new_row'' \<longrightarrow> truthy (getj r ''handle_field'') \<and> is_obj (getj r ''match'')) \<and>
        (in_strs (getj r ''kind'') [''field_set'', ''list_gains''] \<longrightarrow> is_obj (getj r ''find'') \<and> truthy (getj r ''field'')) \<and>
        (getj r ''kind'' = JStr ''list_gains'' \<longrightarrow> truthy (getj r ''value'') \<and> truthy (getj r ''handle''))
    | _ \<Rightarrow> False)"

definition cleanup_ok :: "json \<Rightarrow> bool" where
  "cleanup_ok v = (case v of JNull \<Rightarrow> True
    | JObj r \<Rightarrow> truthy (getj r ''handle_prefix'') \<and> is_obj (getj r ''args'') | _ \<Rightarrow> False)"

definition parse_spec :: "string \<Rightarrow> json \<Rightarrow> bool \<Rightarrow> exec_spec option" where
  "parse_spec tid raw dry = (case raw of
      JObj r \<Rightarrow>
        if \<not> only_keys r TOP_KEYS \<or> \<not> dry \<or> \<not> verdict_ok (getj r ''verdict'') \<or> \<not> nonempty_str (getj r ''dry_run_echo'')
          \<or> \<not> nothing_ok (getj r ''nothing_applied'') \<or> \<not> append_ok (getj r ''append_to_arg'') \<or> \<not> phases_ok (getj r ''phases'')
          \<or> \<not> progress_ok (getj r ''progress'') \<or> \<not> is_arr (or_empty (getj r ''landed''))
          \<or> \<not> list_all landed_entry_ok (items_of (or_empty (getj r ''landed''))) \<or> \<not> cleanup_ok (getj r ''cleanup'')
        then None
        else do {
          resolution \<leftarrow> str_list (getj r ''resolution_fields'');
          override \<leftarrow> str_list (getj r ''override_args'');
          handles \<leftarrow> str_list (getj r ''handle_args'');
          preview \<leftarrow> str_list (getj r ''preview_fields'');
          Some \<lparr>sx_tool = tid, sx_verdict = fields_of (getj r ''verdict''), sx_echo = str_of (getj r ''dry_run_echo''),
            sx_handle = getj r ''issues_handle'', sx_resolution = resolution, sx_nothing = opt_obj (getj r ''nothing_applied''),
            sx_append = opt_obj (getj r ''append_to_arg''), sx_override = override, sx_handle_args = handles,
            sx_phases = opt_obj (getj r ''phases''), sx_progress = opt_obj (getj r ''progress''),
            sx_landed = map fields_of (items_of (or_empty (getj r ''landed''))), sx_cleanup = opt_obj (getj r ''cleanup''),
            sx_preview = preview, sx_dry_run = True, sx_handle_optional = False\<rparr>
        }
    | _ \<Rightarrow> None)"

text \<open>A tool of the registry: its id, the words of its signature and its declaration (\<open>JNull\<close> for none).\<close>

record reg_tool =
  rt_id :: string
  rt_args :: "string list"
  rt_execution :: json

text \<open>\<open>a.strip("[]")\<close>.\<close>

definition strip_brackets :: "string \<Rightarrow> string" where
  "strip_brackets s = rev (dropWhile (\<lambda>c. c \<in> {CHR ''['', CHR '']''}) (rev (dropWhile (\<lambda>c. c \<in> {CHR ''['', CHR '']''}) s)))"

definition takes_dry_run :: "reg_tool \<Rightarrow> bool" where
  "takes_dry_run t = list_ex (\<lambda>a. strip_brackets (lower a) = ''dry_run'' \<or> sub_text ''DRY_RUN'' a) (rt_args t)"

text \<open>\<open>spec_for\<close>: \<open>None\<close> when the tool declares nothing; the outer \<open>option\<close> is the error.\<close>

definition spec_for :: "reg_tool \<Rightarrow> exec_spec option option" where
  "spec_for t = (if rt_execution t = JNull then Some None
     else map_option Some (parse_spec (rt_id t) (rt_execution t) (takes_dry_run t)))"

subsection \<open>Verdicts\<close>

text \<open>The three kinds of verdict: \<open>ok\<close>, \<open>refused\<close> with the tool's reason, \<open>invalid\<close> with the fields that are missing.\<close>

datatype call_verdict = Passed | Declined string | Invalid string "string list"

definition verdict_kind :: "call_verdict \<Rightarrow> string" where
  "verdict_kind v = (case v of Passed \<Rightarrow> ''ok'' | Declined _ \<Rightarrow> ''refused'' | Invalid _ _ \<Rightarrow> ''invalid'')"

definition verdict_text :: "call_verdict \<Rightarrow> string" where
  "verdict_text v = (case v of Passed \<Rightarrow> [] | Declined r \<Rightarrow> r | Invalid r _ \<Rightarrow> r)"

definition or_text :: "string \<Rightarrow> string \<Rightarrow> string" where
  "or_text s t = (if s \<noteq> [] then s else t)"

definition echo_check :: "(json \<Rightarrow> string) \<Rightarrow> exec_spec \<Rightarrow> obj \<Rightarrow> bool \<Rightarrow> call_verdict option" where
  "echo_check pr spec r dry =
     (if sx_echo spec \<noteq> [] then
        (case get_path (JObj r) (sx_echo spec) of
           None \<Rightarrow> Some (Invalid (''the output has no '' @ sx_echo spec @ '' field'') [sx_echo spec])
         | Some e \<Rightarrow> if e = JBool dry then None
             else Some (Invalid (''the output says '' @ sx_echo spec @ ''='' @ pr e @ '' but this was a '' @
               (if dry then ''dry'' else ''real'') @ '' call'') []))
      else if getj r ''ok'' = JBool False \<and> is_str (getj r ''error'') then Some (Declined (str_of (getj r ''error''))) else None)"

definition verdict_reason :: "obj \<Rightarrow> json \<Rightarrow> string" where
  "verdict_reason v out = (case get_path out (str_of (getj v ''reason'')) of
      Some (JStr s) \<Rightarrow> if str_of (getj v ''reason'') \<noteq> [] then s else [] | _ \<Rightarrow> [])"

definition paths_at :: "obj \<Rightarrow> string \<Rightarrow> string list" where
  "paths_at v k = map str_of (items_of (getj v k))"

definition path_true :: "json \<Rightarrow> string \<Rightarrow> bool" where
  "path_true out p = (case get_path out p of Some v \<Rightarrow> truthy v | None \<Rightarrow> False)"

text \<open>\<open>val not in (None, False, "")\<close>; zero equals \<open>False\<close>.\<close>

definition path_present :: "json \<Rightarrow> string \<Rightarrow> bool" where
  "path_present out p = (case get_path out p of
      Some v \<Rightarrow> v \<notin> {JNull, JStr []} \<and> \<not> py_eq v (JBool False) | None \<Rightarrow> False)"

definition refusal :: "obj \<Rightarrow> json \<Rightarrow> string option" where
  "refusal v out =
     (case find (path_true out) (paths_at v ''refused_if_true'') of
        Some p \<Rightarrow> Some (or_text (verdict_reason v out) (p @ '' is set''))
      | None \<Rightarrow> (case find (path_present out) (paths_at v ''refused_if_present'') of
          Some p \<Rightarrow> Some (or_text (verdict_reason v out)
            (case get_path out p of Some (JStr s) \<Rightarrow> s | _ \<Rightarrow> p @ '' is set''))
        | None \<Rightarrow> None))"

definition ok_paths :: "obj \<Rightarrow> bool \<Rightarrow> string list" where
  "ok_paths v dry = filter (\<lambda>p. p \<noteq> []) (map (\<lambda>k. str_of (getj v k)) [''ok'', if dry then ''dry_ok'' else ''real_ok''])"

definition not_true :: "json \<Rightarrow> string \<Rightarrow> bool" where
  "not_true out p = (case get_path out p of Some v \<Rightarrow> v \<noteq> JBool True | None \<Rightarrow> False)"

definition judge_fields :: "(json \<Rightarrow> string) \<Rightarrow> obj \<Rightarrow> json \<Rightarrow> bool \<Rightarrow> call_verdict" where
  "judge_fields pr v out dry =
     (case find (not_true out) (ok_paths v dry) of
        Some p \<Rightarrow> Declined (or_text (verdict_reason v out) (p @ '' is '' @ pr (the (get_path out p))))
      | None \<Rightarrow> (let missing = filter (\<lambda>p. get_path out p = None) (ok_paths v dry) in
          if missing = [] then Passed
          else Invalid (''declared field(s) absent: '' @ pr (JArr (map JStr missing))) missing))"

definition judge :: "(json \<Rightarrow> string) \<Rightarrow> exec_spec \<Rightarrow> json \<Rightarrow> bool \<Rightarrow> call_verdict" where
  "judge pr spec out dry = (case error_text out of
      Some e \<Rightarrow> Declined e
    | None \<Rightarrow> (case out of
        JObj r \<Rightarrow> (case echo_check pr spec r dry of
            Some v \<Rightarrow> v
          | None \<Rightarrow> (case refusal (sx_verdict spec) out of
              Some reason \<Rightarrow> Declined reason
            | None \<Rightarrow> judge_fields pr (sx_verdict spec) out dry))
      | _ \<Rightarrow> Invalid ''the output is not an object'' []))"

fun all_zero :: "json \<Rightarrow> string list \<Rightarrow> bool option" where
  "all_zero out [] = Some True"
| "all_zero out (p # ps) = (case get_path out p of
      None \<Rightarrow> all_zero out ps
    | Some (JInt i) \<Rightarrow> if i \<noteq> 0 then Some False else all_zero out ps
    | Some (JFloat q) \<Rightarrow> if q \<noteq> 0 then Some False else all_zero out ps
    | Some _ \<Rightarrow> None)"

text \<open>Did a refused real call change nothing? \<open>None\<close> when that cannot be told.\<close>

definition nothing_applied :: "exec_spec \<Rightarrow> json \<Rightarrow> bool option" where
  "nothing_applied spec out = (case sx_nothing spec of
      None \<Rightarrow> None
    | Some na \<Rightarrow> if truthy (getj na ''refusal'') then Some True else all_zero out (paths_at na ''all_zero''))"

definition issued_handle :: "(json \<Rightarrow> string) \<Rightarrow> exec_spec \<Rightarrow> json \<Rightarrow> string option" where
  "issued_handle pr spec out = (if \<not> truthy (sx_handle spec) then None else
     (case get_path out (py_str pr (sx_handle spec)) of Some (JStr s) \<Rightarrow> if s \<noteq> [] then Some s else None | _ \<Rightarrow> None))"

definition resolution :: "exec_spec \<Rightarrow> json \<Rightarrow> obj \<times> string list" where
  "resolution spec out =
     (concat (map (\<lambda>p. case get_path out p of Some v \<Rightarrow> [(p, v)] | None \<Rightarrow> []) (remdups (sx_resolution spec))),
      filter (\<lambda>p. get_path out p = None) (sx_resolution spec))"

subsection \<open>Arguments and phases\<close>

definition ends_with :: "string \<Rightarrow> string \<Rightarrow> bool" where
  "ends_with s t = starts_with (rev s) (rev t)"

definition apply_append :: "(json \<Rightarrow> string) \<Rightarrow> exec_spec \<Rightarrow> obj \<Rightarrow> obj \<Rightarrow> obj option" where
  "apply_append pr spec args ctx = (case sx_append spec of
      None \<Rightarrow> Some args
    | Some a \<Rightarrow> do {
        t \<leftarrow> substitute pr ctx (getj a ''text'');
        let name = py_str pr (getj a ''arg''); cur = py_str pr (get_or args name (JStr [])); text = py_str pr t in
        Some (if ends_with cur text then args else setj args name (JStr (strip (cur @ '' '' @ text))))
      })"

text \<open>\<open>^(res|site)-[0-9]+$\<close>; the pattern's \<open>$\<close> also stands before a final newline.\<close>

definition is_handle :: "string \<Rightarrow> bool" where
  "is_handle s = (list_ex (\<lambda>p. starts_with s p \<and> (let ds = drop (length p) s;
       n = (if ds \<noteq> [] \<and> last ds = newline then butlast ds else ds) in n \<noteq> [] \<and> list_all digit_char n)) [''res-'', ''site-''])"

definition plan_request :: "exec_spec \<Rightarrow> obj \<Rightarrow> json \<times> obj" where
  "plan_request spec args = (let src = fields_of (getj (the (sx_phases spec)) ''source'') in
     (getj src ''tool'', concat (map (\<lambda>a. if has args (str_of a) then [(str_of a, getj args (str_of a))] else [])
        (items_of (getj src ''args'')))))"

definition phase_row :: "obj \<Rightarrow> json \<Rightarrow> (string \<times> string list) option" where
  "phase_row src row = (case getj (fields_of row) (str_of (getj src ''label_field'')) of
      JStr l \<Rightarrow> Some (l, map str_of (filter is_str (items_of (or_empty (getj (fields_of row)
         (if truthy (getj src ''applies_field'') then str_of (getj src ''applies_field'') else ''applies''))))))
    | _ \<Rightarrow> None)"

definition plan_phases :: "exec_spec \<Rightarrow> json \<Rightarrow> (string \<times> string list) list option" where
  "plan_phases spec parsed = (let src = fields_of (getj (the (sx_phases spec)) ''source'') in
     case get_path (JObj (unwrap parsed)) (str_of (getj src ''rows'')) of
       Some (JArr rows) \<Rightarrow> those (map (phase_row src) rows)
     | _ \<Rightarrow> None)"

text \<open>What a phase applies: its leaves, or itself; of two rows with one label the later counts.\<close>

definition phase_leaves :: "(string \<times> string list) list \<Rightarrow> string \<Rightarrow> string set" where
  "phase_leaves plan l = (case map_of (rev plan) l of
      None \<Rightarrow> {l} | Some ls \<Rightarrow> if ls \<noteq> [] then set ls else {l})"

fun index_of :: "'a list \<Rightarrow> 'a \<Rightarrow> nat" where
  "index_of [] x = 0"
| "index_of (y # ys) x = (if x = y then 0 else Suc (index_of ys x))"

definition phase_twice :: "(string \<times> string list) list \<Rightarrow> string \<Rightarrow> string \<Rightarrow> string list" where
  "phase_twice plan a b = only_if (phase_leaves plan a \<inter> phase_leaves plan b \<noteq> {} \<and> a \<noteq> b)
     (''phases '' @ a @ '' and '' @ b @ '' would apply a phase twice; list a meta phase or its leaves, not both'')"

fun phase_pairs :: "(string \<times> string list) list \<Rightarrow> string list \<Rightarrow> string list" where
  "phase_pairs plan [] = []"
| "phase_pairs plan (a # rest) = concat (map (phase_twice plan a) rest) @ phase_pairs plan rest"

definition check_declared_phases :: "(string \<times> string list) list \<Rightarrow> string list \<Rightarrow> string option \<Rightarrow> string list" where
  "check_declared_phases plan declared first =
     (let labels = map fst plan; known = filter (\<lambda>n. n \<in> set labels) declared in
      concat (map (\<lambda>n. only_if (n \<notin> set labels) (''declared phase '' @ n @ '' is not a phase of the template'')) declared)
      @ only_if (\<not> sorted (map (index_of labels) known)) ''declared phases are not in the template order''
      @ phase_pairs plan (declared @ (case first of Some (c # cs) \<Rightarrow> [c # cs] | _ \<Rightarrow> [])))"

subsection \<open>Progress\<close>

definition progress_request :: "(json \<Rightarrow> string) \<Rightarrow> obj \<Rightarrow> obj \<Rightarrow> (json \<times> obj) option" where
  "progress_request pr p ctx = (let rd = fields_of (getj p ''read'') in
     map_option (\<lambda>a. (getj rd ''tool'', fields_of a))
       (substitute pr ctx (if truthy (getj rd ''args'') then getj rd ''args'' else JObj [])))"

definition holds_cond :: "json \<Rightarrow> json \<Rightarrow> bool" where
  "holds_cond out c = (truthy c \<and> (let r = fields_of c in
     case get_path out (str_of (getj r ''path'')) of
       None \<Rightarrow> False
     | Some v \<Rightarrow> if has r ''equals'' then py_eq v (getj r ''equals'')
         else has r ''greater_than'' \<and> is_number v \<and> \<not> is_bool v \<and> py_lt (getj r ''greater_than'') v = Some True))"

definition judge_progress :: "exec_spec \<Rightarrow> json \<Rightarrow> string \<times> string" where
  "judge_progress spec out = (case sx_progress spec of
      None \<Rightarrow> (''done'', ''no progress read declared; the call itself is the work'')
    | Some p \<Rightarrow>
        if error_text out \<noteq> None \<or> \<not> is_obj out
        then (''unknown'', or_text (case error_text out of Some e \<Rightarrow> e | None \<Rightarrow> []) ''the read is not an object'')
        else case get_path out (str_of (getj p ''done_field'')) of
          None \<Rightarrow> (''unknown'', str_of (getj p ''done_field'') @ '' is null or absent'')
        | Some JNull \<Rightarrow> (''unknown'', str_of (getj p ''done_field'') @ '' is null or absent'')
        | Some d \<Rightarrow>
            if d = JBool True \<and> \<not> holds_cond out (getj p ''not_done_if'') then (''done'', ''the game says it is done'')
            else if holds_cond out (getj p ''blocked_if'') then (''blocked_material'', ''something cannot be finished (material)'')
            else if holds_cond out (getj p ''cancelled_if'')
              then (''cancelled_by_game'', ''cancelled by the game (damp or warm stone beside the dig); not a stall, never retried'')
            else if holds_cond out (getj p ''stalled_if'') then (''stalled'', ''work has stalled'')
            else (''issued'', ''in progress''))"

subsection \<open>Did an uncertain call land?\<close>

definition landed_when :: "(string \<Rightarrow> string \<Rightarrow> bool) \<Rightarrow> obj \<Rightarrow> obj \<Rightarrow> bool" where
  "landed_when re_search args e = (case getj e ''when'' of
      JNull \<Rightarrow> True
    | w \<Rightarrow> (case getj args (str_of (getj (fields_of w) ''arg'')) of
        JStr v \<Rightarrow> re_search (str_of (getj (fields_of w) ''matches'')) v | _ \<Rightarrow> False))"

definition landed_entry :: "(string \<Rightarrow> string \<Rightarrow> bool) \<Rightarrow> exec_spec \<Rightarrow> obj \<Rightarrow> obj option" where
  "landed_entry re_search spec args = find (landed_when re_search args) (sx_landed spec)"

definition landed_request :: "(json \<Rightarrow> string) \<Rightarrow> obj \<Rightarrow> obj \<Rightarrow> (json \<times> obj) option" where
  "landed_request pr e ctx = (let rd = fields_of (getj e ''read'') in
     map_option (\<lambda>a. (getj rd ''tool'', fields_of a))
       (substitute pr ctx (if truthy (getj rd ''args'') then getj rd ''args'' else JObj [])))"

definition landed_rows :: "obj \<Rightarrow> json \<Rightarrow> json list option" where
  "landed_rows e parsed = (case get_path (JObj (unwrap parsed)) (str_of (getj (fields_of (getj e ''read'')) ''rows'')) of
      Some (JArr rows) \<Rightarrow> Some rows | _ \<Rightarrow> None)"

text \<open>The row the declaration names; the outer \<open>option\<close> is the error of a missing name.\<close>

definition find_row :: "(json \<Rightarrow> string) \<Rightarrow> obj \<Rightarrow> json list \<Rightarrow> obj \<Rightarrow> obj option option" where
  "find_row pr e rows ctx = (let f = fields_of (getj e ''find'') in
     map_option (\<lambda>want. map_option fields_of (find (\<lambda>r. is_obj r \<and> py_eq (getj (fields_of r) (str_of (getj f ''field''))) want) rows))
       (substitute pr ctx (getj f ''equals'')))"

definition row_handle :: "(json \<Rightarrow> string) \<Rightarrow> obj \<Rightarrow> obj \<Rightarrow> string" where
  "row_handle pr e r = py_str pr (getj r (str_of (getj e ''handle_field'')))"

text \<open>\<open>None\<close> is the error, \<open>Some JNull\<close> the unusable read.\<close>

definition landed_baseline :: "(json \<Rightarrow> string) \<Rightarrow> obj \<Rightarrow> json \<Rightarrow> obj \<Rightarrow> json option" where
  "landed_baseline pr e parsed ctx = (case landed_rows e parsed of
      None \<Rightarrow> Some JNull
    | Some rows \<Rightarrow>
        if getj e ''kind'' = JStr ''new_row''
        then Some (JObj [(''handles'', JArr (map JStr (sort (map (\<lambda>r. row_handle pr e (fields_of r)) (filter is_obj rows)))))])
        else map_option (\<lambda>row. case row of
            None \<Rightarrow> JObj [(''missing'', JBool True)]
          | Some r \<Rightarrow> JObj [(''value'', getj r (str_of (getj e ''field'')))]) (find_row pr e rows ctx))"

datatype landing = Landed string | Nothing_landed | Cannot_tell

definition new_rows :: "(json \<Rightarrow> string) \<Rightarrow> obj \<Rightarrow> obj \<Rightarrow> json list \<Rightarrow> string \<Rightarrow> obj list" where
  "new_rows pr e base rows suffix = (let m = fields_of (getj e ''match'') in
     filter (\<lambda>r. JStr (row_handle pr e r) \<notin> set (items_of (or_empty (getj base ''handles''))) \<and>
         is_str (getj r (str_of (getj m ''field''))) \<and> ends_with (str_of (getj r (str_of (getj m ''field'')))) suffix)
       (map fields_of (filter is_obj rows)))"

definition landed_new_row :: "(json \<Rightarrow> string) \<Rightarrow> obj \<Rightarrow> obj \<Rightarrow> json list \<Rightarrow> obj \<Rightarrow> landing option" where
  "landed_new_row pr e base rows ctx =
     map_option (\<lambda>suffix. case new_rows pr e base rows (py_str pr suffix) of
         [] \<Rightarrow> Nothing_landed | [r] \<Rightarrow> Landed (row_handle pr e r) | _ \<Rightarrow> Cannot_tell)
       (substitute pr ctx (getj (fields_of (getj e ''match'')) ''ends_with''))"

definition landed_field :: "(json \<Rightarrow> string) \<Rightarrow> obj \<Rightarrow> obj \<Rightarrow> obj \<Rightarrow> landing" where
  "landed_field pr e base r = (let v = getj r (str_of (getj e ''field'')) in
     if v \<noteq> JNull \<and> v \<noteq> JStr [] \<and> \<not> py_eq v (getj base ''value'') then Landed (py_str pr v) else Nothing_landed)"

definition landed_gain :: "(json \<Rightarrow> string) \<Rightarrow> obj \<Rightarrow> obj \<Rightarrow> obj \<Rightarrow> obj \<Rightarrow> landing option" where
  "landed_gain pr e base r ctx = (let v = getj r (str_of (getj e ''field'')) in
     Option.bind (substitute pr ctx (getj e ''value'')) (\<lambda>want.
       if is_arr v \<and> list_ex (\<lambda>x. py_eq want x) (items_of v) \<and> \<not> list_ex (\<lambda>x. py_eq want x) (items_of (getj base ''value''))
       then map_option (\<lambda>h. Landed (py_str pr h)) (substitute pr ctx (getj e ''handle''))
       else Some (if is_arr v then Nothing_landed else Cannot_tell)))"

definition landed_resolve :: "(json \<Rightarrow> string) \<Rightarrow> obj \<Rightarrow> json \<Rightarrow> json \<Rightarrow> obj \<Rightarrow> landing option" where
  "landed_resolve pr e baseline parsed ctx = (case (landed_rows e parsed, baseline) of
      (Some rows, JObj base) \<Rightarrow>
        if getj e ''kind'' = JStr ''new_row'' then landed_new_row pr e base rows ctx
        else Option.bind (find_row pr e rows ctx) (\<lambda>row. case row of
            None \<Rightarrow> Some Cannot_tell
          | Some r \<Rightarrow> if getj e ''kind'' = JStr ''field_set'' then Some (landed_field pr e base r)
              else landed_gain pr e base r ctx)
    | _ \<Rightarrow> Some Cannot_tell)"

subsection \<open>Cleaning up after a handle\<close>

text \<open>The first tool whose cleanup data is for handles of this prefix; the outer \<open>option\<close> is the error.\<close>

fun cleanup_for :: "(json \<Rightarrow> string) \<Rightarrow> reg_tool list \<Rightarrow> string \<Rightarrow> (string \<times> obj \<times> exec_spec) option option" where
  "cleanup_for pr [] handle = Some None"
| "cleanup_for pr (t # ts) handle = Option.bind (spec_for t) (\<lambda>s.
     case Option.bind s (\<lambda>sp. map_option (\<lambda>c. (sp, c)) (sx_cleanup sp)) of
       Some (sp, c) \<Rightarrow> if starts_with handle (str_of (getj c ''handle_prefix''))
         then map_option (\<lambda>a. Some (rt_id t, fields_of a, sp)) (substitute pr [(''handle'', JStr handle)] (getj c ''args''))
         else cleanup_for pr ts handle
     | None \<Rightarrow> cleanup_for pr ts handle)"

end
