(* ===== verification/Step_Call.thy ===== *)
theory Step_Call
  imports Action_Data Board Steps Hold
begin

section \<open>The executor's calls\<close>

text \<open>
  \<open>dfmcp/executor_run.py\<close>: running a step, settling a run whose outcome is not known, reading a step's progress.
  A call is a sequence of accesses to the queue (each one transaction) and of calls of tools. Other sessions of the
  server work on the same queue: \<open>xh_others\<close> is what they wrote before the next access, a function of what this
  call did so far, as are the answers of the tools, the clock and the failures of the database. The list of events
  is kept; a real call of a tool is told apart from its dry run and from reads.
\<close>

subsection \<open>The host\<close>

text \<open>What a call of a tool comes back with: an object, one of the three errors of this module, another error, or
  the cancellation of the task.\<close>

datatype reply = Answer json | Not_sent string | Outcome_unknown string | Call_failed string | Other_error string | Cancelled

datatype xevent = Dry string obj | Read string obj | Real string obj | Game string | Store string

record host =
  xh_cf :: config
  xh_pr :: "json \<Rightarrow> string"
  xh_search :: "string \<Rightarrow> string \<Rightarrow> bool"
  xh_tools :: "reg_tool list"
  xh_refs :: "(string \<times> obj) list"
  xh_call :: "xevent list \<Rightarrow> string \<Rightarrow> obj \<Rightarrow> reply"
  xh_game :: "xevent list \<Rightarrow> string \<Rightarrow> json option"
  xh_now :: "xevent list \<Rightarrow> string"
  xh_fails :: "xevent list \<Rightarrow> bool"
  xh_others :: "xevent list \<Rightarrow> queue \<Rightarrow> queue"

record session =
  ss_queue :: queue
  ss_events :: "xevent list"

text \<open>How a call can end early: \<open>QueueToolError\<close>, another exception, cancellation, or a result that is
  already known.\<close>

datatype failure = Tool_error errors | Crashed | Stopped | Returned obj

type_synonym 'a call = "session \<Rightarrow> (failure + 'a) \<times> session"

definition give :: "'a \<Rightarrow> 'a call" where "give x s = (Inr x, s)"

definition fail :: "failure \<Rightarrow> 'a call" where "fail e s = (Inl e, s)"

definition andthen :: "'a call \<Rightarrow> ('a \<Rightarrow> 'b call) \<Rightarrow> 'b call" where
  "andthen m f s = (case m s of (Inl e, t) \<Rightarrow> (Inl e, t) | (Inr x, t) \<Rightarrow> f x t)"

text \<open>\<open>except Exception\<close>: cancellation passes, and so does a result.\<close>

definition rescue :: "'a call \<Rightarrow> 'a call \<Rightarrow> 'a call" where
  "rescue m g s = (case m s of (Inl (Tool_error _), t) \<Rightarrow> g t | (Inl Crashed, t) \<Rightarrow> g t | r \<Rightarrow> r)"

text \<open>\<open>except QueueToolError\<close>.\<close>

definition on_refusal :: "'a call \<Rightarrow> (errors \<Rightarrow> 'a call) \<Rightarrow> 'a call" where
  "on_refusal m g s = (case m s of (Inl (Tool_error es), t) \<Rightarrow> g es t | r \<Rightarrow> r)"

definition returned :: "obj call \<Rightarrow> obj call" where
  "returned m s = (case m s of (Inl (Returned r), t) \<Rightarrow> (Inr r, t) | r \<Rightarrow> r)"

definition or_crash :: "'a option \<Rightarrow> 'a call" where
  "or_crash x = (case x of None \<Rightarrow> fail Crashed | Some y \<Rightarrow> give y)"

subsection \<open>Accesses\<close>

text \<open>\<open>_w\<close> and \<open>_r\<close>: one transaction over the queue as the other sessions have left it.\<close>

definition store_op :: "host \<Rightarrow> string \<Rightarrow> (string \<Rightarrow> queue \<Rightarrow> ('a \<times> queue) outcome) \<Rightarrow> 'a call" where
  "store_op h name f s =
     (let q = xh_others h (ss_events s) (ss_queue s); ev = ss_events s @ [Store name];
          t = \<lparr>ss_queue = q, ss_events = ev\<rparr> in
      if xh_fails h ev then (Inl (Tool_error [''the queue database is unavailable'']), t)
      else case f (xh_now h ev) q of
          Ok (x, q') \<Rightarrow> (Inr x, t\<lparr>ss_queue := q'\<rparr>)
        | Refused es \<Rightarrow> (Inl (Tool_error es), t)
        | Raised \<Rightarrow> (Inl Crashed, t))"

definition store_read :: "host \<Rightarrow> string \<Rightarrow> (queue \<Rightarrow> 'a) \<Rightarrow> 'a call" where
  "store_read h name f = store_op h name (\<lambda>_ q. Ok (f q, q))"

text \<open>A store operation that returns nothing the caller reads.\<close>

definition just :: "queue outcome \<Rightarrow> (unit \<times> queue) outcome" where
  "just m = obind m (\<lambda>q. Ok ((), q))"

definition call_out :: "host \<Rightarrow> (string \<Rightarrow> obj \<Rightarrow> xevent) \<Rightarrow> string \<Rightarrow> obj \<Rightarrow> reply call" where
  "call_out h mk tool args s = (Inr (xh_call h (ss_events s) tool args), s\<lparr>ss_events := ss_events s @ [mk tool args]\<rparr>)"

definition game_read :: "host \<Rightarrow> string \<Rightarrow> json option call" where
  "game_read h name s = (Inr (xh_game h (ss_events s) name), s\<lparr>ss_events := ss_events s @ [Game name]\<rparr>)"

text \<open>\<open>_stamp_cycle_snapshot\<close>: the tick.\<close>

definition stamp :: "host \<Rightarrow> int call" where
  "stamp h = andthen (game_read h ''overview.get'') (\<lambda>v. case v of
      None \<Rightarrow> fail (Tool_error [''cannot stamp this record: DFHack is unreachable''])
    | Some o' \<Rightarrow> (case game_tick_from_overview o' of
        None \<Rightarrow> fail (Tool_error [''cannot stamp this record: in_game_date did not parse''])
      | Some t \<Rightarrow> give t))"

definition tripwire_latched :: "host \<Rightarrow> bool call" where
  "tripwire_latched h = andthen (game_read h ''clock.status'') (\<lambda>v. give (case v of
      None \<Rightarrow> True | Some st \<Rightarrow> is_obj st \<and> truthy (getj (fields_of st) ''tripwire'')))"

subsection \<open>Small helpers\<close>

definition DETAIL_MAX :: nat where "DETAIL_MAX = 240"

text \<open>The ellipsis of the code is outside the model's characters and written \<open>...\<close>.\<close>

definition clip_text :: "nat \<Rightarrow> string \<Rightarrow> string" where
  "clip_text cap s = (let t = one_line s in if length t \<le> cap then t else take (cap - 1) t @ ''...'')"

definition need :: "obj \<Rightarrow> string \<Rightarrow> string call" where
  "need args k = (case getj args k of JStr v \<Rightarrow> if strip v = [] then fail (Tool_error [k @ '' must be a non-empty string'']) else give (strip v)
     | _ \<Rightarrow> fail (Tool_error [k @ '' must be a non-empty string'']))"

text \<open>\<open>_result\<close>: the class and the fields that are not \<open>None\<close>.\<close>

definition result_of :: "string \<Rightarrow> obj \<Rightarrow> obj" where
  "result_of cls kvs = (''class'', JStr cls) # filter (\<lambda>(_, v). v \<noteq> JNull) kvs"

definition stop :: "string \<Rightarrow> obj \<Rightarrow> 'a call" where
  "stop cls kvs = fail (Returned (result_of cls kvs))"

definition detail :: "string \<Rightarrow> string \<times> json" where
  "detail s = (''detail'', JStr s)"

definition at_run :: "nat \<Rightarrow> string \<times> json" where
  "at_run i = (''run_id'', JInt (int i))"

text \<open>\<open>current_steps\<close> of this module: the steps of the last amend, else of the project.\<close>

definition plan_steps :: "obj list \<Rightarrow> string \<Rightarrow> json list" where
  "plan_steps rs pid =
     (let steps = (\<lambda>P st. fold (\<lambda>r acc. if P r then items_of (or_empty (getj r ''steps'')) else acc) rs st) in
      steps (\<lambda>r. is_kind ''amend'' r \<and> getj r ''project_id'' = JStr pid)
        (steps (\<lambda>r. is_kind ''project'' r \<and> getj r ''id'' = JStr pid) []))"

definition step_runs :: "queue \<Rightarrow> string \<Rightarrow> string \<Rightarrow> run_row list" where
  "step_runs q pid sid = filter (\<lambda>r. rn_project r = pid \<and> rn_step r = sid) (q_runs q)"

definition record_by_id :: "obj list \<Rightarrow> json \<Rightarrow> obj" where
  "record_by_id rs i = (case find (\<lambda>r. getj r ''id'' = i) (rev rs) of Some r \<Rightarrow> if is_str i then r else [] | None \<Rightarrow> [])"

definition last_observation :: "obj list \<Rightarrow> string \<Rightarrow> string \<Rightarrow> obj option" where
  "last_observation rs pid sid = find (\<lambda>r. is_kind ''observation'' r \<and> getj r ''project_id'' = JStr pid \<and>
     getj r ''step_id'' = JStr sid) (rev rs)"

text \<open>\<open>ExecEnv.spec\<close>: the tool's own declaration, else the default of a direct tool.\<close>

definition spec_of :: "host \<Rightarrow> string \<Rightarrow> exec_spec option option" where
  "spec_of h tool = (case find (\<lambda>t. rt_id t = tool) (xh_tools h) of
      None \<Rightarrow> Some None
    | Some t \<Rightarrow> (case spec_for t of
        Some None \<Rightarrow> Some (if tool \<in> set (direct_tools (cf_routing (xh_cf h)))
          then Some (direct_spec tool (takes_dry_run t)
            (case map_of (xh_refs h) tool of Some r \<Rightarrow> getj r ''handle_path'' | None \<Rightarrow> JNull))
          else None)
      | s \<Rightarrow> s))"

subsection \<open>What needs a person's eye\<close>

text \<open>\<open>_record_attention\<close>: one observation, unless the latest of the step already says the same; it never fails a run.\<close>

definition last_reason :: "obj \<Rightarrow> json" where
  "last_reason r = getj (fields_of (case items_of (or_empty (getj r ''results'')) of [] \<Rightarrow> JObj [] | x # _ \<Rightarrow> x)) ''reason''"

definition observed_blocked :: "host \<Rightarrow> string \<Rightarrow> string \<Rightarrow> string \<Rightarrow> unit call" where
  "observed_blocked h pid sid reason = rescue (andthen (stamp h) (\<lambda>tick. store_op h ''record_observation'' (\<lambda>now q.
     just (obind (record_observation (xh_cf h) now q pid sid tick False
         [(''status'', JStr ''contradicted''), (''reason'', JStr reason)] (''tick-'' @ dec_int tick)) (\<lambda>(_, q'). Ok q'))))) (give ())"

definition record_attention :: "host \<Rightarrow> string \<Rightarrow> string \<Rightarrow> string \<Rightarrow> obj list \<Rightarrow> unit call" where
  "record_attention h pid sid text records =
     (let reason = or_text (clip_text 200 text) ''blocked'' in
      case last_observation records pid sid of
        Some r \<Rightarrow> if last_reason r = JStr reason then give () else observed_blocked h pid sid reason
      | None \<Rightarrow> observed_blocked h pid sid reason)"

subsection \<open>Running a step\<close>

text \<open>The three errors of the module end a read as \<open>transient\<close>; any other exception ends the call.\<close>

definition answered_or :: "string \<Rightarrow> reply \<Rightarrow> json call" where
  "answered_or what r = (case r of
      Answer v \<Rightarrow> give v
    | Not_sent e \<Rightarrow> stop ''transient'' [detail (what @ clip_text DETAIL_MAX e)]
    | Outcome_unknown e \<Rightarrow> stop ''transient'' [detail (what @ clip_text DETAIL_MAX e)]
    | Call_failed e \<Rightarrow> stop ''transient'' [detail (what @ clip_text DETAIL_MAX e)]
    | Other_error _ \<Rightarrow> fail Crashed
    | Cancelled \<Rightarrow> fail Stopped)"

definition not_runnable :: "host \<Rightarrow> string \<Rightarrow> obj option \<Rightarrow> errors \<Rightarrow> obj call" where
  "not_runnable h pid step reasons =
     (let refuse = give (result_of ''not_runnable'' [(''reasons'', JArr (map JStr reasons))]) in
      case step of None \<Rightarrow> refuse | Some st \<Rightarrow>
        if reasons \<noteq> [''the step's prerequisites are not done''] then refuse
        else andthen (store_read h ''target_states'' (\<lambda>q. states_of_step q (JStr pid))) (\<lambda>states.
          let reqs = items_of (or_empty (getj st ''requires'')) in
          if reqs \<noteq> [] \<and> list_all (\<lambda>r. set (states r) = {''issued''}) reqs
          then give (result_of ''waiting'' [(''reasons'', JArr (map JStr reasons)), detail ''a prerequisite is issued, not done''])
          else refuse))"

definition dry_stage :: "host \<Rightarrow> string \<Rightarrow> string \<Rightarrow> obj list \<Rightarrow> exec_spec \<Rightarrow> string \<Rightarrow> obj \<Rightarrow> obj \<Rightarrow> json call" where
  "dry_stage h pid sid records spec tool args ctx =
     (if \<not> sx_dry_run spec then give (JObj [])
      else andthen (or_crash (apply_append (xh_pr h) spec args ctx)) (\<lambda>a.
        andthen (call_out h Dry tool (setj a DRY_RUN_ARG (JStr ''true''))) (\<lambda>r.
        andthen (answered_or ''the dry run could not be completed: '' r) (\<lambda>dry.
          let v = judge (xh_pr h) spec dry True in
          if v = Passed then give dry
          else andthen (record_attention h pid sid (verdict_text v) records) (\<lambda>_.
            stop ''needs_judgment'' [detail (clip_text DETAIL_MAX (verdict_text v)), (''verdict'', JStr (verdict_kind v))])))))"

definition changed_resolution :: "exec_spec \<Rightarrow> obj \<Rightarrow> obj \<Rightarrow> obj" where
  "changed_resolution spec was now = map (\<lambda>k. (k, JObj [(''was'', getj was k), (''now'', getj now k)]))
     (filter (\<lambda>k. has was k \<and> \<not> py_eq (getj was k) (getj now k)) (remdups (sx_resolution spec)))"

definition resolution_stage :: "host \<Rightarrow> string \<Rightarrow> string \<Rightarrow> obj list \<Rightarrow> exec_spec \<Rightarrow> obj \<Rightarrow> json \<Rightarrow> unit call" where
  "resolution_stage h pid sid records spec proposal dry =
     (if \<not> sx_dry_run spec \<or> sx_resolution spec = [] then give ()
      else let (now, missing) = resolution spec dry;
             was = fields_of (getj (fields_of (getj proposal ''preview'')) ''resolution'');
             changed = changed_resolution spec was now in
        if missing = [] \<and> changed = [] then give ()
        else let reason = (if changed \<noteq> [] then ''the resolution changed since filing: '' @ xh_pr h (JObj changed)
               else ''declared field(s) absent: '' @ xh_pr h (JArr (map JStr missing))) in
          andthen (record_attention h pid sid reason records) (\<lambda>_.
            stop ''needs_judgment'' [detail (clip_text DETAIL_MAX reason), (''changed'', if changed = [] then JNull else JObj changed)]))"

definition baseline_stage :: "host \<Rightarrow> exec_spec \<Rightarrow> obj \<Rightarrow> obj \<Rightarrow> json call" where
  "baseline_stage h spec args ctx = (case landed_entry (xh_search h) spec args of
      None \<Rightarrow> give (JObj [])
    | Some e \<Rightarrow> andthen (or_crash (landed_request (xh_pr h) e ctx)) (\<lambda>(tool, a).
        andthen (call_out h Read (str_of tool) a) (\<lambda>r.
        andthen (answered_or ''the landed baseline could not be read: '' r) (\<lambda>parsed.
        andthen (or_crash (landed_baseline (xh_pr h) e parsed ctx)) (\<lambda>b.
          if b = JNull then stop ''transient'' [detail ''the landed baseline read was unusable; a call that could not be resolved afterwards is not sent'']
          else give b)))))"

definition uncertain :: "nat \<Rightarrow> string \<Rightarrow> 'a call" where
  "uncertain i why = stop ''uncertain'' [at_run i, detail why]"

text \<open>Stage 4. From the marker on, anything but \<open>Not_sent\<close> leaves the run \<open>issuing\<close>.\<close>

definition never_sent :: "host \<Rightarrow> nat \<Rightarrow> int \<Rightarrow> string \<Rightarrow> json call" where
  "never_sent h i tick e =
     andthen (rescue (store_op h ''resolve_step_run'' (\<lambda>now q. just (obind (resolve_step_run (xh_cf h) now q i ''transient'' JNull (Some tick)
           (JStr ''the call was never sent'')) (\<lambda>(_, q'). Ok q'))))
        (uncertain i (''not sent ('' @ clip_text DETAIL_MAX e @ '') but the marker could not be voided'')))
      (\<lambda>_. stop ''transient'' [at_run i, detail (''the call was never sent: '' @ clip_text DETAIL_MAX e)])"

definition real_stage :: "host \<Rightarrow> nat \<Rightarrow> int \<Rightarrow> exec_spec \<Rightarrow> string \<Rightarrow> obj \<Rightarrow> obj \<Rightarrow> json call" where
  "real_stage h i tick spec tool args ctx =
     andthen (or_crash (apply_append (xh_pr h) spec args ctx)) (\<lambda>a.
     andthen (call_out h Real tool (if sx_dry_run spec then setj a DRY_RUN_ARG (JStr ''false'') else a)) (\<lambda>r.
       case r of
         Answer v \<Rightarrow> give v
       | Not_sent e \<Rightarrow> never_sent h i tick e
       | Cancelled \<Rightarrow> fail Stopped
       | Outcome_unknown e \<Rightarrow> uncertain i (''the call may have run: '' @ clip_text DETAIL_MAX e)
       | Call_failed e \<Rightarrow> uncertain i (''the call may have run: '' @ clip_text DETAIL_MAX e)
       | Other_error e \<Rightarrow> uncertain i (''the call may have run: '' @ clip_text DETAIL_MAX e)))"

text \<open>Stage 5: what is recorded of the result.\<close>

definition finish_op :: "host \<Rightarrow> nat \<Rightarrow> obj \<Rightarrow> json \<Rightarrow> json call" where
  "finish_op h i executed handle =
     andthen (store_op h ''finish_step_run'' (\<lambda>now q. finish_step_run (xh_cf h) now q i executed handle))
       (\<lambda>w. or_crash (map_option (\<lambda>r. getj r ''id'') w))"

definition success_record :: "string \<Rightarrow> string \<Rightarrow> nat \<Rightarrow> string option \<Rightarrow> obj" where
  "success_record tool sid i handle =
     [(''actions'', JArr [JObj ([(''tool'', JStr tool), (''outcome'', JStr ''success''),
         (''detail'', JStr (clip_text DETAIL_MAX (tool @ '' issued '' @ (case handle of Some g \<Rightarrow> g | None \<Rightarrow> ''done'')))),
         (''targets'', JArr [JStr sid]), (''target_state'', JStr ''issued'')]
         @ (case handle of Some g \<Rightarrow> [(''game_refs'', JArr [JStr g])] | None \<Rightarrow> []))]),
      (''notes'', JStr (''run '' @ dec i @ '' of '' @ sid))]"

definition failure_record :: "string \<Rightarrow> string \<Rightarrow> nat \<Rightarrow> string \<Rightarrow> bool \<Rightarrow> obj" where
  "failure_record tool sid i reason final =
     [(''actions'', JArr [JObj ([(''tool'', JStr tool), (''outcome'', JStr ''failure''), (''detail'', JStr (clip_text DETAIL_MAX reason))]
         @ (if final then [(''targets'', JArr [JStr sid]), (''target_state'', JStr ''failed'')] else []))]),
      (''notes'', JStr (''run '' @ dec i @ '' of '' @ sid @ '' refused: '' @ clip_text 120 reason))]"

definition opt_json :: "string option \<Rightarrow> json" where
  "opt_json x = (case x of None \<Rightarrow> JNull | Some t \<Rightarrow> JStr t)"

definition record_success :: "host \<Rightarrow> string \<Rightarrow> nat \<Rightarrow> exec_spec \<Rightarrow> string \<Rightarrow> json \<Rightarrow> obj call" where
  "record_success h sid i spec tool out = (let handle = issued_handle (xh_pr h) spec out in
     if truthy (sx_handle spec) \<and> handle = None \<and> \<not> sx_handle_optional spec
     then uncertain i ''the call reported success but no handle''
     else andthen (finish_op h i (success_record tool sid i handle) (opt_json handle)) (\<lambda>eid.
       stop ''success'' [at_run i, (''executed_id'', eid), (''handle'', opt_json handle),
         detail (tool @ '' issued '' @ (case handle of Some g \<Rightarrow> g | None \<Rightarrow> ''done''))]))"

definition record_failure :: "host \<Rightarrow> string \<Rightarrow> string \<Rightarrow> nat \<Rightarrow> string \<Rightarrow> string \<Rightarrow> obj call" where
  "record_failure h pid sid i tool reason =
     andthen (store_read h ''step_runs'' (\<lambda>q. list_ex (\<lambda>r. rn_status r = ''recorded'' \<and> rn_outcome r = JStr ''failure'') (step_runs q pid sid)))
       (\<lambda>final. andthen (finish_op h i (failure_record tool sid i reason final) JNull) (\<lambda>eid.
          stop ''failed'' [at_run i, (''executed_id'', eid), (''retryable'', JBool (\<not> final)), detail (clip_text DETAIL_MAX reason)]))"

definition record_stage :: "host \<Rightarrow> string \<Rightarrow> string \<Rightarrow> nat \<Rightarrow> exec_spec \<Rightarrow> string \<Rightarrow> json \<Rightarrow> obj call" where
  "record_stage h pid sid i spec tool out = rescue
     (let v = judge (xh_pr h) spec out False in
      case v of
        Passed \<Rightarrow> record_success h sid i spec tool out
      | Declined reason \<Rightarrow>
          if nothing_applied spec out = Some True then record_failure h pid sid i tool reason
          else uncertain i (clip_text DETAIL_MAX (''the call returned an unclear result (refused: '' @ reason @ '')''))
      | Invalid reason _ \<Rightarrow> uncertain i (clip_text DETAIL_MAX (''the call returned an unclear result (invalid: '' @ reason @ '')'')))
     (uncertain i ''the result could not be recorded'')"

definition begin_op :: "host \<Rightarrow> string \<Rightarrow> string \<Rightarrow> int \<Rightarrow> json \<Rightarrow> nat call" where
  "begin_op h pid sid tick baseline = on_refusal
     (store_op h ''begin_step_run'' (\<lambda>now q. begin_step_run (xh_cf h) now q pid sid tick baseline))
     (\<lambda>es. stop ''not_runnable'' [(''reasons'', JArr [JStr (clip_text 400 (join ''; '' es))])])"

definition run_checked :: "host \<Rightarrow> string \<Rightarrow> string \<Rightarrow> obj list \<Rightarrow> obj \<Rightarrow> obj call" where
  "run_checked h pid sid records st =
     (case (getj st ''tool'', map_of st ''proposal_id'') of
        (JStr tool, Some prop) \<Rightarrow>
          andthen (or_crash (spec_of h tool)) (\<lambda>sp. case sp of
            None \<Rightarrow> stop ''needs_judgment'' [detail (tool @ '' declares no execution data (TOOLS.yaml execution:)'')]
          | Some spec \<Rightarrow>
            (let args = fields_of (getj st ''args''); ctx = setj args ''proposal_id'' prop; proposal = record_by_id records prop in
             andthen (dry_stage h pid sid records spec tool args ctx) (\<lambda>dry.
             andthen (resolution_stage h pid sid records spec proposal dry) (\<lambda>_.
             andthen (baseline_stage h spec args ctx) (\<lambda>baseline.
             andthen (on_refusal (stamp h) (\<lambda>es. stop ''transient'' [detail (clip_text DETAIL_MAX (join ''; '' es))])) (\<lambda>tick.
             andthen (begin_op h pid sid tick baseline) (\<lambda>i.
             andthen (real_stage h i tick spec tool args ctx) (\<lambda>out.
               record_stage h pid sid i spec tool out))))))))
      | _ \<Rightarrow> fail Crashed)"

definition run_step :: "host \<Rightarrow> obj \<Rightarrow> obj call" where
  "run_step h arguments = returned
     (andthen (need arguments ''project_id'') (\<lambda>pid. andthen (need arguments ''step_id'') (\<lambda>sid.
      andthen (tripwire_latched h) (\<lambda>latched.
      andthen (store_op h ''check_step_runnable'' (\<lambda>_ q. obind (runnable_reasons (xh_cf h) q pid sid latched) (\<lambda>es. Ok (es, q)))) (\<lambda>reasons.
      andthen (store_read h ''load'' q_records) (\<lambda>records.
        let step = find_step (plan_steps records pid) (JStr sid) in
        if reasons \<noteq> [] then not_runnable h pid step reasons
        else (case step of None \<Rightarrow> fail Crashed | Some st \<Rightarrow> run_checked h pid sid records st)))))))"

subsection \<open>Settling an uncertain run\<close>

definition resolve_op :: "host \<Rightarrow> nat \<Rightarrow> string \<Rightarrow> json \<Rightarrow> int \<Rightarrow> json \<Rightarrow> unit call" where
  "resolve_op h i out handle tick notes = store_op h ''resolve_step_run'' (\<lambda>now q.
     just (obind (resolve_step_run (xh_cf h) now q i out handle (Some tick) notes) (\<lambda>(_, q'). Ok q')))"

definition stay_or_hold :: "host \<Rightarrow> nat \<Rightarrow> int \<Rightarrow> bool \<Rightarrow> string \<Rightarrow> obj call" where
  "stay_or_hold h i tick hold why =
     (if hold then andthen (resolve_op h i ''held'' JNull tick (JStr why)) (\<lambda>_.
        stop ''uncertain'' [at_run i, (''held'', JBool True), detail (''held: '' @ why)])
      else stop ''uncertain'' [at_run i, (''held'', JBool False), detail why])"

definition settle_landed :: "host \<Rightarrow> nat \<Rightarrow> int \<Rightarrow> bool \<Rightarrow> landing \<Rightarrow> obj call" where
  "settle_landed h i tick hold l = (case l of
      Landed handle \<Rightarrow> andthen (resolve_op h i ''success'' (JStr handle) tick JNull) (\<lambda>_.
        stop ''success'' [(''handle'', JStr handle), at_run i, detail (''it landed: '' @ handle)])
    | Nothing_landed \<Rightarrow> andthen (resolve_op h i ''transient'' JNull tick (JStr ''nothing landed'')) (\<lambda>_.
        stop ''transient'' [at_run i, detail ''nothing landed; the step may run again''])
    | Cannot_tell \<Rightarrow> stay_or_hold h i tick hold ''the landed read could not tell'')"

definition read_landed :: "host \<Rightarrow> run_row \<Rightarrow> int \<Rightarrow> bool \<Rightarrow> obj \<Rightarrow> obj \<Rightarrow> obj call" where
  "read_landed h row tick hold e st =
     (case map_of st ''proposal_id'' of None \<Rightarrow> fail Crashed | Some prop \<Rightarrow>
       (let ctx = setj (fields_of (getj st ''args'')) ''proposal_id'' prop in
        andthen (or_crash (landed_request (xh_pr h) e ctx)) (\<lambda>(tool, a).
        andthen (call_out h Read (str_of tool) a) (\<lambda>r. case r of
            Answer parsed \<Rightarrow> andthen (or_crash (landed_resolve (xh_pr h) e (rn_baseline row) parsed ctx)) (settle_landed h (rn_id row) tick hold)
          | Other_error _ \<Rightarrow> fail Crashed
          | Cancelled \<Rightarrow> fail Stopped
          | Not_sent x \<Rightarrow> stay_or_hold h (rn_id row) tick hold (''the landed read failed: '' @ clip_text DETAIL_MAX x)
          | Outcome_unknown x \<Rightarrow> stay_or_hold h (rn_id row) tick hold (''the landed read failed: '' @ clip_text DETAIL_MAX x)
          | Call_failed x \<Rightarrow> stay_or_hold h (rn_id row) tick hold (''the landed read failed: '' @ clip_text DETAIL_MAX x)))))"

text \<open>The \<open>landed\<close> declaration of the step's tool, if the plan still has the step and the tool one.\<close>

definition entry_of_step :: "host \<Rightarrow> obj option \<Rightarrow> (obj \<times> obj) option call" where
  "entry_of_step h step = (case step of
      None \<Rightarrow> give None
    | Some st \<Rightarrow> (case getj st ''tool'' of
        JStr tool \<Rightarrow> andthen (or_crash (spec_of h tool)) (\<lambda>sp. give (case sp of
            None \<Rightarrow> None
          | Some spec \<Rightarrow> map_option (\<lambda>e. (e, st)) (landed_entry (xh_search h) spec (fields_of (getj st ''args'')))))
      | _ \<Rightarrow> fail Crashed))"

definition settle_uncertain :: "host \<Rightarrow> run_row \<Rightarrow> bool \<Rightarrow> int \<Rightarrow> obj call" where
  "settle_uncertain h row hold tick =
     (if is_cleanup (rn_step row) then
        andthen (resolve_op h (rn_id row) ''transient'' JNull tick (JStr ''cleanup call outcome unknown; it is idempotent and will be redone''))
          (\<lambda>_. stop ''transient'' [detail ''a cleanup call is idempotent; it will be redone''])
      else andthen (store_read h ''load'' q_records) (\<lambda>records.
        andthen (entry_of_step h (find_step (plan_steps records (rn_project row)) (JStr (rn_step row)))) (\<lambda>e. case e of
            None \<Rightarrow> stay_or_hold h (rn_id row) tick hold ''the tool declares no landed read''
          | Some (e, st) \<Rightarrow> read_landed h row tick hold e st)))"

definition call_resolve_uncertain :: "host \<Rightarrow> obj \<Rightarrow> obj call" where
  "call_resolve_uncertain h arguments = returned
     (case (getj arguments ''run_id'', get_or arguments ''hold'' (JBool False)) of
        (JInt i, JBool hold) \<Rightarrow>
          if i < 1 then fail (Tool_error [''run_id must be a positive integer''])
          else andthen (store_op h ''get_step_run'' (\<lambda>_ q. case run_row_of q (nat i) of
              None \<Rightarrow> Refused [''no such step run''] | Some row \<Rightarrow> Ok (row, q))) (\<lambda>row.
            if rn_status row \<noteq> ''issuing'' then fail (Tool_error [''the run is not unresolved''])
            else andthen (on_refusal (stamp h) (\<lambda>_. give (rn_tick row))) (settle_uncertain h row hold))
      | (JInt i, _) \<Rightarrow> fail (Tool_error [if i < 1 then ''run_id must be a positive integer'' else ''hold must be true or false''])
      | _ \<Rightarrow> fail (Tool_error [''run_id must be a positive integer'']))"

subsection \<open>Reading progress\<close>

definition observed_answer :: "string \<Rightarrow> json \<Rightarrow> string \<Rightarrow> bool \<Rightarrow> obj" where
  "observed_answer st oid text recorded = [(''state'', JStr st), (''observation_id'', oid), (''detail'', JStr (clip_text DETAIL_MAX text)), (''recorded'', JBool recorded)]"

text \<open>The scalars read at the paths the declaration looks at.\<close>

definition progress_paths :: "obj \<Rightarrow> string list" where
  "progress_paths p = str_of (getj p ''done_field'') # map (\<lambda>c. str_of (getj (fields_of c) ''path''))
     (filter truthy (map (getj p) [''not_done_if'', ''stalled_if'', ''blocked_if'', ''cancelled_if'']))"

definition read_values :: "obj \<Rightarrow> json \<Rightarrow> obj" where
  "read_values p out = fold (\<lambda>path acc. case get_path out path of
      Some v \<Rightarrow> if is_arr v \<or> is_obj v then acc else setj acc path v | None \<Rightarrow> acc) (progress_paths p) []"

definition read_progress :: "host \<Rightarrow> exec_spec \<Rightarrow> obj \<Rightarrow> json \<Rightarrow> ((string \<times> string) \<times> obj) call" where
  "read_progress h spec st handle = (case sx_progress spec of
      None \<Rightarrow> give (judge_progress spec (JObj []), [])
    | Some p \<Rightarrow> (case progress_request (xh_pr h) p (setj (fields_of (getj st ''args'')) ''handle'' handle) of
        None \<Rightarrow> give ((''unknown'', ''a name has no value here''), [])
      | Some (tool, a) \<Rightarrow> andthen (call_out h Read (str_of tool) a) (\<lambda>r. case r of
            Answer out \<Rightarrow> give (judge_progress spec out, read_values p out)
          | Not_sent e \<Rightarrow> give ((''unknown'', ''the progress read failed: '' @ clip_text DETAIL_MAX e), [])
          | Outcome_unknown e \<Rightarrow> give ((''unknown'', ''the progress read failed: '' @ clip_text DETAIL_MAX e), [])
          | Call_failed e \<Rightarrow> give ((''unknown'', ''the progress read failed: '' @ clip_text DETAIL_MAX e), [])
          | Other_error _ \<Rightarrow> fail Crashed
          | Cancelled \<Rightarrow> fail Stopped)))"

definition observation_status :: "string \<Rightarrow> string" where
  "observation_status st = (if st \<in> set [''done'', ''issued''] then ''consistent'' else if st = ''unknown'' then ''not_observable'' else ''contradicted'')"

definition record_progress :: "host \<Rightarrow> string \<Rightarrow> string \<Rightarrow> obj list \<Rightarrow> int \<Rightarrow> (string \<times> string) \<times> obj \<Rightarrow> obj call" where
  "record_progress h pid sid records tick j = (case j of ((st, reason), vals) \<Rightarrow>
     (let prev = last_observation records pid sid in
      if st \<noteq> ''done'' \<and> prev \<noteq> None \<and> getj (fields_of (getj (the prev) ''detail'')) ''state'' = JStr st
      then give (observed_answer st (getj (the prev) ''id'') reason False)
      else andthen (store_op h ''record_observation'' (\<lambda>now q. record_observation (xh_cf h) now q pid sid tick (st = ''done'')
          [(''status'', JStr (observation_status st)), (''reason'', JStr (clip_text 200 reason)), (''state'', JStr st), (''read'', JObj vals)]
          (''tick-'' @ dec_int tick)))
        (\<lambda>r. give (observed_answer st (getj r ''id'') reason True))))"

definition call_observe :: "host \<Rightarrow> obj \<Rightarrow> obj call" where
  "call_observe h arguments = andthen (need arguments ''project_id'') (\<lambda>pid. andthen (need arguments ''step_id'') (\<lambda>sid.
     andthen (store_read h ''load'' q_records) (\<lambda>records.
       case find_step (plan_steps records pid) (JStr sid) of
         None \<Rightarrow> fail (Tool_error [sid @ '' is not a step of '' @ pid])
       | Some st \<Rightarrow> andthen (store_read h ''target_states'' (\<lambda>q. states_of_step q (JStr pid) (JStr sid))) (\<lambda>states.
           if states \<noteq> [] \<and> list_all (\<lambda>s. s = ''done'') states then give (observed_answer ''done'' JNull ''already done'' False)
           else if states = [] \<or> list_ex (\<lambda>s. s \<noteq> ''issued'') states then fail (Tool_error [sid @ '' is not issued''])
           else (case getj st ''tool'' of
             JStr tool \<Rightarrow> andthen (or_crash (spec_of h tool)) (\<lambda>sp. case sp of
                 None \<Rightarrow> fail (Tool_error [tool @ '' declares no execution data''])
               | Some spec \<Rightarrow> andthen (store_read h ''step_runs'' (\<lambda>q. map rn_handle (filter (\<lambda>r. truthy (rn_handle r) \<and>
                     rn_status r \<in> set [''recorded'', ''resolved'']) (step_runs q pid sid)))) (\<lambda>handles.
                   andthen (stamp h) (\<lambda>tick.
                   andthen (read_progress h spec st (if handles = [] then JNull else last handles))
                     (record_progress h pid sid records tick))))
           | _ \<Rightarrow> fail Crashed)))))"

end
