(* ===== verification/Stage_Rules.thy ===== *)
theory Stage_Rules
  imports Step_Call Step_Runs
begin

section \<open>What a part of a call does to the session\<close>

text \<open>
  \<open>obeys R m\<close>: running \<open>m\<close> relates the session before and after by \<open>R\<close>. A relation that may be chained and
  that allows events other than a real call, and what the other sessions wrote, holds of every part of a call that
  only reads (locale \<open>reading\<close>), of the parts before the real call when it allows an observation and the beginning
  of a run (\<open>observing\<close>), and of every part but the real call when it allows a run to be settled too (\<open>settling\<close>). The two relations of
  interest are \<open>moves\<close> (the queue moves by operations of the store and nothing real is called) and \<open>keeps\<close> (no run
  in flight is touched).
\<close>

named_theorems stage "parts of a call obey a relation"

definition is_real :: "xevent \<Rightarrow> bool" where
  "is_real e = (case e of Real _ _ \<Rightarrow> True | _ \<Rightarrow> False)"

definition obeys :: "(session \<Rightarrow> session \<Rightarrow> bool) \<Rightarrow> 'a call \<Rightarrow> bool" where
  "obeys R m \<longleftrightarrow> (\<forall>s. R s (snd (m s)))"

lemma obeysD: "obeys R m \<Longrightarrow> m s = (r, t) \<Longrightarrow> R s t"
  unfolding obeys_def by (metis snd_conv)

lemma andthenE:
  assumes "andthen m f s = (r, t)"
  obtains (early) e where "m s = (Inl e, t)" "r = Inl e"
  | (on) x u where "m s = (Inr x, u)" "f x u = (r, t)"
  using assms by (auto simp: andthen_def split: prod.splits sum.splits)

lemma andthen_give [simp]: "andthen (give x) f = f x" "or_crash (Some x) = give x" "or_crash None = fail Crashed"
  by (simp_all add: fun_eq_iff andthen_def give_def or_crash_def)

lemma just_Ok: "just (obind m (\<lambda>(_, q'). Ok q')) = Ok (u, q') \<longleftrightarrow> (\<exists>w. m = Ok (w, q'))"
  by (cases m) (auto simp: just_def)

locale reading =
  fixes h :: host and R :: "session \<Rightarrow> session \<Rightarrow> bool"
  assumes stays: "R s s"
    and chained: "R s t \<Longrightarrow> R t u \<Longrightarrow> R s u"
    and event: "\<not> is_real e \<Longrightarrow> R s (s\<lparr>ss_events := ss_events s @ [e]\<rparr>)"
    and others: "R s (s\<lparr>ss_queue := xh_others h (ss_events s) (ss_queue s)\<rparr>)"
begin

lemma in_andthen [stage]: "obeys R m \<Longrightarrow> (\<And>x. obeys R (f x)) \<Longrightarrow> obeys R (andthen m f)"
  unfolding obeys_def andthen_def by (auto split: prod.splits sum.splits) (metis chained snd_conv)+

lemma chainE:
  assumes "andthen m f s = (r, t)" and "obeys R m" and "R s0 s"
  obtains (early) "R s0 t" | (on) x u where "m s = (Inr x, u)" "R s0 u" "f x u = (r, t)"
  using assms(1)
  by (cases rule: andthenE) (use chained [OF assms(3)] obeysD [OF assms(2)] early on in blast)+

lemma in_give [stage]: "obeys R (give x)"
  by (simp add: obeys_def give_def stays)

lemma in_fail [stage]: "obeys R (fail e)"
  by (simp add: obeys_def fail_def stays)

lemma in_stop [stage]: "obeys R (stop c kvs)"
  by (simp add: stop_def in_fail)

lemma in_or_crash [stage]: "obeys R (or_crash x)"
  by (simp add: or_crash_def in_give in_fail split: option.splits)

lemma in_uncertain [stage]: "obeys R (uncertain i why)"
  by (simp add: uncertain_def in_stop)

lemma in_rescue [stage]: "obeys R m \<Longrightarrow> obeys R g \<Longrightarrow> obeys R (rescue m g)"
  unfolding obeys_def rescue_def
  by (auto split: prod.splits sum.splits failure.splits) (metis chained snd_conv)+

lemma in_on_refusal [stage]: "obeys R m \<Longrightarrow> (\<And>es. obeys R (g es)) \<Longrightarrow> obeys R (on_refusal m g)"
  unfolding obeys_def on_refusal_def
  by (auto split: prod.splits sum.splits failure.splits) (metis chained snd_conv)+

lemma in_returned [stage]: "obeys R m \<Longrightarrow> obeys R (returned m)"
  unfolding obeys_def returned_def by (auto split: prod.splits sum.splits failure.splits) (metis snd_conv)+

lemma in_read [stage]: "obeys R (call_out h Read tool a)" "obeys R (call_out h Dry tool a)"
  by (simp_all add: obeys_def call_out_def event is_real_def)

lemma in_game [stage]: "obeys R (game_read h name)"
  by (simp add: obeys_def game_read_def event is_real_def)

lemma in_store:
  assumes "\<And>now q x q' ev. f now q = Ok (x, q') \<Longrightarrow> R \<lparr>ss_queue = q, ss_events = ev\<rparr> \<lparr>ss_queue = q', ss_events = ev\<rparr>"
  shows "obeys R (store_op h name f)"
  unfolding obeys_def
proof
  fix s :: session
  let ?q = "xh_others h (ss_events s) (ss_queue s)" and ?ev = "ss_events s @ [Store name]"
  have "R s \<lparr>ss_queue = ?q, ss_events = ?ev\<rparr>"
    using chained [OF others [of s] event [of "Store name"]] by (cases s) (simp add: is_real_def)
  moreover have "R \<lparr>ss_queue = ?q, ss_events = ?ev\<rparr> \<lparr>ss_queue = q', ss_events = ?ev\<rparr>" if "f now ?q = Ok (x, q')" for now x q'
    using assms that by simp
  ultimately show "R s (snd (store_op h name f s))"
    by (auto simp: store_op_def Let_def intro: chained split: outcome.splits)
qed

lemma in_store_read [stage]: "obeys R (store_read h name f)"
  unfolding store_read_def by (rule in_store) (auto simp: stays)

lemma in_stamp [stage]: "obeys R (stamp h)"
  unfolding stamp_def by (intro stage) (auto intro: stage split: option.splits)

lemma in_latched [stage]: "obeys R (tripwire_latched h)"
  unfolding tripwire_latched_def by (intro stage)

lemma in_need [stage]: "obeys R (need args k)"
  unfolding need_def by (auto intro: stage split: json.splits)

lemma in_answered [stage]: "obeys R (answered_or what r)"
  unfolding answered_or_def by (auto intro: stage split: reply.splits)

lemma in_not_runnable [stage]: "obeys R (not_runnable h pid step reasons)"
  unfolding not_runnable_def Let_def by (auto intro!: stage split: option.splits)

lemma in_baseline [stage]: "obeys R (baseline_stage h spec args ctx)"
  unfolding baseline_stage_def by (auto intro!: stage split: option.splits prod.splits)

lemma in_entry [stage]: "obeys R (entry_of_step h step)"
  unfolding entry_of_step_def by (auto intro!: stage split: option.splits json.splits)

lemma in_read_progress [stage]: "obeys R (read_progress h spec st handle)"
  unfolding read_progress_def by (auto intro!: stage split: option.splits prod.splits reply.splits)

end

locale observing = reading +
  assumes observation: "record_observation (xh_cf h) now q pid sid tick d det snapshot = Ok (w, q') \<Longrightarrow>
    R \<lparr>ss_queue = q, ss_events = ev\<rparr> \<lparr>ss_queue = q', ss_events = ev\<rparr>"
    and beginning: "begin_step_run (xh_cf h) now q pid sid tick baseline = Ok (i, q') \<Longrightarrow>
      R \<lparr>ss_queue = q, ss_events = ev\<rparr> \<lparr>ss_queue = q', ss_events = ev\<rparr>"
begin

lemma in_begin [stage]: "obeys R (begin_op h pid sid tick baseline)"
  unfolding begin_op_def by (intro stage in_store) (auto intro: beginning)

lemma in_blocked [stage]: "obeys R (observed_blocked h pid sid reason)"
  unfolding observed_blocked_def by (intro stage in_store) (auto simp: just_Ok intro: observation)

lemma in_attention [stage]: "obeys R (record_attention h pid sid text records)"
  unfolding record_attention_def Let_def by (auto intro: stage split: option.splits)

lemma in_dry_stage [stage]: "obeys R (dry_stage h pid sid records spec tool args ctx)"
  unfolding dry_stage_def Let_def by (auto intro!: stage)

lemma in_resolution [stage]: "obeys R (resolution_stage h pid sid records spec proposal dry)"
  unfolding resolution_stage_def Let_def by (auto intro!: stage split: prod.splits)

lemma in_record_progress [stage]: "obeys R (record_progress h pid sid records tick j)"
  unfolding record_progress_def Let_def by (auto intro!: stage in_store intro: observation split: prod.splits)

lemma in_observe [stage]: "obeys R (call_observe h arguments)"
  unfolding call_observe_def by (auto intro!: stage split: option.splits json.splits)

end

locale settling = observing +
  assumes finishing: "finish_step_run (xh_cf h) now q i executed handle = Ok (x, q') \<Longrightarrow>
      R \<lparr>ss_queue = q, ss_events = ev\<rparr> \<lparr>ss_queue = q', ss_events = ev\<rparr>"
    and resolving: "resolve_step_run (xh_cf h) now q i out handle' t notes = Ok (y, q') \<Longrightarrow>
      R \<lparr>ss_queue = q, ss_events = ev\<rparr> \<lparr>ss_queue = q', ss_events = ev\<rparr>"
begin

lemma in_never_sent [stage]: "obeys R (never_sent h i tick e)"
  unfolding never_sent_def by (intro stage in_store) (auto simp: just_Ok intro: resolving)

lemma in_finish [stage]: "obeys R (finish_op h i executed handle)"
  unfolding finish_op_def by (intro stage in_store) (auto intro: finishing)

lemma in_record [stage]: "obeys R (record_stage h pid sid i spec tool out)"
  unfolding record_stage_def record_success_def record_failure_def Let_def
  by (auto intro!: stage split: call_verdict.splits)

lemma in_resolve [stage]: "obeys R (resolve_op h i out handle tick notes)"
  unfolding resolve_op_def by (rule in_store) (auto simp: just_Ok intro: resolving)

lemma in_stay_or_hold [stage]: "obeys R (stay_or_hold h i tick hold why)"
  unfolding stay_or_hold_def by (auto intro!: stage)

lemma in_settle_landed [stage]: "obeys R (settle_landed h i tick hold l)"
  unfolding settle_landed_def by (auto intro!: stage split: landing.splits)

lemma in_read_landed [stage]: "obeys R (read_landed h row tick hold e st)"
  unfolding read_landed_def Let_def by (auto intro!: stage split: option.splits prod.splits reply.splits)

lemma in_settle_uncertain [stage]: "obeys R (settle_uncertain h row hold tick)"
  unfolding settle_uncertain_def by (auto intro!: stage split: option.splits prod.splits)

lemma in_resolve_uncertain [stage]: "obeys R (call_resolve_uncertain h arguments)"
proof -
  have "obeys R (store_op h ''get_step_run'' (\<lambda>_ q. case run_row_of q n of None \<Rightarrow> Refused [''no such step run''] | Some row \<Rightarrow> Ok (row, q)))" for n
    by (rule in_store) (auto simp: stays split: option.splits)
  then show ?thesis
    unfolding call_resolve_uncertain_def by (auto intro!: stage split: json.splits prod.splits)
qed

end

subsection \<open>The two relations\<close>

definition fair_others :: "host \<Rightarrow> bool" where
  "fair_others h \<longleftrightarrow> (\<forall>tr q. (qstep (xh_cf h))\<^sup>*\<^sup>* q (xh_others h tr q))"

definition others_keep :: "host \<Rightarrow> bool" where
  "others_keep h \<longleftrightarrow> (\<forall>tr q. \<forall>r \<in> set (q_runs q). unresolved r \<longrightarrow> r \<in> set (q_runs (xh_others h tr q)))"

definition moves :: "host \<Rightarrow> session \<Rightarrow> session \<Rightarrow> bool" where
  "moves h s t \<longleftrightarrow> fair_others h \<longrightarrow> (qstep (xh_cf h))\<^sup>*\<^sup>* (ss_queue s) (ss_queue t) \<and>
     (\<exists>es. ss_events t = ss_events s @ es \<and> (\<forall>e \<in> set es. \<not> is_real e))"

definition keeps :: "host \<Rightarrow> session \<Rightarrow> session \<Rightarrow> bool" where
  "keeps h s t \<longleftrightarrow> others_keep h \<longrightarrow> (\<forall>r \<in> set (q_runs (ss_queue s)). unresolved r \<longrightarrow> r \<in> set (q_runs (ss_queue t)))"

lemma moves_trans: "moves h s t \<Longrightarrow> moves h t u \<Longrightarrow> moves h s u"
  unfolding moves_def by (metis (no_types, lifting) Un_iff append.assoc rtranclp_trans set_append)

interpretation mv: settling h "moves h" for h
proof
  show "moves h s u" if "moves h s t" "moves h t u" for s t u by (rule moves_trans [OF that])
qed (auto simp: moves_def fair_others_def intro: q_observe q_begin q_finish q_resolve)

lemma record_observation_runs: "record_observation cf now q pid sid tick d det snapshot = Ok (w, q') \<Longrightarrow> q_runs q' = q_runs q"
  by (auto simp: record_observation_def Let_def dest: append_in_conn_runs split: if_splits)

lemma keeps_trans: "keeps h s t \<Longrightarrow> keeps h t u \<Longrightarrow> keeps h s u"
  by (simp add: keeps_def)

text \<open>Both, of the parts before the real call.\<close>

definition prepares :: "host \<Rightarrow> session \<Rightarrow> session \<Rightarrow> bool" where
  "prepares h s t \<longleftrightarrow> moves h s t \<and> keeps h s t"

interpretation pre: observing h "prepares h" for h
proof
  show "prepares h s u" if "prepares h s t" "prepares h t u" for s t u
    using that moves_trans keeps_trans by (auto simp: prepares_def)
qed (auto simp: prepares_def moves_def fair_others_def keeps_def others_keep_def intro: q_observe q_begin
    dest: record_observation_runs begin_Ok)

end
