(* ===== verification/Step_Call_Facts.thy ===== *)
theory Step_Call_Facts
  imports Stage_Rules
begin

section \<open>What the executor's calls guarantee\<close>

text \<open>
  A real call of a tool is made once at most, directly after its run was marked \<open>issuing\<close> (\<open>sends\<close>), with the
  arguments of a dry run that passed (\<open>rehearsed\<close>); what a call answers about a run is what the queue says of it.
\<close>

subsection \<open>The parts of a run\<close>

lemma store_op_Inr:
  assumes "store_op h name f s = (Inr x, t)"
  shows "\<exists>q'. f (xh_now h (ss_events s @ [Store name])) (xh_others h (ss_events s) (ss_queue s)) = Ok (x, q') \<and>
    t = \<lparr>ss_queue = q', ss_events = ss_events s @ [Store name]\<rparr>"
  using assms by (auto simp: store_op_def Let_def split: if_splits outcome.splits)

lemma store_op_Inl:
  assumes "store_op h name f s = (Inl e, t)"
  shows "t = \<lparr>ss_queue = xh_others h (ss_events s) (ss_queue s), ss_events = ss_events s @ [Store name]\<rparr> \<and>
    (e = Crashed \<or> (\<exists>es. e = Tool_error es))"
  using assms by (auto simp: store_op_def Let_def split: if_splits outcome.splits)

lemma on_refusal_stop_Inr:
  "on_refusal m (\<lambda>es. stop c (f es)) s = (Inr x, t) \<longleftrightarrow> m s = (Inr x, t)"
  by (auto simp: on_refusal_def stop_def fail_def split: prod.splits sum.splits failure.splits)

lemma begin_op_Inr:
  assumes "begin_op h pid sid tick b s = (Inr i, t)"
  shows "\<exists>now q'. begin_step_run (xh_cf h) now (xh_others h (ss_events s) (ss_queue s)) pid sid tick b = Ok (i, q') \<and>
    t = \<lparr>ss_queue = q', ss_events = ss_events s @ [Store ''begin_step_run'']\<rparr>"
  using store_op_Inr assms by (fastforce simp: begin_op_def on_refusal_stop_Inr)

text \<open>What \<open>run_checked\<close> did when its marker was set: the stages before it, the marker, the rest.\<close>

definition marked :: "host \<Rightarrow> string \<Rightarrow> string \<Rightarrow> obj list \<Rightarrow> obj \<Rightarrow> session \<Rightarrow> string \<Rightarrow> exec_spec \<Rightarrow> obj \<Rightarrow> json \<Rightarrow> session \<Rightarrow> nat \<Rightarrow> int \<Rightarrow> session \<Rightarrow> bool" where
  "marked h pid sid records st s tool spec ctx dry s4 i tick s5 \<longleftrightarrow>
     getj st ''tool'' = JStr tool \<and> spec_of h tool = Some (Some spec) \<and>
     (\<exists>prop s1 b. map_of st ''proposal_id'' = Some prop \<and> ctx = setj (fields_of (getj st ''args'')) ''proposal_id'' prop \<and>
        dry_stage h pid sid records spec tool (fields_of (getj st ''args'')) ctx s = (Inr dry, s1) \<and>
        prepares h s s1 \<and> prepares h s1 s4 \<and> begin_op h pid sid tick b s4 = (Inr i, s5))"

lemma run_checkedE:
  assumes "run_checked h pid sid records st s = (r, t)"
  obtains (quiet) "prepares h s t"
  | (marked) tool spec ctx dry s4 i tick s5 x s6 where "marked h pid sid records st s tool spec ctx dry s4 i tick s5"
      "real_stage h i tick spec tool (fields_of (getj st ''args'')) ctx s5 = (x, s6)"
      "case x of Inl e \<Rightarrow> r = Inl e \<and> t = s6 | Inr out \<Rightarrow> record_stage h pid sid i spec tool out s6 = (r, t)"
proof (cases "\<exists>tool prop spec. getj st ''tool'' = JStr tool \<and> map_of st ''proposal_id'' = Some prop \<and> spec_of h tool = Some (Some spec)")
  case False
  with assms have "t = s"
    by (auto simp: run_checked_def stop_def fail_def andthen_def or_crash_def give_def split: json.splits option.splits)
  then show ?thesis using quiet by (simp add: pre.stays)
next
  case True
  then obtain tool pp spec where c: "getj st ''tool'' = JStr tool" "map_of st ''proposal_id'' = Some pp" "spec_of h tool = Some (Some spec)"
    by blast
  let ?args = "fields_of (getj st ''args'')"
  let ?ctx = "setj ?args ''proposal_id'' pp"
  have ra: "run_checked h pid sid records st = andthen (dry_stage h pid sid records spec tool ?args ?ctx) (\<lambda>dry.
       andthen (resolution_stage h pid sid records spec (record_by_id records pp) dry) (\<lambda>_.
       andthen (baseline_stage h spec ?args ?ctx) (\<lambda>baseline.
       andthen (on_refusal (stamp h) (\<lambda>es. stop ''transient'' [detail (clip_text DETAIL_MAX (join ''; '' es))])) (\<lambda>tick.
       andthen (begin_op h pid sid tick baseline) (\<lambda>i.
       andthen (real_stage h i tick spec tool ?args ?ctx) (\<lambda>out.
         record_stage h pid sid i spec tool out))))))"
    by (simp add: run_checked_def c Let_def)
  from assms [unfolded ra] pre.in_dry_stage pre.stays show ?thesis
  proof (cases rule: pre.chainE)
    case (on dry s1)
    note dry = this(1)
    note k1 = on(2)
    from on(3) pre.in_resolution pre.stays show ?thesis
    proof (cases rule: pre.chainE)
      case (on u s2)
      from on(3) pre.in_baseline on(2) show ?thesis
      proof (cases rule: pre.chainE)
        case (on b s3)
        from on(3) pre.in_on_refusal [OF pre.in_stamp pre.in_stop] on(2) show ?thesis
        proof (cases rule: pre.chainE)
          case (on tick s4)
          note s4 = on(2)
          from on(3) pre.in_begin on(2) show ?thesis
          proof (cases rule: pre.chainE)
            case (on i s5)
            with s4 dry k1 c have m: "marked h pid sid records st s tool spec ?ctx dry s4 i tick s5"
              unfolding marked_def by blast
            from on(3) show ?thesis
              by (cases rule: andthenE) (use marked [OF m] in force)+
          qed (use k1 pre.chained quiet in blast)
        qed (use k1 pre.chained quiet in blast)
      qed (use k1 pre.chained quiet in blast)
    qed (use k1 pre.chained quiet in blast)
  qed (rule quiet)
qed

definition named :: "obj \<Rightarrow> string \<Rightarrow> string \<Rightarrow> bool" where
  "named arguments k v \<longleftrightarrow> (\<exists>w. getj arguments k = JStr w \<and> strip w = v \<and> v \<noteq> [])"

lemma need_Inr: "need args k s = (Inr v, t) \<Longrightarrow> named args k v \<and> t = s"
  by (auto simp: need_def named_def give_def fail_def split: json.splits if_splits)

lemma store_read_Inr:
  assumes "store_read h name f s = (Inr x, t)"
  shows "x = f (ss_queue t)"
  using store_op_Inr [OF assms [unfolded store_read_def]] by auto

lemma returned_cases:
  assumes "returned m s = (r, t)"
  obtains x where "m s = (x, t)" "r = (case x of Inl (Returned w) \<Rightarrow> Inr w | _ \<Rightarrow> x)"
  using assms by (auto simp: returned_def split: prod.splits sum.splits failure.splits)

lemma in_check [stage]: "obeys (prepares h) (store_op h ''check_step_runnable'' (\<lambda>_ q. obind (runnable_reasons cf q pid sid l) (\<lambda>es. Ok (es, q))))"
  by (rule pre.in_store) (auto simp: obind_Ok pre.stays)

lemma run_stepE:
  assumes "run_step h arguments s = (r, t)"
  obtains (quiet) "prepares h s t"
  | (ready) pid sid st u x where "named arguments ''project_id'' pid" "named arguments ''step_id'' sid" "prepares h s u"
      "find_step (plan_steps (q_records (ss_queue u)) pid) (JStr sid) = Some st"
      "run_checked h pid sid (q_records (ss_queue u)) st u = (x, t)" "r = (case x of Inl (Returned w) \<Rightarrow> Inr w | _ \<Rightarrow> x)"
proof -
  from assms [unfolded run_step_def] obtain x where x: "r = (case x of Inl (Returned w) \<Rightarrow> Inr w | _ \<Rightarrow> x)"
    and run: "andthen (need arguments ''project_id'') (\<lambda>pid. andthen (need arguments ''step_id'') (\<lambda>sid.
      andthen (tripwire_latched h) (\<lambda>latched.
      andthen (store_op h ''check_step_runnable'' (\<lambda>_ q. obind (runnable_reasons (xh_cf h) q pid sid latched) (\<lambda>es. Ok (es, q)))) (\<lambda>reasons.
      andthen (store_read h ''load'' q_records) (\<lambda>records.
        let step = find_step (plan_steps records pid) (JStr sid) in
        if reasons \<noteq> [] then not_runnable h pid step reasons
        else (case step of None \<Rightarrow> fail Crashed | Some st \<Rightarrow> run_checked h pid sid records st)))))) s = (x, t)"
    by (rule returned_cases)
  from run pre.in_need [of h] pre.stays show ?thesis
  proof (cases rule: pre.chainE)
    case (on pid s1)
    note pid = need_Inr [OF on(1)]
    from on(3) pre.in_need [of h] on(2) show ?thesis
    proof (cases rule: pre.chainE)
      case (on sid s2)
      note sid = need_Inr [OF on(1)]
      from on(3) pre.in_latched on(2) show ?thesis
      proof (cases rule: pre.chainE)
        case (on latched s3)
        from on(3) in_check on(2) show ?thesis
        proof (cases rule: pre.chainE)
          case (on reasons s4)
          from on(3) pre.in_store_read on(2) show ?thesis
          proof (cases rule: pre.chainE)
            case (on records u)
            note rec = store_read_Inr [OF on(1)] and u = on(2) and rest = on(3) [unfolded Let_def]
            show ?thesis
            proof (cases "reasons \<noteq> [] \<or> find_step (plan_steps records pid) (JStr sid) = None")
              case True
              with rest have "prepares h u t"
                using obeysD [OF pre.in_not_runnable] obeysD [OF pre.in_fail] by (auto split: if_splits)
              then show ?thesis using quiet pre.chained [OF u] by blast
            next
              case False
              with rest obtain st where "find_step (plan_steps records pid) (JStr sid) = Some st" "run_checked h pid sid records st u = (x, t)"
                by auto
              then show ?thesis using ready pid sid u x rec by blast
            qed
          qed (rule quiet)
        qed (rule quiet)
      qed (rule quiet)
    qed (rule quiet)
  qed (rule quiet)
qed

subsection \<open>The real call\<close>

text \<open>What \<open>run_checked\<close> does with the reply of the real call.\<close>

definition after_call :: "host \<Rightarrow> nat \<Rightarrow> int \<Rightarrow> reply \<Rightarrow> json call" where
  "after_call h i tick reply = (case reply of
       Answer v \<Rightarrow> give v
     | Not_sent e \<Rightarrow> never_sent h i tick e
     | Cancelled \<Rightarrow> fail Stopped
     | Outcome_unknown e \<Rightarrow> uncertain i (''the call may have run: '' @ clip_text DETAIL_MAX e)
     | Call_failed e \<Rightarrow> uncertain i (''the call may have run: '' @ clip_text DETAIL_MAX e)
     | Other_error e \<Rightarrow> uncertain i (''the call may have run: '' @ clip_text DETAIL_MAX e))"

lemma real_stageE:
  assumes "real_stage h i tick spec tool args ctx s = (x, t)"
  obtains (crash) "x = Inl Crashed" "t = s"
  | (called) b a u where "apply_append (xh_pr h) spec args ctx = Some b"
      "a = (if sx_dry_run spec then setj b DRY_RUN_ARG (JStr ''false'') else b)"
      "u = s\<lparr>ss_events := ss_events s @ [Real tool a]\<rparr>"
      "after_call h i tick (xh_call h (ss_events s) tool a) u = (x, t)"
proof (cases "apply_append (xh_pr h) spec args ctx")
  case None
  with assms crash show ?thesis by (simp add: real_stage_def fail_def andthen_def)
next
  case (Some b)
  let ?a = "if sx_dry_run spec then setj b DRY_RUN_ARG (JStr ''false'') else b"
  from assms Some have "andthen (call_out h Real tool ?a) (after_call h i tick) s = (x, t)"
    by (simp only: real_stage_def Some andthen_give after_call_def [abs_def])
  then show ?thesis by (cases rule: andthenE) (auto simp: call_out_def intro: called [OF Some refl refl])
qed

lemma dry_stage_Inr:
  assumes "dry_stage h pid sid records spec tool args ctx s = (Inr dry, t)" and "sx_dry_run spec"
  shows "\<exists>b. apply_append (xh_pr h) spec args ctx = Some b \<and>
    ss_events t = ss_events s @ [Dry tool (setj b DRY_RUN_ARG (JStr ''true''))] \<and>
    xh_call h (ss_events s) tool (setj b DRY_RUN_ARG (JStr ''true'')) = Answer dry \<and> judge (xh_pr h) spec dry True = Passed"
proof -
  let ?judged = "\<lambda>dry. let v = judge (xh_pr h) spec dry True in
          if v = Passed then give dry
          else andthen (record_attention h pid sid (verdict_text v) records) (\<lambda>_.
            stop ''needs_judgment'' [detail (clip_text DETAIL_MAX (verdict_text v)), (''verdict'', JStr (verdict_kind v))])"
  let ?arg = "\<lambda>a. setj a DRY_RUN_ARG (JStr ''true'')"
  let ?answered = "\<lambda>r. andthen (answered_or ''the dry run could not be completed: '' r) ?judged"
  from assms(1) have "andthen (or_crash (apply_append (xh_pr h) spec args ctx)) (\<lambda>a. andthen (call_out h Dry tool (?arg a)) ?answered) s = (Inr dry, t)"
    using assms(2) by (simp add: dry_stage_def)
  then obtain b where b: "apply_append (xh_pr h) spec args ctx = Some b"
    and "andthen (call_out h Dry tool (?arg b)) ?answered s = (Inr dry, t)"
    by (cases "apply_append (xh_pr h) spec args ctx") (auto simp: fail_def andthen_def)
  from this(2) obtain r u where r: "r = xh_call h (ss_events s) tool (?arg b)"
    "u = s\<lparr>ss_events := ss_events s @ [Dry tool (?arg b)]\<rparr>" and "?answered r u = (Inr dry, t)"
    by (cases rule: andthenE) (auto simp: call_out_def)
  from this(3) obtain d where "r = Answer d" "?judged d u = (Inr dry, t)"
    by (cases rule: andthenE) (auto simp: answered_or_def give_def stop_def fail_def split: reply.splits)
  then have "r = Answer dry" "judge (xh_pr h) spec dry True = Passed" "t = u"
    by (auto simp: Let_def give_def stop_def fail_def elim!: andthenE split: if_splits)
  with b r show ?thesis by auto
qed

text \<open>The part from \<open>s\<close> to \<open>t\<close> makes one real call, directly after it began a run of the step.\<close>

definition sends :: "host \<Rightarrow> string \<Rightarrow> string \<Rightarrow> session \<Rightarrow> session \<Rightarrow> string \<Rightarrow> obj \<Rightarrow> bool" where
  "sends h pid sid s t tool a \<longleftrightarrow> (\<exists>now q q' i tick b es es'.
     (qstep (xh_cf h))\<^sup>*\<^sup>* (ss_queue s) q \<and> begin_step_run (xh_cf h) now q pid sid tick b = Ok (i, q') \<and>
     (qstep (xh_cf h))\<^sup>*\<^sup>* q' (ss_queue t) \<and>
     ss_events t = ss_events s @ es @ [Store ''begin_step_run'', Real tool a] @ es' \<and> (\<forall>e \<in> set (es @ es'). \<not> is_real e))"

lemma movesD:
  assumes "moves h s t" and "fair_others h"
  obtains es where "(qstep (xh_cf h))\<^sup>*\<^sup>* (ss_queue s) (ss_queue t)" "ss_events t = ss_events s @ es" "\<forall>e \<in> set es. \<not> is_real e"
  using assms by (auto simp: moves_def)

lemma after_real:
  assumes "case x of Inl e \<Rightarrow> r = Inl e \<and> t = s6 | Inr out \<Rightarrow> record_stage h pid sid i spec tool out s6 = (r, t)"
    and "after_call h i tick reply u = (x, s6)"
  shows "moves h u t"
proof -
  have "obeys (moves h) (after_call h i tick reply)"
    by (auto simp: after_call_def intro: stage split: reply.splits)
  from obeysD [OF this assms(2)] have "moves h u s6" .
  moreover have "moves h s6 t"
    using assms(1) obeysD [OF mv.in_record] mv.stays by (auto split: sum.splits)
  ultimately show ?thesis by (rule mv.chained)
qed

lemma marked_begins:
  assumes "marked h pid sid records st s tool spec ctx dry s4 i tick s5" and "fair_others h"
  shows "\<exists>now q b es. (qstep (xh_cf h))\<^sup>*\<^sup>* (ss_queue s) q \<and> begin_step_run (xh_cf h) now q pid sid tick b = Ok (i, ss_queue s5) \<and>
    ss_events s5 = ss_events s @ es @ [Store ''begin_step_run''] \<and> (\<forall>e \<in> set es. \<not> is_real e)"
proof -
  from assms(1) obtain b where b: "prepares h s s4" "begin_op h pid sid tick b s4 = (Inr i, s5)"
    using pre.chained by (auto simp: marked_def)
  from b(1) assms(2) obtain es where es: "(qstep (xh_cf h))\<^sup>*\<^sup>* (ss_queue s) (ss_queue s4)" "ss_events s4 = ss_events s @ es"
    "\<forall>e \<in> set es. \<not> is_real e" by (auto simp: prepares_def elim: movesD)
  moreover have "(qstep (xh_cf h))\<^sup>*\<^sup>* (ss_queue s4) (xh_others h (ss_events s4) (ss_queue s4))" using assms(2) by (simp add: fair_others_def)
  moreover obtain now q' where "begin_step_run (xh_cf h) now (xh_others h (ss_events s4) (ss_queue s4)) pid sid tick b = Ok (i, q')"
    "s5 = \<lparr>ss_queue = q', ss_events = ss_events s4 @ [Store ''begin_step_run'']\<rparr>" using begin_op_Inr [OF b(2)] by blast
  ultimately show ?thesis
    by (intro exI [of _ now] exI [of _ "xh_others h (ss_events s4) (ss_queue s4)"] exI [of _ b] exI [of _ es]) (auto intro: rtranclp_trans)
qed

text \<open>A run of a step either makes no real call, or these are its parts: up to \<open>u\<close> the step is found, at \<open>s5\<close> its run
  has begun, at \<open>v\<close> the call was made.\<close>

lemma run_step_parts:
  assumes "run_step h arguments s = (r, t)"
  obtains (quiet) "moves h s t"
  | (sent) pid sid st u tool spec ctx dry s4 i tick s5 b a v x s6 y where "named arguments ''project_id'' pid" "named arguments ''step_id'' sid"
      "prepares h s u" "marked h pid sid (q_records (ss_queue u)) st u tool spec ctx dry s4 i tick s5"
      "apply_append (xh_pr h) spec (fields_of (getj st ''args'')) ctx = Some b"
      "a = (if sx_dry_run spec then setj b DRY_RUN_ARG (JStr ''false'') else b)"
      "v = s5\<lparr>ss_events := ss_events s5 @ [Real tool a]\<rparr>"
      "after_call h i tick (xh_call h (ss_events s5) tool a) v = (x, s6)"
      "case x of Inl e \<Rightarrow> y = Inl e \<and> t = s6 | Inr out \<Rightarrow> record_stage h pid sid i spec tool out s6 = (y, t)"
      "r = (case y of Inl (Returned w) \<Rightarrow> Inr w | _ \<Rightarrow> y)"
  using assms
proof (cases rule: run_stepE)
  case (ready pid sid st u y)
  from ready(5) show ?thesis
  proof (cases rule: run_checkedE)
    case quiet
    with ready(3) show ?thesis using that(1) by (auto simp: prepares_def intro: mv.chained)
  next
    case (marked tool spec ctx dry s4 i tick s5 x s6)
    from marked(2) show ?thesis
    proof (cases rule: real_stageE)
      case crash
      with marked(3) have "t = s5" by simp
      moreover from marked(1) obtain b where "prepares h u s4" "begin_op h pid sid tick b s4 = (Inr i, s5)"
        using pre.chained by (auto simp: marked_def)
      ultimately have "prepares h s t" using ready(3) obeysD [OF pre.in_begin] pre.chained by metis
      then show ?thesis by (intro that(1)) (simp add: prepares_def)
    next
      case (called b a v)
      show ?thesis by (rule that(2) [OF ready(1-3) marked(1) called marked(3) ready(6)])
    qed
  qed
qed (rule that(1), simp add: prepares_def)

lemma run_step_sends:
  assumes "run_step h arguments s = (r, t)" and "fair_others h"
  obtains (quiet) "moves h s t"
  | (sent) pid sid tool a where "named arguments ''project_id'' pid" "named arguments ''step_id'' sid" "sends h pid sid s t tool a"
  using assms(1)
proof (cases rule: run_step_parts)
  case (sent pid sid st u tool spec ctx dry s4 i tick s5 b' a v x s6 y)
  from sent(3) assms(2) obtain es0 where u: "(qstep (xh_cf h))\<^sup>*\<^sup>* (ss_queue s) (ss_queue u)" "ss_events u = ss_events s @ es0"
    "\<forall>e \<in> set es0. \<not> is_real e" by (auto simp: prepares_def elim: movesD)
  from marked_begins [OF sent(4) assms(2)] obtain now q b es where m: "(qstep (xh_cf h))\<^sup>*\<^sup>* (ss_queue u) q"
    "begin_step_run (xh_cf h) now q pid sid tick b = Ok (i, ss_queue s5)"
    "ss_events s5 = ss_events u @ es @ [Store ''begin_step_run'']" "\<forall>e \<in> set es. \<not> is_real e" by blast
  from after_real [OF sent(9,8)] assms(2) obtain es' where e: "(qstep (xh_cf h))\<^sup>*\<^sup>* (ss_queue v) (ss_queue t)"
    "ss_events t = ss_events v @ es'" "\<forall>e \<in> set es'. \<not> is_real e" by (rule movesD)
  have "sends h pid sid s t tool a" unfolding sends_def
    using rtranclp_trans [OF u(1) m(1)] m(2) e m(3,4) u(2,3) sent(7)
    by (intro exI [of _ now] exI [of _ q] exI [of _ "ss_queue s5"] exI [of _ i] exI [of _ tick] exI [of _ b] exI [of _ "es0 @ es"] exI [of _ es']) auto
  then show ?thesis using that(2) sent(1,2) by blast
qed (rule that(1))

text \<open>The real call is the dry run that passed, with the flag turned.\<close>

lemma run_step_rehearsed:
  assumes "run_step h arguments s = (r, t)" and "fair_others h" and "\<not> moves h s t"
  shows "\<exists>tool spec b a es1 es2 es3. ss_events t = ss_events s @ es1 @ es2 @ [Real tool a] @ es3 \<and> (\<forall>e \<in> set (es1 @ es2 @ es3). \<not> is_real e) \<and>
    spec_of h tool = Some (Some spec) \<and>
    (sx_dry_run spec \<longrightarrow> a = setj b DRY_RUN_ARG (JStr ''false'') \<and> (\<exists>es dry. es2 = Dry tool (setj b DRY_RUN_ARG (JStr ''true'')) # es \<and>
       xh_call h (ss_events s @ es1) tool (setj b DRY_RUN_ARG (JStr ''true'')) = Answer dry \<and> judge (xh_pr h) spec dry True = Passed))"
  using assms(1)
proof (cases rule: run_step_parts)
  case quiet
  with assms(3) show ?thesis by simp
next
  case (sent pid sid st u tool spec ctx dry s4 i tick s5 b a v x s6 y)
  from sent(3) assms(2) obtain es0 where u: "ss_events u = ss_events s @ es0" "\<forall>e \<in> set es0. \<not> is_real e"
    by (auto simp: prepares_def elim: movesD)
  from sent(4) obtain s1 bl where m: "spec_of h tool = Some (Some spec)"
    "dry_stage h pid sid (q_records (ss_queue u)) spec tool (fields_of (getj st ''args'')) ctx u = (Inr dry, s1)"
    "prepares h u s1" "prepares h s1 s4" "begin_op h pid sid tick bl s4 = (Inr i, s5)" by (auto simp: marked_def)
  from m(3) assms(2) obtain es1 where e1: "ss_events s1 = ss_events u @ es1" "\<forall>e \<in> set es1. \<not> is_real e"
    by (auto simp: prepares_def elim: movesD)
  from m(4) assms(2) obtain es4 where e4: "ss_events s4 = ss_events s1 @ es4" "\<forall>e \<in> set es4. \<not> is_real e"
    by (auto simp: prepares_def elim: movesD)
  from begin_op_Inr [OF m(5)] have e5: "ss_events s5 = ss_events s4 @ [Store ''begin_step_run'']" by auto
  from after_real [OF sent(9,8)] assms(2) obtain es' where e6: "ss_events t = ss_events v @ es'" "\<forall>e \<in> set es'. \<not> is_real e"
    by (rule movesD)
  let ?es2 = "es1 @ es4 @ [Store ''begin_step_run'']"
  have ev: "ss_events t = ss_events s @ es0 @ ?es2 @ [Real tool a] @ es'"
    using u(1) e1(1) e4(1) e5 e6(1) sent(7) by simp
  have q: "\<forall>e \<in> set (es0 @ ?es2 @ es'). \<not> is_real e" using u(2) e1(2) e4(2) e6(2) by (auto simp: is_real_def)
  have "a = setj b DRY_RUN_ARG (JStr ''false'') \<and> (\<exists>es d. ?es2 = Dry tool (setj b DRY_RUN_ARG (JStr ''true'')) # es \<and>
       xh_call h (ss_events s @ es0) tool (setj b DRY_RUN_ARG (JStr ''true'')) = Answer d \<and> judge (xh_pr h) spec d True = Passed)"
    if dr: "sx_dry_run spec"
    using dry_stage_Inr [OF m(2) dr] sent(5,6) dr u(1) e1(1) by auto
  with ev q m(1) show ?thesis by (intro exI conjI) (assumption | blast)+
qed

end
