(* ===== verification/Call_Outcomes.thy ===== *)
theory Call_Outcomes
  imports Step_Call_Facts
begin

section \<open>The outcome of a call\<close>

text \<open>
  After a real call the queue says of its run what the answer says (\<open>sent_on_record\<close>); a step with a run in flight is
  not called (\<open>no_second_call\<close>); and a run in flight is settled only on evidence (\<open>settled_on_evidence\<close>).
\<close>

subsection \<open>What is on record after a real call\<close>

definition same_run :: "run_row \<Rightarrow> run_row \<Rightarrow> bool" where
  "same_run r r' \<longleftrightarrow> rn_id r' = rn_id r \<and> rn_project r' = rn_project r \<and> rn_step r' = rn_step r"

lemma same_run_refl [simp]: "same_run r r"
  by (simp add: same_run_def)

text \<open>The row says what the answer's class says.\<close>

definition told :: "string \<Rightarrow> run_row \<Rightarrow> bool" where
  "told c r \<longleftrightarrow> (if c = ''success'' then rn_status r = ''recorded'' \<and> rn_outcome r = JStr ''success''
     else if c = ''failed'' then rn_status r = ''recorded'' \<and> rn_outcome r = JStr ''failure''
     else if c = ''transient'' then rn_status r = ''void''
     else rn_status r = ''issuing'')"

text \<open>The session has the run \<open>r\<close> in flight, in a queue the store could have come to.\<close>

definition flying :: "host \<Rightarrow> run_row \<Rightarrow> session \<Rightarrow> bool" where
  "flying h r s \<longleftrightarrow> reachable (xh_cf h) (ss_queue s) \<and> r \<in> set (q_runs (ss_queue s)) \<and> rn_status r = ''issuing'' \<and>
     \<not> is_cleanup (rn_step r)"

lemma reachable_qsteps: "reachable cf q \<Longrightarrow> (qstep cf)\<^sup>*\<^sup>* q q' \<Longrightarrow> reachable cf q'"
  unfolding reachable_def by (rule rtranclp_trans)

lemma flying_others:
  assumes "flying h r s" and "fair_others h" and "others_keep h"
  shows "flying h r \<lparr>ss_queue = xh_others h (ss_events s) (ss_queue s), ss_events = ev\<rparr>"
  using assms by (auto simp: flying_def fair_others_def others_keep_def unresolved_def intro: reachable_qsteps)

lemma in_order_row:
  assumes "ids_in_order q" and "r \<in> set (q_runs q)"
  shows "run_row_of q (rn_id r) = Some r"
proof -
  have "inj_on rn_id (set (q_runs q))"
    using assms(1) numbered_distinct by (auto simp: ids_in_order_def distinct_map)
  moreover from assms(2) obtain r' where r': "run_row_of q (rn_id r) = Some r'"
    by (cases "run_row_of q (rn_id r)") (auto simp: run_row_of_def find_None_iff)
  moreover have "r' \<in> set (q_runs q)" "rn_id r' = rn_id r"
    using find_Some_in [OF r' [unfolded run_row_of_def]] by simp_all
  ultimately show ?thesis using assms(2) by (auto dest: inj_onD)
qed

lemma settled_row:
  assumes "r \<in> set (q_runs q)"
  shows "\<exists>r' \<in> set (q_runs (settle_run (rn_id r) st out hdl ex now q)). same_run r r' \<and> rn_status r' = st \<and> rn_outcome r' = JStr out"
  using assms
  by (intro bexI [of _ "r\<lparr>rn_status := st, rn_outcome := JStr out, rn_handle := hdl, rn_executed := ex, rn_ended := JStr now\<rparr>"])
    (auto simp: same_run_def settle_run_def)

lemma finish_settles:
  assumes "finish_step_run cf now q (rn_id r) executed hdl = Ok (w, q')" and "reachable cf q" and "r \<in> set (q_runs q)"
    and "\<not> is_cleanup (rn_step r)" and "all_success executed = Some good"
  shows "w \<noteq> None \<and> (\<exists>r' \<in> set (q_runs q'). same_run r r' \<and> rn_status r' = ''recorded'' \<and>
    rn_outcome r' = JStr (if good then ''success'' else ''failure''))"
proof -
  have row: "run_row_of q (rn_id r) = Some r" using in_order_row [OF reachable_ids [OF assms(2)] assms(3)] .
  from assms(1,4) obtain k u w1 q1 where app: "append_in_conn cf now q u JNull = Ok (w1, q1)"
    and rec: "record_run now q1 (rn_id r) executed k (Some w1) = Ok (w, q')"
    by (auto simp: finish_step_run_def row obind_Ok split: option.splits if_splits)
  have "r \<in> set (q_runs q1)" using assms(3) append_in_conn_runs [OF app] by simp
  with settled_row [of r q1] rec assms(5) show ?thesis by (auto simp: record_run_def)
qed

lemma resolve_row:
  assumes "resolve_step_run cf now q i out hdl t notes = Ok (w, q')"
  shows "\<exists>r r'. run_row_of q i = Some r \<and> r' \<in> set (q_runs q') \<and> same_run r r' \<and>
    Some (rn_status r') = map_of RESOLVE_STATUS out \<and> rn_outcome r' = JStr out"
proof -
  from assms obtain st where st: "map_of RESOLVE_STATUS out = Some st"
    by (auto simp: resolve_step_run_def split: option.splits)
  show ?thesis
  proof (cases "run_row_of q i")
    case None
    with assms st show ?thesis by (simp add: resolve_step_run_def split: if_splits)
  next
    case (Some r)
    from find_Some_in [OF this [unfolded run_row_of_def]] have r: "r \<in> set (q_runs q)" "rn_id r = i" by simp_all
    from assms st Some consider (plain) "q' = settle_run i st out hdl JNull now q"
      | (step) u w1 q1 ex where "append_in_conn cf now q u JNull = Ok (w1, q1)" "q' = settle_run i st out hdl ex now q1"
      by (fastforce simp: resolve_step_run_def split: option.splits if_splits prod.splits)
    then show ?thesis
    proof cases
      case plain
      with settled_row [OF r(1)] st Some r(2) show ?thesis by fastforce
    next
      case step
      have "r \<in> set (q_runs q1)" using r(1) append_in_conn_runs [OF step(1)] by simp
      with settled_row [of r q1] st step(2) Some r(2) show ?thesis by fastforce
    qed
  qed
qed

lemma resolve_settles:
  assumes "resolve_step_run cf now q (rn_id r) out hdl t notes = Ok (w, q')" and "reachable cf q" and "r \<in> set (q_runs q)"
  shows "\<exists>r' \<in> set (q_runs q'). same_run r r' \<and> Some (rn_status r') = map_of RESOLVE_STATUS out \<and> rn_outcome r' = JStr out"
  using resolve_row [OF assms(1)] in_order_row [OF reachable_ids [OF assms(2)] assms(3)] by auto

lemma finish_op_settles:
  assumes "finish_op h (rn_id r) executed hdl s = (x, t)" and "flying h r s" and "fair_others h" and "others_keep h"
    and "all_success executed = Some good"
  shows "case x of Inr _ \<Rightarrow> \<exists>r' \<in> set (q_runs (ss_queue t)). same_run r r' \<and> rn_status r' = ''recorded'' \<and>
      rn_outcome r' = JStr (if good then ''success'' else ''failure'')
    | Inl e \<Rightarrow> r \<in> set (q_runs (ss_queue t)) \<and> (e = Crashed \<or> (\<exists>es. e = Tool_error es))"
proof -
  let ?q = "xh_others h (ss_events s) (ss_queue s)"
  note fl = flying_others [OF assms(2-4), unfolded flying_def, simplified]
  from assms(1) [unfolded finish_op_def] show ?thesis
  proof (cases rule: andthenE)
    case (early e)
    from store_op_Inl [OF early(1)] early(2) fl show ?thesis by auto
  next
    case (on w u)
    from store_op_Inr [OF on(1)] obtain now q' where ok: "finish_step_run (xh_cf h) now ?q (rn_id r) executed hdl = Ok (w, q')"
      and u: "ss_queue u = q'" by auto
    from finish_settles [OF ok] fl assms(5) u have w: "w \<noteq> None" and rec: "\<exists>r' \<in> set (q_runs (ss_queue u)). same_run r r' \<and> rn_status r' = ''recorded'' \<and>
      rn_outcome r' = JStr (if good then ''success'' else ''failure'')" by blast+
    from w on(2) have "t = u" "\<exists>y. x = Inr y" by (auto simp: give_def)
    with rec show ?thesis by auto
  qed
qed

lemma success_record_good: "all_success (success_record tool sid i handle) = Some True"
  by (simp add: all_success_def success_record_def py_iter_def getj_def or_empty_def split: option.splits)

lemma failure_record_bad: "all_success (failure_record tool sid i reason final) = Some False"
  by (simp add: all_success_def failure_record_def py_iter_def getj_def or_empty_def)

definition answers :: "host \<Rightarrow> run_row \<Rightarrow> (failure + 'a) \<Rightarrow> session \<Rightarrow> bool" where
  "answers h r y t \<longleftrightarrow> (\<exists>w. y = Inl (Returned w) \<and> (\<exists>r' \<in> set (q_runs (ss_queue t)). same_run r r' \<and> told (str_of (getj w ''class'')) r'))"

lemma answersI:
  assumes "y = Inl (Returned w)" and "r' \<in> set (q_runs (ss_queue t))" and "same_run r r'" and "told (str_of (getj w ''class'')) r'"
  shows "answers h r y t"
  unfolding answers_def using assms by blast

lemma uncertain_answers: "flying h r s \<Longrightarrow> uncertain i why s = (y, t) \<Longrightarrow> answers h r y t \<and> t = s"
  by (auto simp: uncertain_def stop_def fail_def result_of_def told_def flying_def getj_def intro!: answersI [of _ _ r])

lemma record_success_answers:
  assumes "record_success h sid (rn_id r) spec tool out s = (y, t)" and "flying h r s" and "fair_others h" and "others_keep h"
  shows "answers h r y t \<or> (r \<in> set (q_runs (ss_queue t)) \<and> (y = Inl Crashed \<or> (\<exists>es. y = Inl (Tool_error es))))"
proof (cases "truthy (sx_handle spec) \<and> issued_handle (xh_pr h) spec out = None \<and> \<not> sx_handle_optional spec")
  case True
  with assms(1) uncertain_answers [OF assms(2)] show ?thesis by (auto simp: record_success_def)
next
  case False
  let ?g = "issued_handle (xh_pr h) spec out"
  from assms(1) False have "andthen (finish_op h (rn_id r) (success_record tool sid (rn_id r) ?g) (opt_json ?g)) (\<lambda>eid.
       stop ''success'' [at_run (rn_id r), (''executed_id'', eid), (''handle'', opt_json ?g),
         detail (tool @ '' issued '' @ (case ?g of Some g \<Rightarrow> g | None \<Rightarrow> ''done''))]) s = (y, t)"
    by (auto simp: record_success_def Let_def)
  then show ?thesis
  proof (cases rule: andthenE)
    case (early e)
    from finish_op_settles [OF early(1) assms(2-4) success_record_good] early(2) show ?thesis by auto
  next
    case (on eid u)
    from finish_op_settles [OF on(1) assms(2-4) success_record_good] on(2) show ?thesis
      by (auto simp: stop_def fail_def result_of_def answers_def told_def getj_def)
  qed
qed

lemma record_failure_answers:
  assumes "record_failure h pid sid (rn_id r) tool reason s = (y, t)" and "flying h r s" and "fair_others h" and "others_keep h"
  shows "answers h r y t \<or> (r \<in> set (q_runs (ss_queue t)) \<and> (y = Inl Crashed \<or> (\<exists>es. y = Inl (Tool_error es))))"
  using assms(1) [unfolded record_failure_def]
proof (cases rule: andthenE)
  case (early e)
  from store_op_Inl [OF early(1) [unfolded store_read_def]] early(2) flying_others [OF assms(2-4)] show ?thesis
    by (auto simp: flying_def)
next
  case (on final u)
  from store_op_Inr [OF on(1) [unfolded store_read_def]] flying_others [OF assms(2-4)] have u: "flying h r u" by auto
  from on(2) show ?thesis
  proof (cases rule: andthenE)
    case (early e)
    from finish_op_settles [OF early(1) u assms(3,4) failure_record_bad] early(2) show ?thesis by auto
  next
    case (on eid v)
    from finish_op_settles [OF on(1) u assms(3,4) failure_record_bad] on(2) show ?thesis
      by (auto simp: stop_def fail_def result_of_def answers_def told_def getj_def)
  qed
qed

lemma rescued_answers:
  assumes "rescue m (uncertain (rn_id r) why) s = (y, t)"
    and "rn_status r = ''issuing''"
    and "\<And>y t. m s = (y, t) \<Longrightarrow> answers h r y t \<or> (r \<in> set (q_runs (ss_queue t)) \<and> (y = Inl Crashed \<or> (\<exists>es. y = Inl (Tool_error es))))"
  shows "answers h r y t"
proof -
  obtain y0 t0 where m: "m s = (y0, t0)" by (cases "m s")
  from assms(3) [OF m] consider "answers h r y0 t0" | "r \<in> set (q_runs (ss_queue t0))" "y0 = Inl Crashed \<or> (\<exists>es. y0 = Inl (Tool_error es))" by blast
  then show ?thesis
  proof cases
    case 1
    then have "y = y0" "t = t0" using assms(1) m by (auto simp: rescue_def answers_def)
    with 1 show ?thesis by simp
  next
    case 2
    with assms(1) m have "uncertain (rn_id r) why t0 = (y, t)" by (auto simp: rescue_def)
    with 2 assms(2) show ?thesis
      by (auto simp: uncertain_def stop_def fail_def result_of_def told_def getj_def intro!: answersI [of _ _ r])
  qed
qed

lemma record_stage_answers:
  assumes "record_stage h pid sid (rn_id r) spec tool out s = (y, t)" and "flying h r s" and "fair_others h" and "others_keep h"
  shows "answers h r y t"
proof (rule rescued_answers [OF assms(1) [unfolded record_stage_def]])
  show "rn_status r = ''issuing''" using assms(2) by (simp add: flying_def)
  fix y t
  assume m: "(let v = judge (xh_pr h) spec out False in
      case v of
        Passed \<Rightarrow> record_success h sid (rn_id r) spec tool out
      | Declined reason \<Rightarrow>
          if nothing_applied spec out = Some True then record_failure h pid sid (rn_id r) tool reason
          else uncertain (rn_id r) (clip_text DETAIL_MAX (''the call returned an unclear result (refused: '' @ reason @ '')''))
      | Invalid reason _ \<Rightarrow> uncertain (rn_id r) (clip_text DETAIL_MAX (''the call returned an unclear result (invalid: '' @ reason @ '')''))) s = (y, t)"
  then show "answers h r y t \<or> (r \<in> set (q_runs (ss_queue t)) \<and> (y = Inl Crashed \<or> (\<exists>es. y = Inl (Tool_error es))))"
    unfolding Let_def
    by (cases "judge (xh_pr h) spec out False")
      (auto split: if_splits dest: record_success_answers [OF _ assms(2-4)] record_failure_answers [OF _ assms(2-4)] uncertain_answers [OF assms(2)])
qed

lemma never_sent_answers:
  assumes "never_sent h (rn_id r) tick e s = (y, t)" and "flying h r s" and "fair_others h" and "others_keep h"
  shows "answers h r y t"
proof -
  let ?q = "xh_others h (ss_events s) (ss_queue s)"
  let ?op = "store_op h ''resolve_step_run'' (\<lambda>now q. just (obind (resolve_step_run (xh_cf h) now q (rn_id r) ''transient'' JNull (Some tick)
           (JStr ''the call was never sent'')) (\<lambda>(_, q'). Ok q')))"
  note fl = flying_others [OF assms(2-4), unfolded flying_def, simplified]
  obtain y1 t1 where op: "?op s = (y1, t1)" by (cases "?op s")
  show ?thesis
  proof (cases y1)
    case (Inl f)
    with store_op_Inl [OF op [unfolded Inl]] fl have "r \<in> set (q_runs (ss_queue t1))" "f = Crashed \<or> (\<exists>es. f = Tool_error es)" by auto
    with assms(1) [unfolded never_sent_def andthen_def rescue_def op Inl] fl show ?thesis
      by (auto simp: uncertain_def stop_def fail_def result_of_def told_def getj_def intro!: answersI [of _ _ r])
  next
    case (Inr u)
    from store_op_Inr [OF op [unfolded Inr]] obtain now w where "resolve_step_run (xh_cf h) now ?q (rn_id r) ''transient'' JNull (Some tick)
        (JStr ''the call was never sent'') = Ok (w, ss_queue t1)" by (auto simp: just_Ok)
    from resolve_settles [OF this] fl obtain r' where "r' \<in> set (q_runs (ss_queue t1))" "same_run r r'" "rn_status r' = ''void''"
      by (auto simp: RESOLVE_STATUS_def)
    with assms(1) [unfolded never_sent_def andthen_def rescue_def op Inr] show ?thesis
      by (auto simp: stop_def fail_def result_of_def told_def getj_def intro!: answersI [of _ _ r'])
  qed
qed

definition class_of :: "failure + obj \<Rightarrow> string" where
  "class_of r = (case r of Inl _ \<Rightarrow> [] | Inr w \<Rightarrow> str_of (getj w ''class''))"

lemma uncertain_reply:
  assumes "case x of Inl e \<Rightarrow> y = Inl e \<and> t = s6 | Inr out \<Rightarrow> record_stage h pid sid (rn_id r) spec tool out s6 = (y, t)"
    and "uncertain i why v = (x, s6)" and "flying h r v"
  shows "answers h r y t"
  using uncertain_answers [OF assms(3,2)] assms(1) by (auto simp: answers_def)

lemma reply_answers:
  assumes "case x of Inl e \<Rightarrow> y = Inl e \<and> t = s6 | Inr out \<Rightarrow> record_stage h pid sid (rn_id r) spec tool out s6 = (y, t)"
    and "after_call h (rn_id r) tick reply v = (x, s6)" and "flying h r v" and "fair_others h" and "others_keep h"
  shows "answers h r y t \<or> (y = Inl Stopped \<and> r \<in> set (q_runs (ss_queue t)))"
proof (cases reply)
  case (Answer out)
  with assms(2) have "x = Inr out" "s6 = v" by (auto simp: after_call_def give_def)
  with assms(1) have "record_stage h pid sid (rn_id r) spec tool out v = (y, t)" by simp
  from record_stage_answers [OF this assms(3-5)] show ?thesis ..
next
  case (Not_sent e)
  with assms(2) have n: "never_sent h (rn_id r) tick e v = (x, s6)" by (simp add: after_call_def)
  from never_sent_answers [OF this assms(3-5)] assms(1) show ?thesis by (auto simp: answers_def)
next
  case Cancelled
  with assms show ?thesis by (auto simp: after_call_def fail_def flying_def)
qed (use uncertain_reply [OF assms(1) _ assms(3)] assms(2) in \<open>auto simp: after_call_def\<close>)

lemma sent_on_record:
  assumes "run_step h arguments s = (r, t)" and "fair_others h" and "others_keep h" and "reachable (xh_cf h) (ss_queue s)"
    and "\<not> moves h s t" and "named arguments ''step_id'' sid" and "\<not> is_cleanup sid"
  shows "\<exists>row \<in> set (q_runs (ss_queue t)). named arguments ''project_id'' (rn_project row) \<and> rn_step row = sid \<and> told (class_of r) row"
  using assms(1)
proof (cases rule: run_step_parts)
  case quiet
  with assms(5) show ?thesis by simp
next
  case (sent pid sid' st u tool spec ctx dry s4 i tick s5 b a v x s6 y)
  from sent(2) assms(6) have [simp]: "sid' = sid" by (auto simp: named_def)
  from sent(3) have "reachable (xh_cf h) (ss_queue u)"
    using assms(2,4) reachable_qsteps by (auto simp: prepares_def elim: movesD)
  moreover from marked_begins [OF sent(4) assms(2)] obtain now q b where q: "(qstep (xh_cf h))\<^sup>*\<^sup>* (ss_queue u) q"
    "begin_step_run (xh_cf h) now q pid sid' tick b = Ok (i, ss_queue s5)" by blast
  ultimately have r5: "reachable (xh_cf h) (ss_queue s5)"
    using q_begin [OF q(2)] reachable_qsteps by (meson r_into_rtranclp)
  from begin_Ok [OF q(2)] obtain row where "ss_queue s5 = q\<lparr>q_runs := q_runs q @ [row]\<rparr>" and "rn_id row = i" "rn_project row = pid"
    "rn_step row = sid" "rn_status row = ''issuing''" by auto
  then have row: "row \<in> set (q_runs (ss_queue s5))" "rn_id row = i" "rn_project row = pid"
    "rn_step row = sid" "rn_status row = ''issuing''" by simp_all
  with r5 assms(7) sent(7) have "flying h row v" by (simp add: flying_def)
  from reply_answers [OF sent(9,8) [folded row(2)] this assms(2,3)]
  show ?thesis
  proof
    assume "answers h row y t"
    then obtain w r' where "y = Inl (Returned w)" "r' \<in> set (q_runs (ss_queue t))" "same_run row r'" "told (str_of (getj w ''class'')) r'"
      by (auto simp: answers_def)
    then show ?thesis using sent(1,10) row by (intro bexI [of _ r']) (auto simp: same_run_def class_of_def)
  next
    assume "y = Inl Stopped \<and> row \<in> set (q_runs (ss_queue t))"
    then show ?thesis using sent(1,10) row by (intro bexI [of _ row]) (auto simp: told_def class_of_def)
  qed
qed

subsection \<open>No second call\<close>

lemma no_second_call:
  assumes "run_step h arguments s = (r, t)" and "fair_others h" and "others_keep h" and "reachable (xh_cf h) (ss_queue s)"
    and "row \<in> set (q_runs (ss_queue s))" and "unresolved row" and "named arguments ''project_id'' (rn_project row)"
    and "named arguments ''step_id'' (rn_step row)" and "\<not> is_cleanup (rn_step row)"
  shows "moves h s t"
  using assms(1)
proof (cases rule: run_step_parts)
  case (sent pid sid st u tool spec ctx dry s4 i tick s5 b a v x s6 y)
  have [simp]: "pid = rn_project row" "sid = rn_step row" using sent(1,2) assms(7,8) by (auto simp: named_def)
  from sent(4) obtain bl where m: "prepares h u s4" "begin_op h pid sid tick bl s4 = (Inr i, s5)"
    using pre.chained by (auto simp: marked_def)
  have k: "prepares h s s4" using pre.chained [OF sent(3) m(1)] .
  let ?q = "xh_others h (ss_events s4) (ss_queue s4)"
  have "reachable (xh_cf h) (ss_queue s4)"
    using k assms(2,4) reachable_qsteps by (auto simp: prepares_def elim: movesD)
  then have q: "reachable (xh_cf h) ?q" using assms(2) reachable_qsteps by (simp add: fair_others_def)
  have row: "row \<in> set (q_runs ?q)" using k assms(3,5,6) by (simp add: prepares_def keeps_def others_keep_def)
  from begin_op_Inr [OF m(2)] obtain now q' where "begin_step_run (xh_cf h) now ?q pid sid tick bl = Ok (i, q')" by blast
  from begin_Ok [OF this] assms(9) have "runnable_reasons (xh_cf h) ?q pid sid False = Ok []" by simp
  from runnable_may_run [OF this q] row have "\<not> unresolved row" by (auto simp: may_run_def)
  with assms(6) show ?thesis by simp
qed

subsection \<open>Settling a run on evidence\<close>

text \<open>The landed read of the step, made in this call, says \<open>l\<close> of the run.\<close>

definition landed_says :: "host \<Rightarrow> xevent list \<Rightarrow> run_row \<Rightarrow> landing \<Rightarrow> bool" where
  "landed_says h tr row l \<longleftrightarrow> (\<exists>e ctx tool a parsed es. landed_request (xh_pr h) e ctx = Some (tool, a) \<and>
     tr = es @ [Read (str_of tool) a] \<and> xh_call h es (str_of tool) a = Answer parsed \<and>
     landed_resolve (xh_pr h) e (rn_baseline row) parsed ctx = Some l)"

definition run_status :: "queue \<Rightarrow> nat \<Rightarrow> string \<Rightarrow> bool" where
  "run_status q i st \<longleftrightarrow> (\<exists>r \<in> set (q_runs q). rn_id r = i \<and> rn_status r = st)"

definition seen_landed :: "host \<Rightarrow> run_row \<Rightarrow> landing \<Rightarrow> session \<Rightarrow> bool" where
  "seen_landed h row l t \<longleftrightarrow> (\<exists>tr es. ss_events t = tr @ es \<and> landed_says h tr row l)"

lemma seen_landedI: "landed_says h (ss_events s) row l \<Longrightarrow> ss_events t = ss_events s @ es \<Longrightarrow> seen_landed h row l t"
  unfolding seen_landed_def by blast

text \<open>What the call may answer of the run, and what it needs for it.\<close>

definition evidence :: "host \<Rightarrow> run_row \<Rightarrow> obj \<Rightarrow> session \<Rightarrow> bool" where
  "evidence h row w t \<longleftrightarrow> (let c = str_of (getj w ''class''); seen = (\<lambda>l. seen_landed h row l t) in
     (c = ''success'' \<and> run_status (ss_queue t) (rn_id row) ''resolved'' \<and> (\<exists>g. getj w ''handle'' = JStr g \<and> seen (Landed g)))
   \<or> (c = ''transient'' \<and> run_status (ss_queue t) (rn_id row) ''void'' \<and> (is_cleanup (rn_step row) \<or> seen Nothing_landed))
   \<or> (c = ''uncertain'' \<and> (getj w ''held'' = JBool True \<longrightarrow> run_status (ss_queue t) (rn_id row) ''held'')))"

lemma resolve_op_settles:
  assumes "resolve_op h i out hdl tick notes s = (Inr u, t)" and "map_of RESOLVE_STATUS out = Some st"
  shows "run_status (ss_queue t) i st \<and> ss_events t = ss_events s @ [Store ''resolve_step_run'']"
proof -
  let ?q = "xh_others h (ss_events s) (ss_queue s)"
  from store_op_Inr [OF assms(1) [unfolded resolve_op_def]] obtain now w
    where ok: "resolve_step_run (xh_cf h) now ?q i out hdl (Some tick) notes = Ok (w, ss_queue t)"
      and ev: "ss_events t = ss_events s @ [Store ''resolve_step_run'']" by (auto simp: just_Ok)
  from resolve_row [OF ok] obtain r r' where "run_row_of ?q i = Some r" "r' \<in> set (q_runs (ss_queue t))" "same_run r r'" "rn_status r' = st"
    using assms(2) by auto
  moreover from this(1) have "rn_id r = i" using find_Some_in [of "\<lambda>r. rn_id r = i"] by (auto simp: run_row_of_def)
  ultimately have "run_status (ss_queue t) i st" by (auto simp: run_status_def same_run_def)
  with ev show ?thesis by simp
qed

lemma stay_or_hold_evidence:
  assumes "stay_or_hold h (rn_id row) tick hold why s = (Inl (Returned w), t)"
  shows "evidence h row w t"
proof (cases hold)
  case False
  with assms show ?thesis
    by (auto simp: stay_or_hold_def stop_def fail_def evidence_def result_of_def getj_def at_run_def detail_def)
next
  case True
  from assms [unfolded stay_or_hold_def if_P [OF True]] show ?thesis
  proof (cases rule: andthenE)
    case (early e)
    with store_op_Inl [OF early(1) [unfolded resolve_op_def]] show ?thesis by auto
  next
    case (on x u)
    have "run_status (ss_queue u) (rn_id row) ''held''" using resolve_op_settles [OF on(1)] by (simp add: RESOLVE_STATUS_def)
    with on(2) show ?thesis
      by (auto simp: stop_def fail_def evidence_def result_of_def getj_def at_run_def detail_def)
  qed
qed

lemma settle_landed_evidence:
  assumes "settle_landed h (rn_id row) tick hold l s = (Inl (Returned w), t)" and "landed_says h (ss_events s) row l"
  shows "evidence h row w t"
proof (cases l)
  case (Landed g)
  from assms(1) [unfolded settle_landed_def Landed landing.case] show ?thesis
  proof (cases rule: andthenE)
    case (early e)
    with store_op_Inl [OF early(1) [unfolded resolve_op_def]] show ?thesis by auto
  next
    case (on x u)
    have "run_status (ss_queue u) (rn_id row) ''resolved'' \<and> ss_events u = ss_events s @ [Store ''resolve_step_run'']"
      using resolve_op_settles [OF on(1)] by (simp add: RESOLVE_STATUS_def)
    with on(2) seen_landedI [OF assms(2)] Landed show ?thesis
      by (auto simp: stop_def fail_def evidence_def result_of_def getj_def at_run_def detail_def)
  qed
next
  case Nothing_landed
  from assms(1) [unfolded settle_landed_def Nothing_landed landing.case] show ?thesis
  proof (cases rule: andthenE)
    case (early e)
    with store_op_Inl [OF early(1) [unfolded resolve_op_def]] show ?thesis by auto
  next
    case (on x u)
    have "run_status (ss_queue u) (rn_id row) ''void'' \<and> ss_events u = ss_events s @ [Store ''resolve_step_run'']"
      using resolve_op_settles [OF on(1)] by (simp add: RESOLVE_STATUS_def)
    with on(2) seen_landedI [OF assms(2)] Nothing_landed show ?thesis
      by (auto simp: stop_def fail_def evidence_def result_of_def getj_def at_run_def detail_def)
  qed
next
  case Cannot_tell
  with assms(1) stay_or_hold_evidence show ?thesis by (auto simp: settle_landed_def)
qed

lemma read_landed_evidence:
  assumes "read_landed h row tick hold e st s = (Inl (Returned w), t)"
  shows "evidence h row w t"
proof (cases "map_of st ''proposal_id''")
  case None
  with assms show ?thesis by (simp add: read_landed_def fail_def)
next
  case (Some pp)
  let ?ctx = "setj (fields_of (getj st ''args'')) ''proposal_id'' pp"
  let ?settled = "\<lambda>r. case r of
            Answer parsed \<Rightarrow> andthen (or_crash (landed_resolve (xh_pr h) e (rn_baseline row) parsed ?ctx)) (settle_landed h (rn_id row) tick hold)
          | Other_error _ \<Rightarrow> fail Crashed
          | Cancelled \<Rightarrow> fail Stopped
          | Not_sent x \<Rightarrow> stay_or_hold h (rn_id row) tick hold (''the landed read failed: '' @ clip_text DETAIL_MAX x)
          | Outcome_unknown x \<Rightarrow> stay_or_hold h (rn_id row) tick hold (''the landed read failed: '' @ clip_text DETAIL_MAX x)
          | Call_failed x \<Rightarrow> stay_or_hold h (rn_id row) tick hold (''the landed read failed: '' @ clip_text DETAIL_MAX x)"
  from assms [unfolded read_landed_def Some option.case Let_def]
  have "andthen (or_crash (landed_request (xh_pr h) e ?ctx)) (\<lambda>(tool, a). andthen (call_out h Read (str_of tool) a) ?settled) s = (Inl (Returned w), t)" .
  moreover obtain tool a where req: "landed_request (xh_pr h) e ?ctx = Some (tool, a)"
    using calculation by (cases "landed_request (xh_pr h) e ?ctx") (auto simp: fail_def andthen_def)
  ultimately have "andthen (call_out h Read (str_of tool) a) ?settled s = (Inl (Returned w), t)"
    by (simp only: req andthen_give prod.case)
  then obtain r u where r: "r = xh_call h (ss_events s) (str_of tool) a" "u = s\<lparr>ss_events := ss_events s @ [Read (str_of tool) a]\<rparr>"
    and rest: "?settled r u = (Inl (Returned w), t)"
    by (cases rule: andthenE) (auto simp: call_out_def)
  show ?thesis
  proof (cases r)
    case (Answer parsed)
    then obtain l where l: "landed_resolve (xh_pr h) e (rn_baseline row) parsed ?ctx = Some l"
      "settle_landed h (rn_id row) tick hold l u = (Inl (Returned w), t)"
      using rest by (cases "landed_resolve (xh_pr h) e (rn_baseline row) parsed ?ctx") (auto simp: fail_def andthen_def)
    have "landed_says h (ss_events u) row l" unfolding landed_says_def using req r l(1) Answer
      by (intro exI [of _ e] exI [of _ ?ctx] exI [of _ tool] exI [of _ a] exI [of _ parsed] exI [of _ "ss_events s"]) simp
    with settle_landed_evidence [OF l(2)] show ?thesis by blast
  qed (use rest stay_or_hold_evidence in \<open>auto simp: fail_def\<close>)
qed

lemma settle_uncertain_evidence:
  assumes "settle_uncertain h row hold tick s = (Inl (Returned w), t)"
  shows "evidence h row w t"
proof (cases "is_cleanup (rn_step row)")
  case True
  from assms [unfolded settle_uncertain_def if_P [OF True]] show ?thesis
  proof (cases rule: andthenE)
    case (early e)
    with store_op_Inl [OF early(1) [unfolded resolve_op_def]] show ?thesis by auto
  next
    case (on x u)
    have "run_status (ss_queue u) (rn_id row) ''void''" using resolve_op_settles [OF on(1)] by (simp add: RESOLVE_STATUS_def)
    with on(2) True show ?thesis by (auto simp: stop_def fail_def evidence_def result_of_def getj_def detail_def)
  qed
next
  case False
  from assms [unfolded settle_uncertain_def if_not_P [OF False]] show ?thesis
  proof (cases rule: andthenE)
    case (early e)
    with store_op_Inl [OF early(1) [unfolded store_read_def]] show ?thesis by auto
  next
    case (on records u)
    from on(2) show ?thesis
    proof (cases rule: andthenE)
      case (early e)
      then show ?thesis
        by (auto simp: entry_of_step_def or_crash_def andthen_def give_def fail_def split: option.splits json.splits)
    next
      case (on e v)
      then show ?thesis using stay_or_hold_evidence read_landed_evidence by (auto split: option.splits)
    qed
  qed
qed

lemma stamp_or: "\<exists>y v. on_refusal (stamp h) (\<lambda>_. give k) u = (Inr y, v)"
proof (cases "xh_game h (ss_events u) ''overview.get''")
  case None
  then show ?thesis by (simp add: on_refusal_def stamp_def andthen_def game_read_def give_def fail_def)
next
  case (Some w)
  then show ?thesis
    by (cases "game_tick_from_overview w") (simp_all add: on_refusal_def stamp_def andthen_def game_read_def give_def fail_def)
qed

text \<open>These calls end by \<open>stop\<close> or by failing.\<close>

definition ends :: "'a call \<Rightarrow> bool" where
  "ends m \<longleftrightarrow> (\<forall>s. \<exists>e. fst (m s) = Inl e)"

lemma ends_andthen: "(\<And>x. ends (f x)) \<Longrightarrow> ends (andthen m f)"
  by (auto simp: ends_def andthen_def split: prod.splits sum.splits)

lemma ends_fail [simp]: "ends (fail e)" "ends (stop c kvs)"
  by (simp_all add: ends_def fail_def stop_def)

lemma ends_stay_or_hold [simp]: "ends (stay_or_hold h i tick hold why)"
  by (simp add: stay_or_hold_def ends_andthen)

lemma ends_settle_landed [simp]: "ends (settle_landed h i tick hold l)"
  by (simp add: settle_landed_def ends_andthen split: landing.splits)

lemma ends_read_landed [simp]: "ends (read_landed h row tick hold e st)"
  unfolding read_landed_def Let_def by (auto intro!: ends_andthen split: option.splits prod.splits reply.splits)

lemma settle_uncertain_no_Inr: "settle_uncertain h row hold tick v \<noteq> (Inr w, t)"
proof -
  have "ends (settle_uncertain h row hold tick)"
    unfolding settle_uncertain_def by (auto intro!: ends_andthen split: option.splits prod.splits)
  then show ?thesis by (auto simp: ends_def dest: spec [of _ v])
qed

text \<open>What a run may be settled as, and on what evidence.\<close>

lemma settled_on_evidence:
  assumes "call_resolve_uncertain h arguments s = (Inr w, t)"
  shows "\<exists>row (q :: queue). getj arguments ''run_id'' = JInt (int (rn_id row)) \<and> row \<in> set (q_runs q) \<and> rn_status row = ''issuing'' \<and> evidence h row w t"
proof -
  from assms [unfolded call_resolve_uncertain_def] obtain x where x: "Inr w = (case x of Inl (Returned w) \<Rightarrow> Inr w | _ \<Rightarrow> x)"
    and run: "(case (getj arguments ''run_id'', get_or arguments ''hold'' (JBool False)) of
        (JInt i, JBool hold) \<Rightarrow>
          if i < 1 then fail (Tool_error [''run_id must be a positive integer''])
          else andthen (store_op h ''get_step_run'' (\<lambda>_ q. case run_row_of q (nat i) of
              None \<Rightarrow> Refused [''no such step run''] | Some row \<Rightarrow> Ok (row, q))) (\<lambda>row.
            if rn_status row \<noteq> ''issuing'' then fail (Tool_error [''the run is not unresolved''])
            else andthen (on_refusal (stamp h) (\<lambda>_. give (rn_tick row))) (settle_uncertain h row hold))
      | (JInt i, _) \<Rightarrow> fail (Tool_error [if i < 1 then ''run_id must be a positive integer'' else ''hold must be true or false''])
      | _ \<Rightarrow> fail (Tool_error [''run_id must be a positive integer''])) s = (x, t)"
    by (rule returned_cases)
  then obtain i hold where a: "getj arguments ''run_id'' = JInt i" "\<not> i < 1"
    and "andthen (store_op h ''get_step_run'' (\<lambda>_ q. case run_row_of q (nat i) of
              None \<Rightarrow> Refused [''no such step run''] | Some row \<Rightarrow> Ok (row, q))) (\<lambda>row.
            if rn_status row \<noteq> ''issuing'' then fail (Tool_error [''the run is not unresolved''])
            else andthen (on_refusal (stamp h) (\<lambda>_. give (rn_tick row))) (settle_uncertain h row hold)) s = (x, t)"
    by (auto simp: fail_def split: json.splits if_splits)
  from this(3) show ?thesis
  proof (cases rule: andthenE)
    case (early e)
    with store_op_Inl [OF early(1)] x show ?thesis by auto
  next
    case (on row u)
    from store_op_Inr [OF on(1)] obtain q where row: "run_row_of q (nat i) = Some row" by (auto split: option.splits)
    from find_Some_in [OF row [unfolded run_row_of_def]] a have r: "row \<in> set (q_runs q)" "getj arguments ''run_id'' = JInt (int (rn_id row))" by auto
    from on(2) x have st: "rn_status row = ''issuing''" by (auto simp: fail_def split: if_splits)
    obtain tick v where "on_refusal (stamp h) (\<lambda>_. give (rn_tick row)) u = (Inr tick, v)" using stamp_or by blast
    with on(2) st have "settle_uncertain h row hold tick v = (x, t)" by (simp add: andthen_def)
    moreover from x have "x = Inr w \<or> x = Inl (Returned w)" by (auto split: sum.splits failure.splits)
    ultimately have "settle_uncertain h row hold tick v = (Inl (Returned w), t)" using settle_uncertain_no_Inr by metis
    from settle_uncertain_evidence [OF this] r st show ?thesis by blast
  qed
qed

subsection \<open>The classes of an answer\<close>

definition RUN_CLASSES :: "string list" where
  "RUN_CLASSES = [''not_runnable'', ''waiting'', ''needs_judgment'', ''transient'', ''uncertain'', ''failed'', ''success'']"

text \<open>The result a call stops with has one of these classes; so has the result it returns.\<close>

definition classed :: "obj \<Rightarrow> bool" where
  "classed w \<longleftrightarrow> getj w ''class'' \<in> JStr ` set RUN_CLASSES"

definition stops_well :: "failure \<Rightarrow> bool" where
  "stops_well e = (case e of Returned w \<Rightarrow> classed w | _ \<Rightarrow> True)"

definition stops_in :: "'a call \<Rightarrow> bool" where
  "stops_in m \<longleftrightarrow> (\<forall>s e t. m s = (Inl e, t) \<longrightarrow> stops_well e)"

definition returns_in :: "obj call \<Rightarrow> bool" where
  "returns_in m \<longleftrightarrow> stops_in m \<and> (\<forall>s w t. m s = (Inr w, t) \<longrightarrow> classed w)"

lemma stops_well_simps [simp]: "stops_well (Returned w) = classed w" "stops_well Crashed" "stops_well Stopped" "stops_well (Tool_error es)"
  by (simp_all add: stops_well_def)

named_theorems classes "calls whose result has a class of the list"

lemma stops_andthen [classes]: "stops_in m \<Longrightarrow> (\<And>x. stops_in (f x)) \<Longrightarrow> stops_in (andthen m f)"
  unfolding stops_in_def by (auto elim!: andthenE) blast+

lemma returns_andthen [classes]: "stops_in m \<Longrightarrow> (\<And>x. returns_in (f x)) \<Longrightarrow> returns_in (andthen m f)"
  unfolding returns_in_def using stops_andthen [of m f] by (auto elim!: andthenE)

lemma class_of_result [simp]: "classed (result_of c kvs) \<longleftrightarrow> c \<in> set RUN_CLASSES"
  by (auto simp: classed_def result_of_def getj_def)

lemma stops_stop [classes]: "c \<in> set RUN_CLASSES \<Longrightarrow> stops_in (stop c kvs)"
  by (auto simp: stops_in_def stop_def fail_def)

lemma returns_stop [classes]: "c \<in> set RUN_CLASSES \<Longrightarrow> returns_in (stop c kvs)"
  by (auto simp: returns_in_def stops_in_def stop_def fail_def)

lemma stops_basic [classes]: "stops_in (give x)" "stops_in (fail Crashed)" "stops_in (fail Stopped)" "stops_in (fail (Tool_error es))"
  "stops_in (or_crash y)" "stops_in (store_op h name f)" "stops_in (store_read h name g)" "stops_in (call_out h mk tool a)" "stops_in (game_read h name)"
  by (auto simp: stops_in_def give_def fail_def or_crash_def store_op_def store_read_def call_out_def game_read_def Let_def
      split: option.splits outcome.splits if_splits)

lemma returns_basic [classes]: "returns_in (fail Crashed)" "returns_in (fail Stopped)"
  "c \<in> set RUN_CLASSES \<Longrightarrow> returns_in (give (result_of c kvs))"
  by (auto simp: returns_in_def stops_in_def give_def fail_def)

lemma stops_rescue [classes]: "stops_in m \<Longrightarrow> stops_in g \<Longrightarrow> stops_in (rescue m g)"
  unfolding stops_in_def rescue_def by (auto split: prod.splits sum.splits failure.splits) (blast | metis stops_well_simps(1))+

lemma returns_rescue [classes]: "returns_in m \<Longrightarrow> returns_in g \<Longrightarrow> returns_in (rescue m g)"
  unfolding returns_in_def using stops_rescue [of m g] by (auto simp: rescue_def split: prod.splits sum.splits failure.splits)

lemma stops_on_refusal [classes]: "stops_in m \<Longrightarrow> (\<And>es. stops_in (g es)) \<Longrightarrow> stops_in (on_refusal m g)"
  unfolding stops_in_def on_refusal_def by (auto split: prod.splits sum.splits failure.splits) (blast | metis stops_well_simps(1))+

lemma RUN_CLASSES_mem [simp]:
  "c \<in> set RUN_CLASSES \<longleftrightarrow> c \<in> {''not_runnable'', ''waiting'', ''needs_judgment'', ''transient'', ''uncertain'', ''failed'', ''success''}"
  by (auto simp: RUN_CLASSES_def)

lemma stops_parts [classes]: "stops_in (need args k)" "stops_in (stamp h)" "stops_in (tripwire_latched h)" "stops_in (answered_or what r)"
  "stops_in (uncertain i why)" "returns_in (uncertain i why)"
  by (auto simp: need_def stamp_def tripwire_latched_def answered_or_def uncertain_def intro!: classes split: json.splits option.splits reply.splits)

lemma stops_record_attention [classes]: "stops_in (record_attention h pid sid text records)"
  by (auto simp: record_attention_def observed_blocked_def Let_def intro!: classes split: option.splits)

lemma returns_not_runnable [classes]: "returns_in (not_runnable h pid step reasons)"
  by (auto simp: not_runnable_def Let_def intro!: classes split: option.splits)

lemma stops_stages [classes]: "stops_in (dry_stage h pid sid records spec tool args ctx)"
  "stops_in (resolution_stage h pid sid records spec proposal dry)" "stops_in (baseline_stage h spec args ctx)"
  "stops_in (begin_op h pid sid tick b)" "stops_in (real_stage h i tick spec tool args ctx)"
  by (auto simp: dry_stage_def resolution_stage_def baseline_stage_def begin_op_def real_stage_def never_sent_def Let_def
      intro!: classes split: option.splits prod.splits reply.splits)

lemma returns_record_stage [classes]: "returns_in (record_stage h pid sid i spec tool out)"
  by (auto simp: record_stage_def record_success_def record_failure_def finish_op_def Let_def intro!: classes split: call_verdict.splits)

lemma returns_run_checked [classes]: "returns_in (run_checked h pid sid records st)"
  unfolding run_checked_def Let_def by (auto intro!: classes split: option.splits json.splits)

lemma run_step_class:
  assumes "run_step h arguments s = (Inr w, t)"
  shows "classed w"
proof -
  have "returns_in (andthen (need arguments ''project_id'') (\<lambda>pid. andthen (need arguments ''step_id'') (\<lambda>sid.
      andthen (tripwire_latched h) (\<lambda>latched.
      andthen (store_op h ''check_step_runnable'' (\<lambda>_ q. obind (runnable_reasons (xh_cf h) q pid sid latched) (\<lambda>es. Ok (es, q)))) (\<lambda>reasons.
      andthen (store_read h ''load'' q_records) (\<lambda>records.
        let step = find_step (plan_steps records pid) (JStr sid) in
        if reasons \<noteq> [] then not_runnable h pid step reasons
        else (case step of None \<Rightarrow> fail Crashed | Some st \<Rightarrow> run_checked h pid sid records st)))))))" (is "returns_in ?m")
    unfolding Let_def by (auto intro!: classes split: option.splits)
  moreover from assms [unfolded run_step_def] obtain x where "?m s = (x, t)" "Inr w = (case x of Inl (Returned w) \<Rightarrow> Inr w | _ \<Rightarrow> x)"
    by (rule returned_cases)
  ultimately show ?thesis
    unfolding returns_in_def stops_in_def by (fastforce split: sum.splits failure.splits)
qed

subsection \<open>The plan the executor reads\<close>

lemma fold_last:
  "fold (\<lambda>r acc. if P r then f r else acc) rs st = (if filter P rs = [] then st else f (last (filter P rs)))"
  by (induction rs arbitrary: st) auto

lemma items_or_empty [simp]: "items_of (or_empty v) = items_of v"
  by (cases v) (auto simp: or_empty_def items_of_def)

text \<open>\<open>executor_run.current_steps\<close> and the store's plan of a project are two codes; they agree.\<close>

lemma plan_agrees:
  assumes "reachable cf q" and "p \<in> set (q_records q)" and "is_kind ''project'' p" and "getj p ''id'' = JStr pid"
  shows "plan_steps (q_records q) pid = current_steps q p"
proof -
  let ?P = "\<lambda>r. is_kind ''project'' r \<and> getj r ''id'' = JStr pid"
  have "filter ?P (q_records q) = [p]"
  proof -
    have "inj_on (\<lambda>r. getj r ''id'') (set (q_records q))" "distinct (q_records q)"
      using reachable_distinct_ids [OF assms(1)] by (simp_all add: distinct_map)
    moreover then have "set (filter ?P (q_records q)) = {p}"
      using assms(2-4) by (auto simp: inj_on_def)
    moreover have "xs = [p]" if "distinct xs" "set xs = {p}" for xs :: "obj list"
      using that distinct_card [OF that(1)] by (cases xs) (auto simp: subset_insert)
    ultimately show ?thesis using distinct_filter [of "q_records q" ?P] by blast
  qed
  moreover have "amends_for_project q (JStr pid) = filter (\<lambda>r. is_kind ''amend'' r \<and> getj r ''project_id'' = JStr pid) (q_records q)"
    by (simp add: amends_for_project_def naming_def of_kind_def conj_commute)
  ultimately show ?thesis
    by (simp add: plan_steps_def Let_def fold_last current_steps_def current_steps_and_version_def assms(4))
qed

subsection \<open>One real call of a session\<close>

lemma is_real_Real [simp]: "is_real (Real tool a)"
  by (simp add: is_real_def)

lemma real_not_moves:
  assumes "fair_others h" and "ss_events t = ss_events s @ es" and "Real tool a \<in> set es"
  shows "\<not> moves h s t"
  using assms is_real_Real by (fastforce simp: moves_def)

lemma only_real:
  assumes "Real tool a \<in> set (xs @ Real tool' a' # ys)" and "\<forall>e \<in> set (xs @ ys). \<not> is_real e"
  shows "tool' = tool \<and> a' = a"
proof -
  have "Real tool a \<notin> set (xs @ ys)" using assms(2) is_real_Real by blast
  with assms(1) show ?thesis by auto
qed

lemma named_unique: "named arguments k v \<Longrightarrow> named arguments k w \<Longrightarrow> v = w"
  by (auto simp: named_def)

lemma sent_licensed:
  assumes "run_step h arguments s = (r, t)" and "fair_others h" and "reachable (xh_cf h) (ss_queue s)"
    and "ss_events t = ss_events s @ es" and "Real tool a \<in> set es"
  shows "\<exists>pid sid q now tick b i q' es1 es2. named arguments ''project_id'' pid \<and> named arguments ''step_id'' sid \<and>
    reachable (xh_cf h) q \<and> begin_step_run (xh_cf h) now q pid sid tick b = Ok (i, q') \<and>
    (\<not> is_cleanup sid \<longrightarrow> may_run (xh_cf h) q pid sid) \<and>
    es = es1 @ [Store ''begin_step_run'', Real tool a] @ es2 \<and> (\<forall>e \<in> set (es1 @ es2). \<not> is_real e)"
  using assms(1,2)
proof (cases rule: run_step_sends)
  case quiet
  with real_not_moves [OF assms(2,4,5)] show ?thesis by simp
next
  case (sent pid sid tool' a')
  from sent(3) obtain now q q' i tick b es1 es2 where q: "(qstep (xh_cf h))\<^sup>*\<^sup>* (ss_queue s) q"
    "begin_step_run (xh_cf h) now q pid sid tick b = Ok (i, q')" "es = es1 @ [Store ''begin_step_run'', Real tool' a'] @ es2"
    "\<forall>e \<in> set (es1 @ es2). \<not> is_real e" using assms(4) by (auto simp: sends_def)
  have r: "reachable (xh_cf h) q" using reachable_qsteps [OF assms(3) q(1)] .
  have "tool' = tool \<and> a' = a" using only_real [of tool a "es1 @ [Store ''begin_step_run'']" tool' a' es2] assms(5) q(3,4)
    by (simp add: is_real_def)
  moreover have "may_run (xh_cf h) q pid sid" if "\<not> is_cleanup sid"
  proof (rule runnable_may_run [OF _ r])
    show "runnable_reasons (xh_cf h) q pid sid False = Ok []" using begin_Ok [OF q(2)] that by simp
  qed
  ultimately show ?thesis using sent(1,2) q r by blast
qed

lemma sent_rehearsed:
  assumes "run_step h arguments s = (r, t)" and "fair_others h" and "ss_events t = ss_events s @ es" and "Real tool a \<in> set es"
    and "spec_of h tool = Some (Some spec)" and "sx_dry_run spec"
  shows "\<exists>b es1 es2 es3 dry. a = setj b DRY_RUN_ARG (JStr ''false'') \<and>
    es = es1 @ [Dry tool (setj b DRY_RUN_ARG (JStr ''true''))] @ es2 @ [Real tool a] @ es3 \<and>
    xh_call h (ss_events s @ es1) tool (setj b DRY_RUN_ARG (JStr ''true'')) = Answer dry \<and> judge (xh_pr h) spec dry True = Passed"
proof -
  from run_step_rehearsed [OF assms(1,2) real_not_moves [OF assms(2-4)]] obtain tool' spec' b a' es1 es2 es3
    where ev: "ss_events t = ss_events s @ es1 @ es2 @ [Real tool' a'] @ es3" "\<forall>e \<in> set (es1 @ es2 @ es3). \<not> is_real e"
      and sp: "spec_of h tool' = Some (Some spec')"
      and d: "sx_dry_run spec' \<longrightarrow> a' = setj b DRY_RUN_ARG (JStr ''false'') \<and> (\<exists>es dry. es2 = Dry tool' (setj b DRY_RUN_ARG (JStr ''true'')) # es \<and>
       xh_call h (ss_events s @ es1) tool' (setj b DRY_RUN_ARG (JStr ''true'')) = Answer dry \<and> judge (xh_pr h) spec' dry True = Passed)" by blast
  have "es = (es1 @ es2) @ Real tool' a' # es3" using assms(3) ev(1) by simp
  with assms(4) ev(2) have "tool' = tool \<and> a' = a" by (intro only_real [of tool a "es1 @ es2" tool' a' es3]) simp_all
  with sp assms(5,6) d obtain es4 dry where "a = setj b DRY_RUN_ARG (JStr ''false'')" "es2 = Dry tool (setj b DRY_RUN_ARG (JStr ''true'')) # es4"
    "xh_call h (ss_events s @ es1) tool (setj b DRY_RUN_ARG (JStr ''true'')) = Answer dry" "judge (xh_pr h) spec dry True = Passed"
    "tool' = tool" "a' = a" by auto
  with ev assms(3) show ?thesis
    by (intro exI [of _ b] exI [of _ es1] exI [of _ es4] exI [of _ es3] exI [of _ dry]) simp
qed

lemma unanswered_then:
  assumes "run_step h arguments s = (r, t)" and "fair_others h" and "others_keep h" and "reachable (xh_cf h) (ss_queue s)"
    and "ss_events t = ss_events s @ es" and "Real tool a \<in> set es" and "class_of r \<notin> {''success'', ''failed'', ''transient''}"
    and "named arguments ''step_id'' sid" and "\<not> is_cleanup sid" and "run_step h arguments t = (r', t')"
  shows "\<exists>es'. ss_events t' = ss_events t @ es' \<and> (\<forall>e \<in> set es'. \<not> is_real e)"
proof -
  from sent_on_record [OF assms(1-4) real_not_moves [OF assms(2,5,6)] assms(8,9)] obtain row
    where row: "row \<in> set (q_runs (ss_queue t))" "named arguments ''project_id'' (rn_project row)" "rn_step row = sid" "told (class_of r) row" by blast
  with assms(7) have u: "unresolved row" by (auto simp: told_def unresolved_def)
  have "reachable (xh_cf h) (ss_queue t)"
    using assms(1,2)
  proof (cases rule: run_step_sends)
    case quiet
    then show ?thesis using assms(2,4) reachable_qsteps by (auto elim: movesD)
  next
    case (sent pid sid tool a)
    then obtain now q q' i tick b where q: "(qstep (xh_cf h))\<^sup>*\<^sup>* (ss_queue s) q"
      "begin_step_run (xh_cf h) now q pid sid tick b = Ok (i, q')" "(qstep (xh_cf h))\<^sup>*\<^sup>* q' (ss_queue t)" by (auto simp: sends_def)
    from q_begin [OF q(2)] q(1,3) have "(qstep (xh_cf h))\<^sup>*\<^sup>* (ss_queue s) (ss_queue t)"
      by (meson rtranclp.rtrancl_into_rtrancl rtranclp_trans)
    then show ?thesis by (rule reachable_qsteps [OF assms(4)])
  qed
  from no_second_call [OF assms(10,2,3) this row(1) u row(2)] row(3) assms(8,9) have "moves h t t'" by simp
  with assms(2) show ?thesis by (auto elim: movesD)
qed

end
