(* ===== verification/Action_Facts.thy ===== *)
theory Action_Facts
  imports Action_Data
begin

section \<open>What an action's declared data decides\<close>

text \<open>
  Verdicts read the flag the output echoes, so the output of a dry run never passes as that of a real call; a read taken
  before a call and the same read after it tell what landed; an accepted list of phases applies each phase once.
\<close>

subsection \<open>Verdicts\<close>

lemma echo_check_not_Passed: "echo_check pr spec r dry \<noteq> Some Passed"
  by (simp add: echo_check_def split: option.splits)

lemma judge_PassedD:
  assumes "judge pr spec out dry = Passed"
  obtains r where "out = JObj r" "echo_check pr spec r dry = None" "refusal (sx_verdict spec) out = None"
    "find (not_true out) (ok_paths (sx_verdict spec) dry) = None"
    "filter (\<lambda>p. get_path out p = None) (ok_paths (sx_verdict spec) dry) = []"
  using assms echo_check_not_Passed by (auto simp: judge_def judge_fields_def Let_def split: option.splits json.splits if_splits)

lemma echo_check_None:
  "echo_check pr spec r dry = None \<Longrightarrow> sx_echo spec \<noteq> [] \<Longrightarrow> get_path (JObj r) (sx_echo spec) = Some (JBool dry)"
  by (auto simp: echo_check_def split: if_splits option.splits)

lemma passed_fields_true:
  assumes "judge pr spec out dry = Passed" and "p \<in> set (ok_paths (sx_verdict spec) dry)"
  shows "get_path out p = Some (JBool True)"
proof -
  from assms(1) obtain r where "find (not_true out) (ok_paths (sx_verdict spec) dry) = None"
    "filter (\<lambda>p. get_path out p = None) (ok_paths (sx_verdict spec) dry) = []" by (rule judge_PassedD)
  with assms(2) have "\<not> not_true out p" "get_path out p \<noteq> None" by (auto simp: find_None_iff filter_empty_conv)
  then show ?thesis by (auto simp: not_true_def)
qed

lemma passed_not_refused:
  assumes "judge pr spec out dry = Passed"
  shows "\<forall>p \<in> set (paths_at (sx_verdict spec) ''refused_if_true''). \<not> path_true out p"
    "\<forall>p \<in> set (paths_at (sx_verdict spec) ''refused_if_present''). \<not> path_present out p"
proof -
  from assms obtain r where "refusal (sx_verdict spec) out = None" by (rule judge_PassedD)
  then show "\<forall>p \<in> set (paths_at (sx_verdict spec) ''refused_if_true''). \<not> path_true out p"
    "\<forall>p \<in> set (paths_at (sx_verdict spec) ''refused_if_present''). \<not> path_present out p"
    by (auto simp: refusal_def find_None_iff split: option.splits)
qed

lemma nonempty_str_of: "nonempty_str v \<Longrightarrow> str_of v \<noteq> []"
  by (auto elim: nonempty_strE)

lemma parse_spec_echo:
  assumes "parse_spec tid raw dr = Some spec"
  shows "sx_echo spec \<noteq> [] \<and> sx_dry_run spec \<and> dr"
  using assms nonempty_str_of
  by (cases raw) (auto simp: parse_spec_def bind_eq_Some_conv split: if_splits)

lemma echo_tells:
  assumes "sx_echo spec \<noteq> []" and "judge pr spec out dry = Passed"
  shows "get_path out (sx_echo spec) = Some (JBool dry)"
  using assms(2) by (rule judge_PassedD) (use echo_check_None [OF _ assms(1)] in blast)

subsection \<open>What landed\<close>

definition matches_row :: "obj \<Rightarrow> string \<Rightarrow> obj \<Rightarrow> bool" where
  "matches_row e suffix r \<longleftrightarrow> (case getj r (str_of (getj (fields_of (getj e ''match'')) ''field'')) of
     JStr v \<Rightarrow> ends_with v suffix | _ \<Rightarrow> False)"

definition handles_of :: "(json \<Rightarrow> string) \<Rightarrow> obj \<Rightarrow> json list \<Rightarrow> string set" where
  "handles_of pr e rows = (\<lambda>r. row_handle pr e (fields_of r)) ` {r \<in> set rows. is_obj r}"

lemma baseline_handles:
  assumes "landed_rows e before = Some rows" and "getj e ''kind'' = JStr ''new_row''" and "landed_baseline pr e before ctx = Some b"
  shows "\<exists>base. b = JObj base \<and> (\<forall>h. JStr h \<in> set (items_of (or_empty (getj base ''handles''))) \<longleftrightarrow> h \<in> handles_of pr e rows)"
proof -
  let ?hs = "sort (map (\<lambda>r. row_handle pr e (fields_of r)) (filter is_obj rows))"
  have "b = JObj [(''handles'', JArr (map JStr ?hs))]"
    using assms by (simp add: landed_baseline_def)
  moreover have "items_of (or_empty (JArr (map JStr ?hs))) = map JStr ?hs"
    by (cases ?hs) (simp_all add: or_empty_def)
  ultimately show ?thesis by (auto simp: getj_def handles_of_def image_iff)
qed

text \<open>The rows of the later read whose handle was not there before and which match.\<close>

lemma landed_new_rows:
  assumes "landed_rows e before = Some rows" and "getj e ''kind'' = JStr ''new_row''" and "landed_baseline pr e before ctx = Some b"
    and "landed_rows e later = Some rows'" and "substitute pr ctx (getj (fields_of (getj e ''match'')) ''ends_with'') = Some suffix"
  shows "landed_resolve pr e b later ctx = Some
    (case filter (\<lambda>r. row_handle pr e r \<notin> handles_of pr e rows \<and> matches_row e (py_str pr suffix) r) (map fields_of (filter is_obj rows')) of
       [] \<Rightarrow> Nothing_landed | [r] \<Rightarrow> Landed (row_handle pr e r) | _ \<Rightarrow> Cannot_tell)"
proof -
  from baseline_handles [OF assms(1-3)] obtain base where b: "b = JObj base"
    and hs: "\<And>h. JStr h \<in> set (items_of (or_empty (getj base ''handles''))) \<longleftrightarrow> h \<in> handles_of pr e rows" by blast
  have m: "matches_row e t r = (is_str (getj r (str_of (getj (fields_of (getj e ''match'')) ''field''))) \<and>
    ends_with (str_of (getj r (str_of (getj (fields_of (getj e ''match'')) ''field'')))) t)" for t r
    by (auto simp: matches_row_def is_str_def split: json.splits)
  show ?thesis
    using assms(2,4,5) by (simp add: landed_resolve_def b landed_new_row_def new_rows_def hs m Let_def)
qed

lemma unchanged_read_landed_nothing:
  assumes "landed_rows e before = Some rows" and "getj e ''kind'' = JStr ''new_row''" and "landed_baseline pr e before ctx = Some b"
    and "substitute pr ctx (getj (fields_of (getj e ''match'')) ''ends_with'') = Some suffix"
  shows "landed_resolve pr e b before ctx = Some Nothing_landed"
proof -
  have "filter (\<lambda>r. row_handle pr e r \<notin> handles_of pr e rows \<and> matches_row e (py_str pr suffix) r) (map fields_of (filter is_obj rows)) = []"
    by (auto simp: filter_empty_conv handles_of_def)
  with landed_new_rows [OF assms(1-3) assms(1) assms(4)] show ?thesis by simp
qed

lemma one_new_row_landed:
  assumes "landed_rows e before = Some rows" and "getj e ''kind'' = JStr ''new_row''" and "landed_baseline pr e before ctx = Some b"
    and "substitute pr ctx (getj (fields_of (getj e ''match'')) ''ends_with'') = Some suffix"
    and "landed_rows e later = Some (xs @ JObj r # ys)" and "set rows = set (xs @ ys)"
    and "row_handle pr e r \<notin> handles_of pr e rows" and "matches_row e (py_str pr suffix) r"
  shows "landed_resolve pr e b later ctx = Some (Landed (row_handle pr e r))"
proof -
  have "\<forall>x \<in> set (xs @ ys). is_obj x \<longrightarrow> row_handle pr e (fields_of x) \<in> handles_of pr e rows"
    using assms(6) by (auto simp: handles_of_def)
  then have "filter (\<lambda>r. row_handle pr e r \<notin> handles_of pr e rows \<and> matches_row e (py_str pr suffix) r) (map fields_of (filter is_obj zs)) = []"
    if "set zs \<subseteq> set (xs @ ys)" for zs using that by (auto simp: filter_empty_conv)
  then have "filter (\<lambda>r. row_handle pr e r \<notin> handles_of pr e rows \<and> matches_row e (py_str pr suffix) r)
      (map fields_of (filter is_obj (xs @ JObj r # ys))) = [r]"
    using assms(7,8) by (simp add: is_obj_def)
  with landed_new_rows [OF assms(1-3,5,4)] show ?thesis by simp
qed

subsection \<open>Declared phases\<close>

definition apart :: "(string \<times> string list) list \<Rightarrow> string \<Rightarrow> string \<Rightarrow> bool" where
  "apart plan a b \<longleftrightarrow> a = b \<or> phase_leaves plan a \<inter> phase_leaves plan b = {}"

lemma phase_pairs_Nil: "phase_pairs plan ls = [] \<longleftrightarrow> sorted_wrt (apart plan) ls"
  by (induction ls) (auto simp: phase_twice_def only_if_def apart_def split: if_splits)

definition listed_phases :: "string list \<Rightarrow> string option \<Rightarrow> string list" where
  "listed_phases declared first = declared @ (case first of Some (c # cs) \<Rightarrow> [c # cs] | _ \<Rightarrow> [])"

text \<open>How many phases of the list apply the leaf.\<close>

definition times_applied :: "(string \<times> string list) list \<Rightarrow> string list \<Rightarrow> string \<Rightarrow> nat" where
  "times_applied plan ls x = length (filter (\<lambda>l. x \<in> phase_leaves plan l) ls)"

lemma declared_once:
  assumes "check_declared_phases plan declared first = []" and "distinct (listed_phases declared first)"
  shows "times_applied plan (listed_phases declared first) x \<le> 1"
proof -
  have "length (filter (\<lambda>l. x \<in> phase_leaves plan l) ls) \<le> 1" if "sorted_wrt (apart plan) ls" "distinct ls" for ls
    using that
  proof (induction ls)
    case (Cons a ls)
    have "filter (\<lambda>l. x \<in> phase_leaves plan l) ls = []" if "x \<in> phase_leaves plan a"
      using that Cons.prems by (auto simp: filter_empty_conv apart_def)
    with Cons show ?case by auto
  qed simp
  moreover have "sorted_wrt (apart plan) (listed_phases declared first)"
    using assms(1) by (simp add: check_declared_phases_def listed_phases_def Let_def phase_pairs_Nil)
  ultimately show ?thesis using assms(2) by (simp add: times_applied_def)
qed

lemma declared_known_and_ordered:
  assumes "check_declared_phases plan declared first = []"
  shows "set declared \<subseteq> fst ` set plan \<and> sorted (map (index_of (map fst plan)) declared)"
proof -
  from assms have a: "set declared \<subseteq> set (map fst plan)"
    by (auto simp: check_declared_phases_def Let_def only_if_def split: if_splits)
  then have "filter (\<lambda>n. n \<in> set (map fst plan)) declared = declared" by (auto simp: filter_id_conv)
  with assms a show ?thesis by (auto simp: check_declared_phases_def Let_def only_if_def split: if_splits)
qed

text \<open>A first phase that is listed as well is not noticed.\<close>

lemma first_listed_unseen:
  assumes "check_declared_phases plan declared None = []" and "f \<in> set declared" and "f \<noteq> []"
  shows "check_declared_phases plan declared (Some f) = [] \<and>
    (\<forall>x \<in> phase_leaves plan f. times_applied plan (listed_phases declared (Some f)) x \<ge> 2)"
proof -
  obtain c cs where f: "f = c # cs" using assms(3) by (cases f) auto
  have p: "sorted_wrt (apart plan) declared" using assms(1) by (simp add: check_declared_phases_def Let_def phase_pairs_Nil)
  have "apart plan y f" if "sorted_wrt (apart plan) ls" "y \<in> set ls" "f \<in> set ls" for y ls
    using that by (induction ls) (auto simp: apart_def)
  with p assms(2) have "phase_pairs plan (declared @ [f]) = []"
    by (auto simp: phase_pairs_Nil sorted_wrt_append)
  then have "check_declared_phases plan declared (Some f) = []"
    using assms(1) declared_known_and_ordered [OF assms(1)] by (simp add: check_declared_phases_def Let_def f)
  moreover have "times_applied plan (listed_phases declared (Some f)) x \<ge> 2" if "x \<in> phase_leaves plan f" for x
  proof -
    have "filter (\<lambda>l. x \<in> phase_leaves plan l) declared \<noteq> []" using assms(2) that by (auto simp: filter_empty_conv)
    then show ?thesis using that by (cases "filter (\<lambda>l. x \<in> phase_leaves plan l) declared") (auto simp: times_applied_def listed_phases_def f)
  qed
  ultimately show ?thesis by blast
qed

end
