(* ===== verification/Call_Runs.thy ===== *)
theory Call_Runs
  imports Call_Outcomes Action_Facts Fort_Days
begin

section \<open>Calls on the deployed queue\<close>

text \<open>
  Hosts for the queue of \<open>Fort\<close>: \<open>well.build\<close> with its execution data, a game that answers, and nobody else at work.
  \<open>well_host\<close> takes the reply of the real call as an argument.
\<close>

definition well_tool :: reg_tool where
  "well_tool = \<lparr>rt_id = ''well.build'', rt_args = [''<landmark>'', ''[dry_run]''],
     rt_execution = JObj [(''verdict'', JObj [(''ok'', JStr ''ok''), (''reason'', JStr ''error'')]), (''dry_run_echo'', JStr ''dry_run''),
       (''issues_handle'', JStr ''building''), (''landed'', JArr [JObj [(''kind'', JStr ''new_row''),
          (''read'', JObj [(''tool'', JStr ''well.list''), (''rows'', JStr ''wells'')]), (''handle_field'', JStr ''building''),
          (''match'', JObj [(''field'', JStr ''name''), (''ends_with'', JStr ''$landmark'')])]])]\<rparr>"

definition is_dry :: "obj \<Rightarrow> bool" where
  "is_dry args = (getj args ''dry_run'' = JStr ''true'')"

definition well_done :: "bool \<Rightarrow> json" where
  "well_done dry = JObj ([(''ok'', JBool True), (''dry_run'', JBool dry)] @ (if dry then [] else [(''building'', JStr ''building-12'')]))"

text \<open>Before the real call no well is listed, after it one.\<close>

definition well_row :: json where
  "well_row = JObj [(''building'', JStr ''building-12''), (''name'', JStr ''the dining hall'')]"

definition wells :: "xevent list \<Rightarrow> json" where
  "wells tr = JObj [(''wells'', JArr (if list_ex is_real tr then [well_row] else []))]"

definition well_host :: "reply \<Rightarrow> host" where
  "well_host reply = \<lparr>xh_cf = uniboslan, xh_pr = (\<lambda>_. ''value''), xh_search = (\<lambda>_ _. False), xh_tools = [well_tool], xh_refs = [],
     xh_call = (\<lambda>tr tool args. if tool = ''well.list'' then Answer (wells tr) else if is_dry args then Answer (well_done True) else reply),
     xh_game = (\<lambda>_ name. Some (if name = ''overview.get'' then JObj [(''tier2'', JObj [(''in_game_date'', JStr ''year 0, tick 1100'')])] else JObj [])),
     xh_now = (\<lambda>_. clock), xh_fails = (\<lambda>_. False), xh_others = (\<lambda>_ q. q)\<rparr>"

definition step_1 :: obj where
  "step_1 = [(''project_id'', JStr ''project-0001''), (''step_id'', JStr ''project-0001/s1'')]"

definition at_opened :: session where
  "at_opened = \<lparr>ss_queue = opened, ss_events = []\<rparr>"

lemma others_idle: "fair_others (well_host r)" "others_keep (well_host r)"
  by (simp_all add: fair_others_def others_keep_def well_host_def)

lemma host_config [simp]: "xh_cf (well_host r) = uniboslan"
  by (simp add: well_host_def)

definition built :: "(failure + obj) \<times> session" where
  "built = run_step (well_host (Answer (well_done False))) step_1 at_opened"

lemma built_run: "map_prod id ss_events built = (Inr [(''class'', JStr ''success''), (''run_id'', JInt 1), (''executed_id'', JStr ''executed-0001''),
      (''handle'', JStr ''building-12''), (''detail'', JStr ''well.build issued building-12'')],
    [Game ''clock.status'', Store ''check_step_runnable'', Store ''load'',
    Dry ''well.build'' [(''landmark'', JStr ''dining hall''), (''dry_run'', JStr ''true'')],
    Read ''well.list'' [], Game ''overview.get'', Store ''begin_step_run'',
    Real ''well.build'' [(''landmark'', JStr ''dining hall''), (''dry_run'', JStr ''false'')], Store ''finish_step_run''])"
  by code_simp

text \<open>The connection is lost during the call.\<close>

definition lost_host :: host where
  "lost_host = well_host (Outcome_unknown ''timeout'')"

definition lost :: "(failure + obj) \<times> session" where
  "lost = run_step lost_host step_1 at_opened"

lemma lost_run: "map_prod id ss_events lost = (Inr [(''class'', JStr ''uncertain''), (''run_id'', JInt 1),
      (''detail'', JStr ''the call may have run: timeout'')],
    [Game ''clock.status'', Store ''check_step_runnable'', Store ''load'',
    Dry ''well.build'' [(''landmark'', JStr ''dining hall''), (''dry_run'', JStr ''true'')],
    Read ''well.list'' [], Game ''overview.get'', Store ''begin_step_run'',
    Real ''well.build'' [(''landmark'', JStr ''dining hall''), (''dry_run'', JStr ''false'')]])"
  by code_simp

text \<open>The landed read finds the well.\<close>

definition found :: "(failure + obj) \<times> session" where
  "found = call_resolve_uncertain lost_host [(''run_id'', JInt 1), (''hold'', JBool True)] (snd lost)"

lemma found_answer: "fst found = Inr [(''class'', JStr ''success''), (''handle'', JStr ''building-12''), (''run_id'', JInt 1),
    (''detail'', JStr ''it landed: building-12'')]"
  by code_simp

lemma at_opened_reachable: "reachable uniboslan (ss_queue at_opened)"
  by (simp add: at_opened_def day_reachable)

lemma step_1_named: "named step_1 ''project_id'' ''project-0001''" "named step_1 ''step_id'' ''project-0001/s1''"
  by (simp_all add: named_def step_1_def getj_def, code_simp+)

lemma step_1_no_cleanup: "\<not> is_cleanup ''project-0001/s1''"
  by code_simp

definition well_spec :: exec_spec where
  "well_spec = the (parse_spec ''well.build'' (rt_execution well_tool) True)"

lemma well_spec_of: "spec_of (well_host reply) ''well.build'' = Some (Some well_spec)" "sx_dry_run well_spec"
  by code_simp+

lemma at_opened_events: "ss_events at_opened = []"
  by (simp add: at_opened_def)

lemma host_printer: "xh_pr (well_host reply) = (\<lambda>_. ''value'')"
  by (simp add: well_host_def)

lemma well_called:
  "Real ''well.build'' [(''landmark'', JStr ''dining hall''), (''dry_run'', JStr ''false'')] \<in> set (ss_events (snd built))"
  "Real ''well.build'' [(''landmark'', JStr ''dining hall''), (''dry_run'', JStr ''false'')] \<in> set (ss_events (snd lost))"
  using arg_cong [OF built_run, of snd] arg_cong [OF lost_run, of snd] by (simp_all add: map_prod_def split_beta)

lemma built_calls:
  "run_step (well_host (Answer (well_done False))) step_1 at_opened = (fst built, snd built)"
  by (simp add: built_def)

lemma lost_calls: "run_step lost_host step_1 at_opened = (fst lost, snd lost)" "class_of (fst lost) = ''uncertain''"
proof -
  show "run_step lost_host step_1 at_opened = (fst lost, snd lost)" by (simp add: lost_def)
  show "class_of (fst lost) = ''uncertain''"
    using arg_cong [OF lost_run, of fst] by (simp add: map_prod_def split_beta class_of_def getj_def)
qed

lemma lost_result: "fst lost = Inr (projr (fst lost))"
  using arg_cong [OF lost_run, of fst] by (simp add: map_prod_def split_beta)

lemma lost_others: "fair_others lost_host" "others_keep lost_host" "reachable (xh_cf lost_host) (ss_queue at_opened)"
  by (simp_all add: lost_host_def others_idle day_reachable at_opened_def)

lemma found_call: "call_resolve_uncertain lost_host [(''run_id'', JInt 1), (''hold'', JBool True)] (snd lost) =
  (Inr [(''class'', JStr ''success''), (''handle'', JStr ''building-12''), (''run_id'', JInt 1),
    (''detail'', JStr ''it landed: building-12'')], snd found)"
  using found_answer by (metis found_def prod.collapse)

text \<open>The landed declaration of the tool, read before and after the call.\<close>

definition well_entry :: obj where
  "well_entry = [(''kind'', JStr ''new_row''), (''read'', JObj [(''tool'', JStr ''well.list''), (''rows'', JStr ''wells'')]),
     (''handle_field'', JStr ''building''), (''match'', JObj [(''field'', JStr ''name''), (''ends_with'', JStr ''$landmark'')])]"

definition well_args :: obj where
  "well_args = [(''landmark'', JStr ''dining hall'')]"

definition well_before :: json where
  "well_before = JObj [(''handles'', JArr [])]"

lemma wells_reads:
  "landed_rows well_entry (wells []) = Some []" "getj well_entry ''kind'' = JStr ''new_row''"
  "landed_baseline (\<lambda>_. []) well_entry (wells []) well_args = Some well_before"
  "substitute (\<lambda>_. []) well_args (getj (fields_of (getj well_entry ''match'')) ''ends_with'') = Some (JStr ''dining hall'')"
  "landed_rows well_entry (wells [Real ''well.build'' []]) = Some ([] @ JObj (fields_of well_row) # [])"
  by code_simp+

lemma wells_after: "row_handle (\<lambda>_. []) well_entry (fields_of well_row) = ''building-12''"
  "handles_of (\<lambda>_. []) well_entry [] = {}" "matches_row well_entry (py_str (\<lambda>_. []) (JStr ''dining hall'')) (fields_of well_row)"
  by (simp add: handles_of_def | code_simp)+

lemma well_spec_parsed: "parse_spec ''well.build'' (rt_execution well_tool) True = Some well_spec"
  by code_simp

lemma well_dry_passed: "judge (\<lambda>_. []) well_spec (well_done True) True = Passed"
  by code_simp

text \<open>A template with a meta phase.\<close>

definition house_plan :: "(string \<times> string list) list" where
  "house_plan = [(''shell'', []), (''beds'', []), (''doors'', []), (''rooms'', [''beds'', ''doors''])]"

lemma house_checks: "check_declared_phases house_plan [''rooms''] (Some ''shell'') = []" "distinct (listed_phases [''rooms''] (Some ''shell''))"
  by (simp add: listed_phases_def check_declared_phases_def house_plan_def phase_twice_def phase_leaves_def only_if_def Let_def
      | simp add: listed_phases_def)+

end
