(* ===== verification/Registry.thy ===== *)
theory Registry
  imports Action_Data Duplicates
begin

section \<open>The registry of tools\<close>

text \<open>
  \<open>dfmcp/registry.py\<close>: the manifest \<open>TOOLS.yaml\<close>, as a parsed mapping, becomes the table of the tools with their
  canonical ids, or is refused. A \<open>RegistryError\<close> is \<open>Refused\<close>, any other exception \<open>Raised\<close>; the table is the
  list of its entries in order. Fields of a tool that are only shown (notes, summary, the guide's text) are left
  out; the guide is checked. The lemmas say what a loaded registry satisfies.
\<close>

record tool_entry = reg_tool +
  te_script :: string
  te_mutates :: bool
  te_scope :: json
  te_skippable :: "string list"
  te_defaults :: "(string \<times> string) list"
  te_native :: bool
  te_sole_writer_only :: bool
  te_executor_only :: bool

definition tool_of :: "tool_entry list \<Rightarrow> string \<Rightarrow> tool_entry option" where
  "tool_of reg tid = find (\<lambda>t. rt_id t = tid) reg"

definition registry_ids :: "tool_entry list \<Rightarrow> string list" where
  "registry_ids reg = map rt_id reg"

subsection \<open>Names and signatures\<close>

definition drop_suffix :: "string \<Rightarrow> string \<Rightarrow> string" where
  "drop_suffix s suf = (if ends_with s suf then take (length s - length suf) s else s)"

definition script_short_name :: "string \<Rightarrow> string" where
  "script_short_name f = (let n = drop_suffix f ''.lua'' in
     if starts_with n ''df-overseer-'' then drop (length ''df-overseer-'') n else n)"

definition ascii_letter :: "char \<Rightarrow> bool" where
  "ascii_letter c = (name_start c \<and> c \<noteq> CHR ''_'')"

text \<open>\<open>^([A-Za-z][A-Za-z0-9_-]*)\<close> on the stripped signature, in lower case.\<close>

definition leading_verb :: "string \<Rightarrow> string option" where
  "leading_verb sig = (case strip sig of
      c # cs \<Rightarrow> if ascii_letter c then Some (lower (c # takeWhile (\<lambda>x. name_char x \<or> x = CHR ''-'') cs)) else None
    | [] \<Rightarrow> None)"

text \<open>A whole \<open>[...]\<close> run, else a run of characters that are not blanks.\<close>

function arg_tokens :: "string \<Rightarrow> string list" where
  "arg_tokens [] = []"
| "arg_tokens (c # cs) =
     (if space_char c then arg_tokens cs
      else if c = CHR ''['' \<and> CHR '']'' \<in> set cs
      then (c # takeWhile (\<lambda>x. x \<noteq> CHR '']'') cs @ '']'') # arg_tokens (tl (dropWhile (\<lambda>x. x \<noteq> CHR '']'') cs))
      else (c # takeWhile (\<lambda>x. \<not> space_char x) cs) # arg_tokens (dropWhile (\<lambda>x. \<not> space_char x) cs))"
  by pat_completeness auto
termination
proof (relation "measure length"; simp)
  fix cs
  show "length (dropWhile (\<lambda>x. x \<noteq> CHR '']'') cs) - Suc 0 < Suc (length cs)"
    using length_dropWhile_le [of "\<lambda>x. x \<noteq> CHR '']''" cs] by simp
next
  fix cs
  show "length (dropWhile (\<lambda>x. \<not> space_char x) cs) < Suc (length cs)"
    using length_dropWhile_le [of "\<lambda>x. \<not> space_char x" cs] by simp
qed

definition signature_args :: "string \<Rightarrow> string \<Rightarrow> string list" where
  "signature_args sig verb = (let rest = strip (drop (length verb) (strip sig)) in
     if rest = [] \<or> starts_with rest ''('' then [] else arg_tokens rest)"

abbreviation words_of :: "string \<Rightarrow> string list" where
  "words_of s \<equiv> runs (\<lambda>c. \<not> space_char c) [] s"

definition optional_token :: "string \<Rightarrow> bool" where
  "optional_token tok = (starts_with tok ''['' \<and> ends_with tok '']'')"

definition optional_names :: "string list \<Rightarrow> string list" where
  "optional_names args = concat (map (\<lambda>tok. map (\<lambda>w. rev (dropWhile (\<lambda>c. c = CHR ''.'') (rev w))) (words_of (butlast (tl tok))))
     (filter optional_token args))"

subsection \<open>Defaults and guides\<close>

fun merge_defaults ::
    "(json \<Rightarrow> string) \<Rightarrow> string list \<Rightarrow> bool \<Rightarrow> (string \<times> string) list \<Rightarrow> obj \<Rightarrow> (string \<times> string) list outcome" where
  "merge_defaults pr opt strict acc [] = Ok acc"
| "merge_defaults pr opt strict acc ((k, v) # kvs) =
     (if k \<notin> set opt then (if strict then Refused [k @ '' is not an optional argument''] else merge_defaults pr opt strict acc kvs)
      else if is_bool v \<or> v = JNull \<or> is_obj v \<or> is_arr v then Refused [k @ '' must be a quoted string or number'']
      else merge_defaults pr opt strict (AList.update k (py_str pr v) acc) kvs)"

definition defaults_table :: "(json \<Rightarrow> string) \<Rightarrow> string list \<Rightarrow> bool \<Rightarrow> (string \<times> string) list \<Rightarrow> json \<Rightarrow> (string \<times> string) list outcome" where
  "defaults_table pr opt strict acc v = (if v = JNull then Ok acc
     else if \<not> is_obj v then Refused [''defaults must be a mapping''] else merge_defaults pr opt strict acc (fields_of v))"

definition parse_defaults :: "(json \<Rightarrow> string) \<Rightarrow> string list \<Rightarrow> json \<Rightarrow> json \<Rightarrow> (string \<times> string) list outcome" where
  "parse_defaults pr args script_defaults command_defaults =
     (let opt = optional_names args in
      obind (defaults_table pr opt False [] script_defaults) (\<lambda>m. defaults_table pr opt True m command_defaults))"

definition guide_argument_ok :: "json \<Rightarrow> bool" where
  "guide_argument_ok v = (is_obj v \<and> (let g = fields_of v in nonempty_str (getj g ''name'') \<and> is_bool (getj g ''required'')
     \<and> (getj g ''default'' = JNull \<or> is_str (getj g ''default'')) \<and> nonempty_str (getj g ''meaning'')))"

definition string_list_ok :: "json \<Rightarrow> bool" where
  "string_list_ok v = (v = JNull \<or> is_arr v \<and> list_all nonempty_str (items_of v))"

definition guide_ok :: "json \<Rightarrow> bool" where
  "guide_ok v = (v = JNull \<or> is_obj v \<and> (let g = fields_of v; as = getj g ''arguments'' in
     only_keys g [''arguments'', ''returns'', ''before_a_real_run'', ''traps'']
     \<and> (as = JNull \<or> is_arr as \<and> list_all guide_argument_ok (items_of as))
     \<and> nonempty_str (getj g ''returns'') \<and> string_list_ok (getj g ''before_a_real_run'') \<and> string_list_ok (getj g ''traps'')))"

subsection \<open>Loading\<close>

definition KNOWLEDGE_SCOPES :: "string list" where
  "KNOWLEDGE_SCOPES = [''player_visible'', ''player_derivable'', ''omniscient'']"

text \<open>One command of a script.\<close>

definition command_entry :: "(json \<Rightarrow> string) \<Rightarrow> string \<Rightarrow> obj \<Rightarrow> string \<Rightarrow> json \<Rightarrow> tool_entry outcome" where
  "command_entry pr script body sig v =
     (if \<not> is_obj v then Refused [sig @ '': command spec must be a mapping'']
      else case leading_verb sig of
        None \<Rightarrow> Refused [sig @ '': cannot derive a leading verb'']
      | Some verb \<Rightarrow>
          let spec = fields_of v; tid = script_short_name script @ ''.'' @ verb; effect = getj spec ''effect'';
              scope = getj spec ''knowledge_scope''; args = signature_args sig verb;
              skippable = (if truthy (getj spec ''skippable'') then getj spec ''skippable'' else JArr []) in
          if effect \<noteq> JStr ''read'' \<and> effect \<noteq> JStr ''mutate'' then Refused [sig @ '': effect must be read or mutate'']
          else if \<not> truthy (getj spec ''lua_function'') then Refused [sig @ '': missing lua_function'']
          else if scope \<notin> JStr ` set KNOWLEDGE_SCOPES then Refused [sig @ '': every command must be tagged'']
          else if \<not> (is_arr skippable \<and> list_all is_str (items_of skippable)) then Refused [sig @ '': skippable must be a list'']
          else if \<not> list_all (\<lambda>t. t \<in> set args \<and> starts_with t ''['') (strings_of skippable)
          then Refused [sig @ '': a skippable entry is not an optional token'']
          else obind (parse_defaults pr args (getj body ''arg_defaults'') (getj spec ''defaults'')) (\<lambda>ds.
            if \<not> guide_ok (getj spec ''guide'') then Refused [sig @ '': its guide is malformed'']
            else Ok \<lparr>rt_id = tid, rt_args = args, rt_execution = getj spec ''execution'', te_script = script,
              te_mutates = (effect = JStr ''mutate''), te_scope = scope, te_skippable = strings_of skippable, te_defaults = ds,
              te_native = False, te_sole_writer_only = False, te_executor_only = False\<rparr>))"

fun command_entries :: "(json \<Rightarrow> string) \<Rightarrow> string \<Rightarrow> obj \<Rightarrow> obj \<Rightarrow> tool_entry list outcome" where
  "command_entries pr script body [] = Ok []"
| "command_entries pr script body ((sig, v) # cs) = obind (command_entry pr script body sig v) (\<lambda>t.
     obind (command_entries pr script body cs) (\<lambda>ts. Ok (t # ts)))"

fun script_entries :: "(json \<Rightarrow> string) \<Rightarrow> obj \<Rightarrow> tool_entry list outcome" where
  "script_entries pr [] = Ok []"
| "script_entries pr ((script, v) # rest) =
     (let body = fields_of v; cmds = (if truthy (getj body ''commands'') then getj body ''commands'' else JObj []) in
      if \<not> is_obj v \<or> \<not> has body ''commands'' then script_entries pr rest
      else if \<not> is_obj cmds then Raised
      else obind (command_entries pr script body (fields_of cmds)) (\<lambda>ts. obind (script_entries pr rest) (\<lambda>us. Ok (ts @ us))))"

definition load_registry :: "(json \<Rightarrow> string) \<Rightarrow> json \<Rightarrow> tool_entry list \<Rightarrow> tool_entry list outcome" where
  "load_registry pr manifest native =
     (if \<not> is_obj manifest then Refused [''expected a mapping at the top level'']
      else obind (script_entries pr (fields_of manifest)) (\<lambda>ts.
        if \<not> distinct (registry_ids ts) then Refused [''canonical id collision'']
        else if ts = [] then Refused [''no tools parsed'']
        else if set (registry_ids ts) \<inter> set (registry_ids native) \<noteq> {} then Refused [''native tool ids collide'']
        else Ok (ts @ native)))"

subsection \<open>What a loaded registry satisfies\<close>

lemma tool_of_Some: "tool_of reg tid = Some t \<Longrightarrow> t \<in> set reg \<and> rt_id t = tid"
  by (auto simp: tool_of_def find_Some_iff)

lemma tool_of_in: "distinct (registry_ids reg) \<Longrightarrow> t \<in> set reg \<Longrightarrow> tool_of reg (rt_id t) = Some t"
  by (induction reg) (force simp: tool_of_def registry_ids_def)+

lemma command_entry_ok:
  assumes "command_entry pr script body sig v = Ok t"
  shows "te_script t = script" and "\<not> te_native t"
    and "te_scope t \<in> JStr ` set KNOWLEDGE_SCOPES"
    and "\<exists>verb. leading_verb sig = Some verb \<and> rt_id t = script_short_name script @ ''.'' @ verb \<and> rt_args t = signature_args sig verb"
    and "set (te_skippable t) \<subseteq> set (rt_args t)"
  using assms by (auto simp: command_entry_def Let_def list_all_iff split: option.splits if_splits)

end
