(* ===== verification/Roles.thy ===== *)
theory Roles
  imports Registry
begin

section \<open>Which role may call which tool\<close>

text \<open>
  \<open>dfmcp/roles.py\<close>. The registry is the list of its tools (\<open>Registry\<close>), the routing table the one of
  \<open>dfqueue/routing.py\<close>; the two YAML documents are parsed mappings and \<open>role_dir\<close> is what is found in a role's
  directory. A \<open>RoleValidationError\<close> is \<open>Refused\<close> and any other exception \<open>Raised\<close>. The lemmas say what each rule
  of the loader gives for a granted tool, and that a denied tool is never granted.
\<close>

definition SYSTEM_CLASS_TOOL_IDS :: "string list" where
  "SYSTEM_CLASS_TOOL_IDS = [''clock.set-speed'', ''clock.pause'', ''clock.resume'', ''clock.arm'', ''clock.disarm'',
     ''clock.clear'', ''fort.quicksave'', ''pause.dismiss'', ''automine.scan'', ''autofarm.set'']"

subsection \<open>One role's document\<close>

record role_tool =
  rl_id :: json
  rl_status :: json
  rl_note :: json
  rl_reason :: json
  rl_hazard :: json
  rl_reliability :: json

record role_permissions =
  rp_role :: string
  rp_kind :: json
  rp_is_sole_writer :: bool
  rp_read :: "(string \<times> role_tool) list"
  rp_write :: "(string \<times> role_tool) list"
  rp_deny :: "role_tool list"
  rp_planned :: "role_tool list"

definition allows :: "role_permissions \<Rightarrow> string \<Rightarrow> bool" where
  "allows p tid \<longleftrightarrow> tid \<in> set (map fst (rp_read p)) \<or> tid \<in> set (map fst (rp_write p))"

text \<open>\<open>pattern[:-1]\<close> of \<open>ui.*\<close> keeps the dot.\<close>

definition deny_matches :: "string \<Rightarrow> string \<Rightarrow> bool" where
  "deny_matches pattern tid = (if ends_with pattern ''.*'' then starts_with tid (butlast pattern) else pattern = tid)"

text \<open>The first matching entry; \<open>None\<close> when an id that is not a text is reached.\<close>

fun deny_entry :: "role_tool list \<Rightarrow> string \<Rightarrow> role_tool option option" where
  "deny_entry [] tid = Some None"
| "deny_entry (d # ds) tid = (case rl_id d of
      JStr pat \<Rightarrow> if deny_matches pat tid then Some (Some d) else deny_entry ds tid
    | _ \<Rightarrow> None)"

definition role_tool_from_entry :: "json \<Rightarrow> role_tool outcome" where
  "role_tool_from_entry v = (if \<not> is_obj v then Refused [''expected a mapping for a tool entry'']
     else let e = fields_of v in Ok \<lparr>rl_id = (if has e ''id'' then getj e ''id'' else JStr []), rl_status = getj e ''status'',
       rl_note = getj e ''note'', rl_reason = getj e ''reason'', rl_hazard = getj e ''hazard'',
       rl_reliability = getj e ''reliability''\<rparr>)"

fun index_allow :: "tool_entry list \<Rightarrow> string \<Rightarrow> (string \<times> role_tool) list \<Rightarrow> json list \<Rightarrow> (string \<times> role_tool) list outcome" where
  "index_allow reg sec acc [] = Ok acc"
| "index_allow reg sec acc (v # vs) = obind (role_tool_from_entry v) (\<lambda>rt.
     if \<not> truthy (rl_id rt) then Refused [sec @ '' entry with no id'']
     else if \<not> hashable (rl_id rt) then Raised
     else case rl_id rt of
       JStr tid \<Rightarrow> if tool_of reg tid = None then Refused [sec @ ''-lists '' @ tid @ '', which does not exist'']
         else index_allow reg sec (AList.update tid rt acc) vs
     | _ \<Rightarrow> Refused [sec @ ''-lists an id which does not exist''])"

definition doc_section :: "obj \<Rightarrow> string \<Rightarrow> json list outcome" where
  "doc_section doc name = (let raw = getj doc name in
     if \<not> truthy raw then Ok [] else if is_arr raw then Ok (items_of raw) else Refused [name @ '' must be a list''])"

fun all_entries :: "json list \<Rightarrow> role_tool list outcome" where
  "all_entries [] = Ok []"
| "all_entries (v # vs) = obind (role_tool_from_entry v) (\<lambda>rt. obind (all_entries vs) (\<lambda>rts. Ok (rt # rts)))"

text \<open>The rules over the granted ids, each a pass of its own: \<open>read\<close>, then \<open>write\<close>.\<close>

definition tool_flag :: "tool_entry list \<Rightarrow> (tool_entry \<Rightarrow> bool) \<Rightarrow> string \<Rightarrow> bool" where
  "tool_flag reg f tid = (case tool_of reg tid of None \<Rightarrow> False | Some t \<Rightarrow> f t)"

definition pass_over :: "string list \<Rightarrow> (string \<Rightarrow> bool) \<Rightarrow> string \<Rightarrow> errors" where
  "pass_over ids bad rule = (case find bad ids of None \<Rightarrow> [] | Some tid \<Rightarrow> [tid @ '': '' @ rule])"

definition rule_errors :: "tool_entry list \<Rightarrow> routing \<Rightarrow> string \<Rightarrow> json \<Rightarrow> json \<Rightarrow> string list \<Rightarrow> errors list" where
  "rule_errors reg rt role kind sole ids =
     [pass_over ids (\<lambda>tid. tid \<in> set SYSTEM_CLASS_TOOL_IDS \<and> kind \<noteq> JStr ''system'') ''system-class tool'',
      pass_over ids (\<lambda>tid. JStr role \<noteq> sole \<and> tid \<notin> set SYSTEM_CLASS_TOOL_IDS \<and> tool_flag reg te_mutates tid) ''mutates fort state'',
      pass_over ids (\<lambda>tid. JStr role \<noteq> sole \<and> tool_flag reg te_sole_writer_only tid) ''restricted to the sole_writer'',
      pass_over ids (\<lambda>tid. tool_flag reg te_executor_only tid \<and> kind \<noteq> JStr ''system'') ''an executor-only tool'',
      pass_over ids (\<lambda>tid. tid \<in> set (routed_tools rt)) ''belongs to a routed group'',
      pass_over ids (tool_flag reg (\<lambda>t. te_scope t = JStr ''omniscient'')) ''knowledge_scope: omniscient'']"

definition first_errors :: "errors list \<Rightarrow> errors" where
  "first_errors ess = (case find (\<lambda>es. es \<noteq> []) ess of None \<Rightarrow> [] | Some es \<Rightarrow> es)"

text \<open>Rule 3; the loader looks at every allowed id in sorted order, and at the deny entries until one matches.\<close>

fun conflicts :: "role_tool list \<Rightarrow> string list \<Rightarrow> string list option" where
  "conflicts deny [] = Some []"
| "conflicts deny (tid # tids) = Option.bind (deny_entry deny tid) (\<lambda>hit.
     map_option (\<lambda>cs. if hit = None then cs else tid # cs) (conflicts deny tids))"

definition load_role_permissions ::
    "tool_entry list \<Rightarrow> routing \<Rightarrow> string \<Rightarrow> json \<Rightarrow> obj \<Rightarrow> json \<Rightarrow> role_permissions outcome" where
  "load_role_permissions reg rt role kind doc sole =
     obind (doc_section doc ''read'') (\<lambda>rs. obind (index_allow reg ''read'' [] rs) (\<lambda>rd.
     obind (doc_section doc ''write'') (\<lambda>ws. obind (index_allow reg ''write'' [] ws) (\<lambda>wr.
       let ids = map fst rd @ map fst wr in
       refuse_if (first_errors (rule_errors reg rt role kind sole ids))
       (obind (doc_section doc ''deny'') (\<lambda>ds. obind (all_entries ds) (\<lambda>deny.
         refuse_if (only_if (list_ex (\<lambda>d. \<not> truthy (rl_id d)) deny) ''has a deny entry with no id'')
         (case conflicts deny (sorted_list_of_set (set ids)) of
            None \<Rightarrow> Raised
          | Some cs \<Rightarrow> refuse_if (only_if (cs \<noteq> []) (''both allows and denies '' @ join '', '' cs))
              (obind (doc_section doc ''planned'') (\<lambda>ps. obind (all_entries ps) (\<lambda>planned.
                Ok \<lparr>rp_role = role, rp_kind = kind, rp_is_sole_writer = (JStr role = sole),
                  rp_read = rd, rp_write = wr, rp_deny = deny, rp_planned = planned\<rparr>)))))))))))"

subsection \<open>The roster\<close>

text \<open>What is found in a role's directory: the directory with its \<open>role.md\<close>, \<open>tools.yaml\<close>, \<open>model.yaml\<close>.\<close>

record role_dir =
  rd_charter :: bool
  rd_tools :: "obj option"
  rd_model :: bool

record access_roster =
  ar_registry :: "tool_entry list"
  ar_sole_writer :: json
  ar_roles :: "(string \<times> role_permissions) list"

fun load_roles ::
    "tool_entry list \<Rightarrow> routing \<Rightarrow> (json \<Rightarrow> role_dir) \<Rightarrow> json \<Rightarrow> obj \<Rightarrow> (string \<times> role_permissions) list outcome" where
  "load_roles reg rt dirs sole [] = Ok []"
| "load_roles reg rt dirs sole ((role, v) # rest) =
     (let e = fields_of v; d = dirs (if has e ''dir'' then getj e ''dir'' else JStr role) in
      if \<not> is_obj v \<or> \<not> truthy (getj e ''enabled'') then load_roles reg rt dirs sole rest
      else if \<not> rd_charter d then Refused [role @ '': its directory or its role.md is missing'']
      else case rd_tools d of
        None \<Rightarrow> Refused [role @ '': no tools.yaml'']
      | Some doc \<Rightarrow> if \<not> rd_model d then Refused [role @ '': no model.yaml'']
          else obind (load_role_permissions reg rt role (if has e ''kind'' then getj e ''kind'' else JStr ''advisor'') doc sole)
            (\<lambda>p. obind (load_roles reg rt dirs sole rest) (\<lambda>ps. Ok ((role, p) # ps))))"

definition load_roster :: "tool_entry list \<Rightarrow> routing \<Rightarrow> (json \<Rightarrow> role_dir) \<Rightarrow> obj \<Rightarrow> access_roster outcome" where
  "load_roster reg rt dirs manifest =
     (let sole = getj manifest ''sole_writer''; roles = getj manifest ''roles'' in
      if \<not> truthy sole then Refused [''no sole_writer set'']
      else if truthy roles \<and> \<not> is_obj roles then Raised
      else obind (load_roles reg rt dirs sole (fields_of (or_empty roles)))
        (\<lambda>ps. Ok \<lparr>ar_registry = reg, ar_sole_writer = sole, ar_roles = ps\<rparr>))"

text \<open>\<open>Roster.check\<close>: allowed or not, and the reason.\<close>

definition check_access :: "access_roster \<Rightarrow> string \<Rightarrow> string \<Rightarrow> (bool \<times> string) outcome" where
  "check_access ar role tid = (case map_of (ar_roles ar) role of
      None \<Rightarrow> Ok (False, ''not an enabled role on this roster'')
    | Some p \<Rightarrow> (case deny_entry (rp_deny p) tid of
        None \<Rightarrow> Raised
      | Some (Some d) \<Rightarrow> if \<not> truthy (rl_reason d) then Ok (False, ''explicitly denied for this role'')
          else if is_str (rl_reason d) then Ok (False, strip (str_of (rl_reason d))) else Raised
      | Some None \<Rightarrow>
          if tid \<in> set (map fst (rp_write p)) then Ok (True, ''granted: write'')
          else if tid \<in> set (map fst (rp_read p)) then Ok (True, ''granted: read'')
          else if rp_kind p = JStr ''advisor'' then Ok (False, tid @ '' is not on the allowlist; propose it instead'')
          else Ok (False, tid @ '' is not on the allowlist'')))"

subsection \<open>What a loaded roster grants\<close>

text \<open>What the rules leave: the conditions on a role that holds a tool.\<close>

definition lawful :: "tool_entry list \<Rightarrow> routing \<Rightarrow> json \<Rightarrow> string \<Rightarrow> json \<Rightarrow> string \<Rightarrow> bool" where
  "lawful reg rt sole role kind tid \<longleftrightarrow> (\<exists>t. tool_of reg tid = Some t \<and>
     te_scope t \<noteq> JStr ''omniscient'' \<and> tid \<notin> set (routed_tools rt) \<and>
     (tid \<in> set SYSTEM_CLASS_TOOL_IDS \<or> te_executor_only t \<longrightarrow> kind = JStr ''system'') \<and>
     (te_sole_writer_only t \<or> te_mutates t \<and> tid \<notin> set SYSTEM_CLASS_TOOL_IDS \<longrightarrow> JStr role = sole))"

lemma pass_over_Nil [simp]: "pass_over ids bad rule = [] \<longleftrightarrow> (\<forall>tid \<in> set ids. \<not> bad tid)"
  by (auto simp: pass_over_def find_None_iff find_Some_iff split: option.splits)

lemma first_errors_Nil [simp]: "first_errors ess = [] \<longleftrightarrow> (\<forall>es \<in> set ess. es = [])"
  by (auto simp: first_errors_def find_None_iff find_Some_iff split: option.splits)

lemma index_allow_ids:
  "index_allow reg sec acc vs = Ok al \<Longrightarrow> tid \<in> set (map fst al) \<Longrightarrow> tid \<in> set (map fst acc) \<or> tool_of reg tid \<noteq> None"
proof (induction vs arbitrary: acc)
  case (Cons v vs)
  from Cons.prems(1) obtain e id' where e: "rl_id e = JStr id'" "tool_of reg id' \<noteq> None"
    "index_allow reg sec (AList.update id' e acc) vs = Ok al"
    by (auto split: if_splits json.splits)
  from Cons.IH [OF e(3) Cons.prems(2)] e(2) show ?case by (auto simp: dom_update)
qed simp

lemma rule_errors_lawful:
  assumes "first_errors (rule_errors reg rt role kind sole ids) = []" and "tid \<in> set ids" and "tool_of reg tid \<noteq> None"
  shows "lawful reg rt sole role kind tid"
  using assms by (fastforce simp: rule_errors_def lawful_def tool_flag_def)

lemma conflicts_none: "conflicts deny tids = Some [] \<Longrightarrow> tid \<in> set tids \<Longrightarrow> deny_entry deny tid = Some None"
  by (induction tids) (auto simp: bind_eq_Some_conv split: if_splits)

lemma load_permissions_ok:
  assumes "load_role_permissions reg rt role kind doc sole = Ok p"
  shows "rp_kind p = kind" and "rp_role p = role"
    and "allows p tid \<Longrightarrow> lawful reg rt sole role kind tid"
    and "allows p tid \<Longrightarrow> deny_entry (rp_deny p) tid = Some None"
proof -
  from assms obtain rs ws rd wr deny pl where
    idx: "index_allow reg ''read'' [] rs = Ok rd" "index_allow reg ''write'' [] ws = Ok wr"
    and none: "first_errors (rule_errors reg rt role kind sole (map fst rd @ map fst wr)) = []"
    and cs: "conflicts deny (sorted_list_of_set (set (map fst rd @ map fst wr))) = Some []"
    and p: "p = \<lparr>rp_role = role, rp_kind = kind, rp_is_sole_writer = (JStr role = sole),
        rp_read = rd, rp_write = wr, rp_deny = deny, rp_planned = pl\<rparr>"
    by (auto simp: load_role_permissions_def Let_def split: option.splits)
  from p show "rp_kind p = kind" "rp_role p = role" by simp_all
  assume "allows p tid"
  with p have m: "tid \<in> set (map fst rd @ map fst wr)" by (auto simp: allows_def)
  with idx index_allow_ids [of reg "''read''" "[]" rs rd tid] index_allow_ids [of reg "''write''" "[]" ws wr tid]
  have "tool_of reg tid \<noteq> None" by auto
  from rule_errors_lawful [OF none m this] show "lawful reg rt sole role kind tid" .
  from conflicts_none [OF cs] m p show "deny_entry (rp_deny p) tid = Some None" by auto
qed

lemma load_roles_ok:
  "load_roles reg rt dirs sole kvs = Ok ps \<Longrightarrow> map_of ps role = Some p \<Longrightarrow>
    \<exists>kind doc. load_role_permissions reg rt role kind doc sole = Ok p"
proof (induction kvs arbitrary: ps)
  case (Cons kv kvs)
  obtain n v where kv: "kv = (n, v)" by (cases kv)
  show ?case
  proof (cases "is_obj v \<and> truthy (getj (fields_of v) ''enabled'')")
    case False
    with Cons show ?thesis by (auto simp: kv)
  next
    case True
    with Cons.prems(1) obtain kind doc p' ps' where
      *: "load_role_permissions reg rt n kind doc sole = Ok p'" "load_roles reg rt dirs sole kvs = Ok ps'" "ps = (n, p') # ps'"
      by (auto simp: kv Let_def split: if_splits option.splits)
    with Cons show ?thesis by (auto split: if_splits)
  qed
qed simp

lemma load_roster_ok:
  assumes "load_roster reg rt dirs manifest = Ok ar" and "map_of (ar_roles ar) role = Some p"
  shows "\<exists>kind doc. load_role_permissions reg rt role kind doc (getj manifest ''sole_writer'') = Ok p"
  using assms by (auto simp: load_roster_def Let_def intro: load_roles_ok split: if_splits)

lemma granted_allows:
  assumes "check_access ar role tid = Ok (True, why)"
  obtains p where "map_of (ar_roles ar) role = Some p" "allows p tid"
  using assms by (auto simp: check_access_def allows_def split: option.splits if_splits)

lemma roster_permissions:
  assumes "load_roster reg rt dirs manifest = Ok ar" and "map_of (ar_roles ar) role = Some p" and "allows p tid"
  shows "lawful reg rt (getj manifest ''sole_writer'') role (rp_kind p) tid" and "deny_entry (rp_deny p) tid = Some None"
proof -
  from load_roster_ok [OF assms(1,2)] obtain kind doc where
    l: "load_role_permissions reg rt role kind doc (getj manifest ''sole_writer'') = Ok p" by blast
  show "lawful reg rt (getj manifest ''sole_writer'') role (rp_kind p) tid"
    unfolding load_permissions_ok(1) [OF l] by (rule load_permissions_ok(3) [OF l assms(3)])
  show "deny_entry (rp_deny p) tid = Some None" by (rule load_permissions_ok(4) [OF l assms(3)])
qed

text \<open>A granted call is lawful, and the roster grants exactly what is on the lists of an enabled role.\<close>

lemma granted_lawful:
  assumes "load_roster reg rt dirs manifest = Ok ar" and "check_access ar role tid = Ok (True, why)"
  shows "\<exists>p. map_of (ar_roles ar) role = Some p \<and> lawful reg rt (getj manifest ''sole_writer'') role (rp_kind p) tid"
proof -
  from granted_allows [OF assms(2)] obtain p where p: "map_of (ar_roles ar) role = Some p" "allows p tid" .
  from roster_permissions(1) [OF assms(1) p] p(1) show ?thesis by blast
qed

lemma granted_iff_listed:
  assumes "load_roster reg rt dirs manifest = Ok ar" and "map_of (ar_roles ar) role = Some p"
  shows "(\<exists>why. check_access ar role tid = Ok (True, why)) \<longleftrightarrow> allows p tid"
proof
  assume "allows p tid"
  from roster_permissions(2) [OF assms this] have "deny_entry (rp_deny p) tid = Some None" .
  with \<open>allows p tid\<close> assms(2) show "\<exists>why. check_access ar role tid = Ok (True, why)"
    by (auto simp: check_access_def allows_def)
next
  assume "\<exists>why. check_access ar role tid = Ok (True, why)"
  with assms(2) show "allows p tid" by (auto elim: granted_allows)
qed

end
