(* ===== verification/Tool_Args.thy ===== *)
theory Tool_Args
  imports Registry
begin

section \<open>The arguments of a tool call\<close>

text \<open>
  \<open>dfmcp/tools.py\<close>: the names tools have on the protocol, the arguments a signature declares, and \<open>argv_for_call\<close>,
  which turns a call's arguments into the words of a positional command line or refuses them with an
  \<open>ArgumentError\<close>. The descriptions shown to a model are left out.
\<close>

subsection \<open>Tool names\<close>

definition line_end :: char where "line_end = char_of (10 :: nat)"

definition protocol_name :: "string \<Rightarrow> string" where
  "protocol_name tid = concat (map (\<lambda>c. if c = CHR ''.'' then ''__'' else [c]) tid)"

text \<open>\<open>^[a-zA-Z0-9_-]{1,128}$\<close>; the dollar also matches before a final line break.\<close>

definition legal_name :: "string \<Rightarrow> bool" where
  "legal_name s = (let m = drop_suffix s [line_end] in
     1 \<le> length m \<and> length m \<le> 128 \<and> list_all (\<lambda>c. name_char c \<or> c = CHR ''-'') m)"

fun tool_names_loop :: "(string \<times> string) list \<Rightarrow> (string \<times> string) list \<Rightarrow> string list
    \<Rightarrow> ((string \<times> string) list \<times> (string \<times> string) list) outcome" where
  "tool_names_loop fwd back [] = Ok (fwd, back)"
| "tool_names_loop fwd back (tid # tids) =
     (let name = protocol_name tid in
      if \<not> legal_name name then Refused [name @ '' does not match the legal pattern'']
      else case map_of back name of
        Some other \<Rightarrow> Refused [''tool name collision: '' @ tid @ '' and '' @ other]
      | None \<Rightarrow> tool_names_loop (AList.update tid name fwd) (AList.update name tid back) tids)"

definition build_tool_names :: "tool_entry list \<Rightarrow> ((string \<times> string) list \<times> (string \<times> string) list) outcome" where
  "build_tool_names reg = tool_names_loop [] [] (registry_ids reg)"

subsection \<open>The arguments of a signature\<close>

definition INTEGER_ARG_NAMES :: "string list" where
  "INTEGER_ARG_NAMES = [''W'', ''H'', ''LEVEL'', ''RANK'', ''RADIUS_TILES'', ''UNIT_ID'', ''REPORT_ID'', ''CURSOR'', ''N'',
     ''MIN_IDLE_TICKS'', ''ZONE_ID'']"

record arg_spec =
  ag_name :: string
  ag_raw :: string
  ag_required :: bool
  ag_int :: bool
  ag_choices :: "string list option"
  ag_repeated :: bool
  ag_group :: "string option"

text \<open>\<open>None\<close> is \<open>ToolSchemaError\<close>.\<close>

definition placeholder :: "string \<Rightarrow> bool" where
  "placeholder s = (case s of c # cs \<Rightarrow> ascii_letter c \<and> list_all name_char cs | [] \<Rightarrow> False)"

definition parse_one :: "string \<Rightarrow> bool \<Rightarrow> string \<Rightarrow> string option \<Rightarrow> arg_spec option" where
  "parse_one word required raw grp =
     (if CHR ''|'' \<in> set word then
        let choices = split_on (CHR ''|'') word in
        Some \<lparr>ag_name = lower (join ''_'' choices), ag_raw = raw, ag_required = required, ag_int = False,
          ag_choices = Some choices, ag_repeated = False, ag_group = grp\<rparr>
      else
        let repeated = ends_with word ''...''; base = drop_suffix word ''...'' in
        if \<not> placeholder base then None
        else Some \<lparr>ag_name = lower base, ag_raw = raw, ag_required = required, ag_int = base \<in> set INTEGER_ARG_NAMES,
          ag_choices = None, ag_repeated = repeated, ag_group = grp\<rparr>)"

text \<open>\<open>^\[(.+)\]$\<close>: what is inside.\<close>

definition bracketed :: "string \<Rightarrow> string option" where
  "bracketed tok = (let t = drop_suffix tok [line_end]; i = butlast (tl t) in
     if starts_with t ''['' \<and> ends_with (tl t) '']'' \<and> i \<noteq> [] \<and> line_end \<notin> set i then Some i else None)"

definition parse_arg_tokens :: "string \<Rightarrow> arg_spec list option" where
  "parse_arg_tokens tok =
     (let required = (bracketed tok = None); inner = (case bracketed tok of None \<Rightarrow> tok | Some i \<Rightarrow> strip i) in
      if CHR ''['' \<in> set inner \<or> CHR '']'' \<in> set inner then None
      else case words_of inner of
        [] \<Rightarrow> None
      | [w] \<Rightarrow> map_option (\<lambda>s. [s]) (parse_one w required tok None)
      | ws \<Rightarrow> if required then None else
          Option.bind (those (map (\<lambda>w. parse_one w False tok (Some tok)) ws)) (\<lambda>specs.
            if list_ex (\<lambda>s. ag_repeated s \<or> ag_choices s \<noteq> None) specs then None else Some specs))"

text \<open>A name that occurs more than once is numbered in order.\<close>

fun number_names :: "arg_spec list \<Rightarrow> arg_spec list \<Rightarrow> arg_spec list" where
  "number_names before [] = []"
| "number_names before (s # ss) =
     (let same = filter (\<lambda>x. ag_name x = ag_name s) in
      (if length (same (before @ s # ss)) > 1
       then s\<lparr>ag_name := ag_name s @ ''_'' @ dec (length (same before) + 1)\<rparr> else s)
      # number_names (before @ [s]) ss)"

definition arg_specs :: "string list \<Rightarrow> arg_spec list option" where
  "arg_specs args = Option.bind (those (map parse_arg_tokens args)) (\<lambda>ss.
     let prelim = concat ss in
     if list_ex ag_repeated (butlast prelim) then None else Some (number_names [] prelim))"

subsection \<open>Values\<close>

datatype arg_error = Schema_error | Unknown_arguments "string list" | Missing_argument string
  | Torn_group string "string list" "string list" | Argument_gap string string | Bad_argument string | No_verb

definition METACHARS :: "char list" where
  "METACHARS = map char_of [59, 38, 124, 96, 36, 40, 41, 60, 62, 92, 34, 10, 13 :: nat]"

definition integer_text :: "string \<Rightarrow> bool" where
  "integer_text s = (let d = (if starts_with s ''-'' then tl s else s) in d \<noteq> [] \<and> list_all digit_char d)"

definition validate_value :: "(json \<Rightarrow> string) \<Rightarrow> arg_spec \<Rightarrow> json \<Rightarrow> arg_error + string" where
  "validate_value pr s v =
     (if is_bool v \<or> is_arr v \<or> is_obj v then Inl (Bad_argument (ag_name s))
      else case ag_choices s of
        Some cs \<Rightarrow> if py_str pr v \<in> set cs then Inr (py_str pr v) else Inl (Bad_argument (ag_name s))
      | None \<Rightarrow>
          if ag_int s then
            (case v of JInt i \<Rightarrow> Inr (dec_int i)
             | JStr t \<Rightarrow> if integer_text t then Inr t else Inl (Bad_argument (ag_name s))
             | _ \<Rightarrow> Inl (Bad_argument (ag_name s)))
          else if list_ex (\<lambda>c. c \<in> set METACHARS) (py_str pr v) then Inl (Bad_argument (ag_name s))
          else Inr (py_str pr v))"

definition spec_items :: "arg_spec \<Rightarrow> json \<Rightarrow> json list" where
  "spec_items s v = (if ag_repeated s \<and> is_arr v then items_of v else [v])"

definition is_supplied :: "arg_spec \<Rightarrow> obj \<Rightarrow> bool" where
  "is_supplied s args = (getj args (ag_name s) \<noteq> JNull \<and>
     (ag_repeated s \<longrightarrow> spec_items s (getj args (ag_name s)) \<noteq> []))"

subsection \<open>Slots: one per argument, one per optional group\<close>

record slot =
  sl_raw :: string
  sl_members :: "nat list"
  sl_required :: bool

fun slots_from :: "nat \<Rightarrow> slot list \<Rightarrow> arg_spec list \<Rightarrow> slot list" where
  "slots_from i us [] = us"
| "slots_from i us (s # ss) =
     (if ag_group s \<noteq> None \<and> us \<noteq> [] \<and> ag_group s = Some (sl_raw (last us))
      then slots_from (Suc i) (butlast us @ [(last us)\<lparr>sl_members := sl_members (last us) @ [i]\<rparr>]) ss
      else slots_from (Suc i) (us @ [\<lparr>sl_raw = (case ag_group s of None \<Rightarrow> ag_raw s | Some g \<Rightarrow> g), sl_members = [i],
        sl_required = ag_required s\<rparr>]) ss)"

definition given_names :: "arg_spec list \<Rightarrow> obj \<Rightarrow> bool \<Rightarrow> slot \<Rightarrow> string list" where
  "given_names specs args yes u = map (\<lambda>i. ag_name (specs ! i)) (filter (\<lambda>i. is_supplied (specs ! i) args = yes) (sl_members u))"

definition torn :: "arg_spec list \<Rightarrow> obj \<Rightarrow> slot \<Rightarrow> bool" where
  "torn specs args u = (length (sl_members u) \<ge> 2 \<and> given_names specs args True u \<noteq> [] \<and> given_names specs args False u \<noteq> [])"

definition slot_given :: "arg_spec list \<Rightarrow> obj \<Rightarrow> slot \<Rightarrow> bool" where
  "slot_given specs args u = list_ex (\<lambda>i. is_supplied (specs ! i) args) (sl_members u)"

text \<open>\<open>str.upper\<close>, in the Latin-1 range without the three letters whose capital is outside it.\<close>

definition upper :: "string \<Rightarrow> string" where
  "upper s = map (\<lambda>c. let n = cp c in
     if 97 \<le> n \<and> n \<le> 122 \<or> 224 \<le> n \<and> n \<le> 254 \<and> n \<noteq> 247 then char_of (n - 32) else c) s"

text \<open>The documented words for the optional slots before the last one given; the other result is the slot that
  has none.\<close>

fun fill_slots :: "tool_entry \<Rightarrow> arg_spec list \<Rightarrow> obj \<Rightarrow> slot list \<Rightarrow> slot + (nat \<times> string) list" where
  "fill_slots t specs args [] = Inr []"
| "fill_slots t specs args (u # us) =
     (if slot_given specs args u \<or> sl_raw u \<in> set (te_skippable t) then fill_slots t specs args us
      else case those (map (\<lambda>i. map_of (te_defaults t) (upper (ag_name (specs ! i)))) (sl_members u)) of
        None \<Rightarrow> Inl u
      | Some ws \<Rightarrow> (case fill_slots t specs args us of Inl v \<Rightarrow> Inl v | Inr fs \<Rightarrow> Inr (zip (sl_members u) ws @ fs)))"

text \<open>The optional slots up to the last one given, from the last.\<close>

definition up_to_given :: "arg_spec list \<Rightarrow> obj \<Rightarrow> slot list \<Rightarrow> slot list" where
  "up_to_given specs args us = dropWhile (\<lambda>u. \<not> slot_given specs args u) (rev (filter (\<lambda>u. \<not> sl_required u) us))"

definition gap_check :: "tool_entry \<Rightarrow> arg_spec list \<Rightarrow> obj \<Rightarrow> slot list \<Rightarrow> arg_error + (nat \<times> string) list" where
  "gap_check t specs args us = (case up_to_given specs args us of
      [] \<Rightarrow> Inr []
    | l # earlier \<Rightarrow> (case fill_slots t specs args (rev earlier) of
        Inl u \<Rightarrow> Inl (Argument_gap (ag_name (specs ! hd (sl_members l))) (ag_name (specs ! hd (sl_members u))))
      | Inr fs \<Rightarrow> Inr fs))"

subsection \<open>The command line\<close>

fun all_words :: "(arg_error + string) list \<Rightarrow> arg_error + string list" where
  "all_words [] = Inr []"
| "all_words (Inl e # rs) = Inl e"
| "all_words (Inr w # rs) = (case all_words rs of Inl e \<Rightarrow> Inl e | Inr ws \<Rightarrow> Inr (w # ws))"

definition words_at :: "(json \<Rightarrow> string) \<Rightarrow> arg_spec list \<Rightarrow> obj \<Rightarrow> (nat \<times> string) list \<Rightarrow> nat \<Rightarrow> (arg_error + string) list" where
  "words_at pr specs args filled i = (let s = specs ! i in
     if is_supplied s args then map (validate_value pr s) (spec_items s (getj args (ag_name s)))
     else case map_of (rev filled) i of Some w \<Rightarrow> [validate_value pr s (JStr w)] | None \<Rightarrow> [])"

definition argv_for_call :: "(json \<Rightarrow> string) \<Rightarrow> tool_entry \<Rightarrow> obj \<Rightarrow> arg_error + string list" where
  "argv_for_call pr t args = (case arg_specs (rt_args t) of
      None \<Rightarrow> Inl Schema_error
    | Some specs \<Rightarrow>
        let unknown = filter (\<lambda>k. k \<notin> set (map ag_name specs)) (map fst args); us = slots_from 0 [] specs in
        if unknown \<noteq> [] then Inl (Unknown_arguments unknown)
        else case find (\<lambda>s. ag_required s \<and> \<not> is_supplied s args) specs of
          Some s \<Rightarrow> Inl (Missing_argument (ag_name s))
        | None \<Rightarrow> (case find (torn specs args) us of
            Some u \<Rightarrow> Inl (Torn_group (sl_raw u) (given_names specs args True u) (given_names specs args False u))
          | None \<Rightarrow> (case gap_check t specs args us of
              Inl e \<Rightarrow> Inl e
            | Inr filled \<Rightarrow> if CHR ''.'' \<notin> set (rt_id t) then Inl No_verb
                else (case all_words (concat (map (words_at pr specs args filled) [0..<length specs])) of
                  Inl e \<Rightarrow> Inl e
                | Inr ws \<Rightarrow> Inr (drop_suffix (te_script t) ''.lua'' # tl (dropWhile (\<lambda>c. c \<noteq> CHR ''.'') (rt_id t)) # ws)))))"

end
