(* ===== verification/Connection.thy ===== *)
theory Connection
  imports Roles Tool_Args Step_Call
begin

section \<open>The connection to the game\<close>

text \<open>
  How \<open>dfmcp/server.py\<close> turns a tool call into a command line of the game and sorts what comes back, for the executor
  (\<open>_exec_call_tool\<close>), its own bookkeeping (\<open>_call_dfhack\<close>) and the facts a role cites (\<open>_read_fact\<close>). What a command
  prints (\<open>sv_run\<close>) is an argument, a function of what was done before: blank, not JSON, or a value; so is whether the reads of a
  filing take too long (\<open>sv_late\<close>).
\<close>

datatype printed = Blank | Not_json | Shows json

datatype pool_reply = Printed string printed | Never_sent string | Broken string | Protocol_broken string | Call_error string

text \<open>\<open>_exec_call_tool\<close>: the executor's call, with the failures sorted into never sent, unknown and failed.\<close>

definition exec_call_tool :: "(json \<Rightarrow> string) \<Rightarrow> tool_entry list \<Rightarrow> (string \<Rightarrow> string list \<Rightarrow> pool_reply) \<Rightarrow> string \<Rightarrow> obj \<Rightarrow> reply" where
  "exec_call_tool pr reg run tid args = (case tool_of reg tid of
      None \<Rightarrow> Other_error ''no such tool id''
    | Some t \<Rightarrow> (case argv_for_call pr t args of
        Inl Schema_error \<Rightarrow> Other_error ''schema''
      | Inl No_verb \<Rightarrow> Other_error ''verb''
      | Inl e \<Rightarrow> Not_sent ''arguments''
      | Inr argv \<Rightarrow> (case run (hd argv) (tl argv) of
          Never_sent e \<Rightarrow> Not_sent e
        | Call_error e \<Rightarrow> Call_failed e
        | Broken e \<Rightarrow> Outcome_unknown e
        | Protocol_broken e \<Rightarrow> Outcome_unknown e
        | Printed raw Blank \<Rightarrow> Outcome_unknown ''the command printed nothing''
        | Printed raw Not_json \<Rightarrow> Outcome_unknown ''the output is not JSON''
        | Printed raw (Shows v) \<Rightarrow> Answer (if is_obj v then v else JObj [(''result'', v)]))))"

text \<open>A script that reports its own failure prints one key, \<open>error\<close>.\<close>

definition only_error :: "json \<Rightarrow> string option" where
  "only_error v = (case v of JObj [(k, JStr e)] \<Rightarrow> if k = ''error'' then Some e else None | _ \<Rightarrow> None)"

text \<open>\<open>_call_dfhack\<close>, for the server's own bookkeeping; \<open>None\<close> is an exception.\<close>

definition call_dfhack :: "(json \<Rightarrow> string) \<Rightarrow> tool_entry list \<Rightarrow> (string \<Rightarrow> string list \<Rightarrow> pool_reply) \<Rightarrow> string \<Rightarrow> obj \<Rightarrow> json option" where
  "call_dfhack pr reg run tid args = Option.bind (tool_of reg tid) (\<lambda>t. case argv_for_call pr t args of
      Inl e \<Rightarrow> None
    | Inr argv \<Rightarrow> (case run (hd argv) (tl argv) of
        Printed raw Blank \<Rightarrow> Some JNull
      | Printed raw (Shows v) \<Rightarrow> if only_error v = None then Some v else None
      | _ \<Rightarrow> None))"

record server =
  sv_registry :: "tool_entry list"
  sv_roster :: access_roster
  sv_names :: "(string \<times> string) list"
  sv_run :: "xevent list \<Rightarrow> string \<Rightarrow> string list \<Rightarrow> pool_reply"
  sv_late :: "xevent list \<Rightarrow> bool"
  sv_base :: host

definition server_host :: "server \<Rightarrow> host" where
  "server_host sv = (let h = sv_base sv; reg = sv_registry sv in
     h\<lparr>xh_tools := map reg_tool.truncate reg,
       xh_call := (\<lambda>tr tid args. exec_call_tool (xh_pr h) reg (sv_run sv tr) tid args),
       xh_game := (\<lambda>tr tid. call_dfhack (xh_pr h) reg (sv_run sv tr) tid [])\<rparr>)"

text \<open>\<open>_read_fact\<close>: a tool of the game on the role's list that changes nothing; \<open>None\<close> is any refusal or failure.\<close>

definition read_fact :: "server \<Rightarrow> xevent list \<Rightarrow> string \<Rightarrow> string \<Rightarrow> obj \<Rightarrow> json option" where
  "read_fact sv tr role tid args = Option.bind (tool_of (sv_registry sv) tid) (\<lambda>t.
     if te_native t \<or> te_mutates t then None
     else case check_access (sv_roster sv) role tid of
       Ok (True, _) \<Rightarrow> map_option (\<lambda>v. if is_obj v then v else JObj [(''result'', v)])
         (call_dfhack (xh_pr (sv_base sv)) (sv_registry sv) (sv_run sv tr) tid args)
     | _ \<Rightarrow> None)"

end
