(* ===== verification/Filing.thy ===== *)
theory Filing
  imports Connection Board
begin

section \<open>The checks on a proposed step\<close>

text \<open>
  \<open>dfmcp/executor_filing.py\<close>: before a proposal with a step of a routed type is written, its arguments, the handles it
  cites, a dry run of its call and its declared phases are checked, and a follow-up that is exactly the next declared
  phase is marked as covered. Each access to the queue sees what other sessions wrote in between.
\<close>

definition refuse_call :: "string \<Rightarrow> 'a call" where
  "refuse_call e = fail (Tool_error [e])"

definition refuse_all :: "errors \<Rightarrow> 'a call \<Rightarrow> 'a call" where
  "refuse_all es m = (if es = [] then m else fail (Tool_error es))"

definition PLACEHOLDER_PROPOSAL_ID :: string where "PLACEHOLDER_PROPOSAL_ID = ''proposal-0000''"

subsection \<open>The preview\<close>

text \<open>The size of the record's JSON, and of a field's with every character outside ASCII escaped.\<close>

definition preview_size :: "(rat \<Rightarrow> string) \<Rightarrow> obj \<Rightarrow> nat" where
  "preview_size fr p = length (dumps fr True (JObj p))"

definition ascii_size :: "(rat \<Rightarrow> string) \<Rightarrow> json \<Rightarrow> nat" where
  "ascii_size fr v = sum_list (map (\<lambda>c. if cp c \<ge> 127 then 6 else 1) (dumps fr False v))"

fun trim_fields :: "(rat \<Rightarrow> string) \<Rightarrow> nat \<Rightarrow> string list \<Rightarrow> obj \<Rightarrow> obj \<Rightarrow> obj" where
  "trim_fields fr limit [] flds preview = preview"
| "trim_fields fr limit (k # ks) flds preview =
     (let flds' = filter (\<lambda>(j, _). j \<noteq> k) flds;
          preview' = setj (setj preview ''fields'' (JObj flds')) ''trimmed'' (JBool True) in
      if preview_size fr preview' \<le> limit then preview' else trim_fields fr limit ks flds' preview')"

definition bounded_preview :: "(rat \<Rightarrow> string) \<Rightarrow> obj \<Rightarrow> obj" where
  "bounded_preview fr preview = (let limit = PREVIEW_MAX - 200; flds = fields_of (getj preview ''fields'') in
     if preview_size fr preview \<le> limit then preview
     else trim_fields fr limit (sort_key (\<lambda>k. - int (ascii_size fr (getj flds k))) (map fst flds)) flds preview)"

subsection \<open>Arguments and handles\<close>

definition argument_problems :: "exec_spec \<Rightarrow> obj \<Rightarrow> json \<Rightarrow> errors" where
  "argument_problems spec args urgency =
     only_if (urgency \<noteq> JNull \<and> \<not> in_strs urgency URGENCIES) ''urgency is not an urgency''
     @ concat (map (\<lambda>k. only_if (lower k = DRY_RUN_ARG) ''dry_run is set by the server, never by a proposal''
         @ only_if (lower k \<in> set (sx_override spec)) (k @ '' is an override argument; steps may not use it'')) (map fst args))"

fun issued_by_open :: "host \<Rightarrow> string \<Rightarrow> string list \<Rightarrow> errors call" where
  "issued_by_open h v [] = give []"
| "issued_by_open h v (p # ps) = andthen (store_read h ''issued_handles'' (\<lambda>q. issued_handles q p)) (\<lambda>is.
     andthen (issued_by_open h v ps) (\<lambda>es. give (only_if (JStr v \<in> set is) (v @ '' was issued by open project '' @ p) @ es)))"

definition handle_problem :: "host \<Rightarrow> json \<Rightarrow> json \<Rightarrow> errors call" where
  "handle_problem h parent v = (case v of
      JStr s \<Rightarrow>
        if truthy parent then
          (if \<not> hashable parent then refuse_call ''the queue database is unavailable''
           else andthen (store_read h ''issued_handles'' (\<lambda>q. issued_handles q (str_of parent))) (\<lambda>is.
             give (only_if (JStr s \<notin> set is) (s @ '': a follow-up cites a handle its own project issued''))))
        else if is_handle s then
          andthen (store_op h ''open_projects'' (\<lambda>_ q. obind (open_projects (xh_cf h) q) (\<lambda>os. Ok (map oj_project os, q))))
            (issued_by_open h s)
        else give []
    | _ \<Rightarrow> give [])"

fun handle_problems :: "host \<Rightarrow> json \<Rightarrow> json list \<Rightarrow> errors call" where
  "handle_problems h parent [] = give []"
| "handle_problems h parent (v # vs) = andthen (handle_problem h parent v) (\<lambda>es.
     andthen (handle_problems h parent vs) (\<lambda>es'. give (es @ es')))"

subsection \<open>Declared phases\<close>

text \<open>\<open>list(phases["list"])\<close> of texts; anything else is no phase of a template, or an exception.\<close>

definition phase_names :: "json \<Rightarrow> string list option" where
  "phase_names v = (case v of
      JArr xs \<Rightarrow> if list_all hashable xs then Some (map (\<lambda>x. case x of JStr s \<Rightarrow> s | _ \<Rightarrow> ''(not a text)'') xs) else None
    | JStr s \<Rightarrow> Some (map (\<lambda>c. [c]) s)
    | JObj kvs \<Rightarrow> Some (map fst kvs)
    | _ \<Rightarrow> None)"

definition phase_check :: "host \<Rightarrow> string \<Rightarrow> obj \<Rightarrow> json \<Rightarrow> unit call" where
  "phase_check h tool args phases =
     (if \<not> truthy phases then give ()
      else case getj (fields_of phases) ''tool'' of
        JStr ptool \<Rightarrow> (case spec_of h ptool of
            None \<Rightarrow> fail Crashed
          | Some sp \<Rightarrow> (case Option.bind sp (\<lambda>x. map_option (\<lambda>ph. (x, ph)) (sx_phases x)) of
              None \<Rightarrow> refuse_call (ptool @ '' declares no phase source'')
            | Some (pspec, ph) \<Rightarrow>
                if list_ex (\<lambda>a. getj args (str_of a) = JNull) (items_of (getj ph ''carry''))
                then refuse_call ''phases carry arguments the step has none of''
                else andthen (call_out h Read (str_of (fst (plan_request pspec args))) (snd (plan_request pspec args))) (\<lambda>r. case r of
                    Other_error e \<Rightarrow> fail Crashed
                  | Cancelled \<Rightarrow> fail Stopped
                  | Answer v \<Rightarrow> (case plan_phases pspec v of
                      None \<Rightarrow> refuse_call ''the phases of the template could not be read''
                    | Some plan \<Rightarrow> (case phase_names (getj (fields_of phases) ''list'') of
                        None \<Rightarrow> fail Crashed
                      | Some declared \<Rightarrow>
                          refuse_all (check_declared_phases plan declared
                            (if tool = ptool then (case getj args (str_of (getj ph ''arg'')) of JStr f \<Rightarrow> Some f | _ \<Rightarrow> None) else None))
                            (give ())))
                  | _ \<Rightarrow> refuse_call ''server busy, file again (the phases of the template could not be read)'')))
      | _ \<Rightarrow> fail Crashed)"

subsection \<open>Coverage\<close>

text \<open>The step a covered follow-up comes after.\<close>

definition covered_by :: "host \<Rightarrow> obj \<Rightarrow> obj \<Rightarrow> json option call" where
  "covered_by h record args = andthen (store_read h ''load'' q_records) (\<lambda>rs.
     let pid = getj record ''project_id''; project = record_by_id rs pid;
         root = record_by_id rs (getj (record_by_id rs (getj project ''from_ruling'')) ''proposal_id'');
         declared = fields_of (getj root ''phases''); names = items_of (getj declared ''list'');
         steps = plan_steps rs (str_of pid) in
     if \<not> hashable pid then fail Crashed
     else if project = [] \<or> root = [] \<or> \<not> py_eq (getj root ''role'') (getj record ''role'') \<or> \<not> truthy (getj root ''phases'') then give None
     else case spec_of h (str_of (getj declared ''tool'')) of
       None \<Rightarrow> fail Crashed
     | Some sp \<Rightarrow> (case Option.bind sp sx_phases of
         None \<Rightarrow> give None
       | Some ph \<Rightarrow>
           let root_args = fields_of (getj (fields_of (getj root ''step'')) ''args'') in
           if getj (fields_of (getj record ''step'')) ''tool'' \<noteq> getj declared ''tool'' then give None
           else if list_ex (\<lambda>a. \<not> py_eq (getj args (str_of a)) (getj root_args (str_of a))) (items_of (getj ph ''carry'')) then give None
           else if steps = [] then fail Crashed
           else if length steps - 1 \<ge> length names \<or>
             \<not> py_eq (getj args (str_of (getj ph ''arg''))) (names ! (length steps - 1)) then give None
           else andthen (store_read h ''issued_handles'' (\<lambda>q. issued_handles q (str_of pid))) (\<lambda>is.
             if getj args (str_of (getj ph ''site_arg'')) \<notin> set is then give None
             else let after = getj (fields_of (last steps)) ''id'' in
               if getj record ''after_step'' \<noteq> after then give None
               else andthen (store_read h ''target_states'' (\<lambda>q. states_of_step q pid after)) (\<lambda>states.
                 give (if states \<noteq> [] \<and> list_all (\<lambda>s. s = ''done'') states then Some after else None)))))"

subsection \<open>The check\<close>

definition dry_run_args :: "host \<Rightarrow> exec_spec \<Rightarrow> obj \<Rightarrow> obj option" where
  "dry_run_args h spec args = map_option (\<lambda>a. setj a DRY_RUN_ARG (JStr ''true''))
     (apply_append (xh_pr h) spec args (setj args ''proposal_id'' (JStr PLACEHOLDER_PROPOSAL_ID)))"

definition preview_of :: "exec_spec \<Rightarrow> string \<Rightarrow> json \<Rightarrow> json \<Rightarrow> json \<Rightarrow> obj" where
  "preview_of spec tool dry tick urgency =
     (let res = fst (resolution spec dry) in
      [(''verdict'', JStr ''ok''), (''summary'', JStr (''dry run of '' @ tool @ '' passed'')), (''tick'', tick),
       (''fields'', JObj (concat (map (\<lambda>p. case get_path dry p of Some v \<Rightarrow> [(p, v)] | None \<Rightarrow> []) (remdups (sx_preview spec)))))]
      @ (if res \<noteq> [] then [(''resolution'', JObj res)] else [])
      @ (if urgency \<noteq> JNull then [(''urgency'', urgency)] else []))"

definition preview_call :: "host \<Rightarrow> tool_entry list \<Rightarrow> exec_spec \<Rightarrow> string \<Rightarrow> obj \<Rightarrow> json call" where
  "preview_call h reg spec tool args = andthen (or_crash (dry_run_args h spec args)) (\<lambda>call_args.
     andthen (or_crash (tool_of reg tool)) (\<lambda>t. case argv_for_call (xh_pr h) t call_args of
        Inl Schema_error \<Rightarrow> fail Crashed
      | Inl No_verb \<Rightarrow> fail Crashed
      | Inl e \<Rightarrow> refuse_call ''arguments''
      | Inr argv \<Rightarrow> andthen (call_out h Dry tool call_args) (\<lambda>r. case r of
          Other_error e \<Rightarrow> fail Crashed
        | Cancelled \<Rightarrow> fail Stopped
        | Answer dry \<Rightarrow> (case judge (xh_pr h) spec dry True of
            Declined why \<Rightarrow> refuse_call (''the dry run was refused: '' @ clip_text 300 why)
          | Invalid why _ \<Rightarrow> refuse_call ''the dry run gave an unusable result''
          | Passed \<Rightarrow> if snd (resolution spec dry) \<noteq> [] then refuse_call ''the dry run is missing declared fields'' else give dry)
        | _ \<Rightarrow> refuse_call ''server busy, file again (the dry run could not be completed)'')))"

definition check_filing :: "host \<Rightarrow> tool_entry list \<Rightarrow> obj \<Rightarrow> json \<Rightarrow> obj call" where
  "check_filing h reg record urgency =
     (let rt = cf_routing (xh_cf h); ptype = getj record ''type''; step = fields_of (getj record ''step'');
          tool = str_of (getj step ''tool''); args = fields_of (getj step ''args''); parent = getj record ''project_id'' in
      case (if is_str ptype then group_of rt ptype else None) of
        None \<Rightarrow> give []
      | Some g \<Rightarrow>
          if \<not> is_routed rt ptype \<or> \<not> has record ''step'' then give []
          else if tool \<notin> set (tools_of rt g) then refuse_call (tool @ '' is not a tool of group '' @ g)
          else (case spec_of h tool of
            None \<Rightarrow> fail Crashed
          | Some None \<Rightarrow> refuse_call (tool @ '' declares no verdict, so it cannot be proposed as a step'')
          | Some (Some spec) \<Rightarrow>
              refuse_all (argument_problems spec args urgency)
              (andthen (handle_problems h parent (map (getj args) (sx_handle_args spec))) (\<lambda>es. refuse_all es
              (andthen (preview_call h reg spec tool args) (\<lambda>dry.
               andthen (phase_check h tool args (getj record ''phases'')) (\<lambda>_.
                let updates = [(''preview'', JObj (bounded_preview (cf_float_repr (xh_cf h)) (preview_of spec tool dry (getj record ''cycle'') urgency)))] in
                if truthy parent \<and> coverage_on rt ptype
                then andthen (covered_by h record args) (\<lambda>c. give (case c of None \<Rightarrow> updates
                  | Some after \<Rightarrow> if truthy after then updates @ [(''covered_by'', after)] else updates))
                else give updates)))))))"

end
