(* ===== verification/Queue_Tools.thy ===== *)
theory Queue_Tools
  imports Filing
begin

section \<open>The queue tools of a role\<close>

text \<open>
  \<open>dfmcp/queue_tools.py\<close>: a role's call files a record. The server stamps who files it, the tick and the snapshot, reads
  the facts it cites, checks its step (\<open>Filing\<close>) and appends it. The records of these calls, and the unruled proposals or
  open asks a role is shown; not the texts. The order of a record's keys is that of the field lists here.
\<close>

record queue_env =
  qe_host :: host
  qe_registry :: "tool_entry list"
  qe_fact :: "xevent list \<Rightarrow> string \<Rightarrow> string \<Rightarrow> obj \<Rightarrow> json option"
  qe_late :: "xevent list \<Rightarrow> bool"

subsection \<open>The tools that file a record\<close>

text \<open>The kind each tool writes, the fields it takes from the caller, and whether the append is told the tick.\<close>

definition PROPOSE_FIELDS :: "string list" where
  "PROPOSE_FIELDS = [''type'', ''summary'', ''rationale'', ''prediction'', ''cost'', ''suggested_priority'', ''preconditions'',
     ''public_rationale'', ''relies_on'', ''serves'', ''step'', ''phases'', ''project_id'', ''after_step'', ''public_title'', ''urgency'']"

definition RULE_FIELDS :: "string list" where
  "RULE_FIELDS = [''proposal_id'', ''decision'', ''reason'', ''public_rationale'', ''urgency'']"

definition PROJECT_FIELDS :: "string list" where
  "PROJECT_FIELDS = [''from_ruling'', ''objective_id'', ''template'', ''summary'', ''because'', ''steps'', ''public_title'',
     ''public_rationale'', ''urgency'']"

definition AMEND_FIELDS :: "string list" where
  "AMEND_FIELDS = [''project_id'', ''steps'', ''reason'', ''replaces'', ''adds'', ''drops'', ''public_rationale'']"

fun filing_tool :: "string \<Rightarrow> (string \<times> string list \<times> bool) option" where
  "filing_tool tid =
     (if tid = ''queue.propose'' then Some (''proposal'', PROPOSE_FIELDS, True)
      else if tid = ''queue.pass'' then Some (''pass'', [''reason''], True)
      else if tid = ''queue.rule'' then Some (''ruling'', RULE_FIELDS, True)
      else if tid = ''queue.ask'' then Some (''ask'', [''question'', ''proposal_id'', ''to''], False)
      else if tid = ''queue.answer'' then Some (''answer'', [''ask_id'', ''answer'', ''pile_spec''], False)
      else if tid = ''queue.executed'' then Some (''executed'', [''ruling_id'', ''step_id'', ''actions'', ''notes''], False)
      else if tid = ''queue.escalate'' then Some (''escalation'', [''reason''], False)
      else if tid = ''queue.project'' then Some (''project'', PROJECT_FIELDS, True)
      else if tid = ''queue.amend'' then Some (''amend'', AMEND_FIELDS, True)
      else if tid = ''queue.abandon'' then Some (''abandon'', [''project_id'', ''reason'', ''public_rationale''], True)
      else None)"

declare filing_tool.simps [simp del]

definition reject_unknown :: "string list \<Rightarrow> obj \<Rightarrow> 'a call \<Rightarrow> 'a call" where
  "reject_unknown known args m = (if list_ex (\<lambda>k. k \<notin> set known) (map fst args)
     then refuse_call ''role/id/ts/cycle/snapshot are stamped by the server and must not be supplied'' else m)"

definition taken :: "string list \<Rightarrow> obj \<Rightarrow> obj" where
  "taken keys args = map (\<lambda>k. (k, getj args k)) (filter (has args) keys)"

definition stamped_record :: "string \<Rightarrow> string \<Rightarrow> int \<Rightarrow> string list \<Rightarrow> obj \<Rightarrow> obj" where
  "stamped_record kind role tick keys args =
     [(''kind'', JStr kind), (''role'', JStr role), (''cycle'', JInt tick), (''snapshot'', JStr (''tick-'' @ dec_int tick))] @ taken keys args"

definition append_locked :: "host \<Rightarrow> obj \<Rightarrow> json \<Rightarrow> obj call" where
  "append_locked h record game_tick = store_op h ''append'' (\<lambda>now q. append_in_conn (xh_cf h) now q record game_tick)"

definition file_record :: "queue_env \<Rightarrow> string \<Rightarrow> string \<Rightarrow> string list \<Rightarrow> bool \<Rightarrow> obj \<Rightarrow> obj call" where
  "file_record env role kind keys ticked args = reject_unknown keys args (andthen (stamp (qe_host env)) (\<lambda>tick.
     append_locked (qe_host env) (stamped_record kind role tick keys args) (if ticked then JInt tick else JNull)))"

text \<open>A Planner's pass is a plan review that filed nothing.\<close>

definition file_pass :: "queue_env \<Rightarrow> string \<Rightarrow> obj \<Rightarrow> obj call" where
  "file_pass env role args = reject_unknown [''reason''] args (andthen (stamp (qe_host env)) (\<lambda>tick.
     andthen (append_locked (qe_host env) (stamped_record ''pass'' role tick [''reason''] args) (JInt tick)) (\<lambda>r.
       if role = PLAN_ROLE then andthen (store_op (qe_host env) ''mark_plan_reviewed'' (\<lambda>_ q. Ok ((), mark_plan_reviewed tick q))) (\<lambda>_. give r)
       else give r)))"

subsection \<open>Cited facts\<close>

text \<open>\<open>node[int(part)]\<close> counts from the end for a negative number.\<close>

fun extract_field :: "string list \<Rightarrow> json \<Rightarrow> json option" where
  "extract_field [] v = Some v"
| "extract_field (p # ps) v = (case v of
      JArr xs \<Rightarrow> (case parse_int p of
          None \<Rightarrow> None
        | Some i \<Rightarrow> let n = int (length xs); j = (if i < 0 then i + n else i) in
            if 0 \<le> j \<and> j < n then extract_field ps (xs ! nat j) else None)
    | JObj kvs \<Rightarrow> Option.bind (map_of kvs p) (extract_field ps)
    | _ \<Rightarrow> None)"

definition fact_args :: "obj \<Rightarrow> obj" where
  "fact_args ref = (if truthy (getj ref ''args'') then fields_of (getj ref ''args'') else [])"

definition read_cited_fact :: "queue_env \<Rightarrow> string \<Rightarrow> obj \<Rightarrow> json call" where
  "read_cited_fact env role ref s =
     (let tool = str_of (getj ref ''tool''); args = fact_args ref; t = s\<lparr>ss_events := ss_events s @ [Read tool args]\<rparr> in
      case Option.bind (qe_fact env (ss_events s) role tool args) (extract_field (split_on (CHR ''.'') (str_of (getj ref ''field'')))) of
        None \<Rightarrow> refuse_call ''the read failed, or the field is not in the result'' t
      | Some v \<Rightarrow> if is_scalar_fact v then give v t else refuse_call ''the field is not a single number, boolean or short string'' t)"

definition cited_entry :: "obj \<Rightarrow> json \<Rightarrow> int \<Rightarrow> json" where
  "cited_entry ref v tick = JObj [(''tool'', getj ref ''tool''), (''args'', JObj (fact_args ref)), (''field'', getj ref ''field''),
     (''value'', v), (''tick'', JInt tick)]"

text \<open>One bound for all the reads of a filing.\<close>

fun read_citations :: "queue_env \<Rightarrow> string \<Rightarrow> int \<Rightarrow> obj list \<Rightarrow> json list call" where
  "read_citations env role tick [] = give []"
| "read_citations env role tick (ref # refs) = andthen (read_cited_fact env role ref) (\<lambda>v s.
     if qe_late env (ss_events s) then refuse_call ''server busy, file again (the cited reads timed out; nothing was written)'' s
     else andthen (read_citations env role tick refs) (\<lambda>vs. give (cited_entry ref v tick # vs)) s)"

subsection \<open>A proposal\<close>

definition with_citations :: "queue_env \<Rightarrow> string \<Rightarrow> int \<Rightarrow> obj \<Rightarrow> obj call" where
  "with_citations env role tick record =
     (if \<not> has record ''relies_on'' then give record
      else refuse_all (validate_fact_list record ''relies_on'' False)
        (andthen (read_citations env role tick (map fields_of (items_of (getj record ''relies_on''))))
          (\<lambda>cs. give (setj record ''cited'' (JArr cs)))))"

definition with_step_check :: "queue_env \<Rightarrow> json \<Rightarrow> obj \<Rightarrow> obj call" where
  "with_step_check env urgency record =
     (let step = fields_of (getj record ''step'') in
      if \<not> has record ''step'' then give record
      else if \<not> (is_obj (getj record ''step'') \<and> is_str (getj step ''tool'') \<and> is_obj (getj step ''args''))
      then refuse_call ''step needs a tool and an args object''
      else andthen (check_filing (qe_host env) (qe_registry env) record urgency)
        (\<lambda>us. give (fold (\<lambda>(k, v) r. setj r k v) us record)))"

definition propose :: "queue_env \<Rightarrow> string \<Rightarrow> obj \<Rightarrow> obj call" where
  "propose env role args = reject_unknown PROPOSE_FIELDS args (andthen (stamp (qe_host env)) (\<lambda>tick.
     let urgency = getj args ''urgency''; record = stamped_record ''proposal'' role tick (butlast PROPOSE_FIELDS) args in
     if urgency \<noteq> JNull \<and> \<not> has record ''step'' then refuse_call ''urgency belongs to a proposal with a step''
     else andthen (with_citations env role tick record) (\<lambda>cited.
       andthen (with_step_check env urgency cited) (\<lambda>checked.
       append_locked (qe_host env) checked (JInt tick)))))"

subsection \<open>What is pending\<close>

definition pending_call :: "queue_env \<Rightarrow> string \<Rightarrow> obj \<Rightarrow> obj call" where
  "pending_call env role args = reject_unknown [''limit''] args
     (let l = getj args ''limit''; h = qe_host env; answers = role \<in> set (answer_roles (cf_roster (xh_cf h)));
          n = (if l = JNull then None else Some (nat (int_of l))) in
      if l \<noteq> JNull \<and> \<not> (is_int l \<and> int_of l > 0) then refuse_call ''limit must be a positive integer''
      else andthen (store_read h (if answers then ''open_asks'' else ''pending_proposals'')
          (\<lambda>q. if answers then open_asks q n (Some role) else pending_proposals q n)) (\<lambda>rs.
        give [(''count'', JInt (int (length rs))),
          ((if answers then ''ask_ids'' else ''proposal_ids''), JArr (map (\<lambda>r. getj r ''id'') rs))]))"

subsection \<open>The dispatch\<close>

definition queue_tool :: "queue_env \<Rightarrow> string \<Rightarrow> string \<Rightarrow> obj \<Rightarrow> obj call option" where
  "queue_tool env tid role args =
     (if tid = ''queue.propose'' then Some (propose env role args)
      else if tid = ''queue.pass'' then Some (file_pass env role args)
      else if tid = ''queue.pending'' then Some (pending_call env role args)
      else map_option (\<lambda>(kind, keys, ticked). file_record env role kind keys ticked args) (filing_tool tid))"

end
