(* ===== verification/Serve.thy ===== *)
theory Serve
  imports Queue_Tools
begin

section \<open>A tool call of a role, at the server\<close>

text \<open>
  \<open>dfmcp/server.py\<close> and \<open>dfmcp/direct_actions.py\<close>: a request names a tool; the roster decides; a call that reads or
  previews becomes a command line of the game, a direct write of the sole writer is checked by a dry run and filed
  as an accepted proposal, and a queue tool goes to \<open>Queue_Tools\<close>. The server's other tools are outside (\<open>To_module\<close>),
  as are the guidance added to a result and the log line.
\<close>

subsection \<open>Direct actions\<close>

definition is_direct_tool :: "config \<Rightarrow> string \<Rightarrow> string \<Rightarrow> bool" where
  "is_direct_tool cf tid role = (role = sole_writer (cf_roster cf) \<and> tid \<in> set (direct_tools (cf_routing cf)))"

definition is_preview :: "(json \<Rightarrow> string) \<Rightarrow> tool_entry \<Rightarrow> obj \<Rightarrow> bool" where
  "is_preview pr t args =
     (if \<not> takes_dry_run (reg_tool.truncate t) then False
      else let given = getj args DRY_RUN_ARG;
             v = (if given = JNull then JStr (case map_of (te_defaults t) ''DRY_RUN'' of None \<Rightarrow> ''true'' | Some d \<Rightarrow> d) else given) in
        if is_bool v then v = JBool True else lower (strip (py_str pr v)) \<notin> {''false'', ''0'', ''no'', ''off''})"

definition PREDICTION :: obj where
  "PREDICTION = [(''signal'', JStr ''fort.population''), (''op'', JStr ''gte''), (''value'', JInt 1), (''check_after_ticks'', JInt 1200)]"

definition compact_args :: "(rat \<Rightarrow> string) \<Rightarrow> obj \<Rightarrow> string" where
  "compact_args fr args = join '' '' (map (\<lambda>(k, v). k @ ''='' @ (case v of JStr s \<Rightarrow> s | _ \<Rightarrow> dumps fr False v)) args)"

definition direct_proposal :: "config \<Rightarrow> string \<Rightarrow> int \<Rightarrow> string \<Rightarrow> obj \<Rightarrow> obj" where
  "direct_proposal cf role tick tid args =
     [(''kind'', JStr ''proposal''), (''role'', JStr role), (''cycle'', JInt tick), (''snapshot'', JStr (''tick-'' @ dec_int tick)),
      (''type'', (case direct_type (cf_routing cf) of None \<Rightarrow> JNull | Some ty \<Rightarrow> JStr ty)),
      (''summary'', JStr (clip_text 200 (strip (tid @ '' '' @ compact_args (cf_float_repr cf) args)))),
      (''rationale'', JStr (''The Overseer called '' @ tid @ '' directly; recorded as a ready-ruled action the conductor runs.'')),
      (''prediction'', JObj PREDICTION),
      (''cost'', JObj [(''estimate'', JInt 1), (''unit'', JStr ''dwarf_ticks'')]),
      (''suggested_priority'', JInt 4), (''preconditions'', JArr []),
      (''public_title'', JStr (clip_text PUBLIC_TITLE_MAX tid)),
      (''public_rationale'', JStr ''The Overseer acted directly; the conductor carries it out.''),
      (''step'', JObj [(''tool'', JStr tid), (''args'', JObj args)])]"

definition direct_ruling :: "string \<Rightarrow> int \<Rightarrow> obj" where
  "direct_ruling role tick =
     [(''kind'', JStr ''ruling''), (''role'', JStr role), (''cycle'', JInt tick), (''snapshot'', JStr (''tick-'' @ dec_int tick)),
      (''decision'', JStr ''accept''), (''reason'', JStr ''A direct call by the Overseer: ruled when made, run by the conductor.''),
      (''public_rationale'', JStr ''The Overseer acted directly; the conductor carries it out.'')]"

text \<open>The arguments that are recorded: the dry run is the server's to ask for.\<close>

definition recorded_args :: "obj \<Rightarrow> obj" where
  "recorded_args args = filter (\<lambda>(k, _). lower k \<noteq> DRY_RUN_ARG) args"

definition dry_check :: "host \<Rightarrow> string \<Rightarrow> obj \<Rightarrow> unit call" where
  "dry_check h tid args = andthen (call_out h Dry tid (setj args DRY_RUN_ARG (JStr ''true''))) (\<lambda>r. case r of
      Call_failed e \<Rightarrow> refuse_call e
    | Not_sent e \<Rightarrow> refuse_call (tid @ '': server busy, call again; nothing was queued'')
    | Outcome_unknown e \<Rightarrow> refuse_call (tid @ '': server busy, call again; nothing was queued'')
    | Other_error e \<Rightarrow> fail Crashed
    | Cancelled \<Rightarrow> fail Stopped
    | Answer dry \<Rightarrow> (case spec_of h tid of
        None \<Rightarrow> fail Crashed
      | Some sp \<Rightarrow> (case judge (xh_pr h) (case sp of None \<Rightarrow> direct_spec tid True JNull | Some x \<Rightarrow> x) dry True of
          Passed \<Rightarrow> give ()
        | Declined why \<Rightarrow> refuse_call why
        | Invalid why _ \<Rightarrow> refuse_call (tid @ '': its dry run gave an unusable result; nothing was queued''))))"

text \<open>Any failure of the store is a refusal.\<close>

definition crash_refused :: "string \<Rightarrow> 'a call \<Rightarrow> 'a call" where
  "crash_refused e m s = (case m s of (Inl Crashed, t) \<Rightarrow> (Inl (Tool_error [e]), t) | r \<Rightarrow> r)"

definition file_action :: "host \<Rightarrow> tool_entry \<Rightarrow> string \<Rightarrow> string \<Rightarrow> obj \<Rightarrow> obj call" where
  "file_action h t role tid arguments =
     (let args = recorded_args arguments; cf = xh_cf h in
      case argv_for_call (xh_pr h) t args of
        Inl Schema_error \<Rightarrow> fail Crashed
      | Inl No_verb \<Rightarrow> fail Crashed
      | Inl e \<Rightarrow> refuse_call ''arguments''
      | Inr argv \<Rightarrow>
          andthen (if takes_dry_run (reg_tool.truncate t) then dry_check h tid args else give ()) (\<lambda>_.
          andthen (stamp h) (\<lambda>tick.
          andthen (crash_refused (tid @ '': could not be queued'') (store_op h ''file_direct_action'' (\<lambda>now q.
              file_direct_action cf now q (direct_proposal cf role tick tid args) (direct_ruling role tick) (JInt tick))))
            (\<lambda>(prop', rul). give [(''queued'', JBool True), (''proposal_id'', getj prop' ''id''),
              (''ruling_id'', getj rul ''id''), (''tool'', JStr tid)]))))"

subsection \<open>The request\<close>

record tool_result =
  tr_text :: string
  tr_structured :: "json option"
  tr_error :: bool

definition error_result :: "string \<Rightarrow> tool_result" where
  "error_result e = \<lparr>tr_text = e, tr_structured = None, tr_error = True\<rparr>"

definition read_output :: "string \<Rightarrow> pool_reply \<Rightarrow> tool_result" where
  "read_output tid r = (case r of
      Call_error e \<Rightarrow> error_result e
    | Never_sent e \<Rightarrow> error_result (''DFHack is unreachable: '' @ e)
    | Broken e \<Rightarrow> error_result (''DFHack is unreachable: '' @ e)
    | Protocol_broken e \<Rightarrow> error_result (''DFHack protocol error: '' @ e)
    | Printed raw Blank \<Rightarrow> \<lparr>tr_text = raw, tr_structured = None, tr_error = False\<rparr>
    | Printed raw Not_json \<Rightarrow> error_result (tid @ '' printed output that is not valid JSON'')
    | Printed raw (Shows v) \<Rightarrow> (case only_error v of
        Some e \<Rightarrow> error_result e
      | None \<Rightarrow> \<lparr>tr_text = raw, tr_structured = Some (if is_obj v then v else JObj [(''result'', v)]),
          tr_error = (is_obj v \<and> getj (fields_of v) ''ok'' = JBool False \<and> is_str (getj (fields_of v) ''error''))\<rparr>))"

text \<open>What becomes of a request: turned down, an exception, handed to another module of the server, answered by a
  queue tool, filed as a direct action, or run as a command line.\<close>

datatype served = Turned_down errors | Server_error | To_module string | Answered obj | Filed obj | Ran_line string "string list" tool_result

definition run_dfhack_tool :: "server \<Rightarrow> tool_entry \<Rightarrow> string \<Rightarrow> obj \<Rightarrow> xevent list \<Rightarrow> served" where
  "run_dfhack_tool sv t tid args tr = (case argv_for_call (xh_pr (sv_base sv)) t args of
      Inl Schema_error \<Rightarrow> Server_error
    | Inl No_verb \<Rightarrow> Server_error
    | Inl e \<Rightarrow> Turned_down [''arguments'']
    | Inr argv \<Rightarrow> Ran_line (hd argv) (tl argv) (read_output tid (sv_run sv tr (hd argv) (tl argv))))"

definition server_queue :: "server \<Rightarrow> queue_env" where
  "server_queue sv = \<lparr>qe_host = server_host sv, qe_registry = sv_registry sv, qe_fact = read_fact sv, qe_late = sv_late sv\<rparr>"

text \<open>How a call of the queue ends at the server.\<close>

definition settle_call :: "(obj \<Rightarrow> served) \<Rightarrow> (failure + obj) \<times> session \<Rightarrow> served \<times> session" where
  "settle_call done' r = (case r of
      (Inr out, u) \<Rightarrow> (done' out, u)
    | (Inl (Tool_error es), u) \<Rightarrow> (Turned_down es, u)
    | (Inl _, u) \<Rightarrow> (Server_error, u))"

text \<open>A call the roster allows: a native tool, a direct write, or a line of the game.\<close>

definition dispatch :: "server \<Rightarrow> tool_entry \<Rightarrow> string \<Rightarrow> string \<Rightarrow> obj \<Rightarrow> session \<Rightarrow> served \<times> session" where
  "dispatch sv t tid role args s =
     (if te_native t then (case queue_tool (server_queue sv) tid role args of
                  None \<Rightarrow> (To_module tid, s)
                | Some m \<Rightarrow> settle_call Answered (m s))
              else if is_direct_tool (xh_cf (sv_base sv)) tid role \<and> \<not> is_preview (xh_pr (sv_base sv)) t args
              then settle_call Filed (file_action (server_host sv) t role tid args s)
              else (run_dfhack_tool sv t tid args (ss_events s), s))"

definition handle_call_tool :: "server \<Rightarrow> string option \<Rightarrow> string \<Rightarrow> obj \<Rightarrow> session \<Rightarrow> served \<times> session" where
  "handle_call_tool sv who name args s = (case who of
      None \<Rightarrow> (Turned_down [''no authenticated role for this request''], s)
    | Some role \<Rightarrow> (case map_of (sv_names sv) name of
        None \<Rightarrow> (Turned_down [''unknown tool''], s)
      | Some tid \<Rightarrow> (case check_access (sv_roster sv) role tid of
          Ok (False, why) \<Rightarrow> (Turned_down [why], s)
        | Ok (True, why) \<Rightarrow> (case tool_of (sv_registry sv) tid of
            None \<Rightarrow> (Server_error, s)
          | Some t \<Rightarrow> dispatch sv t tid role args s)
        | _ \<Rightarrow> (Server_error, s))))"

text \<open>\<open>_on_list_tools\<close>: the names \<open>tool_definitions\<close> gives a role, in the order of the ids.\<close>

definition listed_tools :: "server \<Rightarrow> (string \<times> string) list \<Rightarrow> string \<Rightarrow> string list" where
  "listed_tools sv id_to_name role = map (\<lambda>tid. case map_of id_to_name tid of Some n \<Rightarrow> n | None \<Rightarrow> [])
     (filter (\<lambda>tid. case check_access (sv_roster sv) role tid of Ok (ok, _) \<Rightarrow> ok | _ \<Rightarrow> False)
       (sorted_list_of_set (set (registry_ids (sv_registry sv)))))"

end
