(* ===== verification/Arg_Facts.thy ===== *)
theory Arg_Facts
  imports Tool_Args
begin

section \<open>What a command line says\<close>

text \<open>
  The names of tools and their ids determine each other; every word of a command line is one of a signature's
  choices or free of the characters a shell would read; and an argument's words stand at its own place, because
  every earlier place is taken (\<open>earlier_taken\<close>) or the call is refused.
\<close>

subsection \<open>Names\<close>

definition names_agree :: "(string \<times> string) list \<Rightarrow> (string \<times> string) list \<Rightarrow> bool" where
  "names_agree fwd bwd \<longleftrightarrow> (\<forall>tid n. map_of fwd tid = Some n \<longleftrightarrow> map_of bwd n = Some tid) \<and>
     (\<forall>tid n. map_of fwd tid = Some n \<longrightarrow> n = protocol_name tid \<and> legal_name n)"

lemma names_agree_update:
  assumes "names_agree fwd bwd" and "legal_name (protocol_name tid)" and "map_of bwd (protocol_name tid) = None"
  shows "names_agree (AList.update tid (protocol_name tid) fwd) (AList.update (protocol_name tid) tid bwd)"
proof -
  from assms have "map_of fwd tid = None" unfolding names_agree_def by (metis not_Some_eq)
  with assms show ?thesis unfolding names_agree_def by (auto simp: update_conv' split: if_splits)
qed

lemma tool_names_loop_agree:
  "tool_names_loop fwd bwd tids = Ok (f, b) \<Longrightarrow> names_agree fwd bwd \<Longrightarrow>
    names_agree f b \<and> dom (map_of f) = dom (map_of fwd) \<union> set tids"
proof (induction fwd bwd tids rule: tool_names_loop.induct)
  case (2 fwd bwd tid tids)
  from "2.prems"(1) have l: "legal_name (protocol_name tid)" "map_of bwd (protocol_name tid) = None"
    "tool_names_loop (AList.update tid (protocol_name tid) fwd) (AList.update (protocol_name tid) tid bwd) tids = Ok (f, b)"
    by (auto simp: Let_def split: if_splits option.splits)
  have "\<not> \<not> legal_name (protocol_name tid)" using l(1) by simp
  from "2.IH" [OF refl this l(2) l(3) names_agree_update [OF "2.prems"(2) l(1) l(2)]] show ?case
    by (auto simp: update_conv')
qed simp

lemma tool_names_agree:
  assumes "build_tool_names reg = Ok (f, b)"
  shows "names_agree f b \<and> dom (map_of f) = set (registry_ids reg)"
  using tool_names_loop_agree [OF assms [unfolded build_tool_names_def]] by (simp add: names_agree_def)

subsection \<open>Words\<close>

definition harmless :: "string \<Rightarrow> bool" where
  "harmless w = (\<not> list_ex (\<lambda>c. c \<in> set METACHARS) w)"

lemma digit_harmless: "digit_char c \<Longrightarrow> c \<notin> set METACHARS"
  by (auto simp: METACHARS_def digit_char_def)

lemma minus_harmless: "CHR ''-'' \<notin> set METACHARS"
  by code_simp

lemma dec_int_harmless: "harmless (dec_int i)"
  by (auto simp: harmless_def dec_int_def list_ex_iff minus_harmless dest: dec_digits digit_harmless)

lemma integer_text_harmless:
  assumes "integer_text s"
  shows "harmless s"
proof (cases "starts_with s ''-''")
  case True
  then obtain d where "s = CHR ''-'' # d" by (cases s) (auto simp: starts_with_def)
  with assms show ?thesis
    by (auto simp: harmless_def integer_text_def Let_def list_ex_iff list_all_iff minus_harmless starts_with_def dest: digit_harmless)
next
  case False
  with assms show ?thesis by (auto simp: harmless_def integer_text_def Let_def list_ex_iff list_all_iff dest: digit_harmless)
qed

lemma validate_value_word:
  assumes "validate_value pr s v = Inr w"
  shows "case ag_choices s of Some cs \<Rightarrow> w \<in> set cs | None \<Rightarrow> harmless w"
proof (cases "ag_choices s")
  case (Some cs)
  with assms show ?thesis by (auto simp: validate_value_def split: if_splits)
next
  case None
  with assms show ?thesis
    by (cases v) (auto simp: validate_value_def dec_int_harmless integer_text_harmless harmless_def [of "py_str pr _"]
        is_bool_def split: if_splits)
qed

lemma all_words_Inr: "all_words rs = Inr ws \<longleftrightarrow> rs = map Inr ws"
proof (induction rs arbitrary: ws rule: all_words.induct)
  case (3 w rs)
  show ?case
  proof (cases "all_words rs")
    case (Inl e)
    then have "rs \<noteq> map Inr us" for us using "3.IH" [of us] by simp
    with Inl show ?thesis by (auto simp: Cons_eq_map_conv)
  next
    case (Inr us)
    with "3.IH" [of us] show ?thesis by (cases ws) (auto dest: arg_cong [of _ _ "map projr"])
  qed
qed auto

text \<open>A call that is not refused.\<close>

lemma argv_parts:
  assumes "argv_for_call pr t args = Inr argv" and "arg_specs (rt_args t) = Some specs"
  obtains script verb ws filled where "argv = script # verb # ws"
    and "gap_check t specs args (slots_from 0 [] specs) = Inr filled"
    and "concat (map (words_at pr specs args filled) [0..<length specs]) = map Inr ws"
    and "\<forall>u \<in> set (slots_from 0 [] specs). \<not> torn specs args u"
    and "\<forall>s \<in> set specs. ag_required s \<longrightarrow> is_supplied s args"
    and "\<forall>k \<in> set (map fst args). k \<in> set (map ag_name specs)"
  using assms
  by (auto simp: argv_for_call_def Let_def all_words_Inr find_None_iff filter_empty_conv split: if_splits option.splits sum.splits)

lemma argv_specs: "argv_for_call pr t args = Inr argv \<Longrightarrow> \<exists>specs. arg_specs (rt_args t) = Some specs"
  by (auto simp: argv_for_call_def split: option.splits)

lemma words_at_valid: "r \<in> set (words_at pr specs args filled i) \<Longrightarrow> \<exists>v. r = validate_value pr (specs ! i) v"
  by (auto simp: words_at_def Let_def split: if_splits option.splits)

lemma argv_words:
  assumes "argv_for_call pr t args = Inr (script # verb # ws)" and "arg_specs (rt_args t) = Some specs" and "w \<in> set ws"
  shows "harmless w \<or> (\<exists>s \<in> set specs. \<exists>cs. ag_choices s = Some cs \<and> w \<in> set cs)"
proof -
  obtain filled where c: "concat (map (words_at pr specs args filled) [0..<length specs]) = map Inr ws"
    by (rule argv_parts [OF assms(1,2)]) auto
  from assms(3) have "Inr w \<in> set (map Inr ws)" by simp
  with c obtain i where i: "i < length specs" "Inr w \<in> set (words_at pr specs args filled i)"
    by (metis (no_types, lifting) UN_E atLeastLessThan_iff set_concat set_map set_upt image_iff)
  then obtain v where "validate_value pr (specs ! i) v = Inr w" by (metis words_at_valid)
  with validate_value_word [OF this] i(1) show ?thesis by (auto split: option.splits)
qed

subsection \<open>Slots\<close>

text \<open>What a token says of its arguments; \<open>numbered\<close> keeps it.\<close>

definition of_token :: "arg_spec \<Rightarrow> bool" where
  "of_token s \<longleftrightarrow> (ag_required s \<longleftrightarrow> bracketed (ag_raw s) = None) \<and> (ag_group s = None \<or> ag_group s = Some (ag_raw s))"

lemma those_eq: "those xs = Some ys \<longleftrightarrow> xs = map Some ys"
  by (induction xs arbitrary: ys) (auto split: option.splits simp: Cons_eq_map_conv)

lemma parse_one_fields:
  "parse_one w r raw g = Some s \<Longrightarrow> ag_required s = r \<and> ag_raw s = raw \<and> ag_group s = g"
  by (auto simp: parse_one_def Let_def split: if_splits)

lemma bind_if_Some: "Option.bind m (\<lambda>x. if p x then None else Some x) = Some y \<longleftrightarrow> m = Some y \<and> \<not> p y"
  by (cases m) auto

lemma map_Some_mem: "map f xs = map Some ys \<Longrightarrow> y \<in> set ys \<Longrightarrow> \<exists>x. f x = Some y"
  by (metis (no_types) in_set_conv_nth length_map nth_map)

lemma words_cases [case_names zero one more]:
  "(xs = [] \<Longrightarrow> P) \<Longrightarrow> (\<And>x. xs = [x] \<Longrightarrow> P) \<Longrightarrow> (\<And>x y ys. xs = x # y # ys \<Longrightarrow> P) \<Longrightarrow> P"
  by (cases xs rule: remdups_adj.cases) auto

lemma parse_tokens_of_token:
  assumes "parse_arg_tokens tok = Some ss" and "s \<in> set ss"
  shows "of_token s"
proof -
  from assms obtain w g where "parse_one w (bracketed tok = None) tok g = Some s" "g = None \<or> g = Some tok"
  proof (cases "words_of (case bracketed tok of None \<Rightarrow> tok | Some i \<Rightarrow> strip i)" rule: words_cases)
    case zero
    with assms show ?thesis by (auto simp: parse_arg_tokens_def Let_def split: if_splits)
  next
    case (one w)
    with assms that [of w None] show ?thesis by (auto simp: parse_arg_tokens_def Let_def split: if_splits)
  next
    case (more v w ws)
    let ?f = "\<lambda>w. parse_one w False tok (Some tok)"
    have b: "bracketed tok \<noteq> None"
      using more assms(1) by (auto simp: parse_arg_tokens_def Let_def split: if_splits)
    then obtain i where i: "bracketed tok = Some i" by blast
    with more have more': "words_of (strip i) = v # w # ws" by simp
    from assms(1) have t: "those (map ?f (v # w # ws)) = Some ss"
      by (simp only: parse_arg_tokens_def Let_def i more' option.case list.case bind_if_Some option.distinct if_False if_True
          split: if_splits)
    from map_Some_mem [OF t [unfolded those_eq] assms(2)] obtain x where "?f x = Some s" by blast
    with i that [of x "Some tok"] show ?thesis by simp
  qed
  with parse_one_fields show ?thesis by (auto simp: of_token_def)
qed

lemma number_names_length [simp]: "length (number_names before ss) = length ss"
  by (induction before ss rule: number_names.induct) (auto simp: Let_def)

lemma number_names_nth: "i < length ss \<Longrightarrow> \<exists>n. number_names before ss ! i = (ss ! i)\<lparr>ag_name := n\<rparr>"
proof (induction before ss arbitrary: i rule: number_names.induct)
  case (2 before s ss)
  have "\<exists>n. s = s\<lparr>ag_name := n\<rparr>" by (rule exI [of _ "ag_name s"]) simp
  with 2 show ?case by (cases i) (auto simp: Let_def)
qed simp

lemma arg_specs_nth:
  assumes "arg_specs args = Some specs" and "i < length specs"
  shows "of_token (specs ! i)" and "Suc i < length specs \<Longrightarrow> \<not> ag_repeated (specs ! i)"
proof -
  from assms(1) obtain ss where ss: "map parse_arg_tokens args = map Some ss"
    "\<not> list_ex ag_repeated (butlast (concat ss))" "specs = number_names [] (concat ss)"
    by (auto simp: arg_specs_def bind_eq_Some_conv those_eq Let_def split: if_splits)
  with assms(2) have i: "i < length (concat ss)" by simp
  with number_names_nth [OF i, of "[]"] ss(3) obtain n where n: "specs ! i = (concat ss ! i)\<lparr>ag_name := n\<rparr>" by blast
  from nth_mem [OF i] obtain xs where xs: "xs \<in> set ss" "concat ss ! i \<in> set xs" by auto
  from xs(1) have "Some xs \<in> set (map parse_arg_tokens args)" by (simp add: ss(1))
  then obtain tok where "parse_arg_tokens tok = Some xs" by (metis imageE set_map)
  from parse_tokens_of_token [OF this xs(2)] n show "of_token (specs ! i)" by (simp add: of_token_def)
  assume "Suc i < length specs"
  with ss(3) have "i < length (butlast (concat ss))" by simp
  with ss(2) have "\<not> ag_repeated (butlast (concat ss) ! i)" by (auto simp: list_ex_iff)
  with \<open>i < length (butlast (concat ss))\<close> n show "\<not> ag_repeated (specs ! i)" by (simp add: nth_butlast)
qed

definition slot_ok :: "arg_spec list \<Rightarrow> slot \<Rightarrow> bool" where
  "slot_ok specs u \<longleftrightarrow> sl_members u \<noteq> [] \<and> (\<forall>i \<in> set (sl_members u). ag_required (specs ! i) = sl_required u \<and> ag_raw (specs ! i) = sl_raw u)"

lemma slots_from_ok:
  assumes "\<forall>s \<in> set specs. of_token s"
  shows "specs = pre @ ss \<Longrightarrow> i = length pre \<Longrightarrow> concat (map sl_members us) = [0..<i] \<Longrightarrow> \<forall>u \<in> set us. slot_ok specs u \<Longrightarrow>
    concat (map sl_members (slots_from i us ss)) = [0..<length specs] \<and> (\<forall>u \<in> set (slots_from i us ss). slot_ok specs u)"
proof (induction i us ss arbitrary: pre rule: slots_from.induct)
  case (2 i us s ss)
  have s: "specs ! i = s" "of_token s" using "2.prems" assms by auto
  show ?case
  proof (cases "ag_group s \<noteq> None \<and> us \<noteq> [] \<and> ag_group s = Some (sl_raw (last us))")
    case True
    let ?us = "butlast us @ [(last us)\<lparr>sl_members := sl_members (last us) @ [i]\<rparr>]"
    from True have l: "last us \<in> set us" "us = butlast us @ [last us]" by auto
    with "2.prems"(4) have lo: "slot_ok specs (last us)" by blast
    then have "sl_members (last us) \<noteq> []" by (simp add: slot_ok_def)
    then obtain k where k: "k \<in> set (sl_members (last us))" by (meson last_in_set)
    from "2.prems"(3) k l(1) have "k < i" by (metis (no_types, lifting) UN_I atLeastLessThan_iff set_concat set_map set_upt image_eqI)
    with "2.prems"(1,2) have "k < length specs" by simp
    with assms have "of_token (specs ! k)" by simp
    with lo k have r: "sl_required (last us) \<longleftrightarrow> bracketed (sl_raw (last us)) = None" by (auto simp: slot_ok_def of_token_def)
    with r s True have m: "ag_required s = sl_required (last us)" "ag_raw s = sl_raw (last us)" by (auto simp: of_token_def)
    from "2.prems"(3) True have "concat (map sl_members ?us) = [0..<Suc i]"
      by (cases us rule: rev_cases) (simp_all add: append_assoc [symmetric] del: append_assoc)
    moreover from "2.prems"(4) lo m s have "\<forall>u \<in> set ?us. slot_ok specs u"
      by (auto simp: slot_ok_def dest: in_set_butlastD)
    ultimately show ?thesis using True "2.IH"(1) [of "pre @ [s]"] "2.prems"(1,2) by simp
  next
    case False
    with "2.IH"(2) [of "pre @ [s]"] "2.prems" s show ?thesis
      by (auto simp: slot_ok_def of_token_def split: option.splits)
  qed
qed simp

lemma slots_ok:
  assumes "arg_specs args = Some specs"
  shows "concat (map sl_members (slots_from 0 [] specs)) = [0..<length specs]"
    and "u \<in> set (slots_from 0 [] specs) \<Longrightarrow> slot_ok specs u"
proof -
  have "\<forall>s \<in> set specs. of_token s" using arg_specs_nth(1) [OF assms] by (metis in_set_conv_nth)
  from slots_from_ok [OF this, of "[]" specs 0 "[]"]
  show "concat (map sl_members (slots_from 0 [] specs)) = [0..<length specs]"
    "u \<in> set (slots_from 0 [] specs) \<Longrightarrow> slot_ok specs u" by auto
qed

text \<open>Where two arguments stand in different slots, the earlier one's slot comes first.\<close>

lemma slot_order:
  assumes "concat (map sl_members us) = [0..<n]" and "us = A @ u # B" and "i \<in> set (sl_members u)" and "j < i"
  shows "j \<in> set (sl_members u) \<or> (\<exists>v \<in> set A. j \<in> set (sl_members v))"
proof -
  let ?c = "\<lambda>vs. concat (map sl_members vs)"
  from assms(1,2) have e: "?c A @ sl_members u @ ?c B = [0..<n]" by simp
  then have s: "sorted_wrt (<) (?c A @ sl_members u @ ?c B)" by simp
  from arg_cong [OF e, of set] assms(3) have "i < n" by auto
  with assms(4) have "j \<in> set (?c A @ sl_members u @ ?c B)" unfolding e by simp
  moreover have "j \<notin> set (?c B)" using s assms(3,4) by (fastforce simp: sorted_wrt_append)
  ultimately show ?thesis by auto
qed

lemma prefix_before: "xs @ u # ys = zs @ l # ws \<Longrightarrow> u \<notin> set ws \<Longrightarrow> set xs \<subseteq> set zs"
  by (auto simp: append_eq_append_conv2 append_eq_Cons_conv Cons_eq_append_conv)

lemma up_to_given_split:
  obtains R where "filter (\<lambda>u. \<not> sl_required u) us = rev (up_to_given specs args us) @ R"
    and "\<forall>x \<in> set R. \<not> slot_given specs args x"
proof
  let ?r = "rev (filter (\<lambda>u. \<not> sl_required u) us)" and ?g = "\<lambda>u. \<not> slot_given specs args u"
  have "rev (takeWhile ?g ?r @ dropWhile ?g ?r) = filter (\<lambda>u. \<not> sl_required u) us" by simp
  then show "filter (\<lambda>u. \<not> sl_required u) us = rev (up_to_given specs args us) @ rev (takeWhile ?g ?r)"
    by (simp only: up_to_given_def rev_append)
  show "\<forall>x \<in> set (rev (takeWhile ?g ?r)). ?g x" by (auto dest: set_takeWhileD)
qed

lemma fill_slots_taken:
  "fill_slots t specs args us = Inr fs \<Longrightarrow> u \<in> set us \<Longrightarrow> \<not> slot_given specs args u \<Longrightarrow> sl_raw u \<notin> set (te_skippable t) \<Longrightarrow>
    i \<in> set (sl_members u) \<Longrightarrow> i \<in> fst ` set fs \<and> map_of (te_defaults t) (upper (ag_name (specs ! i))) \<noteq> None"
proof (induction us arbitrary: fs)
  case (Cons v us)
  show ?case
  proof (cases "slot_given specs args v \<or> sl_raw v \<in> set (te_skippable t)")
    case True
    with Cons show ?thesis by auto
  next
    case False
    with Cons.prems(1) obtain ws gs where
      ws: "map (\<lambda>i. map_of (te_defaults t) (upper (ag_name (specs ! i)))) (sl_members v) = map Some ws"
      "fill_slots t specs args us = Inr gs" "fs = zip (sl_members v) ws @ gs"
      by (auto simp: those_eq split: option.splits sum.splits)
    show ?thesis
    proof (cases "u = v")
      case True
      from ws(1) have l: "length (sl_members v) = length ws" by (metis length_map)
      have "map_of (te_defaults t) (upper (ag_name (specs ! i))) \<in> set (map Some ws)"
        unfolding ws(1) [symmetric] using Cons.prems(5) True by simp
      moreover have "fst ` set (zip (sl_members v) ws) = set (sl_members v)" using l by (metis map_fst_zip set_map)
      ultimately show ?thesis using ws(3) Cons.prems(5) True by (auto simp: image_Un)
    next
      case False
      with Cons.prems Cons.IH [OF ws(2)] ws(3) show ?thesis by auto
    qed
  qed
qed simp

text \<open>Before an optional argument that is given, every optional place that may not be skipped is taken.\<close>

lemma earlier_taken:
  assumes "arg_specs (rt_args t) = Some specs" and "gap_check t specs args (slots_from 0 [] specs) = Inr filled"
    and "\<forall>u \<in> set (slots_from 0 [] specs). \<not> torn specs args u"
    and "i < length specs" and "is_supplied (specs ! i) args" and "\<not> ag_required (specs ! i)"
    and "j < i" and "\<not> ag_required (specs ! j)" and "ag_raw (specs ! j) \<notin> set (te_skippable t)"
  shows "is_supplied (specs ! j) args
    \<or> j \<in> fst ` set filled \<and> map_of (te_defaults t) (upper (ag_name (specs ! j))) \<noteq> None"
proof -
  let ?us = "slots_from 0 [] specs" and ?opt = "\<lambda>us. filter (\<lambda>u. \<not> sl_required u) us"
  note ok = slots_ok [OF assms(1)]
  from assms(4) have "i \<in> set (concat (map sl_members ?us))" unfolding ok(1) by simp
  then obtain u where u: "u \<in> set ?us" "i \<in> set (sl_members u)" by auto
  from split_list [OF this(1)] obtain A B where us: "?us = A @ u # B" by blast
  have whole: "is_supplied (specs ! a) args" if "v \<in> set ?us" "slot_given specs args v" "a \<in> set (sl_members v)" for v a
  proof (rule ccontr)
    assume n: "\<not> is_supplied (specs ! a) args"
    from that(2) obtain b where b: "b \<in> set (sl_members v)" "is_supplied (specs ! b) args"
      by (auto simp: slot_given_def list_ex_iff)
    with n have "a \<noteq> b" by auto
    with that(3) b(1) have "2 \<le> length (sl_members v)" by (cases "sl_members v" rule: words_cases) auto
    with n b that(3) have "torn specs args v" by (auto simp: torn_def given_names_def filter_empty_conv)
    with assms(3) that(1) show False by blast
  qed
  from u assms(5) have gu: "slot_given specs args u" by (auto simp: slot_given_def list_ex_iff)
  consider "j \<in> set (sl_members u)" | v where "v \<in> set A" "j \<in> set (sl_members v)"
    using slot_order [OF ok(1) us u(2) assms(7)] by blast
  then show ?thesis
  proof cases
    case 1
    from whole [OF u(1) gu this] show ?thesis by simp
  next
    case 2
    have vin: "v \<in> set ?us" using 2(1) us by simp
    with ok(2) 2(2) assms(8,9) have vo: "\<not> sl_required v" "sl_raw v \<notin> set (te_skippable t)" by (auto simp: slot_ok_def)
    from ok(2) [OF u(1)] u(2) assms(6) have uo: "\<not> sl_required u" by (auto simp: slot_ok_def)
    show ?thesis
    proof (cases "slot_given specs args v")
      case True
      from whole [OF vin True 2(2)] show ?thesis by simp
    next
      case False
      obtain R where sp: "?opt ?us = rev (up_to_given specs args ?us) @ R" and R: "\<forall>x \<in> set R. \<not> slot_given specs args x"
        by (rule up_to_given_split)
      have opt: "?opt ?us = ?opt A @ u # ?opt B" using uo by (simp add: us)
      have nu: "u \<notin> set R" using R gu by blast
      with sp opt have "up_to_given specs args ?us \<noteq> []" by auto
      then obtain l earlier where w: "up_to_given specs args ?us = l # earlier" by (meson neq_Nil_conv)
      have "?opt A @ u # ?opt B = rev earlier @ l # R" using trans [OF opt [symmetric] sp] unfolding w by simp
      from prefix_before [OF this nu] have "set (?opt A) \<subseteq> set (rev earlier)" .
      with 2(1) vo(1) have ve: "v \<in> set (rev earlier)" by auto
      from assms(2) w have "fill_slots t specs args (rev earlier) = Inr filled"
        by (auto simp: gap_check_def split: sum.splits)
      from fill_slots_taken [OF this ve False vo(2) 2(2)] show ?thesis by simp
    qed
  qed
qed

subsection \<open>Places\<close>

lemma gap_is_refused:
  assumes "arg_specs (rt_args t) = Some specs" and "i < j" and "j < length specs"
    and "\<not> ag_required (specs ! i)" and "\<not> ag_required (specs ! j)"
    and "is_supplied (specs ! j) args" and "\<not> is_supplied (specs ! i) args"
    and "ag_raw (specs ! i) \<notin> set (te_skippable t)" and "map_of (te_defaults t) (upper (ag_name (specs ! i))) = None"
  shows "\<exists>e. argv_for_call pr t args = Inl e"
proof (rule ccontr)
  assume "\<nexists>e. argv_for_call pr t args = Inl e"
  then obtain argv where a: "argv_for_call pr t args = Inr argv" by (metis sum.exhaust)
  show False
  proof (rule argv_parts [OF a assms(1)])
    fix script verb ws filled
    assume "gap_check t specs args (slots_from 0 [] specs) = Inr filled"
      and "\<forall>u \<in> set (slots_from 0 [] specs). \<not> torn specs args u"
    from earlier_taken [OF assms(1) this assms(3,6,5,2,4,8)] assms(7,9) show False by simp
  qed
qed

lemma words_at_single:
  assumes "is_supplied (specs ! j) args \<or> j \<in> fst ` set filled" and "\<not> ag_repeated (specs ! j)"
  shows "length (words_at pr specs args filled j) = 1"
proof (cases "is_supplied (specs ! j) args")
  case True
  with assms(2) show ?thesis by (simp add: words_at_def Let_def spec_items_def)
next
  case False
  with assms(1) have "map_of (rev filled) j \<noteq> None" by (simp add: map_of_eq_None_iff)
  with False show ?thesis by (auto simp: words_at_def Let_def)
qed

lemma argument_placed:
  assumes "argv_for_call pr t args = Inr (script # verb # ws)" and "arg_specs (rt_args t) = Some specs"
    and "te_skippable t = []" and "sorted_wrt (\<lambda>a b. ag_required b \<longrightarrow> ag_required a) specs"
    and "i < length specs" and "is_supplied (specs ! i) args"
  shows "\<exists>xs ys zs. ws = xs @ ys @ zs \<and> length xs = i \<and>
    map (validate_value pr (specs ! i)) (spec_items (specs ! i) (getj args (ag_name (specs ! i)))) = map Inr ys"
proof (rule argv_parts [OF assms(1,2)])
  fix script' verb' ws' filled
  let ?f = "words_at pr specs args filled" and ?n = "length specs"
  assume "script # verb # ws = script' # verb' # ws'" and gap: "gap_check t specs args (slots_from 0 [] specs) = Inr filled"
    and c: "concat (map ?f [0..<length specs]) = map Inr ws'" and whole: "\<forall>u \<in> set (slots_from 0 [] specs). \<not> torn specs args u"
    and req: "\<forall>s \<in> set specs. ag_required s \<longrightarrow> is_supplied s args"
  then have ws: "ws' = ws" by simp
  have single: "length (?f j) = 1" if "j < i" for j
  proof (rule words_at_single)
    show "\<not> ag_repeated (specs ! j)" using arg_specs_nth(2) [OF assms(2), of j] that assms(5) by simp
    show "is_supplied (specs ! j) args \<or> j \<in> fst ` set filled"
    proof (cases "ag_required (specs ! j)")
      case True
      with req that assms(5) show ?thesis by simp
    next
      case False
      with sorted_wrt_nth_less [OF assms(4) that assms(5)] have "\<not> ag_required (specs ! i)" by simp
      from earlier_taken [OF assms(2) gap whole assms(5,6) this that False] assms(3) show ?thesis by auto
    qed
  qed
  from assms(5) have "[0..<?n] = [0..<i] @ i # [Suc i..<?n]" by (metis le0 less_imp_le_nat upt_add_eq_append upt_conv_Cons le_add_diff_inverse)
  with c ws have "map Inr ws = concat (map ?f [0..<i]) @ ?f i @ concat (map ?f [Suc i..<?n])" by (metis concat.simps(2) concat_append list.map(2) map_append)
  then obtain xs ys zs where sp: "ws = xs @ ys @ zs" "map Inr xs = concat (map ?f [0..<i])" "map Inr ys = ?f i"
    by (auto simp: map_eq_append_conv append_eq_map_conv)
  have "length xs = length (concat (map ?f [0..<i]))" using arg_cong [OF sp(2), of length] by simp
  also have "\<dots> = sum_list (map (\<lambda>_. 1) [0..<i])" unfolding length_concat by (rule arg_cong [of _ _ sum_list]) (simp add: single)
  finally have "length xs = i" by (simp add: sum_list_triv)
  moreover have "?f i = map (validate_value pr (specs ! i)) (spec_items (specs ! i) (getj args (ag_name (specs ! i))))"
    using assms(6) by (simp add: words_at_def Let_def)
  ultimately show ?thesis using sp(1,3) by metis
qed

end
