(* ===== verification/Filing_Facts.thy ===== *)
theory Filing_Facts
  imports Queue_Tools Stage_Rules
begin

section \<open>What a role's filing leaves\<close>

text \<open>
  The locale \<open>storing\<close> extends \<open>settling\<close> by the writes a role's calls make; \<open>moves\<close> satisfies it: a queue tool moves the queue by operations of the store and makes no real call. What it files is the last record: of
  the kind of the tool, in the name of the caller, with the caller's fields and no others of his; every value it cites
  was read by the server; a step of a routed type passed its dry run.
\<close>

subsection \<open>What the parts of a filing may do\<close>

locale storing = settling +
  assumes appending: "append_in_conn (xh_cf h) now q r t = Ok (x, q') \<Longrightarrow>
      R \<lparr>ss_queue = q, ss_events = ev\<rparr> \<lparr>ss_queue = q', ss_events = ev\<rparr>"
    and reviewing: "R \<lparr>ss_queue = q, ss_events = ev\<rparr> \<lparr>ss_queue = mark_plan_reviewed tick q, ss_events = ev\<rparr>"
    and directing: "file_direct_action (xh_cf h) now q p r t = Ok (y, q') \<Longrightarrow>
      R \<lparr>ss_queue = q, ss_events = ev\<rparr> \<lparr>ss_queue = q', ss_events = ev\<rparr>"
begin

lemma in_refuse [stage]: "obeys R (refuse_call e)"
  by (simp add: refuse_call_def in_fail)

lemma in_refuse_all [stage]: "obeys R m \<Longrightarrow> obeys R (refuse_all es m)"
  by (simp add: refuse_all_def in_fail)

lemma in_reject [stage]: "obeys R m \<Longrightarrow> obeys R (reject_unknown ks args m)"
  by (simp add: reject_unknown_def in_refuse)

lemma in_append [stage]: "obeys R (append_locked h record t)"
  unfolding append_locked_def by (rule in_store) (rule appending)

lemma in_issued_by_open [stage]: "obeys R (issued_by_open h v ps)"
  by (induction ps) (auto intro!: stage)

lemma in_handle_problem [stage]: "obeys R (handle_problem h parent v)"
proof -
  have "obeys R (store_op h n (\<lambda>_ q. obind (f q) (\<lambda>os. Ok (g os, q))))" for n and f :: "queue \<Rightarrow> 'x outcome" and g :: "'x \<Rightarrow> 'y"
    by (rule in_store) (auto simp: stays)
  then show ?thesis unfolding handle_problem_def by (auto intro!: stage split: json.splits)
qed

lemma in_handle_problems [stage]: "obeys R (handle_problems h parent vs)"
  by (induction vs) (auto intro!: stage)

lemma in_phase_check [stage]: "obeys R (phase_check h tool args phases)"
  unfolding phase_check_def by (auto intro!: stage split: json.splits option.splits reply.splits prod.splits)

lemma in_covered_by [stage]: "obeys R (covered_by h record args)"
  unfolding covered_by_def Let_def by (auto intro!: stage split: option.splits)

lemma in_preview_call [stage]: "obeys R (preview_call h reg spec tool args)"
  unfolding preview_call_def by (auto intro!: stage split: sum.splits arg_error.splits reply.splits call_verdict.splits)

lemma in_check_filing [stage]: "obeys R (check_filing h reg record urgency)"
  unfolding check_filing_def Let_def by (auto intro!: stage split: option.splits)

lemma in_read_cited [stage]: "obeys R (read_cited_fact env role ref)"
proof -
  have "R s (s\<lparr>ss_events := ss_events s @ [Read a b]\<rparr>)" for s a b
    by (rule event) (simp add: is_real_def)
  then show ?thesis
    unfolding obeys_def read_cited_fact_def Let_def refuse_call_def fail_def give_def by (auto split: option.splits)
qed

lemma in_read_citations [stage]: "obeys R (read_citations env role tick refs)"
proof (induction refs)
  case (Cons ref refs)
  have late: "obeys R (\<lambda>s. if qe_late env (ss_events s) then refuse_call e s else m s)" if "obeys R m" for e and m :: "json list call"
    using that in_refuse [of e] unfolding obeys_def by auto
  from Cons show ?case unfolding read_citations.simps by (intro stage late)
qed (simp add: in_give)

lemma in_propose [stage]:
  assumes "qe_host env = h"
  shows "obeys R (propose env role args)"
  unfolding propose_def Let_def with_citations_def with_step_check_def assms by (auto intro!: stage)

lemma in_pass [stage]:
  assumes "qe_host env = h"
  shows "obeys R (file_pass env role args)"
proof -
  have "obeys R (store_op h n (\<lambda>_ q. Ok ((), mark_plan_reviewed t q)))" for n t
    by (rule in_store) (auto simp: reviewing)
  then show ?thesis unfolding file_pass_def assms by (auto intro!: stage)
qed

lemma in_pending [stage]:
  assumes "qe_host env = h"
  shows "obeys R (pending_call env role args)"
  unfolding pending_call_def Let_def assms by (auto intro!: stage)

lemma in_file_record [stage]:
  assumes "qe_host env = h"
  shows "obeys R (file_record env role kind keys ticked args)"
  unfolding file_record_def assms by (auto intro!: stage)

lemma in_queue_tool:
  assumes "qe_host env = h" and "queue_tool env tid role args = Some m"
  shows "obeys R m"
  using assms(2) in_propose [OF assms(1)] in_pass [OF assms(1)] in_pending [OF assms(1)] in_file_record [OF assms(1)]
  unfolding queue_tool_def by (auto split: if_splits)

end

interpretation mw: storing h "moves h" for h
  by unfold_locales (auto simp: moves_def intro: q_append q_reviewed q_direct)

subsection \<open>The record that is filed\<close>

lemma append_in_conn_records:
  assumes "append_in_conn cf now q r t = Ok (r', q')" and "\<not> is_kind ''fort_plan'' r"
  shows "q_records q' = q_records q @ [r']"
    and "k \<notin> {''id'', ''ts'', ''duplicate_of'', ''steps''} \<Longrightarrow> getj r' k = getj r k"
    and "truthy (getj r ''steps'') \<or> \<not> is_kind ''project'' r \<Longrightarrow> getj r' ''steps'' = getj r ''steps''"
proof -
  from append_in_conn_plain [OF assms(1)] obtain q1 where p: "append_plain cf now q r t = Ok (r', q1)"
    and q1: "is_kind ''fort_plan'' r' \<or> q' = q1" by metis
  from p obtain r1 where f: "fill_in q now r = Some r1" "r' = flag_duplicate q r1" "q1 = commit_record r' t q"
    by (auto simp: append_plain_Ok)
  have r1: "getj r1 k = getj r k" if "k \<notin> {''id'', ''ts'', ''steps''}" for k
    using f(1) that by (auto simp: fill_in_def normalize_project_def Let_def split: if_splits)
  have "getj r1 ''steps'' = getj r ''steps''" if "truthy (getj r ''steps'') \<or> \<not> is_kind ''project'' r"
    using f(1) that by (auto simp: fill_in_def normalize_project_def is_kind_def Let_def split: if_splits)
  then show "truthy (getj r ''steps'') \<or> \<not> is_kind ''project'' r \<Longrightarrow> getj r' ''steps'' = getj r ''steps''" using f(2) by simp
  from r1 [of "''kind''"] f(2) assms(2) have "\<not> is_kind ''fort_plan'' r'" by (auto simp: is_kind_def)
  with q1 f(3) show "q_records q' = q_records q @ [r']" by simp
  show "k \<notin> {''id'', ''ts'', ''duplicate_of'', ''steps''} \<Longrightarrow> getj r' k = getj r k" using r1 f(2) by simp
qed

text \<open>\<open>out\<close> is the last record, and it is \<open>record\<close> but for what the store fills in.\<close>

definition filed_as :: "queue \<Rightarrow> obj \<Rightarrow> obj \<Rightarrow> bool" where
  "filed_as q record out \<longleftrightarrow> (\<exists>rs. q_records q = rs @ [out]) \<and>
     (\<forall>k. k \<notin> {''id'', ''ts'', ''duplicate_of'', ''steps''} \<longrightarrow> getj out k = getj record k)"

lemma appended:
  assumes "append_locked h record t s = (Inr out, u)" and "\<not> is_kind ''fort_plan'' record"
  shows "filed_as (ss_queue u) record out"
proof -
  from assms(1) obtain now q where "append_in_conn (xh_cf h) now q record t = Ok (out, ss_queue u)"
    by (auto simp: append_locked_def store_op_def Let_def split: if_splits outcome.splits)
  from append_in_conn_records [OF this assms(2)] show ?thesis by (auto simp: filed_as_def)
qed

lemma getj_taken: "getj (taken ks args) k = (if k \<in> set ks then getj args k else JNull)"
  by (induction ks) (auto simp: taken_def getj_def has_def split: option.splits)

lemma stamped_fields:
  "getj (stamped_record kind role tick ks args) ''kind'' = JStr kind"
  "getj (stamped_record kind role tick ks args) ''role'' = JStr role"
  "getj (stamped_record kind role tick ks args) ''cycle'' = JInt tick"
  "k \<notin> {''kind'', ''role'', ''cycle'', ''snapshot''} \<Longrightarrow>
    getj (stamped_record kind role tick ks args) k = (if k \<in> set ks then getj args k else JNull)"
  by (simp_all add: stamped_record_def getj_def flip: getj_taken)

text \<open>What a part of a call gives, when it gives something.\<close>

definition yields :: "('a \<Rightarrow> bool) \<Rightarrow> 'a call \<Rightarrow> bool" where
  "yields P m \<longleftrightarrow> (\<forall>s x u. m s = (Inr x, u) \<longrightarrow> P x)"

lemma yields_rules:
  "P x \<Longrightarrow> yields P (give x)" "yields P (fail e)" "yields P (refuse_call t)" "yields P m \<Longrightarrow> yields P (refuse_all es m)"
  "(\<And>x. yields P (f x)) \<Longrightarrow> yields P (andthen m' f)"
  by (auto simp: yields_def give_def fail_def refuse_call_def refuse_all_def andthen_def split: sum.splits prod.splits)

lemma yieldsD: "yields P m \<Longrightarrow> m s = (Inr x, u) \<Longrightarrow> P x"
  by (auto simp: yields_def)

lemma check_filing_keys: "yields (\<lambda>us. set (map fst us) \<subseteq> {''preview'', ''covered_by''}) (check_filing h reg record urgency)"
  unfolding check_filing_def Let_def by (auto intro!: yields_rules split: option.splits if_splits)

lemma getj_fold_setj: "k \<notin> set (map fst us) \<Longrightarrow> getj (fold (\<lambda>(j, v) r. setj r j v) us r) k = getj r k"
  by (induction us arbitrary: r) auto

lemma step_check_keeps:
  assumes "with_step_check env urgency record s = (Inr r, u)" and "k \<notin> {''preview'', ''covered_by''}"
  shows "getj r k = getj record k"
proof (cases "r = record")
  case False
  with assms(1) obtain us v where us: "check_filing (qe_host env) (qe_registry env) record urgency s = (Inr us, v)"
    "r = fold (\<lambda>(k, v) r. setj r k v) us record"
    by (auto simp: with_step_check_def Let_def refuse_call_def fail_def give_def andthen_def split: if_splits sum.splits prod.splits)
  from yieldsD [OF check_filing_keys us(1)] assms(2) have "k \<notin> set (map fst us)" by blast
  with us(2) show ?thesis by (simp add: getj_fold_setj)
qed simp

subsection \<open>Cited values\<close>

text \<open>\<open>v\<close> is the value of the cited field in what the server read.\<close>

definition read_value :: "queue_env \<Rightarrow> string \<Rightarrow> obj \<Rightarrow> json \<Rightarrow> bool" where
  "read_value env role ref v \<longleftrightarrow> is_scalar_fact v \<and> (\<exists>tr.
     Option.bind (qe_fact env tr role (str_of (getj ref ''tool'')) (fact_args ref))
       (extract_field (split_on (CHR ''.'') (str_of (getj ref ''field'')))) = Some v)"

lemma read_cited_value: "read_cited_fact env role ref s = (Inr v, u) \<Longrightarrow> read_value env role ref v"
  by (auto simp: read_cited_fact_def read_value_def Let_def refuse_call_def fail_def give_def split: option.splits if_splits)

lemma read_citations_values:
  "read_citations env role tick refs s = (Inr cs, u) \<Longrightarrow>
    list_all2 (\<lambda>ref c. \<exists>v. c = cited_entry ref v tick \<and> read_value env role ref v) refs cs"
proof (induction refs arbitrary: s cs u)
  case (Cons ref refs)
  from Cons.prems obtain v t vs w where v: "read_cited_fact env role ref s = (Inr v, t)"
    and vs: "read_citations env role tick refs t = (Inr vs, w)" "cs = cited_entry ref v tick # vs"
    by (auto simp: andthen_def refuse_call_def fail_def give_def split: sum.splits prod.splits if_splits)
  from Cons.IH [OF vs(1)] read_cited_value [OF v] vs(2) show ?case by auto
qed (auto simp: give_def)

lemma citations_keep:
  assumes "with_citations env role tick record s = (Inr r, u)"
  shows "k \<noteq> ''cited'' \<Longrightarrow> getj r k = getj record k"
    and "has record ''relies_on'' \<Longrightarrow> \<exists>cs. getj r ''cited'' = JArr cs \<and>
      list_all2 (\<lambda>ref c. \<exists>v. c = cited_entry ref v tick \<and> read_value env role ref v)
        (map fields_of (items_of (getj record ''relies_on''))) cs"
  using assms
  by (auto simp: with_citations_def refuse_all_def fail_def give_def andthen_def dest!: read_citations_values
      split: if_splits sum.splits prod.splits)

subsection \<open>A filing\<close>

text \<open>The three stages of a proposal.\<close>

lemma propose_parts:
  assumes "propose env role args s = (Inr out, u)"
  obtains tick cited checked s1 s2 s3 where "set (map fst args) \<subseteq> set PROPOSE_FIELDS"
    "with_citations env role tick (stamped_record ''proposal'' role tick (butlast PROPOSE_FIELDS) args) s1 = (Inr cited, s2)"
    "with_step_check env (getj args ''urgency'') cited s2 = (Inr checked, s3)"
    "append_locked (qe_host env) checked (JInt tick) s3 = (Inr out, u)" "moves (qe_host env) s s1"
proof -
  from assms have sub: "set (map fst args) \<subseteq> set PROPOSE_FIELDS"
    by (auto simp: propose_def reject_unknown_def refuse_call_def fail_def list_ex_iff split: if_splits)
  with assms obtain tick s1 where t: "stamp (qe_host env) s = (Inr tick, s1)"
    and r: "andthen (with_citations env role tick (stamped_record ''proposal'' role tick (butlast PROPOSE_FIELDS) args)) (\<lambda>cited.
       andthen (with_step_check env (getj args ''urgency'') cited) (\<lambda>checked. append_locked (qe_host env) checked (JInt tick))) s1 = (Inr out, u)"
    by (auto simp: propose_def reject_unknown_def Let_def refuse_call_def fail_def andthen_def [of "stamp _"] split: if_splits sum.splits prod.splits)
  from r obtain cited s2 checked s3 where
    "with_citations env role tick (stamped_record ''proposal'' role tick (butlast PROPOSE_FIELDS) args) s1 = (Inr cited, s2)"
    "with_step_check env (getj args ''urgency'') cited s2 = (Inr checked, s3)"
    "append_locked (qe_host env) checked (JInt tick) s3 = (Inr out, u)"
    by (auto simp: andthen_def split: sum.splits prod.splits)
  with that [OF sub] obeysD [OF mv.in_stamp t] show ?thesis by blast
qed

text \<open>What is filed in whose name, with which of the caller's fields.\<close>

definition filed_for :: "string \<Rightarrow> string \<Rightarrow> string list \<Rightarrow> obj \<Rightarrow> obj \<Rightarrow> bool" where
  "filed_for role kind keys args out \<longleftrightarrow> is_kind kind out \<and> getj out ''role'' = JStr role \<and>
     set (map fst args) \<subseteq> set keys \<and>
     (\<forall>k \<in> set keys. k \<noteq> ''steps'' \<and> \<not> (kind = ''proposal'' \<and> k = ''urgency'') \<longrightarrow> getj out k = getj args k)"

lemma filed_forI:
  assumes "getj out ''kind'' = JStr kind" and "getj out ''role'' = JStr role" and "set (map fst args) \<subseteq> set keys"
    and "\<And>k. k \<in> set keys \<Longrightarrow> k \<noteq> ''steps'' \<Longrightarrow> \<not> (kind = ''proposal'' \<and> k = ''urgency'') \<Longrightarrow> getj out k = getj args k"
  shows "filed_for role kind keys args out"
  unfolding filed_for_def is_kind_def
proof (intro conjI ballI impI)
  fix k assume "k \<in> set keys" and "k \<noteq> ''steps'' \<and> \<not> (kind = ''proposal'' \<and> k = ''urgency'')"
  then show "getj out k = getj args k" by (elim conjE) (rule assms(4))
qed (rule assms)+

lemma filed_asD:
  assumes "filed_as q r out"
  shows "out \<in> set (q_records q)" and "k \<notin> {''id'', ''ts'', ''duplicate_of'', ''steps''} \<Longrightarrow> getj out k = getj r k"
    and "getj out ''kind'' = getj r ''kind''" and "getj out ''role'' = getj r ''role''"
proof -
  from conjunct1 [OF assms [unfolded filed_as_def]] show "out \<in> set (q_records q)" by auto
  show k: "k \<notin> {''id'', ''ts'', ''duplicate_of'', ''steps''} \<Longrightarrow> getj out k = getj r k" for k
    using conjunct2 [OF assms [unfolded filed_as_def]] by (elim allE impE)
  show "getj out ''kind'' = getj r ''kind''" "getj out ''role'' = getj r ''role''" by (rule k, simp)+
qed

lemma stamped_taken:
  assumes "k \<in> set keys" and "set keys \<inter> {''kind'', ''role'', ''cycle'', ''snapshot''} = {}"
  shows "getj (stamped_record kind role tick keys args) k = getj args k"
proof -
  from assms have "k \<notin> {''kind'', ''role'', ''cycle'', ''snapshot''}" by blast
  from stamped_fields(4) [OF this] assms(1) show ?thesis by simp
qed

lemma has_stamped: "k \<in> set ks \<Longrightarrow> has args k \<Longrightarrow> has (stamped_record kind role tick ks args) k"
proof -
  assume "k \<in> set ks" "has args k"
  then have "map_of (taken ks args) k \<noteq> None" by (simp add: taken_def map_of_eq_None_iff image_image)
  then show ?thesis by (auto simp: stamped_record_def has_def split: option.splits)
qed

lemma file_record_filed:
  assumes "file_record env role kind keys ticked args s = (Inr out, u)" and "kind \<noteq> ''fort_plan''"
    and "set keys \<inter> {''kind'', ''role'', ''cycle'', ''snapshot'', ''id'', ''ts'', ''duplicate_of''} = {}"
  shows "filed_for role kind keys args out" and "out \<in> set (q_records (ss_queue u))"
proof -
  from assms(1) have sub: "set (map fst args) \<subseteq> set keys"
    by (auto simp: file_record_def reject_unknown_def refuse_call_def fail_def list_ex_iff split: if_splits)
  with assms(1) obtain tick t v where "append_locked (qe_host env) (stamped_record kind role tick keys args) t v = (Inr out, u)"
    by (auto simp: file_record_def reject_unknown_def refuse_call_def fail_def andthen_def [of "stamp _"] split: if_splits sum.splits prod.splits)
  from appended [OF this] assms(2) have f: "filed_as (ss_queue u) (stamped_record kind role tick keys args) out"
    by (simp add: is_kind_def stamped_fields)
  from filed_asD(1) [OF f] show "out \<in> set (q_records (ss_queue u))" .
  show "filed_for role kind keys args out"
  proof (rule filed_forI)
    fix k assume k: "k \<in> set keys" "k \<noteq> ''steps''"
    have "k \<notin> {''kind'', ''role'', ''cycle'', ''snapshot'', ''id'', ''ts'', ''duplicate_of''}" using k(1) assms(3) by (meson disjoint_iff)
    with k(2) have n: "k \<notin> {''id'', ''ts'', ''duplicate_of'', ''steps''}" by simp
    have i: "set keys \<inter> {''kind'', ''role'', ''cycle'', ''snapshot''} = {}" using assms(3) by simp
    from filed_asD(2) [OF f n] stamped_taken [OF k(1) i] show "getj out k = getj args k" by simp
  qed (simp_all add: filed_asD(3,4) [OF f] stamped_fields sub del: set_map)
qed

lemma propose_filed:
  assumes "propose env role args s = (Inr out, u)"
  shows "filed_for role ''proposal'' PROPOSE_FIELDS args out" and "out \<in> set (q_records (ss_queue u))"
    and "has args ''relies_on'' \<Longrightarrow> \<exists>tick cs. getj out ''cited'' = JArr cs \<and>
      list_all2 (\<lambda>ref c. \<exists>v. c = cited_entry ref v tick \<and> read_value env role ref v)
        (map fields_of (items_of (getj args ''relies_on''))) cs"
proof -
  from propose_parts [OF assms] obtain tick cited checked s1 s2 s3 where sub: "set (map fst args) \<subseteq> set PROPOSE_FIELDS"
    and c: "with_citations env role tick (stamped_record ''proposal'' role tick (butlast PROPOSE_FIELDS) args) s1 = (Inr cited, s2)"
    and k: "with_step_check env (getj args ''urgency'') cited s2 = (Inr checked, s3)"
    and a: "append_locked (qe_host env) checked (JInt tick) s3 = (Inr out, u)" by (rule propose_parts [OF assms])
  let ?r = "stamped_record ''proposal'' role tick (butlast PROPOSE_FIELDS) args"
  have same: "getj checked j = getj ?r j" if "j \<notin> {''cited'', ''preview'', ''covered_by''}" for j
    using step_check_keeps [OF k, of j] citations_keep(1) [OF c, of j] that by auto
  then have "is_kind ''proposal'' checked" by (simp add: is_kind_def stamped_fields)
  with appended [OF a] have f: "filed_as (ss_queue u) checked out" by (simp add: is_kind_def)
  show "filed_for role ''proposal'' PROPOSE_FIELDS args out"
  proof (rule filed_forI)
    fix k assume k: "k \<in> set PROPOSE_FIELDS" "\<not> (''proposal'' = ''proposal'' \<and> k = ''urgency'')"
    then have "k \<in> set (butlast PROPOSE_FIELDS)" and o: "k \<notin> {''cited'', ''preview'', ''covered_by''}"
      and n: "k \<notin> {''id'', ''ts'', ''duplicate_of'', ''steps''}" by (auto simp: PROPOSE_FIELDS_def)
    moreover have "set (butlast PROPOSE_FIELDS) \<inter> {''kind'', ''role'', ''cycle'', ''snapshot''} = {}" by (simp add: PROPOSE_FIELDS_def)
    ultimately have "getj ?r k = getj args k" by (intro stamped_taken)
    with filed_asD(2) [OF f n] same [OF o] show "getj out k = getj args k" by simp
  qed (use filed_asD(3,4) [OF f] same [of "''kind''"] same [of "''role''"] sub in \<open>simp_all add: stamped_fields\<close>)
  from filed_asD(1) [OF f] show "out \<in> set (q_records (ss_queue u))" .
  assume h: "has args ''relies_on''"
  have rel: "''relies_on'' \<in> set (butlast PROPOSE_FIELDS)" by (simp add: PROPOSE_FIELDS_def)
  have "getj ?r ''relies_on'' = getj args ''relies_on''" using rel by (simp add: stamped_fields)
  moreover have "has ?r ''relies_on''" by (rule has_stamped [OF rel h])
  ultimately obtain cs where "getj cited ''cited'' = JArr cs"
    "list_all2 (\<lambda>ref c. \<exists>v. c = cited_entry ref v tick \<and> read_value env role ref v) (map fields_of (items_of (getj args ''relies_on''))) cs"
    using citations_keep(2) [OF c] by auto
  moreover from filed_asD(2) [OF f, of "''cited''"] step_check_keeps [OF k, of "''cited''"]
  have "getj out ''cited'' = getj cited ''cited''" by simp
  ultimately show "\<exists>tick cs. getj out ''cited'' = JArr cs \<and>
      list_all2 (\<lambda>ref c. \<exists>v. c = cited_entry ref v tick \<and> read_value env role ref v)
        (map fields_of (items_of (getj args ''relies_on''))) cs" by auto
qed

text \<open>A Planner's pass is followed by another access to the queue.\<close>

lemma steps_keep_records:
  assumes "reachable cf q" and "(qstep cf)\<^sup>*\<^sup>* q q'" and "r \<in> set (q_records q)"
  shows "r \<in> set (q_records q')"
proof -
  from assms(2) have "reaches cf q q'" by (simp add: reaches_def)
  from records.log_append_only [OF reaches_writes [OF assms(1) this]] assms(3) show ?thesis by auto
qed

lemma file_pass_filed:
  assumes "file_pass env role args s = (Inr out, u)" and "fair_others (qe_host env)" and "reachable (xh_cf (qe_host env)) (ss_queue s)"
  shows "filed_for role ''pass'' [''reason''] args out" and "out \<in> set (q_records (ss_queue u))"
proof -
  from assms(1) have sub: "set (map fst args) \<subseteq> {''reason''}"
    by (auto simp: file_pass_def reject_unknown_def refuse_call_def fail_def list_ex_iff split: if_splits)
  with assms(1) obtain tick s1 where t: "stamp (qe_host env) s = (Inr tick, s1)" and r: "andthen (append_locked (qe_host env) (stamped_record ''pass'' role tick [''reason''] args) (JInt tick)) (\<lambda>r.
       if role = PLAN_ROLE then andthen (store_op (qe_host env) ''mark_plan_reviewed'' (\<lambda>_ q. Ok ((), mark_plan_reviewed tick q))) (\<lambda>_. give r)
       else give r) s1 = (Inr out, u)"
    by (auto simp: file_pass_def reject_unknown_def refuse_call_def fail_def andthen_def [of "stamp _"] split: if_splits sum.splits prod.splits)
  then obtain v where a: "append_locked (qe_host env) (stamped_record ''pass'' role tick [''reason''] args) (JInt tick) s1 = (Inr out, v)"
    and m: "u = v \<or> (\<exists>x. store_op (qe_host env) ''mark_plan_reviewed'' (\<lambda>_ q. Ok ((), mark_plan_reviewed tick q)) v = (x, u))"
    by (auto simp: andthen_def give_def split: if_splits sum.splits prod.splits)
  from appended [OF a] have f: "filed_as (ss_queue v) (stamped_record ''pass'' role tick [''reason''] args) out"
    by (simp add: is_kind_def stamped_fields)
  show "filed_for role ''pass'' [''reason''] args out"
  proof (rule filed_forI)
    fix k assume "k \<in> set [''reason'']"
    with filed_asD(2) [OF f, of k] stamped_taken [of k "[''reason'']"] show "getj out k = getj args k" by simp
  qed (use filed_asD(3,4) [OF f] sub in \<open>simp_all add: stamped_fields\<close>)
  from filed_asD(1) [OF f] have "out \<in> set (q_records (ss_queue v))" .
  moreover have "(qstep (xh_cf (qe_host env)))\<^sup>*\<^sup>* (ss_queue v) (ss_queue u)"
  proof -
    have "obeys (moves (qe_host env)) (store_op (qe_host env) ''mark_plan_reviewed'' (\<lambda>_ q. Ok ((), mark_plan_reviewed tick q)))"
      by (rule mv.in_store) (auto simp: moves_def intro: q_reviewed)
    with m mv.stays obeysD have "moves (qe_host env) v u" by blast
    with assms(2) show ?thesis by (simp add: moves_def)
  qed
  moreover have "reachable (xh_cf (qe_host env)) (ss_queue v)"
    using mv.chained [OF obeysD [OF mv.in_stamp t] obeysD [OF mw.in_append a]] assms(2,3)
    by (auto simp: moves_def reachable_def)
  ultimately show "out \<in> set (q_records (ss_queue u))" using steps_keep_records by blast
qed

text \<open>Every tool that files.\<close>

lemma queue_tool_filed:
  assumes "queue_tool env tid role args = Some m" and "m s = (Inr out, u)" and "filing_tool tid = Some (kind, keys, ticked)"
    and "fair_others (qe_host env)" and "reachable (xh_cf (qe_host env)) (ss_queue s)"
  shows "filed_for role kind keys args out" and "out \<in> set (q_records (ss_queue u))"
proof -
  consider "tid = ''queue.propose''" | "tid = ''queue.pass''" | "tid \<noteq> ''queue.propose''" "tid \<noteq> ''queue.pass''" by blast
  then have "filed_for role kind keys args out \<and> out \<in> set (q_records (ss_queue u))"
  proof cases
    case 1
    with assms(1-3) have "propose env role args s = (Inr out, u)" "kind = ''proposal''" "keys = PROPOSE_FIELDS"
      by (simp_all add: queue_tool_def filing_tool.simps)
    with propose_filed(1,2) show ?thesis by blast
  next
    case 2
    with assms(1-3) have "file_pass env role args s = (Inr out, u)" "kind = ''pass''" "keys = [''reason'']"
      by (simp_all add: queue_tool_def filing_tool.simps)
    with file_pass_filed assms(4,5) show ?thesis by blast
  next
    case 3
    have "tid \<noteq> ''queue.pending''" using assms(3) by (auto simp: filing_tool.simps)
    with 3 assms have m: "file_record env role kind keys ticked args s = (Inr out, u)" by (simp add: queue_tool_def)
    have "kind \<noteq> ''fort_plan''" "set keys \<inter> {''kind'', ''role'', ''cycle'', ''snapshot'', ''id'', ''ts'', ''duplicate_of''} = {}"
      using assms(3) by (auto simp: filing_tool.simps PROPOSE_FIELDS_def RULE_FIELDS_def PROJECT_FIELDS_def AMEND_FIELDS_def split: if_splits)
    from file_record_filed [OF m this] show ?thesis by blast
  qed
  then show "filed_for role kind keys args out" "out \<in> set (q_records (ss_queue u))" by simp_all
qed

subsection \<open>A step that is filed was rehearsed\<close>

text \<open>The dry run the server made, with the arguments the executor will use but for the proposal's id.\<close>

definition rehearsed :: "host \<Rightarrow> string \<Rightarrow> obj \<Rightarrow> session \<Rightarrow> bool" where
  "rehearsed h tool args u \<longleftrightarrow> (\<exists>spec call_args tr post dry. spec_of h tool = Some (Some spec) \<and>
     dry_run_args h spec args = Some call_args \<and> ss_events u = tr @ Dry tool call_args # post \<and>
     xh_call h tr tool call_args = Answer dry \<and> judge (xh_pr h) spec dry True = Passed)"

lemma rehearsed_later:
  assumes "rehearsed h tool args s" and "moves h s t" and "fair_others h"
  shows "rehearsed h tool args t"
proof -
  from assms(2,3) obtain es where "ss_events t = ss_events s @ es" by (auto simp: moves_def)
  with assms(1) show ?thesis unfolding rehearsed_def by fastforce
qed

lemma preview_call_rehearsed:
  assumes "preview_call h reg spec tool args s = (Inr dry, u)" and "spec_of h tool = Some (Some spec)"
  shows "rehearsed h tool args u"
proof -
  from assms(1) obtain call_args where "dry_run_args h spec args = Some call_args"
    "ss_events u = ss_events s @ [Dry tool call_args]" "xh_call h (ss_events s) tool call_args = Answer dry"
    "judge (xh_pr h) spec dry True = Passed"
    by (auto simp: preview_call_def or_crash_def andthen_def give_def fail_def refuse_call_def call_out_def
        split: option.splits sum.splits arg_error.splits reply.splits call_verdict.splits if_splits)
  with assms(2) show ?thesis unfolding rehearsed_def by fastforce
qed

lemma andthen_Inr: "andthen m f s = (Inr x, u) \<longleftrightarrow> (\<exists>y t. m s = (Inr y, t) \<and> f y t = (Inr x, u))"
  by (auto simp: andthen_def split: sum.splits prod.splits)

lemma refuse_all_Inr: "refuse_all es m s = (Inr x, u) \<longleftrightarrow> es = [] \<and> m s = (Inr x, u)"
  by (auto simp: refuse_all_def fail_def)

lemma check_filing_rehearsed:
  assumes "check_filing h reg record urgency s = (Inr us, u)" and "fair_others h"
    and "is_str (getj record ''type'')" and "is_routed (cf_routing (xh_cf h)) (getj record ''type'')" and "has record ''step''"
  shows "rehearsed h (str_of (getj (fields_of (getj record ''step'')) ''tool'')) (fields_of (getj (fields_of (getj record ''step'')) ''args'')) u"
proof -
  let ?tool = "str_of (getj (fields_of (getj record ''step'')) ''tool'')" and ?args = "fields_of (getj (fields_of (getj record ''step'')) ''args'')"
  from assms(4) obtain g where "group_of (cf_routing (xh_cf h)) (getj record ''type'') = Some g"
    by (auto simp: is_routed_def group_of_def split: option.splits)
  with assms(1,3,4,5) obtain spec s1 es s2 dry s3 r s4 where "spec_of h ?tool = Some (Some spec)"
    "preview_call h reg spec ?tool ?args s2 = (Inr dry, s3)"
    "phase_check h ?tool ?args (getj record ''phases'') s3 = (Inr r, s4)"
    and rest: "s4 = u \<or> (\<exists>c. covered_by h record ?args s4 = (Inr c, u))"
    by (auto simp: check_filing_def Let_def andthen_Inr refuse_all_Inr fail_def refuse_call_def give_def split: option.splits if_splits)
  from preview_call_rehearsed [OF this(2,1)] obeysD [OF mw.in_phase_check this(3)] assms(2)
  have "rehearsed h ?tool ?args s4" by (rule rehearsed_later)
  with rest show ?thesis using obeysD [OF mw.in_covered_by] assms(2) rehearsed_later by blast
qed

lemma propose_rehearsed:
  assumes "propose env role args s = (Inr out, u)" and "fair_others (qe_host env)"
    and "is_routed (cf_routing (xh_cf (qe_host env))) (getj args ''type'')" and "is_str (getj args ''type'')" and "has args ''step''"
  shows "rehearsed (qe_host env) (str_of (getj (fields_of (getj args ''step'')) ''tool'')) (fields_of (getj (fields_of (getj args ''step'')) ''args'')) u"
proof -
  from assms(1) obtain tick cited checked s1 s2 s3 where
    c: "with_citations env role tick (stamped_record ''proposal'' role tick (butlast PROPOSE_FIELDS) args) s1 = (Inr cited, s2)"
    and k: "with_step_check env (getj args ''urgency'') cited s2 = (Inr checked, s3)"
    and a: "append_locked (qe_host env) checked (JInt tick) s3 = (Inr out, u)" by (rule propose_parts)
  let ?r = "stamped_record ''proposal'' role tick (butlast PROPOSE_FIELDS) args" and ?h = "qe_host env"
  have m: "''type'' \<in> set (butlast PROPOSE_FIELDS)" "''step'' \<in> set (butlast PROPOSE_FIELDS)" by (simp_all add: PROPOSE_FIELDS_def)
  have f: "getj cited ''type'' = getj args ''type''" "getj cited ''step'' = getj args ''step''"
    using citations_keep(1) [OF c] m by (simp_all add: stamped_fields)
  have "has cited ''step''"
    using c has_stamped [OF m(2) assms(5)]
    by (auto simp: with_citations_def andthen_Inr refuse_all_Inr give_def split: if_splits)
  with k f obtain us where us: "check_filing ?h (qe_registry env) cited (getj args ''urgency'') s2 = (Inr us, s3)"
    by (auto simp: with_step_check_def Let_def andthen_Inr refuse_call_def fail_def give_def split: if_splits)
  from check_filing_rehearsed [OF us assms(2)] f assms(3,4) \<open>has cited ''step''\<close>
  have "rehearsed ?h (str_of (getj (fields_of (getj args ''step'')) ''tool'')) (fields_of (getj (fields_of (getj args ''step'')) ''args'')) s3"
    by simp
  from rehearsed_later [OF this obeysD [OF mw.in_append a] assms(2)] show ?thesis .
qed

end
