(* ===== verification/Serve_Facts.thy ===== *)
theory Serve_Facts
  imports Serve Arg_Facts Filing_Facts
begin

section \<open>What a role's call can do\<close>

text \<open>
  A command line is run only for a tool on the role's lists, under the conditions the roster was loaded with, and
  never for a direct write of the sole writer; that write is previewed and filed as a proposal and its
  accepting ruling, the last two records of the queue it leaves.
\<close>

lemma argv_Cons: "argv_for_call pr t args = Inr argv \<Longrightarrow> \<exists>c v ws. argv = c # v # ws"
  by (auto simp: argv_for_call_def Let_def split: option.splits if_splits sum.splits)

lemma run_tool_line:
  assumes "run_dfhack_tool sv t tid args tr = Ran_line c ws r"
  shows "argv_for_call (xh_pr (sv_base sv)) t args = Inr (c # ws) \<and> r = read_output tid (sv_run sv tr c ws)"
  using assms by (auto simp: run_dfhack_tool_def dest: argv_Cons split: sum.splits arg_error.splits)

lemma settle_call_cases:
  obtains (done') out u where "r = (Inr out, u)" "settle_call f r = (f out, u)"
  | (refused) es u where "r = (Inl (Tool_error es), u)" "settle_call f r = (Turned_down es, u)"
  | (raised) y u where "r = (y, u)" "settle_call f r = (Server_error, u)"
proof (cases r)
  case (Pair y u)
  show thesis
  proof (cases y)
    case (Inl e)
    then show thesis using Pair refused raised by (cases e) (auto simp: settle_call_def)
  next
    case (Inr out)
    then show thesis using Pair done' by (auto simp: settle_call_def)
  qed
qed

text \<open>The path of a request through the server: who asks, for which tool, with what licence.\<close>

lemma call_path:
  assumes "handle_call_tool sv who name args s = (x, u)"
  obtains (turned) e where "x = Turned_down e" "u = s"
  | (error) "x = Server_error" "u = s"
  | (passed) role tid t why where "who = Some role" "map_of (sv_names sv) name = Some tid"
      "check_access (sv_roster sv) role tid = Ok (True, why)" "tool_of (sv_registry sv) tid = Some t"
      "dispatch sv t tid role args s = (x, u)"
proof (cases who)
  case None
  with assms show thesis by (intro turned) (auto simp: handle_call_tool_def)
next
  case (Some role)
  show thesis
  proof (cases "map_of (sv_names sv) name")
    case None
    with assms Some show thesis by (intro turned) (auto simp: handle_call_tool_def)
  next
    case tid: (Some tid)
    show thesis
    proof (cases "check_access (sv_roster sv) role tid")
      case (Ok a)
      obtain ok why where a: "a = (ok, why)" by (cases a)
      show thesis
      proof (cases ok)
        case True
        show thesis
        proof (cases "tool_of (sv_registry sv) tid")
          case None
          with assms Some tid Ok a True show thesis by (intro error) (auto simp: handle_call_tool_def)
        next
          case t: (Some t)
          from assms have "dispatch sv t tid role args s = (x, u)" by (simp add: handle_call_tool_def Some tid Ok a True t)
          with Some tid Ok a True t show thesis by (intro passed) simp_all
        qed
      next
        case False
        with assms Some tid Ok a show thesis by (intro turned [of "[why]"]) (simp_all add: handle_call_tool_def)
      qed
    qed ((rule error; use assms Some tid in \<open>auto simp: handle_call_tool_def\<close>)+)
  qed
qed

text \<open>Every line that is run belongs to a call the roster allows.\<close>

lemma ran_line:
  assumes "handle_call_tool sv who name args s = (Ran_line c ws r, u)"
  shows "\<exists>role tid t why. who = Some role \<and> map_of (sv_names sv) name = Some tid \<and>
    check_access (sv_roster sv) role tid = Ok (True, why) \<and> tool_of (sv_registry sv) tid = Some t \<and> \<not> te_native t \<and>
    (is_direct_tool (xh_cf (sv_base sv)) tid role \<longrightarrow> is_preview (xh_pr (sv_base sv)) t args) \<and>
    argv_for_call (xh_pr (sv_base sv)) t args = Inr (c # ws) \<and> u = s"
proof (rule call_path [OF assms])
  fix role tid t why
  assume p: "who = Some role" "map_of (sv_names sv) name = Some tid" "check_access (sv_roster sv) role tid = Ok (True, why)"
    "tool_of (sv_registry sv) tid = Some t"
    and e: "dispatch sv t tid role args s = (Ran_line c ws r, u)"
  have n: "settle_call f y \<noteq> (Ran_line c ws r, u)" if "\<And>o'. f o' \<noteq> Ran_line c ws r" for f y
    using settle_call_cases [of y f] that by (metis Pair_inject served.distinct)
  have "\<not> te_native t"
    using e n [of Answered] by (auto simp: dispatch_def split: if_splits option.splits)
  moreover have "\<not> (is_direct_tool (xh_cf (sv_base sv)) tid role \<and> \<not> is_preview (xh_pr (sv_base sv)) t args)"
    using e n [of Filed] calculation by (auto simp: dispatch_def split: if_splits)
  moreover from calculation have "run_dfhack_tool sv t tid args (ss_events s) = Ran_line c ws r" "u = s"
    using e by (auto simp: dispatch_def split: if_splits)
  ultimately show ?thesis using p run_tool_line by blast
qed simp_all

text \<open>Every answer is a queue tool's.\<close>

lemma answered_by_queue:
  assumes "handle_call_tool sv who name args s = (Answered out, u)"
  shows "\<exists>role tid m. who = Some role \<and> map_of (sv_names sv) name = Some tid \<and>
    queue_tool (server_queue sv) tid role args = Some m \<and> m s = (Inr out, u)"
proof (rule call_path [OF assms])
  fix role tid t why
  assume p: "who = Some role" "map_of (sv_names sv) name = Some tid"
    and e: "dispatch sv t tid role args s = (Answered out, u)"
  have "run_dfhack_tool sv t tid args tr \<noteq> Answered out" for tr
    by (auto simp: run_dfhack_tool_def split: sum.splits arg_error.splits)
  moreover have "settle_call Filed y \<noteq> (Answered out, u)" for y
    using settle_call_cases [of y Filed] by (metis Pair_inject served.distinct)
  ultimately have "te_native t" using e unfolding dispatch_def by (metis Pair_inject)
  with e obtain m where m: "queue_tool (server_queue sv) tid role args = Some m" "settle_call Answered (m s) = (Answered out, u)"
    by (auto simp: dispatch_def split: option.splits)
  from settle_call_cases [of "m s" Answered] m(2) have "m s = (Inr out, u)"
    by (metis Pair_inject served.distinct served.inject(3))
  with p m(1) show ?thesis by blast
qed simp_all

subsection \<open>A direct write\<close>

lemma dry_check_moves: "obeys (moves h) (dry_check h tid args)"
  unfolding dry_check_def
  by (rule mv.in_andthen)
    (auto intro!: mv.in_read mv.in_fail mv.in_give mw.in_refuse split: reply.splits option.splits call_verdict.splits)

lemma crash_refused_moves: "obeys (moves h) m \<Longrightarrow> obeys (moves h) (crash_refused e m)"
  unfolding obeys_def crash_refused_def by (auto split: prod.splits sum.splits failure.splits) (metis snd_conv)+

lemma direct_moves: "obeys (moves h) (store_op h name (\<lambda>now q. file_direct_action (xh_cf h) now q p r t))"
  by (rule mv.in_store) (rule mw.directing)

lemma file_action_moves: "obeys (moves h) (file_action h t role tid args)"
  unfolding file_action_def Let_def
  by (auto intro!: mv.in_andthen mv.in_fail mv.in_give mw.in_refuse dry_check_moves mv.in_stamp crash_refused_moves direct_moves
      split: sum.splits arg_error.splits prod.splits)

lemma file_action_filed:
  assumes "file_action h t role tid args s = (Inr out, u)"
  obtains now q tick p r where
    "file_direct_action (xh_cf h) now q (direct_proposal (xh_cf h) role tick tid (recorded_args args)) (direct_ruling role tick) (JInt tick)
       = Ok ((p, r), ss_queue u)"
    "out = [(''queued'', JBool True), (''proposal_id'', getj p ''id''), (''ruling_id'', getj r ''id''), (''tool'', JStr tid)]"
    "\<exists>argv. argv_for_call (xh_pr h) t (recorded_args args) = Inr argv"
  using assms
  by (auto simp: file_action_def Let_def refuse_call_def fail_def give_def andthen_def crash_refused_def store_op_def
      split: sum.splits arg_error.splits prod.splits if_splits failure.splits outcome.splits)

text \<open>What a filed call leaves in the log.\<close>

definition on_the_log :: "queue \<Rightarrow> string \<Rightarrow> obj \<Rightarrow> obj \<Rightarrow> bool" where
  "on_the_log q tid args out \<longleftrightarrow> (\<exists>rs p r. q_records q = rs @ [p, r] \<and>
     is_kind ''proposal'' p \<and> getj p ''step'' = JObj [(''tool'', JStr tid), (''args'', JObj args)] \<and>
     is_kind ''ruling'' r \<and> getj r ''decision'' = JStr ''accept'' \<and> getj r ''proposal_id'' = getj p ''id'' \<and>
     getj out ''proposal_id'' = getj p ''id'' \<and> getj out ''ruling_id'' = getj r ''id'')"

lemma filed_on_the_log:
  assumes "file_action h t role tid args s = (Inr out, u)"
  shows "on_the_log (ss_queue u) tid (recorded_args args) out"
proof -
  from file_action_filed [OF assms] obtain now q tick p r where
    f: "file_direct_action (xh_cf h) now q (direct_proposal (xh_cf h) role tick tid (recorded_args args)) (direct_ruling role tick) (JInt tick)
       = Ok ((p, r), ss_queue u)"
    and out: "out = [(''queued'', JBool True), (''proposal_id'', getj p ''id''), (''ruling_id'', getj r ''id''), (''tool'', JStr tid)]"
    by metis
  let ?p = "direct_proposal (xh_cf h) role tick tid (recorded_args args)" and ?r = "direct_ruling role tick"
  from f obtain q1 where a: "append_in_conn (xh_cf h) now q ?p (JInt tick) = Ok (p, q1)"
    "append_in_conn (xh_cf h) now q1 (setj ?r ''proposal_id'' (getj p ''id'')) (JInt tick) = Ok (r, ss_queue u)"
    by (auto simp: file_direct_action_def split: if_splits)
  have k: "getj ?p ''kind'' = JStr ''proposal''" "getj (setj ?r ''proposal_id'' (getj p ''id'')) ''kind'' = JStr ''ruling''"
    "getj ?p ''step'' = JObj [(''tool'', JStr tid), (''args'', JObj (recorded_args args))]"
    "getj (setj ?r ''proposal_id'' (getj p ''id'')) ''decision'' = JStr ''accept''"
    unfolding getj_setj by (simp_all add: direct_proposal_def direct_ruling_def getj_def)
  have np: "\<not> is_kind ''fort_plan'' ?p" "\<not> is_kind ''fort_plan'' (setj ?r ''proposal_id'' (getj p ''id''))"
    using k(1,2) by (simp_all add: is_kind_def)
  note p = append_in_conn_records [OF a(1) np(1)] and r = append_in_conn_records [OF a(2) np(2)]
  have "q_records (ss_queue u) = q_records q @ [p, r]" using p(1) r(1) k(1,2) by simp
  moreover have "is_kind ''proposal'' p" "getj p ''step'' = JObj [(''tool'', JStr tid), (''args'', JObj (recorded_args args))]"
    using p(2) [of "''kind''"] p(2) [of "''step''"] k by (simp_all add: is_kind_def)
  moreover have "is_kind ''ruling'' r" "getj r ''decision'' = JStr ''accept''" "getj r ''proposal_id'' = getj p ''id''"
    using r(2) [of "''kind''"] r(2) [of "''decision''"] r(2) [of "''proposal_id''"] k by (simp_all add: is_kind_def getj_setj)
  moreover have "getj out ''proposal_id'' = getj p ''id''" "getj out ''ruling_id'' = getj r ''id''"
    by (simp_all add: out getj_def)
  ultimately show ?thesis unfolding on_the_log_def by blast
qed

lemma server_host_base [simp]: "xh_cf (server_host sv) = xh_cf (sv_base sv)" "xh_others (server_host sv) = xh_others (sv_base sv)"
  by (simp_all add: server_host_def Let_def)

text \<open>The sole writer's write of a direct tool: no line is run, the queue moves by operations of the store, and a
  call that was filed is on the log.\<close>

lemma direct_write:
  assumes "handle_call_tool sv (Some role) name args s = (x, u)" and "map_of (sv_names sv) name = Some tid"
    and "tool_of (sv_registry sv) tid = Some t" and "\<not> te_native t"
    and "is_direct_tool (xh_cf (sv_base sv)) tid role" and "\<not> is_preview (xh_pr (sv_base sv)) t args"
    and "fair_others (sv_base sv)"
  shows "x \<noteq> Ran_line c ws r" and "(qstep (xh_cf (sv_base sv)))\<^sup>*\<^sup>* (ss_queue s) (ss_queue u)"
    and "\<exists>es. ss_events u = ss_events s @ es \<and> (\<forall>e \<in> set es. \<not> is_real e)"
    and "x = Filed out \<Longrightarrow> on_the_log (ss_queue u) tid (recorded_args args) out"
proof -
  let ?h = "server_host sv"
  consider (none) "u = s" "\<not> (\<exists>o'. x = Filed o')" "\<not> (\<exists>c ws r. x = Ran_line c ws r)"
    | (asked) y where "file_action ?h t role tid args s = (y, u)" "\<forall>o'. x = Filed o' \<longrightarrow> y = Inr o'" "\<not> (\<exists>c ws r. x = Ran_line c ws r)"
  proof (rule call_path [OF assms(1)])
    fix role' tid' t' why
    assume "Some role = Some role'" "map_of (sv_names sv) name = Some tid'" "tool_of (sv_registry sv) tid' = Some t'"
      "dispatch sv t' tid' role' args s = (x, u)"
    with assms(2-6) have "settle_call Filed (file_action ?h t role tid args s) = (x, u)" by (simp add: dispatch_def)
    then show ?thesis
    proof (cases rule: settle_call_cases [of "file_action ?h t role tid args s" Filed])
      case (done' out' u')
      with \<open>settle_call Filed (file_action ?h t role tid args s) = (x, u)\<close> show ?thesis by (intro asked) auto
    next
      case (refused es u')
      with \<open>settle_call Filed (file_action ?h t role tid args s) = (x, u)\<close> show ?thesis by (intro asked) auto
    next
      case (raised y u')
      with \<open>settle_call Filed (file_action ?h t role tid args s) = (x, u)\<close> show ?thesis by (intro asked) auto
    qed
  qed (use none in auto)
  then have "x \<noteq> Ran_line c ws r \<and> moves ?h s u \<and> (x = Filed out \<longrightarrow> on_the_log (ss_queue u) tid (recorded_args args) out)"
  proof cases
    case none
    then show ?thesis using mv.stays by auto
  next
    case asked
    with obeysD [OF file_action_moves asked(1)] filed_on_the_log show ?thesis by metis
  qed
  with assms(7) show "x \<noteq> Ran_line c ws r" "(qstep (xh_cf (sv_base sv)))\<^sup>*\<^sup>* (ss_queue s) (ss_queue u)"
    "\<exists>es. ss_events u = ss_events s @ es \<and> (\<forall>e \<in> set es. \<not> is_real e)"
    "x = Filed out \<Longrightarrow> on_the_log (ss_queue u) tid (recorded_args args) out"
    by (auto simp: moves_def fair_others_def)
qed

text \<open>What the reads of a role's citations are allowed to call.\<close>

lemma read_fact_allowed:
  assumes "read_fact sv tr role tid args = Some w"
  shows "\<exists>t why. tool_of (sv_registry sv) tid = Some t \<and> \<not> te_native t \<and> \<not> te_mutates t \<and>
    check_access (sv_roster sv) role tid = Ok (True, why)"
  using assms by (auto simp: read_fact_def bind_eq_Some_conv split: if_splits outcome.splits prod.splits bool.splits)

end
