(* ===== verification/Serve_Runs.thy ===== *)
theory Serve_Runs
  imports Serve_Facts Fort_Days
begin

section \<open>Requests to the deployed server\<close>

text \<open>
  A part of \<open>scripts/dfhack/TOOLS.yaml\<close> and of \<open>agents/ROSTER.yaml\<close>, loaded: the well tool and the list of wells, an
  Overseer who writes and a Quartermaster who reads. The game answers every dry run.
\<close>

definition command :: "string \<Rightarrow> json" where
  "command effect = JObj [(''effect'', JStr effect), (''lua_function'', JStr ''f''), (''knowledge_scope'', JStr ''player_visible'')]"

definition tools_yaml :: json where
  "tools_yaml = JObj [(''df-overseer-well.lua'', JObj [(''arg_defaults'', JObj [(''LEVEL'', JStr ''0''), (''DRY_RUN'', JStr ''true'')]),
     (''commands'', JObj [(''build LANDMARK [LEVEL] [DRY_RUN]'', command ''mutate''), (''list'', command ''read'')])]),
     (''df-overseer-overview.lua'', JObj [(''commands'', JObj [(''get'', command ''read'')])])]"

definition printer :: "json \<Rightarrow> string" where "printer v = ''value''"

definition well_build :: tool_entry where
  "well_build = \<lparr>rt_id = ''well.build'', rt_args = [''LANDMARK'', ''[LEVEL]'', ''[DRY_RUN]''], rt_execution = JNull,
     te_script = ''df-overseer-well.lua'', te_mutates = True, te_scope = JStr ''player_visible'', te_skippable = [],
     te_defaults = [(''LEVEL'', ''0''), (''DRY_RUN'', ''true'')], te_native = False, te_sole_writer_only = False, te_executor_only = False\<rparr>"

definition well_list :: tool_entry where
  "well_list = \<lparr>rt_id = ''well.list'', rt_args = [], rt_execution = JNull,
     te_script = ''df-overseer-well.lua'', te_mutates = False, te_scope = JStr ''player_visible'', te_skippable = [],
     te_defaults = [], te_native = False, te_sole_writer_only = False, te_executor_only = False\<rparr>"

definition overview_get :: tool_entry where
  "overview_get = well_list\<lparr>rt_id := ''overview.get'', te_script := ''df-overseer-overview.lua''\<rparr>"

definition queue_propose :: tool_entry where
  "queue_propose = \<lparr>rt_id = ''queue.propose'', rt_args = [], rt_execution = JNull,
     te_script = [], te_mutates = False, te_scope = JNull, te_skippable = [],
     te_defaults = [], te_native = True, te_sole_writer_only = False, te_executor_only = False\<rparr>"

abbreviation fort_tools :: "tool_entry list" where
  "fort_tools \<equiv> [well_build, well_list, overview_get, queue_propose]"

lemma tools_loaded: "load_registry printer tools_yaml [queue_propose] = Ok fort_tools"
  by code_simp

definition roster_yaml :: obj where
  "roster_yaml = [(''sole_writer'', JStr ''overseer''), (''roles'', JObj
     [(''overseer'', JObj [(''enabled'', JBool True), (''kind'', JStr ''actor'')]),
      (''quartermaster'', JObj [(''enabled'', JBool True)]), (''justice'', JObj [(''enabled'', JBool False)])])]"

definition entry :: "string \<Rightarrow> json" where "entry tid = JObj [(''id'', JStr tid)]"

definition role_dirs :: "json \<Rightarrow> role_dir" where
  "role_dirs d = \<lparr>rd_charter = True, rd_tools = Some (if d = JStr ''overseer''
       then [(''read'', JArr [entry ''well.list'']), (''write'', JArr [entry ''well.build'']), (''deny'', JArr [entry ''ui.*''])]
       else [(''read'', JArr [entry ''well.list'']), (''write'', JArr [entry ''queue.propose''])]), rd_model = True\<rparr>"

definition fort_roster :: access_roster where
  "fort_roster = (case load_roster fort_tools uniboslan_routing role_dirs roster_yaml of Ok ar \<Rightarrow> ar
     | _ \<Rightarrow> \<lparr>ar_registry = [], ar_sole_writer = JNull, ar_roles = []\<rparr>)"

lemma roster_loaded: "load_roster fort_tools uniboslan_routing role_dirs roster_yaml = Ok fort_roster"
  by code_simp

definition fort_names :: "(string \<times> string) list \<times> (string \<times> string) list" where
  "fort_names = ([(''well.build'', ''well__build''), (''well.list'', ''well__list''), (''overview.get'', ''overview__get''), (''queue.propose'', ''queue__propose'')],
     [(''well__build'', ''well.build''), (''well__list'', ''well.list''), (''overview__get'', ''overview.get''), (''queue__propose'', ''queue.propose'')])"

lemma names_built: "build_tool_names fort_tools = Ok fort_names"
  by code_simp

definition fort_run :: "xevent list \<Rightarrow> string \<Rightarrow> string list \<Rightarrow> pool_reply" where
  "fort_run tr c ws = Printed ''printed'' (Shows (if c = ''df-overseer-overview''
     then JObj [(''tier2'', JObj [(''in_game_date'', JStr ''year 0, tick 1000'')])] else JObj [(''ok'', JBool True)]))"

definition fort_server :: server where
  "fort_server = \<lparr>sv_registry = fort_tools, sv_roster = fort_roster, sv_names = snd fort_names, sv_run = fort_run, sv_late = (\<lambda>_. False),
     sv_base = \<lparr>xh_cf = uniboslan, xh_pr = printer, xh_search = (\<lambda>_ _. False), xh_tools = [], xh_refs = [],
       xh_call = (\<lambda>_ _ _. Cancelled), xh_game = (\<lambda>_ _. None), xh_now = (\<lambda>_. clock), xh_fails = (\<lambda>_. False), xh_others = (\<lambda>_ q. q)\<rparr>\<rparr>"

lemma fort_base [simp]: "fair_others (sv_base fort_server)" "xh_cf (sv_base fort_server) = uniboslan" "xh_pr (sv_base fort_server) = printer"
  "xh_others (sv_base fort_server) = (\<lambda>_ q. q)" "sv_registry fort_server = fort_tools" "sv_roster fort_server = fort_roster" "sv_names fort_server = snd fort_names"
  by (simp_all add: fair_others_def fort_server_def)

definition nobody :: session where "nobody = \<lparr>ss_queue = empty_queue, ss_events = []\<rparr>"

text \<open>A preview runs, with the default level in its place; a write is filed.\<close>

definition at_hall :: "bool \<Rightarrow> obj" where
  "at_hall real' = (''landmark'', JStr ''dining hall'') # (if real' then [(''dry_run'', JBool False)] else [(''dry_run'', JStr ''true'')])"

lemma preview_runs: "fst (handle_call_tool fort_server (Some ''overseer'') ''well__build'' (at_hall False) nobody) =
    Ran_line ''df-overseer-well'' [''build'', ''dining hall'', ''0'', ''true''] \<lparr>tr_text = ''printed'',
      tr_structured = Some (JObj [(''ok'', JBool True)]), tr_error = False\<rparr>"
  by code_simp

text \<open>The records of the write.\<close>

definition direct_1 :: obj where "direct_1 = direct_proposal uniboslan ''overseer'' 1000 ''well.build'' [(''landmark'', JStr ''dining hall'')]"

lemma direct_args: "recorded_args (at_hall True) = [(''landmark'', JStr ''dining hall'')]"
  by code_simp

lemma direct_shown: "direct_1 = [(''kind'', JStr ''proposal''), (''role'', JStr ''overseer''), (''cycle'', JInt 1000),
    (''snapshot'', JStr ''tick-1000''), (''type'', JStr ''direct_action''), (''summary'', JStr ''well.build landmark=dining hall''),
    (''rationale'', JStr ''The Overseer called well.build directly; recorded as a ready-ruled action the conductor runs.''),
    (''prediction'', JObj PREDICTION), (''cost'', JObj [(''estimate'', JInt 1), (''unit'', JStr ''dwarf_ticks'')]),
    (''suggested_priority'', JInt 4), (''preconditions'', JArr []), (''public_title'', JStr ''well.build''),
    (''public_rationale'', JStr ''The Overseer acted directly; the conductor carries it out.''),
    (''step'', JObj [(''tool'', JStr ''well.build''), (''args'', JObj [(''landmark'', JStr ''dining hall'')])])]"
  by code_simp

definition direct_filed :: "((obj \<times> obj) \<times> queue) outcome" where
  "direct_filed = file_direct_action uniboslan clock empty_queue direct_1 (direct_ruling ''overseer'' 1000) (JInt 1000)"

lemma direct_filed_ok: "case direct_filed of
    Ok ((p, r), q) \<Rightarrow> getj p ''id'' = JStr ''proposal-0001'' \<and> getj r ''id'' = JStr ''ruling-0001'' | _ \<Rightarrow> False"
  unfolding direct_filed_def direct_shown by code_simp

lemma direct_filed_is: "\<exists>p r q. direct_filed = Ok ((p, r), q) \<and> getj p ''id'' = JStr ''proposal-0001'' \<and> getj r ''id'' = JStr ''ruling-0001''"
  using direct_filed_ok by (auto split: outcome.splits)

lemma queue_of_nobody: "ss_queue nobody = empty_queue" by (simp add: nobody_def)

lemma dry_passes: "dry_check (server_host fort_server) ''well.build'' [(''landmark'', JStr ''dining hall'')] nobody =
    (Inr (), nobody\<lparr>ss_events := [Dry ''well.build'' [(''landmark'', JStr ''dining hall''), (''dry_run'', JStr ''true'')]]\<rparr>)"
  by code_simp

lemma stamped_at: "stamp (server_host fort_server) s = (Inr 1000, s\<lparr>ss_events := ss_events s @ [Game ''overview.get'']\<rparr>)"
proof -
  have "xh_game (server_host fort_server) tr ''overview.get'' =
      Some (JObj [(''tier2'', JObj [(''in_game_date'', JStr ''year 0, tick 1000'')])])" for tr
  proof -
    have "argv_for_call printer overview_get [] = Inr [''df-overseer-overview'', ''get'']" by code_simp
    moreover have "tool_of fort_tools ''overview.get'' = Some overview_get" by code_simp
    ultimately show ?thesis
      by (simp add: server_host_def Let_def call_dfhack_def fort_server_def fort_run_def only_error_def)
  qed
  moreover have "game_tick_from_overview (JObj [(''tier2'', JObj [(''in_game_date'', JStr ''year 0, tick 1000'')])]) = Some 1000"
    by code_simp
  ultimately show ?thesis by (simp add: stamp_def andthen_def game_read_def give_def)
qed

lemma write_checked: "check_access fort_roster ''overseer'' ''well.build'' = Ok (True, ''granted: write'')"
    "tool_of fort_tools ''well.build'' = Some well_build" "\<not> te_native well_build"
    "is_direct_tool uniboslan ''well.build'' ''overseer''" "\<not> is_preview printer well_build (at_hall True)"
    "takes_dry_run (reg_tool.truncate well_build)" "map_of (snd fort_names) ''well__build'' = Some ''well.build''"
    "argv_for_call printer well_build [(''landmark'', JStr ''dining hall'')] = Inr [''df-overseer-well'', ''build'', ''dining hall'']"
  by code_simp+

lemma host_parts [simp]: "xh_pr (server_host fort_server) = printer" "xh_fails (server_host fort_server) ev = False"
    "xh_now (server_host fort_server) ev = clock" "xh_others (server_host fort_server) ev q = q"
  by (simp_all add: server_host_def Let_def fort_server_def)

lemma write_filed: "fst (handle_call_tool fort_server (Some ''overseer'') ''well__build'' (at_hall True) nobody) =
    Filed [(''queued'', JBool True), (''proposal_id'', JStr ''proposal-0001''), (''ruling_id'', JStr ''ruling-0001''), (''tool'', JStr ''well.build'')]"
proof -
  from direct_filed_is obtain p r q where d: "direct_filed = Ok ((p, r), q)" "getj p ''id'' = JStr ''proposal-0001''"
    "getj r ''id'' = JStr ''ruling-0001''" by blast
  have "fst (file_action (server_host fort_server) well_build ''overseer'' ''well.build'' (at_hall True) nobody) =
    Inr [(''queued'', JBool True), (''proposal_id'', JStr ''proposal-0001''), (''ruling_id'', JStr ''ruling-0001''), (''tool'', JStr ''well.build'')]"
    using d(1) [unfolded direct_filed_def direct_1_def] d(2,3)
    by (simp add: file_action_def direct_args write_checked andthen_def dry_passes stamped_at crash_refused_def store_op_def Let_def
        queue_of_nobody give_def)
  then show ?thesis
    by (auto simp: handle_call_tool_def dispatch_def settle_call_def write_checked split: prod.splits sum.splits failure.splits)
qed

lemma advisor_refused: "fst (handle_call_tool fort_server (Some ''quartermaster'') ''well__build'' (at_hall False) nobody) =
    Turned_down [''well.build is not on the allowlist; propose it instead'']"
  by code_simp

text \<open>The Quartermaster proposes a work order, citing what the list of wells says.\<close>

definition fact_ref :: obj where
  "fact_ref = [(''tool'', JStr ''well.list''), (''field'', JStr ''ok'')]"

definition order_call :: obj where
  "order_call = [(''type'', JStr ''work_order''), (''summary'', JStr ''Make a bucket for the well''),
     (''rationale'', JStr ''The well has no bucket''), (''prediction'', JObj [(''signal'', JStr ''fort.population''), (''op'', JStr ''gte''),
       (''value'', JInt 7), (''check_after_ticks'', JInt 500)]), (''cost'', JObj [(''estimate'', JInt 200), (''unit'', JStr ''dwarf_ticks'')]),
     (''suggested_priority'', JInt 3), (''preconditions'', JArr []), (''public_rationale'', JStr ''A bucket keeps everyone drinking''),
     (''relies_on'', JArr [JObj fact_ref])]"

definition order_record :: obj where
  "order_record = setj (stamped_record ''proposal'' ''quartermaster'' 1000 (butlast PROPOSE_FIELDS) order_call) ''cited''
     (JArr [cited_entry fact_ref (JBool True) 1000])"

definition order_filed :: "(obj \<times> queue) outcome" where
  "order_filed = append_in_conn uniboslan clock empty_queue order_record (JInt 1000)"

lemma order_filed_ok: "case order_filed of Ok (r, q) \<Rightarrow> getj r ''id'' = JStr ''proposal-0001'' | _ \<Rightarrow> False"
  by code_simp

lemma order_filed_is: "\<exists>r q. order_filed = Ok (r, q)"
  using order_filed_ok by (auto split: outcome.splits)

lemma order_checks: "list_ex (\<lambda>k. k \<notin> set PROPOSE_FIELDS) (map fst order_call) = False"
    "has (stamped_record ''proposal'' ''quartermaster'' 1000 (butlast PROPOSE_FIELDS) order_call) ''relies_on''"
    "validate_fact_list (stamped_record ''proposal'' ''quartermaster'' 1000 (butlast PROPOSE_FIELDS) order_call) ''relies_on'' False = []"
    "map fields_of (items_of (getj (stamped_record ''proposal'' ''quartermaster'' 1000 (butlast PROPOSE_FIELDS) order_call) ''relies_on'')) = [fact_ref]"
    "\<not> has order_record ''step''" "getj order_call ''urgency'' = JNull"
  by code_simp+

lemma fact_checks: "tool_of fort_tools ''well.list'' = Some well_list" "\<not> te_native well_list \<and> \<not> te_mutates well_list"
    "check_access fort_roster ''quartermaster'' ''well.list'' = Ok (True, ''granted: read'')"
    "argv_for_call printer well_list [] = Inr [''df-overseer-well'', ''list'']" "fact_args fact_ref = []"
    "str_of (getj fact_ref ''tool'') = ''well.list''" "str_of (getj fact_ref ''field'') = ''ok''"
    "extract_field (split_on (CHR ''.'') ''ok'') (JObj [(''ok'', JBool True)]) = Some (JBool True)" "is_scalar_fact (JBool True)"
    "only_error (JObj [(''ok'', JBool True)]) = None" "is_obj (JObj [(''ok'', JBool True)])"
  by code_simp+

lemma list_run: "sv_run fort_server tr ''df-overseer-well'' [''list''] = Printed ''printed'' (Shows (JObj [(''ok'', JBool True)]))"
  by (simp add: fort_server_def fort_run_def)

lemma queue_parts [simp]: "qe_host (server_queue sv) = server_host sv" "qe_fact (server_queue sv) = read_fact sv"
    "qe_late (server_queue fort_server) tr = False"
  by (simp_all add: server_queue_def fort_server_def)

lemma well_fact: "read_fact fort_server tr ''quartermaster'' ''well.list'' [] = Some (JObj [(''ok'', JBool True)])"
  using fact_checks(2) by (simp add: read_fact_def fact_checks call_dfhack_def list_run)

lemma order_cites: "read_citations (server_queue fort_server) ''quartermaster'' 1000 [fact_ref] s =
    (Inr [cited_entry fact_ref (JBool True) 1000], s\<lparr>ss_events := ss_events s @ [Read ''well.list'' []]\<rparr>)"
  by (simp add: read_cited_fact_def Let_def fact_checks well_fact give_def andthen_def)

lemma queue_name: "map_of (snd fort_names) ''queue__propose'' = Some ''queue.propose''"
  by code_simp

lemma order_answered: "\<exists>r u. handle_call_tool fort_server (Some ''quartermaster'') ''queue__propose'' order_call nobody = (Answered r, u)"
proof -
  from order_filed_is obtain r q where r: "append_in_conn uniboslan clock empty_queue order_record (JInt 1000) = Ok (r, q)"
    unfolding order_filed_def by blast
  have "\<exists>u. propose (server_queue fort_server) ''quartermaster'' order_call nobody = (Inr r, u)"
    using r by (simp add: propose_def reject_unknown_def order_checks andthen_def stamped_at Let_def
      with_citations_def refuse_all_def order_cites with_step_check_def give_def append_locked_def store_op_def
      queue_of_nobody flip: order_record_def del: read_citations.simps)
  moreover note queue_name
  moreover have "check_access fort_roster ''quartermaster'' ''queue.propose'' = Ok (True, ''granted: write'')"
    "tool_of fort_tools ''queue.propose'' = Some queue_propose" "te_native queue_propose" by code_simp+
  ultimately show ?thesis
    by (auto simp: handle_call_tool_def dispatch_def settle_call_def queue_tool_def)
qed

end
