(* ===== verification/Spec2Isabelle.thy ===== *)
theory Spec2Isabelle
  imports Plan_Log Fort_Days Pause_Runs Call_Runs Serve_Runs
begin

text \<open>
  \<^bold>\<open>df-overseer: the decision queue, its executor, its predictions and the conductor.\<close>

  The program runs a Dwarf Fortress fort with a team of language-model roles. The roles never touch
  the game: they file records in a queue (\<open>dfqueue/store.py\<close>), the Overseer rules on proposals, and
  accepted rulings become projects whose steps are run as tool calls (\<open>dfmcp/executor_run.py\<close>), observed
  and closed. Every proposal carries a prediction that is graded against the game later. The conductor
  (\<open>conductor/\<close>) polls the fort, decides which role to wake and how fast the clock runs, drives the
  executor, and watches over a fort that stands paused.

  \<^bold>\<open>Parts and theories: the queue.\<close>
  \<^item> \<open>Prelude\<close>: the JSON values records are made of, objects as association lists with the Python
    reading of \<open>get\<close>, truthiness, the \<open>outcome\<close> of an operation (a value, a \<open>QueueError\<close> with its
    messages, or another exception), and decimal numerals.
  \<^item> \<open>Texts\<close> (\<open>dfqueue/schema.py\<close>): the search for map coordinates in texts and serialised values.
  \<^item> \<open>Signals\<close> (\<open>learning/live_signals.py\<close>): the signal language of predictions and how a signal is read
    from the game; the game is a function argument.
  \<^item> \<open>Routing\<close> (\<open>dfqueue/routing.py\<close> and the roster of \<open>dfqueue/schema.py\<close>).
  \<^item> \<open>Step_Graph\<close>, \<open>Schema\<close>, \<open>Records\<close>, \<open>Record_Facts\<close> (\<open>dfqueue/schema.py\<close>): the requires graph, the
    validators of fields, the validator of each record kind and what an accepted record satisfies.
  \<^item> \<open>Plan\<close> (\<open>dfqueue/plan.py\<close>, \<open>dfqueue/templates.py\<close>, part of \<open>fort_roadmap/roadmap.py\<close>): wants and
    shortfall of the fort plan's targets, the diff of two versions, the season guardrail.
  \<^item> \<open>Queue\<close>, \<open>Duplicates\<close>, \<open>Checks\<close>, \<open>Append\<close>, \<open>Executor\<close>, \<open>Board\<close> (\<open>dfqueue/store.py\<close>): the tables
    as the record \<open>queue\<close> (records in insertion order, predictions, step targets, meta rows, step runs),
    the reads, the cross-record checks of an append, the append with its effects, the executor's
    operations, the boards.
  \<^item> \<open>Grading\<close> (\<open>dfqueue/grade.py\<close>, \<open>learning/predictions\<close>): comparing a value read from the game and
    grading what is due.
  \<^item> \<open>Steps\<close> makes the operations a transition system \<open>qstep\<close>; \<open>Step_Writes\<close> reduces each to four kinds of
    writes; \<open>Invariants\<close>, \<open>Integrity\<close>, \<open>Predictions\<close>, \<open>Step_Runs\<close>, \<open>Effects\<close>, \<open>Plan_Log\<close> hold the invariants of
    reachable queues by topic, and what single operations do.

  \<^bold>\<open>Parts and theories: a tool call.\<close>
  \<^item> \<open>Action_Data\<close>, \<open>Action_Facts\<close> (\<open>dfmcp/action_data.py\<close>): the execution data a tool declares and its
    validation, the verdict of a dry and a real call, handles, progress, and the read that tells
    whether an unanswered call landed.
  \<^item> \<open>Registry\<close>, \<open>Roles\<close>, \<open>Tool_Args\<close>, \<open>Arg_Facts\<close> (\<open>dfmcp/registry.py\<close>, \<open>roles.py\<close>, \<open>tools.py\<close>): the table of tools, which role
    holds which, and the command line a call's arguments spell.
  \<^item> \<open>Step_Call\<close> (\<open>dfmcp/executor_run.py\<close>): \<open>run_step\<close>, \<open>resolve_uncertain\<close> and \<open>observe\<close> as computations over a
    \<open>session\<close>: the queue, and the trace of what was done. The tools (\<open>xh_call\<close>) are a function of the trace, so a
    tool may answer differently each time; before each access to the queue other sessions may act
    (\<open>xh_others\<close>), and the proofs rely only on their taking queue operations (\<open>fair_others\<close>) or on their leaving
    runs alone (\<open>others_keep\<close>).
  \<^item> \<open>Stage_Rules\<close>, \<open>Step_Call_Facts\<close>, \<open>Call_Outcomes\<close>: rules per construct, what precedes a real call, and what
    the queue says of the run after it.

  \<^bold>\<open>Parts and theories: a role's request.\<close>
  \<^item> \<open>Connection\<close> (\<open>dfmcp/server.py\<close>): the server's ways of calling the game; what a command prints is a function of the
    trace. \<open>server_host\<close> makes the tools of \<open>Step_Call\<close> out of them.
  \<^item> \<open>Filing\<close> (\<open>dfmcp/executor_filing.py\<close>), \<open>Queue_Tools\<close> (\<open>dfmcp/queue_tools.py\<close>), \<open>Filing_Facts\<close>: the tools that file a
    record, the facts a proposal cites, the rehearsal of its step, and what is on the log afterwards.
  \<^item> \<open>Serve\<close>, \<open>Serve_Facts\<close> (\<open>dfmcp/server.py\<close>, \<open>direct_actions.py\<close>): a request from the role to the answer, and what it
    can do to the game and to the queue.

  \<^bold>\<open>Parts and theories: the conductor.\<close>
  \<^item> \<open>Backoff\<close>, \<open>Triage\<close> (\<open>conductor/backoff.py\<close>, \<open>policy.py\<close>, \<open>triage.py\<close>): when a standing fact wakes a role
    again, and the roles and the clock level of a cycle's signals.
  \<^item> \<open>Watches\<close>, \<open>Holds\<close>, \<open>Lane_Reads\<close>, \<open>Lanes\<close>, \<open>Lane_Facts\<close> (\<open>order_watch.py\<close>, \<open>job_watch.py\<close>, \<open>tripwire.py\<close>,
    \<open>cursors.py\<close>, \<open>ore_watch.py\<close>, \<open>stock_hold.py\<close>, \<open>unsupplied_watch.py\<close>, \<open>noble_room_watch.py\<close>, \<open>lanes.py\<close>): the
    watches over the fort, with their stored state as records and maps.
  \<^item> \<open>Execute\<close>, \<open>Execute_Facts\<close> (\<open>conductor/execute.py\<close>): the pass that observes, closes, opens, runs and retries
    between two polls; a \<open>phase\<close> carries the calls made, and a tool's answer depends on them.
  \<^item> \<open>Hold\<close>, \<open>Pause\<close>, \<open>Pause_Facts\<close> (\<open>conductor/hold.py\<close>, \<open>pause_watch.py\<close>): the operator's hold, and the watchdog
    that explains a pause, ends it, or hands it to the Overseer.
  \<^item> \<open>Cycle\<close>, \<open>Cycle_Facts\<close> (\<open>conductor/cycle.py\<close>): the cycle of a conductor whose fort is paused, by a latched
    tripwire or without an explanation.

  \<^bold>\<open>Interfaces.\<close> \<open>Logs\<close> states an append-only log, keyed tables and rows with a life cycle as locales;
  \<open>Invariants\<close> and the theories after it interpret them on the queue. \<open>standing_watch\<close> (\<open>Lane_Facts\<close>) is the
  contract of the three watches with a record per fact. \<open>reading\<close>, \<open>observing\<close>, \<open>settling\<close> (\<open>Stage_Rules\<close>) and \<open>storing\<close> (\<open>Filing_Facts\<close>), each
  an extension of the one before, say which relations between two sessions survive the stages
  of a call; their interpretations are \<open>moves\<close> (the queue goes from one reachable state to
  another) and \<open>prepares\<close> (and no real call is made).
  \<open>Fort\<close>, \<open>Fort_Days\<close>, \<open>Conductor_Runs\<close>, \<open>Pause_Runs\<close>, \<open>Call_Runs\<close>, \<open>Serve_Runs\<close>: the shipped configuration as constants and
  runs under it, for the witnesses.

  \<^bold>\<open>Correspondence.\<close> A definition has the name of the Python function it translates where Isabelle
  allows it. A transaction is one function from queue to queue, since the store serialises writers with
  \<open>BEGIN IMMEDIATE\<close> and a refused or failed transaction leaves no trace. A record is an association list
  with the keys in insertion order. The clock is an argument. SQLite row ids are list positions. Error
  messages keep the field path and a shortened text. What Python prints (\<open>str\<close> of a value that is not a
  text or a number) is the argument \<open>pr\<close>. State kept in JSON files is passed and returned.

  \<^bold>\<open>What the theorems show.\<close> The queue: invariants of the log and of single records over every
  sequence of operations with any arguments, the plan and the runs of a project, predictions that mirror
  the proposals and end in one grade. The conductor: how often a standing fact wakes someone, which steps a
  pass runs, when a paused fort is resumed and how often. A tool call: a real call is licensed by the queue,
  rehearsed where the tool can be, on record afterwards, and not repeated while its outcome is open. A request:
  the roster decides what reaches the game, and what a role files is in its name, with values the server read.
  The pure parts (coordinate search, signal round trip, cycle search) meet their specifications.

  \<^bold>\<open>Bounds and fuel.\<close> No definition runs on fuel. The depth-first search, the matching blocks and the
  splitting of texts are \<open>function\<close>s with measures; the loops over rows are structural. Python integers are
  unbounded and are \<open>int\<close>; a float is a rational, so NaN and infinities, which the parsers of the queue
  refuse, are not represented.

  \<^bold>\<open>Not modelled.\<close> Opening and migrating the SQLite file, the JSON export and the command lines; reading
  the YAML and policy files (their parsed content is the configuration); the ordinary path of the cycle,
  which composes the modelled parts with processes and briefings; the plan watch; the filing of plans
  and the cleanup of a closed project; the reads and texts of the queue tools, the other native tools, the
  descriptions of tools, tokens and the MCP transport; the ledger, the time series, the doctrine and production checks,
  the wiki mirror, the site and the deployment scripts. Production, ledger and series are reports over data the
  modelled parts do not read; the rest is input and output around the modelled functions.
\<close>

section \<open>The record log\<close>

text \<open>C1: The queue is append-only: whatever operations run between two states of the store, the
  records of the later one are those of the earlier one followed by new records; none is removed, changed or
  moved.\<close>

theorem records_append_only:
  assumes "reachable cf q" and "reaches cf q q'"
  shows "\<exists>new. q_records q' = q_records q @ new"
  by (rule records.log_append_only [OF reaches_writes [OF assms]])

theorem records_append_only_day: "\<exists>new. q_records closed_day = q_records filed @ new"
  by (rule records_append_only [OF day_reachable(1) day_reaches(1)])

theorem ids_unique:
  assumes "reachable cf q"
  shows "distinct (map rec_id (q_records q)) \<and> list_all (\<lambda>r. nonempty_str (getj r ''id'')) (q_records q)"
proof -
  have "map (\<lambda>r. getj r ''id'') (q_records q) = map JStr (map rec_id (q_records q))"
    using reachable_str_id [OF assms] by simp
  with reachable_distinct_ids [OF assms] have "distinct (map rec_id (q_records q))" by (metis distinct_map)
  with reachable_str_ids [OF assms] show ?thesis by (simp add: list_all_iff)
qed

theorem ids_unique_day: "distinct (map rec_id (q_records closed_day))"
  using ids_unique [OF day_reachable(7)] by (rule conjunct1)

text \<open>C2: Referential integrity: what a record names (the proposal of a ruling, the accepting ruling
  of a project, the ask of an answer whose addressee writes the answer, the project of an amend, abandon or
  observation, the target of a close) is a record of the right kind that was stored before it.\<close>

theorem references_point_back:
  assumes "reachable cf q" and "i < length (q_records q)"
  shows "refs_ok (take i (q_records q)) (q_records q ! i)"
  using reachable_refs_back [OF assms(1)] assms(2) by blast

theorem references_point_back_day: "refs_ok [proposal_1, ruling_1] project_1"
  using references_point_back [OF day_reachable(7), of 2] by (simp add: day_records)

text \<open>C3: A proposal has at most one final (accept or reject) ruling.\<close>

theorem one_final_ruling:
  assumes "reachable cf q"
  shows "length (filter (\<lambda>r. is_kind ''ruling'' r \<and> final_decision r \<and> getj r ''proposal_id'' = pid) (q_records q)) \<le> 1"
  by (rule reachable_count [OF assms reachable_unique_rulings [OF assms] refs_ok_names(1)])

theorem one_final_ruling_day:
  "length (filter (\<lambda>r. is_kind ''ruling'' r \<and> final_decision r \<and> getj r ''proposal_id'' = JStr ''proposal-0001'')
     (q_records closed_day)) \<le> 1"
  by (rule one_final_ruling [OF day_reachable(7)])

theorem one_project_per_ruling:
  assumes "reachable cf q"
  shows "length (filter (\<lambda>r. is_kind ''project'' r \<and> getj r ''from_ruling'' = rid) (q_records q)) \<le> 1"
  using reachable_count [OF assms reachable_unique_projects [OF assms] refs_ok_names(2), where v = rid] by simp

theorem one_project_per_ruling_day:
  "length (filter (\<lambda>r. is_kind ''project'' r \<and> getj r ''from_ruling'' = JStr ''ruling-0001'') (q_records closed_day)) \<le> 1"
  by (rule one_project_per_ruling [OF day_reachable(7)])

theorem one_answer_and_one_close:
  assumes "reachable cf q" and "f \<in> set CLOSE_TARGET_FIELDS"
  shows "length (filter (\<lambda>r. is_kind ''answer'' r \<and> getj r ''ask_id'' = aid) (q_records q)) \<le> 1 \<and>
    length (filter (\<lambda>r. is_kind ''close'' r \<and> has r f \<and> getj r f = v) (q_records q)) \<le> 1"
proof -
  have "kind_key ''close'' (\<lambda>r. has r f) f = kind_key ''close'' (\<lambda>_. True) f"
    by (rule ext) (auto simp: kind_key_def getj_absent)
  with reachable_unique_closes [OF assms]
  have "distinct (keys_by (kind_key ''close'' (\<lambda>r. has r f) f) (q_records q))" by simp
  then have "length (filter (\<lambda>r. is_kind ''close'' r \<and> has r f \<and> getj r f = v) (q_records q)) \<le> 1"
    by (rule reachable_count [OF assms(1)]) (rule refs_ok_names(5) [OF _ _ assms(2)])
  with reachable_count [OF assms(1) reachable_unique_answers [OF assms(1)] refs_ok_names(3), where v = aid]
  show ?thesis by simp
qed

theorem one_answer_and_one_close_day:
  "length (filter (\<lambda>r. is_kind ''close'' r \<and> has r ''project_id'' \<and> getj r ''project_id'' = JStr ''project-0001'')
     (q_records closed_day)) \<le> 1"
  by (rule one_answer_and_one_close [OF day_reachable(7), THEN conjunct2]) (simp add: CLOSE_TARGET_FIELDS_def)

section \<open>What a stored record says\<close>

text \<open>C4: Every stored record has a known kind and was written by an enabled role that may write that
  kind: rulings, escalations and abandons by the sole writer, executed, project and amend records by it or
  the executor, closes by the executor, answers by an answerer, plans by the Planner, observations by the
  conductor.\<close>

theorem writer_authority:
  assumes "reachable cf q" and "r \<in> set (q_records q)"
  shows "\<exists>k w. is_kind k r \<and> k \<in> set KINDS \<and> getj r ''role'' = JStr w \<and> w \<in> set (enabled_roles (cf_roster cf)) \<and>
    w \<in> set (writers cf k)"
proof -
  from reachable_stored [OF assms] have s: "stored cf r" .
  then obtain k where k: "is_kind k r" "k \<in> set KINDS" by (rule stored_kind)
  with stored_writer [OF s k(1)] show ?thesis by blast
qed

theorem writer_authority_day: "\<exists>k w. is_kind k close_1 \<and> k \<in> set KINDS \<and> getj close_1 ''role'' = JStr w \<and>
    w \<in> set (enabled_roles (cf_roster uniboslan)) \<and> w \<in> set (writers uniboslan k)"
  by (rule writer_authority [OF day_reachable(7)]) (simp add: day_records)

text \<open>C5: The texts of a stored record (summary, rationale, reason, notes, question, answer and so on)
  are non-empty and contain no substring of the shape of a map coordinate.\<close>

theorem texts_name_no_coordinate:
  assumes "reachable cf q" and "r \<in> set (q_records q)" and "is_kind k r" and "name \<in> set (text_fields k)"
  shows "nonempty_str (getj r name) \<and>
    \<not> (\<exists>pre m post. str_of (getj r name) = pre @ m @ post \<and> coordinate_between pre m post)"
  using stored_text [OF reachable_stored [OF assms(1,2)] assms(3,4)] find_coordinate_None_iff by simp

theorem texts_name_no_coordinate_day:
  "nonempty_str (getj proposal_1 ''summary'') \<and>
   \<not> (\<exists>pre m post. str_of (getj proposal_1 ''summary'') = pre @ m @ post \<and> coordinate_between pre m post)"
  by (rule texts_name_no_coordinate [OF day_reachable(7) _ day_kinds(1)]) (simp_all add: day_records text_fields_def)

theorem step_args_hold_no_coordinate:
  assumes "reachable cf q" and "r \<in> set (q_records q)" and "is_kind ''proposal'' r" and "has r ''step''"
  shows "\<not> inside (JArr [JInt x, JInt y, JInt z]) (getj (fields_of (getj r ''step'')) ''args'')"
  by (rule stored_step_args [OF reachable_stored [OF assms(1,2)] assms(3,4)])

theorem step_args_hold_no_coordinate_day:
  "\<not> inside (JArr [JInt 10, JInt 20, JInt 3]) (getj (fields_of (getj proposal_1 ''step'')) ''args'')"
  by (rule step_args_hold_no_coordinate [OF day_reachable(7) _ day_kinds(1)])
    (simp_all add: day_records proposal_1_def stamped_def well_proposal_def has_def)

section \<open>Projects and their steps\<close>

text \<open>C6: The current steps of every project, after any amends and follow-ups, are objects with
  different ids whose requires name steps of the same plan and have no cycle, and there is at least
  one.\<close>

theorem current_plan_well_formed:
  assumes "reachable cf q" and "p \<in> set (q_records q)" and "is_kind ''project'' p"
  shows "steps_ok (current_steps q p) \<and> current_steps q p \<noteq> []"
  by (rule reachable_steps_ok [OF assms])

theorem current_plan_well_formed_day: "steps_ok (current_steps opened project_1) \<and> current_steps opened project_1 \<noteq> []"
  by (rule current_plan_well_formed [OF day_reachable(2) _ day_kinds(3)]) (simp add: day_records)




theorem begun_run_may_run:
  assumes "reachable cf q" and "begin_step_run cf now q prid sid t baseline = Ok (i, q')" and "\<not> is_cleanup sid"
  shows "may_run cf q prid sid"
  using begin_Ok [OF assms(2)] assms(3) runnable_may_run [OF _ assms(1)] by auto

theorem begun_run_may_run_day: "may_run uniboslan opened ''project-0001'' ''project-0001/s1''"
  by (rule begun_run_may_run [OF day_reachable(2) begun_call]) code_simp



theorem cutover_only_moves_forward:
  assumes "reachable cf q" and "reaches cf q q'" and "cutover_at q g = Some n"
  shows "\<exists>m \<ge> n. cutover_at q' g = Some m"
proof -
  have le: "(<)\<^sup>*\<^sup>* n m \<Longrightarrow> n \<le> m" for n m :: int by (induction rule: rtranclp_induct) auto
  from cutovers.status_path [OF reaches_writes [OF assms(1,2)] assms(3)] le show ?thesis by blast
qed

theorem cutover_only_moves_forward_day: "\<exists>m \<ge> 1. cutover_at (mark_plan_reviewed 2000 cut_day) ''rooms'' = Some m"
  by (rule cutover_only_moves_forward [OF cut_reachable cut_reaches]) code_simp

section \<open>The boards\<close>

text \<open>C9: The board of rulings to open lists exactly the rulings open_project_from_ruling has no
  reason to refuse, although the two are separate code.\<close>

theorem openable_board_exact:
  assumes "reachable cf q" and "openable_rulings cf q = Ok os"
  shows "(\<exists>e \<in> set os. op_ruling e = rid) \<longleftrightarrow>
    (\<exists>ruling. get_rec q (JStr rid) ''ruling'' = Some ruling \<and> open_reasons cf q rid ruling = Ok [])"
  by (rule openable_iff [OF assms])

lemma filed_board: "openable_rulings uniboslan filed =
    Ok [\<lparr>op_ruling = ''ruling-0001'', op_proposal = ''proposal-0001'', op_role = JStr ''overseer''\<rparr>]"
  by code_simp

theorem openable_board_exact_day:
  "\<exists>ruling. get_rec filed (JStr ''ruling-0001'') ''ruling'' = Some ruling \<and> open_reasons uniboslan filed ''ruling-0001'' ruling = Ok []"
  using openable_board_exact [OF day_reachable(1) filed_board, of "''ruling-0001''"] by simp

theorem followup_board_exact:
  assumes "reachable cf q"
  shows "(pid, prid) \<in> set (applicable_followups q) \<longleftrightarrow>
    (\<exists>p project. get_rec q (JStr pid) ''proposal'' = Some p \<and> get_rec q (getj p ''project_id'') ''project'' = Some project \<and>
       followup_reasons q p project = [] \<and> prid = rec_id project)"
  by (rule followup_iff [OF assms])

theorem followup_board_exact_day:
  "(''proposal-0001'', ''project-0001'') \<in> set (applicable_followups closed_day) \<longleftrightarrow>
    (\<exists>p project. get_rec closed_day (JStr ''proposal-0001'') ''proposal'' = Some p \<and>
       get_rec closed_day (getj p ''project_id'') ''project'' = Some project \<and>
       followup_reasons closed_day p project = [] \<and> ''project-0001'' = rec_id project)"
  by (rule followup_board_exact [OF day_reachable(7)])

theorem pending_board_exact:
  assumes "reachable cf q"
  shows "check_ruling cf q [] r = [] \<longleftrightarrow>
    (\<exists>p \<in> set (pending_proposals q None). getj p ''id'' = getj r ''proposal_id'') \<and> \<not> open_fact_check cf q (getj r ''proposal_id'')"
  by (rule ruling_pending_iff [OF assms])

theorem pending_board_exact_day:
  "check_ruling uniboslan closed_day [] ruling_1 = [] \<longleftrightarrow>
    (\<exists>p \<in> set (pending_proposals closed_day None). getj p ''id'' = getj ruling_1 ''proposal_id'') \<and>
      \<not> open_fact_check uniboslan closed_day (getj ruling_1 ''proposal_id'')"
  by (rule pending_board_exact [OF day_reachable(7)])

section \<open>Predictions\<close>

text \<open>C10: The predictions table has one row per proposal, in order, with the signal, operator, value
  and delay the proposal wrote, and every one is a prediction whose value fits its signal.\<close>

theorem predictions_mirror_proposals:
  assumes "reachable cf q"
  shows "map row_of (q_preds q) = map predicted (of_kind q ''proposal'') \<and>
    list_all (\<lambda>r. is_obj (getj r ''prediction'') \<and> prediction_ok (fields_of (getj r ''prediction''))) (of_kind q ''proposal'')"
  using reachable_mirror [OF assms] stored_prediction [OF reachable_stored [OF assms]]
  by (simp add: mirrored_def list_all_iff of_kind_def)

theorem predictions_mirror_proposals_day: "map row_of (q_preds closed_day) = map predicted (of_kind closed_day ''proposal'')"
  using predictions_mirror_proposals [OF day_reachable(7)] by (rule conjunct1)



text \<open>C12: A grading cycle that returns gives every due prediction a final grade and leaves every
  other row as it was; nothing is due at that tick afterwards, so running the cycle again changes nothing,
  whatever the game answers.\<close>

theorem grading_settles_what_is_due:
  assumes "reachable cf q" and "grade_due pr call now q t = Some (us, q')"
  shows "(\<forall>p \<in> set (q_preds q). if p \<in> set (pending_due q t)
      then \<exists>p' \<in> set (q_preds q'). pred_core p' = pred_core p \<and> pr_status p' \<in> set [''graded_true'', ''graded_false'', ''unresolvable'']
      else p \<in> set (q_preds q')) \<and>
    pending_due q' t = [] \<and> grade_due pr' call' now' q' t = Some ([], q')"
proof -
  have n: "pending_due q' t = []" by (rule grade_due_none_left [OF assms(2) reachable_ids [OF assms(1)]])
  then have "grade_due pr' call' now' q' t = Some ([], q')" by (simp add: grade_due_def apply_grades_def)
  moreover have "if p \<in> set (pending_due q t)
      then \<exists>p' \<in> set (q_preds q'). pred_core p' = pred_core p \<and> pr_status p' \<in> set [''graded_true'', ''graded_false'', ''unresolvable'']
      else p \<in> set (q_preds q')" if "p \<in> set (q_preds q)" for p
    by (rule grade_due_rows [OF assms(2) reachable_ids [OF assms(1)] that])
  ultimately show ?thesis using n by blast
qed

lemma observed_due: "pending_due observed 1700 = q_preds observed"
  by code_simp

theorem grading_settles_what_is_due_day: "pending_due graded 1700 = []"
  using grading_settles_what_is_due [OF day_reachable(5) graded_call] by blast




section \<open>The fort plan\<close>

text \<open>C14: The i-th stored fort plan has version i, supersedes the one before it, and carries as its
  changes what the server computes as the difference against it, which is not empty.\<close>

theorem plan_versions_chain:
  assumes "reachable cf q" and "i < length (of_kind q ''fort_plan'')"
  shows "getj (of_kind q ''fort_plan'' ! i) ''version'' = JInt (int i + 1) \<and>
    version_ok cf (version_before (of_kind q ''fort_plan'') i) (of_kind q ''fort_plan'' ! i)"
  using reachable_versions [OF assms(1)] plan_chain_nth [OF reachable_plan_chain [OF assms(1)], of i] assms(2)
  by (simp add: of_kind_def add.commute)

lemma replanned_versions: "of_kind replanned ''fort_plan'' = [plan_1, plan_2]"
  by code_simp

theorem plan_versions_chain_day:
  "getj plan_2 ''version'' = JInt 2 \<and> version_ok uniboslan (Some plan_1) plan_2"
  using plan_versions_chain [OF plans_reachable(2), of 1] by (simp add: replanned_versions version_before_def)

theorem one_plan_version_per_season:
  assumes "reachable cf q" and "i < length (of_kind q ''fort_plan'')"
  shows "season_ok cf (version_before (of_kind q ''fort_plan'') i) (of_kind q ''fort_plan'' ! i)"
  using reachable_versions [OF assms(1)] assms(2) by blast

theorem one_plan_version_per_season_day: "season_ok uniboslan (Some plan_1) plan_2"
  using one_plan_version_per_season [OF plans_reachable(2), of 1] by (simp add: replanned_versions version_before_def)

section \<open>Texts, signals, routing, the step graph\<close>

text \<open>C15: The coordinate search finds nothing exactly when no substring of the text has the shape of
  a coordinate under the word boundaries of the pattern.\<close>

theorem coordinate_search_exact:
  "find_coordinate s = None \<longleftrightarrow> \<not> (\<exists>pre m post. s = pre @ m @ post \<and> coordinate_between pre m post)"
  by (rule find_coordinate_None_iff)

text \<open>C16: A landmark name, however many quotes and backslashes it has, survives being quoted into a
  signal and parsed back, for one-name and two-name signals.\<close>

theorem landmark_signal_round_trip:
  "parse_text (landmark_exists_signal n) = Some (bare_signal LANDMARK_EXISTS (landmark_exists_signal n) \<lparr>ps_landmark := Some n\<rparr>) \<and>
   parse_text (exit_distance_signal n m) =
     Some (bare_signal LANDMARK_EXIT_DISTANCE (exit_distance_signal n m) \<lparr>ps_landmark := Some n, ps_exit_to := Some m\<rparr>)"
  by (rule conjI [OF parse_landmark_exists parse_exit_distance])

theorem routing_types_disjoint:
  assumes "routing_validate raw = Some rt"
  shows "distinct (concat (map g_types (rt_groups rt))) \<and>
    (is_routed rt (JStr t) \<longleftrightarrow> (\<exists>g \<in> set (rt_groups rt). t \<in> set (g_types g) \<and> (g_routed g \<or> g_direct g))) \<and>
    \<not> (is_ruling_only rt (JStr t) \<and> is_routed rt (JStr t))"
  using routing_validate_distinct_types [OF assms] is_routed_iff [OF assms] ruling_only_never_routed [OF assms] by blast

theorem routing_types_disjoint_day: "distinct (concat (map g_types (rt_groups uniboslan_routing)))"
  using routing_types_disjoint [OF action_tools_valid] by (rule conjunct1)

text \<open>C17: The depth-first search over the requires edges of a plan returns (it terminates on every
  plan) and reports no cycle exactly when the graph has none.\<close>

theorem cycle_finder_exact:
  "find_requires_cycle steps = None \<longleftrightarrow> acyclic (requires_edges steps)"
  by (rule find_requires_cycle_None_iff)

section \<open>The conductor\<close>

text \<open>C18: A fact that stays true, looked at at rising ticks, wakes at the first look, at most
  max_wakes times (at least once), and the wait between two wakes is at least the base doubled per wake sent
  and cut at the cap.\<close>

theorem renotify_bounded_and_spaced:
  assumes "sorted ts" and "ts \<noteq> []"
  shows "wakes_at rule None ts \<noteq> [] \<and> hd (wakes_at rule None ts) = hd ts \<and>
    length (wakes_at rule None ts) \<le> nat (max (bo_max rule) 1) \<and>
    (\<forall>i. Suc i < length (wakes_at rule None ts) \<longrightarrow>
       wakes_at rule None ts ! Suc i - wakes_at rule None ts ! i \<ge> wait_ticks rule (int i + 1))"
  by (rule wakes_from_start [OF assms])

theorem renotify_bounded_and_spaced_day: "length (wakes_at half_day None [0, 600, 1200, 1800, 7000]) \<le> 3"
  using renotify_bounded_and_spaced [of "[0, 600, 1200, 1800, 7000]" half_day] by (simp add: half_day_def)

theorem retry_clock_never_goes_back:
  assumes "rc_retry_ticks rc \<ge> 0" and "sorted (map snd xs)" and "rt_seen cur = None \<or> xs = [] \<or> the (rt_seen cur) \<le> snd (hd xs)"
  shows "sorted (retry_run rc cur xs)"
  by (rule retry_run_sorted [OF assms(1,2)]) (use assms(3) in auto)

theorem retry_clock_never_goes_back_day:
  "sorted (retry_run \<lparr>rc_paused_seconds = 600, rc_retry_ticks = 12000\<rparr>
     \<lparr>rt_seen = Some 100, rt_wall = Some 0, rt_offset = 0\<rparr> [(700, 100), (800, 100), (1500, 100), (1600, 200)])"
  by (rule retry_clock_never_goes_back) simp_all

theorem cycle_roles_and_clock:
  assumes "triage fmt1 sg pol base_fps = Some tr"
  shows "set (tr_roles tr) = {r. r \<noteq> [] \<and> (\<exists>w \<in> set (tr_wakes tr). r \<in> set (wk_roles w))} \<and> distinct (tr_roles tr) \<and>
    (OVERSEER \<in> set (tr_roles tr) \<longrightarrow> last (tr_roles tr) = OVERSEER) \<and>
    (PLANNER \<in> set (tr_roles tr) \<longrightarrow> hd (tr_roles tr) = PLANNER) \<and>
    (\<forall>w \<in> set (tr_wakes tr). urgency (wk_clock w) \<le> urgency (tr_clock tr))"
proof -
  from assms have r: "tr_roles tr = order_roles (roles_named (tr_wakes tr))" and c: "tr_clock tr = most_urgent (map wk_clock (tr_wakes tr))"
    by (auto simp: triage_def)
  have "set (tr_roles tr) = set (roles_named (tr_wakes tr))" unfolding r by (rule set_order_roles)
  moreover have "OVERSEER \<in> set (tr_roles tr) \<longrightarrow> last (tr_roles tr) = OVERSEER"
    using order_roles_overseer [of "roles_named (tr_wakes tr)"] unfolding r set_order_roles by auto
  moreover have "PLANNER \<in> set (tr_roles tr) \<longrightarrow> hd (tr_roles tr) = PLANNER"
    using order_roles_planner unfolding r set_order_roles by blast
  moreover have "\<forall>w \<in> set (tr_wakes tr). urgency (wk_clock w) \<le> urgency (tr_clock tr)"
    unfolding c by (auto intro!: most_urgent_ge)
  moreover have "distinct (tr_roles tr)" unfolding r by (rule distinct_order_roles [OF distinct_roles_named])
  ultimately show ?thesis by (simp add: set_roles_named)
qed

theorem cycle_roles_and_clock_day: "distinct (tr_roles season_result) \<and> last (tr_roles season_result) = OVERSEER"
  using cycle_roles_and_clock [OF season_triage] by (simp add: season_roles)

theorem stuck_order_follows_the_rule:
  assumes "getj o1 ''id'' = JInt i" and "order_condition_of o1 = Some cond"
    and "cur_get c (first_key i) = f" and "f \<noteq> 0" and "\<forall>(tick, rt) \<in> set ts. max 0 (tick - f) \<ge> op_threshold pol"
    and "cur_get c (wakes_key i) = 0" and "cur_get c (notified_key i) = 0"
  shows "order_wakes_at pol o1 ts c = wakes_at (op_rule pol) None (map snd ts)"
  using order_wakes_stuck [OF assms(1-5)] assms(6,7) by (simp add: cursor_rec_def)

theorem stuck_order_follows_the_rule_day:
  "order_wakes_at \<lparr>op_threshold = 1200, op_rule = half_day\<rparr> stalled_order [(6500, 6500), (7000, 7000), (7200, 7200)] stalled_cursors
     = wakes_at half_day None [6500, 7000, 7200]"
proof -
  have "getj stalled_order ''id'' = JInt 7" "order_condition_of stalled_order = Some Stalled_Order"
    "cur_get stalled_cursors (first_key 7) = 5000" "cur_get stalled_cursors (wakes_key 7) = 0"
    "cur_get stalled_cursors (notified_key 7) = 0" by code_simp+
  from stuck_order_follows_the_rule [OF this(1-3) _ _ this(4,5), of "[(6500, 6500), (7000, 7000), (7200, 7200)]"
      "\<lparr>op_threshold = 1200, op_rule = half_day\<rparr>"]
  show ?thesis by simp
qed

theorem identical_jobs_kept_apart:
  assumes "evaluate_jobs pr pol (Some tick) rt jobs state = (state', res)"
  shows "map fst state' = job_keys pr [] (map fields_of (filter watched_job jobs)) \<and> distinct (map fst state') \<and>
    length state' = length (filter watched_job jobs) \<and> set (jw_due res) \<subseteq> set (jw_stuck res)"
  by (rule evaluate_jobs_entries [OF assms])

theorem identical_jobs_kept_apart_day: "distinct (map fst (fst bed_poll)) \<and> length (fst bed_poll) = 2"
  using identical_jobs_kept_apart [OF bed_polled] bed_watched by (metis (no_types))

section \<open>The execute phase\<close>

text \<open>C19: Every run_step call of an execute pass is for a step that a state the queue returned in
  this pass lists as ready, of a project without an unresolved run in that state, not held by ore, and of
  high urgency while a tripwire is latched.\<close>

theorem pass_runs_only_ready_steps:
  assumes "run_execute e st = (ok, ph)" and "c \<in> set (ph_calls ph)" and "fst c = ''queue.run_step''"
    and "sp_read_tool (ep_stock (ee_pol e)) \<noteq> ''queue.run_step''"
  shows "\<exists>snap. was_read e snap ph \<and> (\<exists>step \<in> set (entries snap ''ready_steps'').
    admissible e (blocked_projects e snap) step \<and> c = run_call_for e step)"
  by (rule pass_runs [OF assms])

theorem pass_runs_only_ready_steps_day:
  "\<exists>snap. was_read (pass_env answering False) snap (snd (run_execute (pass_env answering False) fresh_state)) \<and>
     (\<exists>step \<in> set (entries snap ''ready_steps''). admissible (pass_env answering False) (blocked_projects (pass_env answering False) snap) step \<and>
        run_of ''project-0001'' ''s1'' = run_call_for (pass_env answering False) step)"
  by (rule pass_runs_only_ready_steps [OF surjective_pairing])
    (simp_all add: busy_pass, simp add: run_of_def)

theorem quicksave_before_runs:
  assumes "run_execute e st = (ok, ph)" and "ee_quicksave e"
    and "sp_read_tool (ep_stock (ee_pol e)) \<notin> {''quicksave'', ''queue.run_step''}"
  shows "saves_ok False (ph_calls ph)"
  by (rule pass_saves [OF assms])

theorem quicksave_before_runs_day: "saves_ok False (calls_of_pass answering False)"
  by (rule quicksave_before_runs [OF surjective_pairing]) simp_all

theorem latched_pass_calls:
  assumes "run_execute e st = (ok, ph)" and "ee_latched e" and "c \<in> set (ph_calls ph)"
  shows "fst c \<in> {''queue.execution_state'', ''queue.resolve_uncertain'', ''queue.open_project'', ''queue.apply_followup'',
    ''quicksave'', ''queue.run_step'', ''queue.close'', sp_read_tool (ep_stock (ee_pol e))}"
  using pass_calls [OF assms(1,3)] assms(2) by (auto simp: before_runs_def)

theorem latched_pass_calls_day:
  "fst (hd (calls_of_pass answering True)) \<in> {''queue.execution_state'', ''queue.resolve_uncertain'', ''queue.open_project'',
     ''queue.apply_followup'', ''quicksave'', ''queue.run_step'', ''queue.close'', ''stocks.availability''}"
  using latched_pass_calls [OF surjective_pairing, of "pass_env answering True" "hd (calls_of_pass answering True)" fresh_state]
  by (simp add: latched_pass)



theorem idle_close_only_after_warning:
  assumes "distinct (map fst (ph_projects ph))" and "ee_tick e = Some tick"
    and "c \<in> set (drop (length (ph_calls ph)) (ph_calls (idle e ph)))"
  shows "\<exists>(pid, p) \<in> set (ph_projects ph). is_waiting p \<and> warned e tick (ph_st ph) pid \<and> idle_close_call pid c"
  by (rule idle_close_warned [OF assms])

theorem idle_close_only_after_warning_day:
  "\<exists>(pid, p) \<in> set (ph_projects idle_phase). is_waiting p \<and> warned (pass_env answering False) 50000 (ph_st idle_phase) pid \<and>
     idle_close_call pid (hd (ph_calls (idle (pass_env answering False) idle_phase)))"
  by (rule idle_close_only_after_warning)
    (simp_all only: idle_calls, simp_all add: idle_phase_def start_phase_def pass_env_def)

theorem refused_openings_bounded:
  assumes "refused_bounded e (ph_st ph)"
  shows "refused_bounded e (ph_st (snd (open_and_apply e snap ph))) \<and>
    (\<exists>cs. ph_calls (snd (open_and_apply e snap ph)) = ph_calls ph @ cs \<and> (\<forall>c \<in> set cs. tried e (ph_st ph) c))"
  using open_and_apply_retries [of e ph snap] assms by (auto simp: retries_ok_def)

theorem refused_openings_bounded_day:
  "refused_bounded (pass_env refusing False) (ph_st (snd (open_and_apply (pass_env refusing False)
     [(''to_open'', JArr [JObj [(''ruling_id'', JStr ''ruling-0009'')]])] (start_phase fresh_state))))"
  by (rule refused_openings_bounded [THEN conjunct1])
    (simp add: refused_bounded_def count_of_def start_phase_def fresh_state_def)

section \<open>Lane triggers\<close>

theorem gone_facts_are_forgotten:
  shows "k \<in> fst ` set (ls_ore st) \<Longrightarrow>
      (if k \<in> ore_key ` set (or_exposures r) \<or> key_prefix k \<in> set (or_unreadable r)
       then k \<in> fst ` set (ls_ore (apply_ore_edges pol (Some r) tick st))
       else k \<notin> fst ` set (ls_ore (apply_ore_edges pol (Some r) tick st)) \<and> \<not> owed (''ore:'' @ k) (apply_ore_edges pol (Some r) tick st))"
  using ore_poll(1,2) [OF refl, of k st r pol tick] by simp

theorem gone_facts_are_forgotten_day:
  "''site-1:GALENA'' \<notin> fst ` set (ls_ore mined_state) \<and> \<not> owed (''ore:'' @ ''site-1:GALENA'') mined_state"
proof -
  have "''site-1:GALENA'' \<in> fst ` set (ls_ore ore_state)" by code_simp
  from gone_facts_are_forgotten [OF this, of mined_read ore_lanes "Some 9000"] show ?thesis
    by (simp add: mined_state_def mined_read_def)
qed

theorem overseer_wake_is_an_edge:
  assumes "set asks \<subseteq> set asks'" and "n < lp_defer_cycles pol"
    and "st' = (record_overseer_seen pending asks st)\<lparr>ls_cycles := ls_cycles st + n\<rparr>" and "p \<in> set (take OVERSEER_BRIEF_CAP pending)"
  shows "p \<notin> set (fst (split_pending_for_overseer pol st' pending' asks'))"
  by (rule split_after_seen [OF assms])

theorem overseer_wake_is_an_edge_day:
  "''proposal-0002'' \<notin> set (fst (split_pending_for_overseer ore_lanes ((record_overseer_seen [''proposal-0002''] [''ask-0001''] ore_state)
     \<lparr>ls_cycles := ls_cycles ore_state + 5\<rparr>) [''proposal-0002''] [''ask-0001'', ''ask-0002'']))"
  by (rule overseer_wake_is_an_edge [where asks = "[''ask-0001'']" and n = 5 and st = ore_state and pending = "[''proposal-0002'']"])
    (simp_all add: ore_lanes_def OVERSEER_BRIEF_CAP_def)

section \<open>Ending a pause\<close>

text \<open>C21: Every way out of a pause, over the whole paused part of a cycle and whatever the tools
  answer: if clock.resume was called it was called once, not on a dry run and not under an operator hold;
  either every recent cause the last pause.why named is on the harmless list, the play screen is up, no
  popup is left, no escalation owns the pause and it was not tried before in this pause; or an Overseer ran
  in this cycle after the latest verdict id was read, cleanly and without a detected escalation, and a
  verdict read after its run says resume. Under a latched tripwire only the latter, with the latch cleared
  just before.\<close>

theorem resume_only_on_cause_or_word:
  assumes "paused_part d tick nc status hold cy = (res, cy')" and "sp_read_tool (ep_stock (cd_exec d)) \<noteq> ''clock.resume''"
    and "resumes (cy_trace cy') \<noteq> resumes (cy_trace cy)"
  shows "\<not> cd_dry d \<and> \<not> hs_held hold \<and> resumes (cy_trace cy') = Suc (resumes (cy_trace cy)) \<and>
    (if getj status ''tripwire'' \<noteq> JNull
     then resumed_on_word d (latched_tools d) hold [clear_call] (cy_trace cy) (cy_trace cy')
     else resumed_on_word d {} hold [] (cy_trace cy) (cy_trace cy') \<or>
       ws_owned (cy_watch cy) \<noteq> Some OWNED_ESCALATION \<and> ws_resume_attempts (cy_watch cy) < 1 \<and>
       (\<exists>mid y post. cy_trace cy' = cy_trace cy @ mid @ [why_read (cd_pause d), resume_call] @ post \<and>
          cd_world d (cy_trace cy @ mid) WHY_TOOL_ID [(''window_ticks'', JInt (pp_window (cd_pause d)))] = Some (JObj y) \<and>
          safe_to_resume (cd_pr d) (cd_pause d) status y))"
  by (rule paused_part_resume [OF assms])

theorem resume_only_on_cause_or_word_latch:
  "resumed_on_word (conductor_of ''FORT_DEFEATED'' False) (latched_tools (conductor_of ''FORT_DEFEATED'' False)) NO_HOLD [clear_call]
     [] (paused_trace ''FORT_DEFEATED'' (JObj starving))"
proof -
  obtain res cy' where p: "paused_part (conductor_of ''FORT_DEFEATED'' False) (Some 50000) [] (pause_status (JObj starving)) NO_HOLD
      quiet_files = (res, cy')" by fastforce
  then have t: "cy_trace cy' = paused_trace ''FORT_DEFEATED'' (JObj starving)" by (simp add: paused_trace_def)
  have n: "resumes (cy_trace cy') \<noteq> resumes (cy_trace quiet_files)" using latched_resumed by (simp add: t quiet_files_def)
  from resume_only_on_cause_or_word [OF p _ n] show ?thesis
    by (simp add: t conductor_tools pause_status_trip, simp add: quiet_files_def)
qed

text \<open>C22: Over any sequence of watchdog passes from a fresh state, with any answers of the tools,
  clock.resume is called at most once more than the number of pauses that ended (passes that found the fort
  running or latched, or whose own resume moved the clock).\<close>

theorem one_resume_per_pause:
  "resumes (fst (snd (watch_passes pr pol is new_watch tr))) \<le>
     resumes tr + 1 + pauses_ended is (snd (snd (watch_passes pr pol is new_watch tr)))"
  using passes_budget [of pr pol "is" new_watch tr] by (cases "watch_passes pr pol is new_watch tr") (simp add: new_watch_def resume_budget_def)

theorem no_alert_overdue:
  assumes "pp_liveness pol > 0"
  shows "\<not> liveness_due (fst (run_pause_watch pr w pol status now False held tr st)) pol now"
  using run_pause_watch_overdue [OF _ assms] by (cases "run_pause_watch pr w pol status now False held tr st") auto

theorem no_alert_overdue_shipped:
  "\<not> liveness_due (fst (run_pause_watch (\<lambda>_. []) (\<lambda>_ _ _. None) shipped_pause (pause_status JNull) 9000 False False []
     (new_watch\<lparr>ws_episode := Some 7000\<rparr>))) shipped_pause 9000"
  by (rule no_alert_overdue) (simp add: shipped_pause_def)

text \<open>C23: The reader of the operator hold fails toward holding: whatever is on the disk, the fort is
  not held only if there is no file, or a well-formed document has run out; unreadable, malformed and
  wrongly typed files all hold.\<close>

theorem hold_lapses_only_when_due: "hs_held (read_hold pr now f) \<longleftrightarrow> f \<noteq> NoFile \<and> \<not> run_out now f"
  by (rule read_hold_held)

theorem hold_reads_back:
  assumes "set_hold os_user reason who now expires_in allow = Inr f"
  shows "read_hold pr now f = NO_HOLD\<lparr>hs_held := True, hs_reason := Some (one_line reason), hs_since := Some now,
     hs_who := who_of pr (JStr (case who of Some (c # cs) \<Rightarrow> c # cs | _ \<Rightarrow> os_user)),
     hs_expires_at := map_option (\<lambda>e. now + e) expires_in, hs_allow_execution := allow\<rparr>"
  by (rule set_hold_reads_back [OF assms])

theorem hold_reads_back_patch: "hs_reason (read_hold (\<lambda>_. []) 500 patch_hold) = Some ''patching the server''"
  using hold_reads_back [OF patch_hold_set, of "\<lambda>_. []"] by (simp add: patch_reason)



theorem latched_cycle_speaks:
  assumes "tripwire_cycle d tick nc status trip hold cy = (res, cy')" and "\<not> cd_dry d"
  shows "(\<exists>out. cr_watch res = Some out \<and> (wo_resumed out \<or> wo_alerts out \<noteq> [] \<or> hs_held hold \<and> wo_verdict out = V_HELD) \<and>
      (cr_clock res = Full_Speed \<longleftrightarrow> wo_resumed out)) \<and>
    (cr_runs res \<noteq> [] \<and> cr_escalated res \<longrightarrow> ws_owned (cy_watch cy') = Some OWNED_ESCALATION)"
  using tripwire_cycle_silent [OF assms] by blast

theorem latched_cycle_speaks_unread:
  "wo_alerts (the (cr_watch (fst unread_latch))) \<noteq> [] \<and> cr_clock (fst unread_latch) = Paused"
proof -
  have "\<exists>out. cr_watch (fst unread_latch) = Some out \<and> (wo_resumed out \<or> wo_alerts out \<noteq> [] \<or> hs_held NO_HOLD \<and> wo_verdict out = V_HELD) \<and>
      (cr_clock (fst unread_latch) = Full_Speed \<longleftrightarrow> wo_resumed out)"
    using latched_cycle_speaks [of "conductor_of ''FORT_DEFEATED'' False" "Some 50000" "[]" "pause_status (JObj starving)" starving NO_HOLD
      "quiet_files\<lparr>cy_trip := None\<rparr>" "fst unread_latch" "snd unread_latch"] by (simp add: unread_latch_def conductor_tools)
  with unread_clock show ?thesis by auto
qed

text \<open>C25: When the tools of a run are named as the gateway names them, server prefix and underscores,
  the test for a clean escalation fails on every run, escalated or not.\<close>

theorem wire_escalations_unseen:
  assumes "\<forall>t \<in> set (rr_tools r). \<exists>server tid. CHR ''.'' \<in> set tid \<and> t = wire_name server tid"
  shows "\<not> overseer_called_escalate r"
  by (rule wire_escalation_missed [OF assms])

theorem wire_escalations_unseen_df:
  "\<not> overseer_called_escalate (clean_run\<lparr>rr_tools := [wire_name ''df-overseer'' ESCALATE_TOOL_ID]\<rparr>)"
proof (rule wire_escalations_unseen)
  have "CHR ''.'' \<in> set ESCALATE_TOOL_ID" by (simp add: ESCALATE_TOOL_ID_def)
  then show "\<forall>t\<in>set (rr_tools (clean_run\<lparr>rr_tools := [wire_name ''df-overseer'' ESCALATE_TOOL_ID]\<rparr>)).
      \<exists>server tid. CHR ''.'' \<in> set tid \<and> t = wire_name server tid" by auto
qed

theorem unread_check_left_running:
  assumes "w (wp_trace p) ''clock.resume'' [] = Some res" and "truthy (getj (fields_of res) ''ok'')"
    and "w (wp_trace p @ [resume_call, Slept (pp_verify_wait pol)]) ''clock.status'' [] = None"
  shows "\<not> fst (resume_and_verify w pol before p) \<and>
    wp_trace (snd (resume_and_verify w pol before p)) = wp_trace p @ [resume_call, Slept (pp_verify_wait pol), Called ''clock.status'' []]"
  using unread_check_not_paused [of w "wp_trace p" res pol p before] assms by simp

theorem unread_check_left_running_deaf:
  "wp_trace (snd (resume_and_verify (\<lambda>_ n _. if n = ''clock.resume'' then Some (JObj [(''ok'', JBool True)]) else None) shipped_pause (Some 50000)
      (as_pass quiet_files))) = [resume_call, Slept 3, Called ''clock.status'' []]"
  using unread_check_left_running [of "\<lambda>_ n _. if n = ''clock.resume'' then Some (JObj [(''ok'', JBool True)]) else None"
      "as_pass quiet_files" "JObj [(''ok'', JBool True)]" shipped_pause "Some 50000"]
  by (simp add: as_pass_def quiet_files_def getj_def shipped_pause_def)

section \<open>The executor's calls\<close>



text \<open>C27: The real call of a tool with a dry run has exactly the arguments of a dry run made before
  it in the same call, whose output passed the declared verdict, with the flag turned.\<close>

theorem real_call_was_rehearsed:
  assumes "run_step h arguments s = (r, t)" and "fair_others h" and "ss_events t = ss_events s @ es" and "Real which a \<in> set es"
    and "spec_of h which = Some (Some spec)" and "sx_dry_run spec"
  shows "\<exists>b es1 es2 es3 dry. a = setj b DRY_RUN_ARG (JStr ''false'') \<and>
    es = es1 @ [Dry which (setj b DRY_RUN_ARG (JStr ''true''))] @ es2 @ [Real which a] @ es3 \<and>
    xh_call h (ss_events s @ es1) which (setj b DRY_RUN_ARG (JStr ''true'')) = Answer dry \<and> judge (xh_pr h) spec dry True = Passed"
  by (rule sent_rehearsed [OF assms])

theorem real_call_was_rehearsed_well:
  "\<exists>es b dry. xh_call (well_host (Answer (well_done False))) es ''well.build'' (setj b DRY_RUN_ARG (JStr ''true'')) = Answer dry \<and>
    judge (\<lambda>_. ''value'') well_spec dry True = Passed \<and> [(''landmark'', JStr ''dining hall''), (''dry_run'', JStr ''false'')] =
    setj b DRY_RUN_ARG (JStr ''false'')"
  using real_call_was_rehearsed [of "well_host (Answer (well_done False))" step_1 at_opened "fst built" "snd built" "ss_events (snd built)"
      "''well.build''" "[(''landmark'', JStr ''dining hall''), (''dry_run'', JStr ''false'')]" well_spec]
  by (auto simp: built_calls others_idle at_opened_events well_called well_spec_of host_printer)



text \<open>C29: When a real call ended without a known outcome, running the step again makes no real call,
  whatever the tools answer, as long as the other sessions leave the run in flight alone.\<close>

theorem unanswered_call_not_repeated:
  assumes "run_step h arguments s = (r, t)" and "fair_others h" and "others_keep h" and "reachable (xh_cf h) (ss_queue s)"
    and "ss_events t = ss_events s @ es" and "Real which a \<in> set es" and "class_of r \<notin> {''success'', ''failed'', ''transient''}"
    and "named arguments ''step_id'' sid" and "\<not> is_cleanup sid" and "run_step h arguments t = (r', t')"
  shows "\<exists>es'. ss_events t' = ss_events t @ es' \<and> (\<forall>e \<in> set es'. \<not> is_real e)"
  by (rule unanswered_then [OF assms])

theorem unanswered_call_not_repeated_lost:
  "\<exists>es'. ss_events (snd (run_step lost_host step_1 (snd lost))) = ss_events (snd lost) @ es' \<and> filter is_real es' = []"
  using unanswered_call_not_repeated [of lost_host step_1 at_opened "fst lost" "snd lost" "ss_events (snd lost)" "''well.build''"
      "[(''landmark'', JStr ''dining hall''), (''dry_run'', JStr ''false'')]" "''project-0001/s1''"
      "fst (run_step lost_host step_1 (snd lost))" "snd (run_step lost_host step_1 (snd lost))"]
  by (auto simp: lost_calls lost_others at_opened_events well_called step_1_named step_1_no_cleanup filter_empty_conv)



text \<open>C31: The baseline read before a call, read back after it: an unchanged list means nothing
  landed, and a list with one more row of a fresh handle that matches the call means that handle landed,
  wherever the row stands.\<close>

theorem read_back_tells:
  assumes "landed_rows e before = Some rows" and "getj e ''kind'' = JStr ''new_row''" and "landed_baseline pr e before ctx = Some b"
    and "substitute pr ctx (getj (fields_of (getj e ''match'')) ''ends_with'') = Some suffix"
    and "landed_rows e later = Some (xs @ JObj r # ys)" and "set rows = set (xs @ ys)"
    and "row_handle pr e r \<notin> handles_of pr e rows" and "matches_row e (py_str pr suffix) r"
  shows "landed_resolve pr e b before ctx = Some Nothing_landed \<and> landed_resolve pr e b later ctx = Some (Landed (row_handle pr e r))"
  using unchanged_read_landed_nothing [OF assms(1-4)] one_new_row_landed [OF assms] by blast

theorem read_back_tells_well:
  "landed_resolve (\<lambda>_. []) well_entry well_before (wells []) well_args = Some Nothing_landed \<and>
    landed_resolve (\<lambda>_. []) well_entry well_before (wells [Real ''well.build'' []]) well_args = Some (Landed ''building-12'')"
  using read_back_tells [OF wells_reads] by (simp add: wells_after)





text \<open>C34: Whatever the tools, the game and the database do, an answer of run_step has one of the
  seven classes the conductor tells apart.\<close>

theorem run_answers_are_classed:
  assumes "run_step h arguments s = (Inr w, t)"
  shows "\<exists>c \<in> {''not_runnable'', ''waiting'', ''needs_judgment'', ''transient'', ''uncertain'', ''failed'', ''success''}. getj w ''class'' = JStr c"
  using run_step_class [OF assms] by (auto simp: classed_def)

theorem run_answers_are_classed_lost:
  "\<exists>c. c \<in> {''not_runnable'', ''waiting'', ''needs_judgment'', ''transient'', ''uncertain'', ''failed'', ''success''} \<and>
    getj (projr (fst lost)) ''class'' = JStr c"
proof -
  have "run_step lost_host step_1 at_opened = (Inr (projr (fst lost)), snd lost)" using lost_calls(1) lost_result by simp
  from run_answers_are_classed [OF this] show ?thesis by blast
qed

theorem executor_reads_the_same_plan:
  assumes "reachable cf q" and "p \<in> set (q_records q)" and "is_kind ''project'' p" and "getj p ''id'' = JStr pid"
  shows "plan_steps (q_records q) pid = current_steps q p"
  by (rule plan_agrees [OF assms])

theorem executor_reads_the_same_plan_day:
  "plan_steps (q_records closed_day) ''project-0001'' = current_steps closed_day project_1"
  by (rule executor_reads_the_same_plan [OF day_reachable(7) _ day_kinds(3)]) (simp_all add: day_records project_1_def getj_def)

section \<open>The tools of a role\<close>




definition well_specs :: "arg_spec list" where
  "well_specs = [\<lparr>ag_name = ''landmark'', ag_raw = ''LANDMARK'', ag_required = True, ag_int = False, ag_choices = None, ag_repeated = False, ag_group = None\<rparr>,
     \<lparr>ag_name = ''level'', ag_raw = ''[LEVEL]'', ag_required = False, ag_int = True, ag_choices = None, ag_repeated = False, ag_group = None\<rparr>,
     \<lparr>ag_name = ''dry_run'', ag_raw = ''[DRY_RUN]'', ag_required = False, ag_int = False, ag_choices = None, ag_repeated = False, ag_group = None\<rparr>]"

lemma well_line: "argv_for_call printer well_build (at_hall False) = Inr (''df-overseer-well'' # ''build'' # [''dining hall'', ''0'', ''true''])"
    "arg_specs (rt_args well_build) = Some well_specs" "te_skippable well_build = []"
  by code_simp+


text \<open>C37: On the positional command line of an accepted call the words of an argument stand at its
  own position in the signature, whatever other optional arguments were left out (required arguments first,
  no skippable slots): earlier slots are filled by their defaults or the call is refused.\<close>

theorem arguments_keep_their_places:
  assumes "argv_for_call pr t args = Inr (script # verb # ws)" and "arg_specs (rt_args t) = Some specs"
    and "te_skippable t = []" and "sorted_wrt (\<lambda>a b. ag_required b \<longrightarrow> ag_required a) specs"
    and "i < length specs" and "is_supplied (specs ! i) args"
  shows "\<exists>xs ys zs. ws = xs @ ys @ zs \<and> length xs = i \<and>
    map (validate_value pr (specs ! i)) (spec_items (specs ! i) (getj args (ag_name (specs ! i)))) = map Inr ys"
  by (rule argument_placed [OF assms])

theorem arguments_keep_their_places_well:
  "\<exists>xs ys zs. [''dining hall'', ''0'', ''true''] = xs @ ys @ zs \<and> length xs = 2 \<and> map Inr ys =
    map (validate_value printer (well_specs ! 2)) (spec_items (well_specs ! 2) (getj (at_hall False) ''dry_run''))"
  using arguments_keep_their_places [OF well_line, of 2] by (simp add: well_specs_def at_hall_def is_supplied_def spec_items_def getj_def eq_commute)

text \<open>C38: A call of the sole writer to a direct tool that is not a preview never runs a line: it
  makes no real call, it moves the queue only by operations of the store, and when it is answered as filed,
  a proposal with exactly the tool and the recorded arguments and an accepting ruling on it are the last two
  records, under the ids of the answer.\<close>

theorem direct_write_is_filed:
  assumes "handle_call_tool sv (Some role) name args s = (x, u)" and "map_of (sv_names sv) name = Some tid"
    and "tool_of (sv_registry sv) tid = Some t" and "\<not> te_native t"
    and "is_direct_tool (xh_cf (sv_base sv)) tid role" and "\<not> is_preview (xh_pr (sv_base sv)) t args"
    and "fair_others (sv_base sv)"
  shows "(\<nexists>c ws r. x = Ran_line c ws r) \<and> (qstep (xh_cf (sv_base sv)))\<^sup>*\<^sup>* (ss_queue s) (ss_queue u) \<and>
    (\<exists>es. ss_events u = ss_events s @ es \<and> (\<forall>e \<in> set es. \<not> is_real e)) \<and>
    (\<forall>out. x = Filed out \<longrightarrow> on_the_log (ss_queue u) tid (recorded_args args) out)"
  using direct_write [OF assms] by blast

theorem direct_write_is_filed_well:
  "\<exists>u::session. on_the_log (ss_queue u) ''well.build'' [(''landmark'', JStr ''dining hall'')]
    [(''queued'', JBool True), (''proposal_id'', JStr ''proposal-0001''), (''ruling_id'', JStr ''ruling-0001''), (''tool'', JStr ''well.build'')]"
proof -
  obtain x u where u: "handle_call_tool fort_server (Some ''overseer'') ''well__build'' (at_hall True) nobody = (x, u)" by force
  have b: "map_of (sv_names fort_server) ''well__build'' = Some ''well.build''" "tool_of (sv_registry fort_server) ''well.build'' = Some well_build"
    "\<not> te_native well_build" "is_direct_tool (xh_cf (sv_base fort_server)) ''well.build'' ''overseer''"
    "\<not> is_preview (xh_pr (sv_base fort_server)) well_build (at_hall True)"
    using write_checked by simp_all
  from direct_write_is_filed [OF u b fort_base(1)] write_filed u show ?thesis
    by (auto simp: direct_args)
qed



text \<open>C40: Every fact a filed proposal relies on is recorded with a value the server itself read for
  it, in order, from a tool of the game that changes nothing and is on the lists of the proposing role, at
  the cited field of the result.\<close>

theorem cited_values_are_read:
  assumes "handle_call_tool sv (Some role) name args s = (Answered out, u)" and "map_of (sv_names sv) name = Some ''queue.propose''"
    and "has args ''relies_on''"
  shows "\<exists>tick cs. getj out ''cited'' = JArr cs \<and> list_all2 (\<lambda>ref c. \<exists>v tr w t why. c = cited_entry ref v tick \<and> is_scalar_fact v \<and>
      tool_of (sv_registry sv) (str_of (getj ref ''tool'')) = Some t \<and> \<not> te_native t \<and> \<not> te_mutates t \<and>
      check_access (sv_roster sv) role (str_of (getj ref ''tool'')) = Ok (True, why) \<and>
      read_fact sv tr role (str_of (getj ref ''tool'')) (fact_args ref) = Some w \<and>
      extract_field (split_on (CHR ''.'') (str_of (getj ref ''field''))) w = Some v)
    (map fields_of (items_of (getj args ''relies_on''))) cs"
proof -
  from answered_by_queue [OF assms(1)] assms(2) have m: "propose (server_queue sv) role args s = (Inr out, u)"
    by (auto simp: queue_tool_def)
  from propose_filed(3) [OF this assms(3)] obtain tick cs where c: "getj out ''cited'' = JArr cs"
    "list_all2 (\<lambda>ref c. \<exists>v. c = cited_entry ref v tick \<and> read_value (server_queue sv) role ref v)
      (map fields_of (items_of (getj args ''relies_on''))) cs" by blast
  have "\<exists>tr w t why. is_scalar_fact v \<and> tool_of (sv_registry sv) (str_of (getj ref ''tool'')) = Some t \<and> \<not> te_native t \<and> \<not> te_mutates t \<and>
      check_access (sv_roster sv) role (str_of (getj ref ''tool'')) = Ok (True, why) \<and>
      read_fact sv tr role (str_of (getj ref ''tool'')) (fact_args ref) = Some w \<and>
      extract_field (split_on (CHR ''.'') (str_of (getj ref ''field''))) w = Some v"
    if "read_value (server_queue sv) role ref v" for ref v
  proof -
    from that obtain tr w where r: "is_scalar_fact v" "read_fact sv tr role (str_of (getj ref ''tool'')) (fact_args ref) = Some w"
      "extract_field (split_on (CHR ''.'') (str_of (getj ref ''field''))) w = Some v"
      by (auto simp: read_value_def server_queue_def bind_eq_Some_conv)
    from read_fact_allowed [OF r(2)] r show ?thesis by blast
  qed
  with c(2) have "list_all2 (\<lambda>ref c. \<exists>v tr w t why. c = cited_entry ref v tick \<and> is_scalar_fact v \<and>
      tool_of (sv_registry sv) (str_of (getj ref ''tool'')) = Some t \<and> \<not> te_native t \<and> \<not> te_mutates t \<and>
      check_access (sv_roster sv) role (str_of (getj ref ''tool'')) = Ok (True, why) \<and>
      read_fact sv tr role (str_of (getj ref ''tool'')) (fact_args ref) = Some w \<and>
      extract_field (split_on (CHR ''.'') (str_of (getj ref ''field''))) w = Some v)
    (map fields_of (items_of (getj args ''relies_on''))) cs"
    by (elim list_all2_mono) blast
  with c(1) show ?thesis by blast
qed

theorem cited_values_are_read_order:
  "\<exists>r tick v tr w. getj r ''cited'' = JArr [cited_entry fact_ref v tick] \<and>
      read_fact fort_server tr ''quartermaster'' ''well.list'' [] = Some w \<and> extract_field [''ok''] w = Some v"
proof -
  obtain r u where a: "handle_call_tool fort_server (Some ''quartermaster'') ''queue__propose'' order_call nobody = (Answered r, u)"
    using order_answered by blast
  have n: "map_of (sv_names fort_server) ''queue__propose'' = Some ''queue.propose''" using queue_name by simp
  have h: "has order_call ''relies_on''" "map fields_of (items_of (getj order_call ''relies_on'')) = [fact_ref]"
    "split_on (CHR ''.'') ''ok'' = [''ok'']" by code_simp+
  from cited_values_are_read [OF a n h(1), unfolded h(2)] obtain tick c v tr w where "getj r ''cited'' = JArr [c]"
    "c = cited_entry fact_ref v tick" "read_fact fort_server tr ''quartermaster'' (str_of (getj fact_ref ''tool'')) (fact_args fact_ref) = Some w"
    "extract_field (split_on (CHR ''.'') (str_of (getj fact_ref ''field''))) w = Some v" by (auto simp: list_all2_Cons1)
  then show ?thesis unfolding fact_checks h(3) by blast
qed

end
